(* ===== verification/Rust_Prelude.thy ===== *)
theory Rust_Prelude
  imports Complex_Main "HOL-Library.Word" "HOL-Library.AList" "HOL-Library.Char_ord"
    "HOL-Library.List_Lexorder" "HOL-Library.Sublist"
begin

text \<open>
  The prelude: what the components use of Rust and of its standard library.
  Fixed-width integers are words, \<open>Result\<close> is a sum with the error on the left, the
  \<open>?\<close> operator on a run of checks is \<open>checks\<close>, \<open>str\<close> is its UTF-8 bytes (so that
  \<open>len\<close> counts bytes and \<open>chars\<close> counts code points), \<open>HashMap\<close> is an association
  list with distinct keys in an arbitrary iteration order, \<open>BTreeMap\<close> one that is
  sorted by its keys. The lemmas shared by the components stand here.
\<close>

named_theorems rust_simps \<open>unfolding rules for the Rust library functions\<close>
named_theorems inv_intros \<open>introduction rules of the components' invariants\<close>

subsection \<open>Machine integers\<close>

type_synonym u8 = "8 word"
type_synonym u16 = "16 word"
type_synonym u32 = "32 word"
type_synonym u64 = "64 word"
type_synonym i64 = int

definition i64_max :: int where
  "i64_max = 2 ^ 63 - 1"

definition i64_min :: int where
  "i64_min = - (2 ^ 63)"

definition clamp_i64 :: "int \<Rightarrow> i64" where
  "clamp_i64 x = max i64_min (min i64_max x)"

definition i64_saturating_sub :: "i64 \<Rightarrow> i64 \<Rightarrow> i64" where
  "i64_saturating_sub a b = clamp_i64 (a - b)"

definition saturating_add :: "'a::len word \<Rightarrow> 'a word \<Rightarrow> 'a word" where
  "saturating_add a b = (if unat a + unat b < 2 ^ LENGTH('a) then a + b else - 1)"

definition saturating_sub :: "'a::len word \<Rightarrow> 'a word \<Rightarrow> 'a word" where
  "saturating_sub a b = (if b \<le> a then a - b else 0)"

text \<open>\<open>i64::try_from(x).unwrap_or(i64::MAX)\<close> for a \<open>u64\<close>, and \<open>y.max(0) as u64\<close> back.\<close>

definition u64_to_i64_or_max :: "u64 \<Rightarrow> i64" where
  "u64_to_i64_or_max x = min (uint x) i64_max"

definition i64_max0_as_u64 :: "i64 \<Rightarrow> u64" where
  "i64_max0_as_u64 y = word_of_int (max y 0)"

lemma unat_bound: "unat w < 2 ^ LENGTH('a)" for w :: "'a::len word"
  by (rule unsigned_less)

lemma unat_saturating_add:
  "unat (saturating_add a b) = min (unat a + unat b) (2 ^ LENGTH('a) - 1)"
  for a b :: "'a::len word"
  using unsigned_less[of a] unsigned_less[of b]
  by (auto simp: saturating_add_def unat_word_ariths min_def unsigned_minus_1_eq_mask mask_eq_exp_minus_1)

lemma saturating_add_ge: "a \<le> saturating_add a b" for a b :: "'a::len word"
proof -
  have "unat a < 2 ^ LENGTH('a)" by (rule unsigned_less)
  then have "unat a \<le> 2 ^ LENGTH('a) - 1" by linarith
  then show ?thesis by (simp add: word_le_nat_alt unat_saturating_add)
qed

lemma i64_u64_roundtrip:
  "uint x \<le> i64_max \<Longrightarrow> i64_max0_as_u64 (u64_to_i64_or_max x) = x"
  by (simp add: i64_max0_as_u64_def u64_to_i64_or_max_def min_def)

subsection \<open>Results and the question-mark operator\<close>

type_synonym ('e, 'a) result = "'e + 'a"

abbreviation Err :: "'e \<Rightarrow> ('e, 'a) result" where "Err \<equiv> Inl"
abbreviation Ok :: "'a \<Rightarrow> ('e, 'a) result" where "Ok \<equiv> Inr"

definition ok_or :: "'e \<Rightarrow> 'a option \<Rightarrow> ('e, 'a) result" where
  "ok_or e x = (case x of None \<Rightarrow> Err e | Some v \<Rightarrow> Ok v)"

definition and_then :: "('e, 'a) result \<Rightarrow> ('a \<Rightarrow> ('e, 'b) result) \<Rightarrow> ('e, 'b) result" where
  "and_then r f = (case r of Err e \<Rightarrow> Err e | Ok v \<Rightarrow> f v)"

fun checks :: "('e, unit) result list \<Rightarrow> ('e, unit) result" where
  "checks [] = Ok ()"
| "checks (Err e # cs) = Err e"
| "checks (Ok u # cs) = checks cs"

text \<open>\<open>collect\<close> into a \<open>Result\<close> of a vector: the first error wins.\<close>

fun collect_results :: "('e, 'a) result list \<Rightarrow> ('e, 'a list) result" where
  "collect_results [] = Ok []"
| "collect_results (r # rs) = and_then r (\<lambda>x. and_then (collect_results rs) (\<lambda>xs. Ok (x # xs)))"

lemma and_then_simps [simp]:
  "and_then (Err e) f = Err e" "and_then (Ok v) f = f v"
  by (simp_all add: and_then_def)

lemma and_then_eq_Ok: "and_then r f = Ok v \<longleftrightarrow> (\<exists>u. r = Ok u \<and> f u = Ok v)"
  by (cases r) auto

lemma checks_Cons: "checks (c # cs) = (case c of Err e \<Rightarrow> Err e | Ok _ \<Rightarrow> checks cs)"
  by (cases c) auto

lemma checks_append: "checks (xs @ ys) = (case checks xs of Err e \<Rightarrow> Err e | Ok _ \<Rightarrow> checks ys)"
  by (induction xs rule: checks.induct) auto

lemma checks_Ok_iff: "checks cs = Ok () \<longleftrightarrow> (\<forall>c\<in>set cs. c = Ok ())"
  by (induction cs rule: checks.induct) auto

lemma checks_Err_iff:
  "checks cs = Err e \<longleftrightarrow> (\<exists>xs ys. cs = xs @ Err e # ys \<and> (\<forall>c\<in>set xs. c = Ok ()))"
proof (induction cs rule: checks.induct)
  case (2 e' cs)
  show ?case by (auto simp: Cons_eq_append_conv)
next
  case (3 u cs)
  then show ?case by (auto simp: Cons_eq_append_conv) (metis append_Cons set_ConsD)
qed auto

lemma unit_result_not_Ok: "r \<noteq> Ok () \<longleftrightarrow> (\<exists>e. r = Err e)" for r :: "('e, unit) result"
  by (cases r) auto

end
