(* ===== verification/Rust_Str.thy ===== *)
theory Rust_Str
  imports Rust_Prelude
begin

text \<open>
  Rust strings. A \<open>String\<close> is the list of its UTF-8 bytes; the continuation bytes of a
  code point are those from 0x80 to 0xBF, so the code points of a valid string are
  counted by its other bytes. \<open>trim\<close> removes the encodings of the Unicode white space
  characters. The composite keys \<open>{a}\0{b}\<close> of the Hub's tables are injective on
  identifiers without a NUL.
\<close>

subsection \<open>Code points of a UTF-8 string\<close>

definition is_continuation :: "char \<Rightarrow> bool" where
  "is_continuation c \<longleftrightarrow> 128 \<le> (of_char c :: nat) \<and> (of_char c :: nat) < 192"

definition chars_count :: "string \<Rightarrow> nat" where
  "chars_count s = length (filter (\<lambda>c. \<not> is_continuation c) s)"

text \<open>\<open>value.chars().take(n).collect::<String>()\<close>\<close>

fun take_chars :: "nat \<Rightarrow> string \<Rightarrow> string" where
  "take_chars n [] = []"
| "take_chars n (c # cs) =
     (if is_continuation c then c # take_chars n cs
      else case n of 0 \<Rightarrow> [] | Suc m \<Rightarrow> c # take_chars m cs)"

lemma chars_count_take_chars: "chars_count (take_chars n s) = min n (chars_count s)"
  by (induction n s rule: take_chars.induct) (auto simp: chars_count_def split: nat.splits)

lemma prefix_take_chars: "prefix (take_chars n s) s"
  by (induction n s rule: take_chars.induct) (auto split: nat.splits)

lemma take_chars_all: "chars_count s \<le> n \<Longrightarrow> take_chars n s = s"
  by (induction n s rule: take_chars.induct)
    (auto simp: chars_count_def split: nat.splits if_splits)

lemma chars_count_le_length: "chars_count s \<le> length s"
  by (simp add: chars_count_def)

subsection \<open>White space\<close>

text \<open>The UTF-8 encodings of the code points with the Unicode property White\_Space.\<close>

definition white_space :: "string list" where
  "white_space =
     [[CHR 0x09], [CHR 0x0A], [CHR 0x0B], [CHR 0x0C], [CHR 0x0D], [CHR 0x20],
      [CHR 0xC2, CHR 0x85], [CHR 0xC2, CHR 0xA0], [CHR 0xE1, CHR 0x9A, CHR 0x80],
      [CHR 0xE2, CHR 0x80, CHR 0x80], [CHR 0xE2, CHR 0x80, CHR 0x81],
      [CHR 0xE2, CHR 0x80, CHR 0x82], [CHR 0xE2, CHR 0x80, CHR 0x83],
      [CHR 0xE2, CHR 0x80, CHR 0x84], [CHR 0xE2, CHR 0x80, CHR 0x85],
      [CHR 0xE2, CHR 0x80, CHR 0x86], [CHR 0xE2, CHR 0x80, CHR 0x87],
      [CHR 0xE2, CHR 0x80, CHR 0x88], [CHR 0xE2, CHR 0x80, CHR 0x89],
      [CHR 0xE2, CHR 0x80, CHR 0x8A], [CHR 0xE2, CHR 0x80, CHR 0xA8],
      [CHR 0xE2, CHR 0x80, CHR 0xA9], [CHR 0xE2, CHR 0x80, CHR 0xAF],
      [CHR 0xE2, CHR 0x81, CHR 0x9F], [CHR 0xE3, CHR 0x80, CHR 0x80]]"

text \<open>
  Removing a leading run of given non-empty words; the fuel is the length of the string,
  and every step removes at least one byte.
\<close>

fun strip_words :: "nat \<Rightarrow> string list \<Rightarrow> string \<Rightarrow> string" where
  "strip_words 0 ws s = s"
| "strip_words (Suc n) ws s =
     (case find (\<lambda>w. prefix w s) ws of
        None \<Rightarrow> s
      | Some w \<Rightarrow> strip_words n ws (drop (length w) s))"

definition trim_start :: "string \<Rightarrow> string" where
  "trim_start s = strip_words (length s) white_space s"

definition trim_end :: "string \<Rightarrow> string" where
  "trim_end s = rev (strip_words (length s) (map rev white_space) (rev s))"

definition trim :: "string \<Rightarrow> string" where
  "trim s = trim_end (trim_start s)"

lemma suffix_strip_words: "suffix (strip_words n ws s) s"
proof (induction n ws s rule: strip_words.induct)
  case (2 n ws s)
  then show ?case
    by (auto split: option.splits) (metis suffix_drop suffix_order.trans)
qed auto

lemma strip_words_no_prefix:
  assumes "[] \<notin> set ws" "length s \<le> n" "w \<in> set ws"
  shows "\<not> prefix w (strip_words n ws s)"
  using assms
proof (induction n ws s rule: strip_words.induct)
  case (1 ws s)
  then show ?case by auto
next
  case (2 n ws s)
  show ?case
  proof (cases "find (\<lambda>w. prefix w s) ws")
    case None
    then have "\<not> prefix w s" using 2(4) by (auto simp: find_None_iff)
    with None show ?thesis by simp
  next
    case (Some v)
    then have v: "v \<in> set ws" "prefix v s" by (auto simp: find_Some_iff)
    with 2(2) have "0 < length v" by auto
    with 2(3) have "length s - length v \<le> n" by linarith
    then have "length (drop (length v) s) \<le> n" by simp
    with 2 Some show ?thesis by simp
  qed
qed

lemma trim_start_stable: "w \<in> set white_space \<Longrightarrow> \<not> prefix w (trim_start s)"
  unfolding trim_start_def by (rule strip_words_no_prefix) (auto simp: white_space_def)

lemma length_trim: "length (trim s) \<le> length s"
proof -
  have "length (strip_words n ws t) \<le> length t" for n ws t
    by (rule suffix_length_le[OF suffix_strip_words])
  then show ?thesis
    unfolding trim_def trim_end_def trim_start_def by (metis length_rev order_trans)
qed

subsection \<open>ASCII classes and case\<close>

definition ascii :: "char \<Rightarrow> nat" where
  "ascii c = of_char c"

definition is_ascii_digit :: "char \<Rightarrow> bool" where
  "is_ascii_digit c \<longleftrightarrow> 48 \<le> ascii c \<and> ascii c \<le> 57"

definition is_ascii_alphanumeric :: "char \<Rightarrow> bool" where
  "is_ascii_alphanumeric c \<longleftrightarrow>
     is_ascii_digit c \<or> (65 \<le> ascii c \<and> ascii c \<le> 90) \<or> (97 \<le> ascii c \<and> ascii c \<le> 122)"

definition is_ascii_hexdigit :: "char \<Rightarrow> bool" where
  "is_ascii_hexdigit c \<longleftrightarrow>
     is_ascii_digit c \<or> (65 \<le> ascii c \<and> ascii c \<le> 70) \<or> (97 \<le> ascii c \<and> ascii c \<le> 102)"

definition to_ascii_lowercase :: "char \<Rightarrow> char" where
  "to_ascii_lowercase c = (if 65 \<le> ascii c \<and> ascii c \<le> 90 then char_of (ascii c + 32) else c)"

definition ascii_lowercase :: "string \<Rightarrow> string" where
  "ascii_lowercase s = map to_ascii_lowercase s"

definition eq_ignore_ascii_case :: "string \<Rightarrow> string \<Rightarrow> bool" where
  "eq_ignore_ascii_case s t \<longleftrightarrow> ascii_lowercase s = ascii_lowercase t"

lemma eq_ignore_ascii_case_refl [simp]: "eq_ignore_ascii_case s s"
  by (simp add: eq_ignore_ascii_case_def)

lemma eq_ignore_ascii_case_sym: "eq_ignore_ascii_case s t \<Longrightarrow> eq_ignore_ascii_case t s"
  by (simp add: eq_ignore_ascii_case_def)

lemma eq_ignore_ascii_case_trans:
  "eq_ignore_ascii_case s t \<Longrightarrow> eq_ignore_ascii_case t u \<Longrightarrow> eq_ignore_ascii_case s u"
  by (simp add: eq_ignore_ascii_case_def)

lemma of_char_to_ascii_lowercase:
  "ascii (to_ascii_lowercase c) = (if 65 \<le> ascii c \<and> ascii c \<le> 90 then ascii c + 32 else ascii c)"
  by (simp add: to_ascii_lowercase_def ascii_def)

lemma to_ascii_lowercase_idem [simp]:
  "to_ascii_lowercase (to_ascii_lowercase c) = to_ascii_lowercase c"
  by (auto simp: to_ascii_lowercase_def ascii_def)

lemma eq_ignore_ascii_case_lowercase [simp]: "eq_ignore_ascii_case (ascii_lowercase s) s"
  by (simp add: eq_ignore_ascii_case_def ascii_lowercase_def)

lemma ascii_alphanumeric_no_continuation: "is_ascii_alphanumeric c \<Longrightarrow> \<not> is_continuation c"
  by (auto simp: is_ascii_alphanumeric_def is_ascii_digit_def is_continuation_def ascii_def)

subsection \<open>Composite keys\<close>

definition join_key :: "char \<Rightarrow> string \<Rightarrow> string \<Rightarrow> string" where
  "join_key sep a b = a @ sep # b"

lemma join_key_inject:
  assumes "sep \<notin> set a" "sep \<notin> set a'"
  shows "join_key sep a b = join_key sep a' b' \<longleftrightarrow> a = a' \<and> b = b'"
proof
  assume eq: "join_key sep a b = join_key sep a' b'"
  have split: "takeWhile (\<lambda>c. c \<noteq> sep) (join_key sep x y) = x" if "sep \<notin> set x" for x y
    using that by (auto simp: join_key_def takeWhile_append2 takeWhile_tail)
  have "a = a'" using split[OF assms(1), of b] split[OF assms(2), of b'] eq by simp
  with eq show "a = a' \<and> b = b'" by (simp add: join_key_def)
qed simp

lemma prefix_join_key:
  assumes "sep \<notin> set a" "sep \<notin> set a'"
  shows "prefix (a @ [sep]) (join_key sep a' b) \<longleftrightarrow> a = a'"
proof
  assume "prefix (a @ [sep]) (join_key sep a' b)"
  then obtain t where "join_key sep a' b = join_key sep a t"
    by (auto simp: prefix_def join_key_def)
  then show "a = a'" using join_key_inject[OF assms(2,1)] by blast
qed (auto simp: join_key_def prefix_def)

subsection \<open>Decimal numbers\<close>

fun show_nat :: "nat \<Rightarrow> string" where
  "show_nat n = (if n < 10 then [char_of (48 + n)] else show_nat (n div 10) @ [char_of (48 + n mod 10)])"

declare show_nat.simps [simp del]

definition read_digits :: "string \<Rightarrow> nat" where
  "read_digits s = foldl (\<lambda>n c. n * 10 + (ascii c - 48)) 0 s"

lemma ascii_char_of [simp]: "n < 256 \<Longrightarrow> ascii (char_of n) = n"
  by (simp add: ascii_def)

lemma show_nat_digits: "\<forall>c\<in>set (show_nat n). is_ascii_digit c"
proof (induction n rule: show_nat.induct)
  case (1 n)
  then show ?case
    by (subst show_nat.simps) (auto simp: is_ascii_digit_def)
qed

lemma read_digits_show_nat: "read_digits (show_nat n) = n"
proof (induction n rule: show_nat.induct)
  case (1 n)
  then show ?case
    by (subst show_nat.simps) (auto simp: read_digits_def)
qed

lemma show_nat_inject: "show_nat a = show_nat b \<longleftrightarrow> a = b"
  by (metis read_digits_show_nat)

subsection \<open>Bytes and UTF-8\<close>

definition as_bytes :: "string \<Rightarrow> u8 list" where
  "as_bytes s = map (\<lambda>c. of_nat (ascii c)) s"

definition of_bytes :: "u8 list \<Rightarrow> string" where
  "of_bytes bs = map (\<lambda>b. char_of (unat b)) bs"

lemma as_bytes_inject [simp]: "as_bytes a = as_bytes b \<longleftrightarrow> a = b"
proof
  assume "as_bytes a = as_bytes b"
  moreover have "inj (\<lambda>c. of_nat (ascii c) :: u8)"
    by (rule injI) (simp add: ascii_def unsigned_of_nat word_of_nat_eq_iff take_bit_eq_mod)
  ultimately show "a = b" unfolding as_bytes_def by (metis inj_map_eq_map)
qed simp

lemma of_bytes_as_bytes [simp]: "of_bytes (as_bytes s) = s"
  by (induction s) (simp_all add: of_bytes_def as_bytes_def ascii_def unsigned_of_nat take_bit_eq_mod)

lemma length_as_bytes [simp]: "length (as_bytes s) = length s"
  by (simp add: as_bytes_def)

definition continuation :: "u8 list \<Rightarrow> bool" where
  "continuation bs = (case bs of [] \<Rightarrow> False | b # _ \<Rightarrow> 0x80 \<le> b \<and> b \<le> 0xBF)"

text \<open>
  The second byte a leading byte admits: the ranges of the Unicode standard that exclude
  overlong forms, surrogates and values beyond the last code point.
\<close>

definition second_byte_ok :: "u8 \<Rightarrow> u8 list \<Rightarrow> bool" where
  "second_byte_ok lead bs =
     (case bs of
        [] \<Rightarrow> False
      | b # _ \<Rightarrow>
          if lead = 0xE0 then 0xA0 \<le> b \<and> b \<le> 0xBF
          else if lead = 0xED then 0x80 \<le> b \<and> b \<le> 0x9F
          else if lead = 0xF0 then 0x90 \<le> b \<and> b \<le> 0xBF
          else if lead = 0xF4 then 0x80 \<le> b \<and> b \<le> 0x8F
          else 0x80 \<le> b \<and> b \<le> 0xBF)"

text \<open>The bytes of the next character and whether they are well formed; otherwise the bytes replaced as one.\<close>

definition utf8_step :: "u8 \<Rightarrow> u8 list \<Rightarrow> nat \<times> bool" where
  "utf8_step lead bs =
     (if lead < 0x80 then (1, True)
      else if 0xC2 \<le> lead \<and> lead \<le> 0xDF then (if continuation bs then (2, True) else (1, False))
      else if 0xE0 \<le> lead \<and> lead \<le> 0xEF then
        (if \<not> second_byte_ok lead bs then (1, False)
         else if \<not> continuation (drop 1 bs) then (2, False) else (3, True))
      else if 0xF0 \<le> lead \<and> lead \<le> 0xF4 then
        (if \<not> second_byte_ok lead bs then (1, False)
         else if \<not> continuation (drop 1 bs) then (2, False)
         else if \<not> continuation (drop 2 bs) then (3, False) else (4, True))
      else (1, False))"

lemma utf8_step_pos: "utf8_step lead bs = (n, ok) \<Longrightarrow> 0 < n"
  by (auto simp: utf8_step_def split: if_splits)

function utf8_valid :: "u8 list \<Rightarrow> bool" where
  "utf8_valid [] = True"
| "utf8_valid (b # bs) = (case utf8_step b bs of (n, ok) \<Rightarrow> ok \<and> utf8_valid (drop n (b # bs)))"
  by pat_completeness auto
termination
  by (relation "measure length") (auto dest!: sym[THEN utf8_step_pos])

function lossy_bytes :: "u8 list \<Rightarrow> u8 list" where
  "lossy_bytes [] = []"
| "lossy_bytes (b # bs) =
     (case utf8_step b bs of
        (n, ok) \<Rightarrow> (if ok then take n (b # bs) else [0xEF, 0xBF, 0xBD]) @ lossy_bytes (drop n (b # bs)))"
  by pat_completeness auto
termination
  by (relation "measure length") (auto dest!: sym[THEN utf8_step_pos])

definition from_utf8_lossy :: "u8 list \<Rightarrow> string" where
  "from_utf8_lossy bs = of_bytes (lossy_bytes bs)"

lemma lossy_bytes_valid: "utf8_valid bs \<Longrightarrow> lossy_bytes bs = bs"
  by (induction bs rule: utf8_valid.induct) (auto split: prod.splits)

lemma from_utf8_lossy_as_bytes: "utf8_valid (as_bytes s) \<Longrightarrow> from_utf8_lossy (as_bytes s) = s"
  by (simp add: from_utf8_lossy_def lossy_bytes_valid)

subsection \<open>Splitting\<close>

text \<open>\<open>str::split\<close> on a character.\<close>

fun split_char :: "char \<Rightarrow> string \<Rightarrow> string list" where
  "split_char c [] = [[]]"
| "split_char c (x # s) =
     (if x = c then [] # split_char c s
      else (case split_char c s of [] \<Rightarrow> [[x]] | t # ts \<Rightarrow> (x # t) # ts))"

lemma split_char_nonempty [simp]: "split_char c s \<noteq> []"
  by (induction s) (auto split: list.split)

lemma split_char_no_sep: "t \<in> set (split_char c s) \<Longrightarrow> c \<notin> set t"
  by (induction s arbitrary: t) (auto split: list.splits if_splits)

text \<open>Splitting loses nothing: the pieces, each after its separator, are the string after a separator.\<close>

lemma concat_split_char: "concat (map (\<lambda>t. c # t) (split_char c s)) = c # s"
proof (induction s)
  case (Cons x s)
  obtain t ts where "split_char c s = t # ts" using split_char_nonempty by (meson list.exhaust)
  then show ?case using Cons by auto
qed simp

lemma split_char_append: "c \<notin> set a \<Longrightarrow> split_char c (a @ c # s) = a # split_char c s"
  by (induction a) auto

lemma split_char_none: "c \<notin> set a \<Longrightarrow> split_char c a = [a]"
  by (induction a) auto

text \<open>Replaces each character, a lead byte with its continuation bytes, by one byte.\<close>

definition map_chars :: "(char \<Rightarrow> char) \<Rightarrow> string \<Rightarrow> string" where
  "map_chars f v = map f (filter (\<lambda>c. \<not> is_continuation c) v)"

text \<open>
  \<open>std::path::Path::file_name\<close> on Unix: the last component, where empty components and
  \<open>.\<close> are skipped, and nothing when it is \<open>..\<close> or there is no component.
\<close>

definition path_file_name :: "string \<Rightarrow> string option" where
  "path_file_name v =
     (let comps = filter (\<lambda>p. p \<noteq> [] \<and> p \<noteq> ''.'') (split_char CHR ''/'' v) in
      if comps = [] \<or> last comps = ''..'' then None else Some (last comps))"

end
