(* ===== verification/Rust_Collections.thy ===== *)
theory Rust_Collections
  imports Rust_Str
begin

text \<open>
  The maps of the Rust standard library. A \<open>HashMap\<close> is an association list with
  distinct keys, in whatever order its iterator yields them; a \<open>BTreeMap\<close> is one that
  is strictly sorted by key. Both satisfy the interface \<open>rust_map\<close>, and the facts on
  repeated and independent updates are proved once, inside it.
\<close>

subsection \<open>The interface\<close>

locale rust_map =
  fixes get :: "'m \<Rightarrow> 'k \<Rightarrow> 'v option"
    and insert_kv :: "'k \<Rightarrow> 'v \<Rightarrow> 'm \<Rightarrow> 'm"
    and remove_k :: "'k \<Rightarrow> 'm \<Rightarrow> 'm"
    and entries :: "'m \<Rightarrow> ('k \<times> 'v) list"
    and wf :: "'m \<Rightarrow> bool"
  assumes get_insert: "wf m \<Longrightarrow> get (insert_kv k v m) = (get m)(k \<mapsto> v)"
    and get_remove: "wf m \<Longrightarrow> get (remove_k k m) = (get m)(k := None)"
    and get_entries: "wf m \<Longrightarrow> get m = map_of (entries m)"
    and distinct_entries: "wf m \<Longrightarrow> distinct (map fst (entries m))"
    and wf_insert: "wf m \<Longrightarrow> wf (insert_kv k v m)"
    and wf_remove: "wf m \<Longrightarrow> wf (remove_k k m)"
begin

lemma get_insert_same: "wf m \<Longrightarrow> get (insert_kv k v m) k = Some v"
  by (simp add: get_insert)

lemma get_insert_other: "wf m \<Longrightarrow> k' \<noteq> k \<Longrightarrow> get (insert_kv k v m) k' = get m k'"
  by (simp add: get_insert)

lemma get_remove_same: "wf m \<Longrightarrow> get (remove_k k m) k = None"
  by (simp add: get_remove)

lemma get_insert_twice: "wf m \<Longrightarrow> get (insert_kv k v' (insert_kv k v m)) = get (insert_kv k v' m)"
  by (simp add: get_insert wf_insert)

lemma in_entries: "wf m \<Longrightarrow> (k, v) \<in> set (entries m) \<longleftrightarrow> get m k = Some v"
  by (simp add: get_entries distinct_entries)

lemma finite_dom_get: "wf m \<Longrightarrow> finite (dom (get m))"
  by (simp add: get_entries finite_dom_map_of)

lemma card_dom_get: "wf m \<Longrightarrow> card (dom (get m)) = length (entries m)"
  by (metis card_image_le distinct_card distinct_entries dom_map_of_conv_image_fst get_entries
      length_map list.set_map)

lemma length_entries_insert:
  assumes "wf m"
  shows "length (entries (insert_kv k v m)) =
    (if get m k = None then Suc (length (entries m)) else length (entries m))"
proof -
  have "length (entries (insert_kv k v m)) = card (dom (get (insert_kv k v m)))"
    by (simp add: card_dom_get wf_insert assms)
  also have "\<dots> = card (insert k (dom (get m)))"
    by (simp add: get_insert assms)
  also have "\<dots> = (if get m k = None then Suc (card (dom (get m))) else card (dom (get m)))"
    using finite_dom_get[OF assms] by (auto simp: card_insert_if domIff)
  finally show ?thesis by (simp add: card_dom_get assms)
qed

lemma length_entries_remove_le: "wf m \<Longrightarrow> length (entries (remove_k k m)) \<le> length (entries m)"
  by (metis Diff_subset card_dom_get card_mono dom_fun_upd finite_dom_get get_remove wf_remove)

lemma length_entries_remove:
  assumes "wf m" "get m k \<noteq> None"
  shows "Suc (length (entries (remove_k k m))) = length (entries m)"
proof -
  have "length (entries (remove_k k m)) = card (dom (get m) - {k})"
    by (metis assms(1) card_dom_get dom_fun_upd get_remove wf_remove)
  also have "Suc \<dots> = card (dom (get m))"
    using assms finite_dom_get[OF assms(1)] by (intro card.remove[symmetric]) (auto simp: domIff)
  finally show ?thesis by (simp add: card_dom_get assms)
qed

end

subsection \<open>HashMap\<close>

type_synonym ('k, 'v) hash_map = "('k \<times> 'v) list"

definition hm_wf :: "('k, 'v) hash_map \<Rightarrow> bool" where
  "hm_wf m \<longleftrightarrow> distinct (map fst m)"

definition hm_get :: "('k, 'v) hash_map \<Rightarrow> 'k \<Rightarrow> 'v option" where
  "hm_get m = map_of m"

definition hm_insert :: "'k \<Rightarrow> 'v \<Rightarrow> ('k, 'v) hash_map \<Rightarrow> ('k, 'v) hash_map" where
  "hm_insert k v m = AList.update k v m"

definition hm_remove :: "'k \<Rightarrow> ('k, 'v) hash_map \<Rightarrow> ('k, 'v) hash_map" where
  "hm_remove k m = AList.delete k m"

definition hm_retain :: "('k \<Rightarrow> 'v \<Rightarrow> bool) \<Rightarrow> ('k, 'v) hash_map \<Rightarrow> ('k, 'v) hash_map" where
  "hm_retain p m = filter (\<lambda>(k, v). p k v) m"

definition hm_values :: "('k, 'v) hash_map \<Rightarrow> 'v list" where
  "hm_values m = map snd m"

definition hm_contains :: "('k, 'v) hash_map \<Rightarrow> 'k \<Rightarrow> bool" where
  "hm_contains m k \<longleftrightarrow> hm_get m k \<noteq> None"

lemma hm_wf_Nil [simp]: "hm_wf []"
  by (simp add: hm_wf_def)

lemma hm_get_Nil [simp]: "hm_get [] k = None"
  by (simp add: hm_get_def)

interpretation hm: rust_map hm_get hm_insert hm_remove "\<lambda>m. m" hm_wf
  by unfold_locales
    (auto simp: hm_get_def hm_insert_def hm_remove_def hm_wf_def update_conv' delete_conv'
      distinct_update distinct_delete)

lemma hm_wf_retain [simp]: "hm_wf m \<Longrightarrow> hm_wf (hm_retain p m)"
  unfolding hm_wf_def hm_retain_def by (rule distinct_map_filter)

lemma map_of_filter_distinct:
  "distinct (map fst m) \<Longrightarrow>
     map_of (filter (\<lambda>(k, v). p k v) m) k =
       (case map_of m k of None \<Rightarrow> None | Some v \<Rightarrow> if p k v then Some v else None)"
  by (induction m) (auto split: option.splits simp: map_of_eq_None_iff image_iff)

lemma hm_get_retain:
  "hm_wf m \<Longrightarrow> hm_get (hm_retain p m) k =
     (case hm_get m k of None \<Rightarrow> None | Some v \<Rightarrow> if p k v then Some v else None)"
  unfolding hm_get_def hm_retain_def hm_wf_def by (rule map_of_filter_distinct)

lemma hm_values_mem: "hm_wf m \<Longrightarrow> v \<in> set (hm_values m) \<longleftrightarrow> (\<exists>k. hm_get m k = Some v)"
  by (force simp: hm_values_def hm_get_def hm_wf_def)

lemma length_hm_retain: "length (hm_retain p m) \<le> length m"
  by (simp add: hm_retain_def)

lemmas hm_laws [simp] = hm.get_insert hm.get_remove hm.wf_insert hm.wf_remove

subsection \<open>BTreeMap\<close>

type_synonym ('k, 'v) btree_map = "('k \<times> 'v) list"

definition bt_wf :: "('k::linorder, 'v) btree_map \<Rightarrow> bool" where
  "bt_wf m \<longleftrightarrow> sorted_wrt (<) (map fst m)"

definition bt_get :: "('k::linorder, 'v) btree_map \<Rightarrow> 'k \<Rightarrow> 'v option" where
  "bt_get m = map_of m"

fun bt_insert :: "'k::linorder \<Rightarrow> 'v \<Rightarrow> ('k, 'v) btree_map \<Rightarrow> ('k, 'v) btree_map" where
  "bt_insert k v [] = [(k, v)]"
| "bt_insert k v ((k', v') # m) =
     (if k < k' then (k, v) # (k', v') # m
      else if k = k' then (k, v) # m
      else (k', v') # bt_insert k v m)"

definition bt_remove :: "'k::linorder \<Rightarrow> ('k, 'v) btree_map \<Rightarrow> ('k, 'v) btree_map" where
  "bt_remove k m = filter (\<lambda>(k', v). k' \<noteq> k) m"

definition bt_values :: "('k::linorder, 'v) btree_map \<Rightarrow> 'v list" where
  "bt_values m = map snd m"

lemma set_fst_bt_insert: "fst ` set (bt_insert k v m) = insert k (fst ` set m)"
  by (induction k v m rule: bt_insert.induct) auto

lemma bt_wf_Nil [simp]: "bt_wf []"
  by (simp add: bt_wf_def)

lemma bt_get_Nil [simp]: "bt_get [] k = None"
  by (simp add: bt_get_def)

lemma bt_wf_insert: "bt_wf m \<Longrightarrow> bt_wf (bt_insert k v m)"
proof (induction k v m rule: bt_insert.induct)
  case (2 k v k' v' m)
  have dom: "x \<in> insert k (fst ` set m)" if "x \<in> fst ` set (bt_insert k v m)" for x
    using that by (simp only: set_fst_bt_insert)
  from 2 show ?case
    by (auto simp: bt_wf_def dest!: dom[OF imageI])
qed (simp add: bt_wf_def)

lemma bt_get_insert: "bt_get (bt_insert k v m) = (bt_get m)(k \<mapsto> v)"
  by (induction k v m rule: bt_insert.induct) (auto simp: bt_get_def fun_eq_iff)

lemma bt_wf_distinct: "bt_wf m \<Longrightarrow> distinct (map fst m)"
  unfolding bt_wf_def by (metis strict_sorted_iff)

lemma bt_wf_remove: "bt_wf m \<Longrightarrow> bt_wf (bt_remove k m)"
  unfolding bt_wf_def bt_remove_def sorted_wrt_map by (rule sorted_wrt_filter)

lemma bt_get_remove: "bt_get (bt_remove k m) = (bt_get m)(k := None)"
  by (induction m) (auto simp: bt_get_def bt_remove_def fun_eq_iff)

interpretation bt: rust_map "bt_get :: ('k::linorder, 'v) btree_map \<Rightarrow> 'k \<Rightarrow> 'v option"
  bt_insert bt_remove "\<lambda>m. m" bt_wf
proof unfold_locales
  fix m :: "('k, 'v) btree_map"
  show "bt_get m = map_of m" by (simp add: bt_get_def)
qed (simp_all add: bt_get_insert bt_get_remove bt_wf_insert bt_wf_remove bt_wf_distinct)

lemmas bt_laws [simp] = bt.get_insert bt.get_remove bt.wf_insert bt.wf_remove

subsection \<open>HashSet\<close>

text \<open>A \<open>HashSet\<close> is a list without repetitions.\<close>

type_synonym 'a hash_set = "'a list"

definition hs_wf :: "'a hash_set \<Rightarrow> bool" where
  "hs_wf s \<longleftrightarrow> distinct s"

definition hs_insert :: "'a \<Rightarrow> 'a hash_set \<Rightarrow> 'a hash_set" where
  "hs_insert x s = List.insert x s"

definition hs_remove :: "'a \<Rightarrow> 'a hash_set \<Rightarrow> 'a hash_set" where
  "hs_remove x s = removeAll x s"

lemma hs_wf_Nil [simp]: "hs_wf []"
  by (simp add: hs_wf_def)

lemma hs_wf_insert [simp]: "hs_wf s \<Longrightarrow> hs_wf (hs_insert x s)"
  by (simp add: hs_wf_def hs_insert_def)

lemma hs_wf_remove [simp]: "hs_wf s \<Longrightarrow> hs_wf (hs_remove x s)"
  by (simp add: hs_wf_def hs_remove_def distinct_removeAll)

lemma hs_wf_filter [simp]: "hs_wf s \<Longrightarrow> hs_wf (filter p s)"
  by (simp add: hs_wf_def)

lemma set_hs_insert [simp]: "set (hs_insert x s) = insert x (set s)"
  by (simp add: hs_insert_def)

lemma set_hs_remove [simp]: "set (hs_remove x s) = set s - {x}"
  by (auto simp: hs_remove_def)

lemma length_hs_insert: "length (hs_insert x s) = (if x \<in> set s then length s else Suc (length s))"
  by (simp add: hs_insert_def)

lemma length_hs_remove: "hs_wf s \<Longrightarrow> length (hs_remove x s) = (if x \<in> set s then length s - 1 else length s)"
  by (simp add: hs_wf_def hs_remove_def distinct_remove1_removeAll[symmetric] length_remove1)

end
