(* ===== verification/Protocol.thy ===== *)
theory Protocol
  imports Rust_Collections
begin

text \<open>
  The versioned control protocol of \<open>crates/nagisalake-protocol\<close>: the messages
  (\<open>messages.rs\<close>) as records and datatypes, and the frame validation
  (\<open>validate.rs\<close>), one definition per \<open>impl Validate\<close>. A \<open>serde_json::Value\<close> is
  the datatype \<open>json\<close>, whose objects are BTree maps; an \<open>f32\<close> is a finite value, an
  infinity or a NaN. The text of a validation error is a constructor that carries the
  values the source formats into it.
\<close>

subsection \<open>Floats and JSON values\<close>

datatype f32 = F_NaN | F_Inf bool | F_Fin rat

definition f32_is_finite :: "f32 \<Rightarrow> bool" where
  "f32_is_finite x \<longleftrightarrow> (case x of F_Fin _ \<Rightarrow> True | _ \<Rightarrow> False)"

text \<open>IEEE equality: a NaN equals nothing, not even itself.\<close>

definition f32_eq :: "f32 \<Rightarrow> f32 \<Rightarrow> bool" where
  "f32_eq x y \<longleftrightarrow> x \<noteq> F_NaN \<and> x = y"

definition f32_in_unit_range :: "f32 \<Rightarrow> bool" where
  "f32_in_unit_range x \<longleftrightarrow> (case x of F_Fin q \<Rightarrow> 0 \<le> q \<and> q \<le> 1 | _ \<Rightarrow> False)"

definition opt_f32_eq :: "f32 option \<Rightarrow> f32 option \<Rightarrow> bool" where
  "opt_f32_eq x y \<longleftrightarrow>
     (case (x, y) of (None, None) \<Rightarrow> True | (Some a, Some b) \<Rightarrow> f32_eq a b | _ \<Rightarrow> False)"

datatype json_number = PosInt u64 | NegInt i64 | Float f32

datatype json =
    Null
  | Bool bool
  | Number json_number
  | String string
  | Array "json list"
  | Object "(string \<times> json) list"

definition is_object :: "json \<Rightarrow> bool" where
  "is_object v \<longleftrightarrow> (case v of Object _ \<Rightarrow> True | _ \<Rightarrow> False)"

subsection \<open>Messages\<close>

definition PROTOCOL_VERSION :: u16 where
  "PROTOCOL_VERSION = 2"

definition MAX_RECOVERY_JOB_IDS :: nat where
  "MAX_RECOVERY_JOB_IDS = 1024"

definition MAX_IDENTITY_CHARS :: nat where
  "MAX_IDENTITY_CHARS = 64"

datatype WorkflowInputKind = Parameter | Artifact

record WorkflowInput =
  wi_name :: string
  wi_kind :: WorkflowInputKind
  wi_value_type :: string
  wi_content_type :: "string option"
  wi_pointer :: string
  wi_required :: bool
  wi_default :: "json option"
  wi_options :: "string list"
  wi_node_id :: "string option"
  wi_node_type :: "string option"
  wi_field :: "string option"

record WorkflowOutput =
  wo_name :: string
  wo_content_type :: string

record WorkflowManifest =
  wm_schema_version :: u16
  wm_display_name :: string
  wm_description :: "string option"
  wm_inputs :: "WorkflowInput list"
  wm_outputs :: "WorkflowOutput list"
  wm_warnings :: "string list"

record WorkflowCapability =
  wc_id :: string
  wc_version :: string
  wc_output_types :: "string list"
  wc_manifest :: "WorkflowManifest option"

record WorkerCapabilities =
  cap_workflows :: "WorkflowCapability list"
  cap_parallelism :: u16
  cap_queue_depth :: u16
  cap_supports_queued_job_cancellation :: bool
  cap_labels :: "(string, string) btree_map"

record Register =
  reg_protocol_version :: u16
  reg_namespace :: string
  reg_node_name :: string
  reg_worker_version :: string
  reg_capabilities :: WorkerCapabilities
  reg_recovery_job_ids :: "string list"

record Registered =
  rd_worker_id :: string
  rd_session_id :: string
  rd_heartbeat_interval_seconds :: u64
  rd_server_unix_ms :: i64

record Heartbeat =
  hb_session_id :: string
  hb_sequence :: u64
  hb_active_jobs :: u16
  hb_queued_jobs :: u16
  hb_unix_ms :: i64

record PresignedRequest =
  pr_method :: string
  pr_url :: string
  pr_headers :: "(string, string) btree_map"
  pr_expires_at_unix_ms :: i64

record JobInput =
  ji_artifact_id :: string
  ji_name :: string
  ji_content_type :: string
  ji_size_bytes :: u64
  ji_sha256 :: string
  ji_download :: PresignedRequest

record DispatchJob =
  dj_command_id :: string
  dj_job_id :: string
  dj_attempt :: u32
  dj_workflow_id :: string
  dj_workflow_version :: string
  dj_parameters :: json
  dj_inputs :: "JobInput list"

record CancelJob =
  cj_command_id :: string
  cj_job_id :: string
  cj_reason :: string

record CommandAck =
  ca_command_id :: string
  ca_accepted :: bool
  ca_message :: string

datatype JobEventKind =
  EvAccepted | EvRunning | EvProgress | EvUploading | EvCompleted | EvFailed | EvCancelled

record JobEvent =
  ev_job_id :: string
  ev_attempt :: u32
  ev_sequence :: u64
  ev_kind :: JobEventKind
  ev_progress :: "f32 option"
  ev_prompt_id :: "string option"
  ev_message :: string
  ev_unix_ms :: i64

record JobEventAck =
  ea_job_id :: string
  ea_sequence :: u64

record ArtifactReady =
  ar_request_id :: string
  ar_job_id :: string
  ar_attempt :: u32
  ar_name :: string
  ar_content_type :: string
  ar_size_bytes :: u64
  ar_sha256 :: string

record ArtifactUpload =
  au_request_id :: string
  au_artifact_id :: string
  au_upload :: PresignedRequest

record ArtifactUploaded =
  ad_request_id :: string
  ad_artifact_id :: string
  ad_job_id :: string
  ad_attempt :: u32

record ArtifactUploadedAck =
  aa_request_id :: string
  aa_artifact_id :: string

record Ping =
  ping_nonce :: string

record Pong =
  pong_nonce :: string

record ProtocolError =
  pe_code :: string
  pe_message :: string
  pe_retryable :: bool

datatype WorkerMessage =
    WRegister Register
  | WHeartbeat Heartbeat
  | WCommandAck CommandAck
  | WJobEvent JobEvent
  | WArtifactReady ArtifactReady
  | WArtifactUploaded ArtifactUploaded
  | WPong Pong

datatype HubMessage =
    HRegistered Registered
  | HDispatchJob DispatchJob
  | HCancelJob CancelJob
  | HArtifactUpload ArtifactUpload
  | HJobEventAck JobEventAck
  | HArtifactUploadedAck ArtifactUploadedAck
  | HPing Ping
  | HError ProtocolError

text \<open>The derived \<open>PartialEq\<close> of \<open>JobEvent\<close> compares the progress as floats.\<close>

definition JobEvent_eq :: "JobEvent \<Rightarrow> JobEvent \<Rightarrow> bool" where
  "JobEvent_eq a b \<longleftrightarrow>
     ev_job_id a = ev_job_id b \<and> ev_attempt a = ev_attempt b \<and> ev_sequence a = ev_sequence b \<and>
     ev_kind a = ev_kind b \<and> opt_f32_eq (ev_progress a) (ev_progress b) \<and>
     ev_prompt_id a = ev_prompt_id b \<and> ev_message a = ev_message b \<and> ev_unix_ms a = ev_unix_ms b"

definition default_parallelism :: u16 where
  "default_parallelism = 1"

definition total_capacity :: "WorkerCapabilities \<Rightarrow> u32" where
  "total_capacity c = ucast (cap_parallelism c) + ucast (cap_queue_depth c)"

subsection \<open>Validation\<close>

datatype ValidationMessage =
    MustNotBeEmpty
  | ExpectedVersion u16 u16
  | TooManyEntries nat
  | DuplicateJobId
  | MustBePositive
  | NoWorkflow
  | DuplicateIdVersion
  | DuplicateName
  | MustBeJsonObject
  | MustBePut
  | MustBeGet
  | MustBeGetOrPut
  | MustBeUnitProgress
  | TooManyCharacters nat
  | FoundOffender string
  | MustNotStartWithDot
  | MustBeSha256

record ValidationError =
  ve_field :: string
  ve_message :: ValidationMessage

definition verr :: "string \<Rightarrow> ValidationMessage \<Rightarrow> (ValidationError, unit) result" where
  "verr f m = Err \<lparr>ve_field = f, ve_message = m\<rparr>"

definition required :: "string \<Rightarrow> string \<Rightarrow> (ValidationError, unit) result" where
  "required f v = (if trim v = [] then verr f MustNotBeEmpty else Ok ())"

definition identity_char :: "char \<Rightarrow> bool" where
  "identity_char c \<longleftrightarrow> is_ascii_alphanumeric c \<or> c \<in> {CHR ''.'', CHR ''-'', CHR ''_''}"

definition identity_component :: "string \<Rightarrow> string \<Rightarrow> (ValidationError, unit) result" where
  "identity_component f v =
     checks
       [required f v,
        if chars_count v > MAX_IDENTITY_CHARS then verr f (TooManyCharacters MAX_IDENTITY_CHARS)
        else Ok (),
        case dropWhile identity_char v of
          [] \<Rightarrow> Ok ()
        | rest \<Rightarrow> verr f (FoundOffender (take_chars 1 rest)),
        if prefix ''.'' v then verr f MustNotStartWithDot else Ok ()]"

definition sha256 :: "string \<Rightarrow> string \<Rightarrow> (ValidationError, unit) result" where
  "sha256 f v =
     (if length v = 64 \<and> list_all is_ascii_hexdigit v then Ok () else verr f MustBeSha256)"

text \<open>
  A loop over a vector that runs checks on each element, inserts its key into a
  \<open>BTreeSet\<close>, fails when the key was there, and runs further checks.
\<close>

fun unique_loop ::
  "('a \<Rightarrow> ('e, unit) result) \<Rightarrow> ('a \<Rightarrow> 'k) \<Rightarrow> 'e \<Rightarrow> ('a \<Rightarrow> ('e, unit) result)
   \<Rightarrow> 'k list \<Rightarrow> 'a list \<Rightarrow> ('e, unit) result" where
  "unique_loop pre key dup post seen [] = Ok ()"
| "unique_loop pre key dup post seen (x # xs) =
     checks
       [pre x,
        if key x \<in> set seen then Err dup else Ok (),
        post x,
        unique_loop pre key dup post (key x # seen) xs]"

definition validate_manifest :: "WorkflowManifest \<Rightarrow> (ValidationError, unit) result" where
  "validate_manifest m =
     checks
       [if wm_schema_version m = 0 then verr ''workflow.manifest.schema_version'' MustBePositive
        else Ok (),
        required ''workflow.manifest.display_name'' (wm_display_name m),
        unique_loop
          (\<lambda>i. required ''workflow.manifest.input.name'' (wi_name i))
          wi_name
          \<lparr>ve_field = ''workflow.manifest.inputs'', ve_message = DuplicateName\<rparr>
          (\<lambda>i. checks
             [required ''workflow.manifest.input.type'' (wi_value_type i),
              required ''workflow.manifest.input.pointer'' (wi_pointer i),
              case wi_content_type i of
                None \<Rightarrow> Ok ()
              | Some c \<Rightarrow> required ''workflow.manifest.input.content_type'' c])
          [] (wm_inputs m),
        unique_loop
          (\<lambda>out. checks
             [required ''workflow.manifest.output.name'' (wo_name out),
              required ''workflow.manifest.output.content_type'' (wo_content_type out)])
          wo_name
          \<lparr>ve_field = ''workflow.manifest.outputs'', ve_message = DuplicateName\<rparr>
          (\<lambda>out. Ok ())
          [] (wm_outputs m)]"

definition validate_workflow_capability ::
  "WorkflowCapability \<Rightarrow> (ValidationError, unit) result" where
  "validate_workflow_capability w =
     checks
       ([required ''workflow.id'' (wc_id w), required ''workflow.version'' (wc_version w)]
        @ map (required ''workflow.output_types'') (wc_output_types w)
        @ [case wc_manifest w of None \<Rightarrow> Ok () | Some m \<Rightarrow> validate_manifest m])"

definition validate_capabilities :: "WorkerCapabilities \<Rightarrow> (ValidationError, unit) result" where
  "validate_capabilities c =
     checks
       [if cap_parallelism c = 0 then verr ''capabilities.concurrency'' MustBePositive else Ok (),
        if cap_workflows c = [] then verr ''capabilities.workflows'' NoWorkflow else Ok (),
        unique_loop validate_workflow_capability (\<lambda>w. (wc_id w, wc_version w))
          \<lparr>ve_field = ''capabilities.workflows'', ve_message = DuplicateIdVersion\<rparr>
          (\<lambda>w. Ok ()) [] (cap_workflows c),
        checks (concat (map (\<lambda>(k, v).
          [required ''capabilities.labels.key'' k, required ''capabilities.labels.value'' v])
          (cap_labels c)))]"

definition validate_register :: "Register \<Rightarrow> (ValidationError, unit) result" where
  "validate_register r =
     checks
       [if reg_protocol_version r \<noteq> PROTOCOL_VERSION
        then verr ''protocol_version'' (ExpectedVersion PROTOCOL_VERSION (reg_protocol_version r))
        else Ok (),
        identity_component ''namespace'' (reg_namespace r),
        identity_component ''node_name'' (reg_node_name r),
        required ''worker_version'' (reg_worker_version r),
        if length (reg_recovery_job_ids r) > MAX_RECOVERY_JOB_IDS
        then verr ''recovery_job_ids'' (TooManyEntries MAX_RECOVERY_JOB_IDS) else Ok (),
        unique_loop (required ''recovery_job_ids'') (\<lambda>i. i)
          \<lparr>ve_field = ''recovery_job_ids'', ve_message = DuplicateJobId\<rparr>
          (\<lambda>i. Ok ()) [] (reg_recovery_job_ids r),
        validate_capabilities (reg_capabilities r)]"

definition validate_presigned_request :: "PresignedRequest \<Rightarrow> (ValidationError, unit) result" where
  "validate_presigned_request p =
     checks
       [if pr_method p \<notin> {''GET'', ''PUT''} then verr ''method'' MustBeGetOrPut else Ok (),
        required ''url'' (pr_url p),
        if pr_expires_at_unix_ms p \<le> 0 then verr ''expires_at_unix_ms'' MustBePositive else Ok ()]"

definition validate_job_input :: "JobInput \<Rightarrow> (ValidationError, unit) result" where
  "validate_job_input i =
     checks
       [required ''input.artifact_id'' (ji_artifact_id i),
        required ''input.name'' (ji_name i),
        required ''input.content_type'' (ji_content_type i),
        sha256 ''input.sha256'' (ji_sha256 i),
        validate_presigned_request (ji_download i),
        if pr_method (ji_download i) \<noteq> ''GET'' then verr ''input.download.method'' MustBeGet
        else Ok ()]"

definition validate_dispatch :: "DispatchJob \<Rightarrow> (ValidationError, unit) result" where
  "validate_dispatch d =
     checks
       ([required ''command_id'' (dj_command_id d),
         required ''job_id'' (dj_job_id d),
         required ''workflow_id'' (dj_workflow_id d),
         required ''workflow_version'' (dj_workflow_version d),
         if \<not> is_object (dj_parameters d) then verr ''parameters'' MustBeJsonObject else Ok ()]
        @ map validate_job_input (dj_inputs d))"

definition validate_job_event :: "JobEvent \<Rightarrow> (ValidationError, unit) result" where
  "validate_job_event e =
     checks
       [required ''job_id'' (ev_job_id e),
        if ev_sequence e = 0 then verr ''sequence'' MustBePositive else Ok (),
        case ev_progress e of
          None \<Rightarrow> Ok ()
        | Some p \<Rightarrow>
            if \<not> f32_is_finite p \<or> \<not> f32_in_unit_range p
            then verr ''progress'' MustBeUnitProgress else Ok ()]"

definition validate_artifact_ready :: "ArtifactReady \<Rightarrow> (ValidationError, unit) result" where
  "validate_artifact_ready a =
     checks
       [required ''request_id'' (ar_request_id a),
        required ''job_id'' (ar_job_id a),
        required ''name'' (ar_name a),
        required ''content_type'' (ar_content_type a),
        sha256 ''sha256'' (ar_sha256 a)]"

fun validate_worker_message :: "WorkerMessage \<Rightarrow> (ValidationError, unit) result" where
  "validate_worker_message (WRegister v) = validate_register v"
| "validate_worker_message (WHeartbeat v) = required ''session_id'' (hb_session_id v)"
| "validate_worker_message (WCommandAck v) = required ''command_id'' (ca_command_id v)"
| "validate_worker_message (WJobEvent v) = validate_job_event v"
| "validate_worker_message (WArtifactReady v) = validate_artifact_ready v"
| "validate_worker_message (WArtifactUploaded v) =
     checks
       [required ''request_id'' (ad_request_id v),
        required ''artifact_id'' (ad_artifact_id v),
        required ''job_id'' (ad_job_id v)]"
| "validate_worker_message (WPong v) = required ''nonce'' (pong_nonce v)"

fun validate_hub_message :: "HubMessage \<Rightarrow> (ValidationError, unit) result" where
  "validate_hub_message (HRegistered v) =
     checks
       [required ''worker_id'' (rd_worker_id v),
        required ''session_id'' (rd_session_id v),
        if rd_heartbeat_interval_seconds v = 0
        then verr ''heartbeat_interval_seconds'' MustBePositive else Ok ()]"
| "validate_hub_message (HDispatchJob v) = validate_dispatch v"
| "validate_hub_message (HCancelJob v) =
     checks
       [required ''command_id'' (cj_command_id v),
        required ''job_id'' (cj_job_id v)]"
| "validate_hub_message (HArtifactUpload v) =
     checks
       [required ''request_id'' (au_request_id v),
        required ''artifact_id'' (au_artifact_id v),
        validate_presigned_request (au_upload v),
        if pr_method (au_upload v) \<noteq> ''PUT'' then verr ''upload.method'' MustBePut else Ok ()]"
| "validate_hub_message (HJobEventAck v) = required ''job_id'' (ea_job_id v)"
| "validate_hub_message (HArtifactUploadedAck v) =
     checks
       [required ''request_id'' (aa_request_id v),
        required ''artifact_id'' (aa_artifact_id v)]"
| "validate_hub_message (HPing v) = required ''nonce'' (ping_nonce v)"
| "validate_hub_message (HError v) =
     checks
       [required ''code'' (pe_code v), required ''message'' (pe_message v)]"

subsection \<open>What the checks accept\<close>

lemma required_Ok [simp]: "required f v = Ok () \<longleftrightarrow> trim v \<noteq> []"
  by (simp add: required_def verr_def)

lemma sha256_Ok [simp]: "sha256 f v = Ok () \<longleftrightarrow> length v = 64 \<and> list_all is_ascii_hexdigit v"
  by (simp add: sha256_def verr_def)

lemma if_verr_Ok [simp]: "(if b then verr f m else Ok ()) = Ok () \<longleftrightarrow> \<not> b"
  by (simp add: verr_def)

lemma verr_neq_Ok [simp]: "verr f m \<noteq> Ok ()"
  by (simp add: verr_def)

lemma unique_loop_Ok:
  "unique_loop pre key dup post seen xs = Ok () \<longleftrightarrow>
     (\<forall>x\<in>set xs. pre x = Ok () \<and> post x = Ok ()) \<and> distinct (map key xs) \<and>
     set (map key xs) \<inter> set seen = {}"
  by (induction xs arbitrary: seen) (auto simp: checks_Ok_iff)

lemma identity_char_not_continuation: "identity_char c \<Longrightarrow> \<not> is_continuation c"
  using ascii_alphanumeric_no_continuation[of c]
  by (auto simp: identity_char_def is_continuation_def)

lemma identity_chars_count: "\<forall>c\<in>set v. identity_char c \<Longrightarrow> chars_count v = length v"
  by (simp add: chars_count_def filter_id_conv identity_char_not_continuation)

lemma strip_words_fixed:
  assumes "\<And>w. w \<in> set ws \<Longrightarrow> \<not> prefix w s"
  shows "strip_words n ws s = s"
proof -
  from assms have "find (\<lambda>w. prefix w s) ws = None" by (auto simp: find_None_iff)
  then show ?thesis by (cases n) auto
qed

lemma white_space_no_identity: "w \<in> set white_space \<Longrightarrow> w \<noteq> [] \<and> (\<forall>c\<in>set w. \<not> identity_char c)"
  by (auto simp: white_space_def identity_char_def is_ascii_alphanumeric_def is_ascii_digit_def ascii_def)

lemma trim_identity: "\<forall>c\<in>set v. identity_char c \<Longrightarrow> trim v = v"
proof -
  assume v: "\<forall>c\<in>set v. identity_char c"
  have no: "\<not> prefix w v \<and> \<not> prefix (rev w) (rev v)" if "w \<in> set white_space" for w
  proof -
    from white_space_no_identity[OF that] obtain c where "c \<in> set w" "\<not> identity_char c"
      by (cases w) auto
    with v show ?thesis
      by (metis set_mono_prefix set_rev subsetD)
  qed
  have "trim_start v = v" unfolding trim_start_def
    by (rule strip_words_fixed) (use no in blast)
  moreover have "trim_end v = v" unfolding trim_end_def
    by (subst strip_words_fixed) (use no in auto)
  ultimately show ?thesis by (simp add: trim_def)
qed

text \<open>The grammar of a worker identity component.\<close>

definition valid_identity :: "string \<Rightarrow> bool" where
  "valid_identity v \<longleftrightarrow>
     v \<noteq> [] \<and> length v \<le> MAX_IDENTITY_CHARS \<and> (\<forall>c\<in>set v. identity_char c) \<and> hd v \<noteq> CHR ''.''"

lemma identity_component_Ok [simp]: "identity_component f v = Ok () \<longleftrightarrow> valid_identity v"
proof (cases "\<forall>c\<in>set v. identity_char c")
  case True
  then have dw: "dropWhile identity_char v = []" by simp
  have "identity_component f v = Ok () \<longleftrightarrow>
      v \<noteq> [] \<and> length v \<le> MAX_IDENTITY_CHARS \<and> \<not> prefix ''.'' v"
    unfolding identity_component_def checks_Ok_iff
    by (auto simp: trim_identity[OF True] identity_chars_count[OF True] dw)
  also have "\<dots> \<longleftrightarrow> valid_identity v"
    using True by (cases v) (auto simp: valid_identity_def)
  finally show ?thesis .
next
  case False
  then have "dropWhile identity_char v \<noteq> []" by simp
  then have "identity_component f v \<noteq> Ok ()"
    unfolding identity_component_def checks_Ok_iff
    by (auto split: list.splits)
  with False show ?thesis by (auto simp: valid_identity_def)
qed

lemma unat_total_capacity: "unat (total_capacity c) = unat (cap_parallelism c) + unat (cap_queue_depth c)"
proof -
  have "unat (cap_parallelism c) < 2 ^ 16" "unat (cap_queue_depth c) < 2 ^ 16"
    using unat_bound[of "cap_parallelism c"] unat_bound[of "cap_queue_depth c"] by simp_all
  then show ?thesis by (simp add: total_capacity_def unat_word_ariths unsigned_ucast_eq take_bit_eq_mod)
qed

lemma JobEvent_eq_imp: "JobEvent_eq a b \<Longrightarrow> a = b"
  by (auto simp: JobEvent_eq_def opt_f32_eq_def f32_eq_def split: option.splits intro: JobEvent.equality)

lemma JobEvent_eq_refl: "ev_progress a \<noteq> Some F_NaN \<Longrightarrow> JobEvent_eq a a"
  by (auto simp: JobEvent_eq_def opt_f32_eq_def f32_eq_def split: option.splits)

lemma JobEvent_eq_not_nan: "JobEvent_eq a b \<Longrightarrow> ev_progress a \<noteq> Some F_NaN"
  by (auto simp: JobEvent_eq_def opt_f32_eq_def f32_eq_def split: option.splits)

lemma JobEvent_eq_iff: "JobEvent_eq a b \<longleftrightarrow> a = b \<and> ev_progress a \<noteq> Some F_NaN"
  using JobEvent_eq_imp JobEvent_eq_refl JobEvent_eq_not_nan by blast

lemma validated_event_not_nan: "validate_job_event e = Ok () \<Longrightarrow> ev_progress e \<noteq> Some F_NaN"
  by (auto simp: validate_job_event_def checks_Ok_iff f32_is_finite_def)

end
