(* ===== verification/Core_Job.thy ===== *)
theory Core_Job
  imports Protocol
begin

text \<open>
  The job state machine of \<open>crates/nagisalake-core\<close>: \<open>JobState\<close>, its transition table
  and the worker's \<open>JobRecord\<close>. The states are ordered by their position in the
  lifecycle, and the table only moves forward in that order, so no job can come back
  to an earlier state.
\<close>

subsection \<open>States and transitions\<close>

datatype JobState =
  Queued | Received | Accepted | Running | Uploading | Completed | Failed | Cancelled

definition is_terminal :: "JobState \<Rightarrow> bool" where
  "is_terminal s \<longleftrightarrow> s \<in> {Completed, Failed, Cancelled}"

definition can_transition_to :: "JobState \<Rightarrow> JobState \<Rightarrow> bool" where
  "can_transition_to s next \<longleftrightarrow>
     (case s of
        Queued \<Rightarrow> next \<in> {Queued, Received, Cancelled}
      | Received \<Rightarrow> next = Received
      | Accepted \<Rightarrow> next = Accepted
      | Running \<Rightarrow> next = Running
      | Uploading \<Rightarrow> next = Uploading
      | Completed \<Rightarrow> next = Completed
      | Failed \<Rightarrow> next = Failed
      | Cancelled \<Rightarrow> next = Cancelled) \<or>
     (case s of
        Received \<Rightarrow> next \<in> {Accepted, Failed, Cancelled}
      | Accepted \<Rightarrow> next \<in> {Running, Failed, Cancelled}
      | Running \<Rightarrow> next \<in> {Uploading, Failed, Cancelled}
      | Uploading \<Rightarrow> next \<in> {Completed, Failed}
      | _ \<Rightarrow> False)"

fun state_str :: "JobState \<Rightarrow> string" where
  "state_str Queued = ''queued''"
| "state_str Received = ''received''"
| "state_str Accepted = ''accepted''"
| "state_str Running = ''running''"
| "state_str Uploading = ''uploading''"
| "state_str Completed = ''completed''"
| "state_str Failed = ''failed''"
| "state_str Cancelled = ''cancelled''"

definition parse_state_opt :: "string \<Rightarrow> JobState option" where
  "parse_state_opt v =
     (if v = ''queued'' then Some Queued
      else if v = ''received'' then Some Received
      else if v = ''accepted'' then Some Accepted
      else if v = ''running'' then Some Running
      else if v = ''uploading'' then Some Uploading
      else if v = ''completed'' then Some Completed
      else if v = ''failed'' then Some Failed
      else if v = ''cancelled'' then Some Cancelled
      else None)"

lemma parse_state_str [simp]: "parse_state_opt (state_str s) = Some s"
  by (cases s) (simp_all add: parse_state_opt_def)

lemma parse_state_opt_Some: "parse_state_opt v = Some s \<Longrightarrow> v = state_str s"
  by (auto simp: parse_state_opt_def split: if_splits)

subsection \<open>The lifecycle order\<close>

fun lifecycle_rank :: "JobState \<Rightarrow> nat" where
  "lifecycle_rank Queued = 0"
| "lifecycle_rank Received = 1"
| "lifecycle_rank Accepted = 2"
| "lifecycle_rank Running = 3"
| "lifecycle_rank Uploading = 4"
| "lifecycle_rank Completed = 5"
| "lifecycle_rank Failed = 6"
| "lifecycle_rank Cancelled = 7"

lemma lifecycle_rank_inject: "lifecycle_rank s = lifecycle_rank t \<longleftrightarrow> s = t"
  by (cases s; cases t) simp_all

instantiation JobState :: linorder
begin

definition less_eq_JobState :: "JobState \<Rightarrow> JobState \<Rightarrow> bool" where
  "less_eq_JobState s t \<longleftrightarrow> lifecycle_rank s \<le> lifecycle_rank t"

definition less_JobState :: "JobState \<Rightarrow> JobState \<Rightarrow> bool" where
  "less_JobState s t \<longleftrightarrow> lifecycle_rank s < lifecycle_rank t"

instance
  by standard (auto simp: less_eq_JobState_def less_JobState_def lifecycle_rank_inject)

end

lemma can_transition_refl [simp]: "can_transition_to s s"
  by (cases s) (simp_all add: can_transition_to_def)

lemma terminal_absorbing: "is_terminal s \<Longrightarrow> can_transition_to s t \<longleftrightarrow> t = s"
  by (cases s) (auto simp: is_terminal_def can_transition_to_def)

lemma can_transition_forward: "can_transition_to s t \<Longrightarrow> s \<le> t"
  by (cases s; cases t) (auto simp: can_transition_to_def less_eq_JobState_def)

lemma can_transition_antisym: "can_transition_to s t \<Longrightarrow> can_transition_to t s \<Longrightarrow> s = t"
  by (meson can_transition_forward order.antisym)

subsection \<open>Paths through the table\<close>

inductive reaches :: "JobState \<Rightarrow> JobState \<Rightarrow> bool" where
  reaches_refl: "reaches s s"
| reaches_step: "can_transition_to s t \<Longrightarrow> reaches t u \<Longrightarrow> reaches s u"

lemma reaches_trans: "reaches s t \<Longrightarrow> reaches t u \<Longrightarrow> reaches s u"
  by (induction rule: reaches.induct) (auto intro: reaches_step)

lemma reaches_one: "can_transition_to s t \<Longrightarrow> reaches s t"
  by (blast intro: reaches.intros)

lemma reaches_forward: "reaches s t \<Longrightarrow> s \<le> t"
  by (induction rule: reaches.induct) (auto dest: can_transition_forward)

lemma reaches_terminal: "reaches s t \<Longrightarrow> is_terminal s \<Longrightarrow> t = s"
  by (induction rule: reaches.induct) (auto simp: terminal_absorbing)

lemma uploading_never_cancelled: "reaches Uploading s \<Longrightarrow> s \<in> {Uploading, Completed, Failed}"
proof -
  have "reaches t s \<Longrightarrow> t \<in> {Uploading, Completed, Failed} \<Longrightarrow> s \<in> {Uploading, Completed, Failed}" for t
    by (induction rule: reaches.induct) (auto simp: can_transition_to_def)
  then show "reaches Uploading s \<Longrightarrow> s \<in> {Uploading, Completed, Failed}" by blast
qed

subsection \<open>The worker's job record\<close>

record JobRecord =
  jr_dispatch :: DispatchJob
  jr_state :: JobState
  jr_prompt_id :: "string option"
  jr_event_sequence :: u64
  jr_pending_event :: "JobEvent option"

definition received :: "DispatchJob \<Rightarrow> JobRecord" where
  "received d =
     \<lparr>jr_dispatch = d, jr_state = Received, jr_prompt_id = None, jr_event_sequence = 0,
      jr_pending_event = None\<rparr>"

datatype NagisaError =
    InvalidStateTransition JobState JobState
  | InvalidWorkflow string
  | ComfyUi string
  | ArtifactFailed string
  | JournalFailed string
  | TransportFailed string
  | CancelledError
  | Timeout string

definition record_transition ::
  "JobRecord \<Rightarrow> JobState \<Rightarrow> JobRecord \<times> (NagisaError, unit) result" where
  "record_transition r next =
     (if \<not> can_transition_to (jr_state r) next
      then (r, Err (InvalidStateTransition (jr_state r) next))
      else (r\<lparr>jr_state := next\<rparr>, Ok ()))"

end
