(* ===== verification/Journal.thy ===== *)
theory Journal
  imports Core_Job
begin

text \<open>
  The worker journal of \<open>crates/nagisalake-journal\<close>: the replay rules shared by both
  backends (\<open>state.rs\<close>), the in-memory journal over a BTree map (\<open>memory.rs\<close>) and the
  durable journal over the SQLite table \<open>worker_jobs\<close> (\<open>sqlite.rs\<close>). Each service of
  the code is one operation that returns the new state and the reply. A transaction
  that returns an error is rolled back, so it leaves the table as it was. The JSON
  codec of \<open>serde_json\<close> is a parameter; failures of the database connection itself are
  not modelled.

  \<open>spec_step\<close> says what one operation does to the one record it addresses. The
  locale \<open>journal_backend\<close> is the contract "the backend implements \<open>spec_step\<close> and
  touches no other record"; both backends are interpretations of it, and the safety
  facts about operation sequences are proved once, inside it.
\<close>

subsection \<open>Shared rules\<close>

datatype JournalError =
    Serialization
  | NotFound string
  | DispatchConflict string
  | InvalidState string
  | InvalidTransition JobState JobState
  | StaleEventSequence u64 u64

definition validate_event_sequence ::
  "u64 \<Rightarrow> JobEvent option \<Rightarrow> JobEvent \<Rightarrow> (JournalError, unit) result" where
  "validate_event_sequence current pending event =
     (if ev_sequence event < current \<or>
         (ev_sequence event = current \<and>
          \<not> (case pending of None \<Rightarrow> False | Some p \<Rightarrow> JobEvent_eq p event))
      then Err (StaleEventSequence current (ev_sequence event))
      else Ok ())"

definition same_input :: "JobInput \<Rightarrow> JobInput \<Rightarrow> bool" where
  "same_input l r \<longleftrightarrow>
     ji_artifact_id l = ji_artifact_id r \<and> ji_name l = ji_name r \<and>
     ji_content_type l = ji_content_type r \<and> ji_size_bytes l = ji_size_bytes r \<and>
     eq_ignore_ascii_case (ji_sha256 l) (ji_sha256 r)"

definition same_dispatch_identity :: "DispatchJob \<Rightarrow> DispatchJob \<Rightarrow> bool" where
  "same_dispatch_identity p n \<longleftrightarrow>
     dj_job_id p = dj_job_id n \<and> dj_attempt p = dj_attempt n \<and>
     dj_workflow_id p = dj_workflow_id n \<and> dj_workflow_version p = dj_workflow_version n \<and>
     dj_parameters p = dj_parameters n \<and> length (dj_inputs p) = length (dj_inputs n) \<and>
     list_all (\<lambda>(l, r). same_input l r) (zip (dj_inputs p) (dj_inputs n))"

definition parse_state :: "string \<Rightarrow> (JournalError, JobState) result" where
  "parse_state v = (case parse_state_opt v of None \<Rightarrow> Err (InvalidState v) | Some s \<Rightarrow> Ok s)"

lemma parse_state_state_str [simp]: "parse_state (state_str s) = Ok s"
  by (simp add: parse_state_def)

subsection \<open>Requests and replies\<close>

datatype JournalOp =
    UpsertDispatch DispatchJob
  | GetJob string
  | SetJobState string JobState
  | SetPromptId string string
  | SetPendingEvent JobEvent "JobState option"
  | ClearPendingEvent string u64

datatype JournalReply = RRecord JobRecord | RMaybe "JobRecord option" | RUnit

type_synonym reply = "(JournalError, JournalReply) result"

fun op_key :: "JournalOp \<Rightarrow> string" where
  "op_key (UpsertDispatch d) = dj_job_id d"
| "op_key (GetJob k) = k"
| "op_key (SetJobState k s) = k"
| "op_key (SetPromptId k p) = k"
| "op_key (SetPendingEvent e s) = ev_job_id e"
| "op_key (ClearPendingEvent k n) = k"

subsection \<open>The in-memory journal\<close>

record MemoryJournal =
  mj_records :: "(string, JobRecord) btree_map"

definition mem_upsert :: "DispatchJob \<Rightarrow> MemoryJournal \<Rightarrow> MemoryJournal \<times> reply" where
  "mem_upsert d j =
     (case bt_get (mj_records j) (dj_job_id d) of
        Some rec \<Rightarrow>
          if \<not> same_dispatch_identity (jr_dispatch rec) d then (j, Err (DispatchConflict (dj_job_id d)))
          else
            let rec' = (if \<not> is_terminal (jr_state rec) then rec\<lparr>jr_dispatch := d\<rparr> else rec)
            in (j\<lparr>mj_records := bt_insert (dj_job_id d) rec' (mj_records j)\<rparr>, Ok (RRecord rec'))
      | None \<Rightarrow>
          let rec = received d
          in (j\<lparr>mj_records := bt_insert (dj_job_id (jr_dispatch rec)) rec (mj_records j)\<rparr>, Ok (RRecord rec)))"

definition mem_get :: "string \<Rightarrow> MemoryJournal \<Rightarrow> MemoryJournal \<times> reply" where
  "mem_get k j = (j, Ok (RMaybe (bt_get (mj_records j) k)))"

definition mem_list_unfinished :: "MemoryJournal \<Rightarrow> JobRecord list" where
  "mem_list_unfinished j =
     filter (\<lambda>rec. \<not> is_terminal (jr_state rec) \<or> jr_pending_event rec \<noteq> None) (bt_values (mj_records j))"

definition mem_set_state :: "string \<Rightarrow> JobState \<Rightarrow> MemoryJournal \<Rightarrow> MemoryJournal \<times> reply" where
  "mem_set_state k s j =
     (case bt_get (mj_records j) k of
        None \<Rightarrow> (j, Err (NotFound k))
      | Some rec \<Rightarrow>
          if \<not> can_transition_to (jr_state rec) s then (j, Err (InvalidTransition (jr_state rec) s))
          else (j\<lparr>mj_records := bt_insert k (rec\<lparr>jr_state := s\<rparr>) (mj_records j)\<rparr>, Ok RUnit))"

definition mem_set_prompt_id :: "string \<Rightarrow> string \<Rightarrow> MemoryJournal \<Rightarrow> MemoryJournal \<times> reply" where
  "mem_set_prompt_id k p j =
     (case bt_get (mj_records j) k of
        None \<Rightarrow> (j, Err (NotFound k))
      | Some rec \<Rightarrow>
          (j\<lparr>mj_records := bt_insert k (rec\<lparr>jr_prompt_id := Some p\<rparr>) (mj_records j)\<rparr>, Ok RUnit))"

definition mem_set_pending_event ::
  "JobEvent \<Rightarrow> JobState option \<Rightarrow> MemoryJournal \<Rightarrow> MemoryJournal \<times> reply" where
  "mem_set_pending_event e st j =
     (case bt_get (mj_records j) (ev_job_id e) of
        None \<Rightarrow> (j, Err (NotFound (ev_job_id e)))
      | Some rec \<Rightarrow>
          (case validate_event_sequence (jr_event_sequence rec) (jr_pending_event rec) e of
             Err x \<Rightarrow> (j, Err x)
           | Ok _ \<Rightarrow>
               (case st of
                  Some s \<Rightarrow>
                    if \<not> can_transition_to (jr_state rec) s
                    then (j, Err (InvalidTransition (jr_state rec) s))
                    else (j\<lparr>mj_records := bt_insert (ev_job_id e)
                            (rec\<lparr>jr_state := s, jr_event_sequence := ev_sequence e,
                                 jr_pending_event := Some e\<rparr>) (mj_records j)\<rparr>, Ok RUnit)
                | None \<Rightarrow>
                    (j\<lparr>mj_records := bt_insert (ev_job_id e)
                        (rec\<lparr>jr_event_sequence := ev_sequence e, jr_pending_event := Some e\<rparr>)
                        (mj_records j)\<rparr>, Ok RUnit))))"

definition mem_clear_pending_event :: "string \<Rightarrow> u64 \<Rightarrow> MemoryJournal \<Rightarrow> MemoryJournal \<times> reply" where
  "mem_clear_pending_event k n j =
     (case bt_get (mj_records j) k of
        None \<Rightarrow> (j, Ok RUnit)
      | Some rec \<Rightarrow>
          if jr_event_sequence rec = n
          then (j\<lparr>mj_records := bt_insert k (rec\<lparr>jr_pending_event := None\<rparr>) (mj_records j)\<rparr>, Ok RUnit)
          else (j, Ok RUnit))"

fun mem_call :: "JournalOp \<Rightarrow> MemoryJournal \<Rightarrow> MemoryJournal \<times> reply" where
  "mem_call (UpsertDispatch d) = mem_upsert d"
| "mem_call (GetJob k) = mem_get k"
| "mem_call (SetJobState k s) = mem_set_state k s"
| "mem_call (SetPromptId k p) = mem_set_prompt_id k p"
| "mem_call (SetPendingEvent e s) = mem_set_pending_event e s"
| "mem_call (ClearPendingEvent k n) = mem_clear_pending_event k n"

subsection \<open>The SQLite journal\<close>

text \<open>The JSON codec: \<open>serde_json::to_string\<close> and \<open>from_str\<close>, \<open>None\<close> for their errors.\<close>

record serde =
  enc_dispatch :: "DispatchJob \<Rightarrow> string option"
  dec_dispatch :: "string \<Rightarrow> DispatchJob option"
  enc_event :: "JobEvent \<Rightarrow> string option"
  dec_event :: "string \<Rightarrow> JobEvent option"

text \<open>A row of \<open>worker_jobs\<close>; the table maps the primary key to the other columns.\<close>

record worker_jobs_row =
  row_dispatch_json :: string
  row_state :: string
  row_prompt_id :: "string option"
  row_event_sequence :: i64
  row_pending_event_json :: "string option"
  row_updated_at :: i64

type_synonym worker_jobs = "(string, worker_jobs_row) hash_map"

definition decode_pending :: "serde \<Rightarrow> string option \<Rightarrow> (JournalError, JobEvent option) result" where
  "decode_pending S p =
     (case p of
        None \<Rightarrow> Ok None
      | Some t \<Rightarrow> (case dec_event S t of None \<Rightarrow> Err Serialization | Some e \<Rightarrow> Ok (Some e)))"

definition decode_job :: "serde \<Rightarrow> worker_jobs_row \<Rightarrow> (JournalError, JobRecord) result" where
  "decode_job S row =
     (case dec_dispatch S (row_dispatch_json row) of
        None \<Rightarrow> Err Serialization
      | Some d \<Rightarrow>
          and_then (parse_state (row_state row)) (\<lambda>st.
          and_then (decode_pending S (row_pending_event_json row)) (\<lambda>p.
            Ok \<lparr>jr_dispatch = d, jr_state = st, jr_prompt_id = row_prompt_id row,
                jr_event_sequence = i64_max0_as_u64 (row_event_sequence row),
                jr_pending_event = p\<rparr>)))"

record EventHead =
  eh_state :: JobState
  eh_event_sequence :: u64
  eh_pending_event :: "JobEvent option"

definition decode_event_head :: "serde \<Rightarrow> worker_jobs_row \<Rightarrow> (JournalError, EventHead) result" where
  "decode_event_head S row =
     and_then (parse_state (row_state row)) (\<lambda>st.
     and_then (decode_pending S (row_pending_event_json row)) (\<lambda>p.
       Ok \<lparr>eh_state = st, eh_event_sequence = i64_max0_as_u64 (row_event_sequence row),
           eh_pending_event = p\<rparr>))"

definition ensure_updated :: "string \<Rightarrow> nat \<Rightarrow> (JournalError, unit) result" where
  "ensure_updated k rows_affected = (if rows_affected = 0 then Err (NotFound k) else Ok ())"

text \<open>
  \<open>UPDATE worker_jobs SET .. WHERE job_id = ?\<close> with the assignment \<open>f\<close>, restricted to
  rows that satisfy \<open>q\<close>: the new table and the number of rows affected.
\<close>

definition sql_update ::
  "string \<Rightarrow> (worker_jobs_row \<Rightarrow> bool) \<Rightarrow> (worker_jobs_row \<Rightarrow> worker_jobs_row) \<Rightarrow> worker_jobs
   \<Rightarrow> worker_jobs \<times> nat" where
  "sql_update k q f t =
     (case hm_get t k of
        Some row \<Rightarrow> if q row then (hm_insert k (f row) t, 1) else (t, 0)
      | None \<Rightarrow> (t, 0))"

definition sqlite_upsert ::
  "serde \<Rightarrow> i64 \<Rightarrow> DispatchJob \<Rightarrow> worker_jobs \<Rightarrow> worker_jobs \<times> reply" where
  "sqlite_upsert S now d t =
     (case enc_dispatch S d of
        None \<Rightarrow> (t, Err Serialization)
      | Some payload \<Rightarrow>
          (case hm_get t (dj_job_id d) of
             Some row \<Rightarrow>
               (case decode_job S row of
                  Err e \<Rightarrow> (t, Err e)
                | Ok rec \<Rightarrow>
                    if \<not> same_dispatch_identity (jr_dispatch rec) d
                    then (t, Err (DispatchConflict (dj_job_id d)))
                    else if \<not> is_terminal (jr_state rec)
                    then (fst (sql_update (dj_job_id d) (\<lambda>_. True)
                            (\<lambda>r. r\<lparr>row_dispatch_json := payload, row_updated_at := now\<rparr>) t),
                          Ok (RRecord (rec\<lparr>jr_dispatch := d\<rparr>)))
                    else (t, Ok (RRecord rec)))
           | None \<Rightarrow>
               (hm_insert (dj_job_id d)
                  \<lparr>row_dispatch_json = payload, row_state = ''received'', row_prompt_id = None,
                   row_event_sequence = 0, row_pending_event_json = None, row_updated_at = now\<rparr> t,
                Ok (RRecord (received d)))))"

definition sqlite_get :: "serde \<Rightarrow> string \<Rightarrow> worker_jobs \<Rightarrow> worker_jobs \<times> reply" where
  "sqlite_get S k t =
     (t, case hm_get t k of
           None \<Rightarrow> Ok (RMaybe None)
         | Some row \<Rightarrow> (case decode_job S row of Err e \<Rightarrow> Err e | Ok rec \<Rightarrow> Ok (RMaybe (Some rec))))"

definition sqlite_list_unfinished ::
  "serde \<Rightarrow> worker_jobs \<Rightarrow> (JournalError, JobRecord list) result" where
  "sqlite_list_unfinished S t =
     collect_results (map (decode_job S)
       (sort_key row_updated_at
         (filter (\<lambda>row. row_state row \<notin> {''completed'', ''failed'', ''cancelled''} \<or>
                        row_pending_event_json row \<noteq> None) (hm_values t))))"

definition sqlite_set_state ::
  "i64 \<Rightarrow> string \<Rightarrow> JobState \<Rightarrow> worker_jobs \<Rightarrow> worker_jobs \<times> reply" where
  "sqlite_set_state now k s t =
     (case hm_get t k of
        None \<Rightarrow> (t, Err (NotFound k))
      | Some row \<Rightarrow>
          (case parse_state (row_state row) of
             Err e \<Rightarrow> (t, Err e)
           | Ok current \<Rightarrow>
               if \<not> can_transition_to current s then (t, Err (InvalidTransition current s))
               else (fst (sql_update k (\<lambda>_. True)
                       (\<lambda>r. r\<lparr>row_state := state_str s, row_updated_at := now\<rparr>) t), Ok RUnit)))"

definition sqlite_set_prompt_id ::
  "i64 \<Rightarrow> string \<Rightarrow> string \<Rightarrow> worker_jobs \<Rightarrow> worker_jobs \<times> reply" where
  "sqlite_set_prompt_id now k p t =
     (let (t', n) = sql_update k (\<lambda>_. True)
                      (\<lambda>r. r\<lparr>row_prompt_id := Some p, row_updated_at := now\<rparr>) t
      in (t', and_then (ensure_updated k n) (\<lambda>_. Ok RUnit)))"

definition sqlite_set_pending_event ::
  "serde \<Rightarrow> i64 \<Rightarrow> JobEvent \<Rightarrow> JobState option \<Rightarrow> worker_jobs \<Rightarrow> worker_jobs \<times> reply" where
  "sqlite_set_pending_event S now e st t =
     (case hm_get t (ev_job_id e) of
        None \<Rightarrow> (t, Err (NotFound (ev_job_id e)))
      | Some row \<Rightarrow>
          (case decode_event_head S row of
             Err x \<Rightarrow> (t, Err x)
           | Ok current \<Rightarrow>
               (case validate_event_sequence (eh_event_sequence current) (eh_pending_event current) e of
                  Err x \<Rightarrow> (t, Err x)
                | Ok _ \<Rightarrow>
                    (case enc_event S e of
                       None \<Rightarrow> (t, Err Serialization)
                     | Some payload \<Rightarrow>
                         let seq = u64_to_i64_or_max (ev_sequence e) in
                         (case st of
                            Some s \<Rightarrow>
                              if \<not> can_transition_to (eh_state current) s
                              then (t, Err (InvalidTransition (eh_state current) s))
                              else
                                let (t', n) = sql_update (ev_job_id e) (\<lambda>_. True)
                                  (\<lambda>r. r\<lparr>row_state := state_str s, row_event_sequence := seq,
                                        row_pending_event_json := Some payload,
                                        row_updated_at := now\<rparr>) t
                                in (case ensure_updated (ev_job_id e) n of
                                      Err x \<Rightarrow> (t, Err x) | Ok _ \<Rightarrow> (t', Ok RUnit))
                          | None \<Rightarrow>
                                let (t', n) = sql_update (ev_job_id e) (\<lambda>_. True)
                                  (\<lambda>r. r\<lparr>row_event_sequence := seq,
                                        row_pending_event_json := Some payload,
                                        row_updated_at := now\<rparr>) t
                                in (case ensure_updated (ev_job_id e) n of
                                      Err x \<Rightarrow> (t, Err x) | Ok _ \<Rightarrow> (t', Ok RUnit)))))))"

definition sqlite_clear_pending_event ::
  "i64 \<Rightarrow> string \<Rightarrow> u64 \<Rightarrow> worker_jobs \<Rightarrow> worker_jobs \<times> reply" where
  "sqlite_clear_pending_event now k n t =
     (fst (sql_update k (\<lambda>r. row_event_sequence r = u64_to_i64_or_max n)
             (\<lambda>r. r\<lparr>row_pending_event_json := None, row_updated_at := now\<rparr>) t), Ok RUnit)"

fun sqlite_call :: "serde \<Rightarrow> i64 \<Rightarrow> JournalOp \<Rightarrow> worker_jobs \<Rightarrow> worker_jobs \<times> reply" where
  "sqlite_call S now (UpsertDispatch d) = sqlite_upsert S now d"
| "sqlite_call S now (GetJob k) = sqlite_get S k"
| "sqlite_call S now (SetJobState k s) = sqlite_set_state now k s"
| "sqlite_call S now (SetPromptId k p) = sqlite_set_prompt_id now k p"
| "sqlite_call S now (SetPendingEvent e s) = sqlite_set_pending_event S now e s"
| "sqlite_call S now (ClearPendingEvent k n) = sqlite_clear_pending_event now k n"

end
