(* ===== verification/Journal_Spec.thy ===== *)
theory Journal_Spec
  imports Journal
begin

text \<open>
  The contract of a worker journal and its two implementations. \<open>spec_step\<close> is the
  abstract behaviour of an operation on the record it addresses; \<open>journal_backend\<close> is
  the interface "implements \<open>spec_step\<close>, leaves every other record alone". Inside it:
  a run of operations moves each job forward through the lifecycle only, never lowers
  its event sequence, and never loses an unacknowledged event.
\<close>

subsection \<open>The abstract journal\<close>

fun spec_step :: "JournalOp \<Rightarrow> JobRecord option \<Rightarrow> JobRecord option \<times> reply" where
  "spec_step (UpsertDispatch d) None = (Some (received d), Ok (RRecord (received d)))"
| "spec_step (UpsertDispatch d) (Some r) =
     (if \<not> same_dispatch_identity (jr_dispatch r) d then (Some r, Err (DispatchConflict (dj_job_id d)))
      else if is_terminal (jr_state r) then (Some r, Ok (RRecord r))
      else (Some (r\<lparr>jr_dispatch := d\<rparr>), Ok (RRecord (r\<lparr>jr_dispatch := d\<rparr>))))"
| "spec_step (GetJob k) r = (r, Ok (RMaybe r))"
| "spec_step (SetJobState k s) None = (None, Err (NotFound k))"
| "spec_step (SetJobState k s) (Some r) =
     (if can_transition_to (jr_state r) s then (Some (r\<lparr>jr_state := s\<rparr>), Ok RUnit)
      else (Some r, Err (InvalidTransition (jr_state r) s)))"
| "spec_step (SetPromptId k p) None = (None, Err (NotFound k))"
| "spec_step (SetPromptId k p) (Some r) = (Some (r\<lparr>jr_prompt_id := Some p\<rparr>), Ok RUnit)"
| "spec_step (SetPendingEvent e st) None = (None, Err (NotFound (ev_job_id e)))"
| "spec_step (SetPendingEvent e st) (Some r) =
     (case validate_event_sequence (jr_event_sequence r) (jr_pending_event r) e of
        Err x \<Rightarrow> (Some r, Err x)
      | Ok _ \<Rightarrow>
          let s = (case st of None \<Rightarrow> jr_state r | Some s \<Rightarrow> s) in
          if can_transition_to (jr_state r) s
          then (Some (r\<lparr>jr_state := s, jr_event_sequence := ev_sequence e,
                         jr_pending_event := Some e\<rparr>), Ok RUnit)
          else (Some r, Err (InvalidTransition (jr_state r) s)))"
| "spec_step (ClearPendingEvent k n) None = (None, Ok RUnit)"
| "spec_step (ClearPendingEvent k n) (Some r) =
     (Some (if jr_event_sequence r = n then r\<lparr>jr_pending_event := None\<rparr> else r), Ok RUnit)"

fun run_calls :: "('i \<Rightarrow> 's \<Rightarrow> 's \<times> 'r) \<Rightarrow> 'i list \<Rightarrow> 's \<Rightarrow> 's \<times> 'r list" where
  "run_calls call [] s = (s, [])"
| "run_calls call (i # is) s =
     (let (s1, r) = call i s; (s2, rs) = run_calls call is s1 in (s2, r # rs))"

definition same_record_identity :: "JobRecord \<Rightarrow> JobRecord \<Rightarrow> bool" where
  "same_record_identity r r' \<longleftrightarrow> same_dispatch_identity (jr_dispatch r) (jr_dispatch r')"

text \<open>What one operation may do to a record that is there.\<close>

definition record_progress :: "JobRecord \<Rightarrow> JobRecord \<Rightarrow> bool" where
  "record_progress r r' \<longleftrightarrow>
     reaches (jr_state r) (jr_state r') \<and> jr_event_sequence r \<le> jr_event_sequence r' \<and>
     same_record_identity r r' \<and>
     (is_terminal (jr_state r) \<longrightarrow> jr_dispatch r' = jr_dispatch r)"

lemma same_dispatch_identity_refl [simp]: "same_dispatch_identity d d"
  by (auto simp: same_dispatch_identity_def list_all_length same_input_def)

lemma same_input_trans: "same_input a b \<Longrightarrow> same_input b c \<Longrightarrow> same_input a c"
  by (auto simp: same_input_def intro: eq_ignore_ascii_case_trans)

lemma same_dispatch_identity_trans:
  "same_dispatch_identity a b \<Longrightarrow> same_dispatch_identity b c \<Longrightarrow> same_dispatch_identity a c"
  by (auto simp: same_dispatch_identity_def list_all_length)
    (metis same_input_trans)

lemma same_dispatch_identity_job_id: "same_dispatch_identity a b \<Longrightarrow> dj_job_id b = dj_job_id a"
  by (simp add: same_dispatch_identity_def)

lemma record_progress_refl [simp]: "record_progress r r"
  by (simp add: record_progress_def same_record_identity_def reaches_refl)

lemma record_progress_trans:
  assumes "record_progress a b" "record_progress b c"
  shows "record_progress a c"
proof -
  have "jr_dispatch c = jr_dispatch a" if "is_terminal (jr_state a)"
    using assms that reaches_terminal[of "jr_state a" "jr_state b"]
    by (auto simp: record_progress_def)
  then show ?thesis
    using assms
    by (auto simp: record_progress_def same_record_identity_def
        intro: reaches_trans same_dispatch_identity_trans)
qed

lemma validate_event_sequence_Ok:
  "validate_event_sequence n p e = Ok () \<longleftrightarrow>
     n < ev_sequence e \<or> (n = ev_sequence e \<and> p = Some e \<and> ev_progress e \<noteq> Some F_NaN)"
  by (auto simp: validate_event_sequence_def JobEvent_eq_iff split: option.splits)

lemma spec_step_progress:
  "spec_step op (Some r) = (r', rep) \<Longrightarrow> \<exists>q. r' = Some q \<and> record_progress r q"
  by (cases op)
    (auto simp: record_progress_def same_record_identity_def validate_event_sequence_def reaches_refl Let_def
      split: if_splits sum.splits option.splits intro: reaches_one)

lemma spec_step_error: "spec_step op r = (r', Err e) \<Longrightarrow> r' = r"
  by (cases op; cases r) (auto split: if_splits sum.splits simp: Let_def)

lemma spec_step_new: "spec_step op None = (Some q, rep) \<Longrightarrow> \<exists>d. op = UpsertDispatch d \<and> q = received d"
  by (cases op) auto

text \<open>
  The outbox: an unacknowledged event leaves it only by the acknowledgement of the
  current sequence or by a later event.
\<close>

lemma spec_step_pending:
  assumes "spec_step op (Some r) = (Some q, rep)" and "jr_pending_event r = Some p"
    and "jr_pending_event q \<noteq> Some p"
  shows "(\<exists>k. op = ClearPendingEvent k (jr_event_sequence r)) \<or>
         (\<exists>e st. op = SetPendingEvent e st \<and> jr_event_sequence r < ev_sequence e)"
  using assms
  by (cases op)
    (auto simp: validate_event_sequence_def Let_def split: if_splits sum.splits option.splits
      dest: JobEvent_eq_imp)

definition outbox_ok :: "string \<Rightarrow> JobRecord \<Rightarrow> bool" where
  "outbox_ok k r \<longleftrightarrow>
     (case jr_pending_event r of
        None \<Rightarrow> True
      | Some e \<Rightarrow> ev_job_id e = k \<and> ev_sequence e = jr_event_sequence r)"

lemma spec_step_outbox:
  assumes "spec_step op r = (Some q, rep)" and "\<And>p. r = Some p \<Longrightarrow> outbox_ok (op_key op) p"
  shows "outbox_ok (op_key op) q"
  using assms
  by (cases op; cases r)
    (auto simp: outbox_ok_def received_def Let_def split: if_splits sum.splits option.splits)

subsection \<open>The interface\<close>

locale journal_backend =
  fixes call :: "'i \<Rightarrow> 's \<Rightarrow> 's \<times> reply"
    and op_of :: "'i \<Rightarrow> JournalOp"
    and view :: "'s \<Rightarrow> string \<Rightarrow> JobRecord option"
    and wf :: "'s \<Rightarrow> bool"
    and ok :: "'i \<Rightarrow> bool"
  assumes call_wf: "wf s \<Longrightarrow> ok i \<Longrightarrow> wf (fst (call i s))"
    and call_view: "wf s \<Longrightarrow> ok i \<Longrightarrow>
      view (fst (call i s)) =
        (view s)(op_key (op_of i) := fst (spec_step (op_of i) (view s (op_key (op_of i)))))"
    and call_reply: "wf s \<Longrightarrow> ok i \<Longrightarrow>
      snd (call i s) = snd (spec_step (op_of i) (view s (op_key (op_of i))))"
begin

lemma run_wf: "wf s \<Longrightarrow> (\<And>i. i \<in> set is \<Longrightarrow> ok i) \<Longrightarrow> wf (fst (run_calls call is s))"
  by (induction "is" arbitrary: s) (auto simp: Let_def case_prod_beta call_wf)

lemma call_progress:
  assumes "wf s" "ok i" "view s k = Some r"
  shows "\<exists>q. view (fst (call i s)) k = Some q \<and> record_progress r q"
proof (cases "op_key (op_of i) = k")
  case True
  obtain r' rep where sp: "spec_step (op_of i) (Some r) = (r', rep)" by fastforce
  from spec_step_progress[OF sp] obtain q where "r' = Some q" "record_progress r q" by blast
  with sp True assms show ?thesis by (simp add: call_view)
next
  case False
  with assms show ?thesis by (simp add: call_view)
qed

lemma run_progress:
  assumes "wf s" "\<And>i. i \<in> set is \<Longrightarrow> ok i" "view s k = Some r"
  shows "\<exists>q. view (fst (run_calls call is s)) k = Some q \<and> record_progress r q"
  using assms
proof (induction "is" arbitrary: s r)
  case (Cons i "is")
  from Cons.prems have ok: "ok i" by simp
  obtain q where q: "view (fst (call i s)) k = Some q" "record_progress r q"
    using call_progress[OF Cons.prems(1) ok Cons.prems(3)] by blast
  have "wf (fst (call i s))" using Cons.prems(1) ok by (rule call_wf)
  with Cons.IH[of "fst (call i s)" q] Cons.prems(2) q(1)
  obtain q' where "view (fst (run_calls call is (fst (call i s)))) k = Some q'" "record_progress q q'"
    by auto
  with q(2) show ?case
    by (auto simp: Let_def case_prod_beta intro: record_progress_trans)
qed simp

lemma call_error_unchanged: "wf s \<Longrightarrow> ok i \<Longrightarrow> snd (call i s) = Err e \<Longrightarrow> view (fst (call i s)) = view s"
  by (metis call_reply call_view fun_upd_triv prod.collapse spec_step_error)

lemma call_outbox:
  assumes "wf s" "ok i" "\<And>k r. view s k = Some r \<Longrightarrow> outbox_ok k r" "view (fst (call i s)) k = Some q"
  shows "outbox_ok k q"
proof (cases "k = op_key (op_of i)")
  case True
  with assms have "spec_step (op_of i) (view s (op_key (op_of i))) =
      (Some q, snd (spec_step (op_of i) (view s (op_key (op_of i)))))"
    by (simp add: call_view prod_eq_iff)
  from spec_step_outbox[OF this] assms(3) show ?thesis unfolding True by blast
next
  case False
  with assms show ?thesis by (simp add: call_view)
qed

lemma run_outbox:
  assumes "wf s" "\<And>i. i \<in> set is \<Longrightarrow> ok i" "\<And>k r. view s k = Some r \<Longrightarrow> outbox_ok k r"
    "view (fst (run_calls call is s)) k = Some q"
  shows "outbox_ok k q"
  using assms
proof (induction "is" arbitrary: s)
  case (Cons i "is")
  then have ok: "ok i" by simp
  have "outbox_ok k' r" if "view (fst (call i s)) k' = Some r" for k' r
    by (rule call_outbox[OF Cons.prems(1) ok Cons.prems(3) that])
  moreover have "wf (fst (call i s))" using Cons.prems(1) ok by (rule call_wf)
  ultimately show ?case
    using Cons.IH[of "fst (call i s)"] Cons.prems(2,4) by (auto simp: Let_def case_prod_beta)
qed simp

text \<open>A pending event survives a run that neither acknowledges it nor supersedes it.\<close>

lemma call_pending_kept:
  assumes "wf s" "ok i" "view s k = Some r" "jr_pending_event r = Some p"
    "\<And>k'. op_of i \<noteq> ClearPendingEvent k' (jr_event_sequence r)"
    "\<And>e st. op_of i = SetPendingEvent e st \<Longrightarrow> ev_sequence e \<le> jr_event_sequence r"
  shows "\<exists>q. view (fst (call i s)) k = Some q \<and> jr_pending_event q = Some p"
proof (cases "k = op_key (op_of i)")
  case True
  obtain r' rep where sp: "spec_step (op_of i) (Some r) = (r', rep)" by fastforce
  from spec_step_progress[OF sp] obtain q where q: "r' = Some q" by blast
  have "jr_pending_event q = Some p"
    using spec_step_pending[OF sp[unfolded q] assms(4)] assms(5,6) by (fastforce simp: not_le[symmetric])
  with sp q True assms(1-3) show ?thesis by (simp add: call_view)
next
  case False
  with assms show ?thesis by (simp add: call_view)
qed

end

text \<open>Two backends that agree on a state answer every run of the same operations alike.\<close>

locale journal_pair =
  a: journal_backend call\<^sub>a op\<^sub>a view\<^sub>a wf\<^sub>a ok\<^sub>a + b: journal_backend call\<^sub>b op\<^sub>b view\<^sub>b wf\<^sub>b ok\<^sub>b
  for call\<^sub>a :: "'i \<Rightarrow> 's \<Rightarrow> 's \<times> reply" and op\<^sub>a view\<^sub>a wf\<^sub>a ok\<^sub>a
    and call\<^sub>b :: "'j \<Rightarrow> 't \<Rightarrow> 't \<times> reply" and op\<^sub>b view\<^sub>b wf\<^sub>b ok\<^sub>b
begin

lemma run_equivalent:
  assumes "wf\<^sub>a s" "wf\<^sub>b t" "view\<^sub>a s = view\<^sub>b t" "map op\<^sub>a is = map op\<^sub>b js"
    "\<And>i. i \<in> set is \<Longrightarrow> ok\<^sub>a i" "\<And>j. j \<in> set js \<Longrightarrow> ok\<^sub>b j"
  shows "snd (run_calls call\<^sub>a is s) = snd (run_calls call\<^sub>b js t) \<and>
    view\<^sub>a (fst (run_calls call\<^sub>a is s)) = view\<^sub>b (fst (run_calls call\<^sub>b js t))"
  using assms
proof (induction "is" arbitrary: js s t)
  case (Cons i "is")
  from Cons.prems(4) obtain j js' where js: "js = j # js'" "op\<^sub>a i = op\<^sub>b j" "map op\<^sub>a is = map op\<^sub>b js'"
    by (cases js) auto
  have ok: "ok\<^sub>a i" "ok\<^sub>b j" using Cons.prems(5,6) js(1) by auto
  have "view\<^sub>a (fst (call\<^sub>a i s)) = view\<^sub>b (fst (call\<^sub>b j t))" "snd (call\<^sub>a i s) = snd (call\<^sub>b j t)"
    using Cons.prems(1-3) ok js(2)
    by (simp_all add: a.call_view b.call_view a.call_reply b.call_reply)
  moreover have "wf\<^sub>a (fst (call\<^sub>a i s))" "wf\<^sub>b (fst (call\<^sub>b j t))"
    using Cons.prems(1,2) ok by (simp_all add: a.call_wf b.call_wf)
  ultimately show ?case
    using Cons.IH[of "fst (call\<^sub>a i s)" "fst (call\<^sub>b j t)" js'] Cons.prems(5,6) js(1,3)
    by (auto simp: Let_def case_prod_beta)
qed simp

end

end
