(* ===== verification/Journal_Backends.thy ===== *)
theory Journal_Backends
  imports Journal_Spec
begin

text \<open>
  Both journals implement the contract of \<open>Journal_Spec\<close>. For the SQLite journal the
  operations are admissible when the codec is exact on the value they store and the
  event sequence fits the signed column.
\<close>

subsection \<open>The in-memory journal\<close>

definition mem_view :: "MemoryJournal \<Rightarrow> string \<Rightarrow> JobRecord option" where
  "mem_view j = bt_get (mj_records j)"

definition mem_wf :: "MemoryJournal \<Rightarrow> bool" where
  "mem_wf j \<longleftrightarrow>
     bt_wf (mj_records j) \<and>
     (\<forall>k r. bt_get (mj_records j) k = Some r \<longrightarrow> dj_job_id (jr_dispatch r) = k)"

lemmas mem_defs =
  mem_upsert_def mem_get_def mem_set_state_def mem_set_prompt_id_def mem_set_pending_event_def
  mem_clear_pending_event_def

lemma mem_call_refines:
  assumes "mem_wf j"
  shows "mem_view (fst (mem_call op j)) =
      (mem_view j)(op_key op := fst (spec_step op (mem_view j (op_key op))))"
    and "snd (mem_call op j) = snd (spec_step op (mem_view j (op_key op)))"
  using assms
  by (cases op; auto simp: mem_defs mem_view_def mem_wf_def received_def Let_def fun_upd_idem
      split: option.splits sum.splits if_splits)+

lemma mem_call_wf: "mem_wf j \<Longrightarrow> mem_wf (fst (mem_call op j))"
  by (cases op)
    (auto simp: mem_defs mem_wf_def received_def Let_def dest: same_dispatch_identity_job_id
      split: option.splits sum.splits if_splits)

interpretation mem: journal_backend mem_call "\<lambda>op. op" mem_view mem_wf "\<lambda>op. True"
  by unfold_locales (simp_all add: mem_call_wf mem_call_refines)

subsection \<open>The SQLite journal\<close>

definition sqlite_view :: "serde \<Rightarrow> worker_jobs \<Rightarrow> string \<Rightarrow> JobRecord option" where
  "sqlite_view S t k =
     (case hm_get t k of
        None \<Rightarrow> None
      | Some row \<Rightarrow> (case decode_job S row of Err _ \<Rightarrow> None | Ok r \<Rightarrow> Some r))"

definition sqlite_row_ok :: "serde \<Rightarrow> string \<Rightarrow> worker_jobs_row \<Rightarrow> bool" where
  "sqlite_row_ok S k row \<longleftrightarrow>
     (case decode_job S row of Err _ \<Rightarrow> False | Ok r \<Rightarrow> dj_job_id (jr_dispatch r) = k) \<and>
     0 \<le> row_event_sequence row \<and> row_event_sequence row \<le> i64_max"

definition sqlite_wf :: "serde \<Rightarrow> worker_jobs \<Rightarrow> bool" where
  "sqlite_wf S t \<longleftrightarrow> hm_wf t \<and> (\<forall>k row. hm_get t k = Some row \<longrightarrow> sqlite_row_ok S k row)"

text \<open>The codec is exact on the value an operation stores.\<close>

definition dispatch_exact :: "serde \<Rightarrow> DispatchJob \<Rightarrow> bool" where
  "dispatch_exact S d \<longleftrightarrow> (case enc_dispatch S d of None \<Rightarrow> False | Some p \<Rightarrow> dec_dispatch S p = Some d)"

definition event_exact :: "serde \<Rightarrow> JobEvent \<Rightarrow> bool" where
  "event_exact S e \<longleftrightarrow> (case enc_event S e of None \<Rightarrow> False | Some p \<Rightarrow> dec_event S p = Some e)"

fun sqlite_ok :: "serde \<Rightarrow> JournalOp \<Rightarrow> bool" where
  "sqlite_ok S (UpsertDispatch d) = dispatch_exact S d"
| "sqlite_ok S (SetPendingEvent e st) = (event_exact S e \<and> uint (ev_sequence e) \<le> i64_max)"
| "sqlite_ok S (ClearPendingEvent k n) = (uint n \<le> i64_max)"
| "sqlite_ok S _ = True"

lemma decode_job_Ok:
  "decode_job S row = Ok r \<longleftrightarrow>
     dec_dispatch S (row_dispatch_json row) = Some (jr_dispatch r) \<and>
     parse_state (row_state row) = Ok (jr_state r) \<and>
     jr_prompt_id r = row_prompt_id row \<and>
     jr_event_sequence r = i64_max0_as_u64 (row_event_sequence row) \<and>
     decode_pending S (row_pending_event_json row) = Ok (jr_pending_event r)"
  by (auto simp: decode_job_def and_then_eq_Ok split: option.splits intro: JobRecord.equality)

lemma decode_event_head_of_job:
  "decode_job S row = Ok r \<Longrightarrow>
     decode_event_head S row =
       Ok \<lparr>eh_state = jr_state r, eh_event_sequence = jr_event_sequence r,
           eh_pending_event = jr_pending_event r\<rparr>"
  by (simp add: decode_job_Ok decode_event_head_def)

lemma sqlite_put:
  assumes "sqlite_wf S t" "sqlite_row_ok S k row" "decode_job S row = Ok r"
  shows "sqlite_wf S (hm_insert k row t)"
    and "sqlite_view S (hm_insert k row t) = (sqlite_view S t)(k \<mapsto> r)"
  using assms by (auto simp: sqlite_wf_def sqlite_view_def fun_eq_iff)

lemma sqlite_rowE:
  assumes "sqlite_wf S t" "hm_get t k = Some row"
  obtains r where "decode_job S row = Ok r" "sqlite_view S t k = Some r"
    "dj_job_id (jr_dispatch r) = k" "0 \<le> row_event_sequence row" "row_event_sequence row \<le> i64_max"
proof -
  from assms have ok: "sqlite_row_ok S k row" by (simp add: sqlite_wf_def)
  then obtain r where r: "decode_job S row = Ok r"
    by (cases "decode_job S row") (auto simp: sqlite_row_ok_def)
  with ok assms(2) show ?thesis by (intro that[of r]) (auto simp: sqlite_row_ok_def sqlite_view_def)
qed

lemma sqlite_view_None: "hm_get t k = None \<Longrightarrow> sqlite_view S t k = None"
  by (simp add: sqlite_view_def)

lemma u64_to_i64_bounds: "0 \<le> u64_to_i64_or_max n" "u64_to_i64_or_max n \<le> i64_max"
  by (simp_all add: u64_to_i64_or_max_def i64_max_def)

lemma i64_seq_eq:
  assumes "0 \<le> m" "m \<le> i64_max" "uint n \<le> i64_max"
  shows "m = u64_to_i64_or_max n \<longleftrightarrow> i64_max0_as_u64 m = n"
proof -
  have "uint (i64_max0_as_u64 m) = m"
    using assms(1,2) by (simp add: i64_max0_as_u64_def i64_max_def uint_word_of_int_eq take_bit_int_eq_self)
  then show ?thesis using assms(3) by (auto simp: u64_to_i64_or_max_def min_def word_uint_eq_iff)
qed

text \<open>One lemma per operation: the new table is well-formed, its view and the reply are those of the contract.\<close>

definition sqlite_refines :: "serde \<Rightarrow> JournalOp \<Rightarrow> worker_jobs \<Rightarrow> worker_jobs \<times> reply \<Rightarrow> bool" where
  "sqlite_refines S op t out \<longleftrightarrow>
     sqlite_wf S (fst out) \<and>
     sqlite_view S (fst out) =
       (sqlite_view S t)(op_key op := fst (spec_step op (sqlite_view S t (op_key op)))) \<and>
     snd out = snd (spec_step op (sqlite_view S t (op_key op)))"

lemma sqlite_refines_same:
  assumes "sqlite_wf S t" "spec_step op (sqlite_view S t (op_key op)) = (sqlite_view S t (op_key op), rep)"
  shows "sqlite_refines S op t (t, rep)"
  using assms by (simp add: sqlite_refines_def fun_upd_idem)

lemma sqlite_refines_put:
  assumes "sqlite_wf S t" "decode_job S row = Ok r" "dj_job_id (jr_dispatch r) = op_key op"
    "0 \<le> row_event_sequence row" "row_event_sequence row \<le> i64_max"
    "spec_step op (sqlite_view S t (op_key op)) = (Some r, rep)"
  shows "sqlite_refines S op t (hm_insert (op_key op) row t, rep)"
proof -
  have "sqlite_row_ok S (op_key op) row" using assms(2-5) by (simp add: sqlite_row_ok_def)
  from sqlite_put[OF assms(1) this assms(2)] assms(6) show ?thesis by (simp add: sqlite_refines_def)
qed

lemma sqlite_upsert_refines:
  assumes "sqlite_wf S t" "dispatch_exact S d"
  shows "sqlite_refines S (UpsertDispatch d) t (sqlite_upsert S now d t)"
proof -
  let ?op = "UpsertDispatch d" and ?k = "dj_job_id d"
  from assms(2) obtain p where p: "enc_dispatch S d = Some p" "dec_dispatch S p = Some d"
    by (auto simp: dispatch_exact_def split: option.splits)
  show ?thesis
  proof (cases "hm_get t ?k")
    case None
    let ?row = "\<lparr>row_dispatch_json = p, row_state = ''received'', row_prompt_id = None,
      row_event_sequence = 0, row_pending_event_json = None, row_updated_at = now\<rparr>"
    have "decode_job S ?row = Ok (received d)"
      using p(2) parse_state_state_str[of Received]
      by (simp add: decode_job_Ok received_def decode_pending_def i64_max0_as_u64_def)
    from sqlite_refines_put[where op = ?op, OF assms(1) this] None p(1) show ?thesis
      by (simp add: sqlite_upsert_def sqlite_view_None received_def i64_max_def)
  next
    case (Some row)
    from assms(1) Some obtain r where r: "decode_job S row = Ok r" "sqlite_view S t ?k = Some r"
      "dj_job_id (jr_dispatch r) = ?k" "0 \<le> row_event_sequence row" "row_event_sequence row \<le> i64_max"
      by (rule sqlite_rowE)
    have upd: "decode_job S (row\<lparr>row_dispatch_json := p, row_updated_at := now\<rparr>) = Ok (r\<lparr>jr_dispatch := d\<rparr>)"
      using r(1) p(2) by (simp add: decode_job_Ok)
    show ?thesis
      using sqlite_refines_put[where op = ?op, OF assms(1) upd]
        sqlite_refines_same[where op = ?op, OF assms(1)] r p(1) Some
      by (auto simp: sqlite_upsert_def sql_update_def)
  qed
qed

lemma sqlite_get_refines:
  assumes "sqlite_wf S t"
  shows "sqlite_refines S (GetJob k) t (sqlite_get S k t)"
proof (cases "hm_get t k")
  case None
  then show ?thesis
    using sqlite_refines_same[where op = "GetJob k", OF assms] by (simp add: sqlite_get_def sqlite_view_None)
next
  case (Some row)
  from assms Some obtain r where "decode_job S row = Ok r" "sqlite_view S t k = Some r"
    by (rule sqlite_rowE)
  then show ?thesis
    using sqlite_refines_same[where op = "GetJob k", OF assms] Some by (simp add: sqlite_get_def)
qed

lemma sqlite_set_state_refines:
  assumes "sqlite_wf S t"
  shows "sqlite_refines S (SetJobState k s) t (sqlite_set_state now k s t)"
proof (cases "hm_get t k")
  case None
  then show ?thesis
    using sqlite_refines_same[where op = "SetJobState k s", OF assms]
    by (simp add: sqlite_set_state_def sqlite_view_None)
next
  case (Some row)
  from assms Some obtain r where r: "decode_job S row = Ok r" "sqlite_view S t k = Some r"
    "dj_job_id (jr_dispatch r) = k" "0 \<le> row_event_sequence row" "row_event_sequence row \<le> i64_max"
    by (rule sqlite_rowE)
  have upd: "decode_job S (row\<lparr>row_state := state_str s, row_updated_at := now\<rparr>) = Ok (r\<lparr>jr_state := s\<rparr>)"
    using r(1) by (simp add: decode_job_Ok)
  have "parse_state (row_state row) = Ok (jr_state r)" using r(1) by (simp add: decode_job_Ok)
  then show ?thesis
    using sqlite_refines_put[where op = "SetJobState k s", OF assms upd]
      sqlite_refines_same[where op = "SetJobState k s", OF assms] r Some
    by (auto simp: sqlite_set_state_def sql_update_def)
qed

lemma sqlite_set_prompt_id_refines:
  assumes "sqlite_wf S t"
  shows "sqlite_refines S (SetPromptId k p) t (sqlite_set_prompt_id now k p t)"
proof (cases "hm_get t k")
  case None
  then show ?thesis
    using sqlite_refines_same[where op = "SetPromptId k p", OF assms]
    by (simp add: sqlite_set_prompt_id_def sql_update_def ensure_updated_def sqlite_view_None)
next
  case (Some row)
  from assms Some obtain r where r: "decode_job S row = Ok r" "sqlite_view S t k = Some r"
    "dj_job_id (jr_dispatch r) = k" "0 \<le> row_event_sequence row" "row_event_sequence row \<le> i64_max"
    by (rule sqlite_rowE)
  have upd: "decode_job S (row\<lparr>row_prompt_id := Some p, row_updated_at := now\<rparr>) = Ok (r\<lparr>jr_prompt_id := Some p\<rparr>)"
    using r(1) by (simp add: decode_job_Ok)
  from sqlite_refines_put[where op = "SetPromptId k p", OF assms upd] r Some show ?thesis
    by (simp add: sqlite_set_prompt_id_def sql_update_def ensure_updated_def)
qed

lemma sqlite_set_pending_event_refines:
  assumes "sqlite_wf S t" "event_exact S e" "uint (ev_sequence e) \<le> i64_max"
  shows "sqlite_refines S (SetPendingEvent e st) t (sqlite_set_pending_event S now e st t)"
proof (cases "hm_get t (ev_job_id e)")
  case None
  then show ?thesis
    using sqlite_refines_same[where op = "SetPendingEvent e st", OF assms(1)]
    by (simp add: sqlite_set_pending_event_def sqlite_view_None)
next
  case (Some row)
  from assms(2) obtain p where p: "enc_event S e = Some p" "dec_event S p = Some e"
    by (auto simp: event_exact_def split: option.splits)
  from assms(1) Some obtain r where r: "decode_job S row = Ok r" "sqlite_view S t (ev_job_id e) = Some r"
    "dj_job_id (jr_dispatch r) = ev_job_id e" "0 \<le> row_event_sequence row" "row_event_sequence row \<le> i64_max"
    by (rule sqlite_rowE)
  let ?seq = "u64_to_i64_or_max (ev_sequence e)"
  have upd: "decode_job S (row\<lparr>row_event_sequence := ?seq, row_pending_event_json := Some p, row_updated_at := now\<rparr>) =
      Ok (r\<lparr>jr_event_sequence := ev_sequence e, jr_pending_event := Some e\<rparr>)"
    "decode_job S (row\<lparr>row_state := state_str s, row_event_sequence := ?seq,
        row_pending_event_json := Some p, row_updated_at := now\<rparr>) =
      Ok (r\<lparr>jr_state := s, jr_event_sequence := ev_sequence e, jr_pending_event := Some e\<rparr>)" for s
    using r(1) p(2) assms(3) by (simp_all add: decode_job_Ok decode_pending_def i64_u64_roundtrip)
  note head = decode_event_head_of_job[OF r(1)]
  note put = sqlite_refines_put[where op = "SetPendingEvent e st", OF assms(1)]
  note same = sqlite_refines_same[where op = "SetPendingEvent e st", OF assms(1)]
  show ?thesis
  proof (cases "validate_event_sequence (jr_event_sequence r) (jr_pending_event r) e")
    case (Inl x)
    with same r Some head show ?thesis by (simp add: sqlite_set_pending_event_def)
  next
    case (Inr u)
    show ?thesis
    proof (cases st)
      case None
      with put[OF upd(1)] r p Some head Inr u64_to_i64_bounds show ?thesis
        by (simp add: sqlite_set_pending_event_def sql_update_def ensure_updated_def)
    next
      case (Some s)
      with put[OF upd(2)[of s]] same r p \<open>hm_get t (ev_job_id e) = Some row\<close> head Inr u64_to_i64_bounds
      show ?thesis
        by (auto simp: sqlite_set_pending_event_def sql_update_def ensure_updated_def)
    qed
  qed
qed

lemma sqlite_clear_pending_event_refines:
  assumes "sqlite_wf S t" "uint n \<le> i64_max"
  shows "sqlite_refines S (ClearPendingEvent k n) t (sqlite_clear_pending_event now k n t)"
proof (cases "hm_get t k")
  case None
  then show ?thesis
    using sqlite_refines_same[where op = "ClearPendingEvent k n", OF assms(1)]
    by (simp add: sqlite_clear_pending_event_def sql_update_def sqlite_view_None)
next
  case (Some row)
  from assms(1) Some obtain r where r: "decode_job S row = Ok r" "sqlite_view S t k = Some r"
    "dj_job_id (jr_dispatch r) = k" "0 \<le> row_event_sequence row" "row_event_sequence row \<le> i64_max"
    by (rule sqlite_rowE)
  have upd: "decode_job S (row\<lparr>row_pending_event_json := None, row_updated_at := now\<rparr>) =
      Ok (r\<lparr>jr_pending_event := None\<rparr>)"
    using r(1) by (simp add: decode_job_Ok decode_pending_def)
  have "row_event_sequence row = u64_to_i64_or_max n \<longleftrightarrow> jr_event_sequence r = n"
    using i64_seq_eq[OF r(4,5) assms(2)] r(1) by (simp add: decode_job_Ok)
  then show ?thesis
    using sqlite_refines_put[where op = "ClearPendingEvent k n", OF assms(1) upd]
      sqlite_refines_same[where op = "ClearPendingEvent k n", OF assms(1)] r Some
    by (auto simp: sqlite_clear_pending_event_def sql_update_def)
qed

lemma sqlite_call_refines:
  "sqlite_wf S t \<Longrightarrow> sqlite_ok S op \<Longrightarrow> sqlite_refines S op t (sqlite_call S now op t)"
  by (cases op)
    (simp_all add: sqlite_upsert_refines sqlite_get_refines sqlite_set_state_refines
      sqlite_set_prompt_id_refines sqlite_set_pending_event_refines sqlite_clear_pending_event_refines)

interpretation sqlite: journal_backend
  "\<lambda>(now, op). sqlite_call S now op" snd "sqlite_view S" "sqlite_wf S" "\<lambda>(now, op). sqlite_ok S op"
  for S :: serde
  by unfold_locales (use sqlite_call_refines in \<open>force simp: sqlite_refines_def\<close>)+

interpretation mem_sqlite: journal_pair
  mem_call "\<lambda>op. op" mem_view mem_wf "\<lambda>op. True"
  "\<lambda>(now, op). sqlite_call S now op" snd "sqlite_view S" "sqlite_wf S" "\<lambda>(now, op). sqlite_ok S op"
  for S :: serde
  by unfold_locales

end
