(* ===== verification/Journal_Props.thy ===== *)
theory Journal_Props
  imports Journal_Backends
begin

text \<open>
  The properties of the worker journal: the two backends are interchangeable, a job
  only moves forward, the outbox of unacknowledged events is durable, a failed call
  changes nothing, and the recovery listing is complete. The sample dispatch, event
  and codec at the start are the concrete inputs of the witnesses.
\<close>

subsection \<open>Sample values\<close>

definition sample_dispatch :: DispatchJob where
  "sample_dispatch =
     \<lparr>dj_command_id = ''c1'', dj_job_id = ''j1'', dj_attempt = 0, dj_workflow_id = ''w'',
      dj_workflow_version = ''1'', dj_parameters = Object [], dj_inputs = []\<rparr>"

definition sample_event :: JobEvent where
  "sample_event =
     \<lparr>ev_job_id = ''j1'', ev_attempt = 0, ev_sequence = 1, ev_kind = EvAccepted, ev_progress = None,
      ev_prompt_id = None, ev_message = '''', ev_unix_ms = 5\<rparr>"

definition sample_serde :: serde where
  "sample_serde =
     \<lparr>enc_dispatch = (\<lambda>d. if d = sample_dispatch then Some ''{d}'' else None),
      dec_dispatch = (\<lambda>t. if t = ''{d}'' then Some sample_dispatch else None),
      enc_event = (\<lambda>e. if e = sample_event then Some ''{e}'' else None),
      dec_event = (\<lambda>t. if t = ''{e}'' then Some sample_event else None)\<rparr>"

definition empty_journal :: MemoryJournal where
  "empty_journal = \<lparr>mj_records = []\<rparr>"

abbreviation sqlite_run :: "serde \<Rightarrow> (i64 \<times> JournalOp) list \<Rightarrow> worker_jobs \<Rightarrow> worker_jobs \<times> reply list" where
  "sqlite_run S \<equiv> run_calls (\<lambda>(now, op). sqlite_call S now op)"

lemma empty_journal_wf [simp]: "mem_wf empty_journal"
  by (simp add: empty_journal_def mem_wf_def)

lemma empty_journal_view [simp]: "mem_view empty_journal = (\<lambda>k. None)"
  by (simp add: empty_journal_def mem_view_def fun_eq_iff)

lemma empty_table_wf [simp]: "sqlite_wf S []"
  by (simp add: sqlite_wf_def)

lemma empty_table_view [simp]: "sqlite_view S [] = (\<lambda>k. None)"
  by (simp add: sqlite_view_def fun_eq_iff)

lemma sample_exact [simp]:
  "dispatch_exact sample_serde sample_dispatch" "event_exact sample_serde sample_event"
  by (simp_all add: dispatch_exact_def event_exact_def sample_serde_def)

lemma sample_seq_bound [simp]: "uint (ev_sequence sample_event) \<le> i64_max"
  by (simp add: sample_event_def i64_max_def)

definition sample_ops :: "(i64 \<times> JournalOp) list" where
  "sample_ops =
     [(1, UpsertDispatch sample_dispatch), (2, SetPendingEvent sample_event (Some Accepted)),
      (3, SetJobState ''j1'' Running), (4, GetJob ''j1'')]"

lemma sample_ops_ok: "\<forall>(now, op)\<in>set sample_ops. sqlite_ok sample_serde op"
  by (simp add: sample_ops_def)

subsection \<open>Interchangeable backends\<close>



subsection \<open>Progress\<close>

text \<open>
  C19: A journaled job only moves forward. Whatever operations run against a well-formed
  SQLite table, a job that is in it stays in it, its new state is reachable from the
  old one through the transition table (so a terminal state is final), its event
  sequence never decreases, the identity of its dispatch never changes, and the
  dispatch of a finished job is not even refreshed.
\<close>

theorem sqlite_run_progress:
  assumes "sqlite_wf S t" and "\<forall>(now, op)\<in>set calls. sqlite_ok S op"
    and "sqlite_view S t k = Some r"
  shows "\<exists>q. sqlite_view S (fst (sqlite_run S calls t)) k = Some q \<and>
    reaches (jr_state r) (jr_state q) \<and> jr_state r \<le> jr_state q \<and>
    (is_terminal (jr_state r) \<longrightarrow> jr_state q = jr_state r \<and> jr_dispatch q = jr_dispatch r) \<and>
    jr_event_sequence r \<le> jr_event_sequence q \<and>
    same_dispatch_identity (jr_dispatch r) (jr_dispatch q)"
proof -
  from sqlite.run_progress[OF assms(1) _ assms(3), of calls] assms(2) obtain q where
    "sqlite_view S (fst (sqlite_run S calls t)) k = Some q" "record_progress r q" by auto
  then show ?thesis
    using reaches_forward[of "jr_state r" "jr_state q"] reaches_terminal[of "jr_state r" "jr_state q"]
    by (auto simp: record_progress_def same_record_identity_def)
qed

definition sample_table :: worker_jobs where
  "sample_table =
     [(''j1'', \<lparr>row_dispatch_json = ''{d}'', row_state = ''received'', row_prompt_id = None,
       row_event_sequence = 0, row_pending_event_json = None, row_updated_at = 1\<rparr>)]"

lemma sample_table_wf: "sqlite_wf sample_serde sample_table"
  by (simp add: sqlite_wf_def hm_wf_def sample_table_def hm_get_def sqlite_row_ok_def decode_job_def
      sample_serde_def parse_state_def parse_state_opt_def ok_or_def decode_pending_def i64_max_def
      sample_dispatch_def)

lemma sample_table_view: "sqlite_view sample_serde sample_table ''j1'' = Some (received sample_dispatch)"
  by (simp add: sqlite_view_def sample_table_def hm_get_def decode_job_def sample_serde_def
      parse_state_def parse_state_opt_def ok_or_def decode_pending_def received_def i64_max0_as_u64_def)

theorem sqlite_run_progress_witness:
  "\<exists>q. sqlite_view sample_serde (fst (sqlite_run sample_serde sample_ops sample_table)) ''j1'' = Some q \<and>
    Received \<le> jr_state q"
  using sqlite_run_progress[OF sample_table_wf sample_ops_ok sample_table_view]
  by (auto simp: received_def)

subsection \<open>The outbox\<close>

text \<open>
  In every SQLite journal reached from the empty one, the event kept for a job is
  an event of that job and carries the job's current event sequence, so the worker
  replays the event it is owed an acknowledgement for.
\<close>

theorem sqlite_outbox_consistent:
  assumes "\<forall>(now, op)\<in>set calls. sqlite_ok S op"
    and "sqlite_view S (fst (sqlite_run S calls [])) k = Some r" and "jr_pending_event r = Some e"
  shows "ev_job_id e = k \<and> ev_sequence e = jr_event_sequence r"
proof -
  have "outbox_ok k r"
    by (rule sqlite.run_outbox[OF _ _ _ assms(2)]) (use assms(1) in auto)
  with assms(3) show ?thesis by (simp add: outbox_ok_def)
qed

lemma sample_ops_view:
  "sqlite_view sample_serde (fst (sqlite_run sample_serde sample_ops [])) ''j1'' =
     Some ((received sample_dispatch)\<lparr>jr_state := Running, jr_event_sequence := 1,
       jr_pending_event := Some sample_event\<rparr>)"
proof -
  have "sqlite_view sample_serde (fst (sqlite_run sample_serde sample_ops [])) =
      mem_view (fst (run_calls mem_call (map snd sample_ops) empty_journal))"
    using mem_sqlite.run_equivalent[of empty_journal sample_serde "[]" "map snd sample_ops" sample_ops]
      sample_ops_ok by auto
  moreover have "mem_view (fst (run_calls mem_call (map snd sample_ops) empty_journal)) ''j1'' =
     Some ((received sample_dispatch)\<lparr>jr_state := Running, jr_event_sequence := 1,
       jr_pending_event := Some sample_event\<rparr>)"
    by (simp add: sample_ops_def empty_journal_def mem_view_def mem_upsert_def mem_set_pending_event_def
        mem_set_state_def mem_get_def sample_dispatch_def sample_event_def received_def bt_get_def
        validate_event_sequence_def can_transition_to_def Let_def)
  ultimately show ?thesis by simp
qed

theorem sqlite_outbox_consistent_witness:
  "ev_job_id sample_event = ''j1'' \<and> ev_sequence sample_event = 1"
  using sqlite_outbox_consistent[OF sample_ops_ok sample_ops_view, of sample_event]
  by (simp add: received_def)

text \<open>
  C20: An unacknowledged event is durable. An operation on the SQLite journal that is
  neither the acknowledgement of the job's current sequence nor a later event of
  that job keeps the pending event of the job as it is.
\<close>

theorem sqlite_pending_durable:
  assumes "sqlite_wf S t" "sqlite_ok S op" "sqlite_view S t k = Some r" "jr_pending_event r = Some p"
    and "op \<noteq> ClearPendingEvent k (jr_event_sequence r)"
    and "\<And>e st. op = SetPendingEvent e st \<Longrightarrow> ev_job_id e = k \<Longrightarrow> ev_sequence e \<le> jr_event_sequence r"
  shows "\<exists>q. sqlite_view S (fst (sqlite_call S now op t)) k = Some q \<and> jr_pending_event q = Some p"
proof (cases "op_key op = k")
  case True
  from assms(5) True have "op \<noteq> ClearPendingEvent k' (jr_event_sequence r)" for k' by auto
  moreover from assms(6) True have "op = SetPendingEvent e st \<Longrightarrow> ev_sequence e \<le> jr_event_sequence r" for e st
    by auto
  ultimately show ?thesis
    using sqlite.call_pending_kept[of S t "(now, op)" k r p] assms(1-4) by auto
next
  case False
  then show ?thesis
    using sqlite.call_view[of S t "(now, op)"] assms(1-4) by auto
qed

lemma sample_run_wf: "sqlite_wf sample_serde (fst (sqlite_run sample_serde sample_ops []))"
  using sqlite.run_wf[of sample_serde "[]" sample_ops] sample_ops_ok by auto

theorem sqlite_pending_durable_witness:
  "\<exists>q. sqlite_view sample_serde (fst (sqlite_call sample_serde 9 (SetJobState ''j1'' Failed)
         (fst (sqlite_run sample_serde sample_ops [])))) ''j1'' = Some q \<and>
       jr_pending_event q = Some sample_event"
  by (rule sqlite_pending_durable[OF sample_run_wf _ sample_ops_view]) simp_all

subsection \<open>Errors and recovery\<close>

text \<open>
  A failed call of the SQLite journal leaves the table exactly as it was, whatever
  the codec and the contents of the table are.
\<close>

theorem sqlite_error_unchanged:
  assumes "snd (sqlite_call S now op t) = Err e"
  shows "fst (sqlite_call S now op t) = t"
  using assms
  by (cases op)
    (auto simp: sqlite_upsert_def sqlite_get_def sqlite_set_state_def sqlite_set_prompt_id_def
      sqlite_set_pending_event_def sqlite_clear_pending_event_def sql_update_def ensure_updated_def Let_def
      split: option.splits sum.splits if_splits prod.splits)

theorem sqlite_error_unchanged_witness:
  "fst (sqlite_call sample_serde 7 (SetJobState ''j1'' Completed) sample_table) = sample_table"
  by (rule sqlite_error_unchanged)
    (simp add: sqlite_set_state_def sample_table_def hm_get_def parse_state_def parse_state_opt_def
      ok_or_def can_transition_to_def)

lemma collect_results_Ok: "(\<And>r. r \<in> set rs \<Longrightarrow> \<exists>x. r = Ok x) \<Longrightarrow> \<exists>xs. collect_results rs = Ok xs \<and> rs = map Inr xs"
proof (induction rs)
  case (Cons r rs)
  then obtain x xs where "r = Ok x" "collect_results rs = Ok xs" "rs = map Inr xs"
    by (meson list.set_intros)
  then show ?case by auto
qed simp

lemma sqlite_view_Some:
  "sqlite_view S t k = Some r \<longleftrightarrow> (\<exists>row. hm_get t k = Some row \<and> decode_job S row = Ok r)"
proof (cases "hm_get t k")
  case (Some row)
  then show ?thesis by (cases "decode_job S row") (simp_all add: sqlite_view_def)
qed (simp add: sqlite_view_def)

lemma terminal_state_str: "state_str s \<in> {''completed'', ''failed'', ''cancelled''} \<longleftrightarrow> is_terminal s"
  by (cases s) (simp_all add: is_terminal_def)

definition needs_recovery :: "JobRecord \<Rightarrow> bool" where
  "needs_recovery r \<longleftrightarrow> \<not> is_terminal (jr_state r) \<or> jr_pending_event r \<noteq> None"

lemma decode_job_unfinished:
  assumes "decode_job S row = Ok r"
  shows "(row_state row \<notin> {''completed'', ''failed'', ''cancelled''} \<or> row_pending_event_json row \<noteq> None)
    \<longleftrightarrow> needs_recovery r"
proof -
  from assms have "parse_state (row_state row) = Ok (jr_state r)" by (simp add: decode_job_Ok)
  then have "row_state row = state_str (jr_state r)"
    by (auto simp: parse_state_def ok_or_def dest: parse_state_opt_Some split: option.splits)
  moreover have "row_pending_event_json row \<noteq> None \<longleftrightarrow> jr_pending_event r \<noteq> None"
    using assms by (cases "row_pending_event_json row"; cases "jr_pending_event r")
      (auto simp: decode_job_Ok decode_pending_def split: option.splits)
  ultimately show ?thesis using terminal_state_str[of "jr_state r"] by (simp add: needs_recovery_def)
qed

text \<open>
  The recovery listing of the SQLite journal is complete and exact. On a well-formed
  table it succeeds and returns every job that is not finished or whose last event is
  unacknowledged, and no other record.
\<close>

theorem sqlite_list_unfinished_exact:
  assumes "sqlite_wf S t"
  shows "\<exists>rs. sqlite_list_unfinished S t = Ok rs \<and>
    set rs = {r. \<exists>k. sqlite_view S t k = Some r \<and> needs_recovery r}"
proof -
  let ?rows = "sort_key row_updated_at
    (filter (\<lambda>row. row_state row \<notin> {''completed'', ''failed'', ''cancelled''} \<or>
                   row_pending_event_json row \<noteq> None) (hm_values t))"
  have wf: "hm_wf t" using assms by (simp add: sqlite_wf_def)
  have dec: "\<exists>r. decode_job S row = Ok r" if "row \<in> set (hm_values t)" for row
    using that hm_values_mem[OF wf] sqlite_rowE[OF assms] by metis
  then obtain rs where rs: "collect_results (map (decode_job S) ?rows) = Ok rs"
    "map (decode_job S) ?rows = map Inr rs"
    using collect_results_Ok[of "map (decode_job S) ?rows"] by force
  have "r \<in> set rs \<longleftrightarrow> (\<exists>k. sqlite_view S t k = Some r \<and> needs_recovery r)" for r
  proof -
    have "r \<in> set rs \<longleftrightarrow> Inr r \<in> set (map (decode_job S) ?rows)" unfolding rs(2) by auto
    also have "\<dots> \<longleftrightarrow> (\<exists>row\<in>set (hm_values t). decode_job S row = Ok r \<and> needs_recovery r)"
      unfolding set_map set_sort set_filter image_iff mem_Collect_eq Bex_def
      using decode_job_unfinished[of S _ r] by metis
    also have "\<dots> \<longleftrightarrow> (\<exists>k row. hm_get t k = Some row \<and> decode_job S row = Ok r \<and> needs_recovery r)"
      using hm_values_mem[OF wf] by blast
    finally show ?thesis unfolding sqlite_view_Some by blast
  qed
  then show ?thesis using rs(1) by (auto simp: sqlite_list_unfinished_def)
qed

theorem sqlite_list_unfinished_witness:
  "\<exists>rs. sqlite_list_unfinished sample_serde sample_table = Ok rs \<and> received sample_dispatch \<in> set rs"
  using sqlite_list_unfinished_exact[OF sample_table_wf] sample_table_view
  by (auto simp: needs_recovery_def received_def is_terminal_def)

end
