(* ===== verification/Hub_Base.thy ===== *)
theory Hub_Base
  imports Core_Job
begin

text \<open>
  Shared pieces of the Hub: its error type and the pure helpers of
  \<open>apps/nagisalake-hub/src/hub/api_helpers.rs\<close> (bearer tokens, the constant-time
  comparison, identity components, file names, the status of an error response).
\<close>

datatype HubError =
    ConfigIo
  | ConfigParse
  | InvalidConfig string
  | Unauthorized string
  | Forbidden string
  | HubNotFound string
  | InvalidRequest string
  | Conflict string
  | Unavailable string
  | ObjectStore string
  | QuotaExceeded string
  | RateLimited u64
  | Store
  | Transport
  | Io
  | Axum

definition constant_time_eq :: "u8 list \<Rightarrow> u8 list \<Rightarrow> bool" where
  "constant_time_eq left right =
     (if length left \<noteq> length right then False
      else foldl (\<lambda>difference (l, r). or difference (xor l r)) 0 (zip left right) = 0)"

definition component_char :: "char \<Rightarrow> char" where
  "component_char c =
     (if is_ascii_alphanumeric c \<or> c \<in> {CHR ''.'', CHR ''-'', CHR ''_''} then c else CHR ''_'')"

definition safe_component :: "string \<Rightarrow> string" where
  "safe_component v =
     (let result = map_chars component_char v in if result = [] then ''worker'' else result)"

definition worker_id_of :: "Register \<Rightarrow> string" where
  "worker_id_of r = safe_component (reg_namespace r) @ ''/'' @ safe_component (reg_node_name r)"

definition truncate_str :: "string \<Rightarrow> nat \<Rightarrow> string" where
  "truncate_str v max_chars = take_chars max_chars v"

definition is_sha256 :: "string \<Rightarrow> bool" where
  "is_sha256 v \<longleftrightarrow> length v = 64 \<and> list_all is_ascii_hexdigit v"

definition safe_filename :: "string \<Rightarrow> string" where
  "safe_filename v =
     (let candidate = (case path_file_name v of None \<Rightarrow> ''artifact.bin'' | Some n \<Rightarrow> n);
          result = map_chars component_char candidate in
      if result = [] \<or> result = ''.'' \<or> result = ''..'' then ''artifact.bin'' else result)"

definition MAX_NAME_CHARS :: nat where
  "MAX_NAME_CHARS = 255"

definition validate_artifact_metadata ::
  "string \<Rightarrow> string \<Rightarrow> u64 \<Rightarrow> string \<Rightarrow> u64 \<Rightarrow> (HubError, unit) result" where
  "validate_artifact_metadata name content_type size_bytes sha max_bytes =
     (if trim name = [] \<or> chars_count name > MAX_NAME_CHARS
      then Err (InvalidRequest ''artifact name is invalid'')
      else if trim content_type = [] then Err (InvalidRequest ''content_type must not be empty'')
      else if size_bytes = 0 \<or> size_bytes > max_bytes
      then Err (InvalidRequest ''artifact size is outside the configured limit'')
      else if \<not> is_sha256 sha
      then Err (InvalidRequest ''sha256 must be a 64-character hexadecimal digest'')
      else Ok ())"

text \<open>
  The \<open>Authorization\<close> header: \<open>HeaderValue::to_str\<close> succeeds on visible ASCII and tabs.
\<close>

definition header_to_str :: "string \<Rightarrow> string option" where
  "header_to_str v =
     (if list_all (\<lambda>c. (32 \<le> ascii c \<and> ascii c < 127) \<or> ascii c = 9) v then Some v else None)"

definition strip_prefix :: "string \<Rightarrow> string \<Rightarrow> string option" where
  "strip_prefix p v = (if prefix p v then Some (drop (length p) v) else None)"

definition bearer_token :: "string option \<Rightarrow> string option" where
  "bearer_token authorization =
     Option.bind (Option.bind authorization header_to_str) (\<lambda>value.
     Option.bind
       (case strip_prefix ''Bearer '' (trim value) of
          Some rest \<Rightarrow> Some rest
        | None \<Rightarrow> strip_prefix ''bearer '' (trim value)) (\<lambda>rest.
       let token = trim rest in if token = [] then None else Some token))"

definition require_consumer ::
  "string option \<Rightarrow> string option \<Rightarrow> (HubError, unit) result" where
  "require_consumer authorization consumer_token =
     (case bearer_token authorization of
        None \<Rightarrow> Err (Unauthorized ''consumer bearer token is required'')
      | Some token \<Rightarrow>
          (case consumer_token of
             None \<Rightarrow> Err (InvalidConfig ''consumer token is not configured'')
           | Some expected \<Rightarrow>
               if \<not> constant_time_eq (as_bytes token) (as_bytes expected)
               then Err (Unauthorized ''invalid consumer token'') else Ok ()))"

definition api_error_status :: "HubError \<Rightarrow> nat" where
  "api_error_status e =
     (case e of
        Unauthorized _ \<Rightarrow> 401
      | HubNotFound _ \<Rightarrow> 404
      | InvalidRequest _ \<Rightarrow> 400
      | Conflict _ \<Rightarrow> 409
      | Unavailable _ \<Rightarrow> 502
      | ObjectStore _ \<Rightarrow> 502
      | Forbidden _ \<Rightarrow> 403
      | QuotaExceeded _ \<Rightarrow> 429
      | RateLimited _ \<Rightarrow> 429
      | InvalidConfig _ \<Rightarrow> 500
      | ConfigIo \<Rightarrow> 500
      | ConfigParse \<Rightarrow> 500
      | Store \<Rightarrow> 500
      | Io \<Rightarrow> 500
      | Axum \<Rightarrow> 500
      | Transport \<Rightarrow> 502)"

subsection \<open>Comparison and identities\<close>

lemma foldl_or_zero:
  "foldl (\<lambda>d (l, r). or d (xor l r)) a xs = 0 \<longleftrightarrow> a = 0 \<and> (\<forall>(l, r)\<in>set xs. l = r)"
  for a :: "'a::len word"
proof (induction xs arbitrary: a)
  case (Cons x xs)
  have "xor l r = 0 \<longleftrightarrow> l = r" for l r :: "'a word"
    by (simp add: bit_eq_iff bit_xor_iff)
  moreover have "or b c = 0 \<longleftrightarrow> b = 0 \<and> c = 0" for b c :: "'a word"
    by (auto simp: bit_eq_iff bit_or_iff)
  ultimately show ?case by (cases x) (auto simp: Cons)
qed simp

lemma constant_time_eq_iff [simp]: "constant_time_eq l r \<longleftrightarrow> l = r"
proof (cases "length l = length r")
  case True
  then show ?thesis
    unfolding constant_time_eq_def foldl_or_zero
    by (auto simp: list_eq_iff_zip_eq)
qed (auto simp: constant_time_eq_def)

lemma map_chars_identity:
  assumes "\<forall>c\<in>set v. identity_char c"
  shows "map_chars component_char v = v"
proof -
  have "filter (\<lambda>c. \<not> is_continuation c) v = v"
    using assms by (simp add: filter_id_conv identity_char_not_continuation)
  moreover have "map component_char v = v"
    using assms by (intro map_idI) (auto simp: component_char_def identity_char_def)
  ultimately show ?thesis by (simp add: map_chars_def)
qed

lemma safe_component_valid: "valid_identity v \<Longrightarrow> safe_component v = v"
  by (auto simp: valid_identity_def safe_component_def map_chars_identity)

lemma valid_identity_no_slash: "valid_identity v \<Longrightarrow> CHR ''/'' \<notin> set v"
  by (auto simp: valid_identity_def identity_char_def is_ascii_alphanumeric_def is_ascii_digit_def ascii_def)

lemma validate_register_identity:
  "validate_register r = Ok () \<Longrightarrow> valid_identity (reg_namespace r) \<and> valid_identity (reg_node_name r)"
  by (auto simp: validate_register_def checks_Ok_iff)

lemma worker_id_join:
  "validate_register r = Ok () \<Longrightarrow>
     worker_id_of r = join_key (CHR ''/'') (reg_namespace r) (reg_node_name r)"
  using validate_register_identity[of r] by (simp add: worker_id_of_def safe_component_valid join_key_def)

lemma component_char_identity: "identity_char (component_char c)"
  by (auto simp: component_char_def identity_char_def)

lemma map_chars_safe: "c \<in> set (map_chars component_char v) \<Longrightarrow> identity_char c"
  by (auto simp: map_chars_def component_char_identity)

subsection \<open>Properties\<close>

text \<open>
  Distinct workers have distinct ids. For two registrations that pass validation,
  the worker ids the Hub derives are equal exactly when namespace and node name are
  equal, so no two workers share a session slot or a database row.
\<close>

theorem worker_id_injective:
  assumes "validate_register r = Ok ()" and "validate_register q = Ok ()"
  shows "worker_id_of r = worker_id_of q \<longleftrightarrow>
    reg_namespace r = reg_namespace q \<and> reg_node_name r = reg_node_name q"
  using assms validate_register_identity[of r] validate_register_identity[of q]
  by (simp add: worker_id_join join_key_inject valid_identity_no_slash)

definition sample_register :: Register where
  "sample_register =
     \<lparr>reg_protocol_version = 2, reg_namespace = ''lab'', reg_node_name = ''gpu-1'',
      reg_worker_version = ''1'',
      reg_capabilities =
        \<lparr>cap_workflows = [\<lparr>wc_id = ''w'', wc_version = ''1'', wc_output_types = [], wc_manifest = None\<rparr>],
         cap_parallelism = 1, cap_queue_depth = 2, cap_supports_queued_job_cancellation = False,
         cap_labels = []\<rparr>,
      reg_recovery_job_ids = []\<rparr>"

lemma trim_ascii_word: "\<forall>c\<in>set v. is_ascii_alphanumeric c \<Longrightarrow> trim v = v"
  by (rule trim_identity) (simp add: identity_char_def)

lemma sample_register_valid:
  "validate_register sample_register = Ok ()"
  "validate_register (sample_register\<lparr>reg_node_name := ''gpu-2''\<rparr>) = Ok ()"
proof -
  have t: "trim ''1'' = ''1''" "trim ''w'' = ''w''"
    by (rule trim_ascii_word; simp add: is_ascii_alphanumeric_def is_ascii_digit_def ascii_def)+
  show "validate_register sample_register = Ok ()"
    "validate_register (sample_register\<lparr>reg_node_name := ''gpu-2''\<rparr>) = Ok ()"
    by (simp_all add: validate_register_def sample_register_def PROTOCOL_VERSION_def checks_Ok_iff t
        MAX_RECOVERY_JOB_IDS_def validate_capabilities_def validate_workflow_capability_def unique_loop_Ok
        valid_identity_def MAX_IDENTITY_CHARS_def identity_char_def is_ascii_alphanumeric_def
        is_ascii_digit_def ascii_def)
qed

theorem worker_id_injective_witness:
  "worker_id_of sample_register \<noteq> worker_id_of (sample_register\<lparr>reg_node_name := ''gpu-2''\<rparr>)"
  using worker_id_injective[OF sample_register_valid] by (simp add: sample_register_def)

text \<open>
  An object key built from a client-supplied file name cannot escape its prefix:
  the sanitised name is not empty, is neither \<open>.\<close> nor \<open>..\<close>, and holds only ASCII
  letters, digits, dots, dashes and underscores.
\<close>

theorem safe_filename_safe:
  "safe_filename v \<notin> {[], ''.'', ''..''} \<and> list_all identity_char (safe_filename v)"
proof -
  have "list_all identity_char ''artifact.bin''"
    by (simp add: identity_char_def is_ascii_alphanumeric_def is_ascii_digit_def ascii_def)
  then show ?thesis
    by (auto simp: safe_filename_def Let_def list_all_iff dest: map_chars_safe)
qed

text \<open>
  The consumer check accepts a request exactly when a consumer token is configured
  and the request carries that very token as its bearer token; the constant-time
  comparison is equality.
\<close>

theorem require_consumer_iff:
  "require_consumer authorization configured = Ok () \<longleftrightarrow>
     (\<exists>token. bearer_token authorization = Some token \<and> configured = Some token)"
  by (auto simp: require_consumer_def split: option.splits)

end
