(* ===== verification/Hub_Sessions.thy ===== *)
theory Hub_Sessions
  imports Hub_Base
begin

text \<open>
  The session registry of \<open>apps/nagisalake-hub/src/hub/sessions.rs\<close>. A session holds the
  worker's view, its capacity reservations and a handle on the connection objects it
  shares with the connection task: the outbound channel, the command waiters and the
  cancellation token. These live in a store indexed by the handle, so that a session
  that was replaced or revoked is still reachable there. Each method body under one
  write lock is one definition; \<open>send_command\<close>, which waits in between, is three. A
  monotonic instant is a number of nanoseconds and a parameter.
\<close>

subsection \<open>State\<close>

record WorkerView =
  wv_organization_id :: string
  wv_owner_user_id :: "string option"
  wv_worker_id :: string
  wv_session_id :: string
  wv_namespace :: string
  wv_node_name :: string
  wv_capabilities :: WorkerCapabilities
  wv_active_jobs :: u16
  wv_queued_jobs :: u16
  wv_connected_at :: i64

type_synonym handle = nat

record WorkerSession =
  ws_view :: WorkerView
  ws_credential_id :: "string option"
  ws_conn :: handle
  ws_pending_capacity_reservations :: "string hash_set"
  ws_confirmed_capacity_reservations :: "string hash_set"
  ws_last_seen :: nat

text \<open>The channel of capacity \<open>cn_capacity\<close>, the command waiters and the token.\<close>

record Connection =
  cn_outbound :: "HubMessage list"
  cn_capacity :: nat
  cn_closed :: bool
  cn_pending :: "string hash_set"
  cn_cancelled :: bool

record SessionRegistry =
  sr_inner :: "(string, WorkerSession) hash_map"
  sr_revoked_credentials :: "string hash_set"
  sr_conns :: "(handle, Connection) hash_map"

subsection \<open>Connection objects\<close>

definition on_conn :: "handle \<Rightarrow> (Connection \<Rightarrow> Connection) \<Rightarrow> SessionRegistry \<Rightarrow> SessionRegistry" where
  "on_conn h f R =
     (case hm_get (sr_conns R) h of
        None \<Rightarrow> R
      | Some c \<Rightarrow> R\<lparr>sr_conns := hm_insert h (f c) (sr_conns R)\<rparr>)"

definition try_send :: "HubMessage \<Rightarrow> Connection \<Rightarrow> Connection" where
  "try_send m c =
     (if cn_closed c \<or> length (cn_outbound c) \<ge> cn_capacity c then c
      else c\<lparr>cn_outbound := cn_outbound c @ [m]\<rparr>)"

definition cancel_token :: "Connection \<Rightarrow> Connection" where
  "cancel_token c = c\<lparr>cn_cancelled := True\<rparr>"

definition cancel_with_error :: "ProtocolError \<Rightarrow> handle \<Rightarrow> SessionRegistry \<Rightarrow> SessionRegistry" where
  "cancel_with_error e h R = on_conn h (try_send (HError e) \<circ> cancel_token) R"

definition session_replaced :: ProtocolError where
  "session_replaced =
     \<lparr>pe_code = ''session_replaced'', pe_message = ''a newer connection replaced this worker session'',
      pe_retryable = True\<rparr>"

definition credential_revoked :: ProtocolError where
  "credential_revoked =
     \<lparr>pe_code = ''credential_revoked'', pe_message = ''the worker credential has been revoked'',
      pe_retryable = False\<rparr>"

definition organization_deleted :: ProtocolError where
  "organization_deleted =
     \<lparr>pe_code = ''organization_deleted'', pe_message = ''the worker organization has been deleted'',
      pe_retryable = False\<rparr>"

subsection \<open>Capacity\<close>

definition session_key :: "string \<Rightarrow> string \<Rightarrow> string" where
  "session_key organization_id worker_id = join_key (CHR 0x00) organization_id worker_id"

definition pending_upload_key :: "string \<Rightarrow> string \<Rightarrow> string" where
  "pending_upload_key organization_id request_id = join_key (CHR 0x00) organization_id request_id"

definition capacity_reservation_count :: "WorkerSession \<Rightarrow> u32" where
  "capacity_reservation_count s =
     (let n = length (ws_pending_capacity_reservations s) + length (ws_confirmed_capacity_reservations s)
      in if n < 2 ^ 32 then of_nat n else - 1)"

definition worker_capacity_load :: "WorkerSession \<Rightarrow> u32" where
  "worker_capacity_load s =
     saturating_add
       (saturating_add (ucast (wv_active_jobs (ws_view s))) (ucast (wv_queued_jobs (ws_view s))))
       (capacity_reservation_count s)"

definition u32_to_u16_or_max :: "u32 \<Rightarrow> u16" where
  "u32_to_u16_or_max n = (if unat n < 2 ^ 16 then ucast n else - 1)"

definition worker_view_with_reservations :: "WorkerSession \<Rightarrow> WorkerView" where
  "worker_view_with_reservations s =
     (ws_view s)\<lparr>wv_queued_jobs :=
        u32_to_u16_or_max
          (saturating_add (ucast (wv_queued_jobs (ws_view s))) (capacity_reservation_count s))\<rparr>"

definition worker_view_with_reservations_and_workflows ::
  "WorkerSession \<Rightarrow> WorkflowCapability list \<Rightarrow> WorkerView" where
  "worker_view_with_reservations_and_workflows s workflows =
     (let v = ws_view s in
      \<lparr>wv_organization_id = wv_organization_id v, wv_owner_user_id = wv_owner_user_id v,
       wv_worker_id = wv_worker_id v, wv_session_id = wv_session_id v, wv_namespace = wv_namespace v,
       wv_node_name = wv_node_name v,
       wv_capabilities =
         \<lparr>cap_workflows = workflows, cap_parallelism = cap_parallelism (wv_capabilities v),
          cap_queue_depth = cap_queue_depth (wv_capabilities v),
          cap_supports_queued_job_cancellation =
            cap_supports_queued_job_cancellation (wv_capabilities v),
          cap_labels = cap_labels (wv_capabilities v)\<rparr>,
       wv_active_jobs = wv_active_jobs v,
       wv_queued_jobs =
         u32_to_u16_or_max (saturating_add (ucast (wv_queued_jobs v)) (capacity_reservation_count s)),
       wv_connected_at = wv_connected_at v\<rparr>)"

definition has_free_slot :: "WorkerSession \<Rightarrow> bool" where
  "has_free_slot s \<longleftrightarrow> worker_capacity_load s < total_capacity (wv_capabilities (ws_view s))"

subsection \<open>Registry operations\<close>

definition sr_get :: "SessionRegistry \<Rightarrow> string \<Rightarrow> string \<Rightarrow> WorkerSession option" where
  "sr_get R org wid = hm_get (sr_inner R) (session_key org wid)"

text \<open>\<open>get_mut(key).filter(|session| session.view.session_id == session_id)\<close>\<close>

definition sr_current :: "SessionRegistry \<Rightarrow> string \<Rightarrow> string \<Rightarrow> string \<Rightarrow> WorkerSession option" where
  "sr_current R org wid sid =
     (case sr_get R org wid of
        None \<Rightarrow> None
      | Some s \<Rightarrow> if wv_session_id (ws_view s) = sid then Some s else None)"

definition sr_put :: "string \<Rightarrow> string \<Rightarrow> WorkerSession \<Rightarrow> SessionRegistry \<Rightarrow> SessionRegistry" where
  "sr_put org wid s R = R\<lparr>sr_inner := hm_insert (session_key org wid) s (sr_inner R)\<rparr>"

definition sr_insert :: "WorkerSession \<Rightarrow> SessionRegistry \<Rightarrow> SessionRegistry \<times> bool" where
  "sr_insert s R =
     (if (case ws_credential_id s of None \<Rightarrow> False | Some c \<Rightarrow> c \<in> set (sr_revoked_credentials R))
      then (R, False)
      else
        let key = session_key (wv_organization_id (ws_view s)) (wv_worker_id (ws_view s));
            previous = hm_get (sr_inner R) key;
            R' = R\<lparr>sr_inner := hm_insert key s (sr_inner R)\<rparr>
        in (case previous of
              None \<Rightarrow> (R', True)
            | Some p \<Rightarrow> (cancel_with_error session_replaced (ws_conn p) R', True)))"

text \<open>\<open>retain\<close> with the removed sessions collected, then one cancellation each.\<close>

definition disconnect_where ::
  "(WorkerSession \<Rightarrow> bool) \<Rightarrow> ProtocolError \<Rightarrow> SessionRegistry \<Rightarrow> SessionRegistry" where
  "disconnect_where p e R =
     (let removed = filter p (hm_values (sr_inner R))
      in foldl (\<lambda>R s. cancel_with_error e (ws_conn s) R)
           (R\<lparr>sr_inner := hm_retain (\<lambda>k s. \<not> p s) (sr_inner R)\<rparr>) removed)"

definition disconnect_credential :: "string \<Rightarrow> SessionRegistry \<Rightarrow> SessionRegistry" where
  "disconnect_credential credential_id R =
     disconnect_where (\<lambda>s. ws_credential_id s = Some credential_id) credential_revoked
       (R\<lparr>sr_revoked_credentials := hs_insert credential_id (sr_revoked_credentials R)\<rparr>)"

definition disconnect_organization :: "string \<Rightarrow> SessionRegistry \<Rightarrow> SessionRegistry" where
  "disconnect_organization organization_id R =
     disconnect_where (\<lambda>s. wv_organization_id (ws_view s) = organization_id) organization_deleted R"

definition reap_revoked_credentials :: "SessionRegistry \<Rightarrow> SessionRegistry \<times> nat" where
  "reap_revoked_credentials R =
     (let revoked = sr_revoked_credentials R in
      if revoked = [] then (R, 0)
      else
        let live = List.map_filter ws_credential_id (hm_values (sr_inner R));
            kept = filter (\<lambda>c. c \<in> set live) revoked
        in (R\<lparr>sr_revoked_credentials := kept\<rparr>, length revoked - length kept))"

definition remove_if_current ::
  "string \<Rightarrow> string \<Rightarrow> string \<Rightarrow> SessionRegistry \<Rightarrow> SessionRegistry" where
  "remove_if_current org wid sid R =
     (case sr_current R org wid sid of
        None \<Rightarrow> R
      | Some _ \<Rightarrow> R\<lparr>sr_inner := hm_remove (session_key org wid) (sr_inner R)\<rparr>)"

definition current_session_id :: "SessionRegistry \<Rightarrow> string \<Rightarrow> string \<Rightarrow> string option" where
  "current_session_id R org wid =
     map_option (\<lambda>s. wv_session_id (ws_view s)) (sr_get R org wid)"

definition guard_current_session :: "SessionRegistry \<Rightarrow> string \<Rightarrow> string \<Rightarrow> string \<Rightarrow> bool" where
  "guard_current_session R org wid sid \<longleftrightarrow> sr_current R org wid sid \<noteq> None"

definition update_heartbeat ::
  "nat \<Rightarrow> string \<Rightarrow> string \<Rightarrow> string \<Rightarrow> u16 \<Rightarrow> u16 \<Rightarrow> SessionRegistry
   \<Rightarrow> SessionRegistry \<times> (HubError, unit) result" where
  "update_heartbeat now org wid sid active queued R =
     (case sr_current R org wid sid of
        None \<Rightarrow> (R, Err (Conflict ''worker session is stale''))
      | Some s \<Rightarrow>
          (sr_put org wid
             (s\<lparr>ws_view := (ws_view s)\<lparr>wv_active_jobs := active, wv_queued_jobs := queued\<rparr>,
                ws_confirmed_capacity_reservations := [], ws_last_seen := now\<rparr>) R, Ok ()))"

text \<open>\<open>min_by_key\<close>: the first of the least elements.\<close>

fun min_by_key :: "('a \<Rightarrow> 'k::linorder) \<Rightarrow> 'a list \<Rightarrow> 'a option" where
  "min_by_key f [] = None"
| "min_by_key f (x # xs) =
     (case min_by_key f xs of
        None \<Rightarrow> Some x
      | Some y \<Rightarrow> if f x \<le> f y then Some x else Some y)"

definition reserve_on :: "string \<Rightarrow> WorkerSession \<Rightarrow> WorkerSession" where
  "reserve_on command_id s =
     s\<lparr>ws_pending_capacity_reservations := hs_insert command_id (ws_pending_capacity_reservations s)\<rparr>"

definition reserve_capacity ::
  "string \<Rightarrow> (WorkerView \<Rightarrow> bool) \<Rightarrow> SessionRegistry \<Rightarrow> SessionRegistry \<times> WorkerView option" where
  "reserve_capacity command_id predicate R =
     (let candidates = filter (\<lambda>(k, s). has_free_slot s)
            (filter (\<lambda>(k, s). predicate (ws_view s)) (sr_inner R))
      in (case min_by_key (\<lambda>(k, s). worker_capacity_load s) candidates of
            None \<Rightarrow> (R, None)
          | Some (key, s) \<Rightarrow>
              if command_id \<in> set (ws_pending_capacity_reservations s) then (R, None)
              else
                let s' = reserve_on command_id s
                in (R\<lparr>sr_inner := hm_insert key s' (sr_inner R)\<rparr>,
                    Some (worker_view_with_reservations s'))))"

definition reserve_capacity_on ::
  "string \<Rightarrow> string \<Rightarrow> string \<Rightarrow> (WorkerView \<Rightarrow> bool) \<Rightarrow> SessionRegistry
   \<Rightarrow> SessionRegistry \<times> WorkerView option" where
  "reserve_capacity_on org wid command_id predicate R =
     (case sr_get R org wid of
        None \<Rightarrow> (R, None)
      | Some s \<Rightarrow>
          if \<not> predicate (ws_view s) \<or> \<not> has_free_slot s \<or>
             command_id \<in> set (ws_pending_capacity_reservations s)
          then (R, None)
          else
            let s' = reserve_on command_id s
            in (sr_put org wid s' R, Some (worker_view_with_reservations s')))"

definition ensure_capacity_reservation ::
  "string \<Rightarrow> string \<Rightarrow> string \<Rightarrow> string \<Rightarrow> SessionRegistry \<Rightarrow> SessionRegistry \<times> bool" where
  "ensure_capacity_reservation org wid sid command_id R =
     (case sr_current R org wid sid of
        None \<Rightarrow> (R, False)
      | Some s \<Rightarrow>
          if command_id \<in> set (ws_pending_capacity_reservations s) \<or>
             command_id \<in> set (ws_confirmed_capacity_reservations s)
          then (R, True)
          else if \<not> has_free_slot s then (R, False)
          else (sr_put org wid (reserve_on command_id s) R, True))"

definition release_capacity_reservation ::
  "string \<Rightarrow> string \<Rightarrow> string \<Rightarrow> string \<Rightarrow> SessionRegistry \<Rightarrow> SessionRegistry" where
  "release_capacity_reservation org wid sid command_id R =
     (case sr_current R org wid sid of
        None \<Rightarrow> R
      | Some s \<Rightarrow>
          sr_put org wid
            (s\<lparr>ws_pending_capacity_reservations := hs_remove command_id (ws_pending_capacity_reservations s),
               ws_confirmed_capacity_reservations :=
                 hs_remove command_id (ws_confirmed_capacity_reservations s)\<rparr>) R)"

definition confirm_on :: "string \<Rightarrow> WorkerSession \<Rightarrow> WorkerSession" where
  "confirm_on command_id s =
     s\<lparr>ws_pending_capacity_reservations := hs_remove command_id (ws_pending_capacity_reservations s),
       ws_confirmed_capacity_reservations := hs_insert command_id (ws_confirmed_capacity_reservations s)\<rparr>"

definition mark_capacity_reservation_uncertain ::
  "string \<Rightarrow> string \<Rightarrow> string \<Rightarrow> string \<Rightarrow> SessionRegistry \<Rightarrow> SessionRegistry" where
  "mark_capacity_reservation_uncertain org wid sid command_id R =
     (case sr_current R org wid sid of
        None \<Rightarrow> R
      | Some s \<Rightarrow>
          if command_id \<in> set (ws_pending_capacity_reservations s)
          then sr_put org wid (confirm_on command_id s) R
          else R)"

text \<open>The removal from the pending set happens whatever the branch taken afterwards.\<close>

definition settle_capacity_reservation ::
  "string \<Rightarrow> string \<Rightarrow> string \<Rightarrow> string \<Rightarrow> bool \<Rightarrow> SessionRegistry \<Rightarrow> SessionRegistry" where
  "settle_capacity_reservation org wid sid command_id accepted R =
     (case sr_current R org wid sid of
        None \<Rightarrow> R
      | Some s \<Rightarrow>
          let removed = command_id \<in> set (ws_pending_capacity_reservations s);
              s1 = s\<lparr>ws_pending_capacity_reservations :=
                       hs_remove command_id (ws_pending_capacity_reservations s)\<rparr>;
              s2 = (if removed \<and> accepted
                    then s1\<lparr>ws_confirmed_capacity_reservations :=
                              hs_insert command_id (ws_confirmed_capacity_reservations s1)\<rparr>
                    else if \<not> accepted
                    then s1\<lparr>ws_confirmed_capacity_reservations :=
                              hs_remove command_id (ws_confirmed_capacity_reservations s1)\<rparr>
                    else s1)
          in sr_put org wid s2 R)"

definition list_matching :: "(WorkerView \<Rightarrow> bool) \<Rightarrow> SessionRegistry \<Rightarrow> WorkerView list" where
  "list_matching predicate R =
     map worker_view_with_reservations
       (filter (\<lambda>s. predicate (ws_view s)) (hm_values (sr_inner R)))"

definition list_matching_workflows ::
  "(WorkerView \<Rightarrow> bool) \<Rightarrow> (WorkerView \<Rightarrow> WorkflowCapability \<Rightarrow> bool) \<Rightarrow> SessionRegistry
   \<Rightarrow> WorkerView list" where
  "list_matching_workflows predicate workflow_filter R =
     List.map_filter
       (\<lambda>s. let workflows = filter (workflow_filter (ws_view s)) (cap_workflows (wv_capabilities (ws_view s)))
             in if workflows = [] then None
                else Some (worker_view_with_reservations_and_workflows s workflows))
       (filter (\<lambda>s. predicate (ws_view s)) (hm_values (sr_inner R)))"

definition list_for_org :: "string \<Rightarrow> SessionRegistry \<Rightarrow> WorkerView list" where
  "list_for_org organization_id R =
     list_matching (\<lambda>v. wv_organization_id v = organization_id) R"

definition connected_identities :: "SessionRegistry \<Rightarrow> (string, string hash_set) hash_map" where
  "connected_identities R =
     foldl (\<lambda>m s.
        let org = wv_organization_id (ws_view s);
            ids = (case hm_get m org of None \<Rightarrow> [] | Some ids \<Rightarrow> ids)
        in hm_insert org (hs_insert (wv_worker_id (ws_view s)) ids) m)
       [] (hm_values (sr_inner R))"

definition is_stale :: "nat \<Rightarrow> nat \<Rightarrow> WorkerSession \<Rightarrow> bool" where
  "is_stale now max_silence s \<longleftrightarrow> now - ws_last_seen s > max_silence"

definition reap_stale :: "nat \<Rightarrow> nat \<Rightarrow> SessionRegistry \<Rightarrow> SessionRegistry \<times> string list" where
  "reap_stale now max_silence R =
     (let stale = map (\<lambda>(k, s). (k, wv_worker_id (ws_view s)))
            (filter (\<lambda>(k, s). is_stale now max_silence s) (sr_inner R))
      in foldl (\<lambda>(R, reaped) (key, worker_id).
           case hm_get (sr_inner R) key of
             None \<Rightarrow> (R, reaped)
           | Some s \<Rightarrow>
               (on_conn (ws_conn s) cancel_token (R\<lparr>sr_inner := hm_remove key (sr_inner R)\<rparr>),
                reaped @ [worker_id]))
         (R, []) stale)"

definition count_sessions :: "SessionRegistry \<Rightarrow> nat" where
  "count_sessions R = length (sr_inner R)"

subsection \<open>Commands\<close>

definition add_waiter :: "string \<Rightarrow> Connection \<Rightarrow> Connection" where
  "add_waiter command_id c = c\<lparr>cn_pending := hs_insert command_id (cn_pending c)\<rparr>"

definition drop_waiter :: "string \<Rightarrow> Connection \<Rightarrow> Connection" where
  "drop_waiter command_id c = c\<lparr>cn_pending := hs_remove command_id (cn_pending c)\<rparr>"

text \<open>The first part of \<open>send_command\<close>: find the channels and register the waiter.\<close>

definition send_command_start ::
  "string \<Rightarrow> string \<Rightarrow> string \<Rightarrow> string \<Rightarrow> SessionRegistry
   \<Rightarrow> SessionRegistry \<times> (HubError, handle) result" where
  "send_command_start org wid sid command_id R =
     (case sr_current R org wid sid of
        None \<Rightarrow> (R, Err (Conflict ''worker session is not connected''))
      | Some s \<Rightarrow> (on_conn (ws_conn s) (add_waiter command_id) R, Ok (ws_conn s)))"

text \<open>
  The timed send: \<open>sent\<close> says whether the channel took the message before the deadline,
  which it can do only when it is open and has room.
\<close>

definition send_command_send ::
  "string \<Rightarrow> string \<Rightarrow> string \<Rightarrow> string \<Rightarrow> handle \<Rightarrow> HubMessage \<Rightarrow> bool \<Rightarrow> SessionRegistry
   \<Rightarrow> SessionRegistry \<times> (HubError, unit) result" where
  "send_command_send org wid sid command_id h message sent R =
     (if sent \<and> (case hm_get (sr_conns R) h of
                     None \<Rightarrow> False
                   | Some c \<Rightarrow> \<not> cn_closed c \<and> length (cn_outbound c) < cn_capacity c)
      then (on_conn h (try_send message) R, Ok ())
      else
        (release_capacity_reservation org wid sid command_id (on_conn h (drop_waiter command_id) R),
         Err (Unavailable ''worker socket is closed or congested'')))"

datatype AckOutcome = AckReceived CommandAck | AckSenderDropped | AckTimedOut

definition send_command_finish ::
  "string \<Rightarrow> string \<Rightarrow> string \<Rightarrow> string \<Rightarrow> handle \<Rightarrow> AckOutcome \<Rightarrow> SessionRegistry
   \<Rightarrow> SessionRegistry \<times> (HubError, CommandAck) result" where
  "send_command_finish org wid sid command_id h outcome R =
     (case outcome of
        AckReceived ack \<Rightarrow> (R, Ok ack)
      | AckSenderDropped \<Rightarrow>
          (mark_capacity_reservation_uncertain org wid sid command_id R,
           Err (Unavailable ''worker closed before command ACK''))
      | AckTimedOut \<Rightarrow>
          (mark_capacity_reservation_uncertain org wid sid command_id
             (on_conn h (drop_waiter command_id) R),
           Err (Unavailable ''worker command ACK timed out'')))"

end
