(* ===== verification/Recency.thy ===== *)
theory Recency
  imports Rust_Collections
begin

text \<open>
  The recency queue: a bounded table whose entries carry the slot of their last
  insertion, and a queue of slots in insertion order in which superseded slots linger
  until they surface. The interface asks of the provider only that eviction consumes
  the queue up to the first live slot and drops that entry; that eviction makes room,
  keeps every entry reachable from the queue and picks the oldest one follows for every
  provider.
\<close>

locale recency_store =
  fixes slots :: "'s \<Rightarrow> 'slot list"
    and live :: "'s \<Rightarrow> 'slot list"
    and evict :: "'s \<Rightarrow> 's"
    and wf :: "'s \<Rightarrow> bool"
  assumes evict_spec: "wf s \<Longrightarrow> set (live s) \<subseteq> set (slots s) \<Longrightarrow> live s \<noteq> [] \<Longrightarrow>
      \<exists>pre x post. slots s = pre @ x # post \<and> set pre \<inter> set (live s) = {} \<and> x \<in> set (live s) \<and>
        slots (evict s) = post \<and> live (evict s) = remove1 x (live s)"
    and distinct_live: "wf s \<Longrightarrow> distinct (live s)"
begin

definition covered :: "'s \<Rightarrow> bool" where
  "covered s \<longleftrightarrow> distinct (slots s) \<and> set (live s) \<subseteq> set (slots s)"

lemma evict_oldest_first:
  assumes "wf s" "covered s" "live s \<noteq> []"
  obtains x where "x \<in> set (live s)" "set (live (evict s)) = set (live s) - {x}"
    "\<And>y. y \<in> set (live s) \<Longrightarrow> y \<noteq> x \<Longrightarrow> (\<exists>a b c. slots s = a @ x # b @ y # c)"
    "Suc (length (live (evict s))) = length (live s)" "covered (evict s)" "suffix (slots (evict s)) (slots s)"
proof -
  from assms evict_spec[of s] obtain pre x post where e:
    "slots s = pre @ x # post" "set pre \<inter> set (live s) = {}" "x \<in> set (live s)"
    "slots (evict s) = post" "live (evict s) = remove1 x (live s)"
    by (auto simp: covered_def)
  note d = distinct_live[OF assms(1)]
  have s: "set (live (evict s)) = set (live s) - {x}"
    using d by (simp add: e(5) set_remove1_eq)
  have later: "y \<in> set post" if "y \<in> set (live s)" "y \<noteq> x" for y
    using that e(1,2) assms(2) by (auto simp: covered_def)
  have "\<exists>a b c. slots s = a @ x # b @ y # c" if "y \<in> set (live s)" "y \<noteq> x" for y
    using split_list[OF later[OF that]] e(1) by metis
  moreover have "Suc (length (live (evict s))) = length (live s)"
    using e(3) by (simp add: e(5) length_remove1) (metis Suc_pred length_pos_if_in_set)
  moreover have "covered (evict s)"
    using assms(2) later s e(1,4) by (auto simp: covered_def)
  moreover have "suffix (slots (evict s)) (slots s)"
    using e(1,4) by (auto simp: suffix_def)
  ultimately show ?thesis using that e(3) s by blast
qed

lemma evict_makes_room:
  assumes "wf s" "covered s" "length (live s) \<le> n" "0 < n"
  shows "length (live (if n \<le> length (live s) then evict s else s)) < n"
proof (cases "n \<le> length (live s)")
  case True
  with assms have "live s \<noteq> []" by auto
  obtain x where "Suc (length (live (evict s))) = length (live s)"
    by (rule evict_oldest_first[OF assms(1,2) \<open>live s \<noteq> []\<close>])
  with True assms(3) show ?thesis by simp
qed (use assms in auto)

lemma evict_covered: "wf s \<Longrightarrow> covered s \<Longrightarrow> live s \<noteq> [] \<Longrightarrow> covered (evict s)"
  by (rule evict_oldest_first) assumption+

end

end
