(* ===== verification/Hub_Cache.thy ===== *)
theory Hub_Cache
  imports Hub_Base Recency
begin

text \<open>
  The bounded time-to-live cache of \<open>apps/nagisalake-hub/src/hub/state.rs\<close>. An instant is
  a number of nanoseconds on the monotonic clock and a parameter of the operation that
  reads it.
\<close>

subsection \<open>State and operations\<close>

record 'a ReadCacheEntry =
  ce_value :: 'a
  ce_expires_at :: nat
  ce_seq :: u64

record 'a TtlCache =
  tc_entries :: "(string, 'a ReadCacheEntry) hash_map"
  tc_order :: "(u64 \<times> string) list"
  tc_next_seq :: u64
  tc_ttl :: nat
  tc_capacity :: nat

definition usize_max :: nat where
  "usize_max = 2 ^ 64 - 1"

definition cache_new :: "nat \<Rightarrow> nat \<Rightarrow> 'a TtlCache" where
  "cache_new ttl capacity =
     \<lparr>tc_entries = [], tc_order = [], tc_next_seq = 0, tc_ttl = ttl, tc_capacity = max capacity 1\<rparr>"

definition cache_get :: "nat \<Rightarrow> string \<Rightarrow> 'a TtlCache \<Rightarrow> 'a TtlCache \<times> 'a option" where
  "cache_get now key c =
     (case hm_get (tc_entries c) key of
        None \<Rightarrow> (c, None)
      | Some entry \<Rightarrow>
          if ce_expires_at entry \<le> now
          then (c\<lparr>tc_entries := hm_remove key (tc_entries c)\<rparr>, None)
          else (c, Some (ce_value entry)))"

definition slot_live :: "(string, 'a ReadCacheEntry) hash_map \<Rightarrow> u64 \<times> string \<Rightarrow> bool" where
  "slot_live es slot =
     (case hm_get es (snd slot) of None \<Rightarrow> False | Some entry \<Rightarrow> ce_seq entry = fst slot)"

fun drop_expired_loop ::
  "nat \<Rightarrow> (u64 \<times> string) list \<Rightarrow> (string, 'a ReadCacheEntry) hash_map
   \<Rightarrow> (u64 \<times> string) list \<times> (string, 'a ReadCacheEntry) hash_map" where
  "drop_expired_loop now [] es = ([], es)"
| "drop_expired_loop now ((seq, key) # order) es =
     (case hm_get es key of
        Some entry \<Rightarrow>
          if ce_seq entry = seq
          then if ce_expires_at entry > now then ((seq, key) # order, es)
               else drop_expired_loop now order (hm_remove key es)
          else drop_expired_loop now order es
      | None \<Rightarrow> drop_expired_loop now order es)"

definition cache_drop_expired :: "nat \<Rightarrow> 'a TtlCache \<Rightarrow> 'a TtlCache" where
  "cache_drop_expired now c =
     (let (order, es) = drop_expired_loop now (tc_order c) (tc_entries c)
      in c\<lparr>tc_order := order, tc_entries := es\<rparr>)"

fun evict_oldest_loop ::
  "(u64 \<times> string) list \<Rightarrow> (string, 'a ReadCacheEntry) hash_map
   \<Rightarrow> (u64 \<times> string) list \<times> (string, 'a ReadCacheEntry) hash_map" where
  "evict_oldest_loop [] es = ([], es)"
| "evict_oldest_loop ((seq, key) # order) es =
     (if slot_live es (seq, key) then (order, hm_remove key es) else evict_oldest_loop order es)"

definition cache_evict_oldest :: "'a TtlCache \<Rightarrow> 'a TtlCache" where
  "cache_evict_oldest c =
     (let (order, es) = evict_oldest_loop (tc_order c) (tc_entries c)
      in c\<lparr>tc_order := order, tc_entries := es\<rparr>)"

definition cache_compact :: "'a TtlCache \<Rightarrow> 'a TtlCache" where
  "cache_compact c =
     (if length (tc_order c) > min (tc_capacity c * 2) usize_max
      then c\<lparr>tc_order := filter (slot_live (tc_entries c)) (tc_order c)\<rparr> else c)"

definition cache_insert :: "nat \<Rightarrow> string \<Rightarrow> 'a \<Rightarrow> 'a TtlCache \<Rightarrow> 'a TtlCache" where
  "cache_insert now key value c =
     (let c1 = cache_drop_expired now c;
          c2 = (if length (tc_entries c1) \<ge> tc_capacity c1 \<and> \<not> hm_contains (tc_entries c1) key
                then cache_evict_oldest c1 else c1);
          seq = tc_next_seq c2;
          c3 = c2\<lparr>tc_next_seq := seq + 1, tc_order := tc_order c2 @ [(seq, key)],
                  tc_entries := hm_insert key
                    \<lparr>ce_value = value, ce_expires_at = now + tc_ttl c2, ce_seq = seq\<rparr> (tc_entries c2)\<rparr>
      in cache_compact c3)"

definition cache_remove :: "string \<Rightarrow> 'a TtlCache \<Rightarrow> 'a TtlCache" where
  "cache_remove key c = c\<lparr>tc_entries := hm_remove key (tc_entries c)\<rparr>"

definition cache_retain :: "(string \<Rightarrow> bool) \<Rightarrow> 'a TtlCache \<Rightarrow> 'a TtlCache" where
  "cache_retain keep c = c\<lparr>tc_entries := hm_retain (\<lambda>k v. keep k) (tc_entries c)\<rparr>"

subsection \<open>Slots\<close>

definition live_slots :: "(string, 'a ReadCacheEntry) hash_map \<Rightarrow> (u64 \<times> string) list" where
  "live_slots es = map (\<lambda>(k, e). (ce_seq e, k)) es"

lemma slot_live_iff: "slot_live es (seq, k) \<longleftrightarrow> (\<exists>e. hm_get es k = Some e \<and> ce_seq e = seq)"
  by (auto simp: slot_live_def split: option.splits)

lemma live_slots_mem:
  assumes "hm_wf es"
  shows "slot \<in> set (live_slots es) \<longleftrightarrow> slot_live es slot"
proof (cases slot)
  case (Pair seq k)
  have "slot \<in> set (live_slots es) \<longleftrightarrow> (\<exists>e. (k, e) \<in> set es \<and> ce_seq e = seq)"
    unfolding Pair live_slots_def by force
  then show ?thesis by (simp add: Pair slot_live_iff hm.in_entries[OF assms])
qed

lemma distinct_live_slots: "hm_wf es \<Longrightarrow> distinct (live_slots es)"
proof -
  assume "hm_wf es"
  then have "distinct (map snd (live_slots es))" by (simp add: live_slots_def hm_wf_def comp_def case_prod_beta)
  then show ?thesis by (simp add: distinct_map)
qed

lemma length_live_slots [simp]: "length (live_slots es) = length es"
  by (simp add: live_slots_def)

lemma live_slots_remove:
  assumes "hm_wf es" "slot_live es (seq, k)"
  shows "live_slots (hm_remove k es) = remove1 (seq, k) (live_slots es)"
proof -
  from assms(2) obtain e where "hm_get es k = Some e" "ce_seq e = seq" by (auto simp: slot_live_iff)
  with assms(1) show ?thesis
  proof (induction es)
    case (Cons x es)
    obtain k' e' where x: "x = (k', e')" by (cases x)
    show ?case
    proof (cases "k' = k")
      case True
      with Cons.prems x have "k \<notin> fst ` set es" "e' = e" by (auto simp: hm_wf_def hm_get_def)
      then have "hm_remove k es = es"
        by (simp add: hm_remove_def delete_id image_iff)
      with True x Cons.prems \<open>e' = e\<close> show ?thesis by (simp add: hm_remove_def live_slots_def)
    next
      case False
      with Cons.prems x Cons.IH show ?thesis by (auto simp: hm_remove_def live_slots_def hm_wf_def hm_get_def)
    qed
  qed simp
qed

lemma evict_oldest_loop_spec:
  assumes "hm_wf es" "\<exists>slot\<in>set order. slot_live es slot"
  shows "\<exists>pre seq k post. order = pre @ (seq, k) # post \<and> (\<forall>slot\<in>set pre. \<not> slot_live es slot) \<and>
    slot_live es (seq, k) \<and> evict_oldest_loop order es = (post, hm_remove k es)"
  using assms
proof (induction order es rule: evict_oldest_loop.induct)
  case (2 seq key order es)
  show ?case
  proof (cases "slot_live es (seq, key)")
    case True
    then show ?thesis by (intro exI[of _ "[]"]) auto
  next
    case False
    with 2 obtain pre s k post where "order = pre @ (s, k) # post" "\<forall>slot\<in>set pre. \<not> slot_live es slot"
      "slot_live es (s, k)" "evict_oldest_loop order es = (post, hm_remove k es)"
      by auto
    with False show ?thesis by (intro exI[of _ "(seq, key) # pre"]) auto
  qed
qed simp

interpretation ttl: recency_store tc_order "\<lambda>c. live_slots (tc_entries c)" cache_evict_oldest
  "\<lambda>c. hm_wf (tc_entries c)"
proof
  fix c :: "'a TtlCache"
  assume wf: "hm_wf (tc_entries c)" and sub: "set (live_slots (tc_entries c)) \<subseteq> set (tc_order c)"
    and ne: "live_slots (tc_entries c) \<noteq> []"
  from ne have "hd (live_slots (tc_entries c)) \<in> set (live_slots (tc_entries c))" by simp
  with sub live_slots_mem[OF wf] have "\<exists>slot\<in>set (tc_order c). slot_live (tc_entries c) slot" by blast
  from evict_oldest_loop_spec[OF wf this] obtain pre seq k post where e:
    "tc_order c = pre @ (seq, k) # post" "\<forall>slot\<in>set pre. \<not> slot_live (tc_entries c) slot"
    "slot_live (tc_entries c) (seq, k)" "evict_oldest_loop (tc_order c) (tc_entries c) = (post, hm_remove k (tc_entries c))"
    by blast
  have "set pre \<inter> set (live_slots (tc_entries c)) = {}" using e(2) live_slots_mem[OF wf] by blast
  moreover have "(seq, k) \<in> set (live_slots (tc_entries c))" using e(3) live_slots_mem[OF wf] by blast
  ultimately show "\<exists>pre x post. tc_order c = pre @ x # post \<and> set pre \<inter> set (live_slots (tc_entries c)) = {} \<and>
      x \<in> set (live_slots (tc_entries c)) \<and> tc_order (cache_evict_oldest c) = post \<and>
      live_slots (tc_entries (cache_evict_oldest c)) = remove1 x (live_slots (tc_entries c))"
    using e(1,4) live_slots_remove[OF wf e(3)]
    by (intro exI[of _ pre] exI[of _ "(seq, k)"] exI[of _ post]) (simp add: cache_evict_oldest_def)
next
  fix c :: "'a TtlCache"
  assume "hm_wf (tc_entries c)"
  then show "distinct (live_slots (tc_entries c))" by (rule distinct_live_slots)
qed

subsection \<open>The invariant\<close>

definition order_ok :: "(u64 \<times> string) list \<Rightarrow> (string, 'a ReadCacheEntry) hash_map \<Rightarrow> bool" where
  "order_ok order es \<longleftrightarrow>
     hm_wf es \<and> sorted_wrt (<) (map fst order) \<and>
     (\<forall>k e. hm_get es k = Some e \<longrightarrow> (ce_seq e, k) \<in> set order) \<and>
     (\<forall>k e k' e'. hm_get es k = Some e \<and> hm_get es k' = Some e' \<and> ce_seq e < ce_seq e' \<longrightarrow>
        ce_expires_at e \<le> ce_expires_at e')"

definition cache_inv :: "nat \<Rightarrow> 'a TtlCache \<Rightarrow> bool" where
  "cache_inv clock c \<longleftrightarrow>
     order_ok (tc_order c) (tc_entries c) \<and>
     (\<forall>slot\<in>set (tc_order c). fst slot < tc_next_seq c) \<and>
     (\<forall>k e. hm_get (tc_entries c) k = Some e \<longrightarrow> ce_expires_at e \<le> clock + tc_ttl c) \<and>
     0 < tc_capacity c \<and> tc_capacity c \<le> usize_max \<and>
     length (tc_entries c) \<le> tc_capacity c \<and> length (tc_order c) \<le> min (tc_capacity c * 2) usize_max"

lemma order_okD:
  assumes "order_ok order es"
  shows "hm_wf es" "sorted_wrt (<) (map fst order)"
    "hm_get es k = Some e \<Longrightarrow> (ce_seq e, k) \<in> set order"
    "hm_get es k = Some e \<Longrightarrow> hm_get es k' = Some e' \<Longrightarrow> ce_seq e < ce_seq e' \<Longrightarrow>
       ce_expires_at e \<le> ce_expires_at e'"
  using assms unfolding order_ok_def by blast+

lemma order_ok_covered: "order_ok (tc_order c) (tc_entries c) \<Longrightarrow> ttl.covered c"
proof -
  assume ok: "order_ok (tc_order c) (tc_entries c)"
  then have "distinct (tc_order c)"
    by (metis order_ok_def distinct_map strict_sorted_iff)
  moreover have "set (live_slots (tc_entries c)) \<subseteq> set (tc_order c)"
    using ok by (auto simp: live_slots_mem slot_live_iff order_ok_def)
  ultimately show ?thesis by (simp add: ttl.covered_def)
qed

text \<open>Fewer entries over a shorter queue.\<close>

lemma order_ok_sub:
  assumes "order_ok order es" "hm_wf es'" "sorted_wrt (<) (map fst order')"
    "\<And>k e. hm_get es' k = Some e \<Longrightarrow> hm_get es k = Some e \<and> (ce_seq e, k) \<in> set order'"
  shows "order_ok order' es'"
  unfolding order_ok_def
  using assms(2,3) assms(4) order_okD(4)[OF assms(1)] by blast

lemma order_ok_tail:
  assumes "order_ok ((seq, k) # order) es" "hm_wf es'"
    "\<And>k e. hm_get es' k = Some e \<Longrightarrow> hm_get es k = Some e" "\<not> slot_live es' (seq, k)"
  shows "order_ok order es'"
proof (rule order_ok_sub[OF assms(1,2)])
  show "sorted_wrt (<) (map fst order)" using order_okD(2)[OF assms(1)] by simp
  show "hm_get es k' = Some e \<and> (ce_seq e, k') \<in> set order" if "hm_get es' k' = Some e" for k' e
    using order_okD(3)[OF assms(1) assms(3)[OF that]] assms(3)[OF that] assms(4) that
    by (auto simp: slot_live_iff)
qed

lemma drop_expired_loop_spec:
  assumes "order_ok order es" "drop_expired_loop now order es = (order', es')"
  shows "order_ok order' es' \<and> suffix order' order \<and>
    (\<forall>k. hm_get es' k =
      (case hm_get es k of None \<Rightarrow> None | Some e \<Rightarrow> if ce_expires_at e \<le> now then None else Some e))"
  using assms
proof (induction now order es rule: drop_expired_loop.induct)
  case (1 now es)
  then have "hm_get es k = None" for k by (cases "hm_get es k") (auto simp: order_ok_def)
  with 1 show ?case by simp
next
  case (2 now seq key order es)
  note ok = 2(4)
  have wf: "hm_wf es" using ok by (simp add: order_ok_def)
  show ?case
  proof (cases "slot_live es (seq, key)")
    case False
    then have "order_ok order es" using order_ok_tail[OF ok wf] by blast
    then show ?thesis
      using 2 False by (cases "hm_get es key") (auto simp: slot_live_iff split: if_splits intro: suffix_ConsI)
  next
    case True
    then obtain e where e: "hm_get es key = Some e" "ce_seq e = seq" by (auto simp: slot_live_iff)
    show ?thesis
    proof (cases "ce_expires_at e > now")
      case unexpired: True
      have "ce_expires_at e' > now" if "hm_get es k = Some e'" for k e'
      proof (cases "k = key")
        case False
        with that ok have "(ce_seq e', k) \<in> set order" by (auto simp: order_ok_def)
        with ok have "seq < ce_seq e'" by (auto simp: order_ok_def)
        with ok e that unexpired show ?thesis
          unfolding order_ok_def by (meson less_le_trans)
      qed (use that e unexpired in auto)
      with 2(5) e unexpired ok show ?thesis by (auto split: option.splits simp: not_le[symmetric])
    next
      case expired: False
      have "order_ok order (hm_remove key es)"
        by (rule order_ok_tail[OF ok]) (use wf in \<open>auto simp: slot_live_iff split: if_splits\<close>)
      from 2(2)[OF e(1,2) expired this] 2(5) e expired wf show ?thesis
        by (auto intro: suffix_ConsI split: option.splits)
    qed
  qed
qed

lemma drop_expired_get:
  assumes "order_ok (tc_order c) (tc_entries c)"
  shows "hm_get (tc_entries (cache_drop_expired now c)) k =
      (case hm_get (tc_entries c) k of
         None \<Rightarrow> None | Some e \<Rightarrow> if ce_expires_at e \<le> now then None else Some e)"
    and "order_ok (tc_order (cache_drop_expired now c)) (tc_entries (cache_drop_expired now c))"
    and "suffix (tc_order (cache_drop_expired now c)) (tc_order c)"
proof -
  obtain order' es' where d: "drop_expired_loop now (tc_order c) (tc_entries c) = (order', es')" by fastforce
  from drop_expired_loop_spec[OF assms d] d
  show "hm_get (tc_entries (cache_drop_expired now c)) k =
      (case hm_get (tc_entries c) k of
         None \<Rightarrow> None | Some e \<Rightarrow> if ce_expires_at e \<le> now then None else Some e)"
    "order_ok (tc_order (cache_drop_expired now c)) (tc_entries (cache_drop_expired now c))"
    "suffix (tc_order (cache_drop_expired now c)) (tc_order c)"
    by (simp_all add: cache_drop_expired_def)
qed

lemma drop_expired_fields [simp]:
  "tc_next_seq (cache_drop_expired now c) = tc_next_seq c" "tc_ttl (cache_drop_expired now c) = tc_ttl c"
  "tc_capacity (cache_drop_expired now c) = tc_capacity c"
  "tc_next_seq (cache_evict_oldest c) = tc_next_seq c" "tc_ttl (cache_evict_oldest c) = tc_ttl c"
  "tc_capacity (cache_evict_oldest c) = tc_capacity c"
  by (simp_all add: cache_drop_expired_def cache_evict_oldest_def split: prod.splits)

lemma hm_length_le:
  assumes "hm_wf m" "hm_wf m'" "\<And>k v. hm_get m' k = Some v \<Longrightarrow> hm_get m k \<noteq> None"
  shows "length m' \<le> length m"
proof -
  have "dom (hm_get m') \<subseteq> dom (hm_get m)" using assms(3) by (auto simp: dom_def)
  then show ?thesis using assms(1,2) by (metis card_mono hm.card_dom_get hm.finite_dom_get)
qed

text \<open>The oldest of the live entries: the one the queue reaches first.\<close>

lemma evict_oldest_spec:
  assumes ok: "order_ok (tc_order c) (tc_entries c)" and ne: "tc_entries c \<noteq> []"
  obtains k e where "hm_get (tc_entries c) k = Some e"
    "tc_entries (cache_evict_oldest c) = hm_remove k (tc_entries c)"
    "\<And>k' e'. hm_get (tc_entries c) k' = Some e' \<Longrightarrow> ce_seq e \<le> ce_seq e'"
    "order_ok (tc_order (cache_evict_oldest c)) (tc_entries (cache_evict_oldest c))"
    "suffix (tc_order (cache_evict_oldest c)) (tc_order c)"
proof -
  have wf: "hm_wf (tc_entries c)" using ok by (simp add: order_ok_def)
  from ne obtain k0 e0 where "(k0, e0) \<in> set (tc_entries c)" by (cases "tc_entries c") auto
  then have "hm_get (tc_entries c) k0 = Some e0" using hm.in_entries[OF wf] by blast
  then have "(ce_seq e0, k0) \<in> set (tc_order c)" "slot_live (tc_entries c) (ce_seq e0, k0)"
    using order_okD(3)[OF ok] by (auto simp: slot_live_iff)
  then have "\<exists>slot\<in>set (tc_order c). slot_live (tc_entries c) slot" by blast
  from evict_oldest_loop_spec[OF wf this] obtain pre seq k post where ev:
    "tc_order c = pre @ (seq, k) # post" "\<forall>slot\<in>set pre. \<not> slot_live (tc_entries c) slot"
    "slot_live (tc_entries c) (seq, k)"
    "evict_oldest_loop (tc_order c) (tc_entries c) = (post, hm_remove k (tc_entries c))" by blast
  from ev(3) obtain e where e: "hm_get (tc_entries c) k = Some e" "ce_seq e = seq" by (auto simp: slot_live_iff)
  have at: "(ce_seq e', k') \<in> set ((seq, k) # post)" if "hm_get (tc_entries c) k' = Some e'" for k' e'
  proof -
    have "slot_live (tc_entries c) (ce_seq e', k')" using that by (simp add: slot_live_iff)
    with order_okD(3)[OF ok that] ev(1,2) show ?thesis by auto
  qed
  have oldest: "ce_seq e \<le> ce_seq e'" if "hm_get (tc_entries c) k' = Some e'" for k' e'
    using at[OF that] order_okD(2)[OF ok] ev(1) e(2) by (auto simp: sorted_wrt_append)
  have "order_ok post (hm_remove k (tc_entries c))"
  proof (rule order_ok_sub[OF ok])
    show "sorted_wrt (<) (map fst post)" using ok ev(1) by (auto simp: order_ok_def sorted_wrt_append)
    show "hm_get (tc_entries c) k' = Some e' \<and> (ce_seq e', k') \<in> set post"
      if "hm_get (hm_remove k (tc_entries c)) k' = Some e'" for k' e'
      using that at[of k' e'] wf by (auto split: if_splits)
  qed (use wf in simp)
  then show ?thesis
    using that[OF e(1)] oldest ev(1,4) by (auto simp: cache_evict_oldest_def suffix_def)
qed

subsection \<open>Insertion\<close>

text \<open>The cache after the sweep and the eviction, before the new entry goes in.\<close>

definition cache_make_room :: "nat \<Rightarrow> string \<Rightarrow> 'a TtlCache \<Rightarrow> 'a TtlCache" where
  "cache_make_room now key c =
     (let c1 = cache_drop_expired now c in
      if length (tc_entries c1) \<ge> tc_capacity c1 \<and> \<not> hm_contains (tc_entries c1) key
      then cache_evict_oldest c1 else c1)"

definition cache_push :: "nat \<Rightarrow> string \<Rightarrow> 'a \<Rightarrow> 'a TtlCache \<Rightarrow> 'a TtlCache" where
  "cache_push now key value c =
     c\<lparr>tc_next_seq := tc_next_seq c + 1, tc_order := tc_order c @ [(tc_next_seq c, key)],
       tc_entries := hm_insert key
         \<lparr>ce_value = value, ce_expires_at = now + tc_ttl c, ce_seq = tc_next_seq c\<rparr> (tc_entries c)\<rparr>"

lemma cache_insert_eq:
  "cache_insert now key value c = cache_compact (cache_push now key value (cache_make_room now key c))"
  by (simp add: cache_insert_def cache_make_room_def cache_push_def Let_def)

lemma make_room_fields [simp]:
  "tc_next_seq (cache_make_room now key c) = tc_next_seq c" "tc_ttl (cache_make_room now key c) = tc_ttl c"
  "tc_capacity (cache_make_room now key c) = tc_capacity c"
  by (simp_all add: cache_make_room_def Let_def)

lemma make_room_cases:
  fixes c :: "'a TtlCache"
  assumes ok: "order_ok (tc_order c) (tc_entries c)" and cap: "0 < tc_capacity c"
  obtains (kept) "cache_make_room now key c = cache_drop_expired now c"
    "length (tc_entries (cache_drop_expired now c)) < tc_capacity c \<or>
     hm_get (tc_entries (cache_drop_expired now c)) key \<noteq> None"
  | (evicted) k e where "hm_get (tc_entries (cache_drop_expired now c)) k = Some e"
    "hm_get (tc_entries (cache_drop_expired now c)) key = None"
    "tc_entries (cache_make_room now key c) = hm_remove k (tc_entries (cache_drop_expired now c))"
    "\<And>k' e'. hm_get (tc_entries (cache_drop_expired now c)) k' = Some e' \<Longrightarrow> ce_seq e \<le> ce_seq e'"
    "order_ok (tc_order (cache_make_room now key c)) (tc_entries (cache_make_room now key c))"
    "suffix (tc_order (cache_make_room now key c)) (tc_order (cache_drop_expired now c))"
proof (cases "length (tc_entries (cache_drop_expired now c)) \<ge> tc_capacity c \<and>
    \<not> hm_contains (tc_entries (cache_drop_expired now c)) key")
  case True
  then have eq: "cache_make_room now key c = cache_evict_oldest (cache_drop_expired now c)"
    by (simp add: cache_make_room_def)
  from True cap have "tc_entries (cache_drop_expired now c) \<noteq> []" by auto
  then show ?thesis
    by (rule evict_oldest_spec[OF drop_expired_get(2)[OF ok, of now]])
      (rule evicted; use True eq in \<open>auto simp: hm_contains_def\<close>)
next
  case False
  then show ?thesis by (intro kept) (auto simp: cache_make_room_def hm_contains_def)
qed

lemma make_room_ok:
  assumes "order_ok (tc_order c) (tc_entries c)" "0 < tc_capacity c"
  shows "order_ok (tc_order (cache_make_room now key c)) (tc_entries (cache_make_room now key c))"
    "suffix (tc_order (cache_make_room now key c)) (tc_order c)"
    "hm_get (tc_entries (cache_make_room now key c)) k = Some e \<Longrightarrow>
       hm_get (tc_entries c) k = Some e \<and> ce_expires_at e > now"
proof -
  note d = drop_expired_get[OF assms(1), of now]
  note wf = order_okD(1)[OF d(2)]
  from assms have "order_ok (tc_order (cache_make_room now key c)) (tc_entries (cache_make_room now key c)) \<and>
      suffix (tc_order (cache_make_room now key c)) (tc_order c) \<and>
      (hm_get (tc_entries (cache_make_room now key c)) k = Some e \<longrightarrow>
       hm_get (tc_entries (cache_drop_expired now c)) k = Some e)"
    by (cases rule: make_room_cases[where now = now and key = key])
      (use d wf in \<open>auto split: if_splits dest: suffix_order.trans\<close>)
  then show "order_ok (tc_order (cache_make_room now key c)) (tc_entries (cache_make_room now key c))"
    "suffix (tc_order (cache_make_room now key c)) (tc_order c)"
    "hm_get (tc_entries (cache_make_room now key c)) k = Some e \<Longrightarrow>
       hm_get (tc_entries c) k = Some e \<and> ce_expires_at e > now"
    using d(1)[of k] by (auto split: option.splits if_splits)
qed

lemma make_room_length:
  assumes "order_ok (tc_order c) (tc_entries c)" "0 < tc_capacity c" "length (tc_entries c) \<le> tc_capacity c"
  shows "length (tc_entries (cache_make_room now key c)) \<le> tc_capacity c"
    "hm_get (tc_entries (cache_make_room now key c)) key = None \<Longrightarrow>
       length (tc_entries (cache_make_room now key c)) < tc_capacity c"
proof -
  note d = drop_expired_get[OF assms(1), of now]
  have wf: "hm_wf (tc_entries (cache_drop_expired now c))" using d(2) by (rule order_okD)
  have le: "length (tc_entries (cache_drop_expired now c)) \<le> tc_capacity c"
  proof -
    have "length (tc_entries (cache_drop_expired now c)) \<le> length (tc_entries c)"
      by (rule hm_length_le[OF order_okD(1)[OF assms(1)] wf]) (auto simp: d(1) split: option.splits)
    with assms(3) show ?thesis by simp
  qed
  from assms(1,2) have "length (tc_entries (cache_make_room now key c)) \<le> tc_capacity c \<and>
      (hm_get (tc_entries (cache_make_room now key c)) key = None \<longrightarrow>
       length (tc_entries (cache_make_room now key c)) < tc_capacity c)"
  proof (cases rule: make_room_cases[where now = now and key = key])
    case (evicted k e)
    from hm.length_entries_remove[OF wf, of k] evicted(1,3) le show ?thesis by simp
  qed (use le in auto)
  then show "length (tc_entries (cache_make_room now key c)) \<le> tc_capacity c"
    "hm_get (tc_entries (cache_make_room now key c)) key = None \<Longrightarrow>
       length (tc_entries (cache_make_room now key c)) < tc_capacity c" by auto
qed

lemma push_ok:
  assumes "order_ok (tc_order c) (tc_entries c)" "\<forall>slot\<in>set (tc_order c). fst slot < tc_next_seq c"
    "\<And>k e. hm_get (tc_entries c) k = Some e \<Longrightarrow> ce_expires_at e \<le> now + tc_ttl c"
  shows "order_ok (tc_order (cache_push now key value c)) (tc_entries (cache_push now key value c))"
proof -
  note wf = order_okD(1)[OF assms(1)]
  have old: "ce_seq e < tc_next_seq c" if "hm_get (tc_entries c) k = Some e" for k e
    using order_okD(3)[OF assms(1) that] assms(2) by force
  have "sorted_wrt (<) (map fst (tc_order c @ [(tc_next_seq c, key)]))"
    using order_okD(2)[OF assms(1)] assms(2) by (auto simp: sorted_wrt_append)
  moreover have "(ce_seq e, k) \<in> set (tc_order c @ [(tc_next_seq c, key)])"
    if "hm_get (tc_entries (cache_push now key value c)) k = Some e" for k e
    using that wf order_okD(3)[OF assms(1)] by (auto simp: cache_push_def split: if_splits)
  moreover have "ce_expires_at e \<le> ce_expires_at e'"
    if "hm_get (tc_entries (cache_push now key value c)) k = Some e"
      "hm_get (tc_entries (cache_push now key value c)) k' = Some e'" "ce_seq e < ce_seq e'" for k e k' e'
    using that wf order_okD(4)[OF assms(1), of k e k' e'] assms(3)[of k e] old[of k' e']
    by (auto simp: cache_push_def split: if_splits)
  moreover have "hm_wf (tc_entries (cache_push now key value c))"
    "tc_order (cache_push now key value c) = tc_order c @ [(tc_next_seq c, key)]"
    using wf by (simp_all add: cache_push_def)
  ultimately show ?thesis unfolding order_ok_def by metis
qed

lemma compact_ok:
  assumes "order_ok (tc_order c) (tc_entries c)"
  shows "order_ok (tc_order (cache_compact c)) (tc_entries (cache_compact c))"
    "tc_entries (cache_compact c) = tc_entries c"
    "set (tc_order (cache_compact c)) \<subseteq> set (tc_order c)"
proof -
  have "order_ok (filter (slot_live (tc_entries c)) (tc_order c)) (tc_entries c)"
  proof (rule order_ok_sub[OF assms order_okD(1)[OF assms]])
    show "sorted_wrt (<) (map fst (filter (slot_live (tc_entries c)) (tc_order c)))"
      using order_okD(2)[OF assms] by (simp add: sorted_wrt_map sorted_wrt_filter)
    show "hm_get (tc_entries c) k = Some e \<and> (ce_seq e, k) \<in> set (filter (slot_live (tc_entries c)) (tc_order c))"
      if "hm_get (tc_entries c) k = Some e" for k e
      using that order_okD(3)[OF assms that] by (auto simp: slot_live_iff)
  qed
  then show "order_ok (tc_order (cache_compact c)) (tc_entries (cache_compact c))"
    "tc_entries (cache_compact c) = tc_entries c"
    "set (tc_order (cache_compact c)) \<subseteq> set (tc_order c)"
    using assms by (auto simp: cache_compact_def)
qed

lemma compact_length:
  assumes "order_ok (tc_order c) (tc_entries c)" "length (tc_entries c) \<le> tc_capacity c"
    "tc_capacity c \<le> usize_max"
  shows "length (tc_order (cache_compact c)) \<le> min (tc_capacity c * 2) usize_max"
proof -
  have "distinct (filter (slot_live (tc_entries c)) (tc_order c))"
    using order_ok_covered[OF assms(1)] by (simp add: ttl.covered_def)
  then have "length (filter (slot_live (tc_entries c)) (tc_order c)) \<le> length (live_slots (tc_entries c))"
    using live_slots_mem[OF order_okD(1)[OF assms(1)]] distinct_live_slots[OF order_okD(1)[OF assms(1)]]
    by (metis (no_types, lifting) card_mono distinct_card filter_set List.finite_set mem_Collect_eq set_filter subsetI)
  with assms(2,3) show ?thesis by (auto simp: cache_compact_def)
qed

lemma cache_insert_inv:
  assumes inv: "cache_inv clock c" and now: "clock \<le> now" and nowrap: "tc_next_seq c < tc_next_seq c + 1"
  shows "cache_inv now (cache_insert now key value c)"
proof -
  let ?m = "cache_make_room now key c"
  let ?p = "cache_push now key value ?m"
  have ok: "order_ok (tc_order c) (tc_entries c)" and cap: "0 < tc_capacity c" "tc_capacity c \<le> usize_max"
    and len: "length (tc_entries c) \<le> tc_capacity c"
    and seqs: "\<forall>slot\<in>set (tc_order c). fst slot < tc_next_seq c"
    and exp: "\<And>k e. hm_get (tc_entries c) k = Some e \<Longrightarrow> ce_expires_at e \<le> clock + tc_ttl c"
    using inv by (auto simp: cache_inv_def)
  note m = make_room_ok[OF ok cap(1), of now key]
  have wf: "hm_wf (tc_entries ?m)" using m(1) by (rule order_okD)
  have mseqs: "\<forall>slot\<in>set (tc_order ?m). fst slot < tc_next_seq ?m"
    using seqs set_mono_suffix[OF m(2)] by auto
  have mexp: "ce_expires_at e \<le> now + tc_ttl ?m" if "hm_get (tc_entries ?m) k = Some e" for k e
    using m(3)[OF that] exp[of k e] now by simp
  have pok: "order_ok (tc_order ?p) (tc_entries ?p)" by (rule push_ok[OF m(1) mseqs mexp])
  have plen: "length (tc_entries ?p) \<le> tc_capacity c"
    using make_room_length[OF ok cap(1) len, of now key] hm.length_entries_insert[OF wf, of key]
    by (cases "hm_get (tc_entries ?m) key") (simp_all add: cache_push_def)
  have "\<forall>slot\<in>set (tc_order ?p). fst slot < tc_next_seq ?p"
    using mseqs nowrap by (auto simp: cache_push_def)
  then have cseqs: "\<forall>slot\<in>set (tc_order (cache_compact ?p)). fst slot < tc_next_seq (cache_compact ?p)"
    using compact_ok(3)[OF pok] by (auto simp: cache_compact_def)
  have "ce_expires_at e \<le> now + tc_ttl ?p" if "hm_get (tc_entries ?p) k = Some e" for k e
    using that mexp[of k e] wf by (auto simp: cache_push_def split: if_splits)
  then have "\<forall>k e. hm_get (tc_entries (cache_compact ?p)) k = Some e \<longrightarrow>
      ce_expires_at e \<le> now + tc_ttl (cache_compact ?p)"
    unfolding compact_ok(2)[OF pok] by (simp add: cache_compact_def)
  moreover have "length (tc_order (cache_compact ?p)) \<le> min (tc_capacity c * 2) usize_max"
    using compact_length[OF pok] plen cap(2) by (simp add: cache_push_def)
  moreover have "tc_capacity (cache_compact ?p) = tc_capacity c" by (simp add: cache_compact_def cache_push_def)
  ultimately show ?thesis
    unfolding cache_inv_def cache_insert_eq
    using compact_ok(1)[OF pok] compact_ok(2)[OF pok] cseqs plen cap by simp
qed

text \<open>Operations that only drop entries.\<close>

lemma drop_entries_inv:
  assumes "cache_inv clock c" "clock \<le> now" "hm_wf es"
    "\<And>k e. hm_get es k = Some e \<Longrightarrow> hm_get (tc_entries c) k = Some e"
  shows "cache_inv now (c\<lparr>tc_entries := es\<rparr>)"
proof -
  have ok: "order_ok (tc_order c) (tc_entries c)" using assms(1) by (simp add: cache_inv_def)
  have "order_ok (tc_order c) es"
    by (rule order_ok_sub[OF ok assms(3) order_okD(2)[OF ok]]) (use assms(4) order_okD(3)[OF ok] in blast)
  moreover have "length es \<le> length (tc_entries c)"
    by (rule hm_length_le[OF order_okD(1)[OF ok] assms(3)]) (use assms(4) in fastforce)
  moreover have "ce_expires_at e \<le> now + tc_ttl c" if "hm_get es k = Some e" for k e
    using assms(1,2) assms(4)[OF that] by (fastforce simp: cache_inv_def)
  ultimately show ?thesis using assms(1) by (auto simp: cache_inv_def)
qed

lemma cache_wf: "cache_inv clock c \<Longrightarrow> hm_wf (tc_entries c)"
  by (simp add: cache_inv_def order_ok_def)

lemma cache_later: "cache_inv clock c \<Longrightarrow> clock \<le> now \<Longrightarrow> cache_inv now c"
  using drop_entries_inv[of clock c now "tc_entries c"] by (simp add: cache_wf)

lemma cache_get_inv: "cache_inv clock c \<Longrightarrow> clock \<le> now \<Longrightarrow> cache_inv now (fst (cache_get now key c))"
  by (auto simp: cache_get_def cache_later cache_wf split: option.splits if_splits intro!: drop_entries_inv)

lemma cache_remove_inv: "cache_inv clock c \<Longrightarrow> cache_inv clock (cache_remove key c)"
  unfolding cache_remove_def
  by (rule drop_entries_inv) (auto simp: cache_wf split: if_splits)

lemma cache_retain_inv: "cache_inv clock c \<Longrightarrow> cache_inv clock (cache_retain keep c)"
  unfolding cache_retain_def
  by (rule drop_entries_inv) (auto simp: cache_wf hm_get_retain split: option.splits if_splits)

subsection \<open>Runs\<close>

datatype 'a cache_op = CGet string | CInsert string 'a | CRemove string | CRetain "string \<Rightarrow> bool"

fun cache_step :: "nat \<Rightarrow> 'a cache_op \<Rightarrow> 'a TtlCache \<Rightarrow> 'a TtlCache" where
  "cache_step now (CGet k) c = fst (cache_get now k c)"
| "cache_step now (CInsert k v) c = cache_insert now k v c"
| "cache_step now (CRemove k) c = cache_remove k c"
| "cache_step now (CRetain p) c = cache_retain p c"

definition cache_run :: "(nat \<times> 'a cache_op) list \<Rightarrow> 'a TtlCache \<Rightarrow> 'a TtlCache" where
  "cache_run ops c = foldl (\<lambda>c (now, op). cache_step now op c) c ops"

lemma drop_ops_next_seq [simp]:
  "tc_next_seq (fst (cache_get now k c)) = tc_next_seq c" "tc_next_seq (cache_remove k c) = tc_next_seq c"
  "tc_next_seq (cache_retain p c) = tc_next_seq c"
  by (simp_all add: cache_get_def cache_remove_def cache_retain_def split: option.splits)

lemma cache_step_inv:
  assumes "cache_inv clock c" "clock \<le> now" "unat (tc_next_seq c) < 2 ^ 64 - 1"
  shows "cache_inv now (cache_step now op c) \<and> unat (tc_next_seq (cache_step now op c)) \<le> Suc (unat (tc_next_seq c))"
proof (cases op)
  case (CInsert k v)
  have "unat (tc_next_seq c + 1) = Suc (unat (tc_next_seq c))"
    using assms(3) by (simp add: unat_word_ariths)
  then have "tc_next_seq c < tc_next_seq c + 1" "unat (tc_next_seq (cache_insert now k v c)) = Suc (unat (tc_next_seq c))"
    by (simp_all add: word_less_nat_alt cache_insert_eq cache_compact_def cache_push_def)
  with cache_insert_inv[OF assms(1,2)] CInsert show ?thesis by simp
qed (use assms cache_later[OF assms(1,2)] in \<open>auto simp: cache_get_inv cache_remove_inv cache_retain_inv\<close>)

lemma cache_run_inv:
  assumes "cache_inv clock c" "sorted (clock # map fst ops)" "unat (tc_next_seq c) + length ops < 2 ^ 64"
  shows "\<exists>clock'. cache_inv clock' (cache_run ops c)"
  using assms
proof (induction ops arbitrary: clock c)
  case (Cons x ops)
  obtain now op where x: "x = (now, op)" by (cases x)
  have s: "cache_inv now (cache_step now op c)"
    "unat (tc_next_seq (cache_step now op c)) \<le> Suc (unat (tc_next_seq c))"
    using cache_step_inv[OF Cons.prems(1), of now op] Cons.prems(2,3) x by auto
  have "unat (tc_next_seq (cache_step now op c)) + length ops < 2 ^ 64" using s(2) Cons.prems(3) by simp
  from Cons.IH[OF s(1) _ this] Cons.prems(2) x show ?case by (simp add: cache_run_def)
qed (auto simp: cache_run_def)

lemma cache_new_inv: "capacity \<le> usize_max \<Longrightarrow> cache_inv 0 (cache_new ttl capacity)"
  by (auto simp: cache_inv_def cache_new_def order_ok_def usize_max_def)

lemma cache_run_capacity [simp]: "tc_capacity (cache_run ops c) = tc_capacity c"
proof -
  have "tc_capacity (cache_step now op c) = tc_capacity c" for now op and c :: "'a TtlCache"
    by (cases op) (auto simp: cache_get_def cache_insert_eq cache_compact_def cache_push_def cache_remove_def
        cache_retain_def split: option.splits)
  then show ?thesis unfolding cache_run_def by (induction ops arbitrary: c) (auto split: prod.splits)
qed

text \<open>
  The cache is bounded. Whatever lookups, insertions, removals and sweeps run on a
  new cache, with any keys and on a clock that does not go back, it never holds more
  entries than its capacity, and its eviction queue, which also holds superseded slots,
  never more than twice that, up to the first wrap of the 64-bit sequence.
\<close>

theorem cache_bounded:
  assumes "sorted (map fst ops)" and "length ops < 2 ^ 64" and "capacity \<le> usize_max"
  shows "length (tc_entries (cache_run ops (cache_new ttl capacity))) \<le> max capacity 1 \<and>
    length (tc_order (cache_run ops (cache_new ttl capacity))) \<le> 2 * max capacity 1"
proof -
  let ?c = "cache_run ops (cache_new ttl capacity)"
  have "\<exists>clock'. cache_inv clock' ?c"
    by (rule cache_run_inv[OF cache_new_inv[OF assms(3)]])
      (use assms(1,2) in \<open>auto simp: cache_new_def\<close>)
  moreover have "tc_capacity ?c = max capacity 1" by (simp add: cache_new_def)
  ultimately show ?thesis by (auto simp: cache_inv_def)
qed

definition sample_cache_ops :: "(nat \<times> nat cache_op) list" where
  "sample_cache_ops = [(1, CInsert ''a'' 1), (2, CInsert ''b'' 2), (3, CInsert ''c'' 3), (4, CGet ''a'')]"

theorem cache_bounded_witness:
  "length (tc_entries (cache_run sample_cache_ops (cache_new 60 2))) \<le> 2"
  using cache_bounded[of sample_cache_ops 2 60] by (simp add: sample_cache_ops_def usize_max_def)

text \<open>
  A lookup after an insertion answers the value inserted until its time to live is
  over, and nothing from then on.
\<close>

theorem cache_insert_get:
  assumes "cache_inv clock c"
  shows "snd (cache_get now' key (cache_insert now key value c)) =
    (if now' < now + tc_ttl c then Some value else None)"
proof -
  have cap: "0 < tc_capacity c" and ok: "order_ok (tc_order c) (tc_entries c)"
    using assms by (auto simp: cache_inv_def)
  have "hm_wf (tc_entries (cache_make_room now key c))"
    using make_room_ok(1)[OF ok cap] by (rule order_okD)
  then have "hm_get (tc_entries (cache_insert now key value c)) key =
      Some \<lparr>ce_value = value, ce_expires_at = now + tc_ttl c, ce_seq = tc_next_seq c\<rparr>"
    by (simp add: cache_insert_eq cache_compact_def cache_push_def)
  then show ?thesis by (simp add: cache_get_def)
qed

theorem cache_insert_get_witness:
  "snd (cache_get 70 ''a'' (cache_insert 10 ''a'' 7 (cache_new 60 2))) = None"
  using cache_insert_get[OF cache_new_inv[of 2 60], of 70 "''a''" 10 7]
  by (simp add: usize_max_def cache_new_def)

text \<open>
  An insertion loses only what it may. An entry of another key that is gone
  afterwards had expired, or the key was new to a full cache and the entry was the
  oldest of the unexpired ones; and no expired entry is left.
\<close>

theorem cache_insert_evicts_oldest:
  assumes "cache_inv clock c" and "hm_get (tc_entries c) k = Some e" and "k \<noteq> key"
  shows "(hm_get (tc_entries (cache_insert now key value c)) k = Some e \<and> now < ce_expires_at e) \<or>
    (hm_get (tc_entries (cache_insert now key value c)) k = None \<and>
      (ce_expires_at e \<le> now \<or>
       (hm_get (tc_entries (cache_drop_expired now c)) key = None \<and>
        (\<forall>k2 e2. hm_get (tc_entries c) k2 = Some e2 \<and> now < ce_expires_at e2 \<longrightarrow> ce_seq e \<le> ce_seq e2))))"
proof -
  have cap: "0 < tc_capacity c" and ok: "order_ok (tc_order c) (tc_entries c)"
    using assms(1) by (auto simp: cache_inv_def)
  note d = drop_expired_get[OF ok, of now]
  note wf = order_okD(1)[OF make_room_ok(1)[OF ok cap, of now key]]
  have get: "hm_get (tc_entries (cache_insert now key value c)) k = hm_get (tc_entries (cache_make_room now key c)) k"
    using wf assms(3) by (simp add: cache_insert_eq cache_compact_def cache_push_def)
  have dk: "hm_get (tc_entries (cache_drop_expired now c)) k = (if ce_expires_at e \<le> now then None else Some e)"
    using d(1)[of k] assms(2) by simp
  from ok cap show ?thesis
  proof (cases rule: make_room_cases[where now = now and key = key])
    case kept
    then show ?thesis using get dk by auto
  next
    case (evicted k1 e1)
    have g: "hm_get (tc_entries (cache_make_room now key c)) k =
        (if k = k1 then None else hm_get (tc_entries (cache_drop_expired now c)) k)"
      using evicted(3) order_okD(1)[OF d(2)] by simp
    have "ce_seq e1 \<le> ce_seq e2" if "hm_get (tc_entries c) k2 = Some e2" "now < ce_expires_at e2" for k2 e2
      using evicted(4)[of k2 e2] d(1)[of k2] that by simp
    with get g dk evicted(1,2) show ?thesis by (auto split: if_splits)
  qed
qed

definition sample_cache :: "nat TtlCache" where
  "sample_cache = cache_insert 1 ''a'' 5 (cache_new 60 1)"

lemma sample_cache_get:
  "hm_get (tc_entries sample_cache) ''a'' = Some \<lparr>ce_value = 5, ce_expires_at = 61, ce_seq = 0\<rparr>"
  by (simp add: sample_cache_def cache_insert_def cache_new_def cache_drop_expired_def cache_compact_def
      hm_insert_def hm_get_def usize_max_def)

lemma sample_cache_inv: "cache_inv 1 sample_cache"
  unfolding sample_cache_def
  by (rule cache_insert_inv[OF cache_new_inv]) (simp_all add: usize_max_def cache_new_def)

theorem cache_insert_evicts_oldest_witness:
  "hm_get (tc_entries (cache_insert 2 ''b'' 6 sample_cache)) ''a'' \<in>
     {None, Some \<lparr>ce_value = 5, ce_expires_at = 61, ce_seq = 0\<rparr>}"
  using cache_insert_evicts_oldest[OF sample_cache_inv sample_cache_get, of "''b''" 2 6] by auto

end
