(* ===== verification/Hub_Store.thy ===== *)
theory Hub_Store
  imports Hub_Base "HOL-Library.Product_Lexorder"
begin

text \<open>
  The durable store of the Hub, \<open>crates/nagisalake-hub-store\<close>: the tables of the job,
  quota, artifact and batch migrations as maps from the primary key to the row, and one
  definition per query method of \<open>jobs.rs\<close>, \<open>quota.rs\<close>, \<open>artifacts.rs\<close> and
  \<open>batches.rs\<close>. A method is one atomic step on the database: a transaction that
  returns an error or rolls back leaves it as it was. A primary or foreign key
  violation is the error \<open>Database\<close>; failures of the connection are not modelled. The
  JSON text of a column is read and written by a codec that is a parameter.
\<close>

subsection \<open>Rows\<close>

datatype StoreError =
    Database
  | Migration
  | SConflict string
  | SNotFound string
  | SQuotaExceeded string
  | SInvalidConfig string

record StoredJob =
  j_organization_id :: string
  j_id :: string
  j_actor_id :: string
  j_actor_kind :: string
  j_actor_user_id :: "string option"
  j_workflow_id :: string
  j_workflow_version :: string
  j_parameters_json :: string
  j_input_artifact_ids_json :: string
  j_output_artifact_ids_json :: string
  j_worker_id :: "string option"
  j_worker_organization_id :: "string option"
  j_session_id :: "string option"
  j_attempt :: i64
  j_state :: string
  j_progress :: "f32 option"
  j_prompt_id :: "string option"
  j_error :: "string option"
  j_last_event :: i64
  j_created_at :: i64
  j_updated_at :: i64
  j_batch_id :: "string option"

record StoredJobEvent =
  e_organization_id :: string
  e_job_id :: string
  e_attempt :: i64
  e_sequence :: i64
  e_kind :: string
  e_progress :: "f32 option"
  e_prompt_id :: "string option"
  e_message :: string
  e_unix_ms :: i64

record quota_policies_row =
  qp_max_concurrent_jobs :: i64
  qp_max_storage_bytes :: i64
  qp_max_jobs_per_period :: i64
  qp_period_seconds :: i64
  qp_max_batch_jobs :: i64

record quota_usage_row =
  qu_active_jobs :: i64
  qu_storage_bytes :: i64
  qu_period_jobs :: i64
  qu_period_started_at :: i64
  qu_updated_at :: i64

record dispatch_outbox_row =
  ob_status :: string
  ob_attempts :: i64
  ob_available_at :: i64
  ob_claimed_at :: "i64 option"
  ob_last_error :: "string option"

record idempotency_row =
  im_request_hash :: string
  im_job_id :: string

record StoredArtifact =
  a_organization_id :: string
  a_id :: string
  a_job_id :: "string option"
  a_name :: string
  a_content_type :: string
  a_size_bytes :: i64
  a_sha256 :: string
  a_state :: string
  a_object_key :: string
  a_created_at :: i64
  a_updated_at :: i64
  a_expires_at :: "i64 option"

record upload_request_row =
  ur_artifact_id :: string
  ur_job_id :: "string option"
  ur_attempt :: "i64 option"
  ur_created_at :: i64
  ur_completed_at :: "i64 option"

record DeviceWorkflowRule =
  rule_id :: string
  rule_version :: string

record device_grant_row =
  g_allowed_workflows_json :: string
  g_max_concurrent_jobs :: "i64 option"
  g_expires_at :: "i64 option"
  g_revoked_at :: "i64 option"

record workers_row =
  w_owner_user_id :: "string option"
  w_last_session_id :: string
  w_last_seen_at :: i64

record job_batch_row =
  b_device_organization_id :: "string option"
  b_device_id :: "string option"

record dispatch_queue_row =
  dq_available_at :: i64
  dq_priority :: i64
  dq_lease_owner :: "string option"
  dq_lease_until :: "i64 option"
  dq_created_at :: i64

type_synonym key2 = "string \<times> string"

text \<open>
  The database. A ledger row of the metric
  \<open>concurrency_release\<close> is the pair of organization and idempotency key; the grants are
  keyed by device organization, device and grantee.
\<close>

record Db =
  db_jobs :: "(key2, StoredJob) hash_map"
  db_job_events :: "(string \<times> string \<times> i64 \<times> i64, StoredJobEvent) hash_map"
  db_quota_policies :: "(string, quota_policies_row) hash_map"
  db_quota_usage :: "(string, quota_usage_row) hash_map"
  db_usage_ledger :: "key2 hash_set"
  db_dispatch_outbox :: "(string \<times> string \<times> i64, dispatch_outbox_row) hash_map"
  db_idempotency :: "(string \<times> string \<times> string \<times> string \<times> string, idempotency_row) hash_map"
  db_artifacts :: "(key2, StoredArtifact) hash_map"
  db_upload_requests :: "(key2, upload_request_row) hash_map"
  db_workers :: "(key2, workers_row) hash_map"
  db_device_grants :: "(string \<times> string \<times> string, device_grant_row) hash_map"
  db_job_batches :: "(key2, job_batch_row) hash_map"
  db_job_dispatch_queue :: "(key2, dispatch_queue_row) hash_map"
  db_job_input_artifacts :: "(string \<times> string \<times> i64, string) hash_map"
  db_batch_idempotency :: "(string \<times> string \<times> string \<times> string \<times> string, idempotency_row) hash_map"

record json_codec =
  ids_enc :: "string list \<Rightarrow> string"
  ids_dec :: "string \<Rightarrow> string list option"
  rules_dec :: "string \<Rightarrow> DeviceWorkflowRule list option"
  params_enc :: "json \<Rightarrow> string option"
  params_dec :: "string \<Rightarrow> json option"

definition terminal_state :: "string \<Rightarrow> bool" where
  "terminal_state s \<longleftrightarrow> s \<in> {''completed'', ''failed'', ''cancelled''}"

definition i64_saturating_add :: "i64 \<Rightarrow> i64 \<Rightarrow> i64" where
  "i64_saturating_add a b = clamp_i64 (a + b)"

definition i64_saturating_mul :: "i64 \<Rightarrow> i64 \<Rightarrow> i64" where
  "i64_saturating_mul a b = clamp_i64 (a * b)"

text \<open>\<open>UPDATE .. WHERE key AND p\<close>: the new table and whether the row was affected.\<close>

definition update_where ::
  "'k \<Rightarrow> ('v \<Rightarrow> bool) \<Rightarrow> ('v \<Rightarrow> 'v) \<Rightarrow> ('k, 'v) hash_map \<Rightarrow> ('k, 'v) hash_map \<times> bool" where
  "update_where k p f t =
     (case hm_get t k of
        Some row \<Rightarrow> if p row then (hm_insert k (f row) t, True) else (t, False)
      | None \<Rightarrow> (t, False))"

definition update_key :: "'k \<Rightarrow> ('v \<Rightarrow> 'v) \<Rightarrow> ('k, 'v) hash_map \<Rightarrow> ('k, 'v) hash_map" where
  "update_key k f t = fst (update_where k (\<lambda>_. True) f t)"

subsection \<open>Quota\<close>

definition release_job_for_terminal_tx :: "string \<Rightarrow> string \<Rightarrow> i64 \<Rightarrow> Db \<Rightarrow> Db" where
  "release_job_for_terminal_tx org job now db =
     (if (case hm_get (db_jobs db) (org, job) of None \<Rightarrow> False | Some j \<Rightarrow> terminal_state (j_state j)) \<and>
         (org, job) \<notin> set (db_usage_ledger db)
      then db\<lparr>db_usage_ledger := hs_insert (org, job) (db_usage_ledger db),
              db_quota_usage := update_key org
                (\<lambda>u. u\<lparr>qu_active_jobs := max 0 (qu_active_jobs u - 1), qu_updated_at := now\<rparr>)
                (db_quota_usage db)\<rparr>
      else db)"

definition reserve_storage :: "i64 \<Rightarrow> string \<Rightarrow> i64 \<Rightarrow> Db \<Rightarrow> Db \<times> (StoreError, unit) result" where
  "reserve_storage now org bytes db =
     (case hm_get (db_quota_policies db) org of
        None \<Rightarrow> (db, Err (SNotFound ''quota policy''))
      | Some quota \<Rightarrow>
          (case hm_get (db_quota_usage db) org of
             None \<Rightarrow> (db, Err Database)
           | Some usage \<Rightarrow>
               if bytes < 0 \<or> i64_saturating_add (qu_storage_bytes usage) bytes > qp_max_storage_bytes quota
               then (db, Err (SQuotaExceeded ''storage_bytes''))
               else (db\<lparr>db_quota_usage := update_key org
                       (\<lambda>u. u\<lparr>qu_storage_bytes := qu_storage_bytes u + bytes, qu_updated_at := now\<rparr>)
                       (db_quota_usage db)\<rparr>, Ok ())))"

definition release_storage :: "i64 \<Rightarrow> string \<Rightarrow> i64 \<Rightarrow> Db \<Rightarrow> Db" where
  "release_storage now org bytes db =
     db\<lparr>db_quota_usage := update_key org
        (\<lambda>u. u\<lparr>qu_storage_bytes := max 0 (qu_storage_bytes u - max bytes 0), qu_updated_at := now\<rparr>)
        (db_quota_usage db)\<rparr>"

definition period_jobs_now :: "i64 \<Rightarrow> quota_policies_row \<Rightarrow> quota_usage_row \<Rightarrow> i64" where
  "period_jobs_now now quota usage =
     (if i64_saturating_sub now (qu_period_started_at usage) \<ge> i64_saturating_mul (qp_period_seconds quota) 1000
      then 0 else qu_period_jobs usage)"

definition charge_job :: "i64 \<Rightarrow> i64 \<Rightarrow> quota_usage_row \<Rightarrow> quota_usage_row" where
  "charge_job now period_jobs u =
     u\<lparr>qu_active_jobs := qu_active_jobs u + 1, qu_period_jobs := period_jobs + 1,
       qu_period_started_at := (if period_jobs = 0 then now else qu_period_started_at u),
       qu_updated_at := now\<rparr>"

definition reserve_job :: "i64 \<Rightarrow> string \<Rightarrow> Db \<Rightarrow> Db \<times> (StoreError, unit) result" where
  "reserve_job now org db =
     (case hm_get (db_quota_policies db) org of
        None \<Rightarrow> (db, Err (SNotFound ''quota policy''))
      | Some quota \<Rightarrow>
          (case hm_get (db_quota_usage db) org of
             None \<Rightarrow> (db, Err Database)
           | Some usage \<Rightarrow>
               let period_jobs = period_jobs_now now quota usage in
               if qu_active_jobs usage \<ge> qp_max_concurrent_jobs quota \<or>
                  period_jobs \<ge> qp_max_jobs_per_period quota
               then (db, Err (SQuotaExceeded ''jobs''))
               else (db\<lparr>db_quota_usage := update_key org (charge_job now period_jobs) (db_quota_usage db)\<rparr>,
                     Ok ())))"

definition release_job :: "i64 \<Rightarrow> string \<Rightarrow> Db \<Rightarrow> Db" where
  "release_job now org db =
     db\<lparr>db_quota_usage := update_key org
        (\<lambda>u. u\<lparr>qu_active_jobs := max 0 (qu_active_jobs u - 1), qu_updated_at := now\<rparr>)
        (db_quota_usage db)\<rparr>"

definition release_job_for_terminal :: "i64 \<Rightarrow> string \<Rightarrow> string \<Rightarrow> Db \<Rightarrow> Db" where
  "release_job_for_terminal now org job db = release_job_for_terminal_tx org job now db"

definition update_quota_policy ::
  "string \<Rightarrow> i64 \<Rightarrow> i64 \<Rightarrow> i64 \<Rightarrow> i64 \<Rightarrow> Db
   \<Rightarrow> Db \<times> (StoreError, quota_policies_row \<times> quota_usage_row) result" where
  "update_quota_policy org max_jobs max_bytes max_period period_seconds db =
     (if max_jobs \<le> 0 \<or> max_bytes \<le> 0 \<or> max_period \<le> 0 \<or> period_seconds \<le> 0
      then (db, Err (SInvalidConfig ''quota policy values must be greater than zero''))
      else
        (case hm_get (db_quota_policies db) org of
           None \<Rightarrow> (db, Err (SNotFound ''quota policy''))
         | Some quota \<Rightarrow>
             let quota' = quota\<lparr>qp_max_concurrent_jobs := max_jobs, qp_max_storage_bytes := max_bytes,
                                qp_max_jobs_per_period := max_period, qp_period_seconds := period_seconds\<rparr>
             in (case hm_get (db_quota_usage db) org of
                   None \<Rightarrow> (db, Err Database)
                 | Some usage \<Rightarrow>
                     (db\<lparr>db_quota_policies := hm_insert org quota' (db_quota_policies db)\<rparr>,
                      Ok (quota', usage)))))"

text \<open>
  A job is stale for the reconciliation when it is not terminal, was not updated since
  the cutoff, and no worker row of its worker was seen after the cutoff; a comparison
  with a null worker is never true.
\<close>

definition worker_seen :: "Db \<Rightarrow> StoredJob \<Rightarrow> i64 \<Rightarrow> bool" where
  "worker_seen db j cutoff =
     (case (j_worker_organization_id j, j_worker_id j) of
        (Some worg, Some wid) \<Rightarrow>
          (case hm_get (db_workers db) (worg, wid) of None \<Rightarrow> False | Some w \<Rightarrow> w_last_seen_at w > cutoff)
      | _ \<Rightarrow> False)"

definition stale_job :: "Db \<Rightarrow> i64 \<Rightarrow> StoredJob \<Rightarrow> bool" where
  "stale_job db cutoff j \<longleftrightarrow>
     \<not> terminal_state (j_state j) \<and> j_updated_at j \<le> cutoff \<and> \<not> worker_seen db j cutoff"

definition active_count :: "string \<Rightarrow> Db \<Rightarrow> nat" where
  "active_count org db =
     length (filter (\<lambda>(k, j). fst k = org \<and> \<not> terminal_state (j_state j)) (db_jobs db))"

definition reconcile_active_job_quota :: "i64 \<Rightarrow> i64 \<Rightarrow> Db \<Rightarrow> Db \<times> (nat \<times> nat \<times> i64)" where
  "reconcile_active_job_quota now stale_after_ms db =
     (let cutoff = i64_saturating_sub now (max stale_after_ms 1000);
          stale = filter (\<lambda>(k, j). stale_job db cutoff j) (db_jobs db);
          jobs = map (\<lambda>(k, j). (k, if stale_job db cutoff j
                     then j\<lparr>j_state := ''failed'',
                            j_error := Some ''worker session unavailable during quota reconciliation'',
                            j_updated_at := now\<rparr>
                     else j)) (db_jobs db);
          db1 = db\<lparr>db_jobs := jobs,
                   db_usage_ledger := foldl (\<lambda>l (k, j). hs_insert k l) (db_usage_ledger db) stale\<rparr>;
          wrong = filter (\<lambda>(org, u). qu_active_jobs u \<noteq> int (active_count org db1)) (db_quota_usage db1);
          usage = map (\<lambda>(org, u). (org, if qu_active_jobs u \<noteq> int (active_count org db1)
                     then u\<lparr>qu_active_jobs := int (active_count org db1), qu_updated_at := now\<rparr> else u))
                    (db_quota_usage db1)
      in (db1\<lparr>db_quota_usage := usage\<rparr>,
          (length wrong, length stale, sum_list (map (\<lambda>(org, u). qu_active_jobs u) usage))))"

definition quota_snapshot ::
  "string \<Rightarrow> Db \<Rightarrow> (StoreError, quota_policies_row \<times> quota_usage_row) result" where
  "quota_snapshot org db =
     (case (hm_get (db_quota_policies db) org, hm_get (db_quota_usage db) org) of
        (Some p, Some u) \<Rightarrow> Ok (p, u)
      | _ \<Rightarrow> Err (SNotFound ''quota''))"

subsection \<open>Device grants\<close>

record DeviceUseAdmission =
  da_organization_id :: string
  da_user_id :: string
  da_device_organization_id :: string
  da_device_id :: string
  da_workflow_id :: string
  da_workflow_version :: string
  da_requested_jobs :: i64
  da_now :: i64

definition device_workflow_allowed :: "DeviceWorkflowRule list \<Rightarrow> string \<Rightarrow> string \<Rightarrow> bool" where
  "device_workflow_allowed rules wid version \<longleftrightarrow>
     rules = [] \<or> (\<exists>r\<in>set rules. rule_id r = wid \<and> rule_version r = version)"

definition active_on_device :: "DeviceUseAdmission \<Rightarrow> Db \<Rightarrow> nat" where
  "active_on_device a db =
     length (filter (\<lambda>(k, j).
        fst k = da_organization_id a \<and> j_actor_user_id j = Some (da_user_id a) \<and>
        \<not> terminal_state (j_state j) \<and>
        ((j_worker_organization_id j = Some (da_device_organization_id a) \<and>
          j_worker_id j = Some (da_device_id a)) \<or>
         (j_state j = ''queued'' \<and>
          (case j_batch_id j of
             None \<Rightarrow> False
           | Some b \<Rightarrow>
               (case hm_get (db_job_batches db) (fst k, b) of
                  None \<Rightarrow> False
                | Some batch \<Rightarrow>
                    b_device_organization_id batch = Some (da_device_organization_id a) \<and>
                    b_device_id batch = Some (da_device_id a))))))
       (db_jobs db))"

definition enforce_device_use_policy_tx ::
  "json_codec \<Rightarrow> DeviceUseAdmission \<Rightarrow> Db \<Rightarrow> (StoreError, unit) result" where
  "enforce_device_use_policy_tx J a db =
     (let requested_jobs = max (da_requested_jobs a) 1 in
      if da_device_organization_id a = da_organization_id a
      then if hm_contains (db_workers db) (da_device_organization_id a, da_device_id a) then Ok ()
           else Err (SNotFound ''organization device'')
      else
        (case hm_get (db_device_grants db) (da_device_organization_id a, da_device_id a, da_user_id a) of
           None \<Rightarrow> Err (SConflict ''shared pool device grant is not active'')
         | Some g \<Rightarrow>
             if g_revoked_at g \<noteq> None \<or>
                (case g_expires_at g of None \<Rightarrow> False | Some t \<Rightarrow> \<not> t > da_now a)
             then Err (SConflict ''shared pool device grant is not active'')
             else
               (case rules_dec J (g_allowed_workflows_json g) of
                  None \<Rightarrow> Err (SInvalidConfig ''invalid device grant policy'')
                | Some rules \<Rightarrow>
                    if \<not> device_workflow_allowed rules (da_workflow_id a) (da_workflow_version a)
                    then Err (SConflict ''shared pool device grant does not allow this workflow version'')
                    else
                      (case g_max_concurrent_jobs g of
                         None \<Rightarrow> Ok ()
                       | Some limit \<Rightarrow>
                           if i64_saturating_add (int (active_on_device a db)) requested_jobs > limit
                           then Err (SQuotaExceeded ''shared_device_concurrency'')
                           else Ok ()))))"

subsection \<open>Workers\<close>

definition upsert_worker ::
  "string \<Rightarrow> string \<Rightarrow> string option \<Rightarrow> string \<Rightarrow> i64 \<Rightarrow> Db \<Rightarrow> Db \<times> (StoreError, unit) result" where
  "upsert_worker org wid owner session_id now db =
     (let row = \<lparr>w_owner_user_id = owner, w_last_session_id = session_id, w_last_seen_at = now\<rparr>
      in (case hm_get (db_workers db) (org, wid) of
            None \<Rightarrow> (db\<lparr>db_workers := hm_insert (org, wid) row (db_workers db)\<rparr>, Ok ())
          | Some w \<Rightarrow>
              if w_owner_user_id w = owner
              then (db\<lparr>db_workers := hm_insert (org, wid)
                      (w\<lparr>w_last_session_id := session_id, w_last_seen_at := now\<rparr>) (db_workers db)\<rparr>, Ok ())
              else (db, Err (SConflict ''worker identity belongs to another user''))))"

definition touch_worker_heartbeat :: "string \<Rightarrow> string \<Rightarrow> string \<Rightarrow> i64 \<Rightarrow> Db \<Rightarrow> Db" where
  "touch_worker_heartbeat org wid session_id now db =
     db\<lparr>db_workers := fst (update_where (org, wid) (\<lambda>w. w_last_session_id w = session_id)
        (\<lambda>w. w\<lparr>w_last_seen_at := now\<rparr>) (db_workers db))\<rparr>"

subsection \<open>Jobs\<close>

record JobUpsert =
  ju_organization_id :: string
  ju_id :: string
  ju_actor_id :: string
  ju_actor_kind :: string
  ju_actor_user_id :: "string option"
  ju_workflow_id :: string
  ju_workflow_version :: string
  ju_parameters_json :: string
  ju_input_artifact_ids_json :: string
  ju_output_artifact_ids_json :: string
  ju_worker_id :: string
  ju_worker_organization_id :: string
  ju_session_id :: string
  ju_attempt :: i64
  ju_state :: string
  ju_progress :: "f32 option"
  ju_prompt_id :: "string option"
  ju_error :: "string option"
  ju_last_event :: i64
  ju_now :: i64

record IdempotencyInsert =
  ii_organization_id :: string
  ii_actor_kind :: string
  ii_actor_id :: string
  ii_endpoint :: string
  ii_key :: string
  ii_request_hash :: string
  ii_job_id :: string

datatype CommitJobResult = JobCreated | JobExisting string

definition INITIAL_DISPATCH_DELAY_MS :: i64 where
  "INITIAL_DISPATCH_DELAY_MS = 5000"

definition new_job_row :: "JobUpsert \<Rightarrow> StoredJob" where
  "new_job_row i =
     \<lparr>j_organization_id = ju_organization_id i, j_id = ju_id i, j_actor_id = ju_actor_id i,
      j_actor_kind = ju_actor_kind i, j_actor_user_id = ju_actor_user_id i,
      j_workflow_id = ju_workflow_id i, j_workflow_version = ju_workflow_version i,
      j_parameters_json = ju_parameters_json i,
      j_input_artifact_ids_json = ju_input_artifact_ids_json i,
      j_output_artifact_ids_json = ju_output_artifact_ids_json i,
      j_worker_id = Some (ju_worker_id i), j_worker_organization_id = Some (ju_worker_organization_id i),
      j_session_id = Some (ju_session_id i), j_attempt = ju_attempt i, j_state = ju_state i,
      j_progress = ju_progress i, j_prompt_id = ju_prompt_id i, j_error = ju_error i,
      j_last_event = ju_last_event i, j_created_at = ju_now i, j_updated_at = ju_now i,
      j_batch_id = None\<rparr>"

definition new_outbox_row :: "i64 \<Rightarrow> dispatch_outbox_row" where
  "new_outbox_row available_at =
     \<lparr>ob_status = ''pending'', ob_attempts = 0, ob_available_at = available_at, ob_claimed_at = None,
      ob_last_error = None\<rparr>"

definition create_job :: "JobUpsert \<Rightarrow> Db \<Rightarrow> Db \<times> (StoreError, unit) result" where
  "create_job i db =
     (let k = (ju_organization_id i, ju_id i) in
      if hm_contains (db_jobs db) k then (db, Err Database)
      else
        let db1 = db\<lparr>db_jobs := hm_insert k (new_job_row i) (db_jobs db)\<rparr>;
            ok = (ju_organization_id i, ju_id i, ju_attempt i)
        in (if hm_contains (db_dispatch_outbox db1) ok then db1
            else db1\<lparr>db_dispatch_outbox := hm_insert ok
                   (new_outbox_row (i64_saturating_add (ju_now i) INITIAL_DISPATCH_DELAY_MS))
                   (db_dispatch_outbox db1)\<rparr>, Ok ()))"

definition idempotency_key ::
  "IdempotencyInsert \<Rightarrow> string \<times> string \<times> string \<times> string \<times> string" where
  "idempotency_key ii =
     (ii_organization_id ii, ii_actor_kind ii, ii_actor_id ii, ii_endpoint ii, ii_key ii)"

text \<open>The read that resolves a retried submission: \<open>None\<close> when the key is new.\<close>

definition resolve_idempotency ::
  "IdempotencyInsert option \<Rightarrow> Db \<Rightarrow> (StoreError, CommitJobResult) result option" where
  "resolve_idempotency idem db =
     (case idem of
        None \<Rightarrow> None
      | Some ii \<Rightarrow>
          (case hm_get (db_idempotency db) (idempotency_key ii) of
             None \<Rightarrow> None
           | Some existing \<Rightarrow>
               if im_request_hash existing \<noteq> ii_request_hash ii
               then Some (Err (SConflict ''idempotency key was used for a different request''))
               else Some (Ok (JobExisting (im_job_id existing)))))"

text \<open>\<open>UPDATE artifacts SET job_id .. RETURNING id\<close>: each claimable row once.\<close>

definition claimable_artifact :: "string \<Rightarrow> string list \<Rightarrow> key2 \<times> StoredArtifact \<Rightarrow> bool" where
  "claimable_artifact org ids = (\<lambda>(k, a).
     fst k = org \<and> snd k \<in> set ids \<and> a_state a = ''ready'' \<and> a_job_id a = None)"

definition claim_artifacts ::
  "string \<Rightarrow> string \<Rightarrow> string list \<Rightarrow> i64 \<Rightarrow> Db \<Rightarrow> Db \<times> string list" where
  "claim_artifacts org job ids now db =
     (db\<lparr>db_artifacts :=
           map (\<lambda>(k, a). (k, if claimable_artifact org ids (k, a)
                             then a\<lparr>a_job_id := Some job, a_updated_at := now\<rparr> else a)) (db_artifacts db)\<rparr>,
      map (\<lambda>(k, a). snd k) (filter (claimable_artifact org ids) (db_artifacts db)))"

definition commit_new_job ::
  "json_codec \<Rightarrow> JobUpsert \<Rightarrow> string list \<Rightarrow> IdempotencyInsert option \<Rightarrow> DeviceUseAdmission option \<Rightarrow> Db
   \<Rightarrow> Db \<times> (StoreError, CommitJobResult) result" where
  "commit_new_job J i input_artifact_ids idem admission db =
     (case resolve_idempotency idem db of
        Some r \<Rightarrow> (db, r)
      | None \<Rightarrow>
     (case hm_get (db_quota_policies db) (ju_organization_id i) of
        None \<Rightarrow> (db, Err (SNotFound ''quota policy''))
      | Some quota \<Rightarrow>
     (case hm_get (db_quota_usage db) (ju_organization_id i) of
        None \<Rightarrow> (db, Err Database)
      | Some usage \<Rightarrow>
     (case (case admission of None \<Rightarrow> Ok () | Some a \<Rightarrow> enforce_device_use_policy_tx J a db) of
        Err e \<Rightarrow> (db, Err e)
      | Ok _ \<Rightarrow>
          let period_jobs = period_jobs_now (ju_now i) quota usage in
          if qu_active_jobs usage \<ge> qp_max_concurrent_jobs quota \<or> period_jobs \<ge> qp_max_jobs_per_period quota
          then (db, Err (SQuotaExceeded ''jobs''))
          else
            let (db1, claimed) =
                  (if input_artifact_ids \<noteq> []
                   then claim_artifacts (ju_organization_id i) (ju_id i) input_artifact_ids (ju_now i) db
                   else (db, []))
            in if input_artifact_ids \<noteq> [] \<and> length claimed \<noteq> length input_artifact_ids
               then (db, case find (\<lambda>x. x \<notin> set claimed) input_artifact_ids of
                           None \<Rightarrow> Err (SConflict ''input artifact ids must be unique'')
                         | Some unclaimed \<Rightarrow>
                             Err (SConflict (''input artifact '' @ unclaimed @
                               '' is not ready or was claimed concurrently'')))
               else
                 let k = (ju_organization_id i, ju_id i);
                     ok = (ju_organization_id i, ju_id i, ju_attempt i)
                 in if hm_contains (db_jobs db1) k \<or> hm_contains (db_dispatch_outbox db1) ok
                    then (db, Err Database)
                    else
                      let db2 = db1\<lparr>
                            db_jobs := hm_insert k (new_job_row i) (db_jobs db1),
                            db_quota_usage := update_key (ju_organization_id i)
                              (charge_job (ju_now i) period_jobs) (db_quota_usage db1),
                            db_dispatch_outbox := hm_insert ok
                              (new_outbox_row (i64_saturating_add (ju_now i) INITIAL_DISPATCH_DELAY_MS))
                              (db_dispatch_outbox db1)\<rparr>;
                          db3 = (case idem of
                                   None \<Rightarrow> db2
                                 | Some ii \<Rightarrow>
                                     db2\<lparr>db_idempotency := hm_insert (idempotency_key ii)
                                       \<lparr>im_request_hash = ii_request_hash ii, im_job_id = ju_id i\<rparr>
                                       (db_idempotency db2)\<rparr>)
                      in (db3, Ok JobCreated)))))"

definition db_job :: "string \<Rightarrow> string \<Rightarrow> Db \<Rightarrow> StoredJob option" where
  "db_job org job db = hm_get (db_jobs db) (org, job)"

definition jobs_for_org :: "string \<Rightarrow> Db \<Rightarrow> StoredJob list" where
  "jobs_for_org org db =
     rev (sort_key j_created_at (filter (\<lambda>j. j_organization_id j = org) (hm_values (db_jobs db))))"

definition terminal_recovery_jobs_for_worker :: "string \<Rightarrow> string \<Rightarrow> string list \<Rightarrow> Db \<Rightarrow> string list" where
  "terminal_recovery_jobs_for_worker worg wid ids db =
     (if ids = [] then []
      else sort (remdups (map j_id
        (filter (\<lambda>j. j_worker_organization_id j = Some worg \<and> j_worker_id j = Some wid \<and>
                     j_id j \<in> set ids \<and> terminal_state (j_state j)) (hm_values (db_jobs db))))))"

definition jobs_page :: "string \<Rightarrow> i64 \<Rightarrow> (i64 \<times> string) option \<Rightarrow> Db \<Rightarrow> StoredJob list" where
  "jobs_page org limit after db =
     (let rows = filter (\<lambda>j. j_organization_id j = org \<and>
                    (case after of None \<Rightarrow> True | Some cursor \<Rightarrow> (j_created_at j, j_id j) < cursor))
                  (hm_values (db_jobs db))
      in take (nat (max limit 1)) (rev (sort_key (\<lambda>j. (j_created_at j, j_id j)) rows)))"

definition unfinished_jobs :: "Db \<Rightarrow> StoredJob list" where
  "unfinished_jobs db =
     sort_key j_created_at (filter (\<lambda>j. \<not> terminal_state (j_state j)) (hm_values (db_jobs db)))"

definition events_for_unfinished_jobs :: "Db \<Rightarrow> StoredJobEvent list" where
  "events_for_unfinished_jobs db =
     sort_key (\<lambda>e. (e_job_id e, e_sequence e))
       (filter (\<lambda>e. case hm_get (db_jobs db) (e_organization_id e, e_job_id e) of
                      None \<Rightarrow> False | Some j \<Rightarrow> \<not> terminal_state (j_state j)) (hm_values (db_job_events db)))"

definition pending_artifacts :: "Db \<Rightarrow> StoredArtifact list" where
  "pending_artifacts db =
     sort_key a_created_at (filter (\<lambda>a. a_state a = ''pending_upload'') (hm_values (db_artifacts db)))"

definition rebind_job_session ::
  "string \<Rightarrow> string \<Rightarrow> i64 \<Rightarrow> string \<Rightarrow> string \<Rightarrow> i64 \<Rightarrow> Db \<Rightarrow> Db \<times> bool" where
  "rebind_job_session org job attempt expected_session_id new_session_id now db =
     (let (jobs, updated) = update_where (org, job)
            (\<lambda>j. j_attempt j = attempt \<and> \<not> terminal_state (j_state j) \<and>
                 j_session_id j \<in> {Some expected_session_id, Some new_session_id})
            (\<lambda>j. j\<lparr>j_session_id := Some new_session_id, j_updated_at := max (j_updated_at j) now\<rparr>)
            (db_jobs db)
      in (db\<lparr>db_jobs := jobs\<rparr>, updated))"

text \<open>
  The \<open>jsonb\<close> update of the output list: append the id unless it is there. Text that is
  not a JSON array of strings makes the statement fail.
\<close>

definition append_output_id :: "json_codec \<Rightarrow> string \<Rightarrow> string \<Rightarrow> string option" where
  "append_output_id J artifact_id text =
     (case ids_dec J text of
        None \<Rightarrow> None
      | Some ids \<Rightarrow> Some (if artifact_id \<in> set ids then text else ids_enc J (ids @ [artifact_id])))"

definition append_job_output_artifact ::
  "json_codec \<Rightarrow> string \<Rightarrow> string \<Rightarrow> i64 \<Rightarrow> string \<Rightarrow> string \<Rightarrow> i64 \<Rightarrow> Db \<Rightarrow> Db \<times> (StoreError, bool) result" where
  "append_job_output_artifact J org job attempt artifact_id session_id now db =
     (case hm_get (db_jobs db) (org, job) of
        None \<Rightarrow> (db, Ok False)
      | Some j \<Rightarrow>
          if j_attempt j = attempt \<and> j_session_id j = Some session_id
          then (case append_output_id J artifact_id (j_output_artifact_ids_json j) of
                  None \<Rightarrow> (db, Err Database)
                | Some text \<Rightarrow>
                    (db\<lparr>db_jobs := hm_insert (org, job)
                        (j\<lparr>j_output_artifact_ids_json := text, j_updated_at := max (j_updated_at j) now\<rparr>)
                        (db_jobs db)\<rparr>, Ok True))
          else (db, Ok False))"

record ConditionalJobUpdate =
  cu_organization_id :: string
  cu_id :: string
  cu_attempt :: i64
  cu_expected_state :: string
  cu_expected_last_event :: i64
  cu_state :: "string option"
  cu_error :: "string option"
  cu_now :: i64

definition update_job_if_current :: "ConditionalJobUpdate \<Rightarrow> Db \<Rightarrow> Db \<times> bool" where
  "update_job_if_current u db =
     (let (jobs, updated) = update_where (cu_organization_id u, cu_id u)
            (\<lambda>j. j_attempt j = cu_attempt u \<and> j_state j = cu_expected_state u \<and>
                 j_last_event j = cu_expected_last_event u)
            (\<lambda>j. j\<lparr>j_state := (case cu_state u of None \<Rightarrow> j_state j | Some s \<Rightarrow> s), j_error := cu_error u,
                    j_updated_at := max (j_updated_at j) (cu_now u)\<rparr>)
            (db_jobs db);
          db1 = db\<lparr>db_jobs := jobs\<rparr>
      in (if updated \<and> (case cu_state u of None \<Rightarrow> False | Some s \<Rightarrow> terminal_state s)
          then release_job_for_terminal_tx (cu_organization_id u) (cu_id u) (cu_now u) db1 else db1,
          updated))"

record EventInsert =
  ei_organization_id :: string
  ei_job_id :: string
  ei_attempt :: i64
  ei_sequence :: i64
  ei_kind :: string
  ei_progress :: "f32 option"
  ei_prompt_id :: "string option"
  ei_message :: string
  ei_unix_ms :: i64
  ei_now :: i64

record JobEventUpdate =
  eu_session_id :: string
  eu_expected_session_id :: string
  eu_expected_state :: string
  eu_expected_last_event :: i64
  eu_state :: string
  eu_error :: "string option"

definition new_event_row :: "EventInsert \<Rightarrow> StoredJobEvent" where
  "new_event_row i =
     \<lparr>e_organization_id = ei_organization_id i, e_job_id = ei_job_id i, e_attempt = ei_attempt i,
      e_sequence = ei_sequence i, e_kind = ei_kind i, e_progress = ei_progress i,
      e_prompt_id = ei_prompt_id i, e_message = ei_message i, e_unix_ms = ei_unix_ms i\<rparr>"

definition event_key :: "EventInsert \<Rightarrow> string \<times> string \<times> i64 \<times> i64" where
  "event_key i = (ei_organization_id i, ei_job_id i, ei_attempt i, ei_sequence i)"

text \<open>
  \<open>INSERT .. ON CONFLICT DO UPDATE .. WHERE\<close> the payload is the same: \<open>None\<close> when the
  sequence was used with another payload.
\<close>

definition insert_event :: "EventInsert \<Rightarrow> Db \<Rightarrow> Db option" where
  "insert_event i db =
     (case hm_get (db_job_events db) (event_key i) of
        None \<Rightarrow> Some (db\<lparr>db_job_events := hm_insert (event_key i) (new_event_row i) (db_job_events db)\<rparr>)
      | Some e \<Rightarrow>
          if e_kind e = ei_kind i \<and> e_progress e = ei_progress i \<and> e_prompt_id e = ei_prompt_id i \<and>
             e_message e = ei_message i \<and> e_unix_ms e = ei_unix_ms i
          then Some db else None)"

definition coalesce :: "'a option \<Rightarrow> 'a option \<Rightarrow> 'a option" where
  "coalesce a b = (case a of None \<Rightarrow> b | Some x \<Rightarrow> Some x)"

definition store_apply_job_event ::
  "EventInsert \<Rightarrow> JobEventUpdate \<Rightarrow> Db \<Rightarrow> Db \<times> (StoreError, bool) result" where
  "store_apply_job_event i u db =
     (if \<not> hm_contains (db_jobs db) (ei_organization_id i, ei_job_id i) then (db, Err Database)
      else
        (case insert_event i db of
           None \<Rightarrow> (db, Err (SConflict ''job event sequence was reused with a different payload''))
         | Some db1 \<Rightarrow>
             let (jobs, updated) = update_where (ei_organization_id i, ei_job_id i)
                   (\<lambda>j. j_attempt j = ei_attempt i \<and> j_state j = eu_expected_state u \<and>
                        j_last_event j = eu_expected_last_event u \<and>
                        j_session_id j \<in> {Some (eu_expected_session_id u), Some (eu_session_id u)})
                   (\<lambda>j. j\<lparr>j_session_id := Some (eu_session_id u), j_state := eu_state u,
                           j_progress := coalesce (ei_progress i) (j_progress j),
                           j_prompt_id := coalesce (ei_prompt_id i) (j_prompt_id j),
                           j_error := eu_error u, j_last_event := max (j_last_event j) (ei_sequence i),
                           j_updated_at := max (j_updated_at j) (ei_now i)\<rparr>)
                   (db_jobs db1)
             in if \<not> updated then (db, Ok False)
                else
                  let db2 = db1\<lparr>db_jobs := jobs\<rparr>
                  in (if terminal_state (eu_state u)
                      then release_job_for_terminal_tx (ei_organization_id i) (ei_job_id i) (ei_now i) db2
                      else db2, Ok True)))"

definition events_for_job :: "string \<Rightarrow> string \<Rightarrow> Db \<Rightarrow> StoredJobEvent list" where
  "events_for_job org job db =
     sort_key e_sequence
       (filter (\<lambda>e. e_organization_id e = org \<and> e_job_id e = job) (hm_values (db_job_events db)))"

definition put_idempotency :: "IdempotencyInsert \<Rightarrow> Db \<Rightarrow> Db \<times> idempotency_row option" where
  "put_idempotency ii db =
     (case hm_get (db_idempotency db) (idempotency_key ii) of
        Some existing \<Rightarrow> (db, Some existing)
      | None \<Rightarrow>
          (db\<lparr>db_idempotency := hm_insert (idempotency_key ii)
              \<lparr>im_request_hash = ii_request_hash ii, im_job_id = ii_job_id ii\<rparr> (db_idempotency db)\<rparr>, None))"

subsection \<open>The dispatch outbox\<close>

definition mark_dispatch_delivered :: "i64 \<Rightarrow> string \<Rightarrow> string \<Rightarrow> i64 \<Rightarrow> Db \<Rightarrow> Db" where
  "mark_dispatch_delivered now org job attempt db =
     db\<lparr>db_dispatch_outbox := update_key (org, job, attempt)
        (\<lambda>r. r\<lparr>ob_status := ''delivered'', ob_claimed_at := Some now, ob_last_error := None\<rparr>)
        (db_dispatch_outbox db)\<rparr>"

definition dispatch_ready :: "i64 \<Rightarrow> dispatch_outbox_row \<Rightarrow> bool" where
  "dispatch_ready now r \<longleftrightarrow>
     (ob_status r = ''pending'' \<and> ob_available_at r \<le> now) \<or>
     (ob_status r = ''claimed'' \<and> (case ob_claimed_at r of None \<Rightarrow> False | Some t \<Rightarrow> t \<le> now - 30000))"

definition claim_dispatches ::
  "i64 \<Rightarrow> i64 \<Rightarrow> Db \<Rightarrow> Db \<times> (string \<times> string \<times> i64) list" where
  "claim_dispatches now limit db =
     (let candidates = map fst (take (nat (min 100 (max 1 limit)))
            (sort_key (\<lambda>(k, r). ob_available_at r)
              (filter (\<lambda>(k, r). dispatch_ready now r) (db_dispatch_outbox db))))
      in (db\<lparr>db_dispatch_outbox := map (\<lambda>(k, r).
              (k, if k \<in> set candidates then r\<lparr>ob_status := ''claimed'', ob_claimed_at := Some now\<rparr> else r))
              (db_dispatch_outbox db)\<rparr>,
          candidates))"

definition store_record_dispatch_error :: "i64 \<Rightarrow> string \<Rightarrow> string \<Rightarrow> i64 \<Rightarrow> string \<Rightarrow> Db \<Rightarrow> Db" where
  "store_record_dispatch_error now org job attempt error db =
     db\<lparr>db_dispatch_outbox := update_key (org, job, attempt)
        (\<lambda>r. r\<lparr>ob_status := ''pending'', ob_attempts := ob_attempts r + 1,
                ob_available_at := i64_saturating_add now 5000, ob_last_error := Some error\<rparr>)
        (db_dispatch_outbox db)\<rparr>"

subsection \<open>Artifacts\<close>

record ArtifactUpsert =
  af_organization_id :: string
  af_id :: string
  af_job_id :: "string option"
  af_name :: string
  af_content_type :: string
  af_size_bytes :: u64
  af_sha256 :: string
  af_state :: string
  af_object_key :: string
  af_now :: i64
  af_expires_at :: "i64 option"

text \<open>
  \<open>size_bytes as i64\<close> reinterprets the bits; the table refuses a negative size and an
  unknown state.
\<close>

definition create_artifact :: "ArtifactUpsert \<Rightarrow> Db \<Rightarrow> Db \<times> (StoreError, unit) result" where
  "create_artifact i db =
     (let k = (af_organization_id i, af_id i);
          size = sint (af_size_bytes i);
          created = (case hm_get (db_artifacts db) k of None \<Rightarrow> af_now i | Some a \<Rightarrow> a_created_at a)
      in if size < 0 \<or> af_state i \<notin> {''pending_upload'', ''ready''} then (db, Err Database)
         else (db\<lparr>db_artifacts := hm_insert k
                 \<lparr>a_organization_id = af_organization_id i, a_id = af_id i, a_job_id = af_job_id i,
                  a_name = af_name i, a_content_type = af_content_type i, a_size_bytes = size,
                  a_sha256 = af_sha256 i, a_state = af_state i, a_object_key = af_object_key i,
                  a_created_at = created, a_updated_at = af_now i, a_expires_at = af_expires_at i\<rparr>
                 (db_artifacts db)\<rparr>, Ok ()))"

definition upload_expired :: "i64 \<Rightarrow> StoredArtifact \<Rightarrow> bool" where
  "upload_expired now a \<longleftrightarrow>
     a_state a = ''pending_upload'' \<and> (case a_expires_at a of None \<Rightarrow> False | Some t \<Rightarrow> t \<le> now)"

definition reclaim_expired_uploads :: "i64 \<Rightarrow> i64 \<Rightarrow> Db \<Rightarrow> Db \<times> StoredArtifact list" where
  "reclaim_expired_uploads now limit db =
     (let expired = map snd (take (nat (max limit 1))
            (sort_key (\<lambda>(k, a). the (a_expires_at a))
              (filter (\<lambda>(k, a). upload_expired now a) (db_artifacts db))));
          gone = (\<lambda>k. k \<in> (\<lambda>a. (a_organization_id a, a_id a)) ` set expired);
          db1 = db\<lparr>db_artifacts := hm_retain (\<lambda>k a. \<not> gone k) (db_artifacts db)\<rparr>;
          db2 = foldl (\<lambda>d a. release_storage now (a_organization_id a) (a_size_bytes a) d) db1 expired
      in (db2\<lparr>db_upload_requests :=
            hm_retain (\<lambda>k r. \<not> gone (fst k, ur_artifact_id r)) (db_upload_requests db2)\<rparr>, expired))"

definition db_artifact :: "string \<Rightarrow> string \<Rightarrow> Db \<Rightarrow> StoredArtifact option" where
  "db_artifact org artifact_id db = hm_get (db_artifacts db) (org, artifact_id)"

definition artifacts_by_ids :: "string \<Rightarrow> string list \<Rightarrow> Db \<Rightarrow> StoredArtifact list" where
  "artifacts_by_ids org ids db =
     (if ids = [] then []
      else filter (\<lambda>a. a_organization_id a = org \<and> a_id a \<in> set ids) (hm_values (db_artifacts db)))"

definition set_artifact_state :: "string \<Rightarrow> string \<Rightarrow> string \<Rightarrow> i64 \<Rightarrow> Db \<Rightarrow> Db \<times> bool" where
  "set_artifact_state org artifact_id st now db =
     (let (t, updated) = update_where (org, artifact_id) (\<lambda>_. True)
            (\<lambda>a. a\<lparr>a_state := st, a_updated_at := now,
                    a_expires_at := (if st = ''pending_upload'' then a_expires_at a else None)\<rparr>)
            (db_artifacts db)
      in (db\<lparr>db_artifacts := t\<rparr>, updated))"

definition bind_artifact_job :: "string \<Rightarrow> string \<Rightarrow> string \<Rightarrow> i64 \<Rightarrow> Db \<Rightarrow> Db \<times> bool" where
  "bind_artifact_job org artifact_id job now db =
     (let (t, updated) = update_where (org, artifact_id) (\<lambda>a. a_job_id a = None)
            (\<lambda>a. a\<lparr>a_job_id := Some job, a_updated_at := now\<rparr>) (db_artifacts db)
      in (db\<lparr>db_artifacts := t\<rparr>, updated))"

definition upsert_upload_request ::
  "string \<Rightarrow> string \<Rightarrow> string \<Rightarrow> string option \<Rightarrow> i64 option \<Rightarrow> i64 \<Rightarrow> Db \<Rightarrow> Db \<times> (StoreError, unit) result" where
  "upsert_upload_request org request_id artifact_id job attempt now db =
     (if \<not> hm_contains (db_artifacts db) (org, artifact_id) then (db, Err Database)
      else if hm_contains (db_upload_requests db) (org, request_id) then (db, Ok ())
      else (db\<lparr>db_upload_requests := hm_insert (org, request_id)
              \<lparr>ur_artifact_id = artifact_id, ur_job_id = job, ur_attempt = attempt, ur_created_at = now,
               ur_completed_at = None\<rparr> (db_upload_requests db)\<rparr>, Ok ()))"

definition upload_request_artifact :: "string \<Rightarrow> string \<Rightarrow> Db \<Rightarrow> string option" where
  "upload_request_artifact org request_id db =
     map_option ur_artifact_id (hm_get (db_upload_requests db) (org, request_id))"

record CompleteJobOutputUpload =
  co_organization_id :: string
  co_request_id :: string
  co_artifact_id :: string
  co_job_id :: string
  co_attempt :: i64
  co_session_id :: string
  co_now :: i64

definition complete_job_output_upload ::
  "json_codec \<Rightarrow> CompleteJobOutputUpload \<Rightarrow> Db \<Rightarrow> Db \<times> (StoreError, bool) result" where
  "complete_job_output_upload J i db =
     (case hm_get (db_artifacts db) (co_organization_id i, co_artifact_id i) of
        None \<Rightarrow> (db, Ok False)
      | Some a \<Rightarrow>
          if a_job_id a \<noteq> Some (co_job_id i) \<or> a_state a \<notin> {''pending_upload'', ''ready''}
          then (db, Ok False)
          else
            (case hm_get (db_upload_requests db) (co_organization_id i, co_request_id i) of
               None \<Rightarrow> (db, Ok False)
             | Some r \<Rightarrow>
                 if ur_artifact_id r \<noteq> co_artifact_id i \<or> ur_job_id r \<noteq> Some (co_job_id i) \<or>
                    ur_attempt r \<noteq> Some (co_attempt i)
                 then (db, Ok False)
                 else
                   (case append_job_output_artifact J (co_organization_id i) (co_job_id i) (co_attempt i)
                           (co_artifact_id i) (co_session_id i) (co_now i) db of
                      (_, Err e) \<Rightarrow> (db, Err e)
                    | (db1, Ok updated) \<Rightarrow>
                        if \<not> updated then (db, Ok False)
                        else
                          (db1\<lparr>db_artifacts := update_key (co_organization_id i, co_artifact_id i)
                               (\<lambda>a. a\<lparr>a_state := ''ready'', a_updated_at := max (a_updated_at a) (co_now i),
                                       a_expires_at := None\<rparr>) (db_artifacts db1),
                             db_upload_requests := update_key (co_organization_id i, co_request_id i)
                               (\<lambda>r. r\<lparr>ur_completed_at := coalesce (ur_completed_at r) (Some (co_now i))\<rparr>)
                               (db_upload_requests db1)\<rparr>, Ok True))))"

subsection \<open>Batches and the dispatch queue\<close>

record BatchInsert =
  bi_batch_id :: string
  bi_organization_id :: string
  bi_actor_id :: string
  bi_actor_kind :: string
  bi_actor_user_id :: "string option"
  bi_workflow_id :: string
  bi_workflow_version :: string
  bi_device_organization_id :: "string option"
  bi_device_id :: "string option"
  bi_total_jobs :: i64

record BatchChildJob =
  bc_job_id :: string
  bc_batch_index :: i64
  bc_parameters_json :: string
  bc_input_artifact_ids :: "string list"

datatype CommitBatchResult = BatchCreated | BatchExisting string

definition child_job_row :: "json_codec \<Rightarrow> BatchInsert \<Rightarrow> i64 \<Rightarrow> BatchChildJob \<Rightarrow> StoredJob" where
  "child_job_row J b now c =
     \<lparr>j_organization_id = bi_organization_id b, j_id = bc_job_id c, j_actor_id = bi_actor_id b,
      j_actor_kind = bi_actor_kind b, j_actor_user_id = bi_actor_user_id b,
      j_workflow_id = bi_workflow_id b, j_workflow_version = bi_workflow_version b,
      j_parameters_json = bc_parameters_json c,
      j_input_artifact_ids_json = ids_enc J (bc_input_artifact_ids c),
      j_output_artifact_ids_json = ''[]'', j_worker_id = None, j_worker_organization_id = None,
      j_session_id = None, j_attempt = 1, j_state = ''queued'', j_progress = None, j_prompt_id = None,
      j_error = None, j_last_event = 0, j_created_at = now, j_updated_at = now,
      j_batch_id = Some (bi_batch_id b)\<rparr>"

text \<open>One iteration of the loop over the children: \<open>None\<close> for a key violation.\<close>

definition insert_child :: "json_codec \<Rightarrow> BatchInsert \<Rightarrow> i64 \<Rightarrow> BatchChildJob \<Rightarrow> Db \<Rightarrow> Db option" where
  "insert_child J b now c db =
     (let k = (bi_organization_id b, bc_job_id c);
          links = map (\<lambda>(index, artifact_id). ((bi_organization_id b, bc_job_id c, int index), artifact_id))
                    (enumerate 0 (bc_input_artifact_ids c))
      in if hm_contains (db_jobs db) k \<or> hm_contains (db_job_dispatch_queue db) k \<or>
            (\<exists>l\<in>set links. hm_contains (db_job_input_artifacts db) (fst l) \<or>
               \<not> hm_contains (db_artifacts db) (bi_organization_id b, snd l))
         then None
         else Some (db\<lparr>db_jobs := hm_insert k (child_job_row J b now c) (db_jobs db),
                       db_job_input_artifacts :=
                         foldl (\<lambda>m (lk, a). hm_insert lk a m) (db_job_input_artifacts db) links,
                       db_job_dispatch_queue := hm_insert k
                         \<lparr>dq_available_at = now, dq_priority = 0, dq_lease_owner = None,
                          dq_lease_until = None, dq_created_at = now\<rparr> (db_job_dispatch_queue db)\<rparr>))"

fun insert_children :: "json_codec \<Rightarrow> BatchInsert \<Rightarrow> i64 \<Rightarrow> BatchChildJob list \<Rightarrow> Db \<Rightarrow> Db option" where
  "insert_children J b now [] db = Some db"
| "insert_children J b now (c # cs) db =
     (case insert_child J b now c db of None \<Rightarrow> None | Some db' \<Rightarrow> insert_children J b now cs db')"

definition resolve_batch_idempotency ::
  "IdempotencyInsert option \<Rightarrow> Db \<Rightarrow> (StoreError, CommitBatchResult) result option" where
  "resolve_batch_idempotency idem db =
     (case idem of
        None \<Rightarrow> None
      | Some ii \<Rightarrow>
          (case hm_get (db_batch_idempotency db) (idempotency_key ii) of
             None \<Rightarrow> None
           | Some existing \<Rightarrow>
               if im_request_hash existing \<noteq> ii_request_hash ii
               then Some (Err (SConflict ''idempotency key conflict: request hash mismatch''))
               else Some (Ok (BatchExisting (im_job_id existing)))))"

definition commit_new_batch ::
  "json_codec \<Rightarrow> BatchInsert \<Rightarrow> BatchChildJob list \<Rightarrow> string list \<Rightarrow> IdempotencyInsert option
   \<Rightarrow> DeviceUseAdmission option \<Rightarrow> i64 \<Rightarrow> Db \<Rightarrow> Db \<times> (StoreError, CommitBatchResult) result" where
  "commit_new_batch J b children shared_ids idem admission now db =
     (case resolve_batch_idempotency idem db of
        Some r \<Rightarrow> (db, r)
      | None \<Rightarrow>
     (case (hm_get (db_quota_policies db) (bi_organization_id b), hm_get (db_quota_usage db) (bi_organization_id b)) of
        (Some policy, Some usage) \<Rightarrow>
     (case (case admission of None \<Rightarrow> Ok () | Some a \<Rightarrow> enforce_device_use_policy_tx J a db) of
        Err e \<Rightarrow> (db, Err e)
      | Ok _ \<Rightarrow>
          let period_expired =
                i64_saturating_sub now (qu_period_started_at usage) \<ge> i64_saturating_mul (qp_period_seconds policy) 1000;
              effective_period_jobs = (if period_expired then 0 else qu_period_jobs usage);
              n = bi_total_jobs b
          in if n > qp_max_batch_jobs policy then (db, Err (SQuotaExceeded ''batch_limit''))
             else if qu_active_jobs usage + n > qp_max_concurrent_jobs policy
             then (db, Err (SQuotaExceeded ''inflight_limit''))
             else if effective_period_jobs + n > qp_max_jobs_per_period policy
             then (db, Err (SQuotaExceeded ''period_limit''))
             else
               (case find (\<lambda>a. case hm_get (db_artifacts db) (bi_organization_id b, a) of
                                 None \<Rightarrow> True | Some r \<Rightarrow> a_state r \<noteq> ''ready'') shared_ids of
                  Some a \<Rightarrow>
                    (db, Err (SConflict (''shared input artifact '' @ a @ '' is not ready or not found'')))
                | None \<Rightarrow>
                    if \<exists>k\<in>fst ` set (db_job_batches db). snd k = bi_batch_id b then (db, Err Database)
                    else
                      let db1 = db\<lparr>db_job_batches := hm_insert (bi_organization_id b, bi_batch_id b)
                            \<lparr>b_device_organization_id = bi_device_organization_id b,
                             b_device_id = bi_device_id b\<rparr> (db_job_batches db)\<rparr>
                      in (case insert_children J b now children db1 of
                            None \<Rightarrow> (db, Err Database)
                          | Some db2 \<Rightarrow>
                              let db3 = db2\<lparr>db_quota_usage := update_key (bi_organization_id b)
                                    (\<lambda>u. u\<lparr>qu_active_jobs := qu_active_jobs u + n,
                                            qu_period_jobs := effective_period_jobs + n,
                                            qu_period_started_at :=
                                              (if period_expired then now else qu_period_started_at usage),
                                            qu_updated_at := now\<rparr>) (db_quota_usage db2)\<rparr>;
                                  db4 = (case idem of
                                           None \<Rightarrow> db3
                                         | Some ii \<Rightarrow>
                                             db3\<lparr>db_batch_idempotency := hm_insert (idempotency_key ii)
                                               \<lparr>im_request_hash = ii_request_hash ii, im_job_id = ii_job_id ii\<rparr>
                                               (db_batch_idempotency db3)\<rparr>)
                              in (db4, Ok BatchCreated))))
      | _ \<Rightarrow> (db, Err Database)))"

definition queue_claimable :: "i64 \<Rightarrow> dispatch_queue_row \<Rightarrow> bool" where
  "queue_claimable now q \<longleftrightarrow>
     dq_available_at q \<le> now \<and> (case dq_lease_until q of None \<Rightarrow> True | Some t \<Rightarrow> t < now)"

definition queue_order :: "key2 \<times> dispatch_queue_row \<Rightarrow> i64 \<times> i64 \<times> i64 \<times> string \<times> string" where
  "queue_order = (\<lambda>(k, q). (dq_available_at q, - dq_priority q, dq_created_at q, fst k, snd k))"

definition claim_dispatch_queue_job :: "string \<Rightarrow> i64 \<Rightarrow> i64 \<Rightarrow> Db \<Rightarrow> Db \<times> key2 option" where
  "claim_dispatch_queue_job lease_owner lease_seconds now db =
     (let lease_until = i64_saturating_add now (i64_saturating_mul (max lease_seconds 0) 1000)
      in (case sort_key queue_order (filter (\<lambda>(k, q). queue_claimable now q) (db_job_dispatch_queue db)) of
            [] \<Rightarrow> (db, None)
          | (k, q) # _ \<Rightarrow>
              (db\<lparr>db_job_dispatch_queue := hm_insert k
                  (q\<lparr>dq_lease_owner := Some lease_owner, dq_lease_until := Some lease_until\<rparr>)
                  (db_job_dispatch_queue db)\<rparr>, Some k)))"

definition remove_from_dispatch_queue :: "string \<Rightarrow> string \<Rightarrow> Db \<Rightarrow> Db" where
  "remove_from_dispatch_queue org job db =
     db\<lparr>db_job_dispatch_queue := hm_remove (org, job) (db_job_dispatch_queue db)\<rparr>"

definition dispatch_queue_depth :: "string \<Rightarrow> Db \<Rightarrow> nat" where
  "dispatch_queue_depth org db = length (filter (\<lambda>(k, q). fst k = org) (db_job_dispatch_queue db))"

definition bind_queued_job ::
  "string \<Rightarrow> string \<Rightarrow> string \<Rightarrow> string \<Rightarrow> string \<Rightarrow> i64 \<Rightarrow> Db \<Rightarrow> Db \<times> bool" where
  "bind_queued_job org job worg wid sid now db =
     (case hm_get (db_jobs db) (org, job) of
        None \<Rightarrow> (db, False)
      | Some j \<Rightarrow>
          if j_state j \<noteq> ''queued'' then (db, False)
          else
            let ok = (org, job, j_attempt j)
            in (db\<lparr>db_jobs := hm_insert (org, job)
                    (j\<lparr>j_worker_id := Some wid, j_worker_organization_id := Some worg,
                       j_session_id := Some sid, j_state := ''received'', j_updated_at := now\<rparr>) (db_jobs db),
                  db_dispatch_outbox :=
                    (if hm_contains (db_dispatch_outbox db) ok then db_dispatch_outbox db
                     else hm_insert ok (new_outbox_row now) (db_dispatch_outbox db)),
                  db_job_dispatch_queue := hm_remove (org, job) (db_job_dispatch_queue db)\<rparr>, True))"

definition cancel_queued_job :: "string \<Rightarrow> string \<Rightarrow> i64 \<Rightarrow> Db \<Rightarrow> Db \<times> bool" where
  "cancel_queued_job org job now db =
     (let (jobs, updated) = update_where (org, job) (\<lambda>j. j_state j = ''queued'')
            (\<lambda>j. j\<lparr>j_state := ''cancelled'', j_error := Some ''cancelled before worker dispatch'',
                    j_updated_at := now\<rparr>) (db_jobs db)
      in if \<not> updated then (db, False)
         else (release_job_for_terminal_tx org job now
                 (db\<lparr>db_jobs := jobs,
                     db_job_dispatch_queue := hm_remove (org, job) (db_job_dispatch_queue db)\<rparr>), True))"

definition queued_job_info ::
  "string \<Rightarrow> string \<Rightarrow> Db \<Rightarrow> (string \<times> string \<times> string \<times> string \<times> i64) option" where
  "queued_job_info org job db =
     (case hm_get (db_jobs db) (org, job) of
        None \<Rightarrow> None
      | Some j \<Rightarrow>
          if j_state j \<noteq> ''queued'' then None
          else
            (case j_batch_id j of
               None \<Rightarrow> None
             | Some b \<Rightarrow>
                 (case hm_get (db_job_batches db) (org, b) of
                    None \<Rightarrow> None
                  | Some batch \<Rightarrow>
                      (case (b_device_organization_id batch, b_device_id batch) of
                         (Some dorg, Some dev) \<Rightarrow>
                           Some (j_workflow_id j, j_workflow_version j, dorg, dev, j_attempt j)
                       | _ \<Rightarrow> None))))"

end
