(* ===== verification/Hub_State.thy ===== *)
theory Hub_State
  imports Hub_Sessions Hub_Cache Hub_Store
begin

text \<open>
  The shared state of the Hub, \<open>apps/nagisalake-hub/src/hub/state.rs\<close>: the views of jobs
  and artifacts, the resident cache \<open>HubData\<close>, the read-through caches, the quota gate,
  the names persisted for states and events, and the hydration of the cache at start.
  The conversions of \<open>hub/jobs.rs\<close> from stored rows stand here too. The object store
  is a parameter: what its calls answer is given by functions of their arguments.
\<close>

subsection \<open>Views\<close>

datatype ArtifactState = PendingUpload | Ready

record ArtifactView =
  av_id :: string
  av_job_id :: "string option"
  av_name :: string
  av_content_type :: string
  av_size_bytes :: u64
  av_sha256 :: string
  av_state :: ArtifactState

record ArtifactRecord =
  arec_organization_id :: string
  arec_view :: ArtifactView
  arec_object_key :: string

record JobEventView =
  jev_sequence :: u64
  jev_kind :: JobEventKind
  jev_progress :: "f32 option"
  jev_message :: string
  jev_unix_ms :: i64

record JobView =
  jv_id :: string
  jv_workflow_id :: string
  jv_workflow_version :: string
  jv_parameters :: json
  jv_input_artifact_ids :: "string list"
  jv_output_artifact_ids :: "string list"
  jv_worker_id :: string
  jv_session_id :: string
  jv_state :: JobState
  jv_progress :: "f32 option"
  jv_prompt_id :: "string option"
  jv_error :: "string option"
  jv_events :: "JobEventView list"
  jv_created_at_unix_ms :: i64
  jv_updated_at_unix_ms :: i64

record JobSummary =
  js_id :: string
  js_workflow_id :: string
  js_workflow_version :: string
  js_parameters :: json
  js_input_artifact_ids :: "string list"
  js_output_artifact_ids :: "string list"
  js_worker_id :: string
  js_session_id :: string
  js_state :: JobState
  js_progress :: "f32 option"
  js_prompt_id :: "string option"
  js_error :: "string option"
  js_created_at_unix_ms :: i64
  js_updated_at_unix_ms :: i64

definition summary_of_view :: "JobView \<Rightarrow> JobSummary" where
  "summary_of_view v =
     \<lparr>js_id = jv_id v, js_workflow_id = jv_workflow_id v, js_workflow_version = jv_workflow_version v,
      js_parameters = jv_parameters v, js_input_artifact_ids = jv_input_artifact_ids v,
      js_output_artifact_ids = jv_output_artifact_ids v, js_worker_id = jv_worker_id v,
      js_session_id = jv_session_id v, js_state = jv_state v, js_progress = jv_progress v,
      js_prompt_id = jv_prompt_id v, js_error = jv_error v,
      js_created_at_unix_ms = jv_created_at_unix_ms v, js_updated_at_unix_ms = jv_updated_at_unix_ms v\<rparr>"

text \<open>The Hub's \<open>JobRecord\<close> (the worker's record of the same name is in the journal).\<close>

record HubJobRecord =
  hj_organization_id :: string
  hj_actor_id :: string
  hj_actor_kind :: string
  hj_actor_user_id :: "string option"
  hj_worker_organization_id :: string
  hj_view :: JobView
  hj_dispatch :: DispatchJob
  hj_last_event :: u64

subsection \<open>Resident data\<close>

record HubData =
  hd_artifacts :: "(string, ArtifactRecord) hash_map"
  hd_pending_uploads :: "(string, string) hash_map"
  hd_jobs :: "(string, HubJobRecord) hash_map"
  hd_idempotency :: "(string, string) hash_map"

definition HubData_default :: HubData where
  "HubData_default = \<lparr>hd_artifacts = [], hd_pending_uploads = [], hd_jobs = [], hd_idempotency = []\<rparr>"

definition remove_organization :: "string \<Rightarrow> HubData \<Rightarrow> HubData" where
  "remove_organization org d =
     d\<lparr>hd_artifacts := hm_retain (\<lambda>_ a. arec_organization_id a \<noteq> org) (hd_artifacts d),
       hd_pending_uploads := hm_retain (\<lambda>k _. \<not> prefix (org @ [CHR 0x00]) k) (hd_pending_uploads d),
       hd_jobs := hm_retain (\<lambda>_ j. hj_organization_id j \<noteq> org) (hd_jobs d),
       hd_idempotency := hm_retain (\<lambda>k _. \<not> prefix (org @ [CHR 0x00]) k) (hd_idempotency d)\<rparr>"

subsection \<open>Read-through caches\<close>

record DeviceAccess =
  dv_device_organization_id :: string
  dv_device_id :: string
  dv_access_kind :: string
  dv_allowed_workflows :: "DeviceWorkflowRule list"
  dv_max_concurrent_jobs :: "i64 option"
  dv_grant_expires_at :: "i64 option"

record ReadCache =
  rc_terminal_jobs :: "JobView TtlCache"
  rc_ready_artifacts :: "ArtifactRecord TtlCache"
  rc_device_access :: "DeviceAccess list TtlCache"

definition READ_CACHE_TTL :: nat where "READ_CACHE_TTL = 10000000000"
definition READ_CACHE_CAPACITY :: nat where "READ_CACHE_CAPACITY = 1024"
definition DEVICE_ACCESS_CACHE_TTL :: nat where "DEVICE_ACCESS_CACHE_TTL = 2000000000"
definition DEVICE_ACCESS_CACHE_CAPACITY :: nat where "DEVICE_ACCESS_CACHE_CAPACITY = 2048"

definition ReadCache_default :: ReadCache where
  "ReadCache_default =
     \<lparr>rc_terminal_jobs = cache_new READ_CACHE_TTL READ_CACHE_CAPACITY,
      rc_ready_artifacts = cache_new READ_CACHE_TTL READ_CACHE_CAPACITY,
      rc_device_access = cache_new DEVICE_ACCESS_CACHE_TTL DEVICE_ACCESS_CACHE_CAPACITY\<rparr>"

definition read_cache_key :: "string \<Rightarrow> string \<Rightarrow> string" where
  "read_cache_key organization_id resource_id = join_key (CHR 0x00) organization_id resource_id"

definition cached_job :: "nat \<Rightarrow> string \<Rightarrow> string \<Rightarrow> ReadCache \<Rightarrow> ReadCache \<times> JobView option" where
  "cached_job now org job c =
     (let (t, r) = cache_get now (read_cache_key org job) (rc_terminal_jobs c)
      in (c\<lparr>rc_terminal_jobs := t\<rparr>, r))"

definition cache_job :: "nat \<Rightarrow> string \<Rightarrow> string \<Rightarrow> JobView \<Rightarrow> ReadCache \<Rightarrow> ReadCache" where
  "cache_job now org job v c =
     c\<lparr>rc_terminal_jobs := cache_insert now (read_cache_key org job) v (rc_terminal_jobs c)\<rparr>"

definition cached_artifact :: "nat \<Rightarrow> string \<Rightarrow> string \<Rightarrow> ReadCache \<Rightarrow> ReadCache \<times> ArtifactRecord option" where
  "cached_artifact now org artifact c =
     (let (t, r) = cache_get now (read_cache_key org artifact) (rc_ready_artifacts c)
      in (c\<lparr>rc_ready_artifacts := t\<rparr>, r))"

definition cache_artifact :: "nat \<Rightarrow> string \<Rightarrow> string \<Rightarrow> ArtifactRecord \<Rightarrow> ReadCache \<Rightarrow> ReadCache" where
  "cache_artifact now org artifact v c =
     c\<lparr>rc_ready_artifacts := cache_insert now (read_cache_key org artifact) v (rc_ready_artifacts c)\<rparr>"

definition invalidate_cached_artifact :: "string \<Rightarrow> string \<Rightarrow> ReadCache \<Rightarrow> ReadCache" where
  "invalidate_cached_artifact org artifact c =
     c\<lparr>rc_ready_artifacts := cache_remove (read_cache_key org artifact) (rc_ready_artifacts c)\<rparr>"

definition cached_device_access :: "nat \<Rightarrow> string \<Rightarrow> string \<Rightarrow> ReadCache \<Rightarrow> ReadCache \<times> DeviceAccess list option" where
  "cached_device_access now org user c =
     (let (t, r) = cache_get now (read_cache_key org user) (rc_device_access c)
      in (c\<lparr>rc_device_access := t\<rparr>, r))"

definition cache_device_access :: "nat \<Rightarrow> string \<Rightarrow> string \<Rightarrow> DeviceAccess list \<Rightarrow> ReadCache \<Rightarrow> ReadCache" where
  "cache_device_access now org user v c =
     c\<lparr>rc_device_access := cache_insert now (read_cache_key org user) v (rc_device_access c)\<rparr>"

definition remove_device_access_for_user :: "string \<Rightarrow> ReadCache \<Rightarrow> ReadCache" where
  "remove_device_access_for_user user c =
     c\<lparr>rc_device_access := cache_retain (\<lambda>k. \<not> suffix (CHR 0x00 # user) k) (rc_device_access c)\<rparr>"

definition remove_device_access_for_organization :: "string \<Rightarrow> ReadCache \<Rightarrow> ReadCache" where
  "remove_device_access_for_organization org c =
     c\<lparr>rc_device_access := cache_retain (\<lambda>k. \<not> prefix (org @ [CHR 0x00]) k) (rc_device_access c)\<rparr>"

subsection \<open>The quota gate\<close>

text \<open>
  An \<open>Arc<Mutex<()>>\<close> is an identity; the clones that callers hold, waiting for the
  mutex or owning it, are listed with their organization. The strong count of a lock
  is above one exactly when such a clone exists beside the map's own.
\<close>

type_synonym lock_id = nat

record QuotaGate =
  ql_entries :: "(string, lock_id) hash_map"
  ql_sweep_at :: nat
  ql_clones :: "(string \<times> lock_id) list"
  ql_next :: lock_id

definition QUOTA_GATE_MIN_SWEEP :: nat where "QUOTA_GATE_MIN_SWEEP = 64"

definition QuotaGate_default :: QuotaGate where
  "QuotaGate_default = \<lparr>ql_entries = [], ql_sweep_at = 0, ql_clones = [], ql_next = 0\<rparr>"

definition quota_sweep :: "QuotaGate \<Rightarrow> QuotaGate" where
  "quota_sweep g =
     (if length (ql_entries g) \<ge> max (ql_sweep_at g) QUOTA_GATE_MIN_SWEEP
      then let entries = hm_retain (\<lambda>_ l. l \<in> snd ` set (ql_clones g)) (ql_entries g)
           in g\<lparr>ql_entries := entries, ql_sweep_at := min usize_max (length entries * 2)\<rparr>
      else g)"

definition quota_acquire :: "string \<Rightarrow> QuotaGate \<Rightarrow> QuotaGate \<times> lock_id" where
  "quota_acquire org g0 =
     (let g = quota_sweep g0
      in (case hm_get (ql_entries g) org of
            Some l \<Rightarrow> (g\<lparr>ql_clones := (org, l) # ql_clones g\<rparr>, l)
          | None \<Rightarrow>
              (g\<lparr>ql_entries := hm_insert org (ql_next g) (ql_entries g),
                 ql_clones := (org, ql_next g) # ql_clones g, ql_next := ql_next g + 1\<rparr>, ql_next g)))"

text \<open>Dropping the guard, or giving up the wait, drops the clone.\<close>

definition quota_drop :: "string \<Rightarrow> lock_id \<Rightarrow> QuotaGate \<Rightarrow> QuotaGate" where
  "quota_drop org l g = g\<lparr>ql_clones := remove1 (org, l) (ql_clones g)\<rparr>"

subsection \<open>Persisted names\<close>

definition parse_artifact_state :: "string \<Rightarrow> (HubError, ArtifactState) result" where
  "parse_artifact_state v =
     (if v = ''pending_upload'' then Ok PendingUpload
      else if v = ''ready'' then Ok Ready
      else Err (InvalidConfig (''unknown persisted artifact state '' @ v)))"

definition parse_job_state :: "string \<Rightarrow> (HubError, JobState) result" where
  "parse_job_state v =
     (if v = ''queued'' then Ok Queued
      else if v = ''received'' then Ok Received
      else if v = ''accepted'' then Ok Accepted
      else if v = ''running'' then Ok Running
      else if v = ''uploading'' then Ok Uploading
      else if v = ''completed'' then Ok Completed
      else if v = ''failed'' then Ok Failed
      else if v = ''cancelled'' then Ok Cancelled
      else Err (InvalidConfig (''unknown persisted job state '' @ v)))"

definition parse_event_kind :: "string \<Rightarrow> (HubError, JobEventKind) result" where
  "parse_event_kind v =
     (if v = ''accepted'' then Ok EvAccepted
      else if v = ''running'' then Ok EvRunning
      else if v = ''progress'' then Ok EvProgress
      else if v = ''uploading'' then Ok EvUploading
      else if v = ''completed'' then Ok EvCompleted
      else if v = ''failed'' then Ok EvFailed
      else if v = ''cancelled'' then Ok EvCancelled
      else Err (InvalidConfig (''unknown persisted event kind '' @ v)))"

fun artifact_state_name :: "ArtifactState \<Rightarrow> string" where
  "artifact_state_name PendingUpload = ''pending_upload''"
| "artifact_state_name Ready = ''ready''"

fun job_state_name :: "JobState \<Rightarrow> string" where
  "job_state_name Queued = ''queued''"
| "job_state_name Received = ''received''"
| "job_state_name Accepted = ''accepted''"
| "job_state_name Running = ''running''"
| "job_state_name Uploading = ''uploading''"
| "job_state_name Completed = ''completed''"
| "job_state_name Failed = ''failed''"
| "job_state_name Cancelled = ''cancelled''"

fun event_kind_name :: "JobEventKind \<Rightarrow> string" where
  "event_kind_name EvAccepted = ''accepted''"
| "event_kind_name EvRunning = ''running''"
| "event_kind_name EvProgress = ''progress''"
| "event_kind_name EvUploading = ''uploading''"
| "event_kind_name EvCompleted = ''completed''"
| "event_kind_name EvFailed = ''failed''"
| "event_kind_name EvCancelled = ''cancelled''"

fun map_store_error :: "StoreError \<Rightarrow> HubError" where
  "map_store_error (SNotFound v) = HubNotFound v"
| "map_store_error (SConflict v) = Conflict v"
| "map_store_error (SQuotaExceeded v) = QuotaExceeded v"
| "map_store_error _ = Store"

lemma parse_job_state_name [simp]: "parse_job_state (job_state_name s) = Ok s"
  by (cases s) (simp_all add: parse_job_state_def)

lemma parse_event_kind_name [simp]: "parse_event_kind (event_kind_name k) = Ok k"
  by (cases k) (simp_all add: parse_event_kind_def)

lemma parse_artifact_state_name [simp]: "parse_artifact_state (artifact_state_name s) = Ok s"
  by (cases s) (simp_all add: parse_artifact_state_def)

lemma parse_job_state_Ok: "parse_job_state v = Ok s \<Longrightarrow> v = job_state_name s"
  by (auto simp: parse_job_state_def split: if_splits)

lemma job_state_name_inject [simp]: "job_state_name s = job_state_name t \<longleftrightarrow> s = t"
  by (metis parse_job_state_name sum.inject(2))

lemma terminal_state_name [simp]: "terminal_state (job_state_name s) = is_terminal s"
  by (cases s) (simp_all add: terminal_state_def is_terminal_def)

subsection \<open>From rows to views\<close>

definition u64_try_from :: "i64 \<Rightarrow> u64 option" where
  "u64_try_from x = (if x < 0 then None else Some (word_of_int x))"

definition u32_try_from :: "i64 \<Rightarrow> u32 option" where
  "u32_try_from x = (if x < 0 \<or> x \<ge> 2 ^ 32 then None else Some (word_of_int x))"

definition unwrap_str :: "string option \<Rightarrow> string" where
  "unwrap_str x = (case x of None \<Rightarrow> [] | Some s \<Rightarrow> s)"

definition event_view :: "StoredJobEvent \<Rightarrow> (HubError, JobEventView) result" where
  "event_view e =
     (case u64_try_from (e_sequence e) of
        None \<Rightarrow> Err (InvalidConfig ''persisted event sequence is invalid'')
      | Some n \<Rightarrow>
          and_then (parse_event_kind (e_kind e)) (\<lambda>k.
            Ok \<lparr>jev_sequence = n, jev_kind = k, jev_progress = e_progress e, jev_message = e_message e,
                jev_unix_ms = e_unix_ms e\<rparr>))"

definition job_view_from_stored ::
  "json_codec \<Rightarrow> StoredJob \<Rightarrow> StoredJobEvent list \<Rightarrow> (HubError, JobView) result" where
  "job_view_from_stored J job events =
     and_then (ok_or (InvalidConfig ''invalid persisted job inputs'') (ids_dec J (j_input_artifact_ids_json job))) (\<lambda>inputs.
     and_then (ok_or (InvalidConfig ''invalid persisted job outputs'') (ids_dec J (j_output_artifact_ids_json job))) (\<lambda>outputs.
     and_then (ok_or (InvalidConfig ''invalid persisted job parameters'') (params_dec J (j_parameters_json job))) (\<lambda>parameters.
     and_then (collect_results (map event_view (filter (\<lambda>e. e_job_id e = j_id job) events))) (\<lambda>evs.
     and_then (parse_job_state (j_state job)) (\<lambda>st.
       Ok \<lparr>jv_id = j_id job, jv_workflow_id = j_workflow_id job, jv_workflow_version = j_workflow_version job,
           jv_parameters = parameters, jv_input_artifact_ids = inputs, jv_output_artifact_ids = outputs,
           jv_worker_id = unwrap_str (j_worker_id job), jv_session_id = unwrap_str (j_session_id job),
           jv_state = st, jv_progress = j_progress job, jv_prompt_id = j_prompt_id job, jv_error = j_error job,
           jv_events = evs, jv_created_at_unix_ms = j_created_at job, jv_updated_at_unix_ms = j_updated_at job\<rparr>)))))"

definition summary_of_stored :: "json_codec \<Rightarrow> StoredJob \<Rightarrow> JobSummary" where
  "summary_of_stored J job =
     \<lparr>js_id = j_id job, js_workflow_id = j_workflow_id job, js_workflow_version = j_workflow_version job,
      js_parameters = (case params_dec J (j_parameters_json job) of None \<Rightarrow> Null | Some v \<Rightarrow> v),
      js_input_artifact_ids = (case ids_dec J (j_input_artifact_ids_json job) of None \<Rightarrow> [] | Some v \<Rightarrow> v),
      js_output_artifact_ids = (case ids_dec J (j_output_artifact_ids_json job) of None \<Rightarrow> [] | Some v \<Rightarrow> v),
      js_worker_id = unwrap_str (j_worker_id job), js_session_id = unwrap_str (j_session_id job),
      js_state = (case parse_job_state (j_state job) of Err _ \<Rightarrow> Queued | Ok s \<Rightarrow> s),
      js_progress = j_progress job, js_prompt_id = j_prompt_id job, js_error = j_error job,
      js_created_at_unix_ms = j_created_at job, js_updated_at_unix_ms = j_updated_at job\<rparr>"

definition artifact_from_stored :: "string \<Rightarrow> StoredArtifact \<Rightarrow> (HubError, ArtifactRecord) result" where
  "artifact_from_stored negative_size a =
     (case u64_try_from (a_size_bytes a) of
        None \<Rightarrow> Err (InvalidConfig negative_size)
      | Some size_bytes \<Rightarrow>
          and_then (parse_artifact_state (a_state a)) (\<lambda>st.
            Ok \<lparr>arec_organization_id = a_organization_id a,
                arec_view = \<lparr>av_id = a_id a, av_job_id = a_job_id a, av_name = a_name a,
                   av_content_type = a_content_type a, av_size_bytes = size_bytes, av_sha256 = a_sha256 a,
                   av_state = st\<rparr>,
                arec_object_key = a_object_key a\<rparr>))"

subsection \<open>Hydration\<close>

fun hydrate_artifacts :: "StoredArtifact list \<Rightarrow> HubData \<Rightarrow> (HubError, HubData) result" where
  "hydrate_artifacts [] d = Ok d"
| "hydrate_artifacts (a # as) d =
     and_then (artifact_from_stored (''artifact '' @ a_id a @ '' has a negative persisted size'') a) (\<lambda>r.
       hydrate_artifacts as (d\<lparr>hd_artifacts := hm_insert (a_id a) r (hd_artifacts d)\<rparr>))"

definition worker_bound :: "StoredJob \<Rightarrow> bool" where
  "worker_bound job \<longleftrightarrow>
     unwrap_str (j_worker_organization_id job) \<noteq> [] \<and> unwrap_str (j_worker_id job) \<noteq> [] \<and>
     unwrap_str (j_session_id job) \<noteq> []"

text \<open>
  One job of the loop. The events of all unfinished jobs are indexed by organization
  and job beforehand; \<open>events\<close> is what the index holds for this job, in order, of which
  the last 256 are kept. The command id is a fresh UUID.
\<close>

definition hydrate_job ::
  "json_codec \<Rightarrow> string \<Rightarrow> StoredJobEvent list \<Rightarrow> StoredJob \<Rightarrow> (HubError, HubJobRecord) result" where
  "hydrate_job J command_id events job =
     and_then (parse_job_state (j_state job)) (\<lambda>st.
     if st \<noteq> Queued \<and> \<not> worker_bound job
     then Err (InvalidConfig (''persisted '' @ j_state job @ '' job '' @ j_id job @ '' has no complete worker binding''))
     else
     and_then (ok_or (InvalidConfig ''invalid persisted job inputs'') (ids_dec J (j_input_artifact_ids_json job))) (\<lambda>inputs.
     and_then (ok_or (InvalidConfig ''invalid persisted job outputs'') (ids_dec J (j_output_artifact_ids_json job))) (\<lambda>outputs.
     and_then (ok_or (InvalidConfig ''invalid persisted job parameters'') (params_dec J (j_parameters_json job))) (\<lambda>parameters.
     and_then (ok_or (InvalidConfig ''persisted job attempt is invalid'') (u32_try_from (j_attempt job))) (\<lambda>attempt.
     and_then (collect_results (map event_view (drop (length events - 256) events))) (\<lambda>evs.
       Ok \<lparr>hj_organization_id = j_organization_id job, hj_actor_id = j_actor_id job,
           hj_actor_kind = j_actor_kind job, hj_actor_user_id = j_actor_user_id job,
           hj_worker_organization_id = unwrap_str (j_worker_organization_id job),
           hj_view = \<lparr>jv_id = j_id job, jv_workflow_id = j_workflow_id job,
              jv_workflow_version = j_workflow_version job, jv_parameters = parameters,
              jv_input_artifact_ids = inputs, jv_output_artifact_ids = outputs,
              jv_worker_id = unwrap_str (j_worker_id job), jv_session_id = unwrap_str (j_session_id job),
              jv_state = st, jv_progress = j_progress job, jv_prompt_id = j_prompt_id job,
              jv_error = j_error job, jv_events = evs, jv_created_at_unix_ms = j_created_at job,
              jv_updated_at_unix_ms = j_updated_at job\<rparr>,
           hj_dispatch = \<lparr>dj_command_id = command_id, dj_job_id = j_id job, dj_attempt = attempt,
              dj_workflow_id = j_workflow_id job, dj_workflow_version = j_workflow_version job,
              dj_parameters = parameters, dj_inputs = []\<rparr>,
           hj_last_event = (case u64_try_from (j_last_event job) of None \<Rightarrow> 0 | Some n \<Rightarrow> n)\<rparr>))))))"

fun hydrate_jobs ::
  "json_codec \<Rightarrow> (string \<Rightarrow> string) \<Rightarrow> StoredJobEvent list \<Rightarrow> StoredJob list \<Rightarrow> HubData \<Rightarrow> (HubError, HubData) result" where
  "hydrate_jobs J uuid events [] d = Ok d"
| "hydrate_jobs J uuid events (job # jobs) d =
     and_then (hydrate_job J (uuid (j_id job))
         (filter (\<lambda>e. e_organization_id e = j_organization_id job \<and> e_job_id e = j_id job) events) job) (\<lambda>r.
       hydrate_jobs J uuid events jobs (d\<lparr>hd_jobs := hm_insert (j_id job) r (hd_jobs d)\<rparr>))"

definition hydrate_hub_data :: "json_codec \<Rightarrow> (string \<Rightarrow> string) \<Rightarrow> Db \<Rightarrow> (HubError, HubData) result" where
  "hydrate_hub_data J uuid db =
     and_then (hydrate_artifacts (pending_artifacts db) HubData_default) (\<lambda>d1.
     and_then (hydrate_jobs J uuid (events_for_unfinished_jobs db) (unfinished_jobs db) d1) (\<lambda>d2.
       Ok (d2\<lparr>hd_pending_uploads :=
         foldl (\<lambda>m (k, r). hm_insert (pending_upload_key (fst k) (snd k)) (ur_artifact_id r) m)
           (hd_pending_uploads d2) (db_upload_requests db)\<rparr>)))"

subsection \<open>The application state\<close>

text \<open>
  \<open>AppState\<close> without its configuration: a Hub without a control plane has no store.
  The object store is a parameter of the handlers that call it.
\<close>

record AppState =
  st_sessions :: SessionRegistry
  st_data :: HubData
  st_read_cache :: ReadCache
  st_store :: "Db option"

record ObjectMetadata =
  om_size_bytes :: u64
  om_content_type :: "string option"
  om_sha256 :: "string option"

record object_store =
  os_presign_ttl_ms :: nat
  os_presign_get :: "string \<Rightarrow> (string, PresignedRequest) result"
  os_presign_put :: "string \<Rightarrow> string \<Rightarrow> u64 \<Rightarrow> string \<Rightarrow> (string, PresignedRequest) result"
  os_head :: "string \<Rightarrow> (string, ObjectMetadata) result"

definition object_metadata_matches :: "ObjectMetadata \<Rightarrow> ArtifactView \<Rightarrow> bool" where
  "object_metadata_matches m a \<longleftrightarrow>
     om_size_bytes m = av_size_bytes a \<and> om_content_type m = Some (av_content_type a) \<and>
     (case om_sha256 m of None \<Rightarrow> False | Some v \<Rightarrow> eq_ignore_ascii_case v (av_sha256 a))"

definition state_reserve_storage :: "i64 \<Rightarrow> string \<Rightarrow> i64 \<Rightarrow> AppState \<Rightarrow> AppState \<times> (StoreError, unit) result" where
  "state_reserve_storage now org bytes A =
     (case st_store A of
        None \<Rightarrow> (A, Err (SNotFound ''quota policy''))
      | Some db \<Rightarrow> let (db', r) = reserve_storage now org bytes db in (A\<lparr>st_store := Some db'\<rparr>, r))"

definition state_release_storage :: "i64 \<Rightarrow> string \<Rightarrow> i64 \<Rightarrow> AppState \<Rightarrow> AppState \<times> (StoreError, unit) result" where
  "state_release_storage now org bytes A =
     (case st_store A of
        None \<Rightarrow> (A, Err (SNotFound ''quota policy''))
      | Some db \<Rightarrow> (A\<lparr>st_store := Some (release_storage now org bytes db)\<rparr>, Ok ()))"

definition PENDING_UPLOAD_TTL_FACTOR :: nat where "PENDING_UPLOAD_TTL_FACTOR = 2"

text \<open>
  \<open>now + ttl\<close> is an unchecked \<open>i64\<close> addition; it is modelled for the clock readings and
  lifetimes for which it does not overflow.
\<close>

definition persist_artifact ::
  "object_store \<Rightarrow> i64 \<Rightarrow> ArtifactRecord \<Rightarrow> AppState \<Rightarrow> AppState \<times> (HubError, unit) result" where
  "persist_artifact os now a A =
     (case st_store A of
        None \<Rightarrow> (A, Ok ())
      | Some db \<Rightarrow>
          let v = arec_view a;
              expires_at = (case av_state v of
                 PendingUpload \<Rightarrow> Some (now + min i64_max (int (os_presign_ttl_ms os * PENDING_UPLOAD_TTL_FACTOR)))
               | Ready \<Rightarrow> None);
              (db', r) = create_artifact
                \<lparr>af_organization_id = arec_organization_id a, af_id = av_id v, af_job_id = av_job_id v,
                 af_name = av_name v, af_content_type = av_content_type v, af_size_bytes = av_size_bytes v,
                 af_sha256 = av_sha256 v, af_state = artifact_state_name (av_state v),
                 af_object_key = arec_object_key a, af_now = now, af_expires_at = expires_at\<rparr> db
          in (A\<lparr>st_store := Some db'\<rparr>, case r of Err _ \<Rightarrow> Err Store | Ok _ \<Rightarrow> Ok ()))"

definition job_upsert_of :: "string \<Rightarrow> string \<Rightarrow> string \<Rightarrow> HubJobRecord \<Rightarrow> JobUpsert" where
  "job_upsert_of parameters input_ids output_ids job =
     (let v = hj_view job in
      \<lparr>ju_organization_id = hj_organization_id job, ju_id = jv_id v, ju_actor_id = hj_actor_id job,
       ju_actor_kind = hj_actor_kind job, ju_actor_user_id = hj_actor_user_id job,
       ju_workflow_id = jv_workflow_id v, ju_workflow_version = jv_workflow_version v,
       ju_parameters_json = parameters, ju_input_artifact_ids_json = input_ids,
       ju_output_artifact_ids_json = output_ids, ju_worker_id = jv_worker_id v,
       ju_worker_organization_id = hj_worker_organization_id job, ju_session_id = jv_session_id v,
       ju_attempt = uint (dj_attempt (hj_dispatch job)), ju_state = job_state_name (jv_state v),
       ju_progress = jv_progress v, ju_prompt_id = jv_prompt_id v, ju_error = jv_error v,
       ju_last_event = u64_to_i64_or_max (hj_last_event job), ju_now = jv_created_at_unix_ms v\<rparr>)"

definition commit_job_record ::
  "json_codec \<Rightarrow> HubJobRecord \<Rightarrow> string \<Rightarrow> string option \<Rightarrow> string \<Rightarrow> DeviceUseAdmission option \<Rightarrow> AppState
   \<Rightarrow> AppState \<times> (HubError, CommitJobResult) result" where
  "commit_job_record J job endpoint key request_hash admission A =
     (case st_store A of
        None \<Rightarrow> (A, Ok JobCreated)
      | Some db \<Rightarrow>
          (case params_enc J (jv_parameters (hj_view job)) of
             None \<Rightarrow> (A, Err (InvalidRequest ''serialization failed''))
           | Some parameters \<Rightarrow>
               let v = hj_view job;
                   i = job_upsert_of parameters (ids_enc J (jv_input_artifact_ids v))
                         (ids_enc J (jv_output_artifact_ids v)) job;
                   idem = map_option (\<lambda>k.
                     \<lparr>ii_organization_id = hj_organization_id job, ii_actor_kind = hj_actor_kind job,
                      ii_actor_id = hj_actor_id job, ii_endpoint = endpoint, ii_key = k,
                      ii_request_hash = request_hash, ii_job_id = jv_id v\<rparr>) key;
                   (db', r) = commit_new_job J i (jv_input_artifact_ids v) idem admission db
               in (A\<lparr>st_store := Some db'\<rparr>, case r of Err e \<Rightarrow> Err (map_store_error e) | Ok x \<Rightarrow> Ok x)))"

text \<open>\<open>artifact_record\<close> of \<open>hub/api.rs\<close>: the resident data, then the read cache, then the store.\<close>

definition artifact_record_stored ::
  "nat \<Rightarrow> string \<Rightarrow> string \<Rightarrow> AppState \<Rightarrow> AppState \<times> (HubError, ArtifactRecord) result" where
  "artifact_record_stored inst org artifact_id A =
     (let (c, hit) = cached_artifact inst org artifact_id (st_read_cache A);
          A1 = A\<lparr>st_read_cache := c\<rparr>
      in (case hit of
            Some a \<Rightarrow> (A1, Ok a)
          | None \<Rightarrow>
              (case st_store A1 of
                 None \<Rightarrow> (A1, Err (HubNotFound ''artifact''))
               | Some db \<Rightarrow>
                   (case db_artifact org artifact_id db of
                      None \<Rightarrow> (A1, Err (HubNotFound ''artifact''))
                    | Some a \<Rightarrow>
                        (case artifact_from_stored ''persisted artifact size is negative'' a of
                           Err e \<Rightarrow> (A1, Err e)
                         | Ok r \<Rightarrow>
                             (if av_state (arec_view r) = Ready
                              then A1\<lparr>st_read_cache := cache_artifact inst org artifact_id r c\<rparr> else A1,
                              Ok r))))))"

definition artifact_record ::
  "nat \<Rightarrow> string \<Rightarrow> string \<Rightarrow> AppState \<Rightarrow> AppState \<times> (HubError, ArtifactRecord) result" where
  "artifact_record inst org artifact_id A =
     (case hm_get (hd_artifacts (st_data A)) artifact_id of
        Some a \<Rightarrow>
          if arec_organization_id a = org then (A, Ok a)
          else artifact_record_stored inst org artifact_id A
      | None \<Rightarrow> artifact_record_stored inst org artifact_id A)"

subsection \<open>Mutual exclusion of the quota gate\<close>

datatype gate_op = GAcquire string | GDrop string lock_id

fun gate_step :: "gate_op \<Rightarrow> QuotaGate \<Rightarrow> QuotaGate" where
  "gate_step (GAcquire org) g = fst (quota_acquire org g)"
| "gate_step (GDrop org l) g = quota_drop org l g"

definition gate_run :: "gate_op list \<Rightarrow> QuotaGate \<Rightarrow> QuotaGate" where
  "gate_run ops g = fold gate_step ops g"

definition gate_inv :: "QuotaGate \<Rightarrow> bool" where
  "gate_inv g \<longleftrightarrow>
     hm_wf (ql_entries g) \<and> (\<forall>org l. (org, l) \<in> set (ql_clones g) \<longrightarrow> hm_get (ql_entries g) org = Some l)"

lemma quota_sweep_inv:
  assumes "gate_inv g"
  shows "gate_inv (quota_sweep g)" "ql_clones (quota_sweep g) = ql_clones g"
  using assms
  by (auto simp: gate_inv_def quota_sweep_def Let_def hm_get_retain rev_image_eqI split: option.splits)

lemma gate_step_inv: "gate_inv g \<Longrightarrow> gate_inv (gate_step op g)"
proof (cases op)
  case (GAcquire org)
  assume "gate_inv g"
  from quota_sweep_inv[OF this] show ?thesis
    by (auto simp: GAcquire quota_acquire_def Let_def gate_inv_def split: option.splits)
next
  case (GDrop org l)
  assume "gate_inv g"
  then show ?thesis
    by (auto simp: GDrop quota_drop_def gate_inv_def dest: notin_set_remove1)
qed

lemma gate_run_inv: "gate_inv g \<Longrightarrow> gate_inv (gate_run ops g)"
  unfolding gate_run_def by (induction ops arbitrary: g) (auto intro: gate_step_inv)

text \<open>
  The quota gate serializes the mutations of an organization. Whatever acquisitions
  and releases ran, sweeps included, all callers that hold or wait for the lock of one
  organization at the same time hold the same lock.
\<close>
theorem quota_gate_exclusive:
  assumes "(org, l) \<in> set (ql_clones (gate_run ops QuotaGate_default))"
    and "(org, l') \<in> set (ql_clones (gate_run ops QuotaGate_default))"
  shows "l = l' \<and> hm_get (ql_entries (gate_run ops QuotaGate_default)) org = Some l"
proof -
  have "gate_inv (gate_run ops QuotaGate_default)"
    by (rule gate_run_inv) (simp add: gate_inv_def QuotaGate_default_def)
  with assms have "hm_get (ql_entries (gate_run ops QuotaGate_default)) org = Some l"
    "hm_get (ql_entries (gate_run ops QuotaGate_default)) org = Some l'"
    unfolding gate_inv_def by blast+
  then show ?thesis by simp
qed

theorem quota_gate_exclusive_witness:
  "hm_get (ql_entries (gate_run [GAcquire ''a'', GAcquire ''b'', GAcquire ''a''] QuotaGate_default)) ''a'' = Some 0"
proof -
  have "(''a'', 0) \<in> set (ql_clones (gate_run [GAcquire ''a'', GAcquire ''b'', GAcquire ''a''] QuotaGate_default))"
    by code_simp
  from quota_gate_exclusive[OF this this] show ?thesis by simp
qed

end
