(* ===== verification/Hub_Worker.thy ===== *)
theory Hub_Worker
  imports Hub_State
begin

text \<open>
  The worker connection handlers of \<open>apps/nagisalake-hub/src/hub/worker.rs\<close>: the
  application of job events to the durable store and the resident cache, the adoption
  of jobs by a new session, and the upload of outputs. A handler is one definition; the
  part of the event handler that runs after the store call, under the session guard
  and the data lock, is \<open>finish_job_event\<close>, so that it can be run in a later state. The
  clock, the UUIDs and the object store are parameters.
\<close>

subsection \<open>Job events\<close>

definition MAX_RESIDENT_JOB_EVENTS :: nat where "MAX_RESIDENT_JOB_EVENTS = 256"

definition can_recover_forward_transition :: "JobState \<Rightarrow> JobState \<Rightarrow> bool" where
  "can_recover_forward_transition current next \<longleftrightarrow>
     (case current of
        Received \<Rightarrow> next \<in> {Running, Uploading, Completed}
      | Accepted \<Rightarrow> next \<in> {Uploading, Completed}
      | Running \<Rightarrow> next = Completed
      | _ \<Rightarrow> False)"

fun event_next_state :: "JobEventKind \<Rightarrow> JobState" where
  "event_next_state EvAccepted = Accepted"
| "event_next_state EvRunning = Running"
| "event_next_state EvProgress = Running"
| "event_next_state EvUploading = Uploading"
| "event_next_state EvCompleted = Completed"
| "event_next_state EvFailed = Failed"
| "event_next_state EvCancelled = Cancelled"

definition forget_job :: "string \<Rightarrow> HubData \<Rightarrow> HubData" where
  "forget_job job_id d =
     d\<lparr>hd_jobs := hm_remove job_id (hd_jobs d),
       hd_artifacts := hm_retain (\<lambda>_ a. av_job_id (arec_view a) \<noteq> Some job_id) (hd_artifacts d)\<rparr>"

definition merge_adopted_job_session ::
  "string \<Rightarrow> string \<Rightarrow> string \<Rightarrow> u32 \<Rightarrow> string \<Rightarrow> i64 \<Rightarrow> AppState \<Rightarrow> AppState" where
  "merge_adopted_job_session org wid job_id expected_attempt session_id now A =
     (if \<not> guard_current_session (st_sessions A) org wid session_id then A
      else
        (case hm_get (hd_jobs (st_data A)) job_id of
           None \<Rightarrow> A
         | Some job \<Rightarrow>
             if dj_attempt (hj_dispatch job) \<noteq> expected_attempt \<or> is_terminal (jv_state (hj_view job)) then A
             else A\<lparr>st_data := (st_data A)\<lparr>hd_jobs := hm_insert job_id
                    (job\<lparr>hj_view := (hj_view job)\<lparr>jv_session_id := session_id,
                       jv_updated_at_unix_ms := max (jv_updated_at_unix_ms (hj_view job)) now\<rparr>\<rparr>)
                    (hd_jobs (st_data A))\<rparr>\<rparr>))"

text \<open>
  \<open>reconcile_persisted_job_event\<close>: what the store recorded of the job decides. The
  answer is whether the event may be acknowledged.
\<close>

definition adopt_durable :: "HubJobRecord \<Rightarrow> JobView \<Rightarrow> u64 \<Rightarrow> HubJobRecord" where
  "adopt_durable current durable persisted_last_event =
     (if hj_last_event current > persisted_last_event \<or>
         (hj_last_event current = persisted_last_event \<and>
          (jv_state (hj_view current) = jv_state durable \<or>
           (\<not> can_transition_to (jv_state (hj_view current)) (jv_state durable) \<and>
            \<not> can_recover_forward_transition (jv_state (hj_view current)) (jv_state durable))))
      then current
      else current\<lparr>hj_view := (hj_view current)\<lparr>jv_state := jv_state durable, jv_progress := jv_progress durable,
                     jv_prompt_id := jv_prompt_id durable, jv_error := jv_error durable,
                     jv_events := jv_events durable,
                     jv_updated_at_unix_ms := max (jv_updated_at_unix_ms (hj_view current)) (jv_updated_at_unix_ms durable)\<rparr>,
                   hj_last_event := persisted_last_event\<rparr>)"

definition reconcile_persisted_job_event ::
  "json_codec \<Rightarrow> i64 \<Rightarrow> string \<Rightarrow> string \<Rightarrow> u64 \<Rightarrow> Db \<Rightarrow> AppState \<Rightarrow> AppState \<times> (HubError, bool) result" where
  "reconcile_persisted_job_event J now org job_id sequence db A =
     (case db_job org job_id db of
        None \<Rightarrow> (A, Ok False)
      | Some stored \<Rightarrow>
     (case parse_job_state (j_state stored) of
        Err e \<Rightarrow> (A, Err e)
      | Ok persisted_state \<Rightarrow>
     (case u64_try_from (j_last_event stored) of
        None \<Rightarrow> (A, Err (InvalidConfig ''persisted job sequence is invalid''))
      | Some persisted_last_event \<Rightarrow>
          if is_terminal persisted_state
          then (A\<lparr>st_store := Some (release_job_for_terminal now org job_id db),
                  st_data := forget_job job_id (st_data A)\<rparr>, Ok True)
          else if persisted_last_event < sequence then (A, Ok False)
          else
            (case job_view_from_stored J stored (events_for_job org job_id db) of
               Err e \<Rightarrow> (A, Err e)
             | Ok durable_view \<Rightarrow>
                 (case hm_get (hd_jobs (st_data A)) job_id of
                    None \<Rightarrow> (A, Ok True)
                  | Some current \<Rightarrow>
                      (A\<lparr>st_data := (st_data A)\<lparr>hd_jobs := hm_insert job_id
                         (adopt_durable current durable_view persisted_last_event) (hd_jobs (st_data A))\<rparr>\<rparr>,
                       Ok True))))))"

definition event_error :: "JobEvent \<Rightarrow> string option" where
  "event_error ev =
     (if ev_kind ev \<in> {EvFailed, EvCancelled} \<and> ev_message ev \<noteq> [] then Some (ev_message ev) else None)"

definition resident_event :: "JobEvent \<Rightarrow> JobEventView" where
  "resident_event ev =
     \<lparr>jev_sequence = ev_sequence ev, jev_kind = ev_kind ev, jev_progress = ev_progress ev,
      jev_message = ev_message ev, jev_unix_ms = ev_unix_ms ev\<rparr>"

definition push_resident_event :: "JobEventView list \<Rightarrow> JobEventView \<Rightarrow> JobEventView list" where
  "push_resident_event evs e =
     (let evs' = evs @ [e] in drop (length evs' - MAX_RESIDENT_JOB_EVENTS) evs')"

definition event_insert_of :: "HubJobRecord \<Rightarrow> JobEvent \<Rightarrow> i64 \<Rightarrow> EventInsert" where
  "event_insert_of job ev now =
     \<lparr>ei_organization_id = hj_organization_id job, ei_job_id = ev_job_id ev, ei_attempt = uint (ev_attempt ev),
      ei_sequence = u64_to_i64_or_max (ev_sequence ev), ei_kind = event_kind_name (ev_kind ev),
      ei_progress = ev_progress ev, ei_prompt_id = ev_prompt_id ev, ei_message = ev_message ev,
      ei_unix_ms = ev_unix_ms ev, ei_now = now\<rparr>"

definition event_update_of :: "HubJobRecord \<Rightarrow> JobEvent \<Rightarrow> string \<Rightarrow> JobEventUpdate" where
  "event_update_of job ev session_id =
     \<lparr>eu_session_id = session_id, eu_expected_session_id = jv_session_id (hj_view job),
      eu_expected_state = job_state_name (jv_state (hj_view job)),
      eu_expected_last_event = u64_to_i64_or_max (hj_last_event job),
      eu_state = job_state_name (event_next_state (ev_kind ev)), eu_error = event_error ev\<rparr>"

text \<open>
  The end of the handler: the resident record takes over the event when it is still
  the snapshot the event was computed from; a terminal job leaves the memory.
\<close>

definition advance_resident ::
  "HubJobRecord \<Rightarrow> JobEvent \<Rightarrow> bool \<Rightarrow> bool \<Rightarrow> string \<Rightarrow> i64 \<Rightarrow> HubJobRecord \<Rightarrow> HubJobRecord" where
  "advance_resident snapshot ev append_event guarded session_id now current =
     (let v = hj_view current;
          sid = (if guarded \<and> jv_session_id v = jv_session_id (hj_view snapshot) then session_id else jv_session_id v);
          evs = (if append_event \<and> \<not> (\<exists>e\<in>set (jv_events v). jev_sequence e = ev_sequence ev)
                 then push_resident_event (jv_events v) (resident_event ev) else jv_events v)
      in current\<lparr>hj_view := v\<lparr>jv_session_id := sid, jv_state := event_next_state (ev_kind ev),
             jv_progress := coalesce (ev_progress ev) (jv_progress (hj_view snapshot)),
             jv_prompt_id := coalesce (ev_prompt_id ev) (jv_prompt_id (hj_view snapshot)),
             jv_error := event_error ev,
             jv_updated_at_unix_ms := max (jv_updated_at_unix_ms v) now, jv_events := evs\<rparr>,
           hj_last_event := (if append_event then ev_sequence ev else hj_last_event snapshot)\<rparr>)"

definition finish_job_event ::
  "string \<Rightarrow> string \<Rightarrow> string \<Rightarrow> HubJobRecord \<Rightarrow> JobEvent \<Rightarrow> bool \<Rightarrow> i64 \<Rightarrow> AppState \<Rightarrow> AppState" where
  "finish_job_event org wid session_id snapshot ev append_event now A =
     (case hm_get (hd_jobs (st_data A)) (ev_job_id ev) of
        None \<Rightarrow> A
      | Some current \<Rightarrow>
          if dj_attempt (hj_dispatch current) = ev_attempt ev \<and>
             jv_state (hj_view current) = jv_state (hj_view snapshot) \<and>
             hj_last_event current = hj_last_event snapshot
          then if is_terminal (event_next_state (ev_kind ev)) \<and> st_store A \<noteq> None
               then A\<lparr>st_data := forget_job (ev_job_id ev) (st_data A)\<rparr>
               else A\<lparr>st_data := (st_data A)\<lparr>hd_jobs := hm_insert (ev_job_id ev)
                      (advance_resident snapshot ev append_event
                         (guard_current_session (st_sessions A) org wid session_id) session_id now current)
                      (hd_jobs (st_data A))\<rparr>\<rparr>
          else A)"

text \<open>The decision of the handler on the snapshot: apply, and whether to append the event.\<close>

datatype event_plan = PlanReject HubError | PlanDuplicate | PlanApply bool

definition plan_job_event :: "HubJobRecord \<Rightarrow> JobEvent \<Rightarrow> event_plan" where
  "plan_job_event job ev =
     (let s = jv_state (hj_view job); next = event_next_state (ev_kind ev);
          forward = can_transition_to s next \<or> can_recover_forward_transition s next
      in if ev_sequence ev \<le> hj_last_event job
         then (if s \<noteq> next \<and> forward then PlanApply False else PlanDuplicate)
         else if \<not> forward
         then PlanReject (Conflict (''invalid event transition from '' @ job_state_name s @ '' to '' @ job_state_name next))
         else PlanApply True)"

definition adopt_duplicate ::
  "string \<Rightarrow> string \<Rightarrow> string \<Rightarrow> HubJobRecord \<Rightarrow> JobEvent \<Rightarrow> i64 \<Rightarrow> AppState \<Rightarrow> AppState \<times> (HubError, unit) result" where
  "adopt_duplicate org wid session_id job ev now A =
     (if jv_session_id (hj_view job) = session_id then (A, Ok ())
      else
        let attempt = dj_attempt (hj_dispatch job);
            (A1, rebound) =
              (case st_store A of
                 None \<Rightarrow> (A, True)
               | Some db \<Rightarrow>
                   let (db', ok) = rebind_job_session (hj_organization_id job) (jv_id (hj_view job)) (uint attempt)
                         (jv_session_id (hj_view job)) session_id now db
                   in (A\<lparr>st_store := Some db'\<rparr>, ok))
        in if \<not> rebound then (A1, Err (Conflict ''job changed while adopting the worker session''))
           else (merge_adopted_job_session org wid (ev_job_id ev) attempt session_id now A1, Ok ()))"

definition apply_job_event ::
  "json_codec \<Rightarrow> i64 \<Rightarrow> string \<Rightarrow> string \<Rightarrow> string \<Rightarrow> JobEvent \<Rightarrow> AppState \<Rightarrow> AppState \<times> (HubError, JobEventAck) result" where
  "apply_job_event J now org wid session_id ev A =
     (let ack = \<lparr>ea_job_id = ev_job_id ev, ea_sequence = ev_sequence ev\<rparr>;
          reconcile = (\<lambda>db A1 otherwise.
            case reconcile_persisted_job_event J now org (ev_job_id ev) (ev_sequence ev) db A1 of
              (A2, Err e) \<Rightarrow> (A2, Err e)
            | (A2, Ok confirmed) \<Rightarrow> (A2, if confirmed then Ok ack else Err otherwise))
      in (case hm_get (hd_jobs (st_data A)) (ev_job_id ev) of
            None \<Rightarrow>
              (case st_store A of
                 None \<Rightarrow> (A, Err (HubNotFound ''job''))
               | Some db \<Rightarrow> reconcile db A (HubNotFound ''job''))
          | Some job \<Rightarrow>
              if hj_worker_organization_id job \<noteq> org \<or> jv_worker_id (hj_view job) \<noteq> wid \<or>
                 ev_attempt ev \<noteq> dj_attempt (hj_dispatch job)
              then (A, Ok ack)
              else if current_session_id (st_sessions A) org wid \<noteq> Some session_id
              then (A, Err (Conflict ''stale worker session''))
              else
                (case plan_job_event job ev of
                   PlanReject e \<Rightarrow> (A, Err e)
                 | PlanDuplicate \<Rightarrow>
                     (case adopt_duplicate org wid session_id job ev now A of
                        (A1, Err e) \<Rightarrow> (A1, Err e)
                      | (A1, Ok _) \<Rightarrow> (A1, Ok ack))
                 | PlanApply append_event \<Rightarrow>
                     (case st_store A of
                        None \<Rightarrow> (finish_job_event org wid session_id job ev append_event now A, Ok ack)
                      | Some db \<Rightarrow>
                          (case store_apply_job_event (event_insert_of job ev now) (event_update_of job ev session_id) db of
                             (_, Err _) \<Rightarrow> (A, Err Store)
                           | (db', Ok applied) \<Rightarrow>
                               let A1 = A\<lparr>st_store := Some db'\<rparr>
                               in if \<not> applied
                                  then reconcile db' A1
                                         (Conflict ''job changed while applying an event; retry the event'')
                                  else (finish_job_event org wid session_id job ev append_event now A1, Ok ack))))))"

end
