(* ===== verification/Hub_Uploads.thy ===== *)
theory Hub_Uploads
  imports Hub_Worker
begin

text \<open>
  The rest of the worker connection of \<open>apps/nagisalake-hub/src/hub/worker.rs\<close>: the
  upload of outputs, the error of a dispatch, the adoption of resident jobs by a new
  session and the dispatch of one received message. The clock readings that only stamp
  quota rows of one handler share a parameter.
\<close>

subsection \<open>Output uploads\<close>

definition job_owned_by :: "string \<Rightarrow> string \<Rightarrow> string \<Rightarrow> u32 \<Rightarrow> HubJobRecord \<Rightarrow> bool" where
  "job_owned_by worg wid session_id attempt job \<longleftrightarrow>
     hj_worker_organization_id job = worg \<and> jv_worker_id (hj_view job) = wid \<and>
     jv_session_id (hj_view job) = session_id \<and> dj_attempt (hj_dispatch job) = attempt"

definition upload_object_key :: "string \<Rightarrow> string \<Rightarrow> string \<Rightarrow> string \<Rightarrow> string" where
  "upload_object_key org job_id artifact_id name =
     ''organizations/'' @ org @ ''/outputs/'' @ job_id @ ''/'' @ artifact_id @ ''/'' @ name"

definition retry_matches :: "string \<Rightarrow> ArtifactReady \<Rightarrow> ArtifactRecord \<Rightarrow> bool" where
  "retry_matches org ready existing \<longleftrightarrow>
     arec_organization_id existing = org \<and> av_job_id (arec_view existing) = Some (ar_job_id ready) \<and>
     av_size_bytes (arec_view existing) = ar_size_bytes ready \<and>
     av_content_type (arec_view existing) = ar_content_type ready \<and>
     eq_ignore_ascii_case (av_sha256 (arec_view existing)) (ar_sha256 ready)"

text \<open>The branch for a request that is new, with the fresh artifact id.\<close>

definition prepare_new_upload ::
  "object_store \<Rightarrow> i64 \<Rightarrow> i64 \<Rightarrow> string \<Rightarrow> string \<Rightarrow> string \<Rightarrow> ArtifactReady \<Rightarrow> AppState
   \<Rightarrow> AppState \<times> (HubError, ArtifactUpload) result" where
  "prepare_new_upload os now now' artifact_id job_id org ready A =
     (let name = safe_filename (ar_name ready);
          object_key = upload_object_key org job_id artifact_id name;
          bytes = u64_to_i64_or_max (ar_size_bytes ready);
          (A1, reserved) = (if st_store A = None then (A, Ok ()) else state_reserve_storage now org bytes A)
      in (case reserved of
            Err e \<Rightarrow> (A1, Err (map_store_error e))
          | Ok _ \<Rightarrow>
              (case os_presign_put os object_key (ar_content_type ready) (ar_size_bytes ready) (ar_sha256 ready) of
                 Err e \<Rightarrow> (fst (state_release_storage now org bytes A1), Err (ObjectStore e))
               | Ok upload \<Rightarrow>
                   let record = \<lparr>arec_organization_id = org,
                         arec_view = \<lparr>av_id = artifact_id, av_job_id = Some job_id, av_name = name,
                           av_content_type = ar_content_type ready, av_size_bytes = ar_size_bytes ready,
                           av_sha256 = ascii_lowercase (ar_sha256 ready), av_state = PendingUpload\<rparr>,
                         arec_object_key = object_key\<rparr>;
                       (A2, persisted) = persist_artifact os now record A1
                   in (case persisted of
                         Err e \<Rightarrow> (fst (state_release_storage now org bytes A2), Err e)
                       | Ok _ \<Rightarrow>
                           let (A3, requested) =
                                 (case st_store A2 of
                                    None \<Rightarrow> (A2, Ok ())
                                  | Some db \<Rightarrow>
                                      let (db', r) = upsert_upload_request org (ar_request_id ready) artifact_id
                                            (Some job_id) (Some (uint (ar_attempt ready))) now' db
                                      in (A2\<lparr>st_store := Some db'\<rparr>, r))
                           in (case requested of
                                 Err _ \<Rightarrow> (fst (state_release_storage now org bytes A3), Err Store)
                               | Ok _ \<Rightarrow>
                                   (A3\<lparr>st_data := (st_data A3)\<lparr>
                                      hd_pending_uploads := hm_insert (pending_upload_key org (ar_request_id ready))
                                        artifact_id (hd_pending_uploads (st_data A3)),
                                      hd_artifacts := hm_insert artifact_id record (hd_artifacts (st_data A3))\<rparr>\<rparr>,
                                    Ok \<lparr>au_request_id = ar_request_id ready, au_artifact_id = artifact_id,
                                        au_upload = upload\<rparr>))))))"

definition prepare_artifact_upload ::
  "u64 \<Rightarrow> object_store \<Rightarrow> i64 \<Rightarrow> i64 \<Rightarrow> string \<Rightarrow> string \<Rightarrow> string \<Rightarrow> string \<Rightarrow> ArtifactReady \<Rightarrow> AppState
   \<Rightarrow> AppState \<times> (HubError, ArtifactUpload) result" where
  "prepare_artifact_upload max_bytes os now now' artifact_id worg wid session_id ready A =
     (if ar_size_bytes ready = 0 \<or> ar_size_bytes ready > max_bytes
      then (A, Err (InvalidRequest ''output exceeds the configured size limit''))
      else if \<not> is_sha256 (ar_sha256 ready) \<or> trim (ar_content_type ready) = []
      then (A, Err (InvalidRequest ''output metadata is invalid''))
      else
        (case hm_get (hd_jobs (st_data A)) (ar_job_id ready) of
           None \<Rightarrow> (A, Err (HubNotFound ''job''))
         | Some job \<Rightarrow>
             if \<not> job_owned_by worg wid session_id (ar_attempt ready) job
             then (A, Err (Conflict ''stale worker session''))
             else
               let org = hj_organization_id job
               in (case hm_get (hd_pending_uploads (st_data A)) (pending_upload_key org (ar_request_id ready)) of
                     Some existing_id \<Rightarrow>
                       (case hm_get (hd_artifacts (st_data A)) existing_id of
                          None \<Rightarrow> (A, Err (HubNotFound ''artifact''))
                        | Some existing \<Rightarrow>
                            if \<not> retry_matches org ready existing
                            then (A, Err (Conflict ''upload request metadata changed on retry''))
                            else
                              (case os_presign_put os (arec_object_key existing) (av_content_type (arec_view existing))
                                     (av_size_bytes (arec_view existing)) (av_sha256 (arec_view existing)) of
                                 Err e \<Rightarrow> (A, Err (ObjectStore e))
                               | Ok upload \<Rightarrow>
                                   (A, Ok \<lparr>au_request_id = ar_request_id ready, au_artifact_id = existing_id,
                                           au_upload = upload\<rparr>)))
                   | None \<Rightarrow> prepare_new_upload os now now' artifact_id (jv_id (hj_view job)) org ready A)))"

definition upload_request_id ::
  "string \<Rightarrow> ArtifactUploaded \<Rightarrow> AppState \<Rightarrow> (HubError, string) result" where
  "upload_request_id org uploaded A =
     (case hm_get (hd_pending_uploads (st_data A)) (pending_upload_key org (ad_request_id uploaded)) of
        Some i \<Rightarrow> Ok i
      | None \<Rightarrow>
          (case st_store A of
             None \<Rightarrow> Err (HubNotFound ''upload request'')
           | Some db \<Rightarrow> ok_or (HubNotFound ''upload request'') (upload_request_artifact org (ad_request_id uploaded) db)))"

definition publish_output :: "i64 \<Rightarrow> string \<Rightarrow> string \<Rightarrow> ArtifactUploaded \<Rightarrow> ArtifactRecord \<Rightarrow> HubData \<Rightarrow> HubData" where
  "publish_output now org artifact_id uploaded artifact d =
     (let d1 = d\<lparr>hd_pending_uploads := hm_insert (pending_upload_key org (ad_request_id uploaded)) artifact_id
                  (hd_pending_uploads d),
                 hd_artifacts := hm_insert artifact_id (artifact\<lparr>arec_view := (arec_view artifact)\<lparr>av_state := Ready\<rparr>\<rparr>)
                  (hd_artifacts d)\<rparr>
      in (case hm_get (hd_jobs d1) (ad_job_id uploaded) of
            None \<Rightarrow> d1
          | Some job \<Rightarrow>
              if dj_attempt (hj_dispatch job) = ad_attempt uploaded \<and>
                 artifact_id \<notin> set (jv_output_artifact_ids (hj_view job))
              then d1\<lparr>hd_jobs := hm_insert (ad_job_id uploaded)
                      (job\<lparr>hj_view := (hj_view job)\<lparr>
                         jv_output_artifact_ids := jv_output_artifact_ids (hj_view job) @ [artifact_id],
                         jv_updated_at_unix_ms := max (jv_updated_at_unix_ms (hj_view job)) now\<rparr>\<rparr>) (hd_jobs d1)\<rparr>
              else d1))"

definition complete_artifact_upload ::
  "json_codec \<Rightarrow> object_store \<Rightarrow> nat \<Rightarrow> i64 \<Rightarrow> string \<Rightarrow> string \<Rightarrow> string \<Rightarrow> ArtifactUploaded \<Rightarrow> AppState
   \<Rightarrow> AppState \<times> (HubError, ArtifactUploadedAck) result" where
  "complete_artifact_upload J os inst now worg wid session_id uploaded A =
     (case hm_get (hd_jobs (st_data A)) (ad_job_id uploaded) of
        None \<Rightarrow> (A, Err (HubNotFound ''job''))
      | Some job \<Rightarrow>
     if \<not> job_owned_by worg wid session_id (ad_attempt uploaded) job
     then (A, Err (Conflict ''stale worker session''))
     else
     (let org = hj_organization_id job in
      case upload_request_id org uploaded A of
        Err e \<Rightarrow> (A, Err e)
      | Ok artifact_id \<Rightarrow>
     if artifact_id \<noteq> ad_artifact_id uploaded
     then (A, Err (Conflict ''artifact id does not match upload request''))
     else
     (case artifact_record inst org artifact_id A of
        (A1, Err e) \<Rightarrow> (A1, Err e)
      | (A1, Ok artifact) \<Rightarrow>
     if arec_organization_id artifact \<noteq> org then (A1, Err (HubNotFound ''artifact''))
     else
     (case av_job_id (arec_view artifact) of
        None \<Rightarrow> (A1, Err (Conflict ''output artifact has no job''))
      | Some job_id \<Rightarrow>
     if ad_job_id uploaded \<noteq> job_id
     then (A1, Err (Conflict ''uploaded artifact job does not match''))
     else
     (case hm_get (hd_jobs (st_data A1)) job_id of
        None \<Rightarrow> (A1, Err (HubNotFound ''job''))
      | Some job' \<Rightarrow>
     if hj_organization_id job' \<noteq> org \<or> \<not> job_owned_by worg wid session_id (ad_attempt uploaded) job'
     then (A1, Err (Conflict ''stale worker session''))
     else
     (case os_head os (arec_object_key artifact) of
        Err e \<Rightarrow> (A1, Err (ObjectStore e))
      | Ok metadata \<Rightarrow>
     if \<not> object_metadata_matches metadata (arec_view artifact)
     then (A1, Err (Conflict ''uploaded output failed size, content type, or SHA-256 verification''))
     else
       let (A2, completed) =
             (case st_store A1 of
                None \<Rightarrow> (A1, Ok True)
              | Some db \<Rightarrow>
                  let (db', r) = complete_job_output_upload J
                        \<lparr>co_organization_id = org, co_request_id = ad_request_id uploaded, co_artifact_id = artifact_id,
                         co_job_id = job_id, co_attempt = uint (ad_attempt uploaded), co_session_id = session_id,
                         co_now = now\<rparr> db
                  in (A1\<lparr>st_store := Some db'\<rparr>, r))
       in (case completed of
             Err _ \<Rightarrow> (A2, Err Store)
           | Ok ok \<Rightarrow>
               if \<not> ok then (A2, Err (Conflict ''job changed while completing the output artifact''))
               else
                 (A2\<lparr>st_read_cache := invalidate_cached_artifact org artifact_id (st_read_cache A2),
                     st_data := publish_output now org artifact_id uploaded artifact (st_data A2)\<rparr>,
                  Ok \<lparr>aa_request_id = ad_request_id uploaded, aa_artifact_id = artifact_id\<rparr>))))))))"

subsection \<open>Errors of a dispatch\<close>

definition update_job_error :: "i64 \<Rightarrow> string \<Rightarrow> string \<Rightarrow> bool \<Rightarrow> AppState \<Rightarrow> AppState" where
  "update_job_error now job_id message terminal A =
     (case hm_get (hd_jobs (st_data A)) job_id of
        None \<Rightarrow> A
      | Some job \<Rightarrow>
          if is_terminal (jv_state (hj_view job)) then A
          else
            let error_message = truncate_str message 1000;
                (A1, updated) =
                  (case st_store A of
                     None \<Rightarrow> (A, True)
                   | Some db \<Rightarrow>
                       let (db', r) = update_job_if_current
                             \<lparr>cu_organization_id = hj_organization_id job, cu_id = job_id,
                              cu_attempt = uint (dj_attempt (hj_dispatch job)),
                              cu_expected_state = job_state_name (jv_state (hj_view job)),
                              cu_expected_last_event = u64_to_i64_or_max (hj_last_event job),
                              cu_state = (if terminal then Some ''failed'' else None),
                              cu_error = Some error_message, cu_now = now\<rparr> db
                       in (A\<lparr>st_store := Some db'\<rparr>, r))
            in if \<not> updated then A1
               else
                 (case hm_get (hd_jobs (st_data A1)) job_id of
                    None \<Rightarrow> A1
                  | Some current \<Rightarrow>
                      if dj_attempt (hj_dispatch current) = dj_attempt (hj_dispatch job) \<and>
                         jv_state (hj_view current) = jv_state (hj_view job) \<and> hj_last_event current = hj_last_event job
                      then if terminal \<and> st_store A1 \<noteq> None
                           then A1\<lparr>st_data := (st_data A1)\<lparr>hd_jobs := hm_remove job_id (hd_jobs (st_data A1))\<rparr>\<rparr>
                           else A1\<lparr>st_data := (st_data A1)\<lparr>hd_jobs := hm_insert job_id
                                  (current\<lparr>hj_view := (hj_view current)\<lparr>
                                     jv_state := (if terminal then Failed else jv_state (hj_view current)),
                                     jv_error := Some error_message,
                                     jv_updated_at_unix_ms := max (jv_updated_at_unix_ms (hj_view current)) now\<rparr>\<rparr>)
                                  (hd_jobs (st_data A1))\<rparr>\<rparr>
                      else A1))"

definition mark_job_failed :: "i64 \<Rightarrow> string \<Rightarrow> string \<Rightarrow> AppState \<Rightarrow> AppState" where
  "mark_job_failed now job_id message A = update_job_error now job_id message True A"

definition record_dispatch_error :: "i64 \<Rightarrow> string \<Rightarrow> string \<Rightarrow> AppState \<Rightarrow> AppState" where
  "record_dispatch_error now job_id message A = update_job_error now job_id message False A"

subsection \<open>Adoption by a new session\<close>

fun artifact_records :: "nat \<Rightarrow> string \<Rightarrow> string list \<Rightarrow> AppState \<Rightarrow> AppState \<times> (HubError, ArtifactRecord list) result" where
  "artifact_records inst org [] A = (A, Ok [])"
| "artifact_records inst org (i # is) A =
     (case artifact_record inst org i A of
        (A1, Err e) \<Rightarrow> (A1, Err e)
      | (A1, Ok a) \<Rightarrow>
          (case artifact_records inst org is A1 of
             (A2, Err e) \<Rightarrow> (A2, Err e)
           | (A2, Ok as) \<Rightarrow> (A2, Ok (a # as))))"

definition job_input_of :: "object_store \<Rightarrow> ArtifactRecord \<Rightarrow> (HubError, JobInput) result" where
  "job_input_of os a =
     (case os_presign_get os (arec_object_key a) of
        Err e \<Rightarrow> Err (ObjectStore e)
      | Ok download \<Rightarrow>
          Ok \<lparr>ji_artifact_id = av_id (arec_view a), ji_name = av_name (arec_view a),
              ji_content_type = av_content_type (arec_view a), ji_size_bytes = av_size_bytes (arec_view a),
              ji_sha256 = av_sha256 (arec_view a), ji_download = download\<rparr>)"

text \<open>The durable half of a rebinding: first against the resident session, then against the stored one.\<close>

definition rebind_durable :: "HubJobRecord \<Rightarrow> string \<Rightarrow> i64 \<Rightarrow> Db \<Rightarrow> Db \<times> bool" where
  "rebind_durable job session_id now db =
     (let org = hj_organization_id job; jid = jv_id (hj_view job); attempt = uint (dj_attempt (hj_dispatch job));
          (db1, rebound) = rebind_job_session org jid attempt (jv_session_id (hj_view job)) session_id now db
      in if rebound then (db1, True)
         else
           (case db_job org jid db1 of
              None \<Rightarrow> (db1, False)
            | Some stored \<Rightarrow>
                (case j_session_id stored of
                   None \<Rightarrow> (db1, False)
                 | Some stored_session_id \<Rightarrow> rebind_job_session org jid attempt stored_session_id session_id now db1)))"

datatype loop_exit = LoopContinue | LoopBreak

definition rebind_one ::
  "object_store \<Rightarrow> nat \<Rightarrow> i64 \<Rightarrow> string \<Rightarrow> string \<Rightarrow> string \<Rightarrow> string \<Rightarrow> string \<Rightarrow> AppState
   \<Rightarrow> AppState \<times> (HubError, loop_exit \<times> DispatchJob option) result" where
  "rebind_one os inst now uuid org wid session_id job_id A =
     (case hm_get (hd_jobs (st_data A)) job_id of
        None \<Rightarrow> (A, Ok (LoopContinue, None))
      | Some job \<Rightarrow>
     (case artifact_records inst (hj_organization_id job) (jv_input_artifact_ids (hj_view job)) A of
        (A1, Err e) \<Rightarrow> (A1, Err e)
      | (A1, Ok artifacts) \<Rightarrow>
     (case collect_results (map (job_input_of os) artifacts) of
        Err e \<Rightarrow> (A1, Err e)
      | Ok inputs \<Rightarrow>
     if current_session_id (st_sessions A1) org wid \<noteq> Some session_id then (A1, Ok (LoopBreak, None))
     else
       let (A2, rebound) =
             (case st_store A1 of
                None \<Rightarrow> (A1, True)
              | Some db \<Rightarrow> let (db', ok) = rebind_durable job session_id now db in (A1\<lparr>st_store := Some db'\<rparr>, ok))
       in if \<not> rebound then (A2, Ok (LoopContinue, None))
          else if \<not> guard_current_session (st_sessions A2) org wid session_id then (A2, Ok (LoopBreak, None))
          else
            (case hm_get (hd_jobs (st_data A2)) job_id of
               None \<Rightarrow> (A2, Ok (LoopContinue, None))
             | Some current \<Rightarrow>
                 if hj_worker_organization_id current \<noteq> org \<or> jv_worker_id (hj_view current) \<noteq> wid \<or>
                    dj_attempt (hj_dispatch current) \<noteq> dj_attempt (hj_dispatch job) \<or>
                    is_terminal (jv_state (hj_view current))
                 then (A2, Ok (LoopContinue, None))
                 else
                   let d = (hj_dispatch current)\<lparr>dj_command_id := uuid, dj_inputs := inputs\<rparr>
                   in (A2\<lparr>st_data := (st_data A2)\<lparr>hd_jobs := hm_insert job_id
                          (current\<lparr>hj_view := (hj_view current)\<lparr>jv_session_id := session_id,
                             jv_updated_at_unix_ms := max (jv_updated_at_unix_ms (hj_view current)) now\<rparr>,
                           hj_dispatch := d\<rparr>) (hd_jobs (st_data A2))\<rparr>\<rparr>,
                       Ok (LoopContinue, Some d))))))"

fun rebind_loop ::
  "object_store \<Rightarrow> nat \<Rightarrow> i64 \<Rightarrow> (string \<Rightarrow> string) \<Rightarrow> string \<Rightarrow> string \<Rightarrow> string \<Rightarrow> string list \<Rightarrow> AppState
   \<Rightarrow> AppState \<times> (HubError, DispatchJob list) result" where
  "rebind_loop os inst now uuid org wid session_id [] A = (A, Ok [])"
| "rebind_loop os inst now uuid org wid session_id (i # is) A =
     (case rebind_one os inst now (uuid i) org wid session_id i A of
        (A1, Err e) \<Rightarrow> (A1, Err e)
      | (A1, Ok (LoopBreak, d)) \<Rightarrow> (A1, Ok [])
      | (A1, Ok (LoopContinue, d)) \<Rightarrow>
          (case rebind_loop os inst now uuid org wid session_id is A1 of
             (A2, Err e) \<Rightarrow> (A2, Err e)
           | (A2, Ok ds) \<Rightarrow> (A2, Ok (case d of None \<Rightarrow> ds | Some x \<Rightarrow> x # ds))))"

definition rebind_jobs_for_session ::
  "object_store \<Rightarrow> nat \<Rightarrow> i64 \<Rightarrow> (string \<Rightarrow> string) \<Rightarrow> string \<Rightarrow> string \<Rightarrow> string \<Rightarrow> AppState
   \<Rightarrow> AppState \<times> (HubError, DispatchJob list) result" where
  "rebind_jobs_for_session os inst now uuid org wid session_id A =
     (let job_ids = map (\<lambda>job. jv_id (hj_view job))
            (filter (\<lambda>job. hj_worker_organization_id job = org \<and> jv_worker_id (hj_view job) = wid \<and>
                           \<not> is_terminal (jv_state (hj_view job))) (hm_values (hd_jobs (st_data A))))
      in rebind_loop os inst now uuid org wid session_id job_ids A)"

subsection \<open>One received message\<close>

text \<open>
  The parameters of the connection: its worker and session, the handle of its
  connection objects, the limits and the object store. The reply that the handler
  sends is part of the result; when the transport refuses it the handler fails.
\<close>

record worker_conn =
  wcn_organization_id :: string
  wcn_worker_id :: string
  wcn_session_id :: string
  wcn_handle :: handle
  wcn_max_artifact_bytes :: u64
  wcn_objects :: object_store
  wcn_codec :: json_codec

definition reply_with :: "bool \<Rightarrow> AppState \<times> (HubError, HubMessage) result \<Rightarrow> AppState \<times> HubMessage option \<times> (HubError, unit) result" where
  "reply_with sent r =
     (case r of
        (A, Err e) \<Rightarrow> (A, None, Err e)
      | (A, Ok m) \<Rightarrow> (A, Some m, if sent then Ok () else Err Transport))"

definition map_ok :: "('a \<Rightarrow> 'b) \<Rightarrow> ('e, 'a) result \<Rightarrow> ('e, 'b) result" where
  "map_ok f r = (case r of Err e \<Rightarrow> Err e | Ok x \<Rightarrow> Ok (f x))"

fun handle_worker_message ::
  "worker_conn \<Rightarrow> nat \<Rightarrow> i64 \<Rightarrow> i64 \<Rightarrow> string \<Rightarrow> bool \<Rightarrow> WorkerMessage \<Rightarrow> AppState
   \<Rightarrow> AppState \<times> HubMessage option \<times> (HubError, unit) result" where
  "handle_worker_message c inst now now' uuid sent (WRegister r) A =
     (A, None, Err (Conflict ''worker is already registered''))"
| "handle_worker_message c inst now now' uuid sent (WHeartbeat h) A =
     (if hb_session_id h \<noteq> wcn_session_id c
      then (A, None, Err (Conflict ''heartbeat session does not match socket''))
      else
        let (R, r) = update_heartbeat inst (wcn_organization_id c) (wcn_worker_id c) (wcn_session_id c)
              (hb_active_jobs h) (hb_queued_jobs h) (st_sessions A);
            A1 = A\<lparr>st_sessions := R\<rparr>
        in (if r = Ok ()
            then A1\<lparr>st_store := map_option
                   (touch_worker_heartbeat (wcn_organization_id c) (wcn_worker_id c) (wcn_session_id c) now) (st_store A1)\<rparr>
            else A1, None, r))"
| "handle_worker_message c inst now now' uuid sent (WCommandAck ack) A =
     (A\<lparr>st_sessions := on_conn (wcn_handle c) (drop_waiter (ca_command_id ack))
          (settle_capacity_reservation (wcn_organization_id c) (wcn_worker_id c) (wcn_session_id c)
             (ca_command_id ack) (ca_accepted ack) (st_sessions A))\<rparr>, None, Ok ())"
| "handle_worker_message c inst now now' uuid sent (WJobEvent ev) A =
     (let (A1, r) = apply_job_event (wcn_codec c) now (wcn_organization_id c) (wcn_worker_id c) (wcn_session_id c) ev A
      in reply_with sent (A1, map_ok HJobEventAck r))"
| "handle_worker_message c inst now now' uuid sent (WArtifactReady ready) A =
     (let (A1, r) = prepare_artifact_upload (wcn_max_artifact_bytes c) (wcn_objects c) now now' uuid
            (wcn_organization_id c) (wcn_worker_id c) (wcn_session_id c) ready A
      in reply_with sent (A1, map_ok HArtifactUpload r))"
| "handle_worker_message c inst now now' uuid sent (WArtifactUploaded uploaded) A =
     (let (A1, r) = complete_artifact_upload (wcn_codec c) (wcn_objects c) inst now
            (wcn_organization_id c) (wcn_worker_id c) (wcn_session_id c) uploaded A
      in reply_with sent (A1, map_ok HArtifactUploadedAck r))"
| "handle_worker_message c inst now now' uuid sent (WPong p) A = (A, None, Ok ())"

end
