(* ===== verification/Hub_Dispatch.thy ===== *)
theory Hub_Dispatch
  imports Hub_Uploads
begin

text \<open>
  The delivery of jobs: the outbox consumer of \<open>apps/nagisalake-hub/src/hub/dispatch.rs\<close>
  and the backlog scheduler of \<open>hub/scheduler.rs\<close>. A command is sent in three steps
  (register the waiter, send, wait for the acknowledgement), whose outcomes are
  parameters; here they run one after the other.
\<close>

subsection \<open>Commands\<close>

definition dispatch_command_id :: "string \<Rightarrow> u32 \<Rightarrow> string" where
  "dispatch_command_id job_id attempt = ''dispatch:'' @ job_id @ '':'' @ show_nat (unat attempt)"

definition send_command ::
  "string \<Rightarrow> string \<Rightarrow> string \<Rightarrow> string \<Rightarrow> HubMessage \<Rightarrow> bool \<Rightarrow> AckOutcome \<Rightarrow> SessionRegistry
   \<Rightarrow> SessionRegistry \<times> (HubError, CommandAck) result" where
  "send_command org wid sid command_id message sent outcome R =
     (case send_command_start org wid sid command_id R of
        (R1, Err e) \<Rightarrow> (R1, Err e)
      | (R1, Ok h) \<Rightarrow>
          (case send_command_send org wid sid command_id h message sent R1 of
             (R2, Err e) \<Rightarrow> (R2, Err e)
           | (R2, Ok _) \<Rightarrow> send_command_finish org wid sid command_id h outcome R2))"

text \<open>\<open>Display\<close> of an error; the text of a wrapped library error is left out.\<close>

fun hub_error_text :: "HubError \<Rightarrow> string" where
  "hub_error_text ConfigIo = ''failed to read config''"
| "hub_error_text ConfigParse = ''failed to parse config''"
| "hub_error_text (InvalidConfig m) = ''invalid Hub configuration: '' @ m"
| "hub_error_text (Unauthorized m) = ''unauthorized: '' @ m"
| "hub_error_text (Forbidden m) = ''forbidden: '' @ m"
| "hub_error_text (HubNotFound m) = ''not found: '' @ m"
| "hub_error_text (InvalidRequest m) = ''invalid request: '' @ m"
| "hub_error_text (Conflict m) = ''conflict: '' @ m"
| "hub_error_text (Unavailable m) = ''worker unavailable: '' @ m"
| "hub_error_text (ObjectStore m) = ''object store failed: '' @ m"
| "hub_error_text (QuotaExceeded m) = ''quota exceeded: '' @ m"
| "hub_error_text (RateLimited n) = ''too many requests; retry in '' @ show_nat (unat n) @ ''s''"
| "hub_error_text Store = ''persistent store failed''"
| "hub_error_text Transport = ''transport failed''"
| "hub_error_text Io = ''I/O failed''"
| "hub_error_text Axum = ''HTTP server failed''"

subsection \<open>The outbox\<close>

record CachedOutboxJobBinding =
  ob_organization_id :: string
  ob_worker_organization_id :: string
  ob_worker_id :: string
  ob_attempt :: u32
  ob_session_id :: string

definition merge_cached_outbox_job ::
  "string \<Rightarrow> u32 \<Rightarrow> string \<Rightarrow> DispatchJob \<Rightarrow> i64 \<Rightarrow> AppState \<Rightarrow> AppState \<times> bool" where
  "merge_cached_outbox_job job_id expected_attempt session_id dispatch now A =
     (case hm_get (hd_jobs (st_data A)) job_id of
        None \<Rightarrow> (A, False)
      | Some cached \<Rightarrow>
          if is_terminal (jv_state (hj_view cached)) \<or> dj_attempt (hj_dispatch cached) \<noteq> expected_attempt
          then (A, False)
          else (A\<lparr>st_data := (st_data A)\<lparr>hd_jobs := hm_insert job_id
                  (cached\<lparr>hj_view := (hj_view cached)\<lparr>jv_session_id := session_id,
                     jv_updated_at_unix_ms := max (jv_updated_at_unix_ms (hj_view cached)) now\<rparr>,
                   hj_dispatch := dispatch\<rparr>) (hd_jobs (st_data A))\<rparr>\<rparr>, True))"

definition rebind_cached_outbox_job ::
  "string \<Rightarrow> string \<Rightarrow> DispatchJob \<Rightarrow> i64 \<Rightarrow> AppState \<Rightarrow> AppState \<times> bool" where
  "rebind_cached_outbox_job job_id session_id dispatch now A =
     (case map_option (\<lambda>job. \<lparr>ob_organization_id = hj_organization_id job,
              ob_worker_organization_id = hj_worker_organization_id job, ob_worker_id = jv_worker_id (hj_view job),
              ob_attempt = dj_attempt (hj_dispatch job), ob_session_id = jv_session_id (hj_view job)\<rparr>)
            (hm_get (hd_jobs (st_data A)) job_id) of
        None \<Rightarrow> (A, False)
      | Some b \<Rightarrow>
          if ob_attempt b \<noteq> dj_attempt dispatch then (A, False)
          else if current_session_id (st_sessions A) (ob_worker_organization_id b) (ob_worker_id b) \<noteq> Some session_id
          then (A, False)
          else
            let (A1, rebound) =
                  (case st_store A of
                     None \<Rightarrow> (A, True)
                   | Some db \<Rightarrow>
                       let (db1, ok) = rebind_job_session (ob_organization_id b) job_id (uint (ob_attempt b))
                             (ob_session_id b) session_id now db
                       in if ok then (A\<lparr>st_store := Some db1\<rparr>, True)
                          else if current_session_id (st_sessions A) (ob_worker_organization_id b) (ob_worker_id b)
                                  \<noteq> Some session_id
                          then (A\<lparr>st_store := Some db1\<rparr>, False)
                          else
                            (case db_job (ob_organization_id b) job_id db1 of
                               None \<Rightarrow> (A\<lparr>st_store := Some db1\<rparr>, False)
                             | Some stored \<Rightarrow>
                                 (case j_session_id stored of
                                    None \<Rightarrow> (A\<lparr>st_store := Some db1\<rparr>, False)
                                  | Some stored_session_id \<Rightarrow>
                                      let (db2, ok2) = rebind_job_session (ob_organization_id b) job_id
                                            (uint (ob_attempt b)) stored_session_id session_id now db1
                                      in (A\<lparr>st_store := Some db2\<rparr>, ok2))))
            in if \<not> rebound then (A1, False)
               else if \<not> guard_current_session (st_sessions A1) (ob_worker_organization_id b) (ob_worker_id b) session_id
               then (A1, False)
               else merge_cached_outbox_job job_id (ob_attempt b) session_id dispatch now A1)"

definition record_of_row :: "StoredJob \<Rightarrow> string \<Rightarrow> JobView \<Rightarrow> DispatchJob \<Rightarrow> u64 \<Rightarrow> HubJobRecord" where
  "record_of_row job worg view dispatch last_event =
     \<lparr>hj_organization_id = j_organization_id job, hj_actor_id = j_actor_id job, hj_actor_kind = j_actor_kind job,
      hj_actor_user_id = j_actor_user_id job, hj_worker_organization_id = worg, hj_view = view,
      hj_dispatch = dispatch, hj_last_event = last_event\<rparr>"

definition cache_bound_outbox_job ::
  "json_codec \<Rightarrow> Db \<Rightarrow> StoredJob \<Rightarrow> DispatchJob \<Rightarrow> AppState \<Rightarrow> AppState \<times> (HubError, bool) result" where
  "cache_bound_outbox_job J db job dispatch A =
     (case (j_worker_organization_id job, j_worker_id job, j_session_id job) of
        (Some worg, Some wid, Some sid) \<Rightarrow>
          (case parse_job_state (j_state job) of
             Err e \<Rightarrow> (A, Err e)
           | Ok st \<Rightarrow>
               if st = Queued \<or> is_terminal st then (A, Ok False)
               else
                 (case job_view_from_stored J job (events_for_job (j_organization_id job) (j_id job) db) of
                    Err e \<Rightarrow> (A, Err e)
                  | Ok view \<Rightarrow>
                      (case u64_try_from (j_last_event job) of
                         None \<Rightarrow> (A, Err (InvalidConfig ''persisted job sequence is invalid''))
                       | Some last_event \<Rightarrow>
                           if jv_worker_id view \<noteq> wid \<or> jv_session_id view \<noteq> sid then (A, Ok False)
                           else
                             let A1 = A\<lparr>st_data := (st_data A)\<lparr>hd_jobs := hm_insert (j_id job)
                                   (record_of_row job worg view dispatch last_event) (hd_jobs (st_data A))\<rparr>\<rparr>
                             in (case hm_get (hd_jobs (st_data A)) (j_id job) of
                                   None \<Rightarrow> (A1, Ok True)
                                 | Some existing \<Rightarrow>
                                     if dj_attempt (hj_dispatch existing) = dj_attempt dispatch \<and>
                                        jv_state (hj_view existing) = Queued
                                     then (A1, Ok True)
                                     else
                                       (A, Ok (\<not> is_terminal (jv_state (hj_view existing)) \<and>
                                          dj_attempt (hj_dispatch existing) = dj_attempt dispatch \<and>
                                          hj_organization_id existing = j_organization_id job \<and>
                                          hj_worker_organization_id existing = worg \<and>
                                          jv_worker_id (hj_view existing) = wid \<and>
                                          jv_session_id (hj_view existing) = sid))))))
      | _ \<Rightarrow> (A, Ok False))"

text \<open>
  The inputs of the command in the order of the job's ids. The artifacts come from one
  query, indexed by id; each is taken out of the index when it is used.
\<close>

fun dispatch_inputs ::
  "object_store \<Rightarrow> (string, StoredArtifact) hash_map \<Rightarrow> string list \<Rightarrow> (string, JobInput list) result" where
  "dispatch_inputs os by_id [] = Ok []"
| "dispatch_inputs os by_id (i # is) =
     (case hm_get by_id i of
        None \<Rightarrow> Err (''input artifact '' @ i @ '' is not ready'')
      | Some a \<Rightarrow>
          if a_state a \<noteq> ''ready'' then Err (''input artifact '' @ i @ '' is not ready'')
          else
            (case u64_try_from (a_size_bytes a) of
               None \<Rightarrow> Err (''input artifact '' @ i @ '' has an invalid size'')
             | Some size_bytes \<Rightarrow>
                 (case os_presign_get os (a_object_key a) of
                    Err e \<Rightarrow> Err e
                  | Ok download \<Rightarrow>
                      and_then (dispatch_inputs os (hm_remove i by_id) is) (\<lambda>inputs.
                        Ok (\<lparr>ji_artifact_id = i, ji_name = a_name a, ji_content_type = a_content_type a,
                             ji_size_bytes = size_bytes, ji_sha256 = a_sha256 a, ji_download = download\<rparr> # inputs)))))"

definition dispatch_of_row ::
  "json_codec \<Rightarrow> object_store \<Rightarrow> Db \<Rightarrow> string \<times> string \<times> i64 \<Rightarrow> StoredJob \<Rightarrow> (string, DispatchJob) result" where
  "dispatch_of_row J os db entry job =
     (case params_dec J (j_parameters_json job) of
        None \<Rightarrow> Err ''invalid persisted job parameters''
      | Some parameters \<Rightarrow>
     (case ids_dec J (j_input_artifact_ids_json job) of
        None \<Rightarrow> Err ''invalid persisted job inputs''
      | Some input_ids \<Rightarrow>
     and_then (dispatch_inputs os
         (foldl (\<lambda>m a. hm_insert (a_id a) a m) [] (artifacts_by_ids (fst entry) input_ids db)) input_ids) (\<lambda>inputs.
     (case u32_try_from (snd (snd entry)) of
        None \<Rightarrow> Err ''persisted dispatch attempt is invalid''
      | Some attempt \<Rightarrow>
          Ok \<lparr>dj_command_id = dispatch_command_id (j_id job) attempt, dj_job_id = j_id job, dj_attempt = attempt,
              dj_workflow_id = j_workflow_id job, dj_workflow_version = j_workflow_version job,
              dj_parameters = parameters, dj_inputs = inputs\<rparr>))))"

text \<open>
  One outbox row. \<open>outbox_prepare\<close> is the handler up to the reservation of a slot;
  \<open>Stop b\<close> is a return of \<open>b\<close>, \<open>Go\<close> carries the session and the command to send.
  \<open>outbox_settle\<close> is what follows the answer of \<open>send_command\<close>. Between the two
  other tasks of the Hub may run.
\<close>

datatype outbox_next = Stop bool | Go string string string DispatchJob

definition outbox_error ::
  "i64 \<Rightarrow> string \<times> string \<times> i64 \<Rightarrow> string \<Rightarrow> AppState \<Rightarrow> AppState" where
  "outbox_error now entry message A =
     A\<lparr>st_store := map_option (store_record_dispatch_error now (fst entry) (fst (snd entry)) (snd (snd entry)) message)
        (st_store A)\<rparr>"

definition outbox_delivered :: "i64 \<Rightarrow> string \<times> string \<times> i64 \<Rightarrow> AppState \<Rightarrow> AppState" where
  "outbox_delivered now entry A =
     A\<lparr>st_store := map_option (mark_dispatch_delivered now (fst entry) (fst (snd entry)) (snd (snd entry))) (st_store A)\<rparr>"

definition outbox_cached ::
  "json_codec \<Rightarrow> i64 \<Rightarrow> StoredJob \<Rightarrow> string \<Rightarrow> DispatchJob \<Rightarrow> AppState \<Rightarrow> AppState \<times> (HubError, bool) result" where
  "outbox_cached J now job session_id dispatch A =
     (case rebind_cached_outbox_job (j_id job) session_id dispatch now A of
        (A1, True) \<Rightarrow> (A1, Ok True)
      | (A1, False) \<Rightarrow>
          (case st_store A1 of
             None \<Rightarrow> (A1, Ok False)
           | Some db \<Rightarrow> cache_bound_outbox_job J db job dispatch A1))"

definition outbox_prepare ::
  "json_codec \<Rightarrow> object_store \<Rightarrow> i64 \<Rightarrow> string \<times> string \<times> i64 \<Rightarrow> Db \<Rightarrow> AppState \<Rightarrow> AppState \<times> outbox_next" where
  "outbox_prepare J os now entry db A =
     (case db_job (fst entry) (fst (snd entry)) db of
        None \<Rightarrow> (outbox_delivered now entry A, Stop True)
      | Some job \<Rightarrow>
          if terminal_state (j_state job) then (outbox_delivered now entry A, Stop True)
          else
            (case (j_worker_organization_id job, j_worker_id job, j_session_id job) of
               (Some worg, Some wid, Some _) \<Rightarrow>
                 (case current_session_id (st_sessions A) worg wid of
                    None \<Rightarrow> (outbox_error now entry ''no local worker session is available'' A, Stop False)
                  | Some session_id \<Rightarrow>
                      (case dispatch_of_row J os db entry job of
                         Err m \<Rightarrow> (outbox_error now entry m A, Stop False)
                       | Ok dispatch \<Rightarrow>
                           (case outbox_cached J now job session_id dispatch A of
                              (A1, Err e) \<Rightarrow> (outbox_error now entry (hub_error_text e) A1, Stop False)
                            | (A1, Ok False) \<Rightarrow>
                                (outbox_error now entry ''bound outbox job is not dispatchable'' A1, Stop False)
                            | (A1, Ok True) \<Rightarrow>
                                (case ensure_capacity_reservation worg wid session_id (dj_command_id dispatch)
                                       (st_sessions A1) of
                                   (R, ok) \<Rightarrow>
                                     if \<not> ok
                                     then (outbox_error now entry ''bound worker session has no dispatch capacity''
                                             (A1\<lparr>st_sessions := R\<rparr>), Stop False)
                                     else (A1\<lparr>st_sessions := R\<rparr>, Go worg wid session_id dispatch)))))
             | _ \<Rightarrow> (outbox_error now entry ''outbox job has no complete worker binding'' A, Stop False)))"

definition outbox_settle ::
  "i64 \<Rightarrow> string \<times> string \<times> i64 \<Rightarrow> (HubError, CommandAck) result \<Rightarrow> AppState \<Rightarrow> AppState \<times> bool" where
  "outbox_settle now entry answer A =
     (case answer of
        Ok ack \<Rightarrow>
          if ca_accepted ack then (outbox_delivered now entry A, True)
          else (outbox_delivered now entry (mark_job_failed now (fst (snd entry)) (ca_message ack) A), True)
      | Err e \<Rightarrow>
          (outbox_error now entry (hub_error_text e)
             (record_dispatch_error now (fst (snd entry)) (hub_error_text e) A), False))"

definition dispatch_outbox_entry ::
  "json_codec \<Rightarrow> object_store \<Rightarrow> i64 \<Rightarrow> bool \<Rightarrow> AckOutcome \<Rightarrow> string \<times> string \<times> i64 \<Rightarrow> Db \<Rightarrow> AppState
   \<Rightarrow> AppState \<times> bool" where
  "dispatch_outbox_entry J os now sent outcome entry db A =
     (case outbox_prepare J os now entry db A of
        (A1, Stop b) \<Rightarrow> (A1, b)
      | (A1, Go worg wid session_id dispatch) \<Rightarrow>
          (case send_command worg wid session_id (dj_command_id dispatch) (HDispatchJob dispatch) sent outcome
                  (st_sessions A1) of
             (R, answer) \<Rightarrow> outbox_settle now entry answer (A1\<lparr>st_sessions := R\<rparr>)))"

subsection \<open>The backlog scheduler\<close>

definition SCHEDULER_LEASE_SECONDS :: i64 where "SCHEDULER_LEASE_SECONDS = 30"

definition offers_workflow :: "string \<Rightarrow> string \<Rightarrow> WorkerView \<Rightarrow> bool" where
  "offers_workflow workflow_id version w \<longleftrightarrow>
     (\<exists>wf\<in>set (cap_workflows (wv_capabilities w)). wc_id wf = workflow_id \<and> wc_version wf = version)"

definition dispatch_queued_job ::
  "string \<Rightarrow> string \<Rightarrow> i64 \<Rightarrow> Db \<Rightarrow> AppState \<Rightarrow> AppState \<times> (HubError, unit) result" where
  "dispatch_queued_job org job_id now db A =
     (case queued_job_info org job_id db of
        None \<Rightarrow> (A, Ok ())
      | Some (workflow_id, workflow_version, target_org, target_device, attempt) \<Rightarrow>
          (case u32_try_from attempt of
             None \<Rightarrow> (A, Err (InvalidConfig ''persisted dispatch attempt is invalid''))
           | Some attempt' \<Rightarrow>
               let command_id = dispatch_command_id job_id attempt'
               in (case reserve_capacity_on target_org target_device command_id
                          (offers_workflow workflow_id workflow_version) (st_sessions A) of
                     (R, None) \<Rightarrow> (A\<lparr>st_sessions := R\<rparr>, Ok ())
                   | (R, Some w) \<Rightarrow>
                       let (db', bound) = bind_queued_job org job_id (wv_organization_id w) (wv_worker_id w)
                             (wv_session_id w) now db
                       in if bound then (A\<lparr>st_sessions := R, st_store := Some db'\<rparr>, Ok ())
                          else (A\<lparr>st_store := Some db', st_sessions := release_capacity_reservation
                                  (wv_organization_id w) (wv_worker_id w) (wv_session_id w) command_id R\<rparr>, Ok ()))))"

text \<open>
  A pass handles at most 32 jobs (\<open>n\<close> counts the iterations left); each iteration reads the
  clock. A failed dispatch is logged and the pass goes on.
\<close>

fun schedule_loop :: "(nat \<Rightarrow> i64) \<Rightarrow> nat \<Rightarrow> AppState \<Rightarrow> AppState" where
  "schedule_loop clock 0 A = A"
| "schedule_loop clock (Suc n) A =
     (case st_store A of
        None \<Rightarrow> A
      | Some db \<Rightarrow>
          (case claim_dispatch_queue_job ''hub-scheduler'' SCHEDULER_LEASE_SECONDS (clock (Suc n)) db of
             (db', None) \<Rightarrow> A\<lparr>st_store := Some db'\<rparr>
           | (db', Some (org, job_id)) \<Rightarrow>
               schedule_loop clock n
                 (fst (dispatch_queued_job org job_id (clock (Suc n)) db' (A\<lparr>st_store := Some db'\<rparr>)))))"

definition schedule_pass :: "(nat \<Rightarrow> i64) \<Rightarrow> AppState \<Rightarrow> AppState" where
  "schedule_pass clock A = schedule_loop clock 32 A"

end
