(* ===== verification/Hub_Store_Inv.thy ===== *)
theory Hub_Store_Inv
  imports Hub_Store
begin

text \<open>
  The concurrency accounting of the durable store. The invariant says that the counter
  \<open>quota_usage.active_jobs\<close> of an organization is the number of its jobs that are not
  terminal, and that the ledger of concurrency releases holds exactly the terminal
  jobs. Two interfaces cover the updates of a job row: \<open>job_edit\<close> for those that keep
  whether the job is terminal, and \<open>finish_edit\<close> for those that end it and release its
  slot.
\<close>

subsection \<open>The invariant\<close>

definition live_job :: "(key2, StoredJob) hash_map \<Rightarrow> key2 \<Rightarrow> bool" where
  "live_job jobs k =
     (case hm_get jobs k of None \<Rightarrow> False | Some j \<Rightarrow> \<not> terminal_state (j_state j))"

definition done_job :: "(key2, StoredJob) hash_map \<Rightarrow> key2 \<Rightarrow> bool" where
  "done_job jobs k =
     (case hm_get jobs k of None \<Rightarrow> False | Some j \<Rightarrow> terminal_state (j_state j))"

definition active_keys :: "string \<Rightarrow> (key2, StoredJob) hash_map \<Rightarrow> key2 set" where
  "active_keys org jobs = {k. fst k = org \<and> live_job jobs k}"

definition quota_ok ::
  "(key2, StoredJob) hash_map \<Rightarrow> (string, quota_usage_row) hash_map \<Rightarrow> key2 hash_set \<Rightarrow> bool" where
  "quota_ok jobs usage ledger \<longleftrightarrow>
     hm_wf jobs \<and> hm_wf usage \<and> hs_wf ledger \<and>
     (\<forall>k. k \<in> set ledger \<longleftrightarrow> done_job jobs k) \<and>
     (\<forall>org u. hm_get usage org = Some u \<longrightarrow> qu_active_jobs u = int (card (active_keys org jobs)))"

definition quota_inv :: "Db \<Rightarrow> bool" where
  "quota_inv db = quota_ok (db_jobs db) (db_quota_usage db) (db_usage_ledger db)"

lemma finite_active_keys [simp]: "hm_wf jobs \<Longrightarrow> finite (active_keys org jobs)"
  by (rule finite_subset[OF _ hm.finite_dom_get])
    (auto simp: active_keys_def live_job_def split: option.splits)

lemma active_count_card:
  assumes "hm_wf (db_jobs db)"
  shows "active_count org db = card (active_keys org (db_jobs db))"
proof -
  let ?p = "\<lambda>(k, j). fst k = org \<and> \<not> terminal_state (j_state j)"
  have "active_keys org (db_jobs db) = fst ` set (filter ?p (db_jobs db))"
    using assms
    by (fastforce simp: active_keys_def live_job_def hm.in_entries image_iff split: option.splits)
  moreover have "distinct (map fst (filter ?p (db_jobs db)))"
    using assms unfolding hm_wf_def by (rule distinct_map_filter)
  ultimately show ?thesis
    using distinct_card[of "map fst (filter ?p (db_jobs db))"] by (simp add: active_count_def)
qed

lemma live_insert [simp]:
  "hm_wf jobs \<Longrightarrow>
     live_job (hm_insert k j jobs) k' = (if k' = k then \<not> terminal_state (j_state j) else live_job jobs k')"
  by (simp add: live_job_def)

lemma done_insert [simp]:
  "hm_wf jobs \<Longrightarrow>
     done_job (hm_insert k j jobs) k' = (if k' = k then terminal_state (j_state j) else done_job jobs k')"
  by (simp add: done_job_def)

lemma active_keys_insert:
  "hm_wf jobs \<Longrightarrow>
     active_keys org (hm_insert k j jobs) =
       (if terminal_state (j_state j) then active_keys org jobs - {k}
        else if fst k = org then insert k (active_keys org jobs) else active_keys org jobs)"
  by (auto simp: active_keys_def)

lemma hm_wf_update_where [simp]: "hm_wf t \<Longrightarrow> hm_wf (fst (update_where k p f t))"
  by (simp add: update_where_def split: option.splits)

lemma hm_wf_update_key [simp]: "hm_wf t \<Longrightarrow> hm_wf (update_key k f t)"
  by (simp add: update_key_def)

lemma hm_get_update_key [simp]:
  "hm_wf t \<Longrightarrow> hm_get (update_key k f t) = (hm_get t)(k := map_option f (hm_get t k))"
  by (auto simp: update_key_def update_where_def fun_eq_iff split: option.splits)

lemma quota_okD:
  assumes "quota_ok jobs usage ledger"
  shows "hm_wf jobs" "hm_wf usage" "hs_wf ledger" "\<And>k. k \<in> set ledger \<longleftrightarrow> done_job jobs k"
    "\<And>org u. hm_get usage org = Some u \<Longrightarrow> qu_active_jobs u = int (card (active_keys org jobs))"
  using assms unfolding quota_ok_def by blast+

text \<open>What changes a usage row only outside of its counter keeps the invariant.\<close>

lemma quota_ok_usage:
  assumes "quota_ok jobs usage ledger" "\<And>u. qu_active_jobs (f u) = qu_active_jobs u"
  shows "quota_ok jobs (update_key org f usage) ledger"
  using assms by (auto simp: quota_ok_def)

subsection \<open>Updates of a job row\<close>

locale job_edit =
  fixes guard :: "StoredJob \<Rightarrow> bool" and edit :: "StoredJob \<Rightarrow> StoredJob"
  assumes keeps_terminal: "guard j \<Longrightarrow> terminal_state (j_state (edit j)) = terminal_state (j_state j)"
begin

lemma edit_keys:
  assumes "hm_wf jobs"
  shows "live_job (fst (update_where k guard edit jobs)) = live_job jobs"
    "done_job (fst (update_where k guard edit jobs)) = done_job jobs"
  using assms keeps_terminal
  by (auto simp: update_where_def fun_eq_iff live_job_def done_job_def split: option.splits)

lemma edit_quota:
  assumes "quota_ok jobs usage ledger"
  shows "quota_ok (fst (update_where k guard edit jobs)) usage ledger"
  using assms by (simp add: quota_ok_def active_keys_def edit_keys)

end

lemma card_active_finish:
  assumes "hm_wf jobs" "live_job jobs k" "terminal_state (j_state j)" "fst k = org"
  shows "int (card (active_keys org (hm_insert k j jobs))) = int (card (active_keys org jobs)) - 1"
proof -
  have "k \<in> active_keys org jobs" using assms by (simp add: active_keys_def)
  then have "card (active_keys org jobs) = Suc (card (active_keys org jobs - {k}))"
    using assms(1) by (metis card.remove finite_active_keys)
  then show ?thesis using assms by (simp add: active_keys_insert)
qed

lemma active_keys_other: "hm_wf jobs \<Longrightarrow> fst k \<noteq> org \<Longrightarrow> active_keys org (hm_insert k j jobs) = active_keys org jobs"
  by (auto simp: active_keys_def)

lemma release_quota_inv:
  assumes ok: "quota_ok jobs (db_quota_usage db) (db_usage_ledger db)"
    and j: "hm_get jobs (org, job) = Some j" and fin: "terminal_state (j_state j')"
    and db: "db_jobs db = hm_insert (org, job) j' jobs"
  shows "quota_inv (release_job_for_terminal_tx org job now db)"
proof (cases "terminal_state (j_state j)")
  case True
  then have led: "(org, job) \<in> set (db_usage_ledger db)"
    using quota_okD(4)[OF ok] j by (simp add: done_job_def)
  have same: "live_job (db_jobs db) = live_job jobs" "done_job (db_jobs db) = done_job jobs"
    using quota_okD(1)[OF ok] db fin True j by (auto simp: fun_eq_iff live_job_def done_job_def)
  have "quota_ok (db_jobs db) (db_quota_usage db) (db_usage_ledger db)"
    using ok db same by (simp add: quota_ok_def active_keys_def)
  with led show ?thesis by (simp add: quota_inv_def release_job_for_terminal_tx_def)
next
  case False
  have live: "live_job jobs (org, job)" using False j by (simp add: live_job_def)
  have nled: "(org, job) \<notin> set (db_usage_ledger db)"
    using quota_okD(4)[OF ok] False j by (simp add: done_job_def)
  have counter: "max 0 (qu_active_jobs u - 1) = int (card (active_keys org (db_jobs db)))"
    if "hm_get (db_quota_usage db) org = Some u" for u
    using quota_okD(5)[OF ok that] card_active_finish[OF quota_okD(1)[OF ok] live fin] db by simp
  have other: "active_keys org' (db_jobs db) = active_keys org' jobs" if "org' \<noteq> org" for org'
    using that quota_okD(1)[OF ok] db by (simp add: active_keys_other)
  show ?thesis
    using ok nled fin counter other quota_okD(5)[OF ok]
    by (auto simp: quota_inv_def release_job_for_terminal_tx_def quota_ok_def db)
qed

locale finish_edit =
  fixes guard :: "StoredJob \<Rightarrow> bool" and edit :: "StoredJob \<Rightarrow> StoredJob"
  assumes ends: "guard j \<Longrightarrow> terminal_state (j_state (edit j))"
begin

lemma finish_quota:
  assumes "quota_inv db" "update_where (org, job) guard edit (db_jobs db) = (jobs, True)"
    and "db_jobs db' = jobs" "db_quota_usage db' = db_quota_usage db" "db_usage_ledger db' = db_usage_ledger db"
  shows "quota_inv (release_job_for_terminal_tx org job now db')"
proof -
  from assms(2) obtain j where j: "hm_get (db_jobs db) (org, job) = Some j" "guard j"
    "jobs = hm_insert (org, job) (edit j) (db_jobs db)"
    by (auto simp: update_where_def split: option.splits if_splits)
  show ?thesis
    using release_quota_inv[of "db_jobs db" db' org job j "edit j"] assms j ends
    by (simp add: quota_inv_def)
qed

end

interpretation rebind: job_edit
  "\<lambda>j. j_attempt j = attempt \<and> \<not> terminal_state (j_state j) \<and> j_session_id j \<in> {Some expected, Some new}"
  "\<lambda>j. j\<lparr>j_session_id := Some new, j_updated_at := max (j_updated_at j) now\<rparr>"
  for attempt expected new now
  by unfold_locales simp

interpretation cancel_queued: finish_edit
  "\<lambda>j. j_state j = ''queued''"
  "\<lambda>j. j\<lparr>j_state := ''cancelled'', j_error := Some ''cancelled before worker dispatch'', j_updated_at := now\<rparr>"
  for now
  by unfold_locales (simp add: terminal_state_def)

subsection \<open>Submissions\<close>

lemma claim_artifacts_frame [simp]:
  "db_jobs (fst (claim_artifacts org job ids now db)) = db_jobs db"
  "db_quota_usage (fst (claim_artifacts org job ids now db)) = db_quota_usage db"
  "db_quota_policies (fst (claim_artifacts org job ids now db)) = db_quota_policies db"
  "db_usage_ledger (fst (claim_artifacts org job ids now db)) = db_usage_ledger db"
  "db_dispatch_outbox (fst (claim_artifacts org job ids now db)) = db_dispatch_outbox db"
  "db_idempotency (fst (claim_artifacts org job ids now db)) = db_idempotency db"
  by (simp_all add: claim_artifacts_def)

text \<open>
  A submission either changes nothing or commits the job, its charge, its outbox row,
  its inputs and its idempotency record together.
\<close>

lemma commit_new_job_cases:
  assumes "commit_new_job J i ids idem adm db = (db', r)"
  obtains "db' = db" "r \<noteq> Ok JobCreated"
  | quota usage where "r = Ok JobCreated" "resolve_idempotency idem db = None"
      "hm_get (db_quota_policies db) (ju_organization_id i) = Some quota"
      "hm_get (db_quota_usage db) (ju_organization_id i) = Some usage"
      "adm = None \<or> (\<exists>a. adm = Some a \<and> enforce_device_use_policy_tx J a db = Ok ())"
      "qu_active_jobs usage < qp_max_concurrent_jobs quota"
      "period_jobs_now (ju_now i) quota usage < qp_max_jobs_per_period quota"
      "length (snd (claim_artifacts (ju_organization_id i) (ju_id i) ids (ju_now i) db)) = length ids"
      "\<not> hm_contains (db_jobs db) (ju_organization_id i, ju_id i)"
      "\<not> hm_contains (db_dispatch_outbox db) (ju_organization_id i, ju_id i, ju_attempt i)"
      "db_jobs db' = hm_insert (ju_organization_id i, ju_id i) (new_job_row i) (db_jobs db)"
      "db_quota_usage db' = update_key (ju_organization_id i)
         (charge_job (ju_now i) (period_jobs_now (ju_now i) quota usage)) (db_quota_usage db)"
      "db_quota_policies db' = db_quota_policies db"
      "db_usage_ledger db' = db_usage_ledger db"
      "db_dispatch_outbox db' = hm_insert (ju_organization_id i, ju_id i, ju_attempt i)
         (new_outbox_row (i64_saturating_add (ju_now i) INITIAL_DISPATCH_DELAY_MS)) (db_dispatch_outbox db)"
      "db_idempotency db' = (case idem of None \<Rightarrow> db_idempotency db
         | Some ii \<Rightarrow> hm_insert (idempotency_key ii)
             \<lparr>im_request_hash = ii_request_hash ii, im_job_id = ju_id i\<rparr> (db_idempotency db))"
      "db_artifacts db' = db_artifacts (fst (claim_artifacts (ju_organization_id i) (ju_id i) ids (ju_now i) db))"
proof -
  let ?cl = "claim_artifacts (ju_organization_id i) (ju_id i) ids (ju_now i) db"
  have cl: "(if ids \<noteq> [] then ?cl else (db, [])) = (fst ?cl, snd ?cl)"
    by (simp add: claim_artifacts_def claimable_artifact_def case_prod_unfold)
  have cl_len: "(ids \<noteq> [] \<and> length (snd ?cl) \<noteq> length ids) = (length (snd ?cl) \<noteq> length ids)"
    by (auto simp: claim_artifacts_def claimable_artifact_def case_prod_unfold)
  have unresolved: "resolve_idempotency idem db \<noteq> Some (Ok JobCreated)"
    by (auto simp: resolve_idempotency_def split: option.splits)
  show ?thesis
  proof (cases "r = Ok JobCreated")
    case False
    with assms have "db' = db"
      unfolding commit_new_job_def Let_def by (auto split: option.splits sum.splits if_splits prod.splits)
    then show ?thesis using False by (rule that(1))
  next
    case True
    from assms True unresolved obtain quota usage where qu: "resolve_idempotency idem db = None"
      "hm_get (db_quota_policies db) (ju_organization_id i) = Some quota"
      "hm_get (db_quota_usage db) (ju_organization_id i) = Some usage"
      unfolding commit_new_job_def by (auto split: option.splits)
    have adm: "(case adm of None \<Rightarrow> Ok () | Some a \<Rightarrow> enforce_device_use_policy_tx J a db) = Ok ()"
      using assms True qu unfolding commit_new_job_def by (cases adm) (simp_all split: sum.splits)
    note eq = assms[unfolded commit_new_job_def qu adm Let_def cl option.case sum.case prod.case cl_len True]
    from eq have g1: "\<not> (qp_max_concurrent_jobs quota \<le> qu_active_jobs usage \<or>
        qp_max_jobs_per_period quota \<le> period_jobs_now (ju_now i) quota usage)"
      by (rule contrapos_pn) simp
    from eq g1 have g2: "length (snd ?cl) = length ids"
      by (simp split: if_splits option.splits)
    from eq g1 g2 have g3: "\<not> (hm_contains (db_jobs db) (ju_organization_id i, ju_id i) \<or>
        hm_contains (db_dispatch_outbox db) (ju_organization_id i, ju_id i, ju_attempt i))"
      by (simp split: if_splits)
    note db' = eq[unfolded if_not_P[OF g1], simplified g2 g3 claim_artifacts_frame, simplified]
    show ?thesis
      by (rule that(2)[OF True qu])
        (use adm g1 g2 g3 in \<open>auto simp: db'[symmetric] split: option.splits\<close>)
  qed
qed

lemma charge_job_active [simp]: "qu_active_jobs (charge_job now p u) = qu_active_jobs u + 1"
  by (simp add: charge_job_def)

lemma active_keys_admit:
  assumes "hm_wf jobs" "hm_get jobs k = None" "\<not> terminal_state (j_state j)"
  shows "card (active_keys org (hm_insert k j jobs)) =
    card (active_keys org jobs) + (if fst k = org then 1 else 0)"
proof -
  have "k \<notin> active_keys org jobs" using assms by (simp add: active_keys_def live_job_def)
  then show ?thesis using assms by (simp add: active_keys_insert)
qed

lemma admit_quota:
  assumes "quota_ok jobs usage ledger" "hm_get jobs (org, job) = None" "\<not> terminal_state (j_state j)"
    and "\<And>u. qu_active_jobs (f u) = qu_active_jobs u + 1"
  shows "quota_ok (hm_insert (org, job) j jobs) (update_key org f usage) ledger"
  using assms active_keys_admit[OF quota_okD(1)[OF assms(1)] assms(2,3)] quota_okD(5)[OF assms(1)]
  by (auto simp: quota_ok_def done_job_def split: if_splits)

lemma commit_new_job_quota:
  assumes "quota_inv db" "\<not> terminal_state (ju_state i)" "commit_new_job J i ids idem adm db = (db', r)"
  shows "quota_inv db'"
  using assms(3)
proof (cases rule: commit_new_job_cases)
  case 1
  then show ?thesis using assms by simp
next
  case (2 quota usage)
  then show ?thesis
    using assms(1,2) unfolding quota_inv_def
    by (simp add: admit_quota hm_contains_def new_job_row_def)
qed

lemma insert_child_SomeD:
  assumes "insert_child J b now c db = Some db'"
  shows "hm_get (db_jobs db) (bi_organization_id b, bc_job_id c) = None"
    "db_jobs db' = hm_insert (bi_organization_id b, bc_job_id c) (child_job_row J b now c) (db_jobs db)"
    "db_quota_usage db' = db_quota_usage db" "db_quota_policies db' = db_quota_policies db"
    "db_usage_ledger db' = db_usage_ledger db" "db_idempotency db' = db_idempotency db"
    "db_dispatch_outbox db' = db_dispatch_outbox db" "db_artifacts db' = db_artifacts db"
    "db_batch_idempotency db' = db_batch_idempotency db"
  using assms by (auto simp: insert_child_def Let_def hm_contains_def split: if_splits)

lemma insert_children_frame:
  "insert_children J b now cs db = Some db' \<Longrightarrow>
     db_quota_usage db' = db_quota_usage db \<and> db_quota_policies db' = db_quota_policies db \<and>
     db_usage_ledger db' = db_usage_ledger db \<and> db_idempotency db' = db_idempotency db \<and>
     db_dispatch_outbox db' = db_dispatch_outbox db \<and> db_artifacts db' = db_artifacts db \<and>
     db_batch_idempotency db' = db_batch_idempotency db"
proof (induction cs arbitrary: db)
  case (Cons c cs)
  from Cons.prems obtain db1 where "insert_child J b now c db = Some db1"
    and rest: "insert_children J b now cs db1 = Some db'"
    by (auto split: option.splits)
  from insert_child_SomeD[OF this(1)] Cons.IH[OF rest] show ?case by simp
qed simp

lemma insert_children_jobs:
  "insert_children J b now cs db = Some db' \<Longrightarrow> hm_wf (db_jobs db) \<Longrightarrow>
     hm_wf (db_jobs db') \<and> done_job (db_jobs db') = done_job (db_jobs db) \<and>
     card (active_keys org (db_jobs db')) =
       card (active_keys org (db_jobs db)) + (if org = bi_organization_id b then length cs else 0)"
proof (induction cs arbitrary: db)
  case (Cons c cs)
  from Cons.prems(1) obtain db1 where db1: "insert_child J b now c db = Some db1"
    and rest: "insert_children J b now cs db1 = Some db'"
    by (auto split: option.splits)
  note one = insert_child_SomeD[OF db1]
  have nt: "\<not> terminal_state (j_state (child_job_row J b now c))"
    by (simp add: child_job_row_def terminal_state_def)
  have wf: "hm_wf (db_jobs db1)" using Cons.prems(2) one(2) by simp
  have card: "card (active_keys org (db_jobs db1)) =
    card (active_keys org (db_jobs db)) + (if bi_organization_id b = org then 1 else 0)"
    using active_keys_admit[OF Cons.prems(2) one(1) nt] one(2) by simp
  have dn: "done_job (db_jobs db1) = done_job (db_jobs db)"
    using one(1,2) nt Cons.prems(2) by (auto simp: fun_eq_iff done_job_def)
  show ?case using Cons.IH[OF rest wf] card dn by simp
qed simp

lemma commit_new_batch_cases:
  assumes "commit_new_batch J b cs shared idem adm now db = (db', r)"
  obtains "db' = db" "r \<noteq> Ok BatchCreated"
  | policy usage db2 where "r = Ok BatchCreated" "resolve_batch_idempotency idem db = None"
      "hm_get (db_quota_policies db) (bi_organization_id b) = Some policy"
      "hm_get (db_quota_usage db) (bi_organization_id b) = Some usage"
      "adm = None \<or> (\<exists>a. adm = Some a \<and> enforce_device_use_policy_tx J a db = Ok ())"
      "bi_total_jobs b \<le> qp_max_batch_jobs policy"
      "qu_active_jobs usage + bi_total_jobs b \<le> qp_max_concurrent_jobs policy"
      "insert_children J b now cs (db\<lparr>db_job_batches := hm_insert (bi_organization_id b, bi_batch_id b)
         \<lparr>b_device_organization_id = bi_device_organization_id b, b_device_id = bi_device_id b\<rparr>
         (db_job_batches db)\<rparr>) = Some db2"
      "db_jobs db' = db_jobs db2" "db_usage_ledger db' = db_usage_ledger db2"
      "db_quota_policies db' = db_quota_policies db2" "db_idempotency db' = db_idempotency db2"
      "db_dispatch_outbox db' = db_dispatch_outbox db2" "db_artifacts db' = db_artifacts db2"
      "\<exists>f. db_quota_usage db' = update_key (bi_organization_id b) f (db_quota_usage db2) \<and>
         (\<forall>u. qu_active_jobs (f u) = qu_active_jobs u + bi_total_jobs b)"
      "db_batch_idempotency db' = (case idem of None \<Rightarrow> db_batch_idempotency db2
         | Some ii \<Rightarrow> hm_insert (idempotency_key ii)
             \<lparr>im_request_hash = ii_request_hash ii, im_job_id = ii_job_id ii\<rparr> (db_batch_idempotency db2))"
proof -
  have unresolved: "resolve_batch_idempotency idem db \<noteq> Some (Ok BatchCreated)"
    by (auto simp: resolve_batch_idempotency_def split: option.splits)
  note splits = option.splits sum.splits if_splits prod.splits
  show ?thesis
  proof (cases "r = Ok BatchCreated")
    case False
    with assms have "db' = db"
      unfolding commit_new_batch_def Let_def by (auto split: splits)
    then show ?thesis using False by (rule that(1))
  next
    case True
    from assms True unresolved obtain policy usage where pu:
      "resolve_batch_idempotency idem db = None"
      "hm_get (db_quota_policies db) (bi_organization_id b) = Some policy"
      "hm_get (db_quota_usage db) (bi_organization_id b) = Some usage"
      unfolding commit_new_batch_def by (auto split: splits)
    show ?thesis
      using assms True pu unfolding commit_new_batch_def Let_def
      by (auto split: splits intro!: that(2)[of policy usage] exI conjI)
  qed
qed

lemma commit_new_batch_quota:
  assumes inv: "quota_inv db" and n: "bi_total_jobs b = int (length cs)"
    and "commit_new_batch J b cs shared idem adm now db = (db', r)"
  shows "quota_inv db'"
  using assms(3)
proof (cases rule: commit_new_batch_cases)
  case 1
  then show ?thesis using inv by simp
next
  case (2 policy usage db2)
  note ok = inv[unfolded quota_inv_def]
  from 2(15) obtain f where f: "db_quota_usage db' = update_key (bi_organization_id b) f (db_quota_usage db2)"
    "\<And>u. qu_active_jobs (f u) = qu_active_jobs u + bi_total_jobs b" by blast
  note ins = insert_children_jobs[OF 2(8), simplified, OF quota_okD(1)[OF ok]]
    insert_children_frame[OF 2(8), simplified]
  show ?thesis
    using ok ins f n quota_okD(5)[OF ok] 2(9,10) by (auto simp: quota_inv_def quota_ok_def)
qed

subsection \<open>The other methods\<close>

lemma append_output_quota:
  assumes "quota_inv db" "append_job_output_artifact J org job attempt artifact session_id now db = (db', r)"
  shows "quota_inv db'"
proof -
  have "quota_ok (hm_insert k (j\<lparr>j_output_artifact_ids_json := t, j_updated_at := n\<rparr>) (db_jobs db))
      (db_quota_usage db) (db_usage_ledger db)"
    if "hm_get (db_jobs db) k = Some j" for k j t n
    using job_edit.edit_quota[OF job_edit.intro assms(1)[unfolded quota_inv_def], of "\<lambda>_. True"
        "\<lambda>j. j\<lparr>j_output_artifact_ids_json := t, j_updated_at := n\<rparr>" k] that
    by (simp add: update_where_def)
  with assms show ?thesis
    by (auto simp: append_job_output_artifact_def quota_inv_def split: option.splits if_splits)
qed

lemma complete_upload_quota:
  assumes "quota_inv db" "complete_job_output_upload J i db = (db', r)"
  shows "quota_inv db'"
  using assms append_output_quota[OF assms(1)]
  by (auto simp: complete_job_output_upload_def quota_inv_def
      split: option.splits if_splits prod.splits sum.splits)

lemma rebind_quota:
  "quota_inv db \<Longrightarrow> quota_inv (fst (rebind_job_session org job attempt expected new now db))"
  using rebind.edit_quota[of "db_jobs db" "db_quota_usage db" "db_usage_ledger db" "(org, job)" attempt expected new now]
  by (simp add: rebind_job_session_def quota_inv_def case_prod_unfold Let_def)

lemma update_job_if_current_quota:
  assumes inv: "quota_inv db"
    and stays: "terminal_state (cu_expected_state u) \<Longrightarrow> cu_state u \<noteq> None \<Longrightarrow> terminal_state (the (cu_state u))"
  shows "quota_inv (fst (update_job_if_current u db))"
proof -
  let ?g = "\<lambda>j. j_attempt j = cu_attempt u \<and> j_state j = cu_expected_state u \<and>
                 j_last_event j = cu_expected_last_event u"
  let ?e = "\<lambda>j. j\<lparr>j_state := (case cu_state u of None \<Rightarrow> j_state j | Some s \<Rightarrow> s), j_error := cu_error u,
                    j_updated_at := max (j_updated_at j) (cu_now u)\<rparr>"
  obtain jobs updated where up: "update_where (cu_organization_id u, cu_id u) ?g ?e (db_jobs db) = (jobs, updated)"
    by fastforce
  show ?thesis
  proof (cases "updated \<and> (\<exists>s. cu_state u = Some s \<and> terminal_state s)")
    case True
    have "finish_edit ?g ?e" by unfold_locales (use True in auto)
    from finish_edit.finish_quota[OF this inv, of "cu_organization_id u" "cu_id u" jobs "db\<lparr>db_jobs := jobs\<rparr>"] True up
    show ?thesis by (auto simp: update_job_if_current_def)
  next
    case False
    have edit: "quota_ok jobs (db_quota_usage db) (db_usage_ledger db)"
    proof (cases updated)
      case True
      have "job_edit ?g ?e" by unfold_locales (use False True stays in \<open>auto split: option.splits\<close>)
      from job_edit.edit_quota[OF this inv[unfolded quota_inv_def], of "(cu_organization_id u, cu_id u)"] up
      show ?thesis by simp
    next
      case False
      with up have "jobs = db_jobs db" by (auto simp: update_where_def split: option.splits if_splits)
      with inv show ?thesis by (simp add: quota_inv_def)
    qed
    with False up show ?thesis
      by (auto simp: update_job_if_current_def quota_inv_def Let_def split: option.splits)
  qed
qed

lemma insert_event_frame:
  "insert_event i db = Some db' \<Longrightarrow>
     db_jobs db' = db_jobs db \<and> db_quota_usage db' = db_quota_usage db \<and>
     db_usage_ledger db' = db_usage_ledger db \<and> db_idempotency db' = db_idempotency db \<and>
     db_quota_policies db' = db_quota_policies db \<and> db_dispatch_outbox db' = db_dispatch_outbox db \<and>
     db_artifacts db' = db_artifacts db \<and> db_batch_idempotency db' = db_batch_idempotency db"
  by (auto simp: insert_event_def split: option.splits if_splits)

text \<open>The guard and the edit of the job row in \<open>apply_job_event\<close>.\<close>

definition event_guard :: "EventInsert \<Rightarrow> JobEventUpdate \<Rightarrow> StoredJob \<Rightarrow> bool" where
  "event_guard i u j \<longleftrightarrow>
     j_attempt j = ei_attempt i \<and> j_state j = eu_expected_state u \<and>
     j_last_event j = eu_expected_last_event u \<and>
     j_session_id j \<in> {Some (eu_expected_session_id u), Some (eu_session_id u)}"

definition event_edit :: "EventInsert \<Rightarrow> JobEventUpdate \<Rightarrow> StoredJob \<Rightarrow> StoredJob" where
  "event_edit i u j =
     j\<lparr>j_session_id := Some (eu_session_id u), j_state := eu_state u,
       j_progress := coalesce (ei_progress i) (j_progress j),
       j_prompt_id := coalesce (ei_prompt_id i) (j_prompt_id j),
       j_error := eu_error u, j_last_event := max (j_last_event j) (ei_sequence i),
       j_updated_at := max (j_updated_at j) (ei_now i)\<rparr>"

lemma store_apply_job_event_cases:
  assumes "store_apply_job_event i u db = (db', r)"
  obtains "db' = db" "r \<noteq> Ok True"
  | j db1 where "r = Ok True" "insert_event i db = Some db1"
      "hm_get (db_jobs db) (ei_organization_id i, ei_job_id i) = Some j" "event_guard i u j"
      "db' = (let db2 = db1\<lparr>db_jobs := hm_insert (ei_organization_id i, ei_job_id i) (event_edit i u j) (db_jobs db)\<rparr>
              in if terminal_state (eu_state u)
                 then release_job_for_terminal_tx (ei_organization_id i) (ei_job_id i) (ei_now i) db2 else db2)"
proof -
  have ge: "update_where k
      (\<lambda>j. j_attempt j = ei_attempt i \<and> j_state j = eu_expected_state u \<and>
           j_last_event j = eu_expected_last_event u \<and>
           j_session_id j \<in> {Some (eu_expected_session_id u), Some (eu_session_id u)})
      (\<lambda>j. j\<lparr>j_session_id := Some (eu_session_id u), j_state := eu_state u,
             j_progress := coalesce (ei_progress i) (j_progress j),
             j_prompt_id := coalesce (ei_prompt_id i) (j_prompt_id j),
             j_error := eu_error u, j_last_event := max (j_last_event j) (ei_sequence i),
             j_updated_at := max (j_updated_at j) (ei_now i)\<rparr>) t =
      update_where k (event_guard i u) (event_edit i u) t" for k t
    by (simp only: event_guard_def[abs_def] event_edit_def[abs_def])
  note eq = assms[unfolded store_apply_job_event_def ge]
  show ?thesis
  proof (cases "hm_get (db_jobs db) (ei_organization_id i, ei_job_id i)")
    case None
    with eq that(1) show ?thesis by (auto simp: hm_contains_def)
  next
    case j: (Some j)
    show ?thesis
    proof (cases "insert_event i db")
      case None
      with eq j that(1) show ?thesis by (auto simp: hm_contains_def)
    next
      case db1: (Some db1)
      note frame = insert_event_frame[OF db1]
      show ?thesis
      proof (cases "event_guard i u j")
        case True
        with eq j db1 frame that(2)[OF _ db1 j] show ?thesis
          by (auto simp: hm_contains_def update_where_def Let_def)
      next
        case False
        with eq j db1 frame that(1) show ?thesis
          by (auto simp: hm_contains_def update_where_def Let_def)
      qed
    qed
  qed
qed

lemma store_apply_job_event_quota:
  assumes inv: "quota_inv db"
    and stays: "terminal_state (eu_expected_state u) \<Longrightarrow> terminal_state (eu_state u)"
    and "store_apply_job_event i u db = (db', r)"
  shows "quota_inv db'"
  using assms(3)
proof (cases rule: store_apply_job_event_cases)
  case 1
  then show ?thesis using inv by simp
next
  case (2 j db1)
  let ?k = "(ei_organization_id i, ei_job_id i)"
  have up: "update_where ?k (event_guard i u) (event_edit i u) (db_jobs db) =
      (hm_insert ?k (event_edit i u j) (db_jobs db), True)"
    using 2(3,4) by (simp add: update_where_def)
  note frame = insert_event_frame[OF 2(2)]
  show ?thesis
  proof (cases "terminal_state (eu_state u)")
    case True
    have "finish_edit (event_guard i u) (event_edit i u)"
      by unfold_locales (simp add: event_edit_def True)
    from finish_edit.finish_quota[OF this inv up] True 2(5) frame show ?thesis by simp
  next
    case False
    have "job_edit (event_guard i u) (event_edit i u)"
      by unfold_locales (use False stays in \<open>auto simp: event_guard_def event_edit_def\<close>)
    from job_edit.edit_quota[OF this inv[unfolded quota_inv_def], of ?k] up False 2(5) frame
    show ?thesis by (simp add: quota_inv_def)
  qed
qed

lemma bind_queued_job_quota:
  assumes inv: "quota_inv db"
  shows "quota_inv (fst (bind_queued_job org job worg wid sid now db))"
proof -
  let ?e = "\<lambda>j. j\<lparr>j_worker_id := Some wid, j_worker_organization_id := Some worg,
                   j_session_id := Some sid, j_state := ''received'', j_updated_at := now\<rparr>"
  have "job_edit (\<lambda>j. j_state j = ''queued'') ?e"
    by unfold_locales (simp add: terminal_state_def)
  from job_edit.edit_quota[OF this inv[unfolded quota_inv_def], of "(org, job)"] inv show ?thesis
    by (auto simp: bind_queued_job_def update_where_def quota_inv_def Let_def split: option.splits)
qed

lemma cancel_queued_job_quota:
  assumes inv: "quota_inv db"
  shows "quota_inv (fst (cancel_queued_job org job now db))"
proof -
  let ?u = "update_where (org, job) (\<lambda>j. j_state j = ''queued'')
       (\<lambda>j. j\<lparr>j_state := ''cancelled'', j_error := Some ''cancelled before worker dispatch'',
               j_updated_at := now\<rparr>) (db_jobs db)"
  obtain jobs updated where up: "?u = (jobs, updated)" by fastforce
  show ?thesis
    using cancel_queued.finish_quota[OF inv, of org job now jobs "db\<lparr>db_jobs := jobs,
        db_job_dispatch_queue := hm_remove (org, job) (db_job_dispatch_queue db)\<rparr>"] up inv
    by (cases updated) (simp_all add: cancel_queued_job_def)
qed

text \<open>
  The reconciliation makes every counter exact whatever it was before; the ledger is
  exact when it was.
\<close>

definition reconciled_jobs :: "i64 \<Rightarrow> i64 \<Rightarrow> Db \<Rightarrow> (key2, StoredJob) hash_map" where
  "reconciled_jobs now cutoff db = map (\<lambda>(k, j). (k, if stale_job db cutoff j
     then j\<lparr>j_state := ''failed'',
            j_error := Some ''worker session unavailable during quota reconciliation'',
            j_updated_at := now\<rparr> else j)) (db_jobs db)"

lemma hm_get_map_values: "hm_get (map (\<lambda>(k, v). (k, f k v)) m) k = map_option (f k) (hm_get m k)"
  by (induction m) (auto simp: hm_get_def)

lemma hm_wf_map_values [simp]: "hm_wf (map (\<lambda>(k, v). (k, f k v)) m) = hm_wf m"
  by (simp add: hm_wf_def comp_def case_prod_unfold)

lemma set_foldl_hs_insert: "set (foldl (\<lambda>l (k, j). hs_insert k l) s xs) = set s \<union> fst ` set xs"
  by (induction xs arbitrary: s) auto

lemma hs_wf_foldl_insert: "hs_wf s \<Longrightarrow> hs_wf (foldl (\<lambda>l (k, j). hs_insert k l) s xs)"
  by (induction xs arbitrary: s) auto

lemma reconcile_tables:
  fixes now stale_after_ms db
  defines "cutoff \<equiv> i64_saturating_sub now (max stale_after_ms 1000)"
  defines "db' \<equiv> fst (reconcile_active_job_quota now stale_after_ms db)"
  assumes wf: "hm_wf (db_jobs db)" "hm_wf (db_quota_usage db)"
  shows "db_jobs db' = reconciled_jobs now cutoff db"
    "hm_wf (db_quota_usage db')"
    "hm_get (db_quota_usage db') org = map_option (\<lambda>u.
       if qu_active_jobs u \<noteq> int (card (active_keys org (db_jobs db')))
       then u\<lparr>qu_active_jobs := int (card (active_keys org (db_jobs db'))), qu_updated_at := now\<rparr> else u)
       (hm_get (db_quota_usage db) org)"
    "set (db_usage_ledger db') = set (db_usage_ledger db) \<union>
       {k. \<exists>j. hm_get (db_jobs db) k = Some j \<and> stale_job db cutoff j}"
    "hs_wf (db_usage_ledger db) \<Longrightarrow> hs_wf (db_usage_ledger db')"
proof -
  let ?l = "foldl (\<lambda>l (k, j). hs_insert k l) (db_usage_ledger db)
      (filter (\<lambda>(k, j). stale_job db cutoff j) (db_jobs db))"
  let ?db1 = "db\<lparr>db_jobs := reconciled_jobs now cutoff db, db_usage_ledger := ?l\<rparr>"
  have d: "db' = ?db1\<lparr>db_quota_usage := map (\<lambda>(org, u). (org,
      if qu_active_jobs u \<noteq> int (active_count org ?db1)
      then u\<lparr>qu_active_jobs := int (active_count org ?db1), qu_updated_at := now\<rparr> else u)) (db_quota_usage db)\<rparr>"
    unfolding db'_def cutoff_def reconcile_active_job_quota_def Let_def reconciled_jobs_def fst_conv
    by (rule arg_cong[where f = "\<lambda>t. _\<lparr>db_quota_usage := t\<rparr>"]) simp
  show j: "db_jobs db' = reconciled_jobs now cutoff db" by (simp add: d)
  have wfj: "hm_wf (reconciled_jobs now cutoff db)" using wf by (simp add: reconciled_jobs_def)
  then have c: "active_count org ?db1 = card (active_keys org (db_jobs db'))" for org
    using active_count_card[of ?db1] j by simp
  have usage: "db_quota_usage db' = map (\<lambda>(org, u). (org,
      if qu_active_jobs u \<noteq> int (active_count org ?db1)
      then u\<lparr>qu_active_jobs := int (active_count org ?db1), qu_updated_at := now\<rparr> else u)) (db_quota_usage db)"
    by (subst d) simp
  show "hm_wf (db_quota_usage db')" using wf by (simp add: usage)
  show "hm_get (db_quota_usage db') org = map_option (\<lambda>u.
       if qu_active_jobs u \<noteq> int (card (active_keys org (db_jobs db')))
       then u\<lparr>qu_active_jobs := int (card (active_keys org (db_jobs db'))), qu_updated_at := now\<rparr> else u)
       (hm_get (db_quota_usage db) org)"
    unfolding usage hm_get_map_values c ..
  have "fst ` set (filter (\<lambda>(k, j). stale_job db cutoff j) (db_jobs db)) =
      {k. \<exists>j. hm_get (db_jobs db) k = Some j \<and> stale_job db cutoff j}"
    using wf(1) by (force simp: hm.in_entries[symmetric])
  then show "set (db_usage_ledger db') = set (db_usage_ledger db) \<union>
       {k. \<exists>j. hm_get (db_jobs db) k = Some j \<and> stale_job db cutoff j}"
    by (simp add: d set_foldl_hs_insert)
  show "hs_wf (db_usage_ledger db')" if "hs_wf (db_usage_ledger db)"
    using that by (simp add: d hs_wf_foldl_insert)
qed

lemma done_reconciled:
  "done_job (reconciled_jobs now cutoff db) k \<longleftrightarrow>
     done_job (db_jobs db) k \<or> (\<exists>j. hm_get (db_jobs db) k = Some j \<and> stale_job db cutoff j)"
  by (auto simp: done_job_def reconciled_jobs_def hm_get_map_values terminal_state_def split: option.splits)

lemma reconcile_quota:
  assumes "hm_wf (db_jobs db)" "hm_wf (db_quota_usage db)" "hs_wf (db_usage_ledger db)"
    and "\<And>k. k \<in> set (db_usage_ledger db) \<longleftrightarrow> done_job (db_jobs db) k"
  shows "quota_inv (fst (reconcile_active_job_quota now stale_after_ms db))"
proof -
  note t = reconcile_tables[OF assms(1,2), of now stale_after_ms]
  have "qu_active_jobs u = int (card (active_keys org (db_jobs (fst (reconcile_active_job_quota now stale_after_ms db)))))"
    if "hm_get (db_quota_usage (fst (reconcile_active_job_quota now stale_after_ms db))) org = Some u" for org u
  proof -
    from that obtain u0 where "u = (if qu_active_jobs u0 \<noteq>
          int (card (active_keys org (db_jobs (fst (reconcile_active_job_quota now stale_after_ms db)))))
        then u0\<lparr>qu_active_jobs := int (card (active_keys org
               (db_jobs (fst (reconcile_active_job_quota now stale_after_ms db))))), qu_updated_at := now\<rparr>
        else u0)"
      unfolding t(3) by auto
    then show ?thesis by simp
  qed
  moreover have "hm_wf (db_jobs (fst (reconcile_active_job_quota now stale_after_ms db)))"
    using assms(1) by (simp add: t(1) reconciled_jobs_def)
  ultimately show ?thesis
    unfolding quota_inv_def quota_ok_def t(4) using t(2,5) assms(3,4) by (simp add: t(1) done_reconciled)
qed

lemma storage_quota:
  assumes "quota_inv db"
  shows "quota_inv (fst (reserve_storage now org bytes db))" "quota_inv (release_storage now org bytes db)"
  using assms
  by (auto simp: reserve_storage_def release_storage_def quota_inv_def split: option.splits intro!: quota_ok_usage)

lemma release_storage_frame [simp]:
  "db_jobs (release_storage now org bytes db) = db_jobs db"
  "db_usage_ledger (release_storage now org bytes db) = db_usage_ledger db"
  "db_artifacts (release_storage now org bytes db) = db_artifacts db"
  "db_upload_requests (release_storage now org bytes db) = db_upload_requests db"
  "db_idempotency (release_storage now org bytes db) = db_idempotency db"
  by (simp_all add: release_storage_def)

lemma foldl_release_storage_inv:
  assumes "\<And>d org bytes. P d \<Longrightarrow> P (release_storage now org bytes d)" "P d"
  shows "P (foldl (\<lambda>d a. release_storage now (a_organization_id a) (a_size_bytes a) d) d xs)"
  using assms(2) by (induction xs arbitrary: d) (simp_all add: assms(1))

lemma reclaim_quota:
  assumes "quota_inv db"
  shows "quota_inv (fst (reclaim_expired_uploads now limit db))"
proof -
  have upd: "quota_inv (d\<lparr>db_artifacts := x\<rparr>) = quota_inv d" "quota_inv (d\<lparr>db_upload_requests := y\<rparr>) = quota_inv d"
    for d x y by (simp_all add: quota_inv_def)
  show ?thesis
    unfolding reclaim_expired_uploads_def Let_def fst_conv upd
    by (rule foldl_release_storage_inv) (simp_all add: storage_quota upd assms)
qed

end
