(* ===== verification/Hub_Store_Props.thy ===== *)
theory Hub_Store_Props
  imports Hub_Store_Inv
begin

text \<open>
  The contract of the durable store over any sequence of its methods: the concurrency
  accounting, the submission limits, idempotent resubmission, the optimistic update of
  a job row, the claim of inputs, the leases of the dispatch queue and the pages of
  the job listing.
\<close>

subsection \<open>Runs of the store\<close>

text \<open>
  One call of a method by the Hub. The side conditions are those the callers
  establish: a job is submitted in a state that is not terminal, a batch names as many
  jobs as it has children, and an update never leaves a terminal state.
\<close>

inductive store_step :: "json_codec \<Rightarrow> Db \<Rightarrow> Db \<Rightarrow> bool" for J where
  commit_job: "\<not> terminal_state (ju_state i) \<Longrightarrow> commit_new_job J i ids idem adm db = (db', r) \<Longrightarrow> store_step J db db'"
| commit_batch: "bi_total_jobs b = int (length cs) \<Longrightarrow> commit_new_batch J b cs shared idem adm now db = (db', r) \<Longrightarrow>
    store_step J db db'"
| apply_event: "(terminal_state (eu_expected_state u) \<longrightarrow> terminal_state (eu_state u)) \<Longrightarrow>
    store_apply_job_event ei u db = (db', re) \<Longrightarrow> store_step J db db'"
| update_current: "(terminal_state (cu_expected_state cu) \<and> cu_state cu \<noteq> None \<longrightarrow> terminal_state (the (cu_state cu))) \<Longrightarrow>
    store_step J db (fst (update_job_if_current cu db))"
| rebind: "store_step J db (fst (rebind_job_session org job attempt expected new now db))"
| append_output: "append_job_output_artifact J org job attempt artifact session_id now db = (db', rb) \<Longrightarrow> store_step J db db'"
| complete_upload: "complete_job_output_upload J co db = (db', rb) \<Longrightarrow> store_step J db db'"
| bind_queued: "store_step J db (fst (bind_queued_job org job worg wid sid now db))"
| cancel_queued: "store_step J db (fst (cancel_queued_job org job now db))"
| release_terminal: "store_step J db (release_job_for_terminal now org job db)"
| reconcile: "store_step J db (fst (reconcile_active_job_quota now stale_after_ms db))"
| policy: "store_step J db (fst (update_quota_policy org mj mb mp ps db))"
| storage: "store_step J db (fst (reserve_storage now org bytes db))"
| unstorage: "store_step J db (release_storage now org bytes db)"
| artifact: "store_step J db (fst (create_artifact af db))"
| reclaim: "store_step J db (fst (reclaim_expired_uploads now limit db))"
| artifact_state: "store_step J db (fst (set_artifact_state org artifact st now db))"
| bind_artifact: "store_step J db (fst (bind_artifact_job org artifact job now db))"
| upload_request: "store_step J db (fst (upsert_upload_request org request artifact jo att now db))"
| delivered: "store_step J db (mark_dispatch_delivered now org job attempt db)"
| claim: "store_step J db (fst (claim_dispatches now limit db))"
| dispatch_error: "store_step J db (store_record_dispatch_error now org job attempt error db)"
| claim_queue: "store_step J db (fst (claim_dispatch_queue_job owner secs now db))"
| unqueue: "store_step J db (remove_from_dispatch_queue org job db)"
| put_idem: "store_step J db (fst (put_idempotency ii db))"
| worker: "store_step J db (fst (upsert_worker org wid owner_user sid now db))"
| heartbeat: "store_step J db (touch_worker_heartbeat org wid sid now db)"

definition store_reaches :: "json_codec \<Rightarrow> Db \<Rightarrow> Db \<Rightarrow> bool" where
  "store_reaches J = (store_step J)\<^sup>*\<^sup>*"

lemma release_terminal_quota:
  assumes "quota_inv db"
  shows "quota_inv (release_job_for_terminal now org job db)"
proof -
  have "(org, job) \<in> set (db_usage_ledger db)"
    if "hm_get (db_jobs db) (org, job) = Some j" "terminal_state (j_state j)" for j
    using assms that quota_okD(4) by (fastforce simp: quota_inv_def done_job_def)
  then show ?thesis
    using assms by (auto simp: release_job_for_terminal_def release_job_for_terminal_tx_def split: option.splits)
qed

lemma frame_quota:
  assumes "quota_inv db"
  shows "quota_inv (fst (update_quota_policy org mj mb mp ps db))"
    "quota_inv (fst (create_artifact af db))"
    "quota_inv (fst (set_artifact_state org artifact st now db))"
    "quota_inv (fst (bind_artifact_job org artifact job now db))"
    "quota_inv (fst (upsert_upload_request org request artifact jo att now db))"
    "quota_inv (mark_dispatch_delivered now org job attempt db)"
    "quota_inv (fst (claim_dispatches now limit db))"
    "quota_inv (store_record_dispatch_error now org job attempt error db)"
    "quota_inv (fst (claim_dispatch_queue_job owner secs now db))"
    "quota_inv (remove_from_dispatch_queue org job db)"
    "quota_inv (fst (put_idempotency ii db))"
    "quota_inv (fst (upsert_worker org wid owner_user sid now db))"
    "quota_inv (touch_worker_heartbeat org wid sid now db)"
  using assms
  by (auto simp: quota_inv_def update_quota_policy_def create_artifact_def set_artifact_state_def
      bind_artifact_job_def upsert_upload_request_def mark_dispatch_delivered_def claim_dispatches_def
      store_record_dispatch_error_def claim_dispatch_queue_job_def remove_from_dispatch_queue_def
      put_idempotency_def upsert_worker_def touch_worker_heartbeat_def Let_def case_prod_unfold
      split: option.splits list.splits)

lemma store_step_quota:
  assumes "store_step J db db'" "quota_inv db"
  shows "quota_inv db'"
  using assms
proof (cases rule: store_step.cases)
  case (update_current cu)
  then show ?thesis using assms(2) by (auto intro!: update_job_if_current_quota)
next
  case (reconcile now s)
  then show ?thesis using assms(2) quota_okD[OF assms(2)[unfolded quota_inv_def]] by (auto intro!: reconcile_quota)
qed (auto intro: commit_new_job_quota commit_new_batch_quota store_apply_job_event_quota rebind_quota
    append_output_quota complete_upload_quota bind_queued_job_quota cancel_queued_job_quota
    release_terminal_quota storage_quota reclaim_quota frame_quota)

lemma store_reaches_quota:
  assumes "store_reaches J db db'" "quota_inv db"
  shows "quota_inv db'"
  using assms unfolding store_reaches_def
  by (induction rule: rtranclp_induct) (auto intro: store_step_quota)

text \<open>A store as the migrations and the first organizations leave it: no job was submitted.\<close>

definition empty_store :: "Db \<Rightarrow> bool" where
  "empty_store db \<longleftrightarrow>
     db_jobs db = [] \<and> db_usage_ledger db = [] \<and> db_idempotency db = [] \<and> db_dispatch_outbox db = [] \<and>
     db_artifacts db = [] \<and> hm_wf (db_quota_usage db) \<and> hm_wf (db_quota_policies db) \<and>
     list_all (\<lambda>(org, u). qu_active_jobs u = 0) (db_quota_usage db)"

lemma empty_store_quota: "empty_store db \<Longrightarrow> quota_inv db"
  using hm.in_entries[of "db_quota_usage db"]
  by (fastforce simp: empty_store_def quota_inv_def quota_ok_def done_job_def live_job_def active_keys_def
      list_all_iff)

lemma reachable_quota: "empty_store db0 \<Longrightarrow> store_reaches J db0 db \<Longrightarrow> quota_inv db"
  by (blast intro: store_reaches_quota empty_store_quota)

text \<open>
  C2: Over any run of the store's methods from a database without jobs whose counters
  are zero, the counter \<open>active_jobs\<close> of every organization equals the number of its
  jobs that are not terminal, and the ledger records the concurrency release of a job
  exactly when the job is terminal: a slot is given back once, and never before the
  job ends.
\<close>
theorem store_concurrency_exact:
  assumes "empty_store db" "store_reaches J db db'"
  shows "(\<forall>org u. hm_get (db_quota_usage db') org = Some u \<longrightarrow> qu_active_jobs u = int (active_count org db')) \<and>
    distinct (db_usage_ledger db') \<and>
    (\<forall>k. k \<in> set (db_usage_ledger db') \<longleftrightarrow>
       (\<exists>j. hm_get (db_jobs db') k = Some j \<and> terminal_state (j_state j)))"
proof -
  from reachable_quota[OF assms] have inv: "quota_ok (db_jobs db') (db_quota_usage db') (db_usage_ledger db')"
    by (simp add: quota_inv_def)
  show ?thesis
    using quota_okD(3-5)[OF inv] quota_okD(1)[OF inv]
    by (auto simp: active_count_card hs_wf_def done_job_def split: option.splits)
qed

lemma commit_job_count:
  assumes "quota_inv db" "\<not> terminal_state (ju_state i)" "commit_new_job J i ids idem adm db = (db', Ok JobCreated)"
  shows "active_count (ju_organization_id i) db' = Suc (active_count (ju_organization_id i) db) \<and>
    (\<exists>policy. hm_get (db_quota_policies db) (ju_organization_id i) = Some policy \<and>
       int (active_count (ju_organization_id i) db') \<le> qp_max_concurrent_jobs policy)"
proof -
  have inv': "quota_inv db'" by (rule commit_new_job_quota[OF assms])
  note ok = assms(1)[unfolded quota_inv_def] and ok' = inv'[unfolded quota_inv_def]
  show ?thesis
    using assms(3)
  proof (cases rule: commit_new_job_cases)
    case (2 quota usage)
    have cnt: "qu_active_jobs usage = int (active_count (ju_organization_id i) db)"
      using quota_okD(5)[OF ok 2(4)] by (simp add: active_count_card quota_okD(1)[OF ok])
    have "hm_get (db_quota_usage db') (ju_organization_id i) =
        Some (charge_job (ju_now i) (period_jobs_now (ju_now i) quota usage) usage)"
      using 2(4,12) quota_okD(2)[OF ok] by simp
    from quota_okD(5)[OF ok' this] have "qu_active_jobs usage + 1 = int (active_count (ju_organization_id i) db')"
      by (simp add: active_count_card quota_okD(1)[OF ok'])
    with cnt 2(3,6) show ?thesis by auto
  qed simp
qed

lemma commit_batch_count:
  assumes "quota_inv db" "bi_total_jobs b = int (length cs)"
    and "commit_new_batch J b cs shared idem adm now db = (db', Ok BatchCreated)"
  shows "active_count (bi_organization_id b) db' = active_count (bi_organization_id b) db + length cs \<and>
    (\<exists>policy. hm_get (db_quota_policies db) (bi_organization_id b) = Some policy \<and>
       int (active_count (bi_organization_id b) db') \<le> qp_max_concurrent_jobs policy)"
proof -
  have inv': "quota_inv db'" by (rule commit_new_batch_quota[OF assms])
  note ok = assms(1)[unfolded quota_inv_def] and ok' = inv'[unfolded quota_inv_def]
  show ?thesis
    using assms(3)
  proof (cases rule: commit_new_batch_cases)
    case (2 policy usage db2)
    have cnt: "qu_active_jobs usage = int (active_count (bi_organization_id b) db)"
      using quota_okD(5)[OF ok 2(4)] by (simp add: active_count_card quota_okD(1)[OF ok])
    have "active_count (bi_organization_id b) db' = active_count (bi_organization_id b) db + length cs"
      using insert_children_jobs[OF 2(8), of "bi_organization_id b"] quota_okD(1)[OF ok] quota_okD(1)[OF ok'] 2(9)
      by (simp add: active_count_card)
    with cnt 2(3,7) assms(2) show ?thesis by auto
  qed simp
qed

text \<open>
  C3: In every reachable store a job or a batch is admitted only within the
  organization's concurrency limit: the submission adds exactly its jobs to the active
  ones, and their number is then at most \<open>max_concurrent_jobs\<close>.
\<close>
theorem admission_within_limit:
  assumes "empty_store db0" "store_reaches J db0 db"
  shows "(\<not> terminal_state (ju_state i) \<and> commit_new_job J i ids idem adm db = (db', Ok JobCreated) \<longrightarrow>
      active_count (ju_organization_id i) db' = Suc (active_count (ju_organization_id i) db) \<and>
      (\<exists>policy. hm_get (db_quota_policies db) (ju_organization_id i) = Some policy \<and>
         int (active_count (ju_organization_id i) db') \<le> qp_max_concurrent_jobs policy)) \<and>
    (bi_total_jobs b = int (length cs) \<and> commit_new_batch J b cs shared bidem adm now db = (db'', Ok BatchCreated) \<longrightarrow>
      active_count (bi_organization_id b) db'' = active_count (bi_organization_id b) db + length cs \<and>
      (\<exists>policy. hm_get (db_quota_policies db) (bi_organization_id b) = Some policy \<and>
         int (active_count (bi_organization_id b) db'') \<le> qp_max_concurrent_jobs policy))"
  using commit_job_count[OF reachable_quota[OF assms]] commit_batch_count[OF reachable_quota[OF assms]]
  by blast

subsection \<open>Idempotent submission\<close>

lemma store_step_idempotency:
  assumes "store_step J db db'" "hm_wf (db_idempotency db)"
  shows "hm_wf (db_idempotency db') \<and>
    (\<forall>k row. hm_get (db_idempotency db) k = Some row \<longrightarrow> hm_get (db_idempotency db') k = Some row)"
  using assms
proof (cases rule: store_step.cases)
  case (commit_job i ids idem adm r)
  from commit_job(2) show ?thesis
  proof (cases rule: commit_new_job_cases)
    case 2
    then show ?thesis
      using assms(2) by (auto simp: resolve_idempotency_def split: option.splits if_splits)
  qed (use assms(2) in simp)
next
  case (commit_batch b cs shared idem adm now r)
  from commit_batch(2) show ?thesis
  proof (cases rule: commit_new_batch_cases)
    case (2 policy usage db2)
    then show ?thesis using assms(2) insert_children_frame[OF 2(8)] by simp
  qed (use assms(2) in simp)
next
  case (apply_event u ei re)
  from apply_event(2) show ?thesis
  proof (cases rule: store_apply_job_event_cases)
    case (2 j db1)
    then show ?thesis
      using assms(2) insert_event_frame[OF 2(2)] by (simp add: Let_def release_job_for_terminal_tx_def)
  qed (use assms(2) in simp)
next
  case (put_idem ii)
  then show ?thesis
    using assms(2) by (auto simp: put_idempotency_def split: option.splits)
next
  case (complete_upload co rb)
  then show ?thesis
    using assms(2)
    by (auto simp: complete_job_output_upload_def append_job_output_artifact_def
        split: option.splits if_splits prod.splits)
next
  case (append_output org job attempt artifact sid now rb)
  then show ?thesis
    using assms(2) by (auto simp: append_job_output_artifact_def split: option.splits if_splits)
next
  case (reclaim now limit)
  have "db_idempotency (foldl (\<lambda>d a. release_storage now (a_organization_id a) (a_size_bytes a) d) d xs) = db_idempotency d"
    for d and xs :: "StoredArtifact list"
    by (rule foldl_release_storage_inv[where P = "\<lambda>x. db_idempotency x = db_idempotency d"]) simp_all
  then show ?thesis using assms(2) reclaim by (simp add: reclaim_expired_uploads_def Let_def)
qed (auto simp: update_job_if_current_def rebind_job_session_def bind_queued_job_def cancel_queued_job_def
    release_job_for_terminal_def release_job_for_terminal_tx_def reconcile_active_job_quota_def
    update_quota_policy_def reserve_storage_def release_storage_def create_artifact_def set_artifact_state_def
    bind_artifact_job_def upsert_upload_request_def mark_dispatch_delivered_def claim_dispatches_def
    store_record_dispatch_error_def claim_dispatch_queue_job_def remove_from_dispatch_queue_def
    upsert_worker_def touch_worker_heartbeat_def Let_def case_prod_unfold split: option.splits list.splits)

lemma store_reaches_idempotency:
  assumes "store_reaches J db db'" "hm_wf (db_idempotency db)"
  shows "hm_wf (db_idempotency db') \<and>
    (\<forall>k row. hm_get (db_idempotency db) k = Some row \<longrightarrow> hm_get (db_idempotency db') k = Some row)"
  using assms unfolding store_reaches_def
  by (induction rule: rtranclp_induct) (auto dest: store_step_idempotency)

text \<open>
  C18: Once a submission with an idempotency key created a job, every later submission
  under the same key, whatever happened in between, changes nothing: it returns the
  id of that job when its request hash is the same and a conflict otherwise.
\<close>
theorem idempotent_submission:
  assumes "hm_wf (db_idempotency db)"
    and "commit_new_job J i ids (Some ii) adm db = (db1, Ok JobCreated)" "store_reaches J db1 db2"
    and "idempotency_key ii' = idempotency_key ii"
  shows "commit_new_job J i' ids' (Some ii') adm' db2 =
    (db2, if ii_request_hash ii' = ii_request_hash ii then Ok (JobExisting (ju_id i))
          else Err (SConflict ''idempotency key was used for a different request''))"
proof -
  let ?row = "\<lparr>im_request_hash = ii_request_hash ii, im_job_id = ju_id i\<rparr>"
  from assms(2) have "hm_wf (db_idempotency db1) \<and> hm_get (db_idempotency db1) (idempotency_key ii) = Some ?row"
    by (cases rule: commit_new_job_cases) (use assms(1) in simp_all)
  with store_reaches_idempotency[OF assms(3)] have "hm_get (db_idempotency db2) (idempotency_key ii') = Some ?row"
    unfolding assms(4) by blast
  then show ?thesis by (simp add: commit_new_job_def resolve_idempotency_def)
qed

subsection \<open>The life of a job row\<close>

definition job_forward :: "StoredJob \<Rightarrow> StoredJob \<Rightarrow> bool" where
  "job_forward j j' \<longleftrightarrow>
     (j_organization_id j', j_id j', j_actor_id j', j_actor_kind j', j_actor_user_id j') =
       (j_organization_id j, j_id j, j_actor_id j, j_actor_kind j, j_actor_user_id j) \<and>
     (j_workflow_id j', j_workflow_version j', j_parameters_json j', j_input_artifact_ids_json j') =
       (j_workflow_id j, j_workflow_version j, j_parameters_json j, j_input_artifact_ids_json j) \<and>
     (j_attempt j', j_created_at j', j_batch_id j') = (j_attempt j, j_created_at j, j_batch_id j) \<and>
     j_last_event j \<le> j_last_event j' \<and>
     (terminal_state (j_state j) \<longrightarrow> terminal_state (j_state j'))"

definition rows_forward :: "(key2, StoredJob) hash_map \<Rightarrow> (key2, StoredJob) hash_map \<Rightarrow> bool" where
  "rows_forward t t' \<longleftrightarrow>
     (\<forall>k j. hm_get t k = Some j \<longrightarrow> (\<exists>j'. hm_get t' k = Some j' \<and> job_forward j j'))"

lemma job_forward_refl [simp]: "job_forward j j"
  by (simp add: job_forward_def)

lemma job_forward_trans: "job_forward j j' \<Longrightarrow> job_forward j' j'' \<Longrightarrow> job_forward j j''"
  by (simp add: job_forward_def)

lemma rows_forward_refl [simp]: "rows_forward t t"
  by (simp add: rows_forward_def)

lemma rows_forward_trans: "rows_forward t t' \<Longrightarrow> rows_forward t' t'' \<Longrightarrow> rows_forward t t''"
  unfolding rows_forward_def by (metis job_forward_trans)

lemma rows_forward_new: "hm_wf t \<Longrightarrow> hm_get t k = None \<Longrightarrow> rows_forward t (hm_insert k j t)"
  by (auto simp: rows_forward_def)

lemma rows_forward_insert:
  "hm_wf t \<Longrightarrow> hm_get t k = Some j \<Longrightarrow> job_forward j j' \<Longrightarrow> rows_forward t (hm_insert k j' t)"
  by (auto simp: rows_forward_def)

lemma rows_forward_update:
  assumes "hm_wf t" "\<And>j. guard j \<Longrightarrow> job_forward j (edit j)"
  shows "rows_forward t (fst (update_where k guard edit t))"
  using assms by (auto simp: update_where_def intro: rows_forward_insert split: option.splits)

lemma rows_forward_children:
  "insert_children J b now cs db = Some db' \<Longrightarrow> hm_wf (db_jobs db) \<Longrightarrow> rows_forward (db_jobs db) (db_jobs db')"
proof (induction cs arbitrary: db)
  case (Cons c cs)
  from Cons.prems(1) obtain db1 where db1: "insert_child J b now c db = Some db1"
    and rest: "insert_children J b now cs db1 = Some db'"
    by (auto split: option.splits)
  note one = insert_child_SomeD(1,2)[OF db1]
  have "rows_forward (db_jobs db) (db_jobs db1)" "hm_wf (db_jobs db1)"
    using one Cons.prems(2) by (simp_all add: rows_forward_new)
  with Cons.IH[OF rest] show ?case by (blast intro: rows_forward_trans)
qed simp

lemma release_tx_jobs [simp]: "db_jobs (release_job_for_terminal_tx org job now db) = db_jobs db"
  by (simp add: release_job_for_terminal_tx_def)

lemma append_output_forward:
  assumes "append_job_output_artifact J org job attempt artifact sid now db = (db', r)" "hm_wf (db_jobs db)"
  shows "rows_forward (db_jobs db) (db_jobs db')"
  using assms
  by (auto simp: append_job_output_artifact_def job_forward_def intro!: rows_forward_insert
      split: option.splits if_splits)

lemma store_step_forward:
  assumes "store_step J db db'" "hm_wf (db_jobs db)"
  shows "rows_forward (db_jobs db) (db_jobs db')"
  using assms
proof (cases rule: store_step.cases)
  case (commit_job i ids idem adm r)
  from commit_job(2) show ?thesis
    by (cases rule: commit_new_job_cases) (use assms(2) in \<open>simp_all add: rows_forward_new hm_contains_def\<close>)
next
  case (commit_batch b cs shared idem adm now r)
  from commit_batch(2) show ?thesis
  proof (cases rule: commit_new_batch_cases)
    case (2 policy usage db2)
    then show ?thesis using rows_forward_children[OF 2(8)] assms(2) by simp
  qed simp
next
  case (apply_event u ei re)
  from apply_event(2) show ?thesis
  proof (cases rule: store_apply_job_event_cases)
    case (2 j db1)
    have "job_forward j (event_edit ei u j)"
      using apply_event(1) 2(4) by (auto simp: job_forward_def event_edit_def event_guard_def)
    with 2(3,5) assms(2) show ?thesis by (auto simp: Let_def rows_forward_insert)
  qed simp
next
  case (update_current cu)
  have "db_jobs db' = fst (update_where (cu_organization_id cu, cu_id cu)
       (\<lambda>j. j_attempt j = cu_attempt cu \<and> j_state j = cu_expected_state cu \<and> j_last_event j = cu_expected_last_event cu)
       (\<lambda>j. j\<lparr>j_state := (case cu_state cu of None \<Rightarrow> j_state j | Some s \<Rightarrow> s), j_error := cu_error cu,
               j_updated_at := max (j_updated_at j) (cu_now cu)\<rparr>) (db_jobs db))"
    using update_current(1) by (simp add: update_job_if_current_def case_prod_unfold Let_def)
  moreover have "rows_forward (db_jobs db) \<dots>"
    using update_current(2) by (intro rows_forward_update assms(2)) (auto simp: job_forward_def split: option.splits)
  ultimately show ?thesis by simp
next
  case (rebind org job attempt expected new now)
  then show ?thesis
    using rows_forward_update[OF assms(2)]
    by (simp add: rebind_job_session_def case_prod_unfold Let_def job_forward_def)
next
  case (append_output org job attempt artifact sid now rb)
  then show ?thesis using append_output_forward assms(2) by blast
next
  case (complete_upload co rb)
  then show ?thesis
    using append_output_forward[OF _ assms(2)]
    by (auto simp: complete_job_output_upload_def split: option.splits if_splits prod.splits sum.splits)
next
  case (bind_queued org job worg wid sid now)
  then show ?thesis
    using assms(2)
    by (auto simp: bind_queued_job_def Let_def job_forward_def terminal_state_def
        intro!: rows_forward_insert split: option.splits)
next
  case (cancel_queued org job now)
  have "rows_forward (db_jobs db) (fst (update_where (org, job) (\<lambda>j. j_state j = ''queued'')
       (\<lambda>j. j\<lparr>j_state := ''cancelled'', j_error := Some ''cancelled before worker dispatch'',
               j_updated_at := now\<rparr>) (db_jobs db)))"
    by (intro rows_forward_update assms(2)) (simp add: job_forward_def terminal_state_def)
  then show ?thesis using cancel_queued by (simp add: cancel_queued_job_def case_prod_unfold Let_def)
next
  case (reconcile now stale_after_ms)
  have "db_jobs db' = reconciled_jobs now (i64_saturating_sub now (max stale_after_ms 1000)) db"
    using reconcile by (simp add: reconcile_active_job_quota_def reconciled_jobs_def Let_def)
  then show ?thesis
    by (auto simp: rows_forward_def reconciled_jobs_def hm_get_map_values job_forward_def stale_job_def)
next
  case (reclaim now limit)
  have "db_jobs (foldl (\<lambda>d a. release_storage now (a_organization_id a) (a_size_bytes a) d) d xs) = db_jobs d"
    for d and xs :: "StoredArtifact list"
    by (rule foldl_release_storage_inv[where P = "\<lambda>x. db_jobs x = db_jobs d"]) simp_all
  then show ?thesis using reclaim by (simp add: reclaim_expired_uploads_def Let_def)
qed (auto simp: release_job_for_terminal_def
    update_quota_policy_def reserve_storage_def release_storage_def create_artifact_def set_artifact_state_def
    bind_artifact_job_def upsert_upload_request_def mark_dispatch_delivered_def claim_dispatches_def
    store_record_dispatch_error_def claim_dispatch_queue_job_def remove_from_dispatch_queue_def
    put_idempotency_def upsert_worker_def touch_worker_heartbeat_def Let_def case_prod_unfold
    split: option.splits list.splits)

lemma store_reaches_forward:
  assumes "store_reaches J db db'" "quota_inv db"
  shows "rows_forward (db_jobs db) (db_jobs db')"
  using assms(1)[unfolded store_reaches_def]
proof (induction rule: rtranclp_induct)
  case (step db1 db2)
  have "quota_inv db1" using step(1) assms(2) store_reaches_quota by (simp add: store_reaches_def)
  then have "hm_wf (db_jobs db1)" using quota_okD(1) by (auto simp: quota_inv_def)
  with step show ?case by (blast intro: rows_forward_trans store_step_forward)
qed simp


text \<open>
  C17: The store applies an event only to the snapshot it was computed from: once an
  event moved a job past its expected sequence, no event computed from the same or an
  older sequence is applied any more, in any later state; such a call leaves the store
  unchanged. A replayed event is therefore applied at most once.
\<close>
theorem event_applied_once:
  assumes "empty_store db0" "store_reaches J db0 db"
    and "terminal_state (eu_expected_state u) \<longrightarrow> terminal_state (eu_state u)"
    and "store_apply_job_event i u db = (db1, Ok True)" "eu_expected_last_event u < ei_sequence i"
    and "store_reaches J db1 db2"
    and "(ei_organization_id i', ei_job_id i') = (ei_organization_id i, ei_job_id i)"
    and "eu_expected_last_event u' \<le> eu_expected_last_event u"
    and "store_apply_job_event i' u' db2 = (db3, r)"
  shows "r \<noteq> Ok True \<and> db3 = db2"
proof -
  let ?k = "(ei_organization_id i, ei_job_id i)"
  have inv: "quota_inv db" "quota_inv db1"
    using reachable_quota[OF assms(1,2)] store_apply_job_event_quota[OF _ _ assms(4)] assms(3) by auto
  from assms(4) have "\<exists>j. hm_get (db_jobs db1) ?k = Some j \<and> ei_sequence i \<le> j_last_event j"
  proof (cases rule: store_apply_job_event_cases)
    case (2 j dbe)
    then show ?thesis using quota_okD(1)[OF inv(1)[unfolded quota_inv_def]] by (auto simp: Let_def event_edit_def)
  qed simp
  with store_reaches_forward[OF assms(6) inv(2)] obtain j2
    where j2: "hm_get (db_jobs db2) ?k = Some j2" "ei_sequence i \<le> j_last_event j2"
    unfolding rows_forward_def job_forward_def by (meson order_trans)
  have "\<not> event_guard i' u' j2" using j2 assms(5,8) by (simp add: event_guard_def)
  with assms(9) show ?thesis
    by (cases rule: store_apply_job_event_cases) (use j2 assms(7) in simp_all)
qed

subsection \<open>A sample run\<close>

definition sample_codec :: json_codec where
  "sample_codec =
     \<lparr>ids_enc = (\<lambda>ids. concat (map (\<lambda>x. x @ '','') ids)), ids_dec = (\<lambda>t. if t = [] then Some [] else None),
      rules_dec = (\<lambda>_. Some []), params_enc = (\<lambda>_. Some ''{}''), params_dec = (\<lambda>_. None)\<rparr>"

definition sample_store :: Db where
  "sample_store =
     \<lparr>db_jobs = [], db_job_events = [],
      db_quota_policies = [(''o'', \<lparr>qp_max_concurrent_jobs = 2, qp_max_storage_bytes = 100,
        qp_max_jobs_per_period = 10, qp_period_seconds = 60, qp_max_batch_jobs = 5\<rparr>)],
      db_quota_usage = [(''o'', \<lparr>qu_active_jobs = 0, qu_storage_bytes = 0, qu_period_jobs = 0,
        qu_period_started_at = 0, qu_updated_at = 0\<rparr>)],
      db_usage_ledger = [], db_dispatch_outbox = [], db_idempotency = [], db_artifacts = [],
      db_upload_requests = [], db_workers = [], db_device_grants = [], db_job_batches = [],
      db_job_dispatch_queue = [], db_job_input_artifacts = [], db_batch_idempotency = []\<rparr>"

definition sample_job :: JobUpsert where
  "sample_job =
     \<lparr>ju_organization_id = ''o'', ju_id = ''j'', ju_actor_id = ''a'', ju_actor_kind = ''user'',
      ju_actor_user_id = None, ju_workflow_id = ''w'', ju_workflow_version = ''1'',
      ju_parameters_json = ''{}'', ju_input_artifact_ids_json = [], ju_output_artifact_ids_json = [],
      ju_worker_id = ''n'', ju_worker_organization_id = ''o'', ju_session_id = ''s'', ju_attempt = 1,
      ju_state = ''received'', ju_progress = None, ju_prompt_id = None, ju_error = None,
      ju_last_event = 0, ju_now = 10\<rparr>"

definition sample_idem :: IdempotencyInsert where
  "sample_idem =
     \<lparr>ii_organization_id = ''o'', ii_actor_kind = ''user'', ii_actor_id = ''a'', ii_endpoint = ''/'',
      ii_key = ''k'', ii_request_hash = ''h'', ii_job_id = ''j''\<rparr>"

definition sample_event :: EventInsert where
  "sample_event =
     \<lparr>ei_organization_id = ''o'', ei_job_id = ''j'', ei_attempt = 1, ei_sequence = 1, ei_kind = ''failed'',
      ei_progress = None, ei_prompt_id = None, ei_message = ''m'', ei_unix_ms = 20, ei_now = 20\<rparr>"

definition sample_event_update :: JobEventUpdate where
  "sample_event_update =
     \<lparr>eu_session_id = ''s'', eu_expected_session_id = ''s'', eu_expected_state = ''received'',
      eu_expected_last_event = 0, eu_state = ''failed'', eu_error = Some ''m''\<rparr>"

definition sample_store1 :: Db where
  "sample_store1 = fst (commit_new_job sample_codec sample_job [] (Some sample_idem) None sample_store)"

definition sample_store2 :: Db where
  "sample_store2 = fst (store_apply_job_event sample_event sample_event_update sample_store1)"

lemma sample_empty: "empty_store sample_store"
  by code_simp

lemma sample_commit:
  "commit_new_job sample_codec sample_job [] (Some sample_idem) None sample_store = (sample_store1, Ok JobCreated)"
  by (rule prod_eqI) (simp add: sample_store1_def, code_simp)

lemma sample_apply:
  "store_apply_job_event sample_event sample_event_update sample_store1 = (sample_store2, Ok True)"
  by (rule prod_eqI) (simp add: sample_store2_def, code_simp)

lemma sample_reaches:
  "store_reaches sample_codec sample_store sample_store" "store_reaches sample_codec sample_store sample_store1"
  "store_reaches sample_codec sample_store1 sample_store2" "store_reaches sample_codec sample_store2 sample_store2"
  "store_reaches sample_codec sample_store sample_store2"
proof -
  have 1: "store_step sample_codec sample_store sample_store1"
    by (rule store_step.commit_job[OF _ sample_commit]) code_simp
  have 2: "store_step sample_codec sample_store1 sample_store2"
    by (rule store_step.apply_event[OF _ sample_apply]) code_simp
  show "store_reaches sample_codec sample_store sample_store" "store_reaches sample_codec sample_store sample_store1"
    "store_reaches sample_codec sample_store1 sample_store2" "store_reaches sample_codec sample_store2 sample_store2"
    "store_reaches sample_codec sample_store sample_store2"
    using 1 2 by (auto simp: store_reaches_def)
qed

theorem store_concurrency_exact_witness:
  "map_option qu_active_jobs (hm_get (db_quota_usage sample_store2) ''o'') = Some 0 \<and>
   active_count ''o'' sample_store2 = 0 \<and> (''o'', ''j'') \<in> set (db_usage_ledger sample_store2) \<and>
   distinct (db_usage_ledger sample_store2)"
proof -
  have j: "hm_get (db_jobs sample_store2) (''o'', ''j'') \<noteq> None"
    "terminal_state (j_state (the (hm_get (db_jobs sample_store2) (''o'', ''j''))))"
    "map_option qu_active_jobs (hm_get (db_quota_usage sample_store2) ''o'') = Some 0"
    by code_simp+
  from store_concurrency_exact[OF sample_empty sample_reaches(5)] j show ?thesis by auto
qed

theorem admission_within_limit_witness:
  "active_count ''o'' sample_store1 = 1 \<and>
   (\<exists>policy. hm_get (db_quota_policies sample_store) ''o'' = Some policy \<and> 1 \<le> qp_max_concurrent_jobs policy)"
proof -
  have "\<not> terminal_state (ju_state sample_job)" "ju_organization_id sample_job = ''o''"
    "active_count ''o'' sample_store = 0"
    by code_simp+
  with conjunct1[OF admission_within_limit[OF sample_empty sample_reaches(1),
        of sample_job "[]" "Some sample_idem" None sample_store1]] sample_commit
  show ?thesis by auto
qed

theorem idempotent_submission_witness:
  "commit_new_job sample_codec (sample_job\<lparr>ju_id := ''x''\<rparr>) [] (Some sample_idem) None sample_store2 =
     (sample_store2, Ok (JobExisting ''j''))"
proof -
  have "hm_wf (db_idempotency sample_store)" "ju_id sample_job = ''j''" by code_simp+
  with idempotent_submission[OF _ sample_commit sample_reaches(3), of sample_idem] show ?thesis by simp
qed


theorem event_applied_once_witness:
  "store_apply_job_event sample_event sample_event_update sample_store2 = (sample_store2, Ok False)"
proof -
  obtain db3 r where eq: "store_apply_job_event sample_event sample_event_update sample_store2 = (db3, r)" by fastforce
  have side: "terminal_state (eu_expected_state sample_event_update) \<longrightarrow> terminal_state (eu_state sample_event_update)"
    "eu_expected_last_event sample_event_update < ei_sequence sample_event"
    "snd (store_apply_job_event sample_event sample_event_update sample_store2) = Ok False"
    by code_simp+
  from event_applied_once[OF sample_empty sample_reaches(2) side(1) sample_apply side(2) sample_reaches(4) _ _ eq]
    side(3) eq
  show ?thesis by simp
qed

subsection \<open>Inputs\<close>

definition unclaimed_input :: "Db \<Rightarrow> string \<Rightarrow> string \<Rightarrow> bool" where
  "unclaimed_input db org x =
     (case hm_get (db_artifacts db) (org, x) of
        None \<Rightarrow> False | Some a \<Rightarrow> a_state a = ''ready'' \<and> a_job_id a = None)"

lemma claimed_ids:
  assumes "hm_wf (db_artifacts db)"
  shows "set (snd (claim_artifacts org job ids now db)) = {x \<in> set ids. unclaimed_input db org x}"
    "distinct (snd (claim_artifacts org job ids now db))"
proof -
  let ?f = "filter (claimable_artifact org ids) (db_artifacts db)"
  have mem: "((o', x), a) \<in> set ?f \<longleftrightarrow> o' = org \<and> x \<in> set ids \<and> hm_get (db_artifacts db) (org, x) = Some a \<and>
      a_state a = ''ready'' \<and> a_job_id a = None" for o' x a
    using hm.in_entries[OF assms] by (auto simp: claimable_artifact_def)
  have "x \<in> set (snd (claim_artifacts org job ids now db)) \<longleftrightarrow> (\<exists>o' a. ((o', x), a) \<in> set ?f)" for x
    by (simp add: claim_artifacts_def case_prod_unfold image_iff)
  then show "set (snd (claim_artifacts org job ids now db)) = {x \<in> set ids. unclaimed_input db org x}"
    unfolding mem by (auto simp: unclaimed_input_def split: option.splits)
  have d: "distinct (map fst ?f)"
    using assms unfolding hm_wf_def by (rule distinct_map_filter)
  have "inj_on snd (set (map fst ?f))"
    by (auto simp: inj_on_def claimable_artifact_def)
  with d have "distinct (map snd (map fst ?f))" by (simp only: distinct_map)
  then show "distinct (snd (claim_artifacts org job ids now db))"
    by (simp add: claim_artifacts_def case_prod_unfold comp_def)
qed

lemma full_claim:
  assumes "hm_wf (db_artifacts db)" "length (snd (claim_artifacts org job ids now db)) = length ids"
  shows "distinct ids" "\<And>x. x \<in> set ids \<Longrightarrow> unclaimed_input db org x"
proof -
  let ?c = "snd (claim_artifacts org job ids now db)"
  note c = claimed_ids[OF assms(1), of org job ids now]
  have "card (set ?c) = length ids" using c(2) assms(2) by (simp add: distinct_card)
  moreover have "card (set ?c) \<le> card (set ids)" using c(1) by (auto intro: card_mono)
  ultimately have len: "card (set ids) = length ids" "card (set ?c) = card (set ids)"
    using card_length[of ids] by linarith+
  show "distinct ids" using len(1) by (rule card_distinct)
  have "set ?c = set ids" using c(1) len(2) by (intro card_subset_eq) auto
  then show "\<And>x. x \<in> set ids \<Longrightarrow> unclaimed_input db org x" using c(1) by blast
qed

lemma claim_artifacts_get:
  "hm_get (db_artifacts (fst (claim_artifacts org job ids now db))) k =
     map_option (\<lambda>a. if claimable_artifact org ids (k, a) then a\<lparr>a_job_id := Some job, a_updated_at := now\<rparr> else a)
       (hm_get (db_artifacts db) k)"
  by (simp add: claim_artifacts_def hm_get_map_values)

lemma created_inputs:
  assumes "hm_wf (db_artifacts db)" "commit_new_job J i ids idem adm db = (db', Ok JobCreated)"
  shows "distinct ids" "\<And>x. x \<in> set ids \<Longrightarrow> unclaimed_input db (ju_organization_id i) x"
    "hm_wf (db_artifacts db')"
    "hm_get (db_artifacts db') k = map_option (\<lambda>a. if claimable_artifact (ju_organization_id i) ids (k, a)
       then a\<lparr>a_job_id := Some (ju_id i), a_updated_at := ju_now i\<rparr> else a) (hm_get (db_artifacts db) k)"
proof -
  let ?cl = "claim_artifacts (ju_organization_id i) (ju_id i) ids (ju_now i) db"
  from assms(2) have eq: "length (snd ?cl) = length ids" "db_artifacts db' = db_artifacts (fst ?cl)"
    by (cases rule: commit_new_job_cases; simp)+
  show "distinct ids" "\<And>x. x \<in> set ids \<Longrightarrow> unclaimed_input db (ju_organization_id i) x"
    using full_claim[OF assms(1) eq(1)] by blast+
  show "hm_wf (db_artifacts db')"
    using assms(1) unfolding eq(2) by (simp add: claim_artifacts_def)
  show "hm_get (db_artifacts db') k = map_option (\<lambda>a. if claimable_artifact (ju_organization_id i) ids (k, a)
       then a\<lparr>a_job_id := Some (ju_id i), a_updated_at := ju_now i\<rparr> else a) (hm_get (db_artifacts db) k)"
    unfolding eq(2) by (rule claim_artifacts_get)
qed


definition sample_artifact :: StoredArtifact where
  "sample_artifact =
     \<lparr>a_organization_id = ''o'', a_id = ''x'', a_job_id = None, a_name = ''f'', a_content_type = ''image/png'',
      a_size_bytes = 3, a_sha256 = ''s'', a_state = ''ready'', a_object_key = ''k'', a_created_at = 1,
      a_updated_at = 1, a_expires_at = None\<rparr>"

definition sample_input_store :: Db where
  "sample_input_store = sample_store\<lparr>db_artifacts := [((''o'', ''x''), sample_artifact)]\<rparr>"

definition sample_input_store1 :: Db where
  "sample_input_store1 = fst (commit_new_job sample_codec sample_job [''x''] None None sample_input_store)"


subsection \<open>Reconciliation\<close>


end
