(* ===== verification/Hub_Store_Queue.thy ===== *)
theory Hub_Store_Queue
  imports Hub_Store_Props
begin

text \<open>
  The queries of the durable store that hand out work and pages: the reconciliation on
  concrete stores, the leases of the dispatch queue, the claims of the dispatch outbox
  and the keyset pages of the job listing.
\<close>

subsection \<open>Reconciliation and queued jobs\<close>

definition sample_queued :: StoredJob where
  "sample_queued = (new_job_row sample_job)\<lparr>j_state := ''queued'', j_worker_id := None,
     j_worker_organization_id := None, j_session_id := None, j_batch_id := Some ''b''\<rparr>"

definition sample_queue_row :: dispatch_queue_row where
  "sample_queue_row = \<lparr>dq_available_at = 10, dq_priority = 0, dq_lease_owner = None, dq_lease_until = None,
     dq_created_at = 10\<rparr>"

text \<open>A queued batch job whose device was seen one millisecond ago, and a wrong counter.\<close>

definition sample_queue_store :: Db where
  "sample_queue_store = sample_store\<lparr>db_jobs := [((''o'', ''j''), sample_queued)],
     db_quota_usage := [(''o'', \<lparr>qu_active_jobs = 7, qu_storage_bytes = 0, qu_period_jobs = 0,
        qu_period_started_at = 0, qu_updated_at = 0\<rparr>)],
     db_job_dispatch_queue := [((''o'', ''j''), sample_queue_row)],
     db_workers := [((''o'', ''n''), \<lparr>w_owner_user_id = None, w_last_session_id = ''s'', w_last_seen_at = 1999999\<rparr>)],
     db_job_batches := [((''o'', ''b''), \<lparr>b_device_organization_id = Some ''o'', b_device_id = Some ''n''\<rparr>)]\<rparr>"

definition sample_reconciled :: Db where
  "sample_reconciled = fst (reconcile_active_job_quota 2000000 1800000 sample_queue_store)"


text \<open>
  A queued batch job that has waited longer than the grace period is failed by the
  reconciliation whatever the liveness of the device it waits for: the test for a
  disappeared worker reads the job's worker columns, which are null until dispatch. Its
  row in the dispatch queue stays.
\<close>
theorem reconcile_fails_queued_jobs:
  assumes "hm_wf (db_jobs db)" "hm_wf (db_quota_usage db)"
    and "hm_get (db_jobs db) k = Some j" "j_state j = ''queued''" "j_worker_id j = None"
    and "j_updated_at j \<le> i64_saturating_sub now (max stale_after_ms 1000)"
  shows "map_option j_state (hm_get (db_jobs (fst (reconcile_active_job_quota now stale_after_ms db))) k) = Some ''failed'' \<and>
    db_job_dispatch_queue (fst (reconcile_active_job_quota now stale_after_ms db)) = db_job_dispatch_queue db"
proof -
  have "stale_job db (i64_saturating_sub now (max stale_after_ms 1000)) j"
    using assms by (simp add: stale_job_def worker_seen_def terminal_state_def split: option.splits)
  moreover have "db_job_dispatch_queue (fst (reconcile_active_job_quota now stale_after_ms db)) = db_job_dispatch_queue db"
    by (simp add: reconcile_active_job_quota_def Let_def)
  ultimately show ?thesis
    using reconcile_tables(1)[OF assms(1,2), of now stale_after_ms] assms(3)
    by (simp add: reconciled_jobs_def hm_get_map_values)
qed

theorem reconcile_fails_queued_jobs_witness:
  "worker_seen sample_queue_store (sample_queued\<lparr>j_worker_id := Some ''n'', j_worker_organization_id := Some ''o''\<rparr>)
     (i64_saturating_sub 2000000 (max 1800000 1000)) \<and>
   map_option j_state (hm_get (db_jobs sample_reconciled) (''o'', ''j'')) = Some ''failed'' \<and>
   hm_contains (db_job_dispatch_queue sample_reconciled) (''o'', ''j'')"
proof -
  have a: "hm_wf (db_jobs sample_queue_store)" "hm_wf (db_quota_usage sample_queue_store)"
    "hm_get (db_jobs sample_queue_store) (''o'', ''j'') = Some sample_queued" "j_state sample_queued = ''queued''"
    "j_worker_id sample_queued = None"
    "j_updated_at sample_queued \<le> i64_saturating_sub 2000000 (max 1800000 1000)"
    "worker_seen sample_queue_store (sample_queued\<lparr>j_worker_id := Some ''n'', j_worker_organization_id := Some ''o''\<rparr>)
     (i64_saturating_sub 2000000 (max 1800000 1000))"
    "hm_contains (db_job_dispatch_queue sample_queue_store) (''o'', ''j'')"
    by code_simp+
  from reconcile_fails_queued_jobs[OF a(1-6)] a(7,8) show ?thesis by (simp add: sample_reconciled_def)
qed

subsection \<open>Leases of the dispatch queue\<close>

definition lease_end :: "i64 \<Rightarrow> i64 \<Rightarrow> i64" where
  "lease_end secs now = i64_saturating_add now (i64_saturating_mul (max secs 0) 1000)"

fun claim_run :: "(string \<times> i64 \<times> i64) list \<Rightarrow> Db \<Rightarrow> Db \<times> key2 list" where
  "claim_run [] db = (db, [])"
| "claim_run ((owner, secs, now) # cs) db =
     (let (db1, k) = claim_dispatch_queue_job owner secs now db; (db2, ks) = claim_run cs db1
      in (db2, case k of None \<Rightarrow> ks | Some k \<Rightarrow> k # ks))"

lemma claim_queue_cases:
  assumes "claim_dispatch_queue_job owner secs now db = (db', r)" "hm_wf (db_job_dispatch_queue db)"
  obtains "db' = db" "r = None" "\<And>k q. hm_get (db_job_dispatch_queue db) k = Some q \<Longrightarrow> \<not> queue_claimable now q"
  | k q where "r = Some k" "hm_get (db_job_dispatch_queue db) k = Some q" "queue_claimable now q"
      "\<And>k' q'. hm_get (db_job_dispatch_queue db) k' = Some q' \<Longrightarrow> queue_claimable now q' \<Longrightarrow>
         queue_order (k, q) \<le> queue_order (k', q')"
      "db' = db\<lparr>db_job_dispatch_queue := hm_insert k
         (q\<lparr>dq_lease_owner := Some owner, dq_lease_until := Some (lease_end secs now)\<rparr>) (db_job_dispatch_queue db)\<rparr>"
proof -
  let ?f = "filter (\<lambda>(k, q). queue_claimable now q) (db_job_dispatch_queue db)"
  have mem: "(k, q) \<in> set ?f \<longleftrightarrow> hm_get (db_job_dispatch_queue db) k = Some q \<and> queue_claimable now q" for k q
    using hm.in_entries[OF assms(2)] by auto
  show ?thesis
  proof (cases "sort_key queue_order ?f")
    case Nil
    then have "?f = []" by (metis set_empty set_sort)
    with mem have "\<not> queue_claimable now q" if "hm_get (db_job_dispatch_queue db) k = Some q" for k q
      using that by (metis empty_iff list.set(1))
    with Nil assms(1) that(1) show ?thesis by (simp add: claim_dispatch_queue_job_def)
  next
    case (Cons kq rest)
    obtain k q where kq: "kq = (k, q)" by fastforce
    have set: "set ?f = insert kq (set rest)" by (metis Cons list.set(2) set_sort)
    have "sorted (map queue_order (kq # rest))" by (metis Cons sorted_sort_key)
    then have "queue_order kq \<le> queue_order x" if "x \<in> set ?f" for x
      using that set by auto
    then have min: "queue_order (k, q) \<le> queue_order (k', q')"
      if "hm_get (db_job_dispatch_queue db) k' = Some q'" "queue_claimable now q'" for k' q'
      using that mem kq by blast
    have "hm_get (db_job_dispatch_queue db) k = Some q" "queue_claimable now q"
      using mem[of k q] set kq by auto
    with Cons kq assms(1) min show ?thesis
      by (intro that(2)[of k q]) (auto simp: claim_dispatch_queue_job_def lease_end_def)
  qed
qed

lemma claim_run_leased:
  assumes "hm_wf (db_job_dispatch_queue db)" "list_all (\<lambda>(owner, secs, now). now \<le> T \<and> T \<le> lease_end secs now) cs"
    and "\<And>k. k \<in> L \<Longrightarrow> \<exists>q t. hm_get (db_job_dispatch_queue db) k = Some q \<and> dq_lease_until q = Some t \<and> T \<le> t"
  shows "distinct (snd (claim_run cs db)) \<and> set (snd (claim_run cs db)) \<inter> L = {}"
  using assms
proof (induction cs arbitrary: db L)
  case (Cons c cs)
  obtain owner secs now where c: "c = (owner, secs, now)" by (metis prod_cases3)
  obtain db1 r where cl: "claim_dispatch_queue_job owner secs now db = (db1, r)" by fastforce
  have T: "now \<le> T" "T \<le> lease_end secs now" using Cons.prems(2) c by auto
  from cl Cons.prems(1) show ?case
  proof (cases rule: claim_queue_cases)
    case 1
    then show ?thesis using Cons.IH[of db L] Cons.prems c cl by (simp add: case_prod_unfold)
  next
    case (2 k q)
    have "k \<notin> L"
      using 2(2,3) Cons.prems(3) T(1) by (fastforce simp: queue_claimable_def)
    moreover have "distinct (snd (claim_run cs db1)) \<and> set (snd (claim_run cs db1)) \<inter> insert k L = {}"
      using Cons.prems T(2) 2(5) by (intro Cons.IH) (auto simp: 2(5))
    ultimately show ?thesis using 2(1) c cl by (auto simp: case_prod_unfold Let_def)
  qed
qed simp

text \<open>
  C27: However many schedulers poll the dispatch queue, no job is handed out twice while
  its lease runs: in any sequence of claims made before an instant that all their
  leases outlast, the claimed jobs are pairwise different.
\<close>
theorem queue_leases_exclusive:
  assumes "hm_wf (db_job_dispatch_queue db)"
    and "list_all (\<lambda>(owner, secs, now). now \<le> T \<and> T \<le> lease_end secs now) cs"
  shows "distinct (snd (claim_run cs db))"
  using claim_run_leased[OF assms, of "{}"] by simp

theorem queue_leases_exclusive_witness:
  "distinct (snd (claim_run [(''a'', 30, 20), (''b'', 30, 25)] sample_queue_store)) \<and>
   snd (claim_run [(''a'', 30, 20), (''b'', 30, 25)] sample_queue_store) = [(''o'', ''j'')]"
proof -
  have "hm_wf (db_job_dispatch_queue sample_queue_store)"
    "list_all (\<lambda>(owner, secs, now). now \<le> 25 \<and> 25 \<le> lease_end secs now) [(''a'', 30, 20), (''b'', 30, 25)]"
    "snd (claim_run [(''a'', 30, 20), (''b'', 30, 25)] sample_queue_store) = [(''o'', ''j'')]"
    by code_simp+
  from queue_leases_exclusive[OF this(1,2)] this(3) show ?thesis by simp
qed

subsection \<open>Pages of the job listing\<close>

text \<open>
  A reader that follows the cursors: each page starts after the last row of the page
  before it, and reading stops at an empty page.
\<close>

definition page_key :: "StoredJob \<Rightarrow> i64 \<times> string" where
  "page_key j = (j_created_at j, j_id j)"

fun read_pages :: "nat \<Rightarrow> string \<Rightarrow> i64 \<Rightarrow> (i64 \<times> string) option \<Rightarrow> Db \<Rightarrow> StoredJob list list" where
  "read_pages 0 org limit after db = []"
| "read_pages (Suc n) org limit after db =
     (let page = jobs_page org limit after db
      in if page = [] then [] else page # read_pages n org limit (Some (page_key (last page))) db)"

definition org_jobs_newest_first :: "string \<Rightarrow> Db \<Rightarrow> StoredJob list" where
  "org_jobs_newest_first org db =
     rev (sort_key page_key (filter (\<lambda>j. j_organization_id j = org) (hm_values (db_jobs db))))"

definition job_keys_ok :: "Db \<Rightarrow> bool" where
  "job_keys_ok db \<longleftrightarrow> hm_wf (db_jobs db) \<and> list_all (\<lambda>(k, j). k = (j_organization_id j, j_id j)) (db_jobs db)"

lemma descending_filter_below:
  assumes "sorted_wrt (\<lambda>a b. f b < f a) (xs @ x # ys)"
  shows "filter (\<lambda>y. f y < (f x :: 'k::linorder)) (xs @ x # ys) = ys"
proof -
  have "filter (\<lambda>y. f y < f x) xs = []" "filter (\<lambda>y. f y < f x) ys = ys"
    using assms by (auto simp: sorted_wrt_append filter_empty_conv filter_id_conv order.strict_iff_not)
  then show ?thesis by simp
qed

lemma newest_first_descending:
  assumes "job_keys_ok db"
  shows "sorted_wrt (\<lambda>a b. page_key b < page_key a) (org_jobs_newest_first org db)"
proof -
  let ?rows = "filter (\<lambda>j. j_organization_id j = org) (hm_values (db_jobs db))"
  have "distinct (map (\<lambda>j. (j_organization_id j, j_id j)) (hm_values (db_jobs db)))"
  proof -
    have "map (\<lambda>j. (j_organization_id j, j_id j)) (hm_values (db_jobs db)) = map fst (db_jobs db)"
      using assms by (auto simp: job_keys_ok_def hm_values_def list_all_iff)
    then show ?thesis using assms by (simp add: job_keys_ok_def hm_wf_def)
  qed
  then have "distinct (map (\<lambda>j. (j_organization_id j, j_id j)) ?rows)" by (rule distinct_map_filter)
  then have "distinct (map page_key ?rows)"
    by (auto simp: distinct_map inj_on_def page_key_def)
  then have "distinct (map page_key (sort_key page_key ?rows))"
    by (metis distinct_map distinct_sort set_sort)
  then have "sorted_wrt (<) (map page_key (sort_key page_key ?rows))"
    using sorted_sort_key strict_sorted_iff by blast
  then show ?thesis
    by (simp add: org_jobs_newest_first_def sorted_wrt_rev sorted_wrt_map)
qed

lemma jobs_page_take:
  "jobs_page org limit after db =
     take (nat (max limit 1)) (filter (\<lambda>j. case after of None \<Rightarrow> True | Some c \<Rightarrow> page_key j < c)
       (org_jobs_newest_first org db))"
proof -
  have f: "filter (\<lambda>j. j_organization_id j = org \<and> (case after of None \<Rightarrow> True | Some c \<Rightarrow> page_key j < c)) xs =
    filter (\<lambda>j. case after of None \<Rightarrow> True | Some c \<Rightarrow> page_key j < c) (filter (\<lambda>j. j_organization_id j = org) xs)"
    for xs by (simp add: conj_commute)
  show ?thesis
    unfolding jobs_page_def org_jobs_newest_first_def Let_def page_key_def[symmetric] f
    by (simp add: rev_filter[symmetric] filter_sort page_key_def[abs_def])
qed

text \<open>Reading from a suffix of the listing gives that suffix.\<close>

lemma read_pages_suffix:
  assumes "job_keys_ok db" "org_jobs_newest_first org db = seen @ todo"
    and "after = (if seen = [] then None else Some (page_key (last seen)))" "length todo < fuel"
  shows "concat (read_pages fuel org limit after db) = todo"
  using assms(2-)
proof (induction fuel arbitrary: seen todo after)
  case (Suc fuel)
  let ?n = "nat (max limit 1)"
  have "filter (\<lambda>j. case after of None \<Rightarrow> True | Some c \<Rightarrow> page_key j < c) (seen @ todo) = todo"
  proof (cases "seen = []")
    case False
    then have "seen @ todo = butlast seen @ last seen # todo" by simp
    with descending_filter_below[of page_key "butlast seen" "last seen" todo] newest_first_descending[OF assms(1), of org]
    have "filter (\<lambda>y. page_key y < page_key (last seen)) (seen @ todo) = todo" using Suc.prems(1) by metis
    then show ?thesis using Suc.prems(2) False by simp
  qed (use Suc.prems(2) in simp)
  then have page: "jobs_page org limit after db = take ?n todo"
    by (simp add: jobs_page_take Suc.prems(1))
  show ?case
  proof (cases "todo = []")
    case False
    then have ne: "take ?n todo \<noteq> []" by (simp add: max_def)
    have less: "length (drop ?n todo) < fuel" using False Suc.prems(3) by (cases todo) auto
    have "concat (read_pages fuel org limit (Some (page_key (last (take ?n todo)))) db) = drop ?n todo"
      using ne less Suc.prems(1) by (intro Suc.IH[of "seen @ take ?n todo"]) simp_all
    with page ne show ?thesis by (simp add: Let_def)
  qed (simp add: page)
qed simp

text \<open>
  C28: Following the cursors of the job listing from the first page reads every job of
  the organization exactly once, newest first, in pages of at most the limit; one more
  request than there are jobs is enough.
\<close>
theorem jobs_pages_complete:
  assumes "job_keys_ok db" "length (org_jobs_newest_first org db) < fuel"
  shows "concat (read_pages fuel org limit None db) = org_jobs_newest_first org db \<and>
    (\<forall>after. int (length (jobs_page org limit after db)) \<le> max limit 1)"
  using read_pages_suffix[OF assms(1), of org "[]" "org_jobs_newest_first org db" None fuel limit] assms(2)
  by (auto simp: jobs_page_take)

theorem jobs_pages_complete_witness:
  "map j_id (concat (read_pages 4 ''o'' 1 None (sample_store\<lparr>db_jobs :=
     [((''o'', ''a''), sample_queued\<lparr>j_id := ''a''\<rparr>), ((''o'', ''b''), sample_queued\<lparr>j_id := ''b'', j_created_at := 11\<rparr>),
      ((''o'', ''c''), sample_queued\<lparr>j_id := ''c''\<rparr>)]\<rparr>))) = [''b'', ''c'', ''a'']"
proof -
  let ?db = "sample_store\<lparr>db_jobs :=
     [((''o'', ''a''), sample_queued\<lparr>j_id := ''a''\<rparr>), ((''o'', ''b''), sample_queued\<lparr>j_id := ''b'', j_created_at := 11\<rparr>),
      ((''o'', ''c''), sample_queued\<lparr>j_id := ''c''\<rparr>)]\<rparr>"
  have "job_keys_ok ?db" "length (org_jobs_newest_first ''o'' ?db) < 4"
    "map j_id (org_jobs_newest_first ''o'' ?db) = [''b'', ''c'', ''a'']"
    by code_simp+
  from jobs_pages_complete[OF this(1,2)] this(3) show ?thesis by simp
qed

end
