(* ===== verification/Hub_Worker_Props.thy ===== *)
theory Hub_Worker_Props
  imports Hub_Worker Hub_Store_Queue
begin

text \<open>
  Correctness of the event handler: an acknowledged event is durable, the resident
  cache is never ahead of the store under any interleaving of handlers, states move
  only forward, and a duplicate delivery changes nothing.
\<close>

subsection \<open>The cache and the store\<close>

lemma u64_to_i64_mono: "a \<le> b \<Longrightarrow> u64_to_i64_or_max a \<le> u64_to_i64_or_max b"
  by (simp add: u64_to_i64_or_max_def word_le_def min.coboundedI1 min.coboundedI2 min_def)

lemma can_recover_reaches: "can_recover_forward_transition s t \<Longrightarrow> reaches s t"
proof -
  have r: "reaches Received Accepted" "reaches Accepted Running" "reaches Running Uploading" "reaches Uploading Completed"
    by (rule reaches_one; simp add: can_transition_to_def)+
  assume "can_recover_forward_transition s t"
  then show ?thesis
    using r by (cases s) (auto simp: can_recover_forward_transition_def intro: reaches_trans)
qed

text \<open>
  A resident job has its row in the store, of the same attempt, and the row's last
  event is at least the resident one.
\<close>

definition row_at_least :: "Db \<Rightarrow> string \<Rightarrow> string \<Rightarrow> u32 \<Rightarrow> u64 \<Rightarrow> bool" where
  "row_at_least db org job attempt n =
     (case hm_get (db_jobs db) (org, job) of
        None \<Rightarrow> False
      | Some row \<Rightarrow> j_attempt row = uint attempt \<and> u64_to_i64_or_max n \<le> j_last_event row)"

definition unique_job_ids :: "Db \<Rightarrow> bool" where
  "unique_job_ids db \<longleftrightarrow>
     (\<forall>org org' job. hm_get (db_jobs db) (org, job) \<noteq> None \<longrightarrow> hm_get (db_jobs db) (org', job) \<noteq> None \<longrightarrow> org = org')"

definition cache_ok :: "HubData \<Rightarrow> Db \<Rightarrow> bool" where
  "cache_ok d db \<longleftrightarrow>
     hm_wf (hd_jobs d) \<and>
     (\<forall>id r. hm_get (hd_jobs d) id = Some r \<longrightarrow>
        jv_id (hj_view r) = id \<and> row_at_least db (hj_organization_id r) id (dj_attempt (hj_dispatch r)) (hj_last_event r))"

definition store_ok :: "Db \<Rightarrow> bool" where
  "store_ok db \<longleftrightarrow> quota_inv db \<and> unique_job_ids db"

lemma store_ok_wf: "store_ok db \<Longrightarrow> hm_wf (db_jobs db)"
  by (auto simp: store_ok_def quota_inv_def dest: quota_okD(1))

lemma row_at_least_forward:
  assumes "rows_forward (db_jobs db) (db_jobs db')" "row_at_least db org job attempt n"
  shows "row_at_least db' org job attempt n"
proof -
  from assms(2) obtain row where row: "hm_get (db_jobs db) (org, job) = Some row"
    "j_attempt row = uint attempt" "u64_to_i64_or_max n \<le> j_last_event row"
    by (auto simp: row_at_least_def split: option.splits)
  from assms(1) row(1) obtain row' where "hm_get (db_jobs db') (org, job) = Some row'" "job_forward row row'"
    unfolding rows_forward_def by blast
  then show ?thesis using row(2,3) by (auto simp: row_at_least_def job_forward_def)
qed

lemma row_at_least_org:
  assumes "unique_job_ids db" "row_at_least db org job a n" "row_at_least db org' job a' n'"
  shows "org = org'"
proof -
  have "hm_get (db_jobs db) (org, job) \<noteq> None" "hm_get (db_jobs db) (org', job) \<noteq> None"
    using assms(2,3) by (auto simp: row_at_least_def split: option.splits)
  with assms(1) show ?thesis unfolding unique_job_ids_def by blast
qed

lemma cache_ok_forward:
  "rows_forward (db_jobs db) (db_jobs db') \<Longrightarrow> cache_ok d db \<Longrightarrow> cache_ok d db'"
  by (auto simp: cache_ok_def intro: row_at_least_forward)

lemma cache_ok_forget: "cache_ok d db \<Longrightarrow> cache_ok (forget_job jid d) db"
  by (auto simp: cache_ok_def forget_job_def)

lemma cache_ok_insert:
  assumes "cache_ok d db" "jv_id (hj_view r) = jid"
    "row_at_least db (hj_organization_id r) jid (dj_attempt (hj_dispatch r)) (hj_last_event r)"
  shows "cache_ok (d\<lparr>hd_jobs := hm_insert jid r (hd_jobs d)\<rparr>) db"
  using assms by (auto simp: cache_ok_def)

lemma unique_job_ids_same_keys:
  "(\<And>k. hm_get (db_jobs db') k = None \<longleftrightarrow> hm_get (db_jobs db) k = None) \<Longrightarrow> unique_job_ids db' = unique_job_ids db"
  by (simp add: unique_job_ids_def)

text \<open>The store call of the handler, as a step of the store.\<close>

lemma event_update_terminal:
  assumes "plan_job_event job ev = PlanApply append_event"
  shows "terminal_state (eu_expected_state (event_update_of job ev sid)) \<longrightarrow>
    terminal_state (eu_state (event_update_of job ev sid))"
  using assms terminal_absorbing[of "jv_state (hj_view job)" "event_next_state (ev_kind ev)"]
  by (auto simp: plan_job_event_def event_update_of_def Let_def can_recover_forward_transition_def
      is_terminal_def split: if_splits JobState.splits)

lemma apply_step:
  assumes "plan_job_event job ev = PlanApply append_event"
    and "store_apply_job_event (event_insert_of job ev now) (event_update_of job ev sid) db = (db', r)"
  shows "store_step J db db'"
  using store_step.apply_event[OF event_update_terminal[OF assms(1)] assms(2)] .

lemma store_apply_keys:
  assumes "store_apply_job_event i u db = (db', r)" "hm_wf (db_jobs db)"
  shows "hm_get (db_jobs db') k = None \<longleftrightarrow> hm_get (db_jobs db) k = None"
  using assms(1) by (cases rule: store_apply_job_event_cases) (use assms(2) in \<open>auto simp: Let_def\<close>)

lemma apply_store_ok:
  assumes "store_ok db" "plan_job_event job ev = PlanApply append_event"
    and "store_apply_job_event (event_insert_of job ev now) (event_update_of job ev sid) db = (db', r)"
  shows "store_ok db'" "rows_forward (db_jobs db) (db_jobs db')"
proof -
  note step = apply_step[OF assms(2,3), of J for J]
  show "rows_forward (db_jobs db) (db_jobs db')" by (rule store_step_forward[OF step store_ok_wf[OF assms(1)]])
  have "unique_job_ids db' = unique_job_ids db"
    by (rule unique_job_ids_same_keys) (rule store_apply_keys[OF assms(3) store_ok_wf[OF assms(1)]])
  then show "store_ok db'" using assms(1) store_step_quota[OF step] by (simp add: store_ok_def)
qed

text \<open>An applied event is in the store.\<close>

lemma applied_row:
  assumes "hm_wf (db_jobs db)"
    and "store_apply_job_event (event_insert_of job ev now) (event_update_of job ev sid) db = (db', Ok True)"
  shows "row_at_least db' (hj_organization_id job) (ev_job_id ev) (ev_attempt ev) (ev_sequence ev) \<and>
    row_at_least db' (hj_organization_id job) (ev_job_id ev) (ev_attempt ev) (hj_last_event job)"
  using assms(2)
proof (cases rule: store_apply_job_event_cases)
  case (2 j db1)
  then show ?thesis
    using assms(1)
    by (auto simp: row_at_least_def Let_def event_edit_def event_guard_def event_insert_of_def event_update_of_def)
qed simp

subsection \<open>The handler keeps the invariant\<close>

definition hub_ok :: "AppState \<Rightarrow> bool" where
  "hub_ok A = (case st_store A of None \<Rightarrow> False | Some db \<Rightarrow> store_ok db \<and> cache_ok (st_data A) db)"

lemma hub_okI: "st_store A = Some db \<Longrightarrow> store_ok db \<Longrightarrow> cache_ok (st_data A) db \<Longrightarrow> hub_ok A"
  by (simp add: hub_ok_def)

lemma hub_okE:
  assumes "hub_ok A"
  obtains db where "st_store A = Some db" "store_ok db" "cache_ok (st_data A) db"
  using assms by (auto simp: hub_ok_def split: option.splits)

lemma u64_i64_roundtrip: "u64_try_from x = Some n \<Longrightarrow> x \<le> i64_max \<Longrightarrow> u64_to_i64_or_max n = x"
  by (auto simp: u64_try_from_def u64_to_i64_or_max_def i64_max_def take_bit_int_eq_self unsigned_of_int
      split: if_splits)

lemma u64_i64_le: "u64_try_from x = Some n \<Longrightarrow> u64_to_i64_or_max n \<le> x"
proof -
  assume "u64_try_from x = Some n"
  then have "0 \<le> x" "uint n = take_bit 64 x" by (auto simp: u64_try_from_def unsigned_of_int split: if_splits)
  then show ?thesis by (simp add: u64_to_i64_or_max_def take_bit_int_less_eq_self_iff min.coboundedI1)
qed

lemma release_terminal_noop:
  assumes "quota_inv db" shows "release_job_for_terminal now org job db = db"
proof -
  have "(org, job) \<in> set (db_usage_ledger db)"
    if "hm_get (db_jobs db) (org, job) = Some j" "terminal_state (j_state j)" for j
    using assms that quota_okD(4) by (fastforce simp: quota_inv_def done_job_def)
  then show ?thesis
    by (auto simp: release_job_for_terminal_def release_job_for_terminal_tx_def split: option.splits)
qed

lemma adopt_durable_keeps:
  "jv_id (hj_view (adopt_durable cur v n)) = jv_id (hj_view cur)"
  "hj_organization_id (adopt_durable cur v n) = hj_organization_id cur"
  "hj_dispatch (adopt_durable cur v n) = hj_dispatch cur"
  "hj_last_event (adopt_durable cur v n) \<in> {hj_last_event cur, n}"
  by (simp_all add: adopt_durable_def)

text \<open>
  The reconciliation leaves the store as it is, keeps the invariant, and confirms an
  event only when the row is terminal or already at its sequence.
\<close>

lemma reconcile_event:
  assumes "st_store A = Some db" "store_ok db" "cache_ok (st_data A) db"
    and "reconcile_persisted_job_event J now org job seq db A = (A', r)"
  shows "st_store A' = Some db \<and> cache_ok (st_data A') db \<and> st_sessions A' = st_sessions A \<and>
    (r = Ok True \<longrightarrow> (\<exists>row. hm_get (db_jobs db) (org, job) = Some row \<and>
       (terminal_state (j_state row) \<or> u64_to_i64_or_max seq \<le> j_last_event row)))"
proof (cases "hm_get (db_jobs db) (org, job)")
  case None
  with assms show ?thesis by (auto simp: reconcile_persisted_job_event_def db_job_def)
next
  case row: (Some row)
  show ?thesis
  proof (cases "parse_job_state (j_state row)")
    case (Inl e)
    with assms row show ?thesis by (auto simp: reconcile_persisted_job_event_def db_job_def)
  next
    case st: (Inr st)
    show ?thesis
    proof (cases "u64_try_from (j_last_event row)")
      case None
      with assms row st show ?thesis by (auto simp: reconcile_persisted_job_event_def db_job_def)
    next
      case n: (Some n)
      note le = u64_i64_le[OF n]
      have noop: "release_job_for_terminal now org job db = db"
        using assms(2) by (simp add: store_ok_def release_terminal_noop)
      have cur: "cache_ok ((st_data A)\<lparr>hd_jobs := hm_insert job (adopt_durable cur v n) (hd_jobs (st_data A))\<rparr>) db"
        if "hm_get (hd_jobs (st_data A)) job = Some cur" for cur v
      proof (rule cache_ok_insert[OF assms(3)])
        from assms(3) that have c: "jv_id (hj_view cur) = job"
          "row_at_least db (hj_organization_id cur) job (dj_attempt (hj_dispatch cur)) (hj_last_event cur)"
          by (auto simp: cache_ok_def)
        then have ne: "hm_get (db_jobs db) (hj_organization_id cur, job) \<noteq> None"
          by (auto simp: row_at_least_def split: option.splits)
        have "unique_job_ids db" using assms(2) by (simp add: store_ok_def)
        with ne row have "hj_organization_id cur = org"
          unfolding unique_job_ids_def by (metis option.distinct(1))
        with c row le show "row_at_least db (hj_organization_id (adopt_durable cur v n)) job
            (dj_attempt (hj_dispatch (adopt_durable cur v n))) (hj_last_event (adopt_durable cur v n))"
          using adopt_durable_keeps(4)[of cur v n] by (auto simp: adopt_durable_keeps row_at_least_def)
        show "jv_id (hj_view (adopt_durable cur v n)) = job" by (simp add: adopt_durable_keeps c)
      qed
      show ?thesis
      proof (cases "is_terminal st")
        case True
        then have "terminal_state (j_state row)" using parse_job_state_Ok[OF st] by simp
        with assms row st n True show ?thesis
          by (auto simp: reconcile_persisted_job_event_def db_job_def noop cache_ok_forget)
      next
        case False
        have "u64_to_i64_or_max seq \<le> j_last_event row" if "\<not> n < seq"
          using u64_to_i64_mono[of seq n] le that by (simp add: not_less)
        with assms row st n False cur show ?thesis
          by (auto simp: reconcile_persisted_job_event_def db_job_def split: if_splits sum.splits option.splits)
      qed
    qed
  qed
qed

lemma finish_cache_ok:
  assumes "cache_ok (st_data A) db" "st_store A = Some db" "unique_job_ids db"
    and "row_at_least db (hj_organization_id snapshot) (ev_job_id ev) (ev_attempt ev) (ev_sequence ev)"
  shows "cache_ok (st_data (finish_job_event org wid sid snapshot ev append_event now A)) db"
proof (cases "hm_get (hd_jobs (st_data A)) (ev_job_id ev)")
  case (Some cur)
  from assms(1) Some have c: "jv_id (hj_view cur) = ev_job_id ev"
    "row_at_least db (hj_organization_id cur) (ev_job_id ev) (dj_attempt (hj_dispatch cur)) (hj_last_event cur)"
    by (auto simp: cache_ok_def)
  have "hj_organization_id cur = hj_organization_id snapshot"
    by (rule row_at_least_org[OF assms(3) c(2) assms(4)])
  with c assms(4) have "cache_ok ((st_data A)\<lparr>hd_jobs := hm_insert (ev_job_id ev)
      (advance_resident snapshot ev append_event g sid now cur) (hd_jobs (st_data A))\<rparr>) db"
    if "dj_attempt (hj_dispatch cur) = ev_attempt ev" "hj_last_event cur = hj_last_event snapshot" for g
    using that by (intro cache_ok_insert[OF assms(1)]) (auto simp: advance_resident_def Let_def)
  then show ?thesis
    using Some assms(1) cache_ok_forget by (simp add: finish_job_event_def)
qed (use assms(1) in \<open>simp add: finish_job_event_def\<close>)

lemma finish_frame [simp]:
  "st_store (finish_job_event org wid sid snapshot ev append_event now A) = st_store A"
  "st_sessions (finish_job_event org wid sid snapshot ev append_event now A) = st_sessions A"
  by (simp_all add: finish_job_event_def split: option.splits)

lemma merge_adopted_cache_ok:
  assumes "cache_ok (st_data A) db"
  shows "cache_ok (st_data (merge_adopted_job_session org wid job attempt sid now A)) db"
    "st_store (merge_adopted_job_session org wid job attempt sid now A) = st_store A"
    "st_sessions (merge_adopted_job_session org wid job attempt sid now A) = st_sessions A"
  using assms by (auto simp: merge_adopted_job_session_def cache_ok_def split: option.splits)

lemma rebind_keys:
  "hm_wf (db_jobs db) \<Longrightarrow>
     hm_get (db_jobs (fst (rebind_job_session org job attempt ex new now db))) k = None \<longleftrightarrow> hm_get (db_jobs db) k = None"
  by (auto simp: rebind_job_session_def update_where_def case_prod_unfold Let_def split: option.splits)

lemma rebind_store_ok:
  assumes "store_ok db"
  shows "store_ok (fst (rebind_job_session org job attempt ex new now db))"
    "rows_forward (db_jobs db) (db_jobs (fst (rebind_job_session org job attempt ex new now db)))"
proof -
  note step = store_step.rebind[of J db org job attempt ex new now for J]
  show "rows_forward (db_jobs db) (db_jobs (fst (rebind_job_session org job attempt ex new now db)))"
    by (rule store_step_forward[OF step store_ok_wf[OF assms]])
  have "unique_job_ids (fst (rebind_job_session org job attempt ex new now db)) = unique_job_ids db"
    by (rule unique_job_ids_same_keys) (rule rebind_keys[OF store_ok_wf[OF assms]])
  then show "store_ok (fst (rebind_job_session org job attempt ex new now db))"
    using assms rebind_quota by (simp add: store_ok_def)
qed

lemma adopt_duplicate_ok:
  assumes "st_store A = Some db" "store_ok db" "cache_ok (st_data A) db"
    and "adopt_duplicate org wid sid job ev now A = (A', r)"
  shows "\<exists>db'. st_store A' = Some db' \<and> store_ok db' \<and> cache_ok (st_data A') db' \<and> rows_forward (db_jobs db) (db_jobs db')"
proof (cases "jv_session_id (hj_view job) = sid")
  case True
  with assms show ?thesis by (auto simp: adopt_duplicate_def)
next
  case False
  let ?rb = "rebind_job_session (hj_organization_id job) (jv_id (hj_view job)) (uint (dj_attempt (hj_dispatch job)))
    (jv_session_id (hj_view job)) sid now db"
  note ok = rebind_store_ok[OF assms(2), of "hj_organization_id job" "jv_id (hj_view job)"
      "uint (dj_attempt (hj_dispatch job))" "jv_session_id (hj_view job)" sid now]
  have c: "cache_ok (st_data (A\<lparr>st_store := Some (fst ?rb)\<rparr>)) (fst ?rb)"
    using cache_ok_forward[OF ok(2) assms(3)] by simp
  from assms(1,4) False ok c merge_adopted_cache_ok[OF c] show ?thesis
    by (auto simp: adopt_duplicate_def Let_def case_prod_unfold split: if_splits)
qed

text \<open>The paths of the handler on a Hub with a store.\<close>

lemma apply_job_event_cases:
  assumes st: "st_store A = Some db" and ap: "apply_job_event J now org wid sid ev A = (A', r)"
  obtains (reconciled) rr where
      "reconcile_persisted_job_event J now org (ev_job_id ev) (ev_sequence ev) db A = (A', rr)"
      "\<And>x. r = Ok x \<Longrightarrow> rr = Ok True"
      "hm_get (hd_jobs (st_data A)) (ev_job_id ev) = None \<or>
       (\<exists>job. hm_get (hd_jobs (st_data A)) (ev_job_id ev) = Some job \<and>
          snd (store_apply_job_event (event_insert_of job ev now) (event_update_of job ev sid) db) = Ok False)"
  | (not_owner) job where "hm_get (hd_jobs (st_data A)) (ev_job_id ev) = Some job"
      "hj_worker_organization_id job \<noteq> org \<or> jv_worker_id (hj_view job) \<noteq> wid \<or> ev_attempt ev \<noteq> dj_attempt (hj_dispatch job)"
      "A' = A" "\<exists>x. r = Ok x"
  | (failed) e where "A' = A" "r = Err e"
  | (duplicate) job ra where "hm_get (hd_jobs (st_data A)) (ev_job_id ev) = Some job"
      "current_session_id (st_sessions A) org wid = Some sid"
      "ev_attempt ev = dj_attempt (hj_dispatch job)" "plan_job_event job ev = PlanDuplicate"
      "adopt_duplicate org wid sid job ev now A = (A', ra)" "\<And>x. r = Ok x \<Longrightarrow> ra = Ok ()"
  | (applied) job append_event db1 where "hm_get (hd_jobs (st_data A)) (ev_job_id ev) = Some job"
      "current_session_id (st_sessions A) org wid = Some sid"
      "ev_attempt ev = dj_attempt (hj_dispatch job)" "plan_job_event job ev = PlanApply append_event"
      "store_apply_job_event (event_insert_of job ev now) (event_update_of job ev sid) db = (db1, Ok True)"
      "A' = finish_job_event org wid sid job ev append_event now (A\<lparr>st_store := Some db1\<rparr>)" "\<exists>x. r = Ok x"
proof (cases "hm_get (hd_jobs (st_data A)) (ev_job_id ev)")
  case None
  obtain A2 rr where rec: "reconcile_persisted_job_event J now org (ev_job_id ev) (ev_sequence ev) db A = (A2, rr)"
    by fastforce
  show ?thesis
    by (rule reconciled[of rr])
      (use ap st None rec in \<open>auto simp: apply_job_event_def Let_def split: sum.splits if_splits\<close>)
next
  case job: (Some job)
  let ?foreign = "hj_worker_organization_id job \<noteq> org \<or> jv_worker_id (hj_view job) \<noteq> wid \<or> ev_attempt ev \<noteq> dj_attempt (hj_dispatch job)"
  let ?live = "current_session_id (st_sessions A) org wid = Some sid"
  show ?thesis
  proof (cases "?foreign \<or> \<not> ?live")
    case True
    show ?thesis
    proof (cases ?foreign)
      case True
      show ?thesis by (rule not_owner[OF job True]) (use ap job True in \<open>auto simp: apply_job_event_def Let_def\<close>)
    next
      case False
      then show ?thesis using ap job True by (intro failed) (auto simp: apply_job_event_def Let_def)
    qed
  next
    case False
    then have own: "hj_worker_organization_id job = org" "jv_worker_id (hj_view job) = wid"
      "ev_attempt ev = dj_attempt (hj_dispatch job)" "current_session_id (st_sessions A) org wid = Some sid" by auto
    note ap' = ap[unfolded apply_job_event_def Let_def job option.case own, simplified]
    show ?thesis
    proof (cases "plan_job_event job ev")
      case (PlanReject e)
      show ?thesis by (rule failed[of e]) (use ap' PlanReject in auto)
    next
      case PlanDuplicate
      obtain A2 ra where ad: "adopt_duplicate org wid sid job ev now A = (A2, ra)" by fastforce
      show ?thesis
        by (rule duplicate[OF job own(4,3) PlanDuplicate, of ra]) (use ap' PlanDuplicate ad in \<open>auto split: sum.splits\<close>)
    next
      case plan: (PlanApply append_event)
      obtain db1 res where store: "store_apply_job_event (event_insert_of job ev now) (event_update_of job ev sid) db = (db1, res)"
        by fastforce
      note ap'' = ap'[unfolded plan st, simplified, unfolded store, simplified]
      show ?thesis
      proof (cases "res = Ok True")
        case True
        show ?thesis
          by (rule applied[OF job own(4,3) plan store[unfolded True]]) (use ap'' True in auto)
      next
        case False
        from store False have db1: "db1 = db" by (cases rule: store_apply_job_event_cases) auto
        have same: "A\<lparr>st_store := Some db1\<rparr> = A" using st db1 by simp
        show ?thesis
        proof (cases res)
          case (Inl e)
          show ?thesis by (rule failed[of Store]) (use ap'' Inl in auto)
        next
          case (Inr b)
          obtain A2 rr where rec: "reconcile_persisted_job_event J now org (ev_job_id ev) (ev_sequence ev) db A = (A2, rr)"
            by fastforce
          from Inr False have b: "res = Ok False" by auto
          show ?thesis
            by (rule reconciled[of rr]) (use ap'' b same db1 rec job store in \<open>auto split: sum.splits if_splits\<close>)
        qed
      qed
    qed
  qed
qed

lemma apply_job_event_ok:
  assumes ok: "st_store A = Some db" "store_ok db" "cache_ok (st_data A) db"
    and ap: "apply_job_event J now org wid sid ev A = (A', r)"
  shows "\<exists>db'. st_store A' = Some db' \<and> store_ok db' \<and> cache_ok (st_data A') db' \<and> rows_forward (db_jobs db) (db_jobs db')"
  using ok(1) ap
proof (cases rule: apply_job_event_cases)
  case (reconciled rr)
  then show ?thesis using reconcile_event[OF ok reconciled(1)] ok(2) by auto
next
  case (duplicate job ra)
  then show ?thesis using adopt_duplicate_ok[OF ok] by blast
next
  case (applied job append_event db1)
  note s1 = apply_store_ok[OF ok(2) applied(4,5)]
  have c1: "cache_ok (st_data (A\<lparr>st_store := Some db1\<rparr>)) db1" using cache_ok_forward[OF s1(2) ok(3)] by simp
  have "row_at_least db1 (hj_organization_id job) (ev_job_id ev) (ev_attempt ev) (ev_sequence ev)"
    using applied_row[OF store_ok_wf[OF ok(2)] applied(5)] by simp
  from finish_cache_ok[OF c1 _ _ this] s1 applied(6) show ?thesis by (auto simp: store_ok_def)
qed (use ok in auto)

text \<open>
  C29: An acknowledged event is durable. When the Hub acknowledges an event of a job
  that is resident and belongs to the sender, the stored row of the job is afterwards
  terminal or at or past the event's sequence, so that the worker may forget the event.
\<close>
theorem acknowledged_event_durable:
  assumes "hub_ok A" "apply_job_event J now org wid sid ev A = (A', Ok ack)"
    and "hm_get (hd_jobs (st_data A)) (ev_job_id ev) = Some job"
    and "hj_worker_organization_id job = org" "jv_worker_id (hj_view job) = wid"
    and "ev_attempt ev = dj_attempt (hj_dispatch job)"
  shows "\<exists>db' row. st_store A' = Some db' \<and>
    hm_get (db_jobs db') (hj_organization_id job, ev_job_id ev) = Some row \<and>
    (terminal_state (j_state row) \<or> u64_to_i64_or_max (ev_sequence ev) \<le> j_last_event row)"
proof -
  from assms(1) obtain db where ok: "st_store A = Some db" "store_ok db" "cache_ok (st_data A) db" by (rule hub_okE)
  have row: "row_at_least db (hj_organization_id job) (ev_job_id ev) (dj_attempt (hj_dispatch job)) (hj_last_event job)"
    using ok(3) assms(3) by (auto simp: cache_ok_def)
  from row have stored: "hm_get (db_jobs db) (hj_organization_id job, ev_job_id ev) \<noteq> None"
    by (auto simp: row_at_least_def split: option.splits)
  from ok(1) assms(2) show ?thesis
  proof (cases rule: apply_job_event_cases)
    case (reconciled rr)
    from reconcile_event[OF ok reconciled(1)] reconciled(2) obtain row' where r: "st_store A' = Some db"
      "hm_get (db_jobs db) (org, ev_job_id ev) = Some row'"
      "terminal_state (j_state row') \<or> u64_to_i64_or_max (ev_sequence ev) \<le> j_last_event row'" by blast
    have "unique_job_ids db" using ok(2) by (simp add: store_ok_def)
    with stored r(2) have "hj_organization_id job = org"
      unfolding unique_job_ids_def by (metis option.distinct(1))
    with r show ?thesis by blast
  next
    case (duplicate job' ra)
    then have seq: "ev_sequence ev \<le> hj_last_event job" "job' = job"
      using assms(3) by (auto simp: plan_job_event_def Let_def split: if_splits)
    from adopt_duplicate_ok[OF ok duplicate(5)] obtain db' where
      db': "st_store A' = Some db'" "rows_forward (db_jobs db) (db_jobs db')" by blast
    from row_at_least_forward[OF db'(2) row] u64_to_i64_mono[OF seq(1)] db'(1) show ?thesis
      by (auto simp: row_at_least_def split: option.splits)
  next
    case (applied job' append_event db1)
    then have "job' = job" using assms(3) by simp
    with applied_row[OF store_ok_wf[OF ok(2)] applied(5)] applied(6) show ?thesis
      by (auto simp: row_at_least_def split: option.splits)
  qed (use assms(3-6) in auto)
qed

subsection \<open>Interleaved handlers\<close>

text \<open>
  The Hub with several handlers in flight. A handler that has committed its event to the
  store and waits for the data lock is an entry of the second component; between its
  two halves any other step may run: calls of the store by other handlers and other
  Hub instances (with fresh job ids), whole handlers, and the removal of an evicted
  job. The snapshot of a handler is the resident record at the time it was read, which
  may be long before.
\<close>

record inflight =
  if_org :: string
  if_worker :: string
  if_session :: string
  if_snapshot :: HubJobRecord
  if_event :: JobEvent
  if_append :: bool
  if_now :: i64

inductive hub_step :: "json_codec \<Rightarrow> AppState \<times> inflight list \<Rightarrow> AppState \<times> inflight list \<Rightarrow> bool" for J where
  store_call: "st_store A = Some db \<Longrightarrow> store_step J db db' \<Longrightarrow> unique_job_ids db' \<Longrightarrow>
    hub_step J (A, F) (A\<lparr>st_store := Some db'\<rparr>, F)"
| whole_event: "apply_job_event J now org wid sid ev A = (A', r) \<Longrightarrow> hub_step J (A, F) (A', F)"
| event_committed: "st_store A = Some db \<Longrightarrow> plan_job_event job ev = PlanApply append_event \<Longrightarrow>
    ev_attempt ev = dj_attempt (hj_dispatch job) \<Longrightarrow>
    store_apply_job_event (event_insert_of job ev now) (event_update_of job ev sid) db = (db', Ok True) \<Longrightarrow>
    hub_step J (A, F) (A\<lparr>st_store := Some db'\<rparr>, \<lparr>if_org = org, if_worker = wid, if_session = sid,
      if_snapshot = job, if_event = ev, if_append = append_event, if_now = now\<rparr> # F)"
| event_finished: "hub_step J (A, F1 @ f # F2)
    (finish_job_event (if_org f) (if_worker f) (if_session f) (if_snapshot f) (if_event f) (if_append f) (if_now f) A,
     F1 @ F2)"
| sessions_change: "hub_step J (A, F) (A\<lparr>st_sessions := R\<rparr>, F)"
| evict: "hub_step J (A, F) (A\<lparr>st_data := forget_job job_id (st_data A)\<rparr>, F)"

definition inflight_ok :: "Db \<Rightarrow> inflight \<Rightarrow> bool" where
  "inflight_ok db f =
     row_at_least db (hj_organization_id (if_snapshot f)) (ev_job_id (if_event f)) (ev_attempt (if_event f))
       (ev_sequence (if_event f))"

definition system_ok :: "AppState \<times> inflight list \<Rightarrow> bool" where
  "system_ok = (\<lambda>(A, F). case st_store A of None \<Rightarrow> False
     | Some db \<Rightarrow> store_ok db \<and> cache_ok (st_data A) db \<and> list_all (inflight_ok db) F)"

lemma inflight_forward:
  "rows_forward (db_jobs db) (db_jobs db') \<Longrightarrow> list_all (inflight_ok db) F \<Longrightarrow> list_all (inflight_ok db') F"
  by (auto simp: list_all_iff inflight_ok_def intro: row_at_least_forward)

lemma hub_step_ok:
  assumes "hub_step J S S'" "system_ok S"
  shows "system_ok S'"
  using assms
proof (cases rule: hub_step.cases)
  case (store_call A db db' F)
  then have s: "store_ok db" "cache_ok (st_data A) db" "list_all (inflight_ok db) F"
    using assms(2) by (auto simp: system_ok_def)
  note fwd = store_step_forward[OF store_call(4) store_ok_wf[OF s(1)]]
  have "store_ok db'" using s(1) store_call(4,5) store_step_quota by (auto simp: store_ok_def)
  then show ?thesis
    using store_call(2) cache_ok_forward[OF fwd s(2)] inflight_forward[OF fwd s(3)] by (simp add: system_ok_def)
next
  case (whole_event now org wid sid ev A A' r F)
  then obtain db where s: "st_store A = Some db" "store_ok db" "cache_ok (st_data A) db" "list_all (inflight_ok db) F"
    using assms(2) by (auto simp: system_ok_def split: option.splits)
  from apply_job_event_ok[OF s(1-3) whole_event(3)] inflight_forward[OF _ s(4)] whole_event(2) show ?thesis
    by (auto simp: system_ok_def)
next
  case (event_committed A db job ev append_event now sid db' F org wid)
  then have s: "store_ok db" "cache_ok (st_data A) db" "list_all (inflight_ok db) F"
    using assms(2) by (auto simp: system_ok_def)
  note ok = apply_store_ok[OF s(1) event_committed(4,6)]
  have "inflight_ok db' \<lparr>if_org = org, if_worker = wid, if_session = sid,
      if_snapshot = job, if_event = ev, if_append = append_event, if_now = now\<rparr>"
    using applied_row[OF store_ok_wf[OF s(1)] event_committed(6)] by (simp add: inflight_ok_def)
  with ok cache_ok_forward[OF ok(2) s(2)] inflight_forward[OF ok(2) s(3)] event_committed(2) show ?thesis
    by (simp add: system_ok_def)
next
  case (event_finished A F1 f F2)
  then obtain db where s: "st_store A = Some db" "store_ok db" "cache_ok (st_data A) db"
    "list_all (inflight_ok db) F1" "list_all (inflight_ok db) F2" "inflight_ok db f"
    using assms(2) by (auto simp: system_ok_def split: option.splits)
  from finish_cache_ok[OF s(3,1) _ s(6)[unfolded inflight_ok_def]] s event_finished(2) show ?thesis
    by (simp add: system_ok_def store_ok_def)
next
  case (sessions_change A F R)
  then show ?thesis using assms(2) by (auto simp: system_ok_def split: option.splits)
next
  case (evict A F job_id)
  then show ?thesis using assms(2) cache_ok_forget by (auto simp: system_ok_def split: option.splits)
qed

text \<open>
  C30: The resident cache never runs ahead of the store. Whatever handlers interleave,
  in every state reachable from a consistent one each resident job has a stored row
  of the same attempt whose last event is at least the resident one: a decision made
  on the cache is based on a state that is durable.
\<close>
theorem cache_never_ahead:
  assumes "(hub_step J)\<^sup>*\<^sup>* (A0, []) (A, F)" "system_ok (A0, [])"
    and "hm_get (hd_jobs (st_data A)) job_id = Some r"
  shows "\<exists>db row. st_store A = Some db \<and> hm_get (db_jobs db) (hj_organization_id r, job_id) = Some row \<and>
    j_attempt row = uint (dj_attempt (hj_dispatch r)) \<and> u64_to_i64_or_max (hj_last_event r) \<le> j_last_event row"
proof -
  have "system_ok (A, F)"
    using assms(1,2) by (induction rule: rtranclp_induct) (auto intro: hub_step_ok)
  then obtain db where "st_store A = Some db" "cache_ok (st_data A) db"
    by (auto simp: system_ok_def split: option.splits)
  with assms(3) show ?thesis
    by (fastforce simp: cache_ok_def row_at_least_def split: option.splits)
qed

subsection \<open>States and duplicates\<close>

lemma plan_reaches:
  "plan_job_event job ev = PlanApply a \<Longrightarrow> reaches (jv_state (hj_view job)) (event_next_state (ev_kind ev))"
  by (auto simp: plan_job_event_def Let_def intro: reaches_one can_recover_reaches split: if_splits)

text \<open>
  The event handler moves the stored state of every job only along the lifecycle:
  the state after an event, applied, refused or replayed, is reachable from the state
  before it in the transition table, and a job that was terminal keeps its state.
\<close>
theorem event_moves_forward:
  assumes "hub_ok A" "apply_job_event J now org wid sid ev A = (A', r)" "st_store A = Some db"
    and "hm_get (db_jobs db) k = Some row" "parse_job_state (j_state row) = Ok s"
  shows "\<exists>db' row' s'. st_store A' = Some db' \<and> hm_get (db_jobs db') k = Some row' \<and>
    parse_job_state (j_state row') = Ok s' \<and> reaches s s' \<and> (is_terminal s \<longrightarrow> s' = s)"
proof -
  from assms(1,3) have ok: "st_store A = Some db" "store_ok db" "cache_ok (st_data A) db" by (auto elim: hub_okE)
  note wf = store_ok_wf[OF ok(2)]
  have same: ?thesis if "st_store A' = Some db'" "hm_get (db_jobs db') k = Some row'" "j_state row' = j_state row" for db' row'
    using that assms(5) reaches_refl by auto
  from ok(1) assms(2) show ?thesis
  proof (cases rule: apply_job_event_cases)
    case (reconciled rr)
    then show ?thesis using reconcile_event[OF ok reconciled(1)] assms(4) by (intro same) auto
  next
    case (duplicate job ra)
    show ?thesis
    proof (cases "jv_session_id (hj_view job) = sid")
      case True
      then show ?thesis using duplicate(5) ok(1) assms(4) by (intro same[of db row]) (auto simp: adopt_duplicate_def)
    next
      case False
      let ?rb = "rebind_job_session (hj_organization_id job) (jv_id (hj_view job)) (uint (dj_attempt (hj_dispatch job)))
        (jv_session_id (hj_view job)) sid now db"
      have "st_store A' = Some (fst ?rb)"
        using duplicate(5) False ok(1) merge_adopted_job_session_def
        by (auto simp: adopt_duplicate_def Let_def case_prod_unfold merge_adopted_job_session_def
            split: if_splits option.splits)
      moreover have "\<exists>row'. hm_get (db_jobs (fst ?rb)) k = Some row' \<and> j_state row' = j_state row"
        using assms(4) wf by (auto simp: rebind_job_session_def update_where_def case_prod_unfold Let_def split: option.splits)
      ultimately show ?thesis using same by blast
    qed
  next
    case (applied job append_event db1)
    from applied(5) show ?thesis
    proof (cases rule: store_apply_job_event_cases)
      case (2 j dbe)
      have jobs: "db_jobs db1 = hm_insert (hj_organization_id job, ev_job_id ev)
          (event_edit (event_insert_of job ev now) (event_update_of job ev sid) j) (db_jobs db)"
        using 2(5) by (simp add: Let_def event_insert_of_def)
      show ?thesis
      proof (cases "k = (hj_organization_id job, ev_job_id ev)")
        case True
        then have "row = j" using 2(3) assms(4) by (simp add: event_insert_of_def)
        with 2(4) assms(5) have s: "s = jv_state (hj_view job)"
          by (simp add: event_guard_def event_update_of_def)
        with plan_reaches[OF applied(4)] reaches_terminal True jobs wf applied(6) show ?thesis
          by (auto simp: event_edit_def event_update_of_def)
      next
        case False
        then show ?thesis using jobs wf assms(4) applied(6) by (intro same[of db1 row]) auto
      qed
    qed simp
  qed (use ok(1) same[of db row] assms(4) in simp_all)
qed

text \<open>A resident job that agrees with its row.\<close>

definition in_sync :: "HubJobRecord \<Rightarrow> StoredJob \<Rightarrow> bool" where
  "in_sync job row \<longleftrightarrow>
     j_attempt row = uint (dj_attempt (hj_dispatch job)) \<and> j_state row = job_state_name (jv_state (hj_view job)) \<and>
     j_last_event row = u64_to_i64_or_max (hj_last_event job) \<and> j_session_id row = Some (jv_session_id (hj_view job))"

lemma current_session_guard: "current_session_id R org wid = Some sid \<Longrightarrow> guard_current_session R org wid sid"
  by (auto simp: current_session_id_def guard_current_session_def sr_current_def split: option.splits)

lemma finish_terminal:
  assumes "st_store A = Some db" "hm_get (hd_jobs (st_data A)) (ev_job_id ev) = Some job"
    and "ev_attempt ev = dj_attempt (hj_dispatch job)" "is_terminal (event_next_state (ev_kind ev))"
  shows "finish_job_event org wid sid job ev append_event now A = A\<lparr>st_data := forget_job (ev_job_id ev) (st_data A)\<rparr>"
  using assms by (simp add: finish_job_event_def)

lemma finish_live:
  assumes "hm_get (hd_jobs (st_data A)) (ev_job_id ev) = Some job" "hm_wf (hd_jobs (st_data A))"
    and "ev_attempt ev = dj_attempt (hj_dispatch job)" "\<not> is_terminal (event_next_state (ev_kind ev))"
    and "current_session_id (st_sessions A) org wid = Some sid"
  shows "hm_get (hd_jobs (st_data (finish_job_event org wid sid job ev append_event now A))) (ev_job_id ev) =
    Some (advance_resident job ev append_event True sid now job)"
  using assms current_session_guard[OF assms(5)] by (simp add: finish_job_event_def)

text \<open>After an applied event that ends the job, the row is terminal and has a valid sequence.\<close>

lemma applied_terminal_row:
  assumes "hm_wf (db_jobs db)" "is_terminal (event_next_state (ev_kind ev))"
    and "store_apply_job_event (event_insert_of job ev now) (event_update_of job ev sid) db = (db1, Ok True)"
  shows "\<exists>row n. hm_get (db_jobs db1) (hj_organization_id job, ev_job_id ev) = Some row \<and>
    j_state row = job_state_name (event_next_state (ev_kind ev)) \<and> u64_try_from (j_last_event row) = Some n"
  using assms(3)
proof (cases rule: store_apply_job_event_cases)
  case (2 j dbe)
  have "0 \<le> u64_to_i64_or_max (ev_sequence ev)" by (simp add: u64_to_i64_or_max_def i64_max_def)
  then have "0 \<le> max (j_last_event j) (u64_to_i64_or_max (ev_sequence ev))" by linarith
  with 2(5) assms(1) show ?thesis
    by (auto simp: Let_def event_edit_def event_insert_of_def event_update_of_def u64_try_from_def)
qed simp

text \<open>The second delivery of an event whose first delivery was applied.\<close>

lemma replay_after_terminal:
  assumes ok: "st_store A = Some db" "store_ok db" "cache_ok (st_data A) db"
    and ev: "hm_get (hd_jobs (st_data A)) (ev_job_id ev) = Some job" "ev_attempt ev = dj_attempt (hj_dispatch job)"
      "is_terminal (event_next_state (ev_kind ev))" "plan_job_event job ev = PlanApply append_event"
    and st: "store_apply_job_event (event_insert_of job ev now) (event_update_of job ev sid) db = (db1, Ok True)"
    and A1: "A1 = finish_job_event org wid sid job ev append_event now (A\<lparr>st_store := Some db1\<rparr>)"
  shows "apply_job_event J now' org wid sid ev A1 =
    (A1, if hj_organization_id job = org then Ok \<lparr>ea_job_id = ev_job_id ev, ea_sequence = ev_sequence ev\<rparr>
         else Err (HubNotFound ''job''))"
proof -
  note s1 = apply_store_ok[OF ok(2) ev(4) st]
  have A1': "A1 = A\<lparr>st_store := Some db1, st_data := forget_job (ev_job_id ev) (st_data A)\<rparr>"
    unfolding A1 using ev by (subst finish_terminal[of _ db1]) simp_all
  have wf: "hm_wf (hd_jobs (st_data A))" using ok(3) by (simp add: cache_ok_def)
  have gone: "hm_get (hd_jobs (st_data A1)) (ev_job_id ev) = None" "st_store A1 = Some db1"
    using wf by (simp_all add: A1' forget_job_def)
  from applied_terminal_row[OF store_ok_wf[OF ok(2)] ev(3) st] obtain row n where
    row: "hm_get (db_jobs db1) (hj_organization_id job, ev_job_id ev) = Some row"
      "j_state row = job_state_name (event_next_state (ev_kind ev))" "u64_try_from (j_last_event row) = Some n" by blast
  have noop: "release_job_for_terminal now' org (ev_job_id ev) db1 = db1"
    using s1(1) by (simp add: store_ok_def release_terminal_noop)
  have forget2: "forget_job (ev_job_id ev) (st_data A1) = st_data A1"
  proof -
    have "hm_remove x (hm_remove x m) = hm_remove x m" for x and m :: "(string, HubJobRecord) hash_map"
      by (simp add: hm_remove_def delete_idem)
    moreover have "hm_retain p (hm_retain p m) = hm_retain p m" for p and m :: "(string, ArtifactRecord) hash_map"
      by (simp add: hm_retain_def)
    ultimately show ?thesis by (simp add: A1' forget_job_def)
  qed
  show ?thesis
  proof (cases "hj_organization_id job = org")
    case True
    have "A1\<lparr>st_store := Some db1, st_data := st_data A1\<rparr> = A1" using gone(2) by simp
    with True row gone noop forget2 ev(3) show ?thesis
      by (simp add: apply_job_event_def Let_def reconcile_persisted_job_event_def db_job_def)
  next
    case False
    have "unique_job_ids db1" using s1(1) by (simp add: store_ok_def)
    with False row(1) have "hm_get (db_jobs db1) (org, ev_job_id ev) = None"
      unfolding unique_job_ids_def by (metis option.distinct(1))
    with False gone show ?thesis
      by (simp add: apply_job_event_def Let_def reconcile_persisted_job_event_def db_job_def)
  qed
qed

lemma replay_after_live:
  assumes ok: "cache_ok (st_data A) db"
    and ev: "hm_get (hd_jobs (st_data A)) (ev_job_id ev) = Some job" "ev_attempt ev = dj_attempt (hj_dispatch job)"
      "\<not> is_terminal (event_next_state (ev_kind ev))" "plan_job_event job ev = PlanApply append_event"
    and own: "hj_worker_organization_id job = org" "jv_worker_id (hj_view job) = wid"
      "current_session_id (st_sessions A) org wid = Some sid"
    and A1: "A1 = finish_job_event org wid sid job ev append_event now (A\<lparr>st_store := Some db1\<rparr>)"
  shows "apply_job_event J now' org wid sid ev A1 = (A1, Ok \<lparr>ea_job_id = ev_job_id ev, ea_sequence = ev_sequence ev\<rparr>)"
proof -
  have wf: "hm_wf (hd_jobs (st_data A))" using ok by (simp add: cache_ok_def)
  let ?job = "advance_resident job ev append_event True sid now job"
  have cur: "hm_get (hd_jobs (st_data A1)) (ev_job_id ev) = Some ?job"
    unfolding A1 using ev own wf by (intro finish_live) auto
  have sess: "current_session_id (st_sessions A1) org wid = Some sid" using own(3) by (simp add: A1)
  have "ev_sequence ev \<le> hj_last_event ?job" "jv_state (hj_view ?job) = event_next_state (ev_kind ev)"
    using ev(4) by (auto simp: advance_resident_def Let_def plan_job_event_def split: if_splits)
  then have plan: "plan_job_event ?job ev = PlanDuplicate" by (simp add: plan_job_event_def Let_def)
  have adopt: "adopt_duplicate org wid sid ?job ev now' A1 = (A1, Ok ())"
    by (simp add: adopt_duplicate_def advance_resident_def Let_def)
  have "hj_worker_organization_id ?job = org" "jv_worker_id (hj_view ?job) = wid"
    "dj_attempt (hj_dispatch ?job) = ev_attempt ev"
    using own ev by (simp_all add: advance_resident_def Let_def)
  with cur sess plan adopt show ?thesis by (simp add: apply_job_event_def Let_def)
qed

lemma in_sync_applies:
  assumes "hm_get (db_jobs db) (hj_organization_id job, ev_job_id ev) = Some row" "in_sync job row"
    and "ev_attempt ev = dj_attempt (hj_dispatch job)"
  shows "snd (store_apply_job_event (event_insert_of job ev now) (event_update_of job ev sid) db) \<noteq> Ok False"
proof
  assume a: "snd (store_apply_job_event (event_insert_of job ev now) (event_update_of job ev sid) db) = Ok False"
  let ?i = "event_insert_of job ev now" and ?u = "event_update_of job ev sid"
  have key: "ei_organization_id ?i = hj_organization_id job" "ei_job_id ?i = ev_job_id ev"
    by (simp_all add: event_insert_of_def)
  have guard: "j_attempt row = ei_attempt ?i \<and> j_state row = eu_expected_state ?u \<and>
      j_last_event row = eu_expected_last_event ?u \<and>
      j_session_id row \<in> {Some (eu_expected_session_id ?u), Some (eu_session_id ?u)}"
    using assms(2,3) by (simp add: in_sync_def event_insert_of_def event_update_of_def)
  have "hm_contains (db_jobs db) (hj_organization_id job, ev_job_id ev)" using assms(1) by (simp add: hm_contains_def)
  with a guard assms(1) insert_event_frame show False
    unfolding store_apply_job_event_def key
    by (auto simp: update_where_def Let_def split: option.splits if_splits)
qed

lemma replay_after_duplicate:
  assumes ok: "st_store A = Some db" "cache_ok (st_data A) db"
    and ev: "hm_get (hd_jobs (st_data A)) (ev_job_id ev) = Some job" "ev_attempt ev = dj_attempt (hj_dispatch job)"
      "plan_job_event job ev = PlanDuplicate"
    and sync: "hm_get (db_jobs db) (hj_organization_id job, ev_job_id ev) = Some row" "in_sync job row"
    and own: "hj_worker_organization_id job = org" "jv_worker_id (hj_view job) = wid"
      "current_session_id (st_sessions A) org wid = Some sid"
    and ad: "adopt_duplicate org wid sid job ev now A = (A1, Ok ())"
  shows "apply_job_event J now' org wid sid ev A1 = (A1, Ok \<lparr>ea_job_id = ev_job_id ev, ea_sequence = ev_sequence ev\<rparr>)"
proof -
  have wf: "hm_wf (hd_jobs (st_data A))" and jid: "jv_id (hj_view job) = ev_job_id ev"
    using ok(2) ev(1) by (auto simp: cache_ok_def)
  have "\<exists>job1. hm_get (hd_jobs (st_data A1)) (ev_job_id ev) = Some job1 \<and> jv_session_id (hj_view job1) = sid \<and>
      hj_worker_organization_id job1 = org \<and> jv_worker_id (hj_view job1) = wid \<and>
      dj_attempt (hj_dispatch job1) = ev_attempt ev \<and> plan_job_event job1 ev = PlanDuplicate \<and>
      st_sessions A1 = st_sessions A"
  proof (cases "jv_session_id (hj_view job) = sid")
    case True
    then show ?thesis using ad ev own by (auto simp: adopt_duplicate_def)
  next
    case False
    obtain db' b where rb: "rebind_job_session (hj_organization_id job) (jv_id (hj_view job))
        (uint (dj_attempt (hj_dispatch job))) (jv_session_id (hj_view job)) sid now db = (db', b)" by fastforce
    have b: b and A1: "A1 = merge_adopted_job_session org wid (ev_job_id ev) (dj_attempt (hj_dispatch job)) sid now
        (A\<lparr>st_store := Some db'\<rparr>)"
      using ad False ok(1) rb by (auto simp: adopt_duplicate_def Let_def split: if_splits)
    have "\<not> is_terminal (jv_state (hj_view job))"
      using rb b sync jid by (auto simp: rebind_job_session_def update_where_def in_sync_def split: if_splits)
    then show ?thesis
      using A1 ev own wf current_session_guard[OF own(3)]
      by (simp add: merge_adopted_job_session_def plan_job_event_def)
  qed
  then show ?thesis
    using own(3) by (auto simp: apply_job_event_def Let_def adopt_duplicate_def)
qed

text \<open>
  A repeated delivery is harmless. When the resident job agrees with its row and
  belongs to the worker's own organization, delivering an event again after it was
  acknowledged is acknowledged again and changes nothing, whether the event advanced
  the job, ended it or was itself a duplicate.
\<close>
theorem duplicate_delivery_harmless:
  assumes "hub_ok A" "st_store A = Some db"
    and "hm_get (hd_jobs (st_data A)) (ev_job_id ev) = Some job" "hj_organization_id job = org"
    and "hm_get (db_jobs db) (hj_organization_id job, ev_job_id ev) = Some row" "in_sync job row"
    and "apply_job_event J now org wid sid ev A = (A1, Ok ack)"
  shows "apply_job_event J now' org wid sid ev A1 = (A1, Ok \<lparr>ea_job_id = ev_job_id ev, ea_sequence = ev_sequence ev\<rparr>)"
proof -
  from assms(1,2) have ok: "st_store A = Some db" "store_ok db" "cache_ok (st_data A) db" by (auto elim: hub_okE)
  let ?foreign = "hj_worker_organization_id job \<noteq> org \<or> jv_worker_id (hj_view job) \<noteq> wid \<or> ev_attempt ev \<noteq> dj_attempt (hj_dispatch job)"
  show ?thesis
  proof (cases ?foreign)
    case True
    then show ?thesis using assms(3,7) by (auto simp: apply_job_event_def Let_def)
  next
    case False
    from ok(1) assms(7) show ?thesis
    proof (cases rule: apply_job_event_cases)
      case (reconciled rr)
      then show ?thesis using in_sync_applies[OF assms(5,6)] assms(3) False by auto
    next
      case (duplicate job' ra)
      then show ?thesis
        using replay_after_duplicate[OF ok(1,3) assms(3) _ _ assms(5,6)] assms(3) False by auto
    next
      case (applied job' append_event db1)
      then have j: "job' = job" using assms(3) by simp
      show ?thesis
      proof (cases "is_terminal (event_next_state (ev_kind ev))")
        case True
        from replay_after_terminal[OF ok assms(3) applied(3)[unfolded j] True applied(4,5)[unfolded j] applied(6)[unfolded j]]
        show ?thesis using assms(4) by simp
      next
        case live: False
        from replay_after_live[OF ok(3) assms(3) applied(3)[unfolded j] live applied(4)[unfolded j] _ _ applied(2) applied(6)[unfolded j]]
        show ?thesis using False by simp
      qed
    qed (use False assms(3) in auto)
  qed
qed

text \<open>
  On a shared device the replay of a terminal event is refused. The handler looks
  the finished job up under the organization of the worker, while its row belongs to
  the organization of the consumer, so that a worker whose first acknowledgement was
  lost is answered not found on every retry.
\<close>
theorem shared_device_replay_refused:
  assumes "hub_ok A" "hm_get (hd_jobs (st_data A)) (ev_job_id ev) = Some job"
    and "hj_worker_organization_id job = org" "jv_worker_id (hj_view job) = wid"
    and "ev_attempt ev = dj_attempt (hj_dispatch job)" "hj_organization_id job \<noteq> org"
    and "is_terminal (event_next_state (ev_kind ev))" "plan_job_event job ev = PlanApply append_event"
    and "st_store A = Some db"
    and "store_apply_job_event (event_insert_of job ev now) (event_update_of job ev sid) db = (db1, Ok True)"
    and "apply_job_event J now org wid sid ev A = (A1, Ok ack)"
  shows "apply_job_event J now' org wid sid ev A1 = (A1, Err (HubNotFound ''job''))"
proof -
  from assms(1,9) have ok: "st_store A = Some db" "store_ok db" "cache_ok (st_data A) db" by (auto elim: hub_okE)
  from ok(1) assms(11) show ?thesis
  proof (cases rule: apply_job_event_cases)
    case (reconciled rr)
    then show ?thesis using assms(2,10) by auto
  next
    case (duplicate job' ra)
    then show ?thesis using assms(2,8) by auto
  next
    case (applied job' append' db1')
    then show ?thesis
      using replay_after_terminal[OF ok assms(2,5,7,8,10)] assms(2,6,8,10) by auto
  qed (use assms(2-5) in auto)
qed

subsection \<open>Sample Hubs\<close>

text \<open>A Hub of the organization \<open>w\<close> with one connected worker and one resident job of \<open>org\<close>.\<close>

definition sample_hub_job :: "string \<Rightarrow> HubJobRecord" where
  "sample_hub_job org =
     \<lparr>hj_organization_id = org, hj_actor_id = ''a'', hj_actor_kind = ''user'', hj_actor_user_id = None,
      hj_worker_organization_id = ''o'',
      hj_view = \<lparr>jv_id = ''j'', jv_workflow_id = ''w'', jv_workflow_version = ''1'', jv_parameters = Null,
        jv_input_artifact_ids = [], jv_output_artifact_ids = [], jv_worker_id = ''n'', jv_session_id = ''s'',
        jv_state = Received, jv_progress = None, jv_prompt_id = None, jv_error = None, jv_events = [],
        jv_created_at_unix_ms = 10, jv_updated_at_unix_ms = 10\<rparr>,
      hj_dispatch = \<lparr>dj_command_id = ''c'', dj_job_id = ''j'', dj_attempt = 1, dj_workflow_id = ''w'',
        dj_workflow_version = ''1'', dj_parameters = Null, dj_inputs = []\<rparr>,
      hj_last_event = 0\<rparr>"

definition sample_worker_session :: WorkerSession where
  "sample_worker_session =
     \<lparr>ws_view = \<lparr>wv_organization_id = ''o'', wv_owner_user_id = None, wv_worker_id = ''n'', wv_session_id = ''s'',
        wv_namespace = ''ns'', wv_node_name = ''n'', wv_capabilities = \<lparr>cap_workflows = [], cap_parallelism = 1,
          cap_queue_depth = 0, cap_supports_queued_job_cancellation = False, cap_labels = []\<rparr>,
        wv_active_jobs = 0, wv_queued_jobs = 0, wv_connected_at = 0\<rparr>,
      ws_credential_id = None, ws_conn = 0, ws_pending_capacity_reservations = [],
      ws_confirmed_capacity_reservations = [], ws_last_seen = 0\<rparr>"

definition sample_hub :: "string \<Rightarrow> Db \<Rightarrow> AppState" where
  "sample_hub org db =
     \<lparr>st_sessions = \<lparr>sr_inner = [(session_key ''o'' ''n'', sample_worker_session)], sr_revoked_credentials = [],
        sr_conns = []\<rparr>,
      st_data = HubData_default\<lparr>hd_jobs := [(''j'', sample_hub_job org)]\<rparr>,
      st_read_cache = ReadCache_default, st_store = Some db\<rparr>"

definition sample_failed :: JobEvent where
  "sample_failed = \<lparr>ev_job_id = ''j'', ev_attempt = 1, ev_sequence = 1, ev_kind = EvFailed, ev_progress = None,
     ev_prompt_id = None, ev_message = ''m'', ev_unix_ms = 20\<rparr>"

definition sample_shared_store :: Db where
  "sample_shared_store = sample_store\<lparr>db_quota_policies := [(''c'', snd (hd (db_quota_policies sample_store)))],
     db_quota_usage := [(''c'', snd (hd (db_quota_usage sample_store)))]\<rparr>"

definition sample_shared_store1 :: Db where
  "sample_shared_store1 = fst (commit_new_job sample_codec (sample_job\<lparr>ju_organization_id := ''c''\<rparr>) [] None None sample_shared_store)"

lemma sample_hub_ok:
  assumes "quota_inv db" "db_jobs db = [((org, ''j''), row)]" "j_attempt row = 1" "j_last_event row = 0"
  shows "hub_ok (sample_hub org db)"
proof (rule hub_okI[of _ db])
  show "st_store (sample_hub org db) = Some db" by (simp add: sample_hub_def)
  show "store_ok db"
    using assms by (auto simp: store_ok_def unique_job_ids_def hm_get_def split: if_splits)
  show "cache_ok (st_data (sample_hub org db)) db"
    using assms by (auto simp: cache_ok_def sample_hub_def HubData_default_def hm_wf_def hm_get_def row_at_least_def
        sample_hub_job_def u64_to_i64_or_max_def i64_max_def split: if_splits)
qed

lemma sample_own_ok: "hub_ok (sample_hub ''o'' sample_store1)"
proof (rule sample_hub_ok)
  show "quota_inv sample_store1" by (rule reachable_quota[OF sample_empty sample_reaches(2)])
  show "db_jobs sample_store1 = [((''o'', ''j''), new_job_row sample_job)]" by code_simp
qed (simp_all add: new_job_row_def sample_job_def)

lemma sample_shared_ok: "hub_ok (sample_hub ''c'' sample_shared_store1)"
proof (rule sample_hub_ok)
  have "commit_new_job sample_codec (sample_job\<lparr>ju_organization_id := ''c''\<rparr>) [] None None sample_shared_store =
      (sample_shared_store1, Ok JobCreated)"
    by (rule prod_eqI) (simp add: sample_shared_store1_def, code_simp)
  moreover have "quota_inv sample_shared_store" by (rule empty_store_quota) code_simp
  ultimately show "quota_inv sample_shared_store1"
    by (rule commit_new_job_quota[rotated 2]) code_simp
  show "db_jobs sample_shared_store1 = [((''c'', ''j''), new_job_row (sample_job\<lparr>ju_organization_id := ''c''\<rparr>))]"
    by code_simp
qed (simp_all add: new_job_row_def sample_job_def)

definition sample_hub1 :: AppState where
  "sample_hub1 = fst (apply_job_event sample_codec 20 ''o'' ''n'' ''s'' sample_failed (sample_hub ''o'' sample_store1))"

definition sample_shared_hub1 :: AppState where
  "sample_shared_hub1 = fst (apply_job_event sample_codec 20 ''o'' ''n'' ''s'' sample_failed (sample_hub ''c'' sample_shared_store1))"

definition sample_ack :: JobEventAck where
  "sample_ack = \<lparr>ea_job_id = ''j'', ea_sequence = 1\<rparr>"

lemma sample_resident:
  "hm_get (hd_jobs (st_data (sample_hub org db))) (ev_job_id sample_failed) = Some (sample_hub_job org)"
  "hj_worker_organization_id (sample_hub_job org) = ''o''" "jv_worker_id (hj_view (sample_hub_job org)) = ''n''"
  "ev_attempt sample_failed = dj_attempt (hj_dispatch (sample_hub_job org))"
  "hj_organization_id (sample_hub_job org) = org" "st_store (sample_hub org db) = Some db"
  by (simp_all add: sample_hub_def HubData_default_def sample_failed_def sample_hub_job_def hm_get_def)

lemma sample_event_apply:
  assumes "snd (store_apply_job_event (event_insert_of (sample_hub_job org) sample_failed 20)
       (event_update_of (sample_hub_job org) sample_failed ''s'') db) = Ok True"
  shows "snd (apply_job_event sample_codec 20 ''o'' ''n'' ''s'' sample_failed (sample_hub org db)) = Ok sample_ack"
proof -
  obtain db1 where "store_apply_job_event (event_insert_of (sample_hub_job org) sample_failed 20)
       (event_update_of (sample_hub_job org) sample_failed ''s'') db = (db1, Ok True)"
    using assms by (metis prod.collapse)
  moreover have "current_session_id (st_sessions (sample_hub org db)) ''o'' ''n'' = Some ''s''"
    by (simp add: sample_hub_def current_session_id_def sr_get_def hm_get_def sample_worker_session_def)
  moreover have "plan_job_event (sample_hub_job org) sample_failed = PlanApply True"
    by (simp add: plan_job_event_def sample_hub_job_def sample_failed_def can_transition_to_def)
  ultimately show ?thesis
    by (simp add: apply_job_event_def Let_def sample_resident sample_ack_def) (simp add: sample_failed_def)
qed

lemma sample_stored:
  "snd (store_apply_job_event (event_insert_of (sample_hub_job ''o'') sample_failed 20)
       (event_update_of (sample_hub_job ''o'') sample_failed ''s'') sample_store1) = Ok True"
  "snd (store_apply_job_event (event_insert_of (sample_hub_job ''c'') sample_failed 20)
       (event_update_of (sample_hub_job ''c'') sample_failed ''s'') sample_shared_store1) = Ok True"
  by code_simp+

lemma sample_hub_apply:
  "apply_job_event sample_codec 20 ''o'' ''n'' ''s'' sample_failed (sample_hub ''o'' sample_store1) = (sample_hub1, Ok sample_ack)"
  using sample_event_apply[OF sample_stored(1)] by (simp add: sample_hub1_def prod_eq_iff)

lemma sample_shared_apply:
  "apply_job_event sample_codec 20 ''o'' ''n'' ''s'' sample_failed (sample_hub ''c'' sample_shared_store1) =
     (sample_shared_hub1, Ok sample_ack)"
  using sample_event_apply[OF sample_stored(2)] by (simp add: sample_shared_hub1_def prod_eq_iff)

theorem acknowledged_event_durable_witness:
  "\<exists>db' row. st_store sample_hub1 = Some db' \<and> hm_get (db_jobs db') (''o'', ''j'') = Some row \<and>
     (terminal_state (j_state row) \<or> 1 \<le> j_last_event row)"
proof -
  have "u64_to_i64_or_max (ev_sequence sample_failed) = 1" "ev_job_id sample_failed = ''j''" by code_simp+
  with acknowledged_event_durable[OF sample_own_ok sample_hub_apply sample_resident(1-4)] show ?thesis
    by (simp add: sample_resident)
qed

theorem cache_never_ahead_witness:
  "\<exists>db row. st_store (sample_hub ''o'' sample_store1) = Some db \<and>
     hm_get (db_jobs db) (''o'', ''j'') = Some row \<and> j_attempt row = 1 \<and> 0 \<le> j_last_event row"
proof -
  have "system_ok (sample_hub ''o'' sample_store1, [])"
    using sample_own_ok by (auto elim!: hub_okE simp: system_ok_def)
  from cache_never_ahead[OF rtranclp.rtrancl_refl this sample_resident(1)]
  show ?thesis by (simp add: sample_resident sample_failed_def sample_hub_job_def u64_to_i64_or_max_def i64_max_def)
qed

theorem event_moves_forward_witness:
  "\<exists>db' row' s'. st_store sample_hub1 = Some db' \<and> hm_get (db_jobs db') (''o'', ''j'') = Some row' \<and>
     parse_job_state (j_state row') = Ok s' \<and> reaches Received s'"
proof -
  have "hm_get (db_jobs sample_store1) (''o'', ''j'') = Some (new_job_row sample_job)"
    "parse_job_state (j_state (new_job_row sample_job)) = Ok Received" by code_simp+
  from event_moves_forward[OF sample_own_ok sample_hub_apply sample_resident(6) this] show ?thesis by blast
qed

theorem duplicate_delivery_harmless_witness:
  "apply_job_event sample_codec 30 ''o'' ''n'' ''s'' sample_failed sample_hub1 = (sample_hub1, Ok sample_ack)"
proof -
  have "hm_get (db_jobs sample_store1) (''o'', ''j'') = Some (new_job_row sample_job)" by code_simp
  moreover have "in_sync (sample_hub_job ''o'') (new_job_row sample_job)" by code_simp
  ultimately show ?thesis
    using duplicate_delivery_harmless[OF sample_own_ok sample_resident(6,1,5) _ _ sample_hub_apply]
    by (simp add: sample_resident sample_ack_def sample_failed_def)
qed

theorem shared_device_replay_refused_witness:
  "apply_job_event sample_codec 30 ''o'' ''n'' ''s'' sample_failed sample_shared_hub1 = (sample_shared_hub1, Err (HubNotFound ''job''))"
proof -
  have p: "plan_job_event (sample_hub_job ''c'') sample_failed = PlanApply True"
    "is_terminal (event_next_state (ev_kind sample_failed))"
    by code_simp+
  obtain db1 where "store_apply_job_event (event_insert_of (sample_hub_job ''c'') sample_failed 20)
       (event_update_of (sample_hub_job ''c'') sample_failed ''s'') sample_shared_store1 = (db1, Ok True)"
    using sample_stored(2) by (metis prod.collapse)
  from shared_device_replay_refused[OF sample_shared_ok sample_resident(1-4) _ p(2,1) sample_resident(6) this sample_shared_apply]
  show ?thesis by (simp add: sample_resident)
qed

end
