(* ===== verification/Hub_Sessions_Inv.thy ===== *)
theory Hub_Sessions_Inv
  imports Hub_Sessions
begin

text \<open>
  The invariant of the session registry, and that every operation keeps it.
  \<open>session_edit\<close> is the contract of an update of one session in place; every
  reservation operation and the heartbeat are instances. The saturating \<open>u32\<close> load is
  exact wherever it decides an admission.
\<close>

subsection \<open>The load in natural numbers\<close>

definition nat_load :: "WorkerSession \<Rightarrow> nat" where
  "nat_load s =
     unat (wv_active_jobs (ws_view s)) + unat (wv_queued_jobs (ws_view s)) +
     length (ws_pending_capacity_reservations s) + length (ws_confirmed_capacity_reservations s)"

definition nat_capacity :: "WorkerSession \<Rightarrow> nat" where
  "nat_capacity s =
     unat (cap_parallelism (wv_capabilities (ws_view s))) +
     unat (cap_queue_depth (wv_capabilities (ws_view s)))"

definition within_capacity :: "WorkerSession \<Rightarrow> bool" where
  "within_capacity s \<longleftrightarrow> nat_load s \<le> nat_capacity s"

lemma unat_u16_bound: "unat (w :: u16) < 65536"
  using unat_bound[of w] by simp

lemma unat_ucast_u16 [simp]: "unat (ucast (w :: u16) :: u32) = unat w"
  using unat_u16_bound[of w] by (simp add: unsigned_ucast_eq take_bit_eq_mod)

lemma unat_capacity_reservation_count:
  "unat (capacity_reservation_count s) =
     min (length (ws_pending_capacity_reservations s) + length (ws_confirmed_capacity_reservations s))
         (2 ^ 32 - 1)"
  by (auto simp: capacity_reservation_count_def Let_def unsigned_of_nat take_bit_eq_mod min_def unsigned_minus_1_eq_mask
      mask_eq_exp_minus_1 simp del: of_nat_add)

lemma unat_worker_capacity_load: "unat (worker_capacity_load s) = min (nat_load s) (2 ^ 32 - 1)"
proof -
  have "unat (worker_capacity_load s) =
      min (min (unat (wv_active_jobs (ws_view s)) + unat (wv_queued_jobs (ws_view s))) (2 ^ 32 - 1) +
           min (length (ws_pending_capacity_reservations s) + length (ws_confirmed_capacity_reservations s))
               (2 ^ 32 - 1)) (2 ^ 32 - 1)"
    by (simp add: worker_capacity_load_def unat_saturating_add unat_capacity_reservation_count)
  then show ?thesis by (auto simp: nat_load_def min_def)
qed

lemma has_free_slot_iff: "has_free_slot s \<longleftrightarrow> nat_load s < nat_capacity s"
proof -
  have cap: "unat (total_capacity (wv_capabilities (ws_view s))) = nat_capacity s"
    by (simp add: unat_total_capacity nat_capacity_def)
  have "nat_capacity s < 2 ^ 32 - 1"
    using unat_u16_bound[of "cap_parallelism (wv_capabilities (ws_view s))"]
      unat_u16_bound[of "cap_queue_depth (wv_capabilities (ws_view s))"]
    by (simp add: nat_capacity_def)
  then show ?thesis
    unfolding has_free_slot_def word_less_nat_alt cap unat_worker_capacity_load by auto
qed

subsection \<open>The invariant\<close>

definition session_ok :: "WorkerSession \<Rightarrow> bool" where
  "session_ok s \<longleftrightarrow>
     hs_wf (ws_pending_capacity_reservations s) \<and> hs_wf (ws_confirmed_capacity_reservations s)"

definition own_key :: "WorkerSession \<Rightarrow> string" where
  "own_key s = session_key (wv_organization_id (ws_view s)) (wv_worker_id (ws_view s))"

definition not_revoked :: "SessionRegistry \<Rightarrow> WorkerSession \<Rightarrow> bool" where
  "not_revoked R s \<longleftrightarrow> (\<forall>c. ws_credential_id s = Some c \<longrightarrow> c \<notin> set (sr_revoked_credentials R))"

definition registry_inv :: "SessionRegistry \<Rightarrow> bool" where
  "registry_inv R \<longleftrightarrow>
     hm_wf (sr_inner R) \<and> hm_wf (sr_conns R) \<and> hs_wf (sr_revoked_credentials R) \<and>
     (\<forall>k s. hm_get (sr_inner R) k = Some s \<longrightarrow> own_key s = k \<and> session_ok s \<and> not_revoked R s)"

lemma registry_invD:
  assumes "registry_inv R"
  shows "hm_wf (sr_inner R)" "hm_wf (sr_conns R)" "hs_wf (sr_revoked_credentials R)"
    "hm_get (sr_inner R) k = Some s \<Longrightarrow> own_key s = k"
    "hm_get (sr_inner R) k = Some s \<Longrightarrow> session_ok s"
    "hm_get (sr_inner R) k = Some s \<Longrightarrow> not_revoked R s"
  using assms by (auto simp: registry_inv_def)

lemma on_conn_inner [simp]:
  "sr_inner (on_conn h f R) = sr_inner R"
  "sr_revoked_credentials (on_conn h f R) = sr_revoked_credentials R"
  by (simp_all add: on_conn_def split: option.splits)

lemma not_revoked_on_conn [simp]: "not_revoked (on_conn h f R) s \<longleftrightarrow> not_revoked R s"
  by (simp add: not_revoked_def)

lemma on_conn_inv [inv_intros]: "registry_inv R \<Longrightarrow> registry_inv (on_conn h f R)"
  by (auto simp: registry_inv_def) (simp add: on_conn_def split: option.splits)

text \<open>Removing sessions and shrinking the revoked set keep the invariant.\<close>

lemma shrink_inv:
  assumes "registry_inv R" "hm_wf m" "\<And>k s. hm_get m k = Some s \<Longrightarrow> hm_get (sr_inner R) k = Some s"
    "hs_wf rc" "set rc \<subseteq> set (sr_revoked_credentials R)"
  shows "registry_inv (R\<lparr>sr_inner := m, sr_revoked_credentials := rc\<rparr>)"
  using assms by (force simp: registry_inv_def not_revoked_def)

subsection \<open>Updates of one session\<close>

locale session_edit =
  fixes f :: "WorkerSession \<Rightarrow> WorkerSession"
  assumes keeps_key: "own_key (f s) = own_key s"
    and keeps_session_id: "wv_session_id (ws_view (f s)) = wv_session_id (ws_view s)"
    and keeps_credential: "ws_credential_id (f s) = ws_credential_id s"
    and keeps_ok: "session_ok s \<Longrightarrow> session_ok (f s)"
begin

lemma put_inv:
  assumes "registry_inv R" "hm_get (sr_inner R) k = Some s"
  shows "registry_inv (R\<lparr>sr_inner := hm_insert k (f s) (sr_inner R)\<rparr>)"
  using assms
  by (auto simp: registry_inv_def not_revoked_def keeps_key keeps_credential keeps_ok)

lemma sr_put_inv:
  "registry_inv R \<Longrightarrow> sr_get R org wid = Some s \<Longrightarrow> registry_inv (sr_put org wid (f s) R)"
  unfolding sr_put_def sr_get_def by (rule put_inv)

lemma put_current:
  assumes "registry_inv R" "sr_get R org wid = Some s"
  shows "sr_current (sr_put org wid (f s) R) org wid sid =
    map_option f (sr_current R org wid sid)"
  using assms registry_invD(1)[OF assms(1)]
  by (auto simp: sr_current_def sr_get_def sr_put_def keeps_session_id)

end

definition release_on :: "string \<Rightarrow> WorkerSession \<Rightarrow> WorkerSession" where
  "release_on c s =
     s\<lparr>ws_pending_capacity_reservations := hs_remove c (ws_pending_capacity_reservations s),
       ws_confirmed_capacity_reservations := hs_remove c (ws_confirmed_capacity_reservations s)\<rparr>"

definition settle_on :: "string \<Rightarrow> bool \<Rightarrow> WorkerSession \<Rightarrow> WorkerSession" where
  "settle_on c accepted s =
     (if c \<in> set (ws_pending_capacity_reservations s) \<and> accepted then confirm_on c s
      else if \<not> accepted then release_on c s
      else s\<lparr>ws_pending_capacity_reservations := hs_remove c (ws_pending_capacity_reservations s)\<rparr>)"

definition beat_on :: "nat \<Rightarrow> u16 \<Rightarrow> u16 \<Rightarrow> WorkerSession \<Rightarrow> WorkerSession" where
  "beat_on now active queued s =
     s\<lparr>ws_view := (ws_view s)\<lparr>wv_active_jobs := active, wv_queued_jobs := queued\<rparr>,
       ws_confirmed_capacity_reservations := [], ws_last_seen := now\<rparr>"

lemmas edit_defs = own_key_def session_ok_def reserve_on_def confirm_on_def release_on_def settle_on_def beat_on_def

interpretation reserve: session_edit "reserve_on c" for c
  by unfold_locales (simp_all add: edit_defs)

interpretation confirm: session_edit "confirm_on c" for c
  by unfold_locales (simp_all add: edit_defs)

interpretation release: session_edit "release_on c" for c
  by unfold_locales (simp_all add: edit_defs)

interpretation settle: session_edit "settle_on c accepted" for c accepted
  by unfold_locales (simp_all add: edit_defs)

interpretation beat: session_edit "beat_on now active queued" for now active queued
  by unfold_locales (simp_all add: edit_defs)

lemma sr_current_Some:
  "sr_current R org wid sid = Some s \<longleftrightarrow> sr_get R org wid = Some s \<and> wv_session_id (ws_view s) = sid"
  by (auto simp: sr_current_def split: option.splits if_splits)

lemma settle_eq:
  "settle_capacity_reservation org wid sid c accepted R =
     (case sr_current R org wid sid of None \<Rightarrow> R | Some s \<Rightarrow> sr_put org wid (settle_on c accepted s) R)"
  by (auto simp: settle_capacity_reservation_def settle_on_def confirm_on_def release_on_def Let_def
      split: option.splits)

lemma release_eq:
  "release_capacity_reservation org wid sid c R =
     (case sr_current R org wid sid of None \<Rightarrow> R | Some s \<Rightarrow> sr_put org wid (release_on c s) R)"
  by (simp add: release_capacity_reservation_def release_on_def split: option.splits)

lemma heartbeat_eq:
  "update_heartbeat now org wid sid active queued R =
     (case sr_current R org wid sid of
        None \<Rightarrow> (R, Err (Conflict ''worker session is stale''))
      | Some s \<Rightarrow> (sr_put org wid (beat_on now active queued s) R, Ok ()))"
  by (simp add: update_heartbeat_def beat_on_def split: option.splits)

subsection \<open>Every operation keeps the invariant\<close>

lemma min_by_key_mem: "min_by_key f xs = Some x \<Longrightarrow> x \<in> set xs"
  by (induction xs arbitrary: x) (auto split: option.splits if_splits)

lemma min_by_key_le: "min_by_key f xs = Some x \<Longrightarrow> y \<in> set xs \<Longrightarrow> f x \<le> f y"
proof (induction xs arbitrary: x)
  case (Cons a xs)
  then show ?case
  proof (cases "min_by_key f xs")
    case None
    then have "xs = []" by (cases xs) (auto split: option.splits if_splits)
    with Cons show ?thesis by simp
  next
    case (Some b)
    with Cons.IH[of b] Cons.prems show ?thesis by (fastforce split: if_splits)
  qed
qed simp

lemma min_by_key_None [simp]: "min_by_key f xs = None \<longleftrightarrow> xs = []"
  by (cases xs) (auto split: option.splits)

definition candidates :: "(WorkerView \<Rightarrow> bool) \<Rightarrow> SessionRegistry \<Rightarrow> (string \<times> WorkerSession) list" where
  "candidates p R = filter (\<lambda>(k, s). has_free_slot s) (filter (\<lambda>(k, s). p (ws_view s)) (sr_inner R))"

lemma candidates_mem:
  "registry_inv R \<Longrightarrow> (k, s) \<in> set (candidates p R) \<longleftrightarrow>
     hm_get (sr_inner R) k = Some s \<and> p (ws_view s) \<and> has_free_slot s"
  by (auto simp: candidates_def hm.in_entries[symmetric] registry_invD(1))

lemma reserve_capacity_eq:
  "reserve_capacity c p R =
     (case min_by_key (\<lambda>(k, s). worker_capacity_load s) (candidates p R) of
        None \<Rightarrow> (R, None)
      | Some (key, s) \<Rightarrow>
          if c \<in> set (ws_pending_capacity_reservations s) then (R, None)
          else (R\<lparr>sr_inner := hm_insert key (reserve_on c s) (sr_inner R)\<rparr>,
                Some (worker_view_with_reservations (reserve_on c s))))"
  by (simp only: reserve_capacity_def candidates_def Let_def)

lemma reserve_capacity_cases:
  assumes "registry_inv R"
  obtains "reserve_capacity c p R = (R, None)"
    "candidates p R = [] \<or> (\<exists>k s. hm_get (sr_inner R) k = Some s \<and> c \<in> set (ws_pending_capacity_reservations s))"
  | k s where "hm_get (sr_inner R) k = Some s" "p (ws_view s)" "has_free_slot s"
    "c \<notin> set (ws_pending_capacity_reservations s)"
    "\<And>k' s'. (k', s') \<in> set (candidates p R) \<Longrightarrow> worker_capacity_load s \<le> worker_capacity_load s'"
    "reserve_capacity c p R =
       (R\<lparr>sr_inner := hm_insert k (reserve_on c s) (sr_inner R)\<rparr>,
        Some (worker_view_with_reservations (reserve_on c s)))"
proof (cases "min_by_key (\<lambda>(k, s). worker_capacity_load s) (candidates p R)")
  case None
  then show ?thesis using that(1) by (simp add: reserve_capacity_eq)
next
  case (Some ks)
  then obtain k s where ks: "min_by_key (\<lambda>(k, s). worker_capacity_load s) (candidates p R) = Some (k, s)"
    by (cases ks) auto
  note mem = min_by_key_mem[OF ks, unfolded candidates_mem[OF assms]]
  have le: "worker_capacity_load s \<le> worker_capacity_load s'" if "(k', s') \<in> set (candidates p R)" for k' s'
    using min_by_key_le[OF ks that] by simp
  show ?thesis
  proof (cases "c \<in> set (ws_pending_capacity_reservations s)")
    case True
    then show ?thesis using that(1) mem ks by (auto simp: reserve_capacity_eq)
  next
    case False
    then show ?thesis using that(2)[of k s] mem le ks
      by (auto simp: reserve_capacity_eq)
  qed
qed

lemma reserve_capacity_inv [inv_intros]: "registry_inv R \<Longrightarrow> registry_inv (fst (reserve_capacity c p R))"
  by (frule reserve_capacity_cases[where c = c and p = p]) (auto intro: reserve.put_inv)

lemma reserve_capacity_on_inv [inv_intros]:
  "registry_inv R \<Longrightarrow> registry_inv (fst (reserve_capacity_on org wid c p R))"
  by (auto simp: reserve_capacity_on_def Let_def intro: reserve.sr_put_inv split: option.splits)

lemma ensure_capacity_reservation_inv [inv_intros]:
  "registry_inv R \<Longrightarrow> registry_inv (fst (ensure_capacity_reservation org wid sid c R))"
  by (auto simp: ensure_capacity_reservation_def sr_current_Some intro: reserve.sr_put_inv split: option.splits)

lemma release_inv [inv_intros]:
  "registry_inv R \<Longrightarrow> registry_inv (release_capacity_reservation org wid sid c R)"
  by (auto simp: release_eq sr_current_Some intro: release.sr_put_inv split: option.splits)

lemma uncertain_inv [inv_intros]:
  "registry_inv R \<Longrightarrow> registry_inv (mark_capacity_reservation_uncertain org wid sid c R)"
  by (auto simp: mark_capacity_reservation_uncertain_def sr_current_Some intro: confirm.sr_put_inv
      split: option.splits)

lemma settle_inv [inv_intros]:
  "registry_inv R \<Longrightarrow> registry_inv (settle_capacity_reservation org wid sid c accepted R)"
  by (auto simp: settle_eq sr_current_Some intro: settle.sr_put_inv split: option.splits)

lemma heartbeat_inv [inv_intros]:
  "registry_inv R \<Longrightarrow> registry_inv (fst (update_heartbeat now org wid sid active queued R))"
  by (auto simp: heartbeat_eq sr_current_Some intro: beat.sr_put_inv split: option.splits)

lemma insert_inner_inv:
  assumes "registry_inv R" "session_ok s" "not_revoked R s"
  shows "registry_inv (R\<lparr>sr_inner := hm_insert (own_key s) s (sr_inner R)\<rparr>)"
  using assms by (auto simp: registry_inv_def not_revoked_def)

lemma sr_insert_cases:
  "(\<exists>c. ws_credential_id s = Some c \<and> c \<in> set (sr_revoked_credentials R)) \<and> sr_insert s R = (R, False) \<or>
   not_revoked R s \<and>
     (let R' = R\<lparr>sr_inner := hm_insert (own_key s) s (sr_inner R)\<rparr> in
      sr_insert s R =
        (case hm_get (sr_inner R) (own_key s) of
           None \<Rightarrow> (R', True)
         | Some p \<Rightarrow> (cancel_with_error session_replaced (ws_conn p) R', True)))"
  by (auto simp: sr_insert_def not_revoked_def own_key_def Let_def split: option.splits)

lemma sr_insert_inv [inv_intros]:
  assumes "registry_inv R" "session_ok s"
  shows "registry_inv (fst (sr_insert s R))"
  using sr_insert_cases[of s R] insert_inner_inv[OF assms]
  by (auto simp: Let_def cancel_with_error_def assms(1) intro!: on_conn_inv split: option.splits)

lemma foldl_cancel [simp]:
  "sr_inner (foldl (\<lambda>R s. cancel_with_error e (ws_conn s) R) R xs) = sr_inner R"
  "sr_revoked_credentials (foldl (\<lambda>R s. cancel_with_error e (ws_conn s) R) R xs) = sr_revoked_credentials R"
  by (induction xs arbitrary: R) (simp_all add: cancel_with_error_def)

lemma foldl_cancel_inv:
  "registry_inv R \<Longrightarrow> registry_inv (foldl (\<lambda>R s. cancel_with_error e (ws_conn s) R) R xs)"
  by (induction xs arbitrary: R) (simp_all add: cancel_with_error_def on_conn_inv)

lemma disconnect_where_inner [simp]:
  "sr_inner (disconnect_where p e R) = hm_retain (\<lambda>k s. \<not> p s) (sr_inner R)"
  "sr_revoked_credentials (disconnect_where p e R) = sr_revoked_credentials R"
  by (simp_all add: disconnect_where_def Let_def)

lemma hm_get_retain_Some:
  "hm_wf m \<Longrightarrow> hm_get (hm_retain p m) k = Some v \<longleftrightarrow> hm_get m k = Some v \<and> p k v"
  by (auto simp: hm_get_retain split: option.splits)

lemma retain_inv:
  assumes "registry_inv R" "\<And>k s. hm_get (sr_inner R) k = Some s \<Longrightarrow> \<not> p s \<Longrightarrow> not_revoked R' s"
    "sr_inner R' = sr_inner R" "sr_conns R' = sr_conns R" "hs_wf (sr_revoked_credentials R')"
  shows "registry_inv (disconnect_where p e R')"
  unfolding disconnect_where_def Let_def
  by (rule foldl_cancel_inv)
    (use assms in \<open>auto simp: registry_inv_def hm_get_retain_Some not_revoked_def\<close>)

lemma disconnect_credential_inv [inv_intros]: "registry_inv R \<Longrightarrow> registry_inv (disconnect_credential c R)"
  unfolding disconnect_credential_def
  by (rule retain_inv, assumption)
    (use registry_invD(3,6)[of R] in \<open>auto simp: not_revoked_def\<close>)

lemma disconnect_organization_inv [inv_intros]: "registry_inv R \<Longrightarrow> registry_inv (disconnect_organization org R)"
  unfolding disconnect_organization_def
  by (rule retain_inv, assumption) (use registry_invD(3,6)[of R] in auto)

lemma reap_revoked_inv [inv_intros]: "registry_inv R \<Longrightarrow> registry_inv (fst (reap_revoked_credentials R))"
  by (auto simp: reap_revoked_credentials_def Let_def registry_inv_def not_revoked_def)

lemma remove_inv:
  assumes "registry_inv R"
  shows "registry_inv (R\<lparr>sr_inner := hm_remove k (sr_inner R)\<rparr>)"
proof -
  have "registry_inv (R\<lparr>sr_inner := hm_remove k (sr_inner R),
      sr_revoked_credentials := sr_revoked_credentials R\<rparr>)"
    by (rule shrink_inv[OF assms]) (use registry_invD(1,3)[OF assms] in \<open>auto split: if_splits\<close>)
  then show ?thesis by simp
qed

lemma remove_if_current_inv [inv_intros]: "registry_inv R \<Longrightarrow> registry_inv (remove_if_current org wid sid R)"
  by (auto simp: remove_if_current_def remove_inv split: option.splits)

definition reap_one :: "SessionRegistry \<times> string list \<Rightarrow> string \<times> string \<Rightarrow> SessionRegistry \<times> string list" where
  "reap_one = (\<lambda>(R, reaped) (key, worker_id).
     case hm_get (sr_inner R) key of
       None \<Rightarrow> (R, reaped)
     | Some s \<Rightarrow>
         (on_conn (ws_conn s) cancel_token (R\<lparr>sr_inner := hm_remove key (sr_inner R)\<rparr>), reaped @ [worker_id]))"

lemma reap_one_inv: "registry_inv (fst a) \<Longrightarrow> registry_inv (fst (reap_one a b))"
  by (auto simp: reap_one_def on_conn_inv remove_inv split: option.splits prod.splits)

lemma foldl_reap_inv: "registry_inv (fst a) \<Longrightarrow> registry_inv (fst (foldl reap_one a xs))"
  by (induction xs arbitrary: a) (simp_all add: reap_one_inv)

lemma reap_stale_fold:
  "reap_stale now max_silence R =
     foldl reap_one (R, []) (map (\<lambda>(k, s). (k, wv_worker_id (ws_view s)))
       (filter (\<lambda>(k, s). is_stale now max_silence s) (sr_inner R)))"
  by (simp add: reap_stale_def reap_one_def)

lemma reap_stale_inv [inv_intros]: "registry_inv R \<Longrightarrow> registry_inv (fst (reap_stale now max_silence R))"
  by (simp add: reap_stale_fold foldl_reap_inv)

lemma send_command_inv [inv_intros]:
  "registry_inv R \<Longrightarrow> registry_inv (fst (send_command_start org wid sid c R))"
  "registry_inv R \<Longrightarrow> registry_inv (fst (send_command_send org wid sid c h m sent R))"
  "registry_inv R \<Longrightarrow> registry_inv (fst (send_command_finish org wid sid c h outcome R))"
  by (auto simp: send_command_start_def send_command_send_def send_command_finish_def
      intro: inv_intros split: option.splits AckOutcome.splits)

end
