(* ===== verification/Hub_Sessions_Props.thy ===== *)
theory Hub_Sessions_Props
  imports Hub_Sessions_Inv
begin

text \<open>
  What the session registry guarantees over its lifetime. \<open>registry_step\<close> collects all
  the atomic steps, in any interleaving, including what the connection task does to its
  own channel; heartbeats, which carry numbers the worker chooses, are switched by its
  first argument.
\<close>

subsection \<open>Steps of the registry\<close>

text \<open>A session as \<open>serve_worker\<close> creates it.\<close>

definition fresh_session :: "WorkerSession \<Rightarrow> bool" where
  "fresh_session s \<longleftrightarrow>
     ws_pending_capacity_reservations s = [] \<and> ws_confirmed_capacity_reservations s = [] \<and>
     wv_active_jobs (ws_view s) = 0 \<and> wv_queued_jobs (ws_view s) = 0"

inductive registry_step :: "bool \<Rightarrow> SessionRegistry \<Rightarrow> SessionRegistry \<Rightarrow> bool" for beats where
  connect: "fresh_session s \<Longrightarrow> registry_step beats R (fst (sr_insert s R))"
| new_connection: "registry_step beats R (R\<lparr>sr_conns := hm_insert h c (sr_conns R)\<rparr>)"
| connection_task: "registry_step beats R (on_conn h f R)"
| revoke: "registry_step beats R (disconnect_credential c R)"
| delete_organization: "registry_step beats R (disconnect_organization org R)"
| reap_revoked: "registry_step beats R (fst (reap_revoked_credentials R))"
| reap_silent: "registry_step beats R (fst (reap_stale now max_silence R))"
| teardown: "registry_step beats R (remove_if_current org wid sid R)"
| heartbeat: "beats \<Longrightarrow> registry_step beats R (fst (update_heartbeat now org wid sid active queued R))"
| reserve_any: "registry_step beats R (fst (reserve_capacity cid p R))"
| reserve_target: "registry_step beats R (fst (reserve_capacity_on org wid cid p R))"
| ensure: "registry_step beats R (fst (ensure_capacity_reservation org wid sid cid R))"
| release: "registry_step beats R (release_capacity_reservation org wid sid cid R)"
| uncertain: "registry_step beats R (mark_capacity_reservation_uncertain org wid sid cid R)"
| settle: "registry_step beats R (settle_capacity_reservation org wid sid cid accepted R)"
| command_start: "registry_step beats R (fst (send_command_start org wid sid cid R))"
| command_send: "registry_step beats R (fst (send_command_send org wid sid cid h m sent R))"
| command_finish: "registry_step beats R (fst (send_command_finish org wid sid cid h outcome R))"

inductive registry_reaches :: "bool \<Rightarrow> SessionRegistry \<Rightarrow> SessionRegistry \<Rightarrow> bool" for beats where
  reaches_start: "registry_reaches beats R R"
| reaches_next: "registry_reaches beats R R' \<Longrightarrow> registry_step beats R' R'' \<Longrightarrow> registry_reaches beats R R''"

definition empty_registry :: SessionRegistry where
  "empty_registry = \<lparr>sr_inner = [], sr_revoked_credentials = [], sr_conns = []\<rparr>"

lemma empty_registry_inv [simp]: "registry_inv empty_registry"
  by (simp add: registry_inv_def empty_registry_def)

lemma new_connection_inv [inv_intros]:
  "registry_inv R \<Longrightarrow> registry_inv (R\<lparr>sr_conns := hm_insert h c (sr_conns R)\<rparr>)"
  by (simp add: registry_inv_def not_revoked_def)

lemma fresh_session_ok: "fresh_session s \<Longrightarrow> session_ok s"
  by (simp add: fresh_session_def session_ok_def)

lemma registry_step_inv: "registry_step b R R' \<Longrightarrow> registry_inv R \<Longrightarrow> registry_inv R'"
  by (induction rule: registry_step.induct) (auto intro: inv_intros fresh_session_ok)

lemma registry_reaches_inv: "registry_reaches b R R' \<Longrightarrow> registry_inv R \<Longrightarrow> registry_inv R'"
  by (induction rule: registry_reaches.induct) (auto dest: registry_step_inv)

text \<open>
  In every reachable registry, whatever the interleaving, each session is stored
  under the key of its own organization and worker, its reservations are distinct
  command ids, and no session runs under a credential of the revoked set: a revocation
  and a concurrent registration cannot leave a revoked credential connected.
\<close>

theorem registry_reachable_inv:
  assumes "registry_reaches True empty_registry R"
    and "hm_get (sr_inner R) k = Some s"
  shows "k = session_key (wv_organization_id (ws_view s)) (wv_worker_id (ws_view s)) \<and>
    distinct (ws_pending_capacity_reservations s) \<and> distinct (ws_confirmed_capacity_reservations s) \<and>
    (\<forall>c. ws_credential_id s = Some c \<longrightarrow> c \<notin> set (sr_revoked_credentials R))"
proof -
  have inv: "registry_inv R" using registry_reaches_inv[OF assms(1)] by simp
  show ?thesis
    using registry_invD(4-6)[OF inv assms(2)]
    by (auto simp: own_key_def session_ok_def hs_wf_def not_revoked_def)
qed

definition sample_session :: "string \<Rightarrow> handle \<Rightarrow> WorkerSession" where
  "sample_session sid h =
     \<lparr>ws_view =
        \<lparr>wv_organization_id = ''org'', wv_owner_user_id = None, wv_worker_id = ''lab/gpu'',
         wv_session_id = sid, wv_namespace = ''lab'', wv_node_name = ''gpu'',
         wv_capabilities = reg_capabilities sample_register, wv_active_jobs = 0, wv_queued_jobs = 0,
         wv_connected_at = 0\<rparr>,
      ws_credential_id = Some ''cred'', ws_conn = h, ws_pending_capacity_reservations = [],
      ws_confirmed_capacity_reservations = [], ws_last_seen = 0\<rparr>"

definition sample_connection :: Connection where
  "sample_connection = \<lparr>cn_outbound = [], cn_capacity = 256, cn_closed = False, cn_pending = [], cn_cancelled = False\<rparr>"

definition sample_registry :: SessionRegistry where
  "sample_registry =
     \<lparr>sr_inner = [(session_key ''org'' ''lab/gpu'', sample_session ''s1'' 1)], sr_revoked_credentials = [],
      sr_conns = [(1, sample_connection)]\<rparr>"

lemma sample_registry_get:
  "hm_get (sr_inner sample_registry) (session_key ''org'' ''lab/gpu'') = Some (sample_session ''s1'' 1)"
  by (simp add: sample_registry_def hm_get_def)

lemma sample_registry_reached: "registry_reaches True empty_registry sample_registry"
proof -
  have fresh: "fresh_session (sample_session ''s1'' 1)" by (simp add: fresh_session_def sample_session_def)
  let ?R = "empty_registry\<lparr>sr_conns := hm_insert 1 sample_connection (sr_conns empty_registry)\<rparr>"
  have "registry_reaches True empty_registry (fst (sr_insert (sample_session ''s1'' 1) ?R))"
    by (intro reaches_next[OF reaches_next[OF reaches_start new_connection] connect] fresh)
  moreover have "fst (sr_insert (sample_session ''s1'' 1) ?R) = sample_registry"
    by (simp add: sr_insert_def sample_registry_def sample_session_def empty_registry_def hm_insert_def hm_get_def)
  ultimately show ?thesis by simp
qed

lemma sample_registry_inv: "registry_inv sample_registry"
  by (rule registry_reaches_inv[OF sample_registry_reached]) simp

theorem registry_reachable_inv_witness:
  "distinct (ws_pending_capacity_reservations (sample_session ''s1'' 1)) \<and>
   ''cred'' \<notin> set (sr_revoked_credentials sample_registry)"
  using registry_reachable_inv[OF sample_registry_reached sample_registry_get]
  by (simp add: sample_session_def)

subsection \<open>Admission\<close>

lemma nat_load_reserve:
  "c \<notin> set (ws_pending_capacity_reservations s) \<Longrightarrow> nat_load (reserve_on c s) = Suc (nat_load s)"
  by (simp add: nat_load_def reserve_on_def length_hs_insert)

lemma nat_capacity_edit [simp]:
  "nat_capacity (reserve_on c s) = nat_capacity s" "nat_capacity (confirm_on c s) = nat_capacity s"
  "nat_capacity (release_on c s) = nat_capacity s" "nat_capacity (settle_on c a s) = nat_capacity s"
  by (simp_all add: nat_capacity_def edit_defs)

lemma nat_load_confirm:
  assumes "session_ok s" "c \<in> set (ws_pending_capacity_reservations s)"
  shows "nat_load (confirm_on c s) \<le> nat_load s"
proof -
  have "length (ws_pending_capacity_reservations s) > 0" using assms(2) by auto
  with assms show ?thesis
    by (simp add: nat_load_def confirm_on_def length_hs_insert length_hs_remove session_ok_def)
qed

lemma length_hs_remove_le: "length (hs_remove x s) \<le> length s"
  by (simp add: hs_remove_def)

lemma nat_load_release: "nat_load (release_on c s) \<le> nat_load s"
  using length_hs_remove_le[of c "ws_pending_capacity_reservations s"]
    length_hs_remove_le[of c "ws_confirmed_capacity_reservations s"]
  by (simp add: nat_load_def release_on_def)

lemma nat_load_settle: "session_ok s \<Longrightarrow> nat_load (settle_on c a s) \<le> nat_load s"
  using nat_load_release[of c s] nat_load_confirm[of s c]
    length_hs_remove_le[of c "ws_pending_capacity_reservations s"]
  by (auto simp: settle_on_def nat_load_def)

definition all_within :: "SessionRegistry \<Rightarrow> bool" where
  "all_within R \<longleftrightarrow> (\<forall>k s. hm_get (sr_inner R) k = Some s \<longrightarrow> within_capacity s)"

lemma all_withinD: "all_within R \<Longrightarrow> hm_get (sr_inner R) k = Some s \<Longrightarrow> nat_load s \<le> nat_capacity s"
  by (auto simp: all_within_def within_capacity_def)

lemma all_within_put:
  "registry_inv R \<Longrightarrow> all_within R \<Longrightarrow> within_capacity s \<Longrightarrow>
     all_within (R\<lparr>sr_inner := hm_insert k s (sr_inner R)\<rparr>)"
  by (simp add: all_within_def registry_invD(1))

lemma all_within_sr_put:
  "registry_inv R \<Longrightarrow> all_within R \<Longrightarrow> within_capacity s \<Longrightarrow> all_within (sr_put org wid s R)"
  unfolding sr_put_def by (rule all_within_put)

lemma all_within_inner: "sr_inner R' = sr_inner R \<Longrightarrow> all_within R' \<longleftrightarrow> all_within R"
  by (simp add: all_within_def)

lemma all_within_sub:
  "all_within R \<Longrightarrow> (\<And>k s. hm_get (sr_inner R') k = Some s \<Longrightarrow> hm_get (sr_inner R) k = Some s) \<Longrightarrow> all_within R'"
  by (auto simp: all_within_def)

lemma within_reserve:
  "has_free_slot s \<Longrightarrow> c \<notin> set (ws_pending_capacity_reservations s) \<Longrightarrow> within_capacity (reserve_on c s)"
  by (simp add: within_capacity_def nat_load_reserve has_free_slot_iff)

named_theorems within_intros

lemma on_conn_within [within_intros]: "all_within R \<Longrightarrow> all_within (on_conn h f R)"
  using all_within_inner[of "on_conn h f R" R] by simp

lemma reserve_capacity_within [within_intros]:
  "registry_inv R \<Longrightarrow> all_within R \<Longrightarrow> all_within (fst (reserve_capacity c p R))"
  by (frule reserve_capacity_cases[where c = c and p = p]) (auto intro: all_within_put within_reserve)

lemma reserve_capacity_on_within [within_intros]:
  "registry_inv R \<Longrightarrow> all_within R \<Longrightarrow> all_within (fst (reserve_capacity_on org wid c p R))"
  by (auto simp: reserve_capacity_on_def Let_def intro: all_within_sr_put within_reserve split: option.splits)

lemma ensure_within [within_intros]:
  "registry_inv R \<Longrightarrow> all_within R \<Longrightarrow> all_within (fst (ensure_capacity_reservation org wid sid c R))"
  by (auto simp: ensure_capacity_reservation_def intro: all_within_sr_put within_reserve split: option.splits)

lemma edit_within:
  assumes "registry_inv R" "all_within R" "sr_current R org wid sid = Some s"
    "nat_load (f s) \<le> nat_load s" "nat_capacity (f s) = nat_capacity s"
  shows "all_within (sr_put org wid (f s) R)"
  using assms all_withinD[OF assms(2), of "session_key org wid" s]
  by (intro all_within_sr_put) (auto simp: within_capacity_def sr_current_Some sr_get_def)

lemma current_ok: "registry_inv R \<Longrightarrow> sr_current R org wid sid = Some s \<Longrightarrow> session_ok s"
  by (auto simp: sr_current_Some sr_get_def dest: registry_invD(5))

lemma release_within [within_intros]:
  "registry_inv R \<Longrightarrow> all_within R \<Longrightarrow> all_within (release_capacity_reservation org wid sid c R)"
  by (auto simp: release_eq intro: edit_within[where f = "release_on c"] nat_load_release split: option.splits)

lemma uncertain_within [within_intros]:
  "registry_inv R \<Longrightarrow> all_within R \<Longrightarrow> all_within (mark_capacity_reservation_uncertain org wid sid c R)"
  by (auto simp: mark_capacity_reservation_uncertain_def
      intro!: edit_within[where f = "confirm_on c"] nat_load_confirm split: option.splits dest: current_ok)

lemma settle_within [within_intros]:
  "registry_inv R \<Longrightarrow> all_within R \<Longrightarrow> all_within (settle_capacity_reservation org wid sid c a R)"
  by (auto simp: settle_eq intro!: edit_within[where f = "settle_on c a"] nat_load_settle
      split: option.splits dest: current_ok)

lemma send_command_within [within_intros]:
  "registry_inv R \<Longrightarrow> all_within R \<Longrightarrow> all_within (fst (send_command_start org wid sid c R))"
  "registry_inv R \<Longrightarrow> all_within R \<Longrightarrow> all_within (fst (send_command_send org wid sid c h m sent R))"
  "registry_inv R \<Longrightarrow> all_within R \<Longrightarrow> all_within (fst (send_command_finish org wid sid c h outcome R))"
  by (auto simp: send_command_start_def send_command_send_def send_command_finish_def
      intro: within_intros inv_intros split: option.splits AckOutcome.splits)

lemma fresh_within: "fresh_session s \<Longrightarrow> within_capacity s"
  by (simp add: fresh_session_def within_capacity_def nat_load_def)

lemma sr_insert_within [within_intros]:
  assumes "registry_inv R" "all_within R" "fresh_session s"
  shows "all_within (fst (sr_insert s R))"
  using sr_insert_cases[of s R] all_within_put[OF assms(1,2) fresh_within[OF assms(3)]]
  by (auto simp: Let_def cancel_with_error_def assms(2) intro!: on_conn_within split: option.splits)

lemma disconnect_within [within_intros]:
  "registry_inv R \<Longrightarrow> all_within R \<Longrightarrow> all_within (disconnect_credential c R)"
  "registry_inv R \<Longrightarrow> all_within R \<Longrightarrow> all_within (disconnect_organization org R)"
  by (auto simp: all_within_def disconnect_credential_def disconnect_organization_def hm_get_retain_Some
      registry_invD(1))

lemma remove_within [within_intros]:
  "registry_inv R \<Longrightarrow> all_within R \<Longrightarrow> all_within (remove_if_current org wid sid R)"
  by (auto simp: all_within_def remove_if_current_def registry_invD(1) split: option.splits if_splits)

lemma reap_revoked_within [within_intros]: "all_within R \<Longrightarrow> all_within (fst (reap_revoked_credentials R))"
  by (auto simp: reap_revoked_credentials_def Let_def all_within_def)

lemma foldl_reap_one:
  assumes "hm_wf (sr_inner R)" "distinct (map fst xs)" "\<And>k. k \<in> fst ` set xs \<Longrightarrow> hm_get (sr_inner R) k \<noteq> None"
  shows "hm_get (sr_inner (fst (foldl reap_one (R, acc) xs))) k =
      (if k \<in> fst ` set xs then None else hm_get (sr_inner R) k) \<and>
    snd (foldl reap_one (R, acc) xs) = acc @ map snd xs"
  using assms
proof (induction xs arbitrary: R acc)
  case (Cons x xs)
  obtain key wid where x: "x = (key, wid)" by (cases x)
  from Cons.prems(3)[of key] x obtain s where s: "hm_get (sr_inner R) key = Some s" by auto
  let ?R = "on_conn (ws_conn s) cancel_token (R\<lparr>sr_inner := hm_remove key (sr_inner R)\<rparr>)"
  have one: "reap_one (R, acc) x = (?R, acc @ [wid])" using s x by (simp add: reap_one_def)
  have get: "hm_get (sr_inner ?R) = (hm_get (sr_inner R))(key := None)" using Cons.prems(1) by simp
  have "hm_get (sr_inner ?R) k' \<noteq> None" if "k' \<in> fst ` set xs" for k'
    using that Cons.prems(2) Cons.prems(3)[of k'] x get by (auto simp: image_iff)
  with Cons.IH[of ?R "acc @ [wid]"] Cons.prems(1,2) x one get show ?case by auto
qed simp

lemma reap_stale_exact:
  assumes "registry_inv R"
  shows "hm_get (sr_inner (fst (reap_stale now max_silence R))) k =
      (case hm_get (sr_inner R) k of
         None \<Rightarrow> None | Some s \<Rightarrow> if is_stale now max_silence s then None else Some s)"
    and "snd (reap_stale now max_silence R) =
      map (\<lambda>s. wv_worker_id (ws_view s)) (filter (is_stale now max_silence) (hm_values (sr_inner R)))"
proof -
  let ?xs = "map (\<lambda>(k, s). (k, wv_worker_id (ws_view s)))
    (filter (\<lambda>(k, s). is_stale now max_silence s) (sr_inner R))"
  note wf = registry_invD(1)[OF assms]
  have fst_xs: "map fst ?xs = map fst (filter (\<lambda>(k, s). is_stale now max_silence s) (sr_inner R))"
    by (induction "sr_inner R") auto
  have d: "distinct (map fst ?xs)"
    unfolding fst_xs using wf by (auto simp: hm_wf_def intro: distinct_map_filter)
  have mem: "k \<in> fst ` set ?xs \<longleftrightarrow> (\<exists>s. hm_get (sr_inner R) k = Some s \<and> is_stale now max_silence s)" for k
    using hm.in_entries[OF wf] by (force simp: image_iff)
  have fold: "hm_get (sr_inner (fst (reap_stale now max_silence R))) k =
      (if k \<in> fst ` set ?xs then None else hm_get (sr_inner R) k) \<and>
      snd (reap_stale now max_silence R) = [] @ map snd ?xs"
    unfolding reap_stale_fold by (rule foldl_reap_one[OF wf d]) (use mem in auto)
  then show "hm_get (sr_inner (fst (reap_stale now max_silence R))) k =
      (case hm_get (sr_inner R) k of
         None \<Rightarrow> None | Some s \<Rightarrow> if is_stale now max_silence s then None else Some s)"
    unfolding mem by (auto split: option.splits)
  have "map snd ?xs = map (\<lambda>s. wv_worker_id (ws_view s)) (filter (is_stale now max_silence) (hm_values (sr_inner R)))"
    unfolding hm_values_def by (induction "sr_inner R") (auto simp: filter_map o_def case_prod_beta)
  with fold show "snd (reap_stale now max_silence R) =
      map (\<lambda>s. wv_worker_id (ws_view s)) (filter (is_stale now max_silence) (hm_values (sr_inner R)))" by simp
qed

lemma reap_stale_within [within_intros]:
  "registry_inv R \<Longrightarrow> all_within R \<Longrightarrow> all_within (fst (reap_stale now max_silence R))"
  by (erule all_within_sub) (auto simp: reap_stale_exact(1) split: option.splits if_splits)

lemma registry_step_within:
  "registry_step False R R' \<Longrightarrow> registry_inv R \<Longrightarrow> all_within R \<Longrightarrow> all_within R'"
  by (induction rule: registry_step.induct)
    (auto intro: within_intros simp: all_within_inner[of "R\<lparr>sr_conns := c\<rparr>" R for R c])

lemma registry_reaches_within:
  "registry_reaches False R R' \<Longrightarrow> registry_inv R \<Longrightarrow> all_within R \<Longrightarrow> all_within R'"
  by (induction rule: registry_reaches.induct) (auto dest: registry_step_within registry_reaches_inv)

text \<open>
  C4: The Hub never over-admits. Between two heartbeats, whatever reservations,
  acknowledgements, timeouts, releases, reconnects, revocations and reaps happen and
  in whatever order, a session whose reported jobs plus reservations fit its
  parallelism plus queue depth still does afterwards; the saturating 32-bit load and
  16-bit fields never hide an overrun.
\<close>

theorem never_over_admits:
  assumes "registry_inv R" and "\<And>k s. hm_get (sr_inner R) k = Some s \<Longrightarrow> within_capacity s"
    and "registry_reaches False R R'" and "hm_get (sr_inner R') k = Some s"
  shows "unat (wv_active_jobs (ws_view s)) + unat (wv_queued_jobs (ws_view s)) +
      length (ws_pending_capacity_reservations s) + length (ws_confirmed_capacity_reservations s)
    \<le> unat (cap_parallelism (wv_capabilities (ws_view s))) +
       unat (cap_queue_depth (wv_capabilities (ws_view s)))"
proof -
  have "all_within R" using assms(2) by (auto simp: all_within_def)
  from registry_reaches_within[OF assms(3,1) this] assms(4) show ?thesis
    by (auto simp: all_within_def within_capacity_def nat_load_def nat_capacity_def)
qed

theorem never_over_admits_witness:
  "length (ws_pending_capacity_reservations (sample_session ''s1'' 1)) \<le>
     unat (cap_parallelism (reg_capabilities sample_register)) +
     unat (cap_queue_depth (reg_capabilities sample_register))"
proof -
  have "within_capacity s" if "hm_get (sr_inner sample_registry) k = Some s" for k s
    using that by (auto simp: sample_registry_def hm_get_def within_capacity_def nat_load_def sample_session_def
        split: if_splits)
  from never_over_admits[OF sample_registry_inv this reaches_start sample_registry_get]
  show ?thesis by (simp add: sample_session_def)
qed

text \<open>
  Scheduling picks a least-loaded device. When \<open>reserve_capacity\<close> answers, it has
  reserved the command on exactly one session that matches and has a free slot, no
  matching session with a free slot had a smaller load, and every other session is as
  before; when the command is not pending anywhere, it answers exactly when some
  matching session has a free slot.
\<close>

theorem reserve_capacity_least_loaded:
  assumes "registry_inv R"
    and "\<And>k s. hm_get (sr_inner R) k = Some s \<Longrightarrow> c \<notin> set (ws_pending_capacity_reservations s)"
  shows "(case reserve_capacity c p R of
      (R', None) \<Rightarrow> R' = R \<and> (\<nexists>k s. hm_get (sr_inner R) k = Some s \<and> p (ws_view s) \<and> has_free_slot s)
    | (R', Some v) \<Rightarrow>
        (\<exists>k s. hm_get (sr_inner R) k = Some s \<and> p (ws_view s) \<and> nat_load s < nat_capacity s \<and>
          hm_get (sr_inner R') = (hm_get (sr_inner R))(k \<mapsto> reserve_on c s) \<and>
          nat_load (reserve_on c s) = Suc (nat_load s) \<and>
          v = worker_view_with_reservations (reserve_on c s) \<and>
          (\<forall>k' s'. hm_get (sr_inner R) k' = Some s' \<and> p (ws_view s') \<and> has_free_slot s' \<longrightarrow>
             worker_capacity_load s \<le> worker_capacity_load s')))"
  using assms(1)
proof (rule reserve_capacity_cases[where c = c and p = p])
  assume r: "reserve_capacity c p R = (R, None)"
    and "candidates p R = [] \<or> (\<exists>k s. hm_get (sr_inner R) k = Some s \<and> c \<in> set (ws_pending_capacity_reservations s))"
  with assms(2) have "candidates p R = []" by blast
  then have "(k, s) \<notin> set (candidates p R)" for k s by simp
  with r show ?thesis by (auto simp: candidates_mem[OF assms(1)])
next
  fix k s
  assume s: "hm_get (sr_inner R) k = Some s" "p (ws_view s)" "has_free_slot s"
    and c: "c \<notin> set (ws_pending_capacity_reservations s)"
    and le: "\<And>k' s'. (k', s') \<in> set (candidates p R) \<Longrightarrow> worker_capacity_load s \<le> worker_capacity_load s'"
    and r: "reserve_capacity c p R =
      (R\<lparr>sr_inner := hm_insert k (reserve_on c s) (sr_inner R)\<rparr>,
       Some (worker_view_with_reservations (reserve_on c s)))"
  have "worker_capacity_load s \<le> worker_capacity_load s'"
    if "hm_get (sr_inner R) k' = Some s'" "p (ws_view s')" "has_free_slot s'" for k' s'
    using le[of k' s'] that by (simp add: candidates_mem[OF assms(1)])
  with s c show ?thesis unfolding r
    by (auto simp: registry_invD(1)[OF assms(1)] has_free_slot_iff nat_load_reserve intro!: exI[of _ k] exI[of _ s])
qed

lemma sample_has_slot: "has_free_slot (sample_session ''s1'' 1)"
  by (simp add: has_free_slot_iff nat_load_def nat_capacity_def sample_session_def sample_register_def)

theorem reserve_capacity_witness:
  "snd (reserve_capacity ''c1'' (\<lambda>v. True) sample_registry) \<noteq> None"
proof -
  have "''c1'' \<notin> set (ws_pending_capacity_reservations s)" if "hm_get (sr_inner sample_registry) k = Some s" for k s
    using that by (auto simp: sample_registry_def hm_get_def sample_session_def split: if_splits)
  note least = reserve_capacity_least_loaded[where R = sample_registry and c = "''c1''" and p = "\<lambda>v. True",
      OF sample_registry_inv this]
  show ?thesis
  proof
    assume none: "snd (reserve_capacity ''c1'' (\<lambda>v. True) sample_registry) = None"
    then obtain R' where "reserve_capacity ''c1'' (\<lambda>v. True) sample_registry = (R', None)"
      by (cases "reserve_capacity ''c1'' (\<lambda>v. True) sample_registry") auto
    with least sample_registry_get sample_has_slot show False by auto
  qed
qed

subsection \<open>Revocation and replacement\<close>

lemma on_conn_get:
  "hm_wf (sr_conns R) \<Longrightarrow> hm_get (sr_conns (on_conn h f R)) k =
     (if k = h then map_option f (hm_get (sr_conns R) h) else hm_get (sr_conns R) k)"
  by (auto simp: on_conn_def split: option.splits)

lemma on_conn_wf: "hm_wf (sr_conns R) \<Longrightarrow> hm_wf (sr_conns (on_conn h f R))"
  by (auto simp: on_conn_def split: option.splits)

definition conn_cancelled :: "SessionRegistry \<Rightarrow> handle \<Rightarrow> bool" where
  "conn_cancelled R h \<longleftrightarrow> (\<forall>c. hm_get (sr_conns R) h = Some c \<longrightarrow> cn_cancelled c)"

lemma try_send_cancelled [simp]: "cn_cancelled (try_send m c) = cn_cancelled c"
  by (simp add: try_send_def)

lemma cancel_with_error_cancels:
  assumes "hm_wf (sr_conns R)" "h = h' \<or> conn_cancelled R h"
  shows "conn_cancelled (cancel_with_error e h' R) h"
  using assms by (auto simp: conn_cancelled_def cancel_with_error_def on_conn_get cancel_token_def)

lemma foldl_cancel_cancels:
  "hm_wf (sr_conns R) \<Longrightarrow> conn_cancelled R h \<or> h \<in> ws_conn ` set xs \<Longrightarrow>
     conn_cancelled (foldl (\<lambda>R s. cancel_with_error e (ws_conn s) R) R xs) h"
proof (induction xs arbitrary: R)
  case (Cons x xs)
  have "hm_wf (sr_conns (cancel_with_error e (ws_conn x) R))"
    using Cons.prems(1) by (simp add: cancel_with_error_def on_conn_wf)
  with Cons cancel_with_error_cancels[OF Cons.prems(1), of h "ws_conn x" e] show ?case by auto
qed simp

lemma disconnect_where_cancels:
  assumes "registry_inv R" "hm_get (sr_inner R) k = Some s" "p s"
    "sr_inner R' = sr_inner R" "sr_conns R' = sr_conns R"
  shows "conn_cancelled (disconnect_where p e R') (ws_conn s)"
proof -
  have "s \<in> set (filter p (hm_values (sr_inner R')))"
    using assms hm_values_mem[OF registry_invD(1)[OF assms(1)]] by auto
  then show ?thesis
    unfolding disconnect_where_def Let_def
    by (intro foldl_cancel_cancels) (use assms registry_invD(2)[OF assms(1)] in auto)
qed

text \<open>
  Revoking a credential takes effect at once and lasts. Every session of the
  credential is gone from the registry and the token of its connection is cancelled,
  sessions of other credentials stay, and a later registration with the credential is
  refused, leaving the registry as it is.
\<close>

theorem disconnect_credential_effective:
  fixes R :: SessionRegistry and c :: string
  assumes "registry_inv R"
  defines "R' \<equiv> disconnect_credential c R"
  shows "hm_get (sr_inner R') k =
      (case hm_get (sr_inner R) k of
         None \<Rightarrow> None | Some s \<Rightarrow> if ws_credential_id s = Some c then None else Some s) \<and>
    (\<forall>s. hm_get (sr_inner R) k = Some s \<and> ws_credential_id s = Some c \<longrightarrow> conn_cancelled R' (ws_conn s)) \<and>
    (\<forall>s. ws_credential_id s = Some c \<longrightarrow> sr_insert s R' = (R', False))"
proof (intro conjI allI impI)
  show "hm_get (sr_inner R') k =
      (case hm_get (sr_inner R) k of
         None \<Rightarrow> None | Some s \<Rightarrow> if ws_credential_id s = Some c then None else Some s)"
    unfolding R'_def disconnect_credential_def
    using registry_invD(1)[OF assms(1)] by (auto simp: hm_get_retain split: option.splits)
  show "conn_cancelled R' (ws_conn s)"
    if "hm_get (sr_inner R) k = Some s \<and> ws_credential_id s = Some c" for s
    unfolding R'_def disconnect_credential_def
    by (rule disconnect_where_cancels[OF assms(1)]) (use that in auto)
  show "sr_insert s R' = (R', False)" if "ws_credential_id s = Some c" for s
    using that by (simp add: sr_insert_def R'_def disconnect_credential_def)
qed

theorem disconnect_credential_witness:
  "hm_get (sr_inner (disconnect_credential ''cred'' sample_registry)) (session_key ''org'' ''lab/gpu'') = None"
  using disconnect_credential_effective[OF sample_registry_inv, of "''cred''" "session_key ''org'' ''lab/gpu''"]
  by (simp add: sample_registry_get) (simp add: sample_session_def)

text \<open>
  The sweep of the revoked set forgets every revocation. In every reachable
  registry no live session holds a revoked credential, so \<open>reap_revoked_credentials\<close>
  keeps none: a connection that was authenticated before a revocation and registers
  after the next sweep is admitted.
\<close>

theorem reap_revoked_forgets_all:
  assumes "registry_reaches True empty_registry R"
  shows "sr_revoked_credentials (fst (reap_revoked_credentials R)) = [] \<and>
    snd (reap_revoked_credentials R) = length (sr_revoked_credentials R) \<and>
    snd (sr_insert s (fst (reap_revoked_credentials R)))"
proof -
  have inv: "registry_inv R" using registry_reaches_inv[OF assms] by simp
  have none: "c \<notin> set (List.map_filter ws_credential_id (hm_values (sr_inner R)))"
    if "c \<in> set (sr_revoked_credentials R)" for c
    using registry_invD(6)[OF inv] that hm_values_mem[OF registry_invD(1)[OF inv]]
    by (auto simp: List.map_filter_def not_revoked_def)
  then have "filter (\<lambda>c. c \<in> set (List.map_filter ws_credential_id (hm_values (sr_inner R))))
      (sr_revoked_credentials R) = []"
    by (auto simp: filter_empty_conv)
  then have "sr_revoked_credentials (fst (reap_revoked_credentials R)) = []"
    "snd (reap_revoked_credentials R) = length (sr_revoked_credentials R)"
    by (simp_all add: reap_revoked_credentials_def Let_def)
  then show ?thesis
    by (auto simp: sr_insert_def Let_def split: option.splits)
qed

theorem reap_revoked_witness:
  "sr_revoked_credentials (fst (reap_revoked_credentials (disconnect_credential ''cred'' sample_registry))) = []"
  using reap_revoked_forgets_all[OF reaches_next[OF sample_registry_reached revoke]] by blast

text \<open>
  C23: A replaced connection cannot hurt its successor. When a session registers over
  an older one of the same worker, the older connection's token is cancelled, and
  neither its teardown, its heartbeats nor the settling of its commands, all made
  under the old session id, change the registry.
\<close>

theorem replaced_session_harmless:
  fixes R :: SessionRegistry and s :: WorkerSession
  assumes "registry_inv R" and "snd (sr_insert s R)" and "sid \<noteq> wv_session_id (ws_view s)"
  defines "R' \<equiv> fst (sr_insert s R)" and "org \<equiv> wv_organization_id (ws_view s)" and "wid \<equiv> wv_worker_id (ws_view s)"
  shows "sr_get R' org wid = Some s \<and>
    (\<forall>old. sr_get R org wid = Some old \<longrightarrow> conn_cancelled R' (ws_conn old)) \<and>
    remove_if_current org wid sid R' = R' \<and>
    update_heartbeat now org wid sid a q R' = (R', Err (Conflict ''worker session is stale'')) \<and>
    settle_capacity_reservation org wid sid cid accepted R' = R' \<and>
    release_capacity_reservation org wid sid cid R' = R'"
proof -
  have wf: "hm_wf (sr_inner R)" "hm_wf (sr_conns R)" using registry_invD[OF assms(1)] by auto
  have key: "own_key s = session_key org wid" by (simp add: own_key_def org_def wid_def)
  have inner: "sr_inner R' = hm_insert (session_key org wid) s (sr_inner R)"
    using sr_insert_cases[of s R] assms(2) unfolding R'_def key
    by (auto simp: Let_def cancel_with_error_def split: option.splits)
  then have get: "sr_get R' org wid = Some s" using wf(1) by (simp add: sr_get_def)
  then have cur: "sr_current R' org wid sid = None" using assms(3) by (simp add: sr_current_def)
  have "conn_cancelled R' (ws_conn old)" if "sr_get R org wid = Some old" for old
    using sr_insert_cases[of s R] assms(2) that wf(2) unfolding R'_def key
    by (auto simp: Let_def sr_get_def intro!: cancel_with_error_cancels)
  with get cur show ?thesis
    by (simp add: remove_if_current_def update_heartbeat_def settle_capacity_reservation_def
        release_capacity_reservation_def)
qed

theorem replaced_session_witness:
  "remove_if_current ''org'' ''lab/gpu'' ''s1'' (fst (sr_insert (sample_session ''s2'' 2) sample_registry)) =
   fst (sr_insert (sample_session ''s2'' 2) sample_registry)"
proof -
  have "snd (sr_insert (sample_session ''s2'' 2) sample_registry)"
    "''s1'' \<noteq> wv_session_id (ws_view (sample_session ''s2'' 2))"
    by (auto simp: sr_insert_def sample_registry_def sample_session_def Let_def split: option.splits)
  from replaced_session_harmless[OF sample_registry_inv this] show ?thesis
    by (simp add: sample_session_def)
qed

subsection \<open>Races\<close>

lemma update_same: "map_of m k = Some v \<Longrightarrow> AList.update k v m = m"
  by (induction m) (auto split: if_splits)

lemma sr_put_twice [simp]: "sr_put org wid s (sr_put org wid s' R) = sr_put org wid s R"
  by (simp add: sr_put_def hm_insert_def)

lemma sr_put_same: "sr_get R org wid = Some s \<Longrightarrow> sr_put org wid s R = R"
  by (simp add: sr_put_def sr_get_def hm_insert_def hm_get_def update_same)

lemma uncertain_eq:
  assumes "sr_current R org wid sid = Some s"
  shows "mark_capacity_reservation_uncertain org wid sid c R =
    sr_put org wid (if c \<in> set (ws_pending_capacity_reservations s) then confirm_on c s else s) R"
  using assms sr_put_same[of R org wid s]
  by (simp add: mark_capacity_reservation_uncertain_def sr_current_Some)
    (simp add: sr_current_def)

text \<open>
  The race between a worker's acknowledgement and the command timeout has one
  outcome. Settling a reservation and marking it uncertain give the same registry in
  either order: an accepted command stays charged until the next heartbeat, and a
  rejected one is released even when the timeout came first.
\<close>

theorem ack_timeout_race:
  assumes "registry_inv R"
  shows "settle_capacity_reservation org wid sid c accepted
           (mark_capacity_reservation_uncertain org wid sid c R) =
         mark_capacity_reservation_uncertain org wid sid c
           (settle_capacity_reservation org wid sid c accepted R)"
proof (cases "sr_current R org wid sid")
  case None
  then show ?thesis by (simp add: mark_capacity_reservation_uncertain_def settle_eq)
next
  case (Some s)
  let ?u = "if c \<in> set (ws_pending_capacity_reservations s) then confirm_on c s else s"
  have get: "sr_get R org wid = Some s" using Some by (simp add: sr_current_Some)
  have 1: "sr_current (sr_put org wid ?u R) org wid sid = Some ?u"
    using Some confirm.put_current[OF assms get, of c sid] sr_put_same[OF get] by auto
  have 2: "sr_current (sr_put org wid (settle_on c accepted s) R) org wid sid = Some (settle_on c accepted s)"
    using Some settle.put_current[OF assms get, of c accepted sid] by simp
  have "settle_on c accepted ?u =
      (if c \<in> set (ws_pending_capacity_reservations (settle_on c accepted s))
       then confirm_on c (settle_on c accepted s) else settle_on c accepted s)"
    by (simp add: settle_on_def confirm_on_def release_on_def hs_remove_def hs_insert_def List.insert_def)
  then show ?thesis
    unfolding uncertain_eq[OF Some] settle_eq Some option.case uncertain_eq[OF 2] 1 by simp
qed

theorem ack_timeout_race_witness:
  "settle_capacity_reservation ''org'' ''lab/gpu'' ''s1'' ''c1'' False
     (mark_capacity_reservation_uncertain ''org'' ''lab/gpu'' ''s1'' ''c1'' sample_registry) =
   mark_capacity_reservation_uncertain ''org'' ''lab/gpu'' ''s1'' ''c1''
     (settle_capacity_reservation ''org'' ''lab/gpu'' ''s1'' ''c1'' False sample_registry)"
  by (rule ack_timeout_race[OF sample_registry_inv])

text \<open>
  The stale-session sweep removes exactly the sessions silent for longer than the
  allowance, reports their worker ids, and touches no other session.
\<close>

theorem reap_stale_removes_exactly:
  assumes "registry_inv R"
  shows "hm_get (sr_inner (fst (reap_stale now max_silence R))) k =
      (case hm_get (sr_inner R) k of
         None \<Rightarrow> None | Some s \<Rightarrow> if now - ws_last_seen s > max_silence then None else Some s) \<and>
    snd (reap_stale now max_silence R) =
      map (\<lambda>s. wv_worker_id (ws_view s))
        (filter (\<lambda>s. now - ws_last_seen s > max_silence) (hm_values (sr_inner R)))"
  unfolding reap_stale_exact[OF assms] is_stale_def[abs_def] by simp

theorem reap_stale_witness:
  "hm_get (sr_inner (fst (reap_stale 31 30 sample_registry))) (session_key ''org'' ''lab/gpu'') = None"
  using reap_stale_removes_exactly[OF sample_registry_inv, of 31 30 "session_key ''org'' ''lab/gpu''"]
  by (simp add: sample_registry_get) (simp add: sample_session_def)

end
