(* ===== verification/Hub_Dispatch_Props.thy ===== *)
theory Hub_Dispatch_Props
  imports Hub_Dispatch Hub_Worker_Props Hub_Sessions_Props
begin

text \<open>
  Correctness of the delivery of jobs: a pass of the backlog scheduler hands every job it
  takes to the device of its batch together with a reserved slot, and the outbox consumer
  sends a command only with a slot and a resident record, and closes a row only on an
  answer of the worker.
\<close>

subsection \<open>Registries that only gain reservations\<close>

definition sessions_grow :: "SessionRegistry \<Rightarrow> SessionRegistry \<Rightarrow> bool" where
  "sessions_grow R R' \<longleftrightarrow>
     (\<forall>k s. hm_get (sr_inner R) k = Some s \<longrightarrow>
        (\<exists>s'. hm_get (sr_inner R') k = Some s' \<and> ws_view s' = ws_view s \<and>
           set (ws_pending_capacity_reservations s) \<subseteq> set (ws_pending_capacity_reservations s')))"

lemma sessions_grow_refl [simp]: "sessions_grow R R"
  by (simp add: sessions_grow_def)

lemma sessions_grow_trans: "sessions_grow R R' \<Longrightarrow> sessions_grow R' R'' \<Longrightarrow> sessions_grow R R''"
  unfolding sessions_grow_def by (fastforce dest: spec)

lemma reserve_capacity_on_cases:
  assumes "reserve_capacity_on org wid c p R = (R', r)" "registry_inv R"
  obtains "R' = R" "r = None"
  | s where "sr_get R org wid = Some s" "p (ws_view s)" "r = Some (worker_view_with_reservations (reserve_on c s))"
      "sr_get R' org wid = Some (reserve_on c s)" "sessions_grow R R'"
proof (cases "sr_get R org wid")
  case None
  then show ?thesis using assms that(1) by (simp add: reserve_capacity_on_def)
next
  case (Some s)
  show ?thesis
  proof (cases "\<not> p (ws_view s) \<or> \<not> has_free_slot s \<or> c \<in> set (ws_pending_capacity_reservations s)")
    case True
    then show ?thesis using assms Some that(1) by (simp add: reserve_capacity_on_def)
  next
    case False
    then have R': "R' = sr_put org wid (reserve_on c s) R" "r = Some (worker_view_with_reservations (reserve_on c s))"
      using assms Some by (simp_all add: reserve_capacity_on_def Let_def)
    have wf: "hm_wf (sr_inner R)" using assms(2) by (rule registry_invD(1))
    have "sessions_grow R R'"
      using Some wf by (auto simp: R' sessions_grow_def sr_put_def sr_get_def reserve_on_def)
    moreover have "sr_get R' org wid = Some (reserve_on c s)" using wf by (simp add: R' sr_get_def sr_put_def)
    ultimately show ?thesis using that(2)[OF Some] False R' by blast
  qed
qed

subsection \<open>The scheduler\<close>

lemma u32_try_from_Some: "u32_try_from x = Some n \<Longrightarrow> uint n = x"
  by (auto simp: u32_try_from_def take_bit_int_eq_self unsigned_of_int split: if_splits)

text \<open>The row \<open>j\<close> of \<open>k\<close> is bound to the device of its batch, which holds a slot for it.\<close>

definition bound_with_slot :: "SessionRegistry \<Rightarrow> Db \<Rightarrow> Db \<Rightarrow> key2 \<Rightarrow> StoredJob \<Rightarrow> bool" where
  "bound_with_slot R db db' k j \<longleftrightarrow>
     (\<exists>workflow version worg wid attempt s t.
        queued_job_info (fst k) (snd k) db = Some (workflow, version, worg, wid, uint attempt) \<and>
        sr_get R worg wid = Some s \<and> offers_workflow workflow version (ws_view s) \<and>
        dispatch_command_id (snd k) attempt \<in> set (ws_pending_capacity_reservations s) \<and>
        hm_get (db_jobs db') k = Some (j\<lparr>j_worker_id := Some (wv_worker_id (ws_view s)),
          j_worker_organization_id := Some (wv_organization_id (ws_view s)),
          j_session_id := Some (wv_session_id (ws_view s)), j_state := ''received'', j_updated_at := t\<rparr>) \<and>
        hm_contains (db_dispatch_outbox db') (fst k, snd k, uint attempt) \<and>
        \<not> hm_contains (db_job_dispatch_queue db') k)"

definition job_kept :: "Db \<Rightarrow> Db \<Rightarrow> key2 \<Rightarrow> bool" where
  "job_kept db db' k \<longleftrightarrow>
     hm_get (db_jobs db') k = hm_get (db_jobs db) k \<and>
     hm_contains (db_job_dispatch_queue db') k = hm_contains (db_job_dispatch_queue db) k"

definition handed_over :: "SessionRegistry \<Rightarrow> SessionRegistry \<Rightarrow> Db \<Rightarrow> Db \<Rightarrow> bool" where
  "handed_over R R' db db' \<longleftrightarrow>
     sessions_grow R R' \<and> db_job_batches db' = db_job_batches db \<and>
     (\<forall>x. hm_contains (db_dispatch_outbox db) x \<longrightarrow> hm_contains (db_dispatch_outbox db') x) \<and>
     (\<forall>k. job_kept db db' k \<or>
        (\<exists>j. hm_get (db_jobs db) k = Some j \<and> j_state j = ''queued'' \<and> bound_with_slot R' db db' k j))"

lemma queued_job_info_cong:
  assumes "hm_get (db_jobs db') (org, job) = hm_get (db_jobs db) (org, job)" "db_job_batches db' = db_job_batches db"
  shows "queued_job_info org job db' = queued_job_info org job db"
  unfolding queued_job_info_def assms ..

lemma bound_with_slot_later:
  assumes "bound_with_slot R db db1 k j" "sessions_grow R R'" "job_kept db1 db2 k"
    and "\<And>x. hm_contains (db_dispatch_outbox db1) x \<Longrightarrow> hm_contains (db_dispatch_outbox db2) x"
  shows "bound_with_slot R' db db2 k j"
proof -
  obtain workflow version worg wid attempt s t where
    b: "queued_job_info (fst k) (snd k) db = Some (workflow, version, worg, wid, uint attempt)"
      "sr_get R worg wid = Some s" "offers_workflow workflow version (ws_view s)"
      "dispatch_command_id (snd k) attempt \<in> set (ws_pending_capacity_reservations s)"
      "hm_get (db_jobs db1) k = Some (j\<lparr>j_worker_id := Some (wv_worker_id (ws_view s)),
          j_worker_organization_id := Some (wv_organization_id (ws_view s)),
          j_session_id := Some (wv_session_id (ws_view s)), j_state := ''received'', j_updated_at := t\<rparr>)"
      "hm_contains (db_dispatch_outbox db1) (fst k, snd k, uint attempt)"
      "\<not> hm_contains (db_job_dispatch_queue db1) k"
    using assms(1) unfolding bound_with_slot_def by blast
  obtain s' where s': "sr_get R' worg wid = Some s'" "ws_view s' = ws_view s"
      "set (ws_pending_capacity_reservations s) \<subseteq> set (ws_pending_capacity_reservations s')"
    using assms(2) b(2) unfolding sessions_grow_def sr_get_def by blast
  show ?thesis
    unfolding bound_with_slot_def
    by (rule exI[of _ workflow], rule exI[of _ version], rule exI[of _ worg], rule exI[of _ wid],
        rule exI[of _ attempt], rule exI[of _ s'], rule exI[of _ t])
      (use b s' assms(3,4) in \<open>auto simp: job_kept_def\<close>)
qed

lemma handed_over_refl [simp]: "handed_over R R db db"
  by (simp add: handed_over_def job_kept_def)

lemma handed_over_trans:
  assumes "handed_over R R1 db db1" "handed_over R1 R2 db1 db2"
  shows "handed_over R R2 db db2"
proof -
  have fr: "sessions_grow R R2" "db_job_batches db2 = db_job_batches db" "sessions_grow R1 R2"
    "\<And>x. hm_contains (db_dispatch_outbox db) x \<Longrightarrow> hm_contains (db_dispatch_outbox db2) x"
    "\<And>x. hm_contains (db_dispatch_outbox db1) x \<Longrightarrow> hm_contains (db_dispatch_outbox db2) x"
    using assms sessions_grow_trans by (auto simp: handed_over_def)
  have "job_kept db db2 k \<or>
      (\<exists>j. hm_get (db_jobs db) k = Some j \<and> j_state j = ''queued'' \<and> bound_with_slot R2 db db2 k j)" for k
  proof (cases "job_kept db db1 k")
    case True
    then have info: "queued_job_info (fst k) (snd k) db1 = queued_job_info (fst k) (snd k) db"
      using assms(1) by (intro queued_job_info_cong) (simp_all add: job_kept_def handed_over_def)
    have "job_kept db1 db2 k \<or>
        (\<exists>j. hm_get (db_jobs db1) k = Some j \<and> j_state j = ''queued'' \<and> bound_with_slot R2 db1 db2 k j)"
      using assms(2) unfolding handed_over_def by blast
    then show ?thesis
      using True unfolding job_kept_def bound_with_slot_def info by auto
  next
    case False
    then obtain j where j: "hm_get (db_jobs db) k = Some j" "j_state j = ''queued''" "bound_with_slot R1 db db1 k j"
      using assms(1) unfolding handed_over_def by blast
    then obtain j' where "hm_get (db_jobs db1) k = Some j'" "j_state j' = ''received''"
      by (auto simp: bound_with_slot_def)
    then have "job_kept db1 db2 k" using assms(2) unfolding handed_over_def by fastforce
    with j fr show ?thesis using bound_with_slot_later by blast
  qed
  with fr show ?thesis by (simp add: handed_over_def)
qed

lemma claim_queue_handed:
  assumes "claim_dispatch_queue_job owner secs now db = (db', r)" "hm_wf (db_job_dispatch_queue db)"
  shows "handed_over R R db db'" "hm_wf (db_job_dispatch_queue db')" "db_jobs db' = db_jobs db"
  using assms(1)
  by (atomize (full), cases rule: claim_queue_cases[OF _ assms(2), consumes 1])
    (use assms(2) in \<open>auto simp: handed_over_def job_kept_def hm_contains_def\<close>)

lemma bind_handed:
  assumes info: "queued_job_info org job db = Some (workflow, version, worg, wid, uint attempt)"
    and s: "sr_get R' worg wid = Some s" "offers_workflow workflow version (ws_view s)"
      "dispatch_command_id job attempt \<in> set (ws_pending_capacity_reservations s)"
    and R: "sessions_grow R R'" and wf: "hm_wf (db_jobs db)" "hm_wf (db_job_dispatch_queue db)" "hm_wf (db_dispatch_outbox db)"
    and bind: "bind_queued_job org job (wv_organization_id (ws_view s)) (wv_worker_id (ws_view s))
      (wv_session_id (ws_view s)) now db = (db', bound)"
  shows "bound" "handed_over R R' db db'"
proof -
  obtain j where j: "hm_get (db_jobs db) (org, job) = Some j" "j_state j = ''queued''" "j_attempt j = uint attempt"
    using info by (auto simp: queued_job_info_def split: option.splits if_splits)
  show "bound" using bind j by (simp add: bind_queued_job_def Let_def)
  have "bound_with_slot R' db db' (org, job) j"
    unfolding bound_with_slot_def fst_conv snd_conv
    by (rule exI[of _ workflow], rule exI[of _ version], rule exI[of _ worg], rule exI[of _ wid],
        rule exI[of _ attempt], rule exI[of _ s], rule exI[of _ now])
      (use info s bind j wf in \<open>auto simp: bind_queued_job_def Let_def hm_contains_def\<close>)
  moreover have "job_kept db db' k" if "k \<noteq> (org, job)" for k
    using that bind j wf by (auto simp: job_kept_def bind_queued_job_def Let_def hm_contains_def)
  moreover have "db_job_batches db' = db_job_batches db"
    "hm_contains (db_dispatch_outbox db) x \<Longrightarrow> hm_contains (db_dispatch_outbox db') x" for x
    using bind j wf by (auto simp: bind_queued_job_def Let_def hm_contains_def)
  ultimately show "handed_over R R' db db'"
    using j R unfolding handed_over_def by metis
qed

text \<open>The tables the scheduler touches are keyed, and no session is over-committed.\<close>

definition sched_ok :: "AppState \<Rightarrow> bool" where
  "sched_ok A \<longleftrightarrow> registry_inv (st_sessions A) \<and> all_within (st_sessions A) \<and>
     (\<forall>db. st_store A = Some db \<longrightarrow>
        hm_wf (db_jobs db) \<and> hm_wf (db_job_dispatch_queue db) \<and> hm_wf (db_dispatch_outbox db))"

lemma bind_queued_wf:
  assumes "bind_queued_job org job worg wid sid now db = (db', b)"
    and "hm_wf (db_jobs db)" "hm_wf (db_job_dispatch_queue db)" "hm_wf (db_dispatch_outbox db)"
  shows "hm_wf (db_jobs db')" "hm_wf (db_job_dispatch_queue db')" "hm_wf (db_dispatch_outbox db')"
  using assms by (auto simp: bind_queued_job_def Let_def split: option.splits if_splits)

lemma dispatch_queued_job_bound:
  assumes "queued_job_info org job db = Some (workflow, version, worg, wid, att)" "u32_try_from att = Some attempt"
    and "reserve_capacity_on worg wid (dispatch_command_id job attempt) (offers_workflow workflow version) (st_sessions A) =
      (R, Some w)"
    and "bind_queued_job org job (wv_organization_id w) (wv_worker_id w) (wv_session_id w) now db = (db', True)"
  shows "dispatch_queued_job org job now db A = (A\<lparr>st_sessions := R, st_store := Some db'\<rparr>, Ok ())"
  using assms by (simp add: dispatch_queued_job_def Let_def)

lemma dispatch_queued_job_safe:
  assumes "st_store A = Some db" "sched_ok A"
  obtains db' where "st_store (fst (dispatch_queued_job org job now db A)) = Some db'"
    "sched_ok (fst (dispatch_queued_job org job now db A))"
    "handed_over (st_sessions A) (st_sessions (fst (dispatch_queued_job org job now db A))) db db'"
    "store_reaches J db db'"
proof -
  have wf: "hm_wf (db_jobs db)" "hm_wf (db_job_dispatch_queue db)" "hm_wf (db_dispatch_outbox db)"
    and inv: "registry_inv (st_sessions A)" "all_within (st_sessions A)"
    using assms by (auto simp: sched_ok_def)
  note same = that[of db]
  show ?thesis
  proof (cases "queued_job_info org job db")
    case None
    then show ?thesis using assms by (intro same) (simp_all add: dispatch_queued_job_def store_reaches_def)
  next
    case (Some info)
    obtain workflow version worg wid att where info: "queued_job_info org job db = Some (workflow, version, worg, wid, att)"
      using Some by (metis prod_cases5)
    show ?thesis
    proof (cases "u32_try_from att")
      case None
      then show ?thesis using assms info by (intro same) (simp_all add: dispatch_queued_job_def store_reaches_def)
    next
      case att: (Some attempt)
      let ?c = "dispatch_command_id job attempt" and ?p = "offers_workflow workflow version"
      obtain R r where res: "reserve_capacity_on worg wid ?c ?p (st_sessions A) = (R, r)" by fastforce
      have inv': "registry_inv R" "all_within R"
        using reserve_capacity_on_inv[OF inv(1), of worg wid ?c ?p] reserve_capacity_on_within[OF inv, of worg wid ?c ?p]
        by (simp_all add: res)
      from res inv(1) show ?thesis
      proof (cases rule: reserve_capacity_on_cases)
        case 1
        then show ?thesis using assms info att res
          by (intro same) (simp_all add: dispatch_queued_job_def store_reaches_def sched_ok_def)
      next
        case (2 s)
        let ?s = "reserve_on ?c s"
        obtain db' b where bind: "bind_queued_job org job (wv_organization_id (ws_view ?s)) (wv_worker_id (ws_view ?s))
            (wv_session_id (ws_view ?s)) now db = (db', b)" by fastforce
        have v: "ws_view ?s = ws_view s" "?c \<in> set (ws_pending_capacity_reservations ?s)" by (simp_all add: reserve_on_def)
        have b: "b" "handed_over (st_sessions A) R db db'"
          using bind_handed[OF _ 2(4) _ v(2) 2(5) wf bind] info 2(2) v(1) u32_try_from_Some[OF att] by simp_all
        have "dispatch_queued_job org job now db A = (A\<lparr>st_sessions := R, st_store := Some db'\<rparr>, Ok ())"
          using bind b(1)
          by (intro dispatch_queued_job_bound[OF info att res[unfolded 2(3)]]) (simp add: worker_view_with_reservations_def)
        moreover have "store_reaches J db db'"
          using store_step.bind_queued[of J db org job "wv_organization_id (ws_view ?s)" "wv_worker_id (ws_view ?s)"
              "wv_session_id (ws_view ?s)" now] by (simp add: bind store_reaches_def)
        ultimately show ?thesis
          using that[of db'] b(2) inv' bind_queued_wf[OF bind wf] by (simp add: sched_ok_def)
      qed
    qed
  qed
qed

lemma schedule_loop_safe:
  assumes "st_store A = Some db" "sched_ok A"
  shows "\<exists>db'. st_store (schedule_loop clock n A) = Some db' \<and> sched_ok (schedule_loop clock n A) \<and>
    handed_over (st_sessions A) (st_sessions (schedule_loop clock n A)) db db' \<and> store_reaches J db db'"
  using assms
proof (induction n arbitrary: A db)
  case 0
  then show ?case by (simp add: store_reaches_def)
next
  case (Suc n)
  obtain db1 r where cl: "claim_dispatch_queue_job ''hub-scheduler'' SCHEDULER_LEASE_SECONDS (clock (Suc n)) db = (db1, r)"
    by fastforce
  let ?A1 = "A\<lparr>st_store := Some db1\<rparr>"
  have "hm_wf (db_job_dispatch_queue db)" using Suc.prems by (simp add: sched_ok_def)
  note h = claim_queue_handed[OF cl this]
  have "db_dispatch_outbox db1 = db_dispatch_outbox db"
    using cl by (auto simp: claim_dispatch_queue_job_def Let_def split: list.splits)
  then have ok: "sched_ok ?A1" using h Suc.prems by (simp add: sched_ok_def)
  have step: "store_step J db db1"
    using store_step.claim_queue[of J db "''hub-scheduler''" SCHEDULER_LEASE_SECONDS "clock (Suc n)"] by (simp add: cl)
  show ?case
  proof (cases r)
    case None
    with Suc.prems cl ok h(1)[of "st_sessions A"] step show ?thesis by (simp add: store_reaches_def r_into_rtranclp)
  next
    case (Some k)
    obtain org job where k: "k = (org, job)" by fastforce
    let ?A2 = "fst (dispatch_queued_job org job (clock (Suc n)) db1 ?A1)"
    obtain db2 where d: "st_store ?A2 = Some db2" "sched_ok ?A2"
        "handed_over (st_sessions A) (st_sessions ?A2) db1 db2" "store_reaches J db1 db2"
      using dispatch_queued_job_safe[where A = ?A1 and db = db1 and org = org and job = job and now = "clock (Suc n)" and J = J] ok
      by auto
    have eq: "schedule_loop clock (Suc n) A = schedule_loop clock n ?A2"
      using Suc.prems(1) cl Some k by simp
    have r02: "store_reaches J db db2" using step d(4) by (simp add: store_reaches_def converse_rtranclp_into_rtranclp)
    obtain db3 where "st_store (schedule_loop clock n ?A2) = Some db3" "sched_ok (schedule_loop clock n ?A2)"
        "handed_over (st_sessions ?A2) (st_sessions (schedule_loop clock n ?A2)) db2 db3" "store_reaches J db2 db3"
      using Suc.IH[OF d(1,2)] by blast
    moreover from this r02 have "store_reaches J db db3" by (simp add: store_reaches_def)
    ultimately show ?thesis
      unfolding eq using handed_over_trans[OF handed_over_trans[OF h(1)[of "st_sessions A"] d(3)]] by blast
  qed
qed

text \<open>
  C31: A pass of the backlog scheduler loses no job and dispatches none twice. Over a
  registry without over-committed sessions, whatever the clock reads, a row of the job
  table either is untouched and is in the dispatch queue exactly when it was, or it
  was queued and is now received, bound to the connected session of the device its batch
  names, a session that offers the workflow version and holds a slot reserved for the
  dispatch command; then its outbox row exists and its queue row is gone. No session is
  over-committed afterwards and the store moved by its own transactions.
\<close>
theorem schedule_pass_hands_over:
  assumes "registry_inv (st_sessions A)" "all_within (st_sessions A)" "st_store A = Some db"
    and "hm_wf (db_jobs db)" "hm_wf (db_job_dispatch_queue db)" "hm_wf (db_dispatch_outbox db)"
  shows "\<exists>db'. st_store (schedule_pass clock A) = Some db' \<and> store_reaches J db db' \<and>
    all_within (st_sessions (schedule_pass clock A)) \<and>
    (\<forall>k. job_kept db db' k \<or>
       (\<exists>j. hm_get (db_jobs db) k = Some j \<and> j_state j = ''queued'' \<and>
          bound_with_slot (st_sessions (schedule_pass clock A)) db db' k j))"
proof -
  have "sched_ok A" using assms by (simp add: sched_ok_def)
  from schedule_loop_safe[OF assms(3) this, of clock 32 J] show ?thesis
    unfolding schedule_pass_def sched_ok_def handed_over_def by blast
qed

definition sched_store :: Db where
  "sched_store = sample_queue_store\<lparr>
     db_jobs := [((''o'', ''j''), sample_queued\<lparr>j_workflow_id := ''w'', j_workflow_version := ''1''\<rparr>)],
     db_job_batches := [((''o'', ''b''), \<lparr>b_device_organization_id = Some ''org'', b_device_id = Some ''lab/gpu''\<rparr>)]\<rparr>"

definition sched_state :: AppState where
  "sched_state = \<lparr>st_sessions = sample_registry, st_data = HubData_default, st_read_cache = ReadCache_default,
     st_store = Some sched_store\<rparr>"

definition sched_store1 :: Db where
  "sched_store1 = sched_store\<lparr>db_job_dispatch_queue :=
     [((''o'', ''j''), sample_queue_row\<lparr>dq_lease_owner := Some ''hub-scheduler'', dq_lease_until := Some 30100\<rparr>)]\<rparr>"

lemma sched_claim:
  "claim_dispatch_queue_job ''hub-scheduler'' SCHEDULER_LEASE_SECONDS 100 sched_store = (sched_store1, Some (''o'', ''j''))"
  by code_simp

lemma sched_info: "queued_job_info ''o'' ''j'' sched_store1 = Some (''w'', ''1'', ''org'', ''lab/gpu'', 1)"
  by code_simp

lemma sched_bind:
  "map_option j_state (hm_get (db_jobs (fst (bind_queued_job ''o'' ''j'' ''org'' ''lab/gpu'' ''s1'' 100 sched_store1))) (''o'', ''j'')) = Some ''received''"
  "snd (bind_queued_job ''o'' ''j'' ''org'' ''lab/gpu'' ''s1'' 100 sched_store1)"
  "db_job_dispatch_queue (fst (bind_queued_job ''o'' ''j'' ''org'' ''lab/gpu'' ''s1'' 100 sched_store1)) = []"
  by code_simp+

lemma sample_session_view:
  "wv_organization_id (ws_view (sample_session sid h)) = ''org''" "wv_worker_id (ws_view (sample_session sid h)) = ''lab/gpu''"
  "wv_session_id (ws_view (sample_session sid h)) = sid" "ws_pending_capacity_reservations (sample_session sid h) = []"
  "offers_workflow ''w'' ''1'' (ws_view (sample_session sid h))"
  by (simp_all add: sample_session_def offers_workflow_def sample_register_def)

lemma sched_reserve:
  "reserve_capacity_on ''org'' ''lab/gpu'' c (offers_workflow ''w'' ''1'') sample_registry =
     (sr_put ''org'' ''lab/gpu'' (reserve_on c (sample_session ''s1'' 1)) sample_registry,
      Some (worker_view_with_reservations (reserve_on c (sample_session ''s1'' 1))))"
  unfolding reserve_capacity_on_def sr_get_def sample_registry_get
  using sample_has_slot by (simp add: sample_session_view Let_def)

lemma sched_pass_result:
  "\<exists>db'. st_store (schedule_pass (\<lambda>_. 100) sched_state) = Some db' \<and>
     map_option j_state (hm_get (db_jobs db') (''o'', ''j'')) = Some ''received''"
proof -
  let ?db2 = "fst (bind_queued_job ''o'' ''j'' ''org'' ''lab/gpu'' ''s1'' 100 sched_store1)"
  let ?A1 = "sched_state\<lparr>st_store := Some sched_store1\<rparr>"
  have bind: "bind_queued_job ''o'' ''j'' ''org'' ''lab/gpu'' ''s1'' 100 sched_store1 = (?db2, True)"
    using sched_bind(2) by (simp add: prod_eq_iff)
  have "u32_try_from 1 = Some 1" by (simp add: u32_try_from_def)
  then have d: "st_store (fst (dispatch_queued_job ''o'' ''j'' 100 sched_store1 ?A1)) = Some ?db2"
    using bind
    by (subst dispatch_queued_job_bound[OF sched_info _ _]) 
      (auto simp: sched_state_def sched_reserve worker_view_with_reservations_def reserve_on_def sample_session_view)
  have none: "claim_dispatch_queue_job o' l t ?db2 = (?db2, None)" for o' l t
    using sched_bind(3) by (simp add: claim_dispatch_queue_job_def)
  have "schedule_pass (\<lambda>_. 100) sched_state =
      schedule_loop (\<lambda>_. 100) (Suc 30) (fst (dispatch_queued_job ''o'' ''j'' 100 sched_store1 ?A1))"
    using sched_claim by (simp add: schedule_pass_def numeral_eq_Suc sched_state_def)
  moreover have "st_store (schedule_loop clock (Suc 30) A) = Some ?db2" if "st_store A = Some ?db2" for A clock
    unfolding schedule_loop.simps using none that by simp
  ultimately show ?thesis using d sched_bind(1) by metis
qed

theorem schedule_pass_hands_over_witness:
  "\<exists>db'. st_store (schedule_pass (\<lambda>_. 100) sched_state) = Some db' \<and>
    map_option j_state (hm_get (db_jobs db') (''o'', ''j'')) = Some ''received'' \<and>
    bound_with_slot (st_sessions (schedule_pass (\<lambda>_. 100) sched_state)) sched_store db' (''o'', ''j'')
      (sample_queued\<lparr>j_workflow_id := ''w'', j_workflow_version := ''1''\<rparr>)"
proof -
  have wf: "hm_wf (db_jobs sched_store)" "hm_wf (db_job_dispatch_queue sched_store)" "hm_wf (db_dispatch_outbox sched_store)"
    and row: "hm_get (db_jobs sched_store) (''o'', ''j'') = Some (sample_queued\<lparr>j_workflow_id := ''w'', j_workflow_version := ''1''\<rparr>)"
      "j_state (sample_queued\<lparr>j_workflow_id := ''w'', j_workflow_version := ''1''\<rparr>) = ''queued''"
    by code_simp+
  have within: "all_within sample_registry"
    by (auto simp: all_within_def sample_registry_def hm_get_def within_capacity_def nat_load_def sample_session_def
        split: if_splits)
  have A: "registry_inv (st_sessions sched_state)" "all_within (st_sessions sched_state)" "st_store sched_state = Some sched_store"
    using sample_registry_inv within by (simp_all add: sched_state_def)
  obtain db' where db': "st_store (schedule_pass (\<lambda>_. 100) sched_state) = Some db'"
      "map_option j_state (hm_get (db_jobs db') (''o'', ''j'')) = Some ''received''"
    using sched_pass_result by blast
  then have "\<not> job_kept sched_store db' (''o'', ''j'')" using row by (auto simp: job_kept_def)
  moreover have "job_kept sched_store db' (''o'', ''j'') \<or>
      (\<exists>j. hm_get (db_jobs sched_store) (''o'', ''j'') = Some j \<and> j_state j = ''queued'' \<and>
        bound_with_slot (st_sessions (schedule_pass (\<lambda>_. 100) sched_state)) sched_store db' (''o'', ''j'') j)"
    using schedule_pass_hands_over[OF A wf, of "\<lambda>_. 100"] unfolding db'(1) by blast
  ultimately show ?thesis using db' row(1) by auto
qed

end
