(* ===== verification/Auth.thy ===== *)
theory Auth
  imports Rust_Collections
begin

text \<open>
  Authorization, \<open>crates/nagisalake-hub-auth/src/principal.rs\<close>: roles, permissions, the
  scopes of API keys and the principal that both must authorize.
\<close>

datatype Role = Viewer | Member | Operator | Admin | Owner

fun role_rank :: "Role \<Rightarrow> u8" where
  "role_rank Viewer = 0"
| "role_rank Member = 1"
| "role_rank Operator = 2"
| "role_rank Admin = 3"
| "role_rank Owner = 4"

datatype Permission =
    WorkflowsRead
  | WorkflowsPublish
  | JobsReadOrganization
  | JobsWrite
  | JobsCancelOwn
  | JobsCancelAny
  | ArtifactsRead
  | ArtifactsWrite
  | WorkersManage
  | MembersManage
  | ApiKeysManageOwn
  | ApiKeysManage
  | QuotaRead
  | QuotaManage
  | AuditRead
  | OrganizationDelete
  | DevicesRead
  | DevicesUse
  | DevicesRegisterOwn
  | DevicesShareOwn

definition role_allows :: "Role \<Rightarrow> Permission \<Rightarrow> bool" where
  "role_allows r p =
     (if p \<in> {WorkflowsRead, JobsReadOrganization, QuotaRead} then role_rank r \<ge> role_rank Viewer
      else if p \<in> {JobsWrite, JobsCancelOwn, ArtifactsRead, ArtifactsWrite, ApiKeysManageOwn, DevicesRead,
                   DevicesUse, DevicesRegisterOwn, DevicesShareOwn} then role_rank r \<ge> role_rank Member
      else if p \<in> {JobsCancelAny, WorkersManage, WorkflowsPublish} then role_rank r \<ge> role_rank Operator
      else if p \<in> {MembersManage, ApiKeysManage, QuotaManage, AuditRead} then role_rank r \<ge> role_rank Admin
      else r = Owner)"

fun role_name :: "Role \<Rightarrow> string" where
  "role_name Viewer = ''viewer''"
| "role_name Member = ''member''"
| "role_name Operator = ''operator''"
| "role_name Admin = ''admin''"
| "role_name Owner = ''owner''"

datatype AuthError =
    InvalidRole string
  | WeakPassword string
  | PasswordHash string

definition role_from_str :: "string \<Rightarrow> (AuthError, Role) result" where
  "role_from_str v =
     (if v = ''viewer'' then Ok Viewer
      else if v = ''member'' then Ok Member
      else if v = ''operator'' then Ok Operator
      else if v = ''admin'' then Ok Admin
      else if v = ''owner'' then Ok Owner
      else Err (InvalidRole v))"

fun permission_scope :: "Permission \<Rightarrow> string" where
  "permission_scope WorkflowsRead = ''workflows:read''"
| "permission_scope WorkflowsPublish = ''workflows:write''"
| "permission_scope JobsReadOrganization = ''jobs:read''"
| "permission_scope JobsWrite = ''jobs:write''"
| "permission_scope JobsCancelOwn = ''jobs:cancel''"
| "permission_scope JobsCancelAny = ''jobs:cancel''"
| "permission_scope ArtifactsRead = ''artifacts:read''"
| "permission_scope ArtifactsWrite = ''artifacts:write''"
| "permission_scope WorkersManage = ''workers:manage''"
| "permission_scope MembersManage = ''members:manage''"
| "permission_scope ApiKeysManageOwn = ''api_keys:manage''"
| "permission_scope ApiKeysManage = ''api_keys:manage''"
| "permission_scope QuotaRead = ''quota:read''"
| "permission_scope QuotaManage = ''quota:manage''"
| "permission_scope AuditRead = ''audit:read''"
| "permission_scope OrganizationDelete = ''organizations:delete''"
| "permission_scope DevicesRead = ''devices:read''"
| "permission_scope DevicesUse = ''devices:use''"
| "permission_scope DevicesRegisterOwn = ''devices:register''"
| "permission_scope DevicesShareOwn = ''devices:share''"

datatype PrincipalKind = BrowserSession | ApiKey | WorkerCredentialKind | LegacyToken

record Principal =
  pc_kind :: PrincipalKind
  pc_actor_id :: string
  pc_user_id :: "string option"
  pc_organization_id :: string
  pc_role :: Role
  pc_scopes :: "string list"

definition principal_allows :: "Principal \<Rightarrow> Permission \<Rightarrow> bool" where
  "principal_allows p permission =
     (if \<not> role_allows (pc_role p) permission then False
      else pc_kind p \<noteq> ApiKey \<or> permission_scope permission \<in> set (pc_scopes p))"

lemma role_from_name [simp]: "role_from_str (role_name r) = Ok r"
  by (cases r) (simp_all add: role_from_str_def)

lemma role_allows_mono:
  assumes "role_allows r p" "role_rank r \<le> role_rank r'"
  shows "role_allows r' p"
proof (cases "r = Owner")
  case True
  then have "r' = Owner"
    using assms(2) by (cases r') (simp_all add: word_le_nat_alt)
  then show ?thesis using assms(1) True by simp
next
  case False
  have "X \<le> role_rank r \<Longrightarrow> X \<le> role_rank r'" for X
    using assms(2) by (rule order_trans [rotated])
  then show ?thesis
    using assms(1) False unfolding role_allows_def
    by (auto split: if_splits simp del: role_rank.simps insert_iff)
qed

end
