(* ===== verification/Rpc_Wire.thy ===== *)
theory Rpc_Wire
  imports Rust_Str
begin

text \<open>
  The wire of the RPC crate: the fixed headers of \<open>crates/nagisalake-rpc/src/protocol.rs\<close>,
  the status codes of \<open>status.rs\<close>, the limits of \<open>config.rs\<close> and the length-prefixed
  reader and writer of \<open>framing.rs\<close>. A socket is a list of reads and a list of performed
  operations; buffers are byte lists, whose capacities are not observable and left out.
\<close>

subsection \<open>Byte encodings\<close>

fun le_bytes :: "nat \<Rightarrow> nat \<Rightarrow> u8 list" where
  "le_bytes 0 x = []"
| "le_bytes (Suc n) x = of_nat x # le_bytes n (x div 256)"

fun le_value :: "u8 list \<Rightarrow> nat" where
  "le_value [] = 0"
| "le_value (b # bs) = unat b + 256 * le_value bs"

definition put_u32 :: "u32 \<Rightarrow> u8 list" where
  "put_u32 w = rev (le_bytes 4 (unat w))"

definition u32_from_be_bytes :: "u8 list \<Rightarrow> nat" where
  "u32_from_be_bytes bs = le_value (rev bs)"

definition put_u64_le :: "u64 \<Rightarrow> u8 list" where
  "put_u64_le w = le_bytes 8 (unat w)"

definition read_u64 :: "u8 list \<Rightarrow> u64" where
  "read_u64 bs = of_nat (le_value bs)"

lemma length_le_bytes [simp]: "length (le_bytes n x) = n"
  by (induction n arbitrary: x) auto

lemma le_value_le_bytes: "le_value (le_bytes n x) = x mod 256 ^ n"
proof (induction n arbitrary: x)
  case (Suc n)
  have "unat (of_nat x :: u8) = x mod 256" by (simp add: unsigned_of_nat take_bit_eq_mod)
  with Suc show ?case by (simp add: mod_mult2_eq mult.commute)
qed simp

lemma put_u32_inverse [simp]: "u32_from_be_bytes (put_u32 w) = unat w"
  using unat_bound[of w] by (simp add: u32_from_be_bytes_def put_u32_def le_value_le_bytes)

lemma put_u64_inverse [simp]: "read_u64 (put_u64_le w) = w"
  using unat_bound[of w] by (simp add: read_u64_def put_u64_le_def le_value_le_bytes)

lemma length_put [simp]: "length (put_u32 w) = 4" "length (put_u64_le v) = 8"
  by (simp_all add: put_u32_def put_u64_le_def)

subsection \<open>Status codes\<close>

datatype Code =
  CodeCancelled | CodeUnknown | CodeInvalidArgument | CodeDeadlineExceeded | CodeNotFound | CodeAlreadyExists
  | CodePermissionDenied | CodeResourceExhausted | CodeFailedPrecondition | CodeUnimplemented | CodeInternal
  | CodeUnavailable | CodeUnauthenticated

fun as_wire :: "Code \<Rightarrow> u8" where
  "as_wire CodeCancelled = 1"
| "as_wire CodeUnknown = 2"
| "as_wire CodeInvalidArgument = 3"
| "as_wire CodeDeadlineExceeded = 4"
| "as_wire CodeNotFound = 5"
| "as_wire CodeAlreadyExists = 6"
| "as_wire CodePermissionDenied = 7"
| "as_wire CodeResourceExhausted = 8"
| "as_wire CodeFailedPrecondition = 9"
| "as_wire CodeUnimplemented = 10"
| "as_wire CodeInternal = 13"
| "as_wire CodeUnavailable = 14"
| "as_wire CodeUnauthenticated = 16"

definition from_wire :: "u8 \<Rightarrow> Code option" where
  "from_wire b =
     (if b = 1 then Some CodeCancelled else if b = 2 then Some CodeUnknown
      else if b = 3 then Some CodeInvalidArgument else if b = 4 then Some CodeDeadlineExceeded
      else if b = 5 then Some CodeNotFound else if b = 6 then Some CodeAlreadyExists
      else if b = 7 then Some CodePermissionDenied else if b = 8 then Some CodeResourceExhausted
      else if b = 9 then Some CodeFailedPrecondition else if b = 10 then Some CodeUnimplemented
      else if b = 13 then Some CodeInternal else if b = 14 then Some CodeUnavailable
      else if b = 16 then Some CodeUnauthenticated else None)"

lemma from_wire_as_wire [simp]: "from_wire (as_wire c) = Some c" "as_wire c \<noteq> 0"
  by (cases c; simp add: from_wire_def)+

subsection \<open>Errors and configuration\<close>

datatype ConnectionErrorKind = ConnClosed | ConnIo | ConnFrameTooLarge | ConnProtocol | ConnRuntime

record ConnectionError =
  ce_kind :: ConnectionErrorKind
  ce_detail :: string

text \<open>An I/O error: whether its kind is \<open>UnexpectedEof\<close>, and its text.\<close>

datatype io_error = IoError bool string

fun conn_io :: "io_error \<Rightarrow> ConnectionError" where
  "conn_io (IoError eof m) = \<lparr>ce_kind = (if eof then ConnClosed else ConnIo), ce_detail = m\<rparr>"

definition conn_frame_too_large :: "nat \<Rightarrow> nat \<Rightarrow> ConnectionError" where
  "conn_frame_too_large actual limit =
     \<lparr>ce_kind = ConnFrameTooLarge,
      ce_detail = ''frame is '' @ show_nat actual @ '' bytes, limit is '' @ show_nat limit\<rparr>"

definition conn_protocol :: "string \<Rightarrow> ConnectionError" where
  "conn_protocol detail = \<lparr>ce_kind = ConnProtocol, ce_detail = detail\<rparr>"

definition conn_closed :: "string \<Rightarrow> ConnectionError" where
  "conn_closed detail = \<lparr>ce_kind = ConnClosed, ce_detail = detail\<rparr>"

record FrameConfig =
  fc_max_frame_bytes :: nat
  fc_initial_buffer_bytes :: nat
  fc_read_chunk_bytes :: nat
  fc_max_batch_frames :: nat
  fc_max_batch_bytes :: nat

datatype ConfigError = CfgZero string | CfgInvalidFrameLimit nat | CfgInvalidDuration string

definition FrameConfig_default :: FrameConfig where
  "FrameConfig_default =
     \<lparr>fc_max_frame_bytes = 8 * 1024 * 1024, fc_initial_buffer_bytes = 16 * 1024, fc_read_chunk_bytes = 32 * 1024,
      fc_max_batch_frames = 64, fc_max_batch_bytes = 256 * 1024\<rparr>"

definition validate_frame_config :: "FrameConfig \<Rightarrow> (ConfigError, unit) result" where
  "validate_frame_config c =
     (if fc_max_frame_bytes c = 0 \<or> fc_max_frame_bytes c > 4294967295
      then Err (CfgInvalidFrameLimit (fc_max_frame_bytes c))
      else if fc_initial_buffer_bytes c = 0 then Err (CfgZero ''initial_buffer_bytes'')
      else if fc_read_chunk_bytes c = 0 then Err (CfgZero ''read_chunk_bytes'')
      else if fc_max_batch_frames c = 0 then Err (CfgZero ''max_batch_frames'')
      else if fc_max_batch_bytes c = 0 then Err (CfgZero ''max_batch_bytes'')
      else Ok ())"

subsection \<open>Frames\<close>

definition KIND_REQUEST :: u8 where "KIND_REQUEST = 1"
definition KIND_CANCEL :: u8 where "KIND_CANCEL = 2"
definition KIND_RESPONSE :: u8 where "KIND_RESPONSE = 3"
definition STATUS_OK :: u8 where "STATUS_OK = 0"
definition REQUEST_HEADER_LEN :: nat where "REQUEST_HEADER_LEN = 1 + 8 + 8 + 16"
definition CANCEL_FRAME_LEN :: nat where "CANCEL_FRAME_LEN = 1 + 8"
definition RESPONSE_HEADER_LEN :: nat where "RESPONSE_HEADER_LEN = 1 + 8 + 1"

lemmas wire_consts = KIND_REQUEST_def KIND_CANCEL_def KIND_RESPONSE_def STATUS_OK_def REQUEST_HEADER_LEN_def
  CANCEL_FRAME_LEN_def RESPONSE_HEADER_LEN_def

text \<open>A trace id is an array of 16 bytes.\<close>

type_synonym TraceId = "u8 list"

datatype ClientFrame =
    FRequest (cf_id: u64) (cf_timeout_micros: u64) (cf_trace_id: TraceId) (cf_body: "u8 list")
  | FCancel (cf_id: u64)

datatype ServerFrame = FResponse (sf_id: u64) (sf_code: "Code option") (sf_body: "u8 list")

fun client_payload_len :: "ClientFrame \<Rightarrow> nat" where
  "client_payload_len (FRequest i t tr body) = REQUEST_HEADER_LEN + length body"
| "client_payload_len (FCancel i) = CANCEL_FRAME_LEN"

text \<open>\<open>split_header\<close>: the header bytes and the body to write after them.\<close>

fun client_split_header :: "ClientFrame \<Rightarrow> u8 list \<times> u8 list" where
  "client_split_header (FRequest i t tr body) = (KIND_REQUEST # put_u64_le i @ put_u64_le t @ tr, body)"
| "client_split_header (FCancel i) = (KIND_CANCEL # put_u64_le i, [])"

fun server_payload_len :: "ServerFrame \<Rightarrow> nat" where
  "server_payload_len (FResponse i c body) = RESPONSE_HEADER_LEN + length body"

fun server_split_header :: "ServerFrame \<Rightarrow> u8 list \<times> u8 list" where
  "server_split_header (FResponse i c body) =
     (KIND_RESPONSE # put_u64_le i @ [case c of None \<Rightarrow> STATUS_OK | Some x \<Rightarrow> as_wire x], body)"

datatype FrameError = Truncated | UnknownKind u8 | UnknownStatus u8

fun frame_error_detail :: "FrameError \<Rightarrow> string" where
  "frame_error_detail Truncated = ''frame payload is shorter than its header''"
| "frame_error_detail (UnknownKind b) = ''frame has an unknown kind tag''"
| "frame_error_detail (UnknownStatus b) = ''response frame has an unknown status code''"

definition slice :: "nat \<Rightarrow> nat \<Rightarrow> 'a list \<Rightarrow> 'a list" where
  "slice a b xs = drop a (take b xs)"

definition client_parse :: "u8 list \<Rightarrow> (FrameError, ClientFrame) result" where
  "client_parse payload =
     (case payload of
        [] \<Rightarrow> Err Truncated
      | kind # _ \<Rightarrow>
          if kind = KIND_REQUEST then
            (if length payload < REQUEST_HEADER_LEN then Err Truncated
             else Ok (FRequest (read_u64 (slice 1 9 payload)) (read_u64 (slice 9 17 payload)) (slice 17 33 payload)
                        (drop REQUEST_HEADER_LEN payload)))
          else if kind = KIND_CANCEL then
            (if length payload < CANCEL_FRAME_LEN then Err Truncated
             else Ok (FCancel (read_u64 (slice 1 9 payload))))
          else Err (UnknownKind kind))"

definition server_parse :: "u8 list \<Rightarrow> (FrameError, ServerFrame) result" where
  "server_parse payload =
     (case payload of
        [] \<Rightarrow> Err Truncated
      | kind # _ \<Rightarrow>
          if kind = KIND_RESPONSE then
            (if length payload < RESPONSE_HEADER_LEN then Err Truncated
             else
               let status = payload ! 9; body = drop RESPONSE_HEADER_LEN payload; i = read_u64 (slice 1 9 payload)
               in if status = STATUS_OK then Ok (FResponse i None body)
                  else (case from_wire status of
                          None \<Rightarrow> Err (UnknownStatus status)
                        | Some c \<Rightarrow> Ok (FResponse i (Some c) body)))
          else Err (UnknownKind kind))"

lemma slice_append:
  "length xs = a \<Longrightarrow> b = a + length ys \<Longrightarrow> slice a b (xs @ ys @ zs) = ys"
  by (simp add: slice_def)

lemma client_parse_header:
  "length tr = 16 \<Longrightarrow> client_parse (KIND_REQUEST # put_u64_le i @ put_u64_le t @ tr @ body) = Ok (FRequest i t tr body)"
  using slice_append[of "[KIND_REQUEST]" 1 9 "put_u64_le i" "put_u64_le t @ tr @ body"]
    slice_append[of "KIND_REQUEST # put_u64_le i" 9 17 "put_u64_le t" "tr @ body"]
    slice_append[of "KIND_REQUEST # put_u64_le i @ put_u64_le t" 17 33 tr body]
  by (simp add: client_parse_def wire_consts)

lemma client_parse_cancel: "client_parse (KIND_CANCEL # put_u64_le i) = Ok (FCancel i)"
  using slice_append[of "[KIND_CANCEL]" 1 9 "put_u64_le i" "[]"] by (simp add: client_parse_def wire_consts)

lemma server_parse_header:
  "server_parse (KIND_RESPONSE # put_u64_le i @ (case c of None \<Rightarrow> STATUS_OK | Some x \<Rightarrow> as_wire x) # body) =
     Ok (FResponse i c body)"
  using slice_append[of "[KIND_RESPONSE]" 1 9 "put_u64_le i" "(case c of None \<Rightarrow> STATUS_OK | Some x \<Rightarrow> as_wire x) # body"]
  by (simp add: server_parse_def wire_consts nth_append split: option.splits)

subsection \<open>Reading\<close>

definition PREFIX_BYTES :: nat where "PREFIX_BYTES = 4"

datatype 'f ReadEvent = EvFrame 'f | EvClosed | EvFailed ConnectionError

text \<open>The next complete payload and what follows it in the buffer.\<close>

definition take_frame :: "nat \<Rightarrow> u8 list \<Rightarrow> (ConnectionError, (u8 list \<times> u8 list) option) result" where
  "take_frame max_frame_bytes buffer =
     (if length buffer < PREFIX_BYTES then Ok None
      else
        let payload_len = u32_from_be_bytes (take PREFIX_BYTES buffer)
        in if payload_len > max_frame_bytes then Err (conn_frame_too_large payload_len max_frame_bytes)
           else if length buffer < PREFIX_BYTES + payload_len then Ok None
           else Ok (Some (take payload_len (drop PREFIX_BYTES buffer), drop (PREFIX_BYTES + payload_len) buffer)))"

lemma take_frame_shorter: "take_frame n buffer = Ok (Some (payload, rest)) \<Longrightarrow> length rest < length buffer"
  by (auto simp: take_frame_def PREFIX_BYTES_def Let_def split: if_splits)

text \<open>
  The inner loop of \<open>read_frames\<close>: the events of the frames that are complete, and the
  rest of the buffer, or \<open>None\<close> when the reader returned.
\<close>

function drain_frames ::
  "(u8 list \<Rightarrow> (FrameError, 'f) result) \<Rightarrow> nat \<Rightarrow> u8 list \<Rightarrow> 'f ReadEvent list \<times> u8 list option" where
  "drain_frames parse max_frame_bytes buffer =
     (case take_frame max_frame_bytes buffer of
        Err e \<Rightarrow> ([EvFailed e], None)
      | Ok None \<Rightarrow> ([], Some buffer)
      | Ok (Some (payload, rest)) \<Rightarrow>
          (case parse payload of
             Err e \<Rightarrow> ([EvFailed (conn_protocol (frame_error_detail e))], None)
           | Ok f \<Rightarrow> (let (es, r) = drain_frames parse max_frame_bytes rest in (EvFrame f # es, r))))"
  by pat_completeness auto
termination
  by (relation "measure (\<lambda>(parse, n, buffer). length buffer)") (auto dest: take_frame_shorter)

declare drain_frames.simps [simp del]

text \<open>
  The outer loop over the reads of the socket: \<open>Ok []\<close> is the end of the stream. When
  the list of reads is used up the reader waits for more.
\<close>

fun read_frames ::
  "(u8 list \<Rightarrow> (FrameError, 'f) result) \<Rightarrow> nat \<Rightarrow> u8 list \<Rightarrow> (io_error, u8 list) result list \<Rightarrow> 'f ReadEvent list" where
  "read_frames parse max_frame_bytes buffer [] = fst (drain_frames parse max_frame_bytes buffer)"
| "read_frames parse max_frame_bytes buffer (r # reads) =
     (case drain_frames parse max_frame_bytes buffer of
        (es, None) \<Rightarrow> es
      | (es, Some buffer') \<Rightarrow>
          es @ (case r of
                  Err e \<Rightarrow> [EvFailed (conn_io e)]
                | Ok bytes \<Rightarrow>
                    if bytes = []
                    then [if buffer' = [] then EvClosed else EvFailed (conn_closed ''stream ended inside a frame'')]
                    else read_frames parse max_frame_bytes (buffer' @ bytes) reads))"

lemma take_frame_append:
  "take_frame n a = Err e \<Longrightarrow> take_frame n (a @ b) = Err e"
  "take_frame n a = Ok (Some (payload, rest)) \<Longrightarrow> take_frame n (a @ b) = Ok (Some (payload, rest @ b))"
  by (auto simp: take_frame_def Let_def split: if_splits)

text \<open>What a buffer holds is read the same whether its end has arrived yet or not.\<close>

lemma drain_frames_append:
  "drain_frames parse n (a @ b) =
     (case drain_frames parse n a of
        (es, None) \<Rightarrow> (es, None)
      | (es, Some rest) \<Rightarrow> (let (es', r) = drain_frames parse n (rest @ b) in (es @ es', r)))"
proof (induction parse n a rule: drain_frames.induct)
  case (1 parse n a)
  show ?case
  proof (cases "take_frame n a")
    case (Inl e)
    then show ?thesis
      by (subst (1 2) drain_frames.simps) (simp add: take_frame_append)
  next
    case (Inr o')
    show ?thesis
    proof (cases o')
      case None
      then show ?thesis using Inr by (subst (2) drain_frames.simps) simp
    next
      case (Some pr)
      obtain payload rest where pr: "pr = (payload, rest)" by fastforce
      note t = Inr[unfolded Some pr]
      show ?thesis
      proof (cases "parse payload")
        case (Inl e)
        then show ?thesis using t by (subst (1 2) drain_frames.simps) (simp add: take_frame_append)
      next
        case (Inr f)
        note IH = 1[OF t refl refl Inr]
        show ?thesis
          using t Inr IH
          by (subst (1 2) drain_frames.simps) (simp add: take_frame_append Let_def split: prod.splits option.splits)
      qed
    qed
  qed
qed

text \<open>A reader sees the same frames however the bytes are cut into reads.\<close>

lemma read_frames_chunks:
  assumes "[] \<notin> set chunks"
  shows "read_frames parse n buffer (map Ok chunks @ [Ok []]) =
    read_frames parse n [] ((if buffer @ concat chunks = [] then [] else [Ok (buffer @ concat chunks)]) @ [Ok []])"
  using assms
proof (induction chunks arbitrary: buffer)
  case Nil
  have "drain_frames parse n [] = ([], Some [])"
    by (simp add: drain_frames.simps take_frame_def PREFIX_BYTES_def)
  then show ?case by auto
next
  case (Cons c cs)
  have e: "drain_frames parse n [] = ([], Some [])"
    by (simp add: drain_frames.simps take_frame_def PREFIX_BYTES_def)
  obtain es r where d: "drain_frames parse n buffer = (es, r)" by fastforce
  show ?case
  proof (cases r)
    case None
    then show ?thesis using d e drain_frames_append[of parse n buffer "c @ concat cs"] Cons.prems by auto
  next
    case (Some rest)
    then show ?thesis
      using d e Cons drain_frames_append[of parse n buffer "c @ concat cs"]
      by (auto split: prod.splits option.splits)
  qed
qed

subsection \<open>Writing\<close>

text \<open>
  The operations performed on the socket. \<open>io n\<close> is the outcome of operation number \<open>n\<close>:
  \<open>None\<close> when it succeeds. \<open>ready\<close> lists the outcomes of \<open>try_recv\<close>: whether the next
  queued frame has already arrived when the writer asks.
\<close>

datatype io_op = IoWrite "u8 list" | IoFlush | IoShutdown

type_synonym io_outcome = "nat \<Rightarrow> io_error option"

definition io_do :: "io_outcome \<Rightarrow> io_op \<Rightarrow> io_op list \<Rightarrow> (ConnectionError, io_op list) result" where
  "io_do io op out = (case io (length out) of Some e \<Rightarrow> Err (conn_io e) | None \<Rightarrow> Ok (out @ [op]))"

text \<open>Prefix and header of a frame go into the batch; a large body is written from its own memory.\<close>

definition append_frame ::
  "('f \<Rightarrow> nat) \<Rightarrow> ('f \<Rightarrow> u8 list \<times> u8 list) \<Rightarrow> FrameConfig \<Rightarrow> io_outcome \<Rightarrow> 'f \<Rightarrow> u8 list \<Rightarrow> io_op list
   \<Rightarrow> (ConnectionError \<times> io_op list, u8 list \<times> io_op list) result" where
  "append_frame payload_len split_header cfg io frame batch out =
     (let n = payload_len frame
      in if n > fc_max_frame_bytes cfg then Err (conn_frame_too_large n (fc_max_frame_bytes cfg), out)
         else
           (case split_header frame of
              (header, body) \<Rightarrow>
                let batch1 = batch @ put_u32 (of_nat n) @ header
                in if length body \<ge> fc_max_batch_bytes cfg
                   then (case io_do io (IoWrite batch1) out of
                           Err e \<Rightarrow> Err (e, out)
                         | Ok out1 \<Rightarrow>
                             (case io_do io (IoWrite body) out1 of
                                Err e \<Rightarrow> Err (e, out1)
                              | Ok out2 \<Rightarrow> Ok ([], out2)))
                   else Ok (batch1 @ body, out)))"

text \<open>One wake-up of the writer: it takes queued frames until the batch is full or none is waiting.\<close>

fun write_batch ::
  "('f \<Rightarrow> nat) \<Rightarrow> ('f \<Rightarrow> u8 list \<times> u8 list) \<Rightarrow> FrameConfig \<Rightarrow> io_outcome \<Rightarrow> bool list \<Rightarrow> nat \<Rightarrow> u8 list \<Rightarrow> io_op list
   \<Rightarrow> 'f list \<Rightarrow> (ConnectionError \<times> io_op list, u8 list \<times> io_op list \<times> 'f list \<times> bool list) result" where
  "write_batch payload_len split_header cfg io ready count batch out [] = Ok (batch, out, [], ready)"
| "write_batch payload_len split_header cfg io ready count batch out (frame # queue) =
     (case append_frame payload_len split_header cfg io frame batch out of
        Err e \<Rightarrow> Err e
      | Ok (batch1, out1) \<Rightarrow>
          if count + 1 \<ge> fc_max_batch_frames cfg \<or> length batch1 \<ge> fc_max_batch_bytes cfg
          then Ok (batch1, out1, queue, ready)
          else
            (case ready of
               True # ms \<Rightarrow> write_batch payload_len split_header cfg io ms (count + 1) batch1 out1 queue
             | _ \<Rightarrow> Ok (batch1, out1, queue, drop 1 ready)))"

lemma write_batch_shorter:
  "write_batch pl sh cfg io ready count batch out queue = Ok (batch', out', queue', ready') \<Longrightarrow>
     length queue' \<le> length queue \<and> (queue \<noteq> [] \<longrightarrow> length queue' < length queue)"
proof (induction pl sh cfg io ready count batch out queue rule: write_batch.induct)
  case (2 pl sh cfg io ready count batch out frame queue)
  then show ?case by (fastforce split: sum.splits prod.splits if_splits list.splits bool.splits)
qed simp

text \<open>The writer until the queue closes; \<open>queue\<close> holds the frames in the order they are sent.\<close>

function write_frames ::
  "('f \<Rightarrow> nat) \<Rightarrow> ('f \<Rightarrow> u8 list \<times> u8 list) \<Rightarrow> FrameConfig \<Rightarrow> io_outcome \<Rightarrow> bool list \<Rightarrow> io_op list \<Rightarrow> 'f list
   \<Rightarrow> io_op list \<times> (ConnectionError, unit) result" where
  "write_frames payload_len split_header cfg io ready out queue =
     (if queue = []
      then (case io_do io IoShutdown out of Err e \<Rightarrow> (out, Err e) | Ok out1 \<Rightarrow> (out1, Ok ()))
      else
        (case write_batch payload_len split_header cfg io ready 0 [] out queue of
           Err (e, out1) \<Rightarrow> (out1, Err e)
         | Ok (batch, out1, queue1, ready1) \<Rightarrow>
             (case (if batch = [] then Ok out1 else io_do io (IoWrite batch) out1) of
                Err e \<Rightarrow> (out1, Err e)
              | Ok out2 \<Rightarrow>
                  (case io_do io IoFlush out2 of
                     Err e \<Rightarrow> (out2, Err e)
                   | Ok out3 \<Rightarrow> write_frames payload_len split_header cfg io ready1 out3 queue1))))"
  by pat_completeness auto
termination
  by (relation "measure (\<lambda>(pl, sh, cfg, io, ready, out, queue). length queue)") (auto dest: write_batch_shorter)

declare write_frames.simps [simp del]

fun op_bytes :: "io_op \<Rightarrow> u8 list" where
  "op_bytes (IoWrite bs) = bs"
| "op_bytes _ = []"

definition written :: "io_op list \<Rightarrow> u8 list" where
  "written ops = concat (map op_bytes ops)"

definition encode_frame :: "('f \<Rightarrow> nat) \<Rightarrow> ('f \<Rightarrow> u8 list \<times> u8 list) \<Rightarrow> 'f \<Rightarrow> u8 list" where
  "encode_frame pl sh f = put_u32 (of_nat (pl f)) @ fst (sh f) @ snd (sh f)"

lemma encode_frame_ne [simp]: "encode_frame pl sh f \<noteq> []"
proof -
  have "put_u32 w \<noteq> []" for w by (metis length_put(1) list.size(3) zero_neq_numeral)
  then show ?thesis by (simp add: encode_frame_def)
qed

lemma written_simps [simp]: "written [] = []" "written (xs @ ys) = written xs @ written ys"
  "written (op # ys) = op_bytes op @ written ys"
  by (simp_all add: written_def)

lemma append_frame_Ok:
  "append_frame pl sh cfg io f batch out = Ok (batch', out') \<Longrightarrow>
     written out' @ batch' = written out @ batch @ encode_frame pl sh f \<and> pl f \<le> fc_max_frame_bytes cfg"
  by (auto simp: append_frame_def encode_frame_def io_do_def Let_def split: if_splits prod.splits option.splits)

lemma append_frame_total:
  "pl f \<le> fc_max_frame_bytes cfg \<Longrightarrow> \<exists>batch' out'. append_frame pl sh cfg (\<lambda>_. None) f batch out = Ok (batch', out')"
  by (auto simp: append_frame_def io_do_def Let_def split: prod.splits)

lemma write_batch_Ok:
  "write_batch pl sh cfg io ready count batch out queue = Ok (batch', out', queue', ready') \<Longrightarrow>
     \<exists>done. queue = done @ queue' \<and> written out' @ batch' = written out @ batch @ concat (map (encode_frame pl sh) done)"
proof (induction pl sh cfg io ready count batch out queue rule: write_batch.induct)
  case (2 pl sh cfg io ready count batch out frame queue)
  obtain batch1 out1 where a: "append_frame pl sh cfg io frame batch out = Ok (batch1, out1)"
    using "2.prems" by (auto split: sum.splits)
  note enc = append_frame_Ok[OF a, THEN conjunct1]
  show ?case
  proof (cases "count + 1 \<ge> fc_max_batch_frames cfg \<or> length batch1 \<ge> fc_max_batch_bytes cfg \<or> take 1 ready \<noteq> [True]")
    case True
    then have "batch' = batch1 \<and> out' = out1 \<and> queue' = queue"
      using "2.prems" a by (auto split: if_splits list.splits bool.splits)
    then show ?thesis using enc by (intro exI[of _ "[frame]"]) simp
  next
    case False
    then obtain ms where m: "ready = True # ms" by (cases ready) auto
    have "write_batch pl sh cfg io ms (count + 1) batch1 out1 queue = Ok (batch', out', queue', ready')"
      using "2.prems" a m False by simp
    from "2.IH"[OF a refl _ m _ this] False obtain dn where "queue = dn @ queue'"
      "written out' @ batch' = written out1 @ batch1 @ concat (map (encode_frame pl sh) dn)" by auto
    then show ?thesis using enc by (intro exI[of _ "frame # dn"]) simp
  qed
qed auto

lemma write_batch_total:
  "list_all (\<lambda>f. pl f \<le> fc_max_frame_bytes cfg) queue \<Longrightarrow>
     \<exists>batch' out' queue' ready'. write_batch pl sh cfg (\<lambda>_. None) ready count batch out queue = Ok (batch', out', queue', ready')"
proof (induction queue arbitrary: ready count batch out)
  case (Cons frame queue)
  obtain batch1 out1 where a: "append_frame pl sh cfg (\<lambda>_. None) frame batch out = Ok (batch1, out1)"
    using append_frame_total[of pl frame cfg sh batch out] Cons.prems by auto
  show ?case using Cons a by (auto split: list.splits bool.splits)
qed simp

lemma write_frames_Ok:
  assumes "write_frames pl sh cfg io ready out queue = (out', Ok ())"
  shows "written out' = written out @ concat (map (encode_frame pl sh) queue)"
  using assms
proof (induction pl sh cfg io ready out queue rule: write_frames.induct)
  case (1 pl sh cfg io ready out queue)
  show ?case
  proof (cases "queue = []")
    case True
    then show ?thesis
      using "1.prems" by (auto simp: write_frames.simps[of pl sh cfg io ready out] io_do_def split: option.splits)
  next
    case False
    obtain batch out1 queue1 ready1 where b: "write_batch pl sh cfg io ready 0 [] out queue = Ok (batch, out1, queue1, ready1)"
      using "1.prems" False by (auto simp: write_frames.simps[of pl sh cfg io ready out] split: sum.splits)
    obtain out2 where o2: "(if batch = [] then Ok out1 else io_do io (IoWrite batch) out1) = Ok out2"
      using "1.prems" False b by (auto simp: write_frames.simps[of pl sh cfg io ready out] split: sum.splits)
    obtain out3 where o3: "io_do io IoFlush out2 = Ok out3"
      using "1.prems" False b o2 by (auto simp: write_frames.simps[of pl sh cfg io ready out] split: sum.splits)
    have "write_frames pl sh cfg io ready1 out3 queue1 = (out', Ok ())"
      using "1.prems" False b o2 o3 by (simp add: write_frames.simps[of pl sh cfg io ready out])
    from "1.IH"[OF False b refl refl refl o2 o3 this]
    have w: "written out' = written out3 @ concat (map (encode_frame pl sh) queue1)" .
    have "written out3 = written out1 @ batch"
      using o2 o3 by (auto simp: io_do_def split: if_splits option.splits)
    with w write_batch_Ok[OF b] show ?thesis by auto
  qed
qed

lemma write_frames_total:
  assumes "list_all (\<lambda>f. pl f \<le> fc_max_frame_bytes cfg) queue"
  shows "snd (write_frames pl sh cfg (\<lambda>_. None) ready out queue) = Ok ()"
  using assms
proof (induction "length queue" arbitrary: ready out queue rule: less_induct)
  case less
  show ?case
  proof (cases "queue = []")
    case True
    then show ?thesis by (simp add: write_frames.simps io_do_def)
  next
    case False
    obtain batch out1 queue1 ready1 where
      b: "write_batch pl sh cfg (\<lambda>_. None) ready 0 [] out queue = Ok (batch, out1, queue1, ready1)"
      using write_batch_total[OF less.prems] by blast
    then have "length queue1 < length queue" "list_all (\<lambda>f. pl f \<le> fc_max_frame_bytes cfg) queue1"
      using write_batch_shorter[OF b] write_batch_Ok[OF b] less.prems False by auto
    from less.hyps[OF this] show ?thesis
      using False b by (subst write_frames.simps) (simp add: io_do_def)
  qed
qed

subsection \<open>The frame interface\<close>

text \<open>What the writer and the reader rely on: a frame that is \<open>ok\<close> parses back from its own bytes.\<close>

locale wire_frame =
  fixes payload_len :: "'f \<Rightarrow> nat" and split_header :: "'f \<Rightarrow> u8 list \<times> u8 list"
    and parse :: "u8 list \<Rightarrow> (FrameError, 'f) result" and ok :: "'f \<Rightarrow> bool"
  assumes payload_len: "ok f \<Longrightarrow> payload_len f = length (fst (split_header f)) + length (snd (split_header f))"
    and parse_split: "ok f \<Longrightarrow> parse (fst (split_header f) @ snd (split_header f)) = Ok f"
begin

lemma take_frame_encode:
  assumes "ok f" "payload_len f \<le> n" "n < 2 ^ 32"
  shows "take_frame n (encode_frame payload_len split_header f @ rest) =
    Ok (Some (fst (split_header f) @ snd (split_header f), rest))"
proof -
  have "unat (of_nat (payload_len f) :: u32) = payload_len f"
    using assms(2,3) by (simp add: unsigned_of_nat take_bit_nat_eq_self)
  then have "u32_from_be_bytes (put_u32 (of_nat (payload_len f))) = payload_len f" by simp
  then show ?thesis
    using assms payload_len[OF assms(1)]
    by (simp add: take_frame_def encode_frame_def PREFIX_BYTES_def Let_def)
qed

lemma drain_encoded:
  assumes "list_all ok fs" "list_all (\<lambda>f. payload_len f \<le> n) fs" "n < 2 ^ 32"
  shows "drain_frames parse n (concat (map (encode_frame payload_len split_header) fs)) = (map EvFrame fs, Some [])"
  using assms(1,2)
proof (induction fs)
  case Nil
  show ?case by (simp add: drain_frames.simps take_frame_def PREFIX_BYTES_def)
next
  case (Cons f fs)
  then show ?case
    using take_frame_encode[of f n] assms(3) by (subst drain_frames.simps) (simp add: parse_split)
qed

lemma stream_roundtrip:
  assumes "list_all ok fs" "list_all (\<lambda>f. payload_len f \<le> fc_max_frame_bytes cfg) fs"
    and "validate_frame_config cfg = Ok ()"
    and "[] \<notin> set chunks" "concat chunks = written (fst (write_frames payload_len split_header cfg (\<lambda>_. None) ready [] fs))"
  shows "snd (write_frames payload_len split_header cfg (\<lambda>_. None) ready [] fs) = Ok () \<and>
    read_frames parse (fc_max_frame_bytes cfg) [] (map Ok chunks @ [Ok []]) = map EvFrame fs @ [EvClosed]"
proof -
  have n: "fc_max_frame_bytes cfg < 2 ^ 32"
    using assms(3) by (auto simp: validate_frame_config_def split: if_splits)
  have t: "snd (write_frames payload_len split_header cfg (\<lambda>_. None) ready [] fs) = Ok ()"
    by (rule write_frames_total[OF assms(2)])
  let ?ops = "fst (write_frames payload_len split_header cfg (\<lambda>_. None) ready [] fs)"
  have "write_frames payload_len split_header cfg (\<lambda>_. None) ready [] fs = (?ops, Ok ())"
    using t by (simp add: prod_eq_iff)
  from write_frames_Ok[OF this] assms(5)
  have "concat chunks = concat (map (encode_frame payload_len split_header) fs)" by simp
  then show ?thesis
    using t read_frames_chunks[OF assms(4), of parse "fc_max_frame_bytes cfg" "[]"] drain_encoded[OF assms(1,2) n]
      drain_encoded[of "[]", OF _ _ n]
    by (cases fs) auto
qed

end

fun client_frame_ok :: "ClientFrame \<Rightarrow> bool" where
  "client_frame_ok (FRequest i t tr body) \<longleftrightarrow> length tr = 16"
| "client_frame_ok (FCancel i) \<longleftrightarrow> True"

interpretation client_wire: wire_frame client_payload_len client_split_header client_parse client_frame_ok
proof
  fix f
  assume "client_frame_ok f"
  then show "client_payload_len f = length (fst (client_split_header f)) + length (snd (client_split_header f))"
    "client_parse (fst (client_split_header f) @ snd (client_split_header f)) = Ok f"
    by (cases f; simp add: client_parse_header client_parse_cancel; simp add: wire_consts)+
qed

interpretation server_wire: wire_frame server_payload_len server_split_header server_parse "\<lambda>_. True"
proof
  fix f
  show "server_payload_len f = length (fst (server_split_header f)) + length (snd (server_split_header f))"
    "server_parse (fst (server_split_header f) @ snd (server_split_header f)) = Ok f"
    by (cases f; simp add: server_parse_header; simp add: wire_consts)+
qed

text \<open>
  C32: Requests and cancellations survive the wire. Over a socket without I/O errors the
  writer sends every frame within the limit and returns, however the frames arrive at
  it and however it batches them; and a reader with the same limit hands over exactly
  these frames in this order, then the end of the stream, however the bytes are cut
  into reads.
\<close>
theorem client_stream_roundtrip:
  assumes "list_all client_frame_ok fs" "list_all (\<lambda>f. client_payload_len f \<le> fc_max_frame_bytes cfg) fs"
    and "validate_frame_config cfg = Ok ()" "[] \<notin> set chunks"
    and "concat chunks = written (fst (write_frames client_payload_len client_split_header cfg (\<lambda>_. None) ready [] fs))"
  shows "snd (write_frames client_payload_len client_split_header cfg (\<lambda>_. None) ready [] fs) = Ok () \<and>
    read_frames client_parse (fc_max_frame_bytes cfg) [] (map Ok chunks @ [Ok []]) = map EvFrame fs @ [EvClosed]"
  using assms by (rule client_wire.stream_roundtrip)

text \<open>
  Responses survive the wire in the same way: every status code and body the server
  sends is the one the client reads, and success is never mistaken for a failure.
\<close>
theorem server_stream_roundtrip:
  assumes "list_all (\<lambda>f. server_payload_len f \<le> fc_max_frame_bytes cfg) fs"
    and "validate_frame_config cfg = Ok ()" "[] \<notin> set chunks"
    and "concat chunks = written (fst (write_frames server_payload_len server_split_header cfg (\<lambda>_. None) ready [] fs))"
  shows "snd (write_frames server_payload_len server_split_header cfg (\<lambda>_. None) ready [] fs) = Ok () \<and>
    read_frames server_parse (fc_max_frame_bytes cfg) [] (map Ok chunks @ [Ok []]) = map EvFrame fs @ [EvClosed]"
  using assms by (intro server_wire.stream_roundtrip) (simp_all add: list_all_iff)

definition small_config :: FrameConfig where
  "small_config = \<lparr>fc_max_frame_bytes = 40, fc_initial_buffer_bytes = 1, fc_read_chunk_bytes = 1,
     fc_max_batch_frames = 2, fc_max_batch_bytes = 4\<rparr>"

definition sample_frames :: "ClientFrame list" where
  "sample_frames = [FRequest 7 1000 (replicate 16 9) [1, 2, 3, 4, 5], FCancel 7]"

definition sample_bytes :: "u8 list" where
  "sample_bytes = written (fst (write_frames client_payload_len client_split_header small_config (\<lambda>_. None) [True] []
     sample_frames))"

lemma sample_bytes_eq: "sample_bytes = concat (map (encode_frame client_payload_len client_split_header) sample_frames)"
proof -
  have fits: "list_all (\<lambda>f. client_payload_len f \<le> fc_max_frame_bytes small_config) sample_frames"
    by (simp add: sample_frames_def small_config_def wire_consts)
  have "write_frames client_payload_len client_split_header small_config (\<lambda>_. None) [True] [] sample_frames =
      (fst (write_frames client_payload_len client_split_header small_config (\<lambda>_. None) [True] [] sample_frames), Ok ())"
    using write_frames_total[OF fits] by (simp add: prod_eq_iff)
  from write_frames_Ok[OF this] show ?thesis by (simp add: sample_bytes_def)
qed

text \<open>Two frames, the first with a body beyond the batch size, read back in three pieces.\<close>

theorem client_stream_roundtrip_witness:
  "read_frames client_parse 40 [] [Ok (take 3 sample_bytes), Ok (take 20 (drop 3 sample_bytes)),
     Ok (drop 23 sample_bytes), Ok []] = map EvFrame sample_frames @ [EvClosed]"
proof -
  let ?cs = "[take 3 sample_bytes, take 20 (drop 3 sample_bytes), drop 23 sample_bytes]"
  have "length sample_bytes = 55"
    by (simp add: sample_bytes_eq encode_frame_def sample_frames_def)
  then have "[] \<notin> set ?cs" by auto
  moreover have "list_all client_frame_ok sample_frames"
    "list_all (\<lambda>f. client_payload_len f \<le> fc_max_frame_bytes small_config) sample_frames"
    "validate_frame_config small_config = Ok ()"
    by (simp_all add: sample_frames_def small_config_def wire_consts validate_frame_config_def)
  moreover have "concat ?cs = sample_bytes"
  proof -
    have "take 20 (drop 3 sample_bytes) @ drop 23 sample_bytes = drop 3 sample_bytes"
      using append_take_drop_id[of 20 "drop 3 sample_bytes"] by simp
    then show ?thesis by simp
  qed
  ultimately show ?thesis
    using client_stream_roundtrip[of sample_frames small_config ?cs "[True]"]
    by (simp add: small_config_def sample_bytes_def)
qed

theorem server_stream_roundtrip_witness:
  "read_frames server_parse 40 [] [Ok (written (fst (write_frames server_payload_len server_split_header small_config
     (\<lambda>_. None) [] [] [FResponse 7 (Some CodeUnavailable) [1]]))), Ok []] =
   [EvFrame (FResponse 7 (Some CodeUnavailable) [1]), EvClosed]"
proof -
  let ?f = "[FResponse 7 (Some CodeUnavailable) [1]]"
  let ?w = "write_frames server_payload_len server_split_header small_config (\<lambda>_. None) [] [] ?f"
  have ok: "list_all (\<lambda>f. server_payload_len f \<le> fc_max_frame_bytes small_config) ?f"
    "validate_frame_config small_config = Ok ()"
    by (simp_all add: small_config_def wire_consts validate_frame_config_def)
  have "?w = (fst ?w, Ok ())" using write_frames_total[OF ok(1)] by (simp add: prod_eq_iff)
  from write_frames_Ok[OF this] have "written (fst ?w) \<noteq> []" by simp
  with server_stream_roundtrip[OF ok, of "[written (fst ?w)]" "[]"] show ?thesis by (simp add: small_config_def)
qed

end
