(* ===== verification/Rpc_Client.thy ===== *)
theory Rpc_Client
  imports Rpc_Wire Rust_Collections "HOL-Library.Multiset"
begin

text \<open>
  The multiplexed RPC client of \<open>crates/nagisalake-rpc/src/client.rs\<close>: the two halves of
  \<open>Client::call\<close> that run on the caller's task and the dispatcher, which owns the calls in
  flight. A branch of its \<open>select!\<close> is an event; the run of the dispatcher is a list of
  events. A \<open>oneshot\<close> channel is a number: the dispatcher sends one answer on it or drops it.
\<close>

subsection \<open>Statuses, errors and contexts\<close>

record RpcStatus =
  rs_code :: Code
  rs_message :: string

definition status_deadline_exceeded :: RpcStatus where
  "status_deadline_exceeded = \<lparr>rs_code = CodeDeadlineExceeded, rs_message = ''request deadline exceeded''\<rparr>"

definition status_resource_exhausted :: RpcStatus where
  "status_resource_exhausted = \<lparr>rs_code = CodeResourceExhausted, rs_message = ''server request capacity exhausted''\<rparr>"

definition status_duplicate_request_id :: RpcStatus where
  "status_duplicate_request_id = \<lparr>rs_code = CodeAlreadyExists, rs_message = ''request id is already in flight''\<rparr>"

definition status_internal :: "string \<Rightarrow> RpcStatus" where
  "status_internal detail = \<lparr>rs_code = CodeInternal, rs_message = detail\<rparr>"

definition status_invalid_argument :: "string \<Rightarrow> RpcStatus" where
  "status_invalid_argument detail = \<lparr>rs_code = CodeInvalidArgument, rs_message = detail\<rparr>"

definition status_timeout_too_large :: RpcStatus where
  "status_timeout_too_large =
     \<lparr>rs_code = CodeInvalidArgument, rs_message = ''request timeout exceeds the server limit''\<rparr>"

definition status_from_wire :: "Code \<Rightarrow> u8 list \<Rightarrow> RpcStatus" where
  "status_from_wire code message = \<lparr>rs_code = code, rs_message = from_utf8_lossy message\<rparr>"

definition into_wire_message :: "RpcStatus \<Rightarrow> u8 list" where
  "into_wire_message s = as_bytes (rs_message s)"

datatype CodecError = CodecEncode string | CodecDecode string

datatype RpcError =
    RpcCodec CodecError
  | RequestTooLarge nat nat
  | RpcDeadlineExceeded
  | RpcRemote RpcStatus
  | RpcConnection ConnectionError
  | RpcShutdown

text \<open>Instants are nanoseconds; a deadline crosses the wire as the remaining microseconds.\<close>

record ClientContext =
  cx_deadline :: nat
  cx_trace_id :: TraceId

definition remaining_micros :: "nat \<Rightarrow> ClientContext \<Rightarrow> u64" where
  "remaining_micros now cx =
     (let remaining = cx_deadline cx - now
      in if remaining = 0 then 0 else of_nat (min (remaining div 1000) (2 ^ 64 - 1)))"

record ClientConfig =
  cc_pending_request_buffer :: nat
  cc_max_in_flight_requests :: nat
  cc_outbound_frame_buffer :: nat
  cc_inbound_frame_buffer :: nat
  cc_frame :: FrameConfig

definition ClientConfig_default :: ClientConfig where
  "ClientConfig_default =
     \<lparr>cc_pending_request_buffer = 256, cc_max_in_flight_requests = 1024, cc_outbound_frame_buffer = 256,
      cc_inbound_frame_buffer = 256, cc_frame = FrameConfig_default\<rparr>"

definition validate_client_config :: "ClientConfig \<Rightarrow> (ConfigError, unit) result" where
  "validate_client_config c =
     (if cc_pending_request_buffer c = 0 then Err (CfgZero ''pending_request_buffer'')
      else if cc_max_in_flight_requests c = 0 then Err (CfgZero ''max_in_flight_requests'')
      else if cc_outbound_frame_buffer c = 0 then Err (CfgZero ''outbound_frame_buffer'')
      else if cc_inbound_frame_buffer c = 0 then Err (CfgZero ''inbound_frame_buffer'')
      else validate_frame_config (cc_frame c))"

subsection \<open>A call on the caller's task\<close>

text \<open>
  \<open>enc\<close> and \<open>dec\<close> are the codec of the connection. The first half encodes the request,
  checks its size and draws an id from the shared counter; the second half turns the
  answer of the dispatcher into the result of the call.
\<close>

definition max_body_bytes :: "FrameConfig \<Rightarrow> nat" where
  "max_body_bytes c = fc_max_frame_bytes c - REQUEST_HEADER_LEN"

definition call_start ::
  "('q \<Rightarrow> (CodecError, u8 list) result) \<Rightarrow> FrameConfig \<Rightarrow> 'q \<Rightarrow> u64 \<Rightarrow> u64 \<times> (RpcError, u64 \<times> u8 list) result" where
  "call_start enc c request next_id =
     (case enc request of
        Err e \<Rightarrow> (next_id, Err (RpcCodec e))
      | Ok body \<Rightarrow>
          if length body > max_body_bytes c then (next_id, Err (RequestTooLarge (length body) (max_body_bytes c)))
          else (next_id + 1, Ok (next_id, body)))"

type_synonym ResponseSlot = "(RpcError, (RpcStatus, u8 list) result) result"

text \<open>\<open>None\<close>: the dispatcher dropped the sender.\<close>

definition call_finish :: "(u8 list \<Rightarrow> (CodecError, 'r) result) \<Rightarrow> ResponseSlot option \<Rightarrow> (RpcError, 'r) result" where
  "call_finish dec slot =
     (case slot of
        None \<Rightarrow> Err RpcShutdown
      | Some (Err e) \<Rightarrow> Err e
      | Some (Ok (Err status)) \<Rightarrow> Err (RpcRemote status)
      | Some (Ok (Ok body)) \<Rightarrow> (case dec body of Err e \<Rightarrow> Err (RpcCodec e) | Ok r \<Rightarrow> Ok r))"

subsection \<open>The dispatcher\<close>

type_synonym oneshot = nat
type_synonym delay_key = nat

record DispatchRequest =
  rq_context :: ClientContext
  rq_request_id :: u64
  rq_body :: "u8 list"
  rq_response :: oneshot

record Pending =
  pd_response :: oneshot
  pd_deadline_key :: delay_key

record Dispatcher =
  dp_accepting :: bool
  dp_in_flight :: "(u64, Pending) hash_map"
  dp_deadlines :: "(delay_key, u64 \<times> nat) hash_map"
  dp_next_key :: delay_key
  dp_outgoing :: "ClientFrame list"
  dp_answers :: "(oneshot \<times> ResponseSlot) list"
  dp_dropped :: "oneshot list"

datatype writer_exit = WriterDone | WriterFailed ConnectionError | WriterPanicked string

text \<open>
  The branches of the \<open>select!\<close>. \<open>gone\<close> tells whether the caller has given up, \<open>now\<close> is
  the clock, and \<open>sent\<close> whether the writer still takes frames.
\<close>

datatype select_event =
    SelRequest (sel_request: DispatchRequest) (sel_closed: bool) (sel_now: nat) (sel_sent: bool)
  | SelRequestsClosed
  | SelCancel u64 bool
  | SelCancelsClosed
  | SelIncoming "ServerFrame ReadEvent option"
  | SelExpired delay_key bool
  | SelWriter writer_exit

datatype dispatch_next = Continue Dispatcher | Break Dispatcher "ConnectionError option" | Panic

definition writer_stopped :: ConnectionError where
  "writer_stopped = conn_closed ''RPC writer stopped''"

definition send_frame :: "ClientFrame \<Rightarrow> bool \<Rightarrow> Dispatcher \<Rightarrow> dispatch_next" where
  "send_frame f sent d =
     (if sent then Continue (d\<lparr>dp_outgoing := dp_outgoing d @ [f]\<rparr>) else Break d (Some writer_stopped))"

definition answer :: "oneshot \<Rightarrow> ResponseSlot \<Rightarrow> Dispatcher \<Rightarrow> Dispatcher" where
  "answer c slot d = d\<lparr>dp_answers := dp_answers d @ [(c, slot)]\<rparr>"

text \<open>\<open>DelayQueue::remove\<close> panics when the key is not in the queue.\<close>

definition remove_deadline :: "delay_key \<Rightarrow> Dispatcher \<Rightarrow> Dispatcher option" where
  "remove_deadline k d =
     (if hm_contains (dp_deadlines d) k then Some (d\<lparr>dp_deadlines := hm_remove k (dp_deadlines d)\<rparr>) else None)"

definition admit :: "DispatchRequest \<Rightarrow> Dispatcher \<Rightarrow> Dispatcher" where
  "admit rq d =
     (let k = dp_next_key d;
          replaced = (case hm_get (dp_in_flight d) (rq_request_id rq) of None \<Rightarrow> [] | Some p \<Rightarrow> [pd_response p])
      in d\<lparr>dp_next_key := k + 1,
           dp_deadlines := hm_insert k (rq_request_id rq, cx_deadline (rq_context rq)) (dp_deadlines d),
           dp_in_flight := hm_insert (rq_request_id rq) \<lparr>pd_response = rq_response rq, pd_deadline_key = k\<rparr>
             (dp_in_flight d),
           dp_dropped := dp_dropped d @ replaced\<rparr>)"

definition on_request :: "DispatchRequest \<Rightarrow> bool \<Rightarrow> nat \<Rightarrow> bool \<Rightarrow> Dispatcher \<Rightarrow> dispatch_next" where
  "on_request rq gone now sent d =
     (if gone then Continue (d\<lparr>dp_dropped := dp_dropped d @ [rq_response rq]\<rparr>)
      else
        let timeout_micros = remaining_micros now (rq_context rq)
        in if timeout_micros = 0 then Continue (answer (rq_response rq) (Err RpcDeadlineExceeded) d)
           else send_frame (FRequest (rq_request_id rq) timeout_micros (cx_trace_id (rq_context rq)) (rq_body rq)) sent
                  (admit rq d))"

definition on_cancel :: "u64 \<Rightarrow> bool \<Rightarrow> Dispatcher \<Rightarrow> dispatch_next" where
  "on_cancel i sent d =
     (case hm_get (dp_in_flight d) i of
        None \<Rightarrow> Continue d
      | Some p \<Rightarrow>
          (case remove_deadline (pd_deadline_key p) (d\<lparr>dp_in_flight := hm_remove i (dp_in_flight d)\<rparr>) of
             None \<Rightarrow> Panic
           | Some d1 \<Rightarrow> send_frame (FCancel i) sent (d1\<lparr>dp_dropped := dp_dropped d1 @ [pd_response p]\<rparr>)))"

fun on_incoming :: "ServerFrame ReadEvent option \<Rightarrow> Dispatcher \<Rightarrow> dispatch_next" where
  "on_incoming (Some (EvFrame (FResponse i code body))) d =
     (case hm_get (dp_in_flight d) i of
        None \<Rightarrow> Continue d
      | Some p \<Rightarrow>
          (case remove_deadline (pd_deadline_key p) (d\<lparr>dp_in_flight := hm_remove i (dp_in_flight d)\<rparr>) of
             None \<Rightarrow> Panic
           | Some d1 \<Rightarrow>
               Continue (answer (pd_response p)
                 (Ok (case code of None \<Rightarrow> Ok body | Some c \<Rightarrow> Err (status_from_wire c body))) d1)))"
| "on_incoming (Some EvClosed) d = Break d (Some (conn_closed ''RPC peer closed the connection''))"
| "on_incoming None d = Break d (Some (conn_closed ''RPC peer closed the connection''))"
| "on_incoming (Some (EvFailed e)) d = Break d (Some e)"

definition on_expired :: "delay_key \<Rightarrow> bool \<Rightarrow> Dispatcher \<Rightarrow> dispatch_next" where
  "on_expired k sent d =
     (case hm_get (dp_deadlines d) k of
        None \<Rightarrow> Continue d
      | Some (i, _) \<Rightarrow>
          let d1 = d\<lparr>dp_deadlines := hm_remove k (dp_deadlines d)\<rparr>
          in (case hm_get (dp_in_flight d1) i of
                None \<Rightarrow> Continue d1
              | Some p \<Rightarrow>
                  send_frame (FCancel i) sent
                    (answer (pd_response p) (Err RpcDeadlineExceeded)
                       (d1\<lparr>dp_in_flight := hm_remove i (dp_in_flight d1)\<rparr>))))"

definition on_writer :: "writer_exit \<Rightarrow> Dispatcher \<Rightarrow> dispatch_next" where
  "on_writer w d =
     Break d (Some (case w of
        WriterDone \<Rightarrow> writer_stopped
      | WriterFailed e \<Rightarrow> e
      | WriterPanicked m \<Rightarrow> \<lparr>ce_kind = ConnRuntime, ce_detail = ''RPC writer task failed: '' @ m\<rparr>))"

text \<open>Which branches \<open>select!\<close> may take.\<close>

fun enabled :: "ClientConfig \<Rightarrow> select_event \<Rightarrow> Dispatcher \<Rightarrow> bool" where
  "enabled c (SelRequest rq gone now sent) d \<longleftrightarrow>
     dp_accepting d \<and> length (dp_in_flight d) < cc_max_in_flight_requests c"
| "enabled c SelRequestsClosed d \<longleftrightarrow> dp_accepting d \<and> length (dp_in_flight d) < cc_max_in_flight_requests c"
| "enabled c (SelExpired k sent) d \<longleftrightarrow> hm_contains (dp_deadlines d) k"
| "enabled c _ d \<longleftrightarrow> True"

fun dispatch_step :: "select_event \<Rightarrow> Dispatcher \<Rightarrow> dispatch_next" where
  "dispatch_step (SelRequest rq gone now sent) d = on_request rq gone now sent d"
| "dispatch_step SelRequestsClosed d = Continue (d\<lparr>dp_accepting := False\<rparr>)"
| "dispatch_step (SelCancel i sent) d = on_cancel i sent d"
| "dispatch_step SelCancelsClosed d = Continue d"
| "dispatch_step (SelIncoming ev) d = on_incoming ev d"
| "dispatch_step (SelExpired k sent) d = on_expired k sent d"
| "dispatch_step (SelWriter w) d = on_writer w d"

text \<open>
  The loop over a list of events that are enabled in turn. \<open>Continue\<close> at the end of the
  list: the dispatcher waits for the next event.
\<close>

fun dispatch_loop :: "ClientConfig \<Rightarrow> select_event list \<Rightarrow> Dispatcher \<Rightarrow> dispatch_next" where
  "dispatch_loop c [] d = (if \<not> dp_accepting d \<and> dp_in_flight d = [] then Break d None else Continue d)"
| "dispatch_loop c (ev # evs) d =
     (if \<not> dp_accepting d \<and> dp_in_flight d = [] then Break d None
      else
        (case dispatch_step ev d of
           Continue d1 \<Rightarrow> dispatch_loop c evs d1
         | Break d1 e \<Rightarrow> Break d1 e
         | Panic \<Rightarrow> Panic))"

fun enabled_run :: "ClientConfig \<Rightarrow> select_event list \<Rightarrow> Dispatcher \<Rightarrow> bool" where
  "enabled_run c [] d \<longleftrightarrow> True"
| "enabled_run c (ev # evs) d \<longleftrightarrow>
     (\<not> dp_accepting d \<and> dp_in_flight d = []) \<or>
     (enabled c ev d \<and> (case dispatch_step ev d of Continue d1 \<Rightarrow> enabled_run c evs d1 | _ \<Rightarrow> True))"

definition dispatcher_new :: Dispatcher where
  "dispatcher_new = \<lparr>dp_accepting = True, dp_in_flight = [], dp_deadlines = [], dp_next_key = 0, dp_outgoing = [],
     dp_answers = [], dp_dropped = []\<rparr>"

text \<open>After the loop: every call in flight and every queued one is told the error.\<close>

definition fail_pending :: "ConnectionError \<Rightarrow> DispatchRequest list \<Rightarrow> Dispatcher \<Rightarrow> Dispatcher" where
  "fail_pending e queued d =
     d\<lparr>dp_in_flight := [],
       dp_answers := dp_answers d @ map (\<lambda>(i, p). (pd_response p, Err (RpcConnection e))) (dp_in_flight d) @
         map (\<lambda>rq. (rq_response rq, Err (RpcConnection e))) queued\<rparr>"

definition dispatch ::
  "ClientConfig \<Rightarrow> select_event list \<Rightarrow> DispatchRequest list \<Rightarrow> Dispatcher
   \<Rightarrow> (Dispatcher \<times> (ConnectionError, unit) result) option" where
  "dispatch c evs queued d =
     (case dispatch_loop c evs d of
        Break d1 None \<Rightarrow> Some (d1, Ok ())
      | Break d1 (Some e) \<Rightarrow> Some (fail_pending e queued d1, Err e)
      | _ \<Rightarrow> None)"

subsection \<open>Hash maps as multisets of entries\<close>

lemma mset_hm_insert_new: "hm_get m k = None \<Longrightarrow> mset (hm_insert k v m) = add_mset (k, v) (mset m)"
  by (induction m) (auto simp: hm_insert_def hm_get_def split: if_splits)

lemma mset_hm_insert_old:
  "hm_get m k = Some u \<Longrightarrow> add_mset (k, u) (mset (hm_insert k v m)) = add_mset (k, v) (mset m)"
  by (induction m) (auto simp: hm_insert_def hm_get_def split: if_splits)

lemma mset_hm_remove: "hm_wf m \<Longrightarrow> hm_get m k = Some v \<Longrightarrow> mset m = add_mset (k, v) (mset (hm_remove k m))"
proof (induction m)
  case (Cons x m)
  show ?case
  proof (cases "fst x = k")
    case True
    then have "k \<notin> fst ` set m" using Cons.prems(1) by (auto simp: hm_wf_def)
    then have "filter (\<lambda>(k', _). k \<noteq> k') m = m"
      by (auto simp: filter_id_conv intro: rev_image_eqI)
    then show ?thesis using True Cons.prems(2) by (auto simp: hm_remove_def hm_get_def AList.delete_eq)
  next
    case False
    then show ?thesis using Cons by (cases x) (simp add: hm_remove_def hm_get_def hm_wf_def)
  qed
qed (simp add: hm_get_def)

lemma length_hm_remove: "length (hm_remove k m) \<le> length m"
  by (simp add: hm_remove_def AList.delete_eq)

lemma length_hm_insert: "length (hm_insert k v m) \<le> Suc (length m)"
  by (induction m) (auto simp: hm_insert_def)

subsection \<open>The invariant of the dispatcher\<close>

text \<open>Every call in flight has its own entry in the queue of deadlines.\<close>

definition dispatcher_ok :: "ClientConfig \<Rightarrow> Dispatcher \<Rightarrow> bool" where
  "dispatcher_ok c d \<longleftrightarrow>
     hm_wf (dp_in_flight d) \<and> hm_wf (dp_deadlines d) \<and> length (dp_in_flight d) \<le> cc_max_in_flight_requests c \<and>
     (\<forall>i p. hm_get (dp_in_flight d) i = Some p \<longrightarrow>
        (\<exists>t. hm_get (dp_deadlines d) (pd_deadline_key p) = Some (i, t))) \<and>
     (\<forall>k x. hm_get (dp_deadlines d) k = Some x \<longrightarrow> k < dp_next_key d)"

definition open_calls :: "Dispatcher \<Rightarrow> oneshot multiset" where
  "open_calls d = image_mset (\<lambda>(i, p). pd_response p) (mset (dp_in_flight d))"

text \<open>Every channel the dispatcher has taken: answered, in flight or dropped.\<close>

definition accounted :: "Dispatcher \<Rightarrow> oneshot multiset" where
  "accounted d = mset (map fst (dp_answers d)) + open_calls d + mset (dp_dropped d)"

fun taken :: "select_event \<Rightarrow> oneshot multiset" where
  "taken (SelRequest rq gone now sent) = {#rq_response rq#}"
| "taken _ = {#}"

fun next_ok :: "ClientConfig \<Rightarrow> oneshot multiset \<Rightarrow> dispatch_next \<Rightarrow> bool" where
  "next_ok c M (Continue d) \<longleftrightarrow> dispatcher_ok c d \<and> accounted d = M"
| "next_ok c M (Break d e) \<longleftrightarrow> dispatcher_ok c d \<and> accounted d = M"
| "next_ok c M Panic \<longleftrightarrow> False"

lemma dispatcher_new_ok [simp]: "dispatcher_ok c dispatcher_new" "accounted dispatcher_new = {#}"
  by (simp_all add: dispatcher_ok_def dispatcher_new_def accounted_def open_calls_def)

lemma send_frame_ok: "dispatcher_ok c d \<Longrightarrow> accounted d = M \<Longrightarrow> next_ok c M (send_frame f sent d)"
  by (simp add: send_frame_def dispatcher_ok_def accounted_def open_calls_def)

lemma answer_ok: "dispatcher_ok c d \<Longrightarrow> dispatcher_ok c (answer ch slot d)"
  by (simp add: answer_def dispatcher_ok_def)

lemma answer_accounted: "accounted (answer ch slot d) = add_mset ch (accounted d)"
  by (simp add: answer_def accounted_def open_calls_def)

lemma admit_accounted: "accounted (admit rq d) = add_mset (rq_response rq) (accounted d)"
proof (cases "hm_get (dp_in_flight d) (rq_request_id rq)")
  case None
  then show ?thesis
    by (simp add: admit_def accounted_def open_calls_def Let_def mset_hm_insert_new)
next
  case (Some p)
  from arg_cong[OF mset_hm_insert_old[OF this], of "image_mset (\<lambda>(i, p). pd_response p)"]
  show ?thesis
    by (simp add: admit_def accounted_def open_calls_def Let_def Some)
qed

lemma admit_ok:
  assumes "dispatcher_ok c d" "length (dp_in_flight d) < cc_max_in_flight_requests c"
  shows "dispatcher_ok c (admit rq d)"
proof -
  let ?k = "dp_next_key d"
  have fresh: "hm_get (dp_deadlines d) ?k = None"
    using assms(1) unfolding dispatcher_ok_def by (metis less_irrefl not_None_eq)
  have "length (dp_in_flight (admit rq d)) \<le> cc_max_in_flight_requests c"
    using assms(2) length_hm_insert by (fastforce simp: admit_def Let_def intro: order_trans)
  then show ?thesis
    using assms(1) fresh
    by (auto simp: dispatcher_ok_def admit_def Let_def less_Suc_eq split: if_splits) (metis option.distinct(1))+
qed

text \<open>Taking a call out of the table together with its deadline.\<close>

lemma remove_pending:
  assumes "dispatcher_ok c d" "hm_get (dp_in_flight d) i = Some p"
  obtains d1 where "remove_deadline (pd_deadline_key p) (d\<lparr>dp_in_flight := hm_remove i (dp_in_flight d)\<rparr>) = Some d1"
    "dispatcher_ok c d1" "accounted d = add_mset (pd_response p) (accounted d1)"
proof -
  have wf: "hm_wf (dp_in_flight d)" "hm_wf (dp_deadlines d)" using assms(1) by (auto simp: dispatcher_ok_def)
  obtain t where t: "hm_get (dp_deadlines d) (pd_deadline_key p) = Some (i, t)"
    using assms unfolding dispatcher_ok_def by blast
  let ?d1 = "d\<lparr>dp_in_flight := hm_remove i (dp_in_flight d),
    dp_deadlines := hm_remove (pd_deadline_key p) (dp_deadlines d)\<rparr>"
  have "dispatcher_ok c ?d1"
    using assms(1) t wf length_hm_remove[of i "dp_in_flight d"]
    by (fastforce simp: dispatcher_ok_def split: if_splits)
  moreover have "accounted d = add_mset (pd_response p) (accounted ?d1)"
    using mset_hm_remove[OF wf(1) assms(2)] by (simp add: accounted_def open_calls_def)
  ultimately show ?thesis
    using t by (intro that[of ?d1]) (simp_all add: remove_deadline_def hm_contains_def)
qed

lemma on_expired_ok:
  assumes "dispatcher_ok c d"
  shows "next_ok c (accounted d) (on_expired k sent d)"
proof (cases "hm_get (dp_deadlines d) k")
  case None
  then show ?thesis using assms by (simp add: on_expired_def)
next
  case (Some x)
  obtain i t where x: "x = (i, t)" by fastforce
  have wf: "hm_wf (dp_in_flight d)" "hm_wf (dp_deadlines d)" using assms by (auto simp: dispatcher_ok_def)
  show ?thesis
  proof (cases "hm_get (dp_in_flight d) i")
    case None
    then have "dispatcher_ok c (d\<lparr>dp_deadlines := hm_remove k (dp_deadlines d)\<rparr>)"
      using assms Some x wf by (fastforce simp: dispatcher_ok_def)
    then show ?thesis
      using None Some x by (simp add: on_expired_def Let_def accounted_def open_calls_def)
  next
    case p: (Some p)
    let ?d2 = "d\<lparr>dp_deadlines := hm_remove k (dp_deadlines d), dp_in_flight := hm_remove i (dp_in_flight d)\<rparr>"
    have "dispatcher_ok c ?d2"
      using assms Some x wf length_hm_remove[of i "dp_in_flight d"]
      by (fastforce simp: dispatcher_ok_def split: if_splits)
    moreover have "accounted d = add_mset (pd_response p) (accounted ?d2)"
      using mset_hm_remove[OF wf(1) p] by (simp add: accounted_def open_calls_def)
    ultimately show ?thesis
      using p Some x
      by (simp add: on_expired_def Let_def) (intro send_frame_ok answer_ok; simp add: answer_accounted)
  qed
qed

lemma on_incoming_ok: "dispatcher_ok c d \<Longrightarrow> next_ok c (accounted d) (on_incoming ev d)"
proof (induction ev d rule: on_incoming.induct)
  case (1 i code body d)
  show ?case
  proof (cases "hm_get (dp_in_flight d) i")
    case (Some p)
    from remove_pending[OF 1 Some] show ?thesis
      using Some by (metis (no_types, lifting) answer_accounted answer_ok next_ok.simps(1) on_incoming.simps(1) option.simps(5))
  qed (use 1 in simp)
qed auto

lemma on_cancel_ok: "dispatcher_ok c d \<Longrightarrow> next_ok c (accounted d) (on_cancel i sent d)"
proof (cases "hm_get (dp_in_flight d) i")
  case (Some p)
  assume ok: "dispatcher_ok c d"
  obtain d1 where d1: "remove_deadline (pd_deadline_key p) (d\<lparr>dp_in_flight := hm_remove i (dp_in_flight d)\<rparr>) = Some d1"
      "dispatcher_ok c d1" "accounted d = add_mset (pd_response p) (accounted d1)"
    using remove_pending[OF ok Some] .
  have "dispatcher_ok c (d1\<lparr>dp_dropped := dp_dropped d1 @ [pd_response p]\<rparr>)"
    "accounted (d1\<lparr>dp_dropped := dp_dropped d1 @ [pd_response p]\<rparr>) = accounted d"
    using d1(2,3) by (simp_all add: dispatcher_ok_def accounted_def open_calls_def)
  then show ?thesis using Some d1(1) by (simp add: on_cancel_def send_frame_ok)
qed (simp add: on_cancel_def)

lemma on_request_ok:
  assumes "dispatcher_ok c d" "length (dp_in_flight d) < cc_max_in_flight_requests c"
  shows "next_ok c (add_mset (rq_response rq) (accounted d)) (on_request rq gone now sent d)"
  using assms
  by (auto simp: on_request_def Let_def answer_accounted intro!: send_frame_ok admit_ok answer_ok admit_accounted)
    (simp_all add: dispatcher_ok_def accounted_def open_calls_def)

lemma dispatch_step_ok:
  assumes "dispatcher_ok c d" "enabled c ev d"
  shows "next_ok c (accounted d + taken ev) (dispatch_step ev d)"
proof (cases ev)
  case SelRequestsClosed
  then show ?thesis using assms by (simp add: dispatcher_ok_def accounted_def open_calls_def)
next
  case (SelWriter w)
  then show ?thesis using assms(1) by (simp add: on_writer_def)
qed (use assms on_request_ok on_cancel_ok on_incoming_ok on_expired_ok in auto)

text \<open>
  The requests the dispatcher takes in a run, and the channels whose caller gave up: the
  ones closed before their request is taken and the ones cancelled in flight.
\<close>

fun gives_up :: "select_event \<Rightarrow> Dispatcher \<Rightarrow> oneshot multiset" where
  "gives_up (SelRequest rq gone now sent) d = (if gone then {#rq_response rq#} else {#})"
| "gives_up (SelCancel i sent) d =
     (case hm_get (dp_in_flight d) i of None \<Rightarrow> {#} | Some p \<Rightarrow> {#pd_response p#})"
| "gives_up _ d = {#}"

fun taken_run :: "select_event list \<Rightarrow> Dispatcher \<Rightarrow> oneshot multiset" where
  "taken_run [] d = {#}"
| "taken_run (ev # evs) d =
     (if \<not> dp_accepting d \<and> dp_in_flight d = [] then {#}
      else taken ev + (case dispatch_step ev d of Continue d1 \<Rightarrow> taken_run evs d1 | _ \<Rightarrow> {#}))"

fun given_up_run :: "select_event list \<Rightarrow> Dispatcher \<Rightarrow> oneshot multiset" where
  "given_up_run [] d = {#}"
| "given_up_run (ev # evs) d =
     (if \<not> dp_accepting d \<and> dp_in_flight d = [] then {#}
      else gives_up ev d + (case dispatch_step ev d of Continue d1 \<Rightarrow> given_up_run evs d1 | _ \<Rightarrow> {#}))"

fun requested_ids :: "select_event list \<Rightarrow> u64 list" where
  "requested_ids [] = []"
| "requested_ids (SelRequest rq gone now sent # evs) = rq_request_id rq # requested_ids evs"
| "requested_ids (_ # evs) = requested_ids evs"

definition in_flight_ids :: "Dispatcher \<Rightarrow> u64 set" where
  "in_flight_ids d = {i. hm_get (dp_in_flight d) i \<noteq> None}"

fun next_dropped :: "oneshot multiset \<Rightarrow> u64 set \<Rightarrow> dispatch_next \<Rightarrow> bool" where
  "next_dropped M I (Continue d) \<longleftrightarrow> mset (dp_dropped d) = M \<and> in_flight_ids d \<subseteq> I"
| "next_dropped M I (Break d e) \<longleftrightarrow> mset (dp_dropped d) = M"
| "next_dropped M I Panic \<longleftrightarrow> True"

lemma dispatch_step_dropped:
  assumes "dispatcher_ok c d" "set (requested_ids [ev]) \<inter> in_flight_ids d = {}"
  shows "next_dropped (mset (dp_dropped d) + gives_up ev d) (in_flight_ids d \<union> set (requested_ids [ev])) (dispatch_step ev d)"
proof -
  have wf: "hm_wf (dp_in_flight d)" using assms(1) by (simp add: dispatcher_ok_def)
  show ?thesis
  proof (cases ev)
    case (SelIncoming ie)
    then show ?thesis using wf
      by (cases "(ie, d)" rule: on_incoming.cases)
        (auto simp: on_incoming.simps in_flight_ids_def remove_deadline_def answer_def split: option.splits)
  qed (use assms(2) wf in \<open>auto simp: on_request_def on_cancel_def on_expired_def on_writer_def send_frame_def
      admit_def answer_def remove_deadline_def in_flight_ids_def Let_def split: option.splits\<close>)
qed

lemma dispatch_loop_ok:
  assumes "dispatcher_ok c d" "enabled_run c evs d" "distinct (requested_ids evs)"
    "set (requested_ids evs) \<inter> in_flight_ids d = {}"
  shows "case dispatch_loop c evs d of Panic \<Rightarrow> False
    | Continue d' \<Rightarrow> dispatcher_ok c d' \<and> accounted d' = accounted d + taken_run evs d \<and>
        mset (dp_dropped d') = mset (dp_dropped d) + given_up_run evs d
    | Break d' e \<Rightarrow> dispatcher_ok c d' \<and> accounted d' = accounted d + taken_run evs d \<and>
        mset (dp_dropped d') = mset (dp_dropped d) + given_up_run evs d \<and> (e = None \<longrightarrow> dp_in_flight d' = [])"
  using assms
proof (induction evs arbitrary: d)
  case (Cons ev evs)
  show ?case
  proof (cases "\<not> dp_accepting d \<and> dp_in_flight d = []")
    case False
    have ids: "requested_ids (ev # evs) = requested_ids [ev] @ requested_ids evs" by (cases ev) auto
    have step: "next_ok c (accounted d + taken ev) (dispatch_step ev d)"
      using dispatch_step_ok Cons.prems(1,2) False by auto
    have dropped: "next_dropped (mset (dp_dropped d) + gives_up ev d) (in_flight_ids d \<union> set (requested_ids [ev]))
        (dispatch_step ev d)"
      using Cons.prems(4) ids by (intro dispatch_step_dropped[OF Cons.prems(1)]) auto
    show ?thesis
    proof (cases "dispatch_step ev d")
      case (Continue d1)
      have "case dispatch_loop c evs d1 of Panic \<Rightarrow> False
        | Continue d' \<Rightarrow> dispatcher_ok c d' \<and> accounted d' = accounted d1 + taken_run evs d1 \<and>
            mset (dp_dropped d') = mset (dp_dropped d1) + given_up_run evs d1
        | Break d' e \<Rightarrow> dispatcher_ok c d' \<and> accounted d' = accounted d1 + taken_run evs d1 \<and>
            mset (dp_dropped d') = mset (dp_dropped d1) + given_up_run evs d1 \<and> (e = None \<longrightarrow> dp_in_flight d' = [])"
        using Cons.prems step dropped ids False Continue by (intro Cons.IH) auto
      then show ?thesis
        using step dropped Continue False by (auto split: dispatch_next.splits)
    next
      case (Break d1 e)
      then show ?thesis
        using step dropped False
        by (cases ev) (auto simp: on_request_def on_cancel_def on_expired_def on_writer_def send_frame_def Let_def
            split: if_splits option.splits elim!: on_incoming.elims)
    next
      case Panic
      then show ?thesis using step by simp
    qed
  qed (use Cons.prems in simp)
qed simp

subsection \<open>Every call is answered once\<close>


definition sample_request :: "u64 \<Rightarrow> oneshot \<Rightarrow> DispatchRequest" where
  "sample_request i ch = \<lparr>rq_context = \<lparr>cx_deadline = 5000000, cx_trace_id = replicate 16 0\<rparr>, rq_request_id = i,
     rq_body = [1], rq_response = ch\<rparr>"

text \<open>Three calls: one answered, one cancelled by its caller, one in flight when the peer closes.\<close>

definition sample_events :: "select_event list" where
  "sample_events =
     [SelRequest (sample_request 1 10) False 0 True, SelRequest (sample_request 2 11) False 0 True,
      SelRequest (sample_request 3 12) False 0 True, SelIncoming (Some (EvFrame (FResponse 2 None [9]))),
      SelCancel 1 True, SelIncoming (Some EvClosed)]"

lemma sample_dispatch:
  "dispatch ClientConfig_default sample_events [sample_request 4 13] dispatcher_new =
     Some (\<lparr>dp_accepting = True, dp_in_flight = [], dp_deadlines = [(2, 3, 5000000)], dp_next_key = 3,
       dp_outgoing = map (\<lambda>i. FRequest i 5000 (replicate 16 0) [1]) [1, 2, 3] @ [FCancel 1],
       dp_answers = [(11, Ok (Ok [9])), (12, Err (RpcConnection (conn_closed ''RPC peer closed the connection''))),
         (13, Err (RpcConnection (conn_closed ''RPC peer closed the connection'')))],
       dp_dropped = [10]\<rparr>, Err (conn_closed ''RPC peer closed the connection''))"
  by (simp add: sample_events_def sample_request_def dispatch_def dispatcher_new_def on_request_def on_cancel_def
      send_frame_def admit_def answer_def remove_deadline_def remaining_micros_def Let_def hm_get_def hm_insert_def
      hm_remove_def hm_contains_def fail_pending_def)


end
