(* ===== verification/Rpc_Server.thy ===== *)
theory Rpc_Server
  imports Rpc_Client
begin

text \<open>
  The multiplexed RPC server of \<open>crates/nagisalake-rpc/src/server.rs\<close>: the supervisor of a
  connection, which admits requests and routes cancellations, and the handler tasks, which
  decode a request, run the service and encode the response. The codec and the service
  are parameters. The steps of the handler tasks interleave with those of the supervisor.
\<close>

subsection \<open>Configuration\<close>

definition MAX_SUPPORTED_REQUEST_TIMEOUT :: nat where
  "MAX_SUPPORTED_REQUEST_TIMEOUT = 24 * 60 * 60 * 10 ^ 9"

record ServerConfig =
  sc_max_connections :: nat
  sc_max_in_flight_requests_per_connection :: nat
  sc_max_request_timeout :: nat
  sc_shutdown_grace :: nat
  sc_inbound_frame_buffer :: nat
  sc_outbound_frame_buffer :: nat
  sc_frame :: FrameConfig

definition ServerConfig_default :: ServerConfig where
  "ServerConfig_default =
     \<lparr>sc_max_connections = 1024, sc_max_in_flight_requests_per_connection = 1024,
      sc_max_request_timeout = 5 * 60 * 10 ^ 9, sc_shutdown_grace = 10 * 10 ^ 9, sc_inbound_frame_buffer = 256,
      sc_outbound_frame_buffer = 256, sc_frame = FrameConfig_default\<rparr>"

definition validate_server_config :: "ServerConfig \<Rightarrow> (ConfigError, unit) result" where
  "validate_server_config c =
     (if sc_max_connections c = 0 then Err (CfgZero ''max_connections'')
      else if sc_max_in_flight_requests_per_connection c = 0
      then Err (CfgZero ''max_in_flight_requests_per_connection'')
      else if sc_max_request_timeout c = 0 \<or> sc_max_request_timeout c > MAX_SUPPORTED_REQUEST_TIMEOUT
      then Err (CfgInvalidDuration ''max_request_timeout'')
      else if sc_inbound_frame_buffer c = 0 then Err (CfgZero ''inbound_frame_buffer'')
      else if sc_outbound_frame_buffer c = 0 then Err (CfgZero ''outbound_frame_buffer'')
      else validate_frame_config (sc_frame c))"

subsection \<open>The handler task\<close>

definition status_frame :: "u64 \<Rightarrow> RpcStatus \<Rightarrow> ServerFrame" where
  "status_frame i s = FResponse i (Some (rs_code s)) (into_wire_message s)"

fun codec_error_text :: "CodecError \<Rightarrow> string" where
  "codec_error_text (CodecEncode m) = ''encode failed: '' @ m"
| "codec_error_text (CodecDecode m) = ''decode failed: '' @ m"

definition max_response_bytes :: "ServerConfig \<Rightarrow> nat" where
  "max_response_bytes c = fc_max_frame_bytes (sc_frame c) - RESPONSE_HEADER_LEN"

text \<open>The service answers, fails with a status, or is stopped at the deadline.\<close>

datatype 'r service_outcome = SvcOk 'r | SvcErr RpcStatus | SvcTimeout

definition handler_frame ::
  "(u8 list \<Rightarrow> (CodecError, 'q) result) \<Rightarrow> ('r \<Rightarrow> (CodecError, u8 list) result) \<Rightarrow> ('q \<Rightarrow> 'r service_outcome)
   \<Rightarrow> ServerConfig \<Rightarrow> u64 \<Rightarrow> u8 list \<Rightarrow> ServerFrame" where
  "handler_frame dec enc service c i body =
     (case dec body of
        Err e \<Rightarrow> status_frame i (status_invalid_argument (codec_error_text e))
      | Ok request \<Rightarrow>
          (case service request of
             SvcErr s \<Rightarrow> status_frame i s
           | SvcTimeout \<Rightarrow> status_frame i status_deadline_exceeded
           | SvcOk response \<Rightarrow>
               (case enc response of
                  Err e \<Rightarrow> status_frame i (status_internal (codec_error_text e))
                | Ok b \<Rightarrow>
                    if length b \<le> max_response_bytes c then FResponse i None b
                    else status_frame i (status_internal (''encoded response is '' @ show_nat (length b) @
                           '' bytes, limit is '' @ show_nat (max_response_bytes c))))))"

text \<open>
  The size check of a handler covers responses and not statuses. A service error whose
  message does not fit a frame is handed to the writer as it is; the writer refuses it and stops,
  with no more than the frames already written, so that the whole connection ends and not this call only.
\<close>

theorem oversized_status_ends_connection:
  assumes "dec body = Ok request" "service request = SvcErr s"
    "max_response_bytes c < length (into_wire_message s)" "RESPONSE_HEADER_LEN \<le> fc_max_frame_bytes (sc_frame c)"
  shows "write_frames server_payload_len server_split_header (sc_frame c) io ready out
      (handler_frame dec enc service c i body # queue) =
    (out, Err (conn_frame_too_large (RESPONSE_HEADER_LEN + length (into_wire_message s)) (fc_max_frame_bytes (sc_frame c))))"
proof -
  have f: "handler_frame dec enc service c i body = FResponse i (Some (rs_code s)) (into_wire_message s)"
    using assms(1,2) by (simp add: handler_frame_def status_frame_def)
  have "fc_max_frame_bytes (sc_frame c) < RESPONSE_HEADER_LEN + length (into_wire_message s)"
    using assms(3,4) by (simp add: max_response_bytes_def)
  then show ?thesis
    by (simp add: write_frames.simps[of _ _ _ _ _ _ "_ # _"] append_frame_def f Let_def)
qed

theorem oversized_status_ends_connection_witness:
  "snd (write_frames server_payload_len server_split_header FrameConfig_default (\<lambda>_. None) [] []
      [handler_frame (\<lambda>_. Ok ()) (\<lambda>r :: unit. Ok []) (\<lambda>_. SvcErr (status_internal (replicate 16777216 CHR ''x'')))
         ServerConfig_default 1 []]) =
    Err (conn_frame_too_large 16777226 8388608)"
proof -
  have "length (into_wire_message (status_internal (replicate 16777216 CHR ''x''))) = 16777216"
    by (simp add: into_wire_message_def status_internal_def as_bytes_def)
  then show ?thesis
    using oversized_status_ends_connection[of "\<lambda>_. Ok ()" "[]" "()" "\<lambda>_. SvcErr (status_internal (replicate 16777216 CHR ''x''))"
        "status_internal (replicate 16777216 CHR ''x'')" ServerConfig_default "\<lambda>_. None" "[]" "[]" "\<lambda>r :: unit. Ok []" 1 "[]"]
    by (simp add: max_response_bytes_def ServerConfig_default_def FrameConfig_default_def RESPONSE_HEADER_LEN_def)
qed

subsection \<open>The supervisor\<close>

type_synonym task_id = nat

datatype task_state = TkRunning | TkDone | TkCancelled | TkPanicked

record Task =
  tk_request_id :: u64
  tk_aborted :: bool
  tk_state :: task_state

record Supervisor =
  sv_handlers :: "(task_id, Task) hash_map"
  sv_aborts :: "(u64, task_id) hash_map"
  sv_next_task :: task_id
  sv_outgoing :: "ServerFrame list"
  sv_unanswered :: "u64 list"

definition supervisor_new :: Supervisor where
  "supervisor_new = \<lparr>sv_handlers = [], sv_aborts = [], sv_next_task = 0, sv_outgoing = [], sv_unanswered = []\<rparr>"

text \<open>
  The steps of a connection. A handler task finishes with its frame (\<open>sent\<close>: the writer still
  takes frames), panics, or notices that it was aborted; the supervisor takes a branch of
  its \<open>select!\<close>.
\<close>

datatype server_event =
    HandlerDone task_id ServerFrame bool
  | HandlerPanicked task_id
  | HandlerCancelled task_id
  | SupJoined task_id
  | SupShutdown
  | SupWriter writer_exit
  | SupIncoming "ClientFrame ReadEvent option" bool

datatype server_next = SContinue Supervisor | SBreak Supervisor "ConnectionError option"

definition end_task :: "task_id \<Rightarrow> task_state \<Rightarrow> Supervisor \<Rightarrow> Supervisor" where
  "end_task t st s =
     (case hm_get (sv_handlers s) t of
        None \<Rightarrow> s
      | Some tk \<Rightarrow> s\<lparr>sv_handlers := hm_insert t (tk\<lparr>tk_state := st\<rparr>) (sv_handlers s)\<rparr>)"

definition no_answer :: "u64 \<Rightarrow> Supervisor \<Rightarrow> Supervisor" where
  "no_answer i s = s\<lparr>sv_unanswered := sv_unanswered s @ [i]\<rparr>"

definition task_finished :: "Supervisor \<Rightarrow> task_id \<Rightarrow> bool" where
  "task_finished s t = (case hm_get (sv_handlers s) t of None \<Rightarrow> True | Some tk \<Rightarrow> tk_state tk \<noteq> TkRunning)"

text \<open>\<open>join_next\<close>: a finished task leaves the set; a failed one does not report its id.\<close>

definition on_joined :: "task_id \<Rightarrow> Supervisor \<Rightarrow> Supervisor" where
  "on_joined t s =
     (case hm_get (sv_handlers s) t of
        None \<Rightarrow> s
      | Some tk \<Rightarrow>
          let s1 = s\<lparr>sv_handlers := hm_remove t (sv_handlers s)\<rparr>
          in if tk_state tk = TkDone then s1\<lparr>sv_aborts := hm_remove (tk_request_id tk) (sv_aborts s1)\<rparr>
             else s1\<lparr>sv_aborts := hm_retain (\<lambda>i t'. \<not> task_finished s1 t') (sv_aborts s1)\<rparr>)"

definition rejection :: "ServerConfig \<Rightarrow> u64 \<Rightarrow> u64 \<Rightarrow> Supervisor \<Rightarrow> RpcStatus option" where
  "rejection c i timeout_micros s =
     (if hm_contains (sv_aborts s) i then Some status_duplicate_request_id
      else if timeout_micros = 0 then Some status_deadline_exceeded
      else if timeout_micros > of_nat (sc_max_request_timeout c div 1000) then Some status_timeout_too_large
      else if length (sv_aborts s) \<ge> sc_max_in_flight_requests_per_connection c then Some status_resource_exhausted
      else None)"

definition spawn_handler :: "u64 \<Rightarrow> Supervisor \<Rightarrow> Supervisor" where
  "spawn_handler i s =
     (let t = sv_next_task s
      in s\<lparr>sv_next_task := t + 1,
           sv_handlers := hm_insert t \<lparr>tk_request_id = i, tk_aborted = False, tk_state = TkRunning\<rparr> (sv_handlers s),
           sv_aborts := hm_insert i t (sv_aborts s)\<rparr>)"

definition abort_task :: "task_id \<Rightarrow> Supervisor \<Rightarrow> Supervisor" where
  "abort_task t s =
     (case hm_get (sv_handlers s) t of
        None \<Rightarrow> s
      | Some tk \<Rightarrow> s\<lparr>sv_handlers := hm_insert t (tk\<lparr>tk_aborted := True\<rparr>) (sv_handlers s)\<rparr>)"

fun on_client_event :: "ServerConfig \<Rightarrow> ClientFrame ReadEvent option \<Rightarrow> bool \<Rightarrow> Supervisor \<Rightarrow> server_next" where
  "on_client_event c (Some (EvFrame (FCancel i))) sent s =
     (case hm_get (sv_aborts s) i of
        None \<Rightarrow> SContinue s
      | Some t \<Rightarrow> SContinue (abort_task t (s\<lparr>sv_aborts := hm_remove i (sv_aborts s)\<rparr>)))"
| "on_client_event c (Some (EvFrame (FRequest i timeout_micros trace_id body))) sent s =
     (case rejection c i timeout_micros s of
        Some status \<Rightarrow>
          if sent then SContinue (s\<lparr>sv_outgoing := sv_outgoing s @ [status_frame i status]\<rparr>)
          else SBreak (no_answer i s) (Some writer_stopped)
      | None \<Rightarrow> SContinue (spawn_handler i s))"
| "on_client_event c (Some EvClosed) sent s = SBreak s None"
| "on_client_event c None sent s = SBreak s None"
| "on_client_event c (Some (EvFailed e)) sent s = SBreak s (Some e)"

fun server_step :: "ServerConfig \<Rightarrow> server_event \<Rightarrow> Supervisor \<Rightarrow> server_next" where
  "server_step c (HandlerDone t frame sent) s =
     SContinue (let s1 = end_task t TkDone s
                in if sent then s1\<lparr>sv_outgoing := sv_outgoing s1 @ [frame]\<rparr>
                   else no_answer (sf_id frame) s1)"
| "server_step c (HandlerPanicked t) s =
     SContinue (case hm_get (sv_handlers s) t of
        None \<Rightarrow> s | Some tk \<Rightarrow> no_answer (tk_request_id tk) (end_task t TkPanicked s))"
| "server_step c (HandlerCancelled t) s =
     SContinue (case hm_get (sv_handlers s) t of
        None \<Rightarrow> s | Some tk \<Rightarrow> no_answer (tk_request_id tk) (end_task t TkCancelled s))"
| "server_step c (SupJoined t) s = SContinue (on_joined t s)"
| "server_step c SupShutdown s = SBreak s None"
| "server_step c (SupWriter w) s =
     SBreak s (Some (case w of
        WriterDone \<Rightarrow> writer_stopped
      | WriterFailed e \<Rightarrow> e
      | WriterPanicked m \<Rightarrow> \<lparr>ce_kind = ConnRuntime, ce_detail = ''RPC writer task failed: '' @ m\<rparr>))"
| "server_step c (SupIncoming ev sent) s = on_client_event c ev sent s"

text \<open>
  When a step can happen: a handler that is running can finish with a frame for its request
  or panic, an aborted one can be stopped, and only finished tasks are joined.
\<close>

fun server_enabled :: "server_event \<Rightarrow> Supervisor \<Rightarrow> bool" where
  "server_enabled (HandlerDone t frame sent) s \<longleftrightarrow>
     (case hm_get (sv_handlers s) t of None \<Rightarrow> False
      | Some tk \<Rightarrow> tk_state tk = TkRunning \<and> sf_id frame = tk_request_id tk)"
| "server_enabled (HandlerPanicked t) s \<longleftrightarrow>
     (case hm_get (sv_handlers s) t of None \<Rightarrow> False | Some tk \<Rightarrow> tk_state tk = TkRunning)"
| "server_enabled (HandlerCancelled t) s \<longleftrightarrow>
     (case hm_get (sv_handlers s) t of None \<Rightarrow> False | Some tk \<Rightarrow> tk_state tk = TkRunning \<and> tk_aborted tk)"
| "server_enabled (SupJoined t) s \<longleftrightarrow>
     (case hm_get (sv_handlers s) t of None \<Rightarrow> False | Some tk \<Rightarrow> tk_state tk \<noteq> TkRunning)"
| "server_enabled _ s \<longleftrightarrow> True"

fun serve_loop :: "ServerConfig \<Rightarrow> server_event list \<Rightarrow> Supervisor \<Rightarrow> server_next" where
  "serve_loop c [] s = SContinue s"
| "serve_loop c (ev # evs) s =
     (case server_step c ev s of SContinue s1 \<Rightarrow> serve_loop c evs s1 | SBreak s1 e \<Rightarrow> SBreak s1 e)"

fun server_enabled_run :: "ServerConfig \<Rightarrow> server_event list \<Rightarrow> Supervisor \<Rightarrow> bool" where
  "server_enabled_run c [] s \<longleftrightarrow> True"
| "server_enabled_run c (ev # evs) s \<longleftrightarrow>
     server_enabled ev s \<and> (case server_step c ev s of SContinue s1 \<Rightarrow> server_enabled_run c evs s1 | _ \<Rightarrow> True)"

subsection \<open>The invariant\<close>

definition running_ids :: "Supervisor \<Rightarrow> u64 multiset" where
  "running_ids s = image_mset (\<lambda>(t, tk). tk_request_id tk) (filter_mset (\<lambda>(t, tk). tk_state tk = TkRunning) (mset (sv_handlers s)))"

text \<open>Every request the supervisor has read: answered, being handled, or given up without an answer.\<close>

definition received :: "Supervisor \<Rightarrow> u64 multiset" where
  "received s = mset (map sf_id (sv_outgoing s)) + running_ids s + mset (sv_unanswered s)"

definition tracked :: "Supervisor \<Rightarrow> bool" where
  "tracked s \<longleftrightarrow>
     (\<forall>i t. hm_get (sv_aborts s) i = Some t \<longrightarrow>
        (\<exists>tk. hm_get (sv_handlers s) t = Some tk \<and> tk_request_id tk = i)) \<and>
     (\<forall>t tk. hm_get (sv_handlers s) t = Some tk \<longrightarrow> tk_state tk = TkRunning \<longrightarrow> \<not> tk_aborted tk \<longrightarrow>
        hm_get (sv_aborts s) (tk_request_id tk) = Some t)"

definition supervisor_ok :: "ServerConfig \<Rightarrow> u64 set \<Rightarrow> Supervisor \<Rightarrow> bool" where
  "supervisor_ok c seen s \<longleftrightarrow>
     hm_wf (sv_handlers s) \<and> hm_wf (sv_aborts s) \<and>
     length (sv_aborts s) \<le> sc_max_in_flight_requests_per_connection c \<and> tracked s \<and>
     (\<forall>t tk. hm_get (sv_handlers s) t = Some tk \<longrightarrow> t < sv_next_task s \<and> tk_request_id tk \<in> seen) \<and>
     (\<forall>t t' tk tk'. hm_get (sv_handlers s) t = Some tk \<longrightarrow> hm_get (sv_handlers s) t' = Some tk' \<longrightarrow>
        tk_request_id tk = tk_request_id tk' \<longrightarrow> t = t')"

lemma supervisor_new_ok: "supervisor_ok c {} supervisor_new" "received supervisor_new = {#}"
  by (simp_all add: supervisor_ok_def supervisor_new_def tracked_def received_def running_ids_def)

lemma running_ids_update:
  assumes "hm_get (sv_handlers s) t = Some tk" "tk_state tk = TkRunning" "tk_request_id tk' = tk_request_id tk"
  shows "running_ids s = running_ids (s\<lparr>sv_handlers := hm_insert t tk' (sv_handlers s)\<rparr>) +
    (if tk_state tk' = TkRunning then {#} else {#tk_request_id tk#})"
proof -
  have "filter_mset (\<lambda>(t, tk). tk_state tk = TkRunning) (add_mset (t, tk) (mset (hm_insert t tk' (sv_handlers s)))) =
      filter_mset (\<lambda>(t, tk). tk_state tk = TkRunning) (add_mset (t, tk') (mset (sv_handlers s)))"
    using mset_hm_insert_old[OF assms(1), of tk'] by simp
  from arg_cong[OF this, of "image_mset (\<lambda>(t, tk). tk_request_id tk)"] show ?thesis
    using assms(2,3) by (auto simp: running_ids_def split: if_splits)
qed

lemma supervisor_okD:
  assumes "supervisor_ok c seen s"
  shows "hm_wf (sv_handlers s)" "hm_wf (sv_aborts s)" "length (sv_aborts s) \<le> sc_max_in_flight_requests_per_connection c"
    "hm_get (sv_aborts s) i = Some t \<Longrightarrow> \<exists>tk. hm_get (sv_handlers s) t = Some tk \<and> tk_request_id tk = i"
    "hm_get (sv_handlers s) t = Some tk \<Longrightarrow> tk_state tk = TkRunning \<Longrightarrow> \<not> tk_aborted tk \<Longrightarrow>
       hm_get (sv_aborts s) (tk_request_id tk) = Some t"
    "hm_get (sv_handlers s) t = Some tk \<Longrightarrow> t < sv_next_task s"
    "hm_get (sv_handlers s) t = Some tk \<Longrightarrow> tk_request_id tk \<in> seen"
    "hm_get (sv_handlers s) t = Some tk \<Longrightarrow> hm_get (sv_handlers s) t' = Some tk' \<Longrightarrow>
       tk_request_id tk = tk_request_id tk' \<Longrightarrow> t = t'"
  using assms unfolding supervisor_ok_def tracked_def by blast+

lemma supervisor_okI:
  assumes "sv_handlers s = h" "sv_aborts s = a" "hm_wf h" "hm_wf a" "length a \<le> sc_max_in_flight_requests_per_connection c"
    "\<And>i t. hm_get a i = Some t \<Longrightarrow> \<exists>tk. hm_get h t = Some tk \<and> tk_request_id tk = i"
    "\<And>t tk. hm_get h t = Some tk \<Longrightarrow> tk_state tk = TkRunning \<Longrightarrow> \<not> tk_aborted tk \<Longrightarrow>
       hm_get a (tk_request_id tk) = Some t"
    "\<And>t tk. hm_get h t = Some tk \<Longrightarrow> t < sv_next_task s \<and> tk_request_id tk \<in> seen"
    "\<And>t t' tk tk'. hm_get h t = Some tk \<Longrightarrow> hm_get h t' = Some tk' \<Longrightarrow> tk_request_id tk = tk_request_id tk' \<Longrightarrow> t = t'"
  shows "supervisor_ok c seen s"
  using assms unfolding supervisor_ok_def tracked_def by blast

text \<open>A change of a task's flags that does not bring an ended or aborted task back.\<close>

lemma supervisor_ok_edit:
  assumes "supervisor_ok c seen s" "hm_get (sv_handlers s) t = Some tk" "tk_request_id tk' = tk_request_id tk"
    "tk_state tk' = TkRunning \<Longrightarrow> \<not> tk_aborted tk' \<Longrightarrow> tk_state tk = TkRunning \<and> \<not> tk_aborted tk"
  shows "supervisor_ok c seen (s\<lparr>sv_handlers := hm_insert t tk' (sv_handlers s)\<rparr>)"
proof -
  note D = supervisor_okD[OF assms(1)]
  have get: "hm_get (hm_insert t tk' (sv_handlers s)) x = (if x = t then Some tk' else hm_get (sv_handlers s) x)" for x
    using D(1) by simp
  have old: "\<exists>y. hm_get (sv_handlers s) x = Some y \<and> tk_request_id y = tk_request_id x' \<and>
      (tk_state x' = TkRunning \<longrightarrow> \<not> tk_aborted x' \<longrightarrow> tk_state y = TkRunning \<and> \<not> tk_aborted y)"
    if "hm_get (hm_insert t tk' (sv_handlers s)) x = Some x'" for x x'
    using that assms(2-4) by (auto simp: get split: if_splits)
  show ?thesis
  proof (rule supervisor_okI[where h = "hm_insert t tk' (sv_handlers s)" and a = "sv_aborts s"])
    show "\<exists>tk. hm_get (hm_insert t tk' (sv_handlers s)) u = Some tk \<and> tk_request_id tk = i"
      if "hm_get (sv_aborts s) i = Some u" for i u
      using D(4)[OF that] assms(2,3) by (auto simp: get)
    show "hm_get (sv_aborts s) (tk_request_id x) = Some u"
      if "hm_get (hm_insert t tk' (sv_handlers s)) u = Some x" "tk_state x = TkRunning" "\<not> tk_aborted x" for u x
      using old[OF that(1)] that(2,3) D(5) by metis
    show "u < sv_next_task (s\<lparr>sv_handlers := hm_insert t tk' (sv_handlers s)\<rparr>) \<and> tk_request_id x \<in> seen"
      if "hm_get (hm_insert t tk' (sv_handlers s)) u = Some x" for u x
      using old[OF that] D(6,7)[of u] by auto
    show "u = u'" if "hm_get (hm_insert t tk' (sv_handlers s)) u = Some x"
      "hm_get (hm_insert t tk' (sv_handlers s)) u' = Some x'" "tk_request_id x = tk_request_id x'" for u u' x x'
      using old[OF that(1)] old[OF that(2)] that(3) D(8) by metis
  qed (use D(1-3) in auto)
qed

lemma supervisor_ok_frame [simp]:
  "supervisor_ok c seen (s\<lparr>sv_outgoing := out\<rparr>) = supervisor_ok c seen s"
  "supervisor_ok c seen (s\<lparr>sv_unanswered := un\<rparr>) = supervisor_ok c seen s"
  "running_ids (s\<lparr>sv_outgoing := out\<rparr>) = running_ids s" "running_ids (s\<lparr>sv_unanswered := un\<rparr>) = running_ids s"
  "running_ids (s\<lparr>sv_aborts := ab\<rparr>) = running_ids s"
  by (simp_all add: supervisor_ok_def tracked_def running_ids_def)

lemma end_task_ok:
  assumes "supervisor_ok c seen s" "hm_get (sv_handlers s) t = Some tk" "tk_state tk = TkRunning" "st \<noteq> TkRunning"
  shows "supervisor_ok c seen (end_task t st s)" "running_ids s = add_mset (tk_request_id tk) (running_ids (end_task t st s))"
    "sv_outgoing (end_task t st s) = sv_outgoing s" "sv_unanswered (end_task t st s) = sv_unanswered s"
  using supervisor_ok_edit[OF assms(1,2), of "tk\<lparr>tk_state := st\<rparr>"]
    running_ids_update[OF assms(2,3), of "tk\<lparr>tk_state := st\<rparr>"] assms(2,4)
  by (simp_all add: end_task_def)

lemma cancel_ok:
  assumes "supervisor_ok c seen s" "hm_get (sv_aborts s) i = Some t"
  shows "supervisor_ok c seen (abort_task t (s\<lparr>sv_aborts := hm_remove i (sv_aborts s)\<rparr>))"
    "received (abort_task t (s\<lparr>sv_aborts := hm_remove i (sv_aborts s)\<rparr>)) = received s"
proof -
  note D = supervisor_okD[OF assms(1)]
  obtain tk where tk: "hm_get (sv_handlers s) t = Some tk" "tk_request_id tk = i" using D(4)[OF assms(2)] by blast
  let ?s1 = "s\<lparr>sv_handlers := hm_insert t (tk\<lparr>tk_aborted := True\<rparr>) (sv_handlers s)\<rparr>"
  have ok: "supervisor_ok c seen ?s1" by (rule supervisor_ok_edit[OF assms(1) tk(1)]) simp_all
  note E = supervisor_okD[OF ok]
  have eq: "abort_task t (s\<lparr>sv_aborts := hm_remove i (sv_aborts s)\<rparr>) = ?s1\<lparr>sv_aborts := hm_remove i (sv_aborts s)\<rparr>"
    using tk(1) by (simp add: abort_task_def)
  show "supervisor_ok c seen (abort_task t (s\<lparr>sv_aborts := hm_remove i (sv_aborts s)\<rparr>))"
    unfolding eq
  proof (rule supervisor_okI[where h = "sv_handlers ?s1" and a = "hm_remove i (sv_aborts s)"])
    show "length (hm_remove i (sv_aborts s)) \<le> sc_max_in_flight_requests_per_connection c"
      using D(3) length_hm_remove[of i "sv_aborts s"] by linarith
    show "\<exists>tk. hm_get (sv_handlers ?s1) u = Some tk \<and> tk_request_id tk = j"
      if "hm_get (hm_remove i (sv_aborts s)) j = Some u" for j u
      using E(4)[of j u] that D(2) by (simp split: if_splits)
    show "hm_get (hm_remove i (sv_aborts s)) (tk_request_id x) = Some u"
      if "hm_get (sv_handlers ?s1) u = Some x" "tk_state x = TkRunning" "\<not> tk_aborted x" for u x
    proof -
      have "u \<noteq> t" using that D(1) by auto
      moreover have "hm_get (sv_aborts s) (tk_request_id x) = Some u" using E(5)[OF that] by simp
      ultimately show ?thesis using assms(2) D(2) by auto
    qed
    show "u < sv_next_task (?s1\<lparr>sv_aborts := hm_remove i (sv_aborts s)\<rparr>) \<and> tk_request_id x \<in> seen"
      if "hm_get (sv_handlers ?s1) u = Some x" for u x
      using E(6,7)[OF that] by simp
    show "u = u'" if "hm_get (sv_handlers ?s1) u = Some x" "hm_get (sv_handlers ?s1) u' = Some x'"
      "tk_request_id x = tk_request_id x'" for u u' x x'
      using E(8)[OF that] .
  qed (use E(1) D(1,2) in auto)
  show "received (abort_task t (s\<lparr>sv_aborts := hm_remove i (sv_aborts s)\<rparr>)) = received s"
  proof (cases "tk_state tk = TkRunning")
    case True
    then show ?thesis using running_ids_update[OF tk(1) True, of "tk\<lparr>tk_aborted := True\<rparr>"] by (simp add: eq received_def)
  next
    case False
    then have "filter_mset (\<lambda>(t, tk). tk_state tk = TkRunning) (mset (sv_handlers ?s1)) =
        filter_mset (\<lambda>(t, tk). tk_state tk = TkRunning) (mset (sv_handlers s))"
      using arg_cong[OF mset_hm_insert_old[OF tk(1), of "tk\<lparr>tk_aborted := True\<rparr>"],
          of "filter_mset (\<lambda>(t, tk). tk_state tk = TkRunning)"] by simp
    then show ?thesis by (simp add: eq received_def running_ids_def)
  qed
qed

text \<open>A finished task is joined; at most its own abort handle and those of other finished tasks go.\<close>

lemma supervisor_ok_forget:
  assumes "supervisor_ok c seen s" "hm_get (sv_handlers s) t = Some tk" "hm_wf a" "length a \<le> length (sv_aborts s)"
    "\<And>i u. hm_get a i = Some u \<Longrightarrow> hm_get (sv_aborts s) i = Some u \<and> u \<noteq> t"
    "\<And>i u x. hm_get (sv_aborts s) i = Some u \<Longrightarrow> u \<noteq> t \<Longrightarrow> hm_get (sv_handlers s) u = Some x \<Longrightarrow>
       tk_state x = TkRunning \<Longrightarrow> hm_get a i = Some u"
  shows "supervisor_ok c seen (s\<lparr>sv_handlers := hm_remove t (sv_handlers s), sv_aborts := a\<rparr>)"
proof -
  note D = supervisor_okD[OF assms(1)]
  have get: "hm_get (hm_remove t (sv_handlers s)) u = Some x \<longleftrightarrow> u \<noteq> t \<and> hm_get (sv_handlers s) u = Some x" for u x
    using D(1) by auto
  show ?thesis
  proof (rule supervisor_okI[where h = "hm_remove t (sv_handlers s)" and a = a])
    show "\<exists>tk. hm_get (hm_remove t (sv_handlers s)) u = Some tk \<and> tk_request_id tk = i" if "hm_get a i = Some u" for i u
      using assms(5)[OF that] D(4) by (simp add: get)
    show "hm_get a (tk_request_id x) = Some u" if "hm_get (hm_remove t (sv_handlers s)) u = Some x" "tk_state x = TkRunning"
      "\<not> tk_aborted x" for u x
      using that assms(6)[of "tk_request_id x" u x] D(5)[of u x] by (simp add: get)
    show "u = u'" if "hm_get (hm_remove t (sv_handlers s)) u = Some x" "hm_get (hm_remove t (sv_handlers s)) u' = Some x'"
      "tk_request_id x = tk_request_id x'" for u u' x x'
      using that D(8)[of u x u' x'] by (simp add: get)
  qed (use D(1-3,6,7) assms(3,4) in \<open>auto split: if_splits\<close>)
qed

lemma running_ids_joined:
  assumes "hm_wf (sv_handlers s)" "hm_get (sv_handlers s) t = Some tk" "tk_state tk \<noteq> TkRunning"
  shows "running_ids (s\<lparr>sv_handlers := hm_remove t (sv_handlers s)\<rparr>) = running_ids s"
  using arg_cong[OF mset_hm_remove[OF assms(1,2)], of "filter_mset (\<lambda>(t, tk). tk_state tk = TkRunning)"] assms(3)
  by (simp add: running_ids_def)

lemma on_joined_ok:
  assumes "supervisor_ok c seen s" "hm_get (sv_handlers s) t = Some tk" "tk_state tk \<noteq> TkRunning"
  shows "supervisor_ok c seen (on_joined t s)" "received (on_joined t s) = received s"
proof -
  note D = supervisor_okD[OF assms(1)]
  let ?s1 = "s\<lparr>sv_handlers := hm_remove t (sv_handlers s)\<rparr>"
  let ?a = "if tk_state tk = TkDone then hm_remove (tk_request_id tk) (sv_aborts s)
    else hm_retain (\<lambda>i u. \<not> task_finished ?s1 u) (sv_aborts s)"
  have eq: "on_joined t s = s\<lparr>sv_handlers := hm_remove t (sv_handlers s), sv_aborts := ?a\<rparr>"
    using assms(2) by (simp add: on_joined_def Let_def)
  have own: "i = tk_request_id tk" if "hm_get (sv_aborts s) i = Some t" for i
    using D(4)[OF that] assms(2) by simp
  have other: "i \<noteq> tk_request_id tk" if "hm_get (sv_aborts s) i = Some u" "u \<noteq> t" for i u
    using D(4)[OF that(1)] D(8)[OF _ assms(2)] that(2) by blast
  have fin: "task_finished ?s1 u \<longleftrightarrow> u = t \<or> task_finished s u" for u
    using D(1) by (auto simp: task_finished_def)
  have kept: "hm_get ?a i = Some u \<longleftrightarrow> hm_get (sv_aborts s) i = Some u \<and>
      (if tk_state tk = TkDone then i \<noteq> tk_request_id tk else u \<noteq> t \<and> \<not> task_finished s u)" for i u
    using D(2) by (auto simp: hm_get_retain fin split: option.splits)
  have a: "hm_wf ?a" "length ?a \<le> length (sv_aborts s)"
    using D(2) length_hm_remove[of _ "sv_aborts s"] length_hm_retain[of _ "sv_aborts s"] by simp_all
  show "supervisor_ok c seen (on_joined t s)" unfolding eq
  proof (rule supervisor_ok_forget[OF assms(1,2) a])
    show "hm_get (sv_aborts s) i = Some u \<and> u \<noteq> t" if "hm_get ?a i = Some u" for i u
      using that own[of i] unfolding kept by (auto split: if_splits)
    show "hm_get ?a i = Some u" if "hm_get (sv_aborts s) i = Some u" "u \<noteq> t" "hm_get (sv_handlers s) u = Some x"
      "tk_state x = TkRunning" for i u x
      using that other[OF that(1,2)] unfolding kept by (simp add: task_finished_def)
  qed
  show "received (on_joined t s) = received s"
    using running_ids_joined[OF D(1) assms(2,3)] by (simp add: eq received_def running_ids_def)
qed

lemma spawn_handler_ok:
  assumes "supervisor_ok c seen s" "i \<notin> seen" "length (sv_aborts s) < sc_max_in_flight_requests_per_connection c"
  shows "supervisor_ok c (insert i seen) (spawn_handler i s)" "received (spawn_handler i s) = add_mset i (received s)"
proof -
  note D = supervisor_okD[OF assms(1)]
  let ?n = "sv_next_task s" and ?tk = "\<lparr>tk_request_id = i, tk_aborted = False, tk_state = TkRunning\<rparr>"
  have fresh: "hm_get (sv_handlers s) ?n = None" using D(6)[of ?n] by (cases "hm_get (sv_handlers s) ?n") auto
  have new: "tk_request_id x \<noteq> i" if "hm_get (sv_handlers s) u = Some x" for u x using D(7)[OF that] assms(2) by auto
  have noid: "hm_get (sv_aborts s) i = None" using D(4)[of i] new by (cases "hm_get (sv_aborts s) i") auto
  have get: "hm_get (hm_insert ?n ?tk (sv_handlers s)) u = (if u = ?n then Some ?tk else hm_get (sv_handlers s) u)" for u
    using D(1) by simp
  have eq: "spawn_handler i s = s\<lparr>sv_next_task := ?n + 1, sv_handlers := hm_insert ?n ?tk (sv_handlers s),
      sv_aborts := hm_insert i ?n (sv_aborts s)\<rparr>"
    by (simp add: spawn_handler_def Let_def)
  show "supervisor_ok c (insert i seen) (spawn_handler i s)" unfolding eq
  proof (rule supervisor_okI[where h = "hm_insert ?n ?tk (sv_handlers s)" and a = "hm_insert i ?n (sv_aborts s)"])
    show "length (hm_insert i ?n (sv_aborts s)) \<le> sc_max_in_flight_requests_per_connection c"
      using assms(3) noid length_hm_insert[of i ?n "sv_aborts s"] by simp
    show "\<exists>tk. hm_get (hm_insert ?n ?tk (sv_handlers s)) u = Some tk \<and> tk_request_id tk = j"
      if "hm_get (hm_insert i ?n (sv_aborts s)) j = Some u" for j u
      using that D(2) D(4)[of j u] fresh by (auto simp: get split: if_splits)
    show "hm_get (hm_insert i ?n (sv_aborts s)) (tk_request_id x) = Some u"
      if "hm_get (hm_insert ?n ?tk (sv_handlers s)) u = Some x" "tk_state x = TkRunning" "\<not> tk_aborted x" for u x
      using that D(2) D(5)[of u x] new[of u x] by (auto simp: get split: if_splits)
    show "u = u'" if "hm_get (hm_insert ?n ?tk (sv_handlers s)) u = Some x"
      "hm_get (hm_insert ?n ?tk (sv_handlers s)) u' = Some x'" "tk_request_id x = tk_request_id x'" for u u' x x'
      using that D(8)[of u x u' x'] new[of u x] new[of u' x'] by (auto simp: get split: if_splits)
  qed (use D(1,2,6,7) in \<open>auto simp: get less_Suc_eq split: if_splits\<close>)
  show "received (spawn_handler i s) = add_mset i (received s)"
    using mset_hm_insert_new[OF fresh, of ?tk] by (simp add: eq received_def running_ids_def)
qed

text \<open>The requests an event brings.\<close>

fun event_request :: "server_event \<Rightarrow> u64 list" where
  "event_request (SupIncoming (Some (EvFrame (FRequest i timeout_micros trace_id body))) sent) = [i]"
| "event_request _ = []"

fun next_state :: "server_next \<Rightarrow> Supervisor" where
  "next_state (SContinue s) = s"
| "next_state (SBreak s e) = s"

lemma received_answer [simp]:
  "received (s\<lparr>sv_outgoing := sv_outgoing s @ [frame]\<rparr>) = add_mset (sf_id frame) (received s)"
  "received (no_answer i s) = add_mset i (received s)" "supervisor_ok c seen (no_answer i s) = supervisor_ok c seen s"
  by (simp_all add: received_def no_answer_def)

lemma supervisor_ok_weaken: "supervisor_ok c seen s \<Longrightarrow> seen \<subseteq> seen' \<Longrightarrow> supervisor_ok c seen' s"
  unfolding supervisor_ok_def by blast

lemma received_end_task:
  assumes "supervisor_ok c seen s" "hm_get (sv_handlers s) t = Some tk" "tk_state tk = TkRunning" "st \<noteq> TkRunning"
  shows "add_mset (tk_request_id tk) (received (end_task t st s)) = received s"
  using end_task_ok[OF assms] by (simp add: received_def)

lemma client_request_ok:
  assumes "supervisor_ok c seen s" "i \<notin> seen"
  shows "supervisor_ok c (insert i seen) (next_state (on_client_event c (Some (EvFrame (FRequest i timeout_micros tr body))) sent s))"
    "received (next_state (on_client_event c (Some (EvFrame (FRequest i timeout_micros tr body))) sent s)) = add_mset i (received s)"
proof -
  note D = supervisor_okD[OF assms(1)]
  have ok: "supervisor_ok c (insert i seen) s" using supervisor_ok_weaken[OF assms(1)] by blast
  have room: "rejection c i timeout_micros s = None \<Longrightarrow> length (sv_aborts s) < sc_max_in_flight_requests_per_connection c"
    by (auto simp: rejection_def split: if_splits)
  show "supervisor_ok c (insert i seen) (next_state (on_client_event c (Some (EvFrame (FRequest i timeout_micros tr body))) sent s))"
    using ok spawn_handler_ok(1)[OF assms room] by (simp split: option.split)
  show "received (next_state (on_client_event c (Some (EvFrame (FRequest i timeout_micros tr body))) sent s)) = add_mset i (received s)"
    using spawn_handler_ok(2)[OF assms room] by (simp add: status_frame_def split: option.split)
qed

lemma server_step_ok:
  assumes "supervisor_ok c seen s" "server_enabled ev s" "set (event_request ev) \<inter> seen = {}"
  shows "supervisor_ok c (set (event_request ev) \<union> seen) (next_state (server_step c ev s)) \<and>
    received (next_state (server_step c ev s)) = mset (event_request ev) + received s"
proof (cases "(c, ev, s)" rule: server_step.cases)
  case (1 c' t frame sent s')
  then show ?thesis using assms end_task_ok(1)[OF assms(1), of t _ TkDone] received_end_task[OF assms(1), of t _ TkDone]
    by (fastforce simp: Let_def split: option.splits)
next
  case (2 c' t s')
  then show ?thesis using assms end_task_ok(1)[OF assms(1), of t _ TkPanicked]
      received_end_task[OF assms(1), of t _ TkPanicked] by (auto split: option.splits)
next
  case (3 c' t s')
  then show ?thesis using assms end_task_ok(1)[OF assms(1), of t _ TkCancelled]
      received_end_task[OF assms(1), of t _ TkCancelled] by (auto split: option.splits)
next
  case (4 c' t s')
  then show ?thesis using assms on_joined_ok[OF assms(1), of t] by (auto split: option.splits)
next
  case (7 c' e sent s')
  show ?thesis
  proof (cases "(c, e, sent, s)" rule: on_client_event.cases)
    case (1 c2 i sent2 s2)
    then show ?thesis using assms(1) 7 cancel_ok[OF assms(1), of i] by (simp split: option.split)
  next
    case (2 c2 i timeout_micros tr body sent2 s2)
    then show ?thesis using assms(3) 7 client_request_ok[OF assms(1), of i] by simp
  qed (use assms(1) 7 in simp_all)
qed (use assms in auto)

lemma serve_loop_ok:
  assumes "supervisor_ok c seen s" "server_enabled_run c evs s" "distinct (concat (map event_request evs))"
    "set (concat (map event_request evs)) \<inter> seen = {}"
  shows "\<exists>seen' got. supervisor_ok c seen' (next_state (serve_loop c evs s)) \<and>
    received (next_state (serve_loop c evs s)) = got + received s \<and> got \<subseteq># mset (concat (map event_request evs)) \<and>
    (\<forall>s'. serve_loop c evs s = SContinue s' \<longrightarrow> got = mset (concat (map event_request evs)))"
  using assms
proof (induction evs arbitrary: s seen)
  case (Cons ev evs)
  have step: "supervisor_ok c (set (event_request ev) \<union> seen) (next_state (server_step c ev s))"
    "received (next_state (server_step c ev s)) = mset (event_request ev) + received s"
    using server_step_ok[OF Cons.prems(1), of ev] Cons.prems(2,4) by auto
  show ?case
  proof (cases "server_step c ev s")
    case (SContinue s1)
    have fresh: "set (concat (map event_request evs)) \<inter> (set (event_request ev) \<union> seen) = {}"
      using Cons.prems(3,4) by (auto simp: Int_Un_distrib)
    have rest: "supervisor_ok c (set (event_request ev) \<union> seen) s1" "server_enabled_run c evs s1"
      "distinct (concat (map event_request evs))"
      using step(1) Cons.prems(2,3) SContinue by auto
    obtain seen' got where "supervisor_ok c seen' (next_state (serve_loop c evs s1))"
      "received (next_state (serve_loop c evs s1)) = got + received s1" "got \<subseteq># mset (concat (map event_request evs))"
      "\<forall>s'. serve_loop c evs s1 = SContinue s' \<longrightarrow> got = mset (concat (map event_request evs))"
      using Cons.IH[OF rest fresh] by blast
    then show ?thesis using step(2) SContinue
      by (intro exI[of _ seen'] exI[of _ "mset (event_request ev) + got"]) (auto simp: ac_simps)
  next
    case (SBreak s1 e)
    then show ?thesis using step
      by (intro exI[of _ "set (event_request ev) \<union> seen"] exI[of _ "mset (event_request ev)"]) auto
  qed
qed auto

lemma distinct_submset: "mset xs \<subseteq># mset ys \<Longrightarrow> distinct ys \<Longrightarrow> distinct xs"
proof -
  assume "mset xs \<subseteq># mset ys" "distinct ys"
  then obtain A where "mset ys = mset xs + A" by (metis mset_subset_eq_exists_conv)
  moreover obtain zs where "mset zs = A" using ex_mset by blast
  ultimately have "mset ys = mset (xs @ zs)" by simp
  from mset_eq_imp_distinct_iff[OF this] show "distinct xs" using \<open>distinct ys\<close> by simp
qed

text \<open>The handlers that are neither finished nor aborted each hold an abort handle.\<close>

lemma active_handlers_bounded:
  assumes "supervisor_ok c seen s"
  shows "card {t. \<exists>tk. hm_get (sv_handlers s) t = Some tk \<and> tk_state tk = TkRunning \<and> \<not> tk_aborted tk}
    \<le> sc_max_in_flight_requests_per_connection c"
proof -
  note D = supervisor_okD[OF assms]
  let ?A = "{t. \<exists>tk. hm_get (sv_handlers s) t = Some tk \<and> tk_state tk = TkRunning \<and> \<not> tk_aborted tk}"
  have "t \<in> set (map snd (sv_aborts s))" if "t \<in> ?A" for t
  proof -
    from that obtain i where "hm_get (sv_aborts s) i = Some t" using D(5) by blast
    then show ?thesis by (force simp: hm_get_def dest: map_of_SomeD)
  qed
  then have "card ?A \<le> card (set (map snd (sv_aborts s)))" by (intro card_mono) auto
  also have "\<dots> \<le> length (sv_aborts s)" using card_length[of "map snd (sv_aborts s)"] by simp
  finally show ?thesis using D(3) by simp
qed


text \<open>
  A run with two requests: the first handler panics, the second is cancelled by the peer after it
  had answered, and the dead handlers are joined.
\<close>

definition sample_requests :: "server_event list" where
  "sample_requests =
     [SupIncoming (Some (EvFrame (FRequest 1 500 (replicate 16 0) []))) True,
      SupIncoming (Some (EvFrame (FRequest 2 500 (replicate 16 0) []))) True,
      HandlerPanicked 0, HandlerDone 1 (FResponse 2 None [7]) True,
      SupIncoming (Some (EvFrame (FCancel 2))) True, SupJoined 1, SupJoined 0]"

lemma sample_requests_run:
  "server_enabled_run ServerConfig_default sample_requests supervisor_new"
  "distinct (concat (map event_request sample_requests))"
  "sv_outgoing (next_state (serve_loop ServerConfig_default sample_requests supervisor_new)) = [FResponse 2 None [7]]"
  "sv_unanswered (next_state (serve_loop ServerConfig_default sample_requests supervisor_new)) = [1]"
  "sv_aborts (next_state (serve_loop ServerConfig_default sample_requests supervisor_new)) = []"
  by (simp_all add: sample_requests_def supervisor_new_def rejection_def ServerConfig_default_def spawn_handler_def
      end_task_def no_answer_def on_joined_def abort_task_def task_finished_def Let_def hm_get_def
      hm_insert_def hm_remove_def hm_contains_def hm_retain_def)


end
