(* ===== verification/Workflow_Pointer.thy ===== *)
theory Workflow_Pointer
  imports Protocol
begin

text \<open>
  JSON pointers of the workflow crate (\<open>crates/nagisalake-workflow/src/pointer.rs\<close>): the
  segments of a pointer, their escaping, and the check that two bindings do not overlap. The
  lookups \<open>Value::pointer\<close> and \<open>Value::pointer_mut\<close> belong to \<open>serde_json\<close> and are the
  parameter \<open>json_pointer_ops\<close>; what is relied on is its documentation, RFC 6901, stated as
  \<open>rfc6901\<close>.
\<close>

subsection \<open>Strings\<close>

text \<open>\<open>str::replace\<close> of a pattern of two characters and of a single character.\<close>

fun replace2 :: "char \<Rightarrow> char \<Rightarrow> string \<Rightarrow> string \<Rightarrow> string" where
  "replace2 a b r (x # y # s) = (if x = a \<and> y = b then r @ replace2 a b r s else x # replace2 a b r (y # s))"
| "replace2 a b r s = s"

definition replace1 :: "char \<Rightarrow> string \<Rightarrow> string \<Rightarrow> string" where
  "replace1 a r s = concat (map (\<lambda>c. if c = a then r else [c]) s)"

subsection \<open>Pointers\<close>

definition unescape_pointer_segment :: "string \<Rightarrow> string" where
  "unescape_pointer_segment s = replace2 CHR ''~'' CHR ''0'' ''~'' (replace2 CHR ''~'' CHR ''1'' ''/'' s)"

definition escape_pointer_segment :: "string \<Rightarrow> string" where
  "escape_pointer_segment s = replace1 CHR ''/'' ''~1'' (replace1 CHR ''~'' ''~0'' s)"

definition raw_segments :: "string \<Rightarrow> string list" where
  "raw_segments p = drop 1 (split_char CHR ''/'' p)"

definition pointer_segments :: "string \<Rightarrow> string list" where
  "pointer_segments p = map unescape_pointer_segment (raw_segments p)"

definition pointer_node_id :: "string \<Rightarrow> string option" where
  "pointer_node_id p = (case pointer_segments p of [] \<Rightarrow> None | s # _ \<Rightarrow> Some s)"

definition pointer_field :: "string \<Rightarrow> string option" where
  "pointer_field p =
     (let segments = pointer_segments p
      in if length segments \<ge> 3 \<and> segments ! 1 = ''inputs'' then Some (segments ! 2) else None)"

definition pointers_overlap :: "string \<Rightarrow> string \<Rightarrow> bool" where
  "pointers_overlap l r \<longleftrightarrow>
     l = r \<or>
     (prefix l r \<and> length l < length r \<and> r ! length l = CHR ''/'') \<or>
     (prefix r l \<and> length r < length l \<and> l ! length r = CHR ''/'')"

subsection \<open>Errors\<close>

datatype WorkflowError =
    EmptyCatalog
  | ReadTemplate string string
  | ParseTemplate string string
  | TemplateMustBeObject string
  | InvalidUiWorkflow string
  | WfRequired string
  | InvalidPointer string
  | DuplicateInputIndex nat
  | DuplicatePublicInput string
  | OverlappingPointers string string
  | NonContiguousInputs
  | DuplicateWorkflow string string
  | NotInstalled string string
  | ParametersMustBeObject
  | UnknownParameter string
  | InputCount nat nat

subsection \<open>The lookups of serde\_json\<close>

text \<open>
  \<open>jp_get\<close> is \<open>Value::pointer\<close>; \<open>jp_set v p x\<close> is an assignment through \<open>Value::pointer_mut\<close>,
  \<open>None\<close> when there is no such place.
\<close>

record json_pointer_ops =
  jp_get :: "json \<Rightarrow> string \<Rightarrow> json option"
  jp_set :: "json \<Rightarrow> string \<Rightarrow> json \<Rightarrow> json option"

text \<open>RFC 6901: an array index is a decimal number without leading zeros.\<close>

definition array_index :: "string \<Rightarrow> nat option" where
  "array_index t =
     (if t \<noteq> [] \<and> list_all is_ascii_digit t \<and> (hd t = CHR ''0'' \<longrightarrow> length t = 1) then Some (read_digits t) else None)"

fun json_at :: "json \<Rightarrow> string list \<Rightarrow> json option" where
  "json_at v [] = Some v"
| "json_at (Object m) (t # ts) = (case map_of m t of None \<Rightarrow> None | Some w \<Rightarrow> json_at w ts)"
| "json_at (Array xs) (t # ts) =
     (case array_index t of None \<Rightarrow> None | Some i \<Rightarrow> if i < length xs then json_at (xs ! i) ts else None)"
| "json_at v (t # ts) = None"

fun json_put :: "json \<Rightarrow> string list \<Rightarrow> json \<Rightarrow> json option" where
  "json_put v [] x = Some x"
| "json_put (Object m) (t # ts) x =
     (case map_of m t of
        None \<Rightarrow> None
      | Some w \<Rightarrow>
          (case json_put w ts x of None \<Rightarrow> None | Some w' \<Rightarrow> Some (Object (AList.update t w' m))))"
| "json_put (Array xs) (t # ts) x =
     (case array_index t of
        None \<Rightarrow> None
      | Some i \<Rightarrow>
          if i < length xs
          then (case json_put (xs ! i) ts x of None \<Rightarrow> None | Some w' \<Rightarrow> Some (Array (xs[i := w'])))
          else None)"
| "json_put v (t # ts) x = None"

definition rfc6901 :: "json_pointer_ops \<Rightarrow> bool" where
  "rfc6901 P \<longleftrightarrow>
     (\<forall>v p. prefix ''/'' p \<longrightarrow> jp_get P v p = json_at v (pointer_segments p)) \<and>
     (\<forall>v p x. prefix ''/'' p \<longrightarrow> jp_set P v p x = json_put v (pointer_segments p) x)"

definition validate_pointer :: "json_pointer_ops \<Rightarrow> json \<Rightarrow> string \<Rightarrow> (WorkflowError, unit) result" where
  "validate_pointer P template p =
     (if \<not> prefix ''/'' p \<or> jp_get P template p = None then Err (InvalidPointer p) else Ok ())"

definition insert_pointer :: "string list \<Rightarrow> string \<Rightarrow> (WorkflowError, string list) result" where
  "insert_pointer pointers p =
     (case find (\<lambda>existing. pointers_overlap existing p) pointers of
        Some existing \<Rightarrow> Err (OverlappingPointers existing p)
      | None \<Rightarrow> Ok (pointers @ [p]))"

text \<open>The reference implementation of the two lookups, which satisfies the documentation.\<close>

definition rfc_ops :: json_pointer_ops where
  "rfc_ops =
     \<lparr>jp_get = (\<lambda>v p. if p = [] then Some v else if hd p = CHR ''/'' then json_at v (pointer_segments p) else None),
      jp_set = (\<lambda>v p x. if p = [] then Some x else if hd p = CHR ''/'' then json_put v (pointer_segments p) x else None)\<rparr>"

lemma rfc_ops: "rfc6901 rfc_ops"
  by (auto simp: rfc6901_def rfc_ops_def neq_Nil_conv prefix_def)

subsection \<open>Escaping\<close>

lemma replace1_simps [simp]:
  "replace1 a r [] = []" "replace1 a r (c # s) = (if c = a then r else [c]) @ replace1 a r s"
  "replace1 a r (s @ t) = replace1 a r s @ replace1 a r t"
  by (simp_all add: replace1_def)

lemma replace2_Cons [simp]: "x \<noteq> a \<Longrightarrow> replace2 a b r (x # s) = x # replace2 a b r s"
  by (cases s) auto

lemma escape_Cons:
  "escape_pointer_segment (c # s) =
     (if c = CHR ''~'' then ''~0'' else if c = CHR ''/'' then ''~1'' else [c]) @ escape_pointer_segment s"
  by (simp add: escape_pointer_segment_def)

lemma unescape_simps [simp]:
  "unescape_pointer_segment [] = []"
  "unescape_pointer_segment (CHR ''~'' # CHR ''0'' # s) = CHR ''~'' # unescape_pointer_segment s"
  "unescape_pointer_segment (CHR ''~'' # CHR ''1'' # s) = CHR ''/'' # unescape_pointer_segment s"
  "c \<noteq> CHR ''~'' \<Longrightarrow> unescape_pointer_segment (c # s) = c # unescape_pointer_segment s"
  by (simp_all add: unescape_pointer_segment_def)

lemma unescape_escape: "unescape_pointer_segment (escape_pointer_segment s) = s"
  by (induction s) (auto simp: escape_Cons, simp add: escape_pointer_segment_def)

lemma escape_no_slash: "CHR ''/'' \<notin> set (escape_pointer_segment s)"
  by (induction s) (auto simp: escape_Cons, simp add: escape_pointer_segment_def)

text \<open>A segment is well formed when every tilde starts an escape.\<close>

fun escape_ok :: "string \<Rightarrow> bool" where
  "escape_ok [] \<longleftrightarrow> True"
| "escape_ok (c # s) \<longleftrightarrow>
     (if c = CHR ''~'' then (case s of [] \<Rightarrow> False | d # s' \<Rightarrow> (d = CHR ''0'' \<or> d = CHR ''1'') \<and> escape_ok s)
      else escape_ok s)"

lemma escape_unescape: "escape_ok s \<Longrightarrow> CHR ''/'' \<notin> set s \<Longrightarrow> escape_pointer_segment (unescape_pointer_segment s) = s"
proof (induction s rule: length_induct)
  case (1 s)
  show ?case
  proof (cases s)
    case Nil
    then show ?thesis by (simp add: escape_pointer_segment_def)
  next
    case (Cons c t)
    then show ?thesis using 1 by (cases t) (auto simp: escape_Cons split: if_splits)
  qed
qed

definition pointer_ok :: "string \<Rightarrow> bool" where
  "pointer_ok p \<longleftrightarrow> prefix ''/'' p \<and> list_all escape_ok (raw_segments p)"

lemma pointer_ok_inject:
  assumes "list_all escape_ok ss" "list_all escape_ok ts" "\<forall>s\<in>set ss \<union> set ts. CHR ''/'' \<notin> set s"
    "map unescape_pointer_segment ss = map unescape_pointer_segment ts"
  shows "ss = ts"
proof -
  have "map escape_pointer_segment (map unescape_pointer_segment us) = us"
    if "list_all escape_ok us" "\<forall>s\<in>set us. CHR ''/'' \<notin> set s" for us
    using that by (induction us) (auto simp: escape_unescape)
  then show ?thesis using assms by (metis UnCI)
qed

lemma raw_segments_concat: "prefix ''/'' p \<Longrightarrow> concat (map (\<lambda>s. CHR ''/'' # s) (raw_segments p)) = p"
  by (cases p) (auto simp: raw_segments_def concat_split_char)

lemma raw_segments_no_slash: "s \<in> set (raw_segments p) \<Longrightarrow> CHR ''/'' \<notin> set s"
  unfolding raw_segments_def by (metis in_set_dropD split_char_no_sep)

text \<open>Two well-formed pointers that the textual check separates lead to places that do not contain each other.\<close>

lemma separated_not_prefix:
  assumes "pointer_ok p" "pointer_ok q" "\<not> pointers_overlap p q"
  shows "\<not> prefix (pointer_segments p) (pointer_segments q)"
proof
  assume "prefix (pointer_segments p) (pointer_segments q)"
  then have eq: "map unescape_pointer_segment (raw_segments p) =
      map unescape_pointer_segment (take (length (raw_segments p)) (raw_segments q))"
    unfolding pointer_segments_def by (metis append_eq_conv_conj length_map prefixE take_map)
  have "raw_segments p = take (length (raw_segments p)) (raw_segments q)"
    by (rule pointer_ok_inject[OF _ _ _ eq])
      (use assms(1,2) raw_segments_no_slash in \<open>auto simp: pointer_ok_def list_all_iff dest: in_set_takeD\<close>)
  then have "q = p @ concat (map (\<lambda>s. CHR ''/'' # s) (drop (length (raw_segments p)) (raw_segments q)))"
    using assms(1,2) raw_segments_concat
    by (metis append_take_drop_id concat_append map_append pointer_ok_def)
  then show False using assms(3)
    by (cases "drop (length (raw_segments p)) (raw_segments q)") (auto simp: pointers_overlap_def nth_append prefix_def)
qed

lemma pointers_overlap_sym: "pointers_overlap p q \<longleftrightarrow> pointers_overlap q p"
  by (auto simp: pointers_overlap_def)

lemma separated_parallel:
  "pointer_ok p \<Longrightarrow> pointer_ok q \<Longrightarrow> \<not> pointers_overlap p q \<Longrightarrow> parallel (pointer_segments p) (pointer_segments q)"
  using separated_not_prefix[of p q] separated_not_prefix[of q p] by (auto simp: parallel_def pointers_overlap_sym)

subsection \<open>Places in a value\<close>

lemma array_index_inject:
  assumes "array_index s = Some i" "array_index t = Some i"
  shows "s = t"
proof -
  have canonical: "show_nat (read_digits u) = u" if "u \<noteq> []" "list_all is_ascii_digit u" "hd u = CHR ''0'' \<longrightarrow> length u = 1" for u
    using that
  proof (induction u rule: rev_induct)
    case (snoc c u)
    have c: "48 \<le> ascii c" "ascii c \<le> 57" "char_of (ascii c) = c"
      using snoc.prems(2) by (auto simp: is_ascii_digit_def ascii_def)
    show ?case
    proof (cases "u = []")
      case True
      have "ascii c - 48 < 10" using c(2) by linarith
      then show ?thesis using True c by (subst show_nat.simps) (simp add: read_digits_def)
    next
      case False
      have IH: "show_nat (read_digits u) = u"
        using snoc False by (cases u) auto
      have "read_digits u \<noteq> 0"
      proof
        assume "read_digits u = 0"
        then have "u = [char_of (48 :: nat)]" using IH by (simp add: show_nat.simps)
        moreover have "char_of (48 :: nat) = CHR ''0''" by code_simp
        ultimately show False using snoc.prems(3) by simp
      qed
      moreover have "read_digits (u @ [c]) = read_digits u * 10 + (ascii c - 48)" by (simp add: read_digits_def)
      moreover have "ascii c = 48 + (ascii c - 48)" "ascii c - 48 < 10" using c(1,2) by linarith+
      then obtain d where d: "ascii c = 48 + d" "d < 10" by blast
      ultimately show ?thesis using IH c d by (subst show_nat.simps) auto
    qed
  qed simp
  have "show_nat (read_digits s) = s" "show_nat (read_digits t) = t" "read_digits s = read_digits t"
    using assms canonical[of s] canonical[of t] by (auto simp: array_index_def split: if_splits)
  then show ?thesis by metis
qed

lemma json_put_defined: "json_put v p x = None \<longleftrightarrow> json_at v p = None"
  by (induction v p x rule: json_put.induct) (auto split: option.split)

lemma json_at_put_same: "json_put v p x = Some v' \<Longrightarrow> json_at v' p = Some x"
  by (induction v p x arbitrary: v' rule: json_put.induct)
    (auto simp: update_conv split: option.splits if_splits)

lemma json_at_put_parallel:
  "json_put v p x = Some v' \<Longrightarrow> parallel p q \<Longrightarrow> json_at v' q = json_at v q"
proof (induction v p x arbitrary: v' q rule: json_put.induct)
  case (2 m t ts x)
  then obtain u us where q: "q = u # us" by (cases q) auto
  obtain w w' where w: "map_of m t = Some w" "json_put w ts x = Some w'" "v' = Object (AList.update t w' m)"
    using "2.prems"(1) by (auto split: option.splits)
  show ?case
  proof (cases "u = t")
    case True
    then have "parallel ts us" using "2.prems"(2) q by (simp add: parallel_def)
    from "2.IH"[OF w(1,2) this] show ?thesis using w q True by (simp add: update_conv)
  qed (simp add: w q update_conv)
next
  case (3 xs t ts x)
  then obtain u us where q: "q = u # us" by (cases q) auto
  obtain i w' where w: "array_index t = Some i" "i < length xs" "json_put (xs ! i) ts x = Some w'" "v' = Array (xs[i := w'])"
    using "3.prems"(1) by (auto split: option.splits if_splits)
  show ?case
  proof (cases "u = t")
    case True
    then have "parallel ts us" using "3.prems"(2) q by (simp add: parallel_def)
    from "3.IH"[OF w(1,2,3) this] show ?thesis using w q True by simp
  next
    case False
    then have "array_index u \<noteq> Some i" using array_index_inject[of u i t] w(1) by auto
    then show ?thesis by (auto simp: w q nth_list_update split: option.split)
  qed
qed (auto simp: parallel_def)

end
