(* ===== verification/Workflow_Normalize.thy ===== *)
theory Workflow_Normalize
  imports Workflow_Pointer
begin

text \<open>
  The conversion of a ComfyUI editor graph into the API format
  (\<open>crates/nagisalake-workflow/src/normalize.rs\<close>), with the metadata of its inputs and the
  warnings of the manifest. A loop with early returns is a recursion over its list.
\<close>

subsection \<open>Accessors of JSON values\<close>

definition json_get :: "json \<Rightarrow> string \<Rightarrow> json option" where
  "json_get v k = (case v of Object m \<Rightarrow> map_of m k | _ \<Rightarrow> None)"

definition as_array :: "json \<Rightarrow> json list option" where
  "as_array v = (case v of Array xs \<Rightarrow> Some xs | _ \<Rightarrow> None)"

definition as_str :: "json \<Rightarrow> string option" where
  "as_str v = (case v of String s \<Rightarrow> Some s | _ \<Rightarrow> None)"

definition as_u64 :: "json \<Rightarrow> u64 option" where
  "as_u64 v = (case v of Number (PosInt n) \<Rightarrow> Some n | _ \<Rightarrow> None)"

definition is_integer_number :: "json \<Rightarrow> bool" where
  "is_integer_number v \<longleftrightarrow> (case v of Number (PosInt _) \<Rightarrow> True | Number (NegInt _) \<Rightarrow> True | _ \<Rightarrow> False)"

definition is_number :: "json \<Rightarrow> bool" where
  "is_number v \<longleftrightarrow> (case v of Number _ \<Rightarrow> True | _ \<Rightarrow> False)"

definition is_boolean :: "json \<Rightarrow> bool" where
  "is_boolean v \<longleftrightarrow> (case v of Bool _ \<Rightarrow> True | _ \<Rightarrow> False)"

definition is_string :: "json \<Rightarrow> bool" where
  "is_string v \<longleftrightarrow> (case v of String _ \<Rightarrow> True | _ \<Rightarrow> False)"

definition to_ascii_uppercase :: "char \<Rightarrow> char" where
  "to_ascii_uppercase c = (if 97 \<le> ascii c \<and> ascii c \<le> 122 then char_of (ascii c - 32) else c)"

definition ascii_uppercase :: "string \<Rightarrow> string" where
  "ascii_uppercase s = map to_ascii_uppercase s"

text \<open>\<open>.and_then(as_str).filter(not blank)\<close>.\<close>

definition nonblank_str :: "json option \<Rightarrow> string option" where
  "nonblank_str v =
     (case Option.bind v as_str of None \<Rightarrow> None | Some s \<Rightarrow> if trim s = [] then None else Some s)"

subsection \<open>The conversion\<close>

record UiInputMetadata =
  ui_input_type :: string
  ui_node_type :: string

record NormalizedWorkflow =
  nw_template :: json
  nw_ui_inputs :: "(string, UiInputMetadata) btree_map"
  nw_warnings :: "string list"

definition NormalizedWorkflow_default :: NormalizedWorkflow where
  "NormalizedWorkflow_default = \<lparr>nw_template = Null, nw_ui_inputs = [], nw_warnings = []\<rparr>"

definition node_id :: "json \<Rightarrow> (WorkflowError, string) result" where
  "node_id node =
     (case Option.bind (json_get node ''id'') as_u64 of
        Some i \<Rightarrow> Ok (show_nat (unat i))
      | None \<Rightarrow> ok_or (InvalidUiWorkflow ''node id is required'') (nonblank_str (json_get node ''id'')))"

definition widget_value_matches_type :: "json \<Rightarrow> string \<Rightarrow> bool" where
  "widget_value_matches_type v input_type =
     (let t = ascii_uppercase input_type
      in if t = ''INT'' then is_integer_number v
         else if t = ''FLOAT'' then is_number v
         else if t = ''BOOLEAN'' then is_boolean v
         else if t = ''STRING'' \<or> t = ''COMBO'' then is_string v
         else True)"

fun position :: "('a \<Rightarrow> bool) \<Rightarrow> 'a list \<Rightarrow> nat option" where
  "position f [] = None"
| "position f (x # xs) = (if f x then Some 0 else map_option Suc (position f xs))"

definition warn_input :: "string \<Rightarrow> string \<Rightarrow> string \<Rightarrow> string" where
  "warn_input nid name what = ''node '' @ nid @ '' input '' @ name @ what"

text \<open>The widget value of an input, the next index into an array of widgets, and the warnings.\<close>

definition next_widget_value ::
  "string \<Rightarrow> string \<Rightarrow> string \<Rightarrow> json \<Rightarrow> json option \<Rightarrow> nat \<Rightarrow> string list \<Rightarrow> json option \<times> nat \<times> string list" where
  "next_widget_value nid name input_type input widgets index warnings =
     (let missing = (\<lambda>v ws. if v = None then ws @ [warn_input nid name '' has no corresponding widgets_values entry''] else ws)
      in case widgets of
           Some (Object values) \<Rightarrow>
             let widget_name =
                   (case Option.bind (Option.bind (json_get input ''widget'') (\<lambda>w. json_get w ''name'')) as_str of
                      None \<Rightarrow> name | Some n \<Rightarrow> n);
                 v = (case map_of values widget_name of None \<Rightarrow> map_of values name | Some v \<Rightarrow> Some v)
             in (v, index, missing v warnings)
         | Some (Array values) \<Rightarrow>
             (case position (\<lambda>v. widget_value_matches_type v input_type) (drop index values) of
                None \<Rightarrow> (None, index, warnings @ [warn_input nid name '' has no type-compatible widgets_values entry''])
              | Some k \<Rightarrow>
                  let ws = (if k > 0
                            then warnings @ [warn_input nid name ('' skipped '' @ show_nat k @
                                   '' auxiliary widgets_values entries'')]
                            else warnings);
                      v = (if index + k < length values then Some (values ! (index + k)) else None)
                  in (v, index + k + 1, missing v ws))
         | Some _ \<Rightarrow>
             (None, index, missing None (warnings @ [warn_input nid name '' has unsupported widgets_values shape'']))
         | None \<Rightarrow> (None, index, missing None warnings))"

fun collect_links :: "json list \<Rightarrow> (u64, u64 \<times> u64) hash_map \<Rightarrow> (WorkflowError, (u64, u64 \<times> u64) hash_map) result" where
  "collect_links [] links = Ok links"
| "collect_links (link # rest) links =
     (case as_array link of
        None \<Rightarrow> Err (InvalidUiWorkflow ''link must be an array'')
      | Some values \<Rightarrow>
          if length values < 5
          then Err (InvalidUiWorkflow ''link must contain id, origin node, and origin slot'')
          else (case (as_u64 (values ! 0), as_u64 (values ! 1), as_u64 (values ! 2)) of
                  (Some l, Some origin_node, Some origin_slot) \<Rightarrow>
                    collect_links rest (hm_insert l (origin_node, origin_slot) links)
                | _ \<Rightarrow> collect_links rest links))"

definition input_pointer :: "string \<Rightarrow> string \<Rightarrow> string" where
  "input_pointer nid name = ''/'' @ escape_pointer_segment nid @ ''/inputs/'' @ escape_pointer_segment name"

definition unknown_link :: "string \<Rightarrow> string \<Rightarrow> u64 \<Rightarrow> string" where
  "unknown_link nid name l = warn_input nid name ('' references unknown link '' @ show_nat (unat l))"

definition input_type_of :: "json \<Rightarrow> string" where
  "input_type_of input = (case Option.bind (json_get input ''type'') as_str of None \<Rightarrow> ''UNKNOWN'' | Some t \<Rightarrow> t)"

type_synonym ui_map = "(string, UiInputMetadata) btree_map"

fun normalize_inputs ::
  "(u64, u64 \<times> u64) hash_map \<Rightarrow> string \<Rightarrow> string \<Rightarrow> json option \<Rightarrow> json list \<Rightarrow> nat
   \<Rightarrow> (string, json) btree_map \<times> ui_map \<times> string list
   \<Rightarrow> (WorkflowError, (string, json) btree_map \<times> ui_map \<times> string list) result" where
  "normalize_inputs links nid node_type widgets [] index acc = Ok acc"
| "normalize_inputs links nid node_type widgets (input # rest) index (inputs, ui_inputs, warnings) =
     (case nonblank_str (json_get input ''name'') of
        None \<Rightarrow> Err (InvalidUiWorkflow ''node input name is required'')
      | Some name \<Rightarrow>
          let ui1 = bt_insert (input_pointer nid name)
                      \<lparr>ui_input_type = input_type_of input, ui_node_type = node_type\<rparr> ui_inputs
          in case Option.bind (json_get input ''link'') as_u64 of
               Some l \<Rightarrow>
                 (case hm_get links l of
                    None \<Rightarrow>
                      normalize_inputs links nid node_type widgets rest index (inputs, ui1, warnings @ [unknown_link nid name l])
                  | Some (origin_node, origin_slot) \<Rightarrow>
                      normalize_inputs links nid node_type widgets rest index
                        (bt_insert name (Array [String (show_nat (unat origin_node)), Number (PosInt origin_slot)]) inputs,
                         ui1, warnings))
             | None \<Rightarrow>
                 if json_get input ''widget'' \<noteq> None
                 then (case next_widget_value nid name (input_type_of input) input widgets index warnings of
                         (v, index1, warnings1) \<Rightarrow>
                           normalize_inputs links nid node_type widgets rest index1
                             (bt_insert name (case v of None \<Rightarrow> Null | Some x \<Rightarrow> x) inputs, ui1, warnings1))
                 else normalize_inputs links nid node_type widgets rest index
                        (bt_insert name Null inputs, ui1,
                         warnings @ [warn_input nid name '' is unlinked and has no static widget default'']))"

definition as_array_or_empty :: "json option \<Rightarrow> json list" where
  "as_array_or_empty v = (case Option.bind v as_array of None \<Rightarrow> [] | Some xs \<Rightarrow> xs)"

definition api_node :: "string \<Rightarrow> (string, json) btree_map \<Rightarrow> json" where
  "api_node node_type inputs = Object [(''class_type'', String node_type), (''inputs'', Object inputs)]"

definition normalize_node ::
  "(u64, u64 \<times> u64) hash_map \<Rightarrow> json \<Rightarrow> (string, json) btree_map \<times> ui_map \<times> string list
   \<Rightarrow> (WorkflowError, (string, json) btree_map \<times> ui_map \<times> string list) result" where
  "normalize_node links node acc =
     (case acc of (template, ui_inputs, warnings) \<Rightarrow>
       and_then (node_id node) (\<lambda>nid.
       and_then (ok_or (InvalidUiWorkflow ''node type is required'') (nonblank_str (json_get node ''type''))) (\<lambda>node_type.
       and_then (normalize_inputs links nid node_type (json_get node ''widgets_values'')
                   (as_array_or_empty (json_get node ''inputs'')) 0 ([], ui_inputs, warnings)) (\<lambda>(inputs, ui1, warnings1).
       Ok (bt_insert nid (api_node node_type inputs) template, ui1, warnings1)))))"

fun normalize_nodes ::
  "(u64, u64 \<times> u64) hash_map \<Rightarrow> json list \<Rightarrow> (string, json) btree_map \<times> ui_map \<times> string list
   \<Rightarrow> (WorkflowError, (string, json) btree_map \<times> ui_map \<times> string list) result" where
  "normalize_nodes links [] acc = Ok acc"
| "normalize_nodes links (node # rest) acc = and_then (normalize_node links node acc) (normalize_nodes links rest)"

definition converted_warning :: string where
  "converted_warning =
     ''workflow was converted from ComfyUI editor format; verify widget defaults and exposed bindings''"

definition normalize_workflow :: "json \<Rightarrow> (WorkflowError, NormalizedWorkflow) result" where
  "normalize_workflow raw =
     (case json_get raw ''nodes'' of
        None \<Rightarrow> Ok (NormalizedWorkflow_default\<lparr>nw_template := raw\<rparr>)
      | Some nv \<Rightarrow>
          and_then (ok_or (InvalidUiWorkflow ''nodes must be an array'') (as_array nv)) (\<lambda>nodes.
          and_then (collect_links (as_array_or_empty (json_get raw ''links'')) []) (\<lambda>links.
          and_then (normalize_nodes links nodes ([], [], [converted_warning])) (\<lambda>(template, ui_inputs, warnings).
          if nodes = [] then Err (InvalidUiWorkflow ''nodes must contain at least one node'')
          else Ok \<lparr>nw_template = Object template, nw_ui_inputs = ui_inputs, nw_warnings = warnings\<rparr>))))"

subsection \<open>Every recorded input has a place in the template\<close>

text \<open>The pointer of an input names the node, its inputs and the input, whatever characters their names have.\<close>

lemma segments_input_pointer: "pointer_segments (input_pointer nid name) = [nid, ''inputs'', name]"
proof -
  have "split_char CHR ''/'' (input_pointer nid name) =
      [[], escape_pointer_segment nid, ''inputs'', escape_pointer_segment name]"
    using split_char_append[OF escape_no_slash[of nid], of "''inputs/'' @ escape_pointer_segment name"]
      split_char_append[of "CHR ''/''" "''inputs''" "escape_pointer_segment name"]
      split_char_none[OF escape_no_slash[of name]]
    by (simp add: input_pointer_def)
  then show ?thesis by (simp add: pointer_segments_def raw_segments_def unescape_escape)
qed

lemma input_pointer_inject: "input_pointer a x = input_pointer b y \<longleftrightarrow> a = b \<and> x = y"
  by (metis list.inject segments_input_pointer)

text \<open>An input of the node \<open>nid\<close> is placed or has a warning about its link.\<close>

definition placed :: "string \<Rightarrow> (string, json) btree_map \<Rightarrow> string list \<Rightarrow> string \<Rightarrow> bool" where
  "placed nid inputs warnings name \<longleftrightarrow>
     map_of inputs name \<noteq> None \<or> (\<exists>l. unknown_link nid name l \<in> set warnings)"

lemma map_of_bt_insert [simp]: "map_of (bt_insert k v m) = (map_of m)(k \<mapsto> v)"
  using bt_get_insert[of k v m] by (simp add: bt_get_def)

lemma next_widget_value_warnings:
  "next_widget_value nid name ty input widgets index warnings = (v, index', warnings') \<Longrightarrow> set warnings \<subseteq> set warnings'"
  by (auto simp: next_widget_value_def Let_def split: option.splits json.splits if_splits)

lemma placed_mono:
  "placed nid inputs warnings name \<Longrightarrow> set warnings \<subseteq> set warnings' \<Longrightarrow> placed nid (bt_insert k v inputs) warnings' name"
  "placed nid inputs warnings name \<Longrightarrow> set warnings \<subseteq> set warnings' \<Longrightarrow> placed nid inputs warnings' name"
  by (auto simp: placed_def)

lemma placed_insert [simp]: "placed nid (bt_insert name v inputs) warnings name"
  by (simp add: placed_def)

lemma placed_unknown [simp]: "placed nid inputs (warnings @ [unknown_link nid name l]) name"
  by (auto simp: placed_def)

definition ui_covered :: "string \<Rightarrow> ui_map \<Rightarrow> (string, json) btree_map \<times> ui_map \<times> string list \<Rightarrow> bool" where
  "ui_covered nid ui0 acc \<longleftrightarrow>
     (case acc of (inputs, ui, warnings) \<Rightarrow>
        \<forall>q. map_of ui q \<noteq> None \<longrightarrow> map_of ui0 q \<noteq> None \<or> (\<exists>name. q = input_pointer nid name \<and> placed nid inputs warnings name))"

lemma ui_covered_step:
  assumes "ui_covered nid ui0 (inputs, ui, warnings)" "set warnings \<subseteq> set warnings'"
    "\<And>name'. placed nid inputs warnings name' \<Longrightarrow> placed nid inputs' warnings' name'" "placed nid inputs' warnings' name"
  shows "ui_covered nid ui0 (inputs', bt_insert (input_pointer nid name) m ui, warnings')"
proof -
  have "map_of ui0 q \<noteq> None \<or> (\<exists>n. q = input_pointer nid n \<and> placed nid inputs' warnings' n)"
    if q: "map_of (bt_insert (input_pointer nid name) m ui) q \<noteq> None" for q
  proof (cases "q = input_pointer nid name")
    case True
    then show ?thesis using assms(4) by blast
  next
    case False
    then have "map_of ui q \<noteq> None" using q by simp
    then show ?thesis using assms(1,3) unfolding ui_covered_def by fast
  qed
  then show ?thesis unfolding ui_covered_def by blast
qed

lemma normalize_inputs_covered:
  assumes "normalize_inputs links nid ty widgets ins index (inputs, ui, warnings) = Ok (inputs', ui', warnings')"
    "ui_covered nid ui0 (inputs, ui, warnings)"
  shows "ui_covered nid ui0 (inputs', ui', warnings') \<and> set warnings \<subseteq> set warnings'"
  using assms
proof (induction ins arbitrary: index inputs ui warnings)
  case (Cons input rest)
  obtain name where name: "nonblank_str (json_get input ''name'') = Some name"
    using Cons.prems(1) by (auto simp: Let_def split: option.splits)
  let ?ui = "bt_insert (input_pointer nid name) \<lparr>ui_input_type = input_type_of input, ui_node_type = ty\<rparr> ui"
  obtain index1 inputs1 warnings1 where step:
    "normalize_inputs links nid ty widgets rest index1 (inputs1, ?ui, warnings1) = Ok (inputs', ui', warnings')"
    "set warnings \<subseteq> set warnings1" "placed nid inputs1 warnings1 name"
    "\<And>name'. placed nid inputs warnings name' \<Longrightarrow> placed nid inputs1 warnings1 name'"
  proof (cases "Option.bind (json_get input ''link'') as_u64")
    case None
    show ?thesis
    proof (cases "json_get input ''widget'' = None")
      case True
      then show ?thesis using Cons.prems(1) name None 
        by (intro that[of index "bt_insert name Null inputs"]) (auto simp: Let_def elim!: placed_mono(1))
    next
      case False
      obtain v index1 warnings1 where w:
        "next_widget_value nid name (input_type_of input) input widgets index warnings = (v, index1, warnings1)"
        by (metis prod_cases3)
      then show ?thesis using Cons.prems(1) name None False next_widget_value_warnings[OF w]
        by (intro that[of index1 "bt_insert name (case v of None \<Rightarrow> Null | Some x \<Rightarrow> x) inputs"])
          (auto simp: Let_def elim!: placed_mono(1))
    qed
  next
    case (Some l)
    show ?thesis
    proof (cases "hm_get links l")
      case None
      then show ?thesis using Cons.prems(1) name Some
        by (intro that[of index inputs "warnings @ [unknown_link nid name l]"]) (auto simp: Let_def elim: placed_mono(2))
    next
      case (Some ab)
      moreover obtain a b where "ab = (a, b)" by (cases ab)
      ultimately show ?thesis using Cons.prems(1) name \<open>Option.bind (json_get input ''link'') as_u64 = Some l\<close>
        by (intro that[of index "bt_insert name (Array [String (show_nat (unat a)), Number (PosInt b)]) inputs" warnings])
          (auto simp: Let_def elim!: placed_mono(1))
    qed
  qed
  have "ui_covered nid ui0 (inputs1, ?ui, warnings1)"
    using ui_covered_step[OF Cons.prems(2) step(2,4,3)] .
  from Cons.IH[OF step(1) this] show ?case using step(2) by blast
qed simp

text \<open>Across the nodes: with distinct ids the place of an earlier node is not touched.\<close>

definition template_covers :: "(string, json) btree_map \<times> ui_map \<times> string list \<Rightarrow> bool" where
  "template_covers acc \<longleftrightarrow>
     (case acc of (template, ui, warnings) \<Rightarrow>
        \<forall>q. map_of ui q \<noteq> None \<longrightarrow>
          (\<exists>nid name. q = input_pointer nid name \<and>
             (json_at (Object template) [nid, ''inputs'', name] \<noteq> None \<or> (\<exists>l. unknown_link nid name l \<in> set warnings))))"

lemma normalize_node_covers:
  assumes "normalize_node links node (template, ui, warnings) = Ok (template', ui', warnings')"
    "template_covers (template, ui, warnings)" "\<And>nid. node_id node = Ok nid \<Longrightarrow> map_of template nid = None"
  shows "template_covers (template', ui', warnings') \<and>
    (\<forall>nid. map_of template' nid \<noteq> None \<longrightarrow> map_of template nid \<noteq> None \<or> node_id node = Ok nid)"
proof -
  obtain nid ty inputs where n: "node_id node = Ok nid"
    and i: "normalize_inputs links nid ty (json_get node ''widgets_values'') (as_array_or_empty (json_get node ''inputs''))
        0 ([], ui, warnings) = Ok (inputs, ui', warnings')"
    and t: "template' = bt_insert nid (api_node ty inputs) template"
    using assms(1) by (auto simp: normalize_node_def and_then_eq_Ok)
  have start: "ui_covered nid ui ([], ui, warnings)" by (simp add: ui_covered_def)
  have c: "ui_covered nid ui (inputs, ui', warnings')" "set warnings \<subseteq> set warnings'"
    using normalize_inputs_covered[OF i start] by auto
  have old: "\<exists>nid' name. q = input_pointer nid' name \<and>
      (json_at (Object template') [nid', ''inputs'', name] \<noteq> None \<or> (\<exists>l. unknown_link nid' name l \<in> set warnings'))"
    if q: "map_of ui q \<noteq> None" for q
  proof -
    obtain nid' name where p: "q = input_pointer nid' name"
      "json_at (Object template) [nid', ''inputs'', name] \<noteq> None \<or> (\<exists>l. unknown_link nid' name l \<in> set warnings)"
      using assms(2) q by (force simp: template_covers_def)
    have "nid' \<noteq> nid \<or> (\<exists>l. unknown_link nid' name l \<in> set warnings)"
      using p(2) assms(3)[OF n] by auto
    then show ?thesis using p c(2) by (intro exI[of _ nid'] exI[of _ name]) (auto simp: t)
  qed
  have new: "json_at (Object template') [nid, ''inputs'', name] \<noteq> None \<or> (\<exists>l. unknown_link nid name l \<in> set warnings')"
    if "placed nid inputs warnings' name" for name
    using that by (auto simp: t api_node_def placed_def)
  have "template_covers (template', ui', warnings')"
    unfolding template_covers_def prod.case
  proof (intro allI impI)
    fix q assume "map_of ui' q \<noteq> None"
    then consider "map_of ui q \<noteq> None" | name where "q = input_pointer nid name" "placed nid inputs warnings' name"
      using c(1) unfolding ui_covered_def prod.case by blast
    then show "\<exists>nid name. q = input_pointer nid name \<and>
        (json_at (Object template') [nid, ''inputs'', name] \<noteq> None \<or> (\<exists>l. unknown_link nid name l \<in> set warnings'))"
      using old new by cases blast+
  qed
  then show ?thesis by (simp add: t n)
qed

lemma normalize_nodes_covers:
  assumes "normalize_nodes links nodes (template, ui, warnings) = Ok (template', ui', warnings')"
    "template_covers (template, ui, warnings)" "distinct (map node_id nodes)"
    "\<And>nid. map_of template nid \<noteq> None \<Longrightarrow> Ok nid \<notin> node_id ` set nodes"
  shows "template_covers (template', ui', warnings')"
  using assms
proof (induction nodes arbitrary: template ui warnings)
  case (Cons node rest)
  obtain template1 ui1 warnings1 where s: "normalize_node links node (template, ui, warnings) = Ok (template1, ui1, warnings1)"
    "normalize_nodes links rest (template1, ui1, warnings1) = Ok (template', ui', warnings')"
    using Cons.prems(1) by (auto simp: and_then_eq_Ok)
  have fresh: "map_of template nid = None" if "node_id node = Ok nid" for nid
    using Cons.prems(4)[of nid] that by fastforce
  from normalize_node_covers[OF s(1) Cons.prems(2) fresh]
  have "template_covers (template1, ui1, warnings1)"
    "\<And>nid. map_of template1 nid \<noteq> None \<Longrightarrow> map_of template nid \<noteq> None \<or> node_id node = Ok nid" by blast+
  then show ?case using Cons.IH[OF s(2)] Cons.prems(3,4) by (metis (no_types, lifting) distinct.simps(2) image_insert
        insert_iff list.set(2) list.simps(9) set_map)
qed simp

text \<open>
  The conversion of an editor workflow is consistent with its metadata. For a graph whose
  nodes have distinct ids, the pointer recorded for an input, looked up in the converted
  template as RFC 6901 prescribes, exists; the only exceptions are inputs with a link that the
  graph does not declare, each of which has a warning of its own.
\<close>

theorem normalized_inputs_resolve:
  assumes "rfc6901 P" "json_get raw ''nodes'' = Some (Array nodes)" "distinct (map node_id nodes)"
    "normalize_workflow raw = Ok w" "map_of (nw_ui_inputs w) q = Some meta"
  shows "jp_get P (nw_template w) q \<noteq> None \<or> (\<exists>nid name l. q = input_pointer nid name \<and> unknown_link nid name l \<in> set (nw_warnings w))"
proof -
  obtain links template ui warnings where r: "normalize_nodes links nodes ([], [], [converted_warning]) = Ok (template, ui, warnings)"
    and w: "w = \<lparr>nw_template = Object template, nw_ui_inputs = ui, nw_warnings = warnings\<rparr>"
    using assms(2,4) by (auto simp: normalize_workflow_def as_array_def ok_or_def and_then_eq_Ok split: if_splits)
  have "template_covers (template, ui, warnings)"
    by (rule normalize_nodes_covers[OF r _ assms(3)]) (auto simp: template_covers_def)
  then obtain nid name where "q = input_pointer nid name"
    "json_at (Object template) [nid, ''inputs'', name] \<noteq> None \<or> (\<exists>l. unknown_link nid name l \<in> set warnings)"
    using assms(5) w by (force simp: template_covers_def)
  moreover have "jp_get P (Object template) (input_pointer nid name) = json_at (Object template) [nid, ''inputs'', name]"
    using assms(1) segments_input_pointer[of nid name] unfolding rfc6901_def by (simp add: input_pointer_def)
  ultimately show ?thesis using w by auto
qed

text \<open>A graph with one node: an input with a slash in its name has a widget, the other an undeclared link.\<close>

definition sample_graph :: json where
  "sample_graph =
     Object [(''nodes'', Array [Object
       [(''id'', Number (PosInt 3)),
        (''inputs'', Array
           [Object [(''name'', String ''a/b''), (''type'', String ''INT''), (''widget'', Object [])],
            Object [(''link'', Number (PosInt 9)), (''name'', String ''c'')]]),
        (''type'', String ''Loader''),
        (''widgets_values'', Array [String ''x'', Number (PosInt 7)])]])]"

lemma sample_graph_normalized:
  "normalize_workflow sample_graph = Ok \<lparr>
     nw_template = Object [(''3'', Object [(''class_type'', String ''Loader''),
       (''inputs'', Object [(''a/b'', Number (PosInt 7))])])],
     nw_ui_inputs = [(''/3/inputs/a~1b'', \<lparr>ui_input_type = ''INT'', ui_node_type = ''Loader''\<rparr>),
                     (''/3/inputs/c'', \<lparr>ui_input_type = ''UNKNOWN'', ui_node_type = ''Loader''\<rparr>)],
     nw_warnings = [converted_warning, warn_input ''3'' ''a/b'' '' skipped 1 auxiliary widgets_values entries'',
                    unknown_link ''3'' ''c'' 9]\<rparr>"
  by code_simp

theorem normalized_inputs_resolve_witness:
  "\<exists>w. normalize_workflow sample_graph = Ok w \<and>
     (jp_get rfc_ops (nw_template w) ''/3/inputs/a~1b'' \<noteq> None \<or>
      (\<exists>nid name l. ''/3/inputs/a~1b'' = input_pointer nid name \<and> unknown_link nid name l \<in> set (nw_warnings w)))"
  by (rule exI, rule conjI[OF sample_graph_normalized],
      rule normalized_inputs_resolve[OF rfc_ops _ _ sample_graph_normalized,
        of "[Object [(''id'', Number (PosInt 3)), (''inputs'', Array
           [Object [(''name'', String ''a/b''), (''type'', String ''INT''), (''widget'', Object [])],
            Object [(''link'', Number (PosInt 9)), (''name'', String ''c'')]]),
        (''type'', String ''Loader''), (''widgets_values'', Array [String ''x'', Number (PosInt 7)])]]"])
    (simp_all add: sample_graph_def json_get_def)

end
