(* ===== verification/Workflow_Catalog.thy ===== *)
theory Workflow_Catalog
  imports Workflow_Normalize "HOL-Library.Product_Lexorder"
begin

text \<open>
  The catalog of allowlisted workflows (\<open>crates/nagisalake-workflow/src/catalog.rs\<close> and
  \<open>manifest.rs\<close>): loading with its checks, the manifest of a workflow, the validation of a
  dispatched job and the rendering of its template. A panic of the source is \<open>None\<close>. Reading
  and parsing a file are parameters.
\<close>

subsection \<open>Configuration and definitions\<close>

record InputBinding =
  ib_index :: nat
  ib_pointer :: string
  ib_name :: "string option"
  ib_content_type :: "string option"

record WorkflowConfig =
  wf_id :: string
  wf_version :: string
  wf_file :: string
  wf_output_types :: "string list"
  wf_parameters :: "(string, string) btree_map"
  wf_inputs :: "InputBinding list"

record WorkflowDefinition =
  wd_config :: WorkflowConfig
  wd_template :: json
  wd_manifest :: WorkflowManifest

type_synonym WorkflowCatalog = "(string \<times> string, WorkflowDefinition) btree_map"

subsection \<open>The manifest\<close>

definition infer_value_type :: "json option \<Rightarrow> string" where
  "infer_value_type v =
     (case v of
        Some (Bool _) \<Rightarrow> ''boolean''
      | Some (Number n) \<Rightarrow> (case n of Float _ \<Rightarrow> ''number'' | _ \<Rightarrow> ''integer'')
      | Some (String _) \<Rightarrow> ''string''
      | Some (Array _) \<Rightarrow> ''array''
      | Some (Object _) \<Rightarrow> ''object''
      | _ \<Rightarrow> ''unknown'')"

definition underscores :: "string \<Rightarrow> string" where
  "underscores s = map (\<lambda>c. if c = CHR '' '' \<or> c = CHR ''-'' then CHR ''_'' else c) s"

definition public_value_type :: "string \<Rightarrow> string" where
  "public_value_type input_type =
     (let t = ascii_uppercase input_type
      in if t = ''INT'' then ''integer''
         else if t = ''FLOAT'' then ''number''
         else if t = ''BOOLEAN'' then ''boolean''
         else if t = ''COMBO'' then ''enum''
         else if t = ''STRING'' then ''string''
         else underscores (ascii_lowercase t))"

definition public_artifact_type :: "string \<Rightarrow> string" where
  "public_artifact_type input_type =
     (let t = ascii_uppercase input_type
      in if t = ''IMAGE'' then ''image''
         else if t = ''MASK'' then ''mask''
         else if t = ''VIDEO'' \<or> t = ''VHS_FILENAMES'' then ''video''
         else if t = ''AUDIO'' then ''audio''
         else underscores (ascii_lowercase t))"

definition content_type_for_input_type :: "string \<Rightarrow> string option" where
  "content_type_for_input_type t =
     (if t = ''image'' \<or> t = ''mask'' then Some ''image/*''
      else if t = ''video'' then Some ''video/*''
      else if t = ''audio'' then Some ''audio/*''
      else None)"

definition artifact_type_for_content_type :: "string \<Rightarrow> string option" where
  "artifact_type_for_content_type ct =
     (if CHR ''/'' \<in> set ct
      then (let k = ascii_lowercase (trim (takeWhile (\<lambda>c. c \<noteq> CHR ''/'') ct))
            in if k \<in> {''image'', ''video'', ''audio''} then Some k else None)
      else None)"

definition public_input_name :: "InputBinding \<Rightarrow> string" where
  "public_input_name b =
     (case ib_name b of
        Some n \<Rightarrow> n
      | None \<Rightarrow> (case pointer_field (ib_pointer b) of Some f \<Rightarrow> f | None \<Rightarrow> ''input_'' @ show_nat (ib_index b)))"

definition parameter_input :: "json_pointer_ops \<Rightarrow> json \<Rightarrow> ui_map \<Rightarrow> string \<times> string \<Rightarrow> WorkflowInput" where
  "parameter_input P template ui_inputs np =
     (case np of (name, pointer) \<Rightarrow>
        let metadata = bt_get ui_inputs pointer;
            def = (case jp_get P template pointer of Some v \<Rightarrow> (if v = Null then None else Some v) | None \<Rightarrow> None)
        in \<lparr>wi_name = name, wi_kind = Parameter,
            wi_value_type = (case metadata of Some m \<Rightarrow> public_value_type (ui_input_type m) | None \<Rightarrow> infer_value_type def),
            wi_content_type = None, wi_pointer = pointer, wi_required = (def = None), wi_default = def,
            wi_options = [], wi_node_id = pointer_node_id pointer,
            wi_node_type = map_option ui_node_type metadata, wi_field = pointer_field pointer\<rparr>)"

definition artifact_input :: "ui_map \<Rightarrow> InputBinding \<Rightarrow> WorkflowInput" where
  "artifact_input ui_inputs b =
     (let metadata = bt_get ui_inputs (ib_pointer b);
          value_type =
            (case Option.bind (ib_content_type b) artifact_type_for_content_type of
               Some t \<Rightarrow> t
             | None \<Rightarrow> (case metadata of Some m \<Rightarrow> public_artifact_type (ui_input_type m) | None \<Rightarrow> ''artifact''))
      in \<lparr>wi_name = public_input_name b, wi_kind = Artifact, wi_value_type = value_type,
          wi_content_type = (case ib_content_type b of Some c \<Rightarrow> Some c | None \<Rightarrow> content_type_for_input_type value_type),
          wi_pointer = ib_pointer b, wi_required = True, wi_default = None, wi_options = [],
          wi_node_id = pointer_node_id (ib_pointer b),
          wi_node_type = map_option ui_node_type metadata, wi_field = pointer_field (ib_pointer b)\<rparr>)"

definition build_manifest ::
  "json_pointer_ops \<Rightarrow> WorkflowConfig \<Rightarrow> json \<Rightarrow> ui_map \<Rightarrow> string list \<Rightarrow> WorkflowManifest" where
  "build_manifest P config template ui_inputs warnings =
     (let warnings1 = (if wf_output_types config = [] then warnings @ [''workflow has no declared output_types''] else warnings)
      in \<lparr>wm_schema_version = 1, wm_display_name = wf_id config, wm_description = None,
          wm_inputs = map (parameter_input P template ui_inputs) (wf_parameters config) @
                      map (artifact_input ui_inputs) (wf_inputs config),
          wm_outputs = map (\<lambda>(i, ct). \<lparr>wo_name = ''output_'' @ show_nat i, wo_content_type = ct\<rparr>)
                         (enumerate 0 (wf_output_types config)),
          wm_warnings = remdups_adj (sort warnings1)\<rparr>)"

subsection \<open>Loading\<close>

definition wf_required :: "string \<Rightarrow> string \<Rightarrow> (WorkflowError, unit) result" where
  "wf_required field v = (if trim v = [] then Err (WfRequired field) else Ok ())"

fun insert_parameters ::
  "json_pointer_ops \<Rightarrow> json \<Rightarrow> (string \<times> string) list \<Rightarrow> string list \<times> string list
   \<Rightarrow> (WorkflowError, string list \<times> string list) result" where
  "insert_parameters P template [] acc = Ok acc"
| "insert_parameters P template ((name, pointer) # rest) (pointers, public_inputs) =
     and_then (wf_required ''parameter name'' name) (\<lambda>_.
     if name \<in> set public_inputs then Err (DuplicatePublicInput name)
     else
       and_then (validate_pointer P template pointer) (\<lambda>_.
       and_then (insert_pointer pointers pointer) (\<lambda>pointers1.
       insert_parameters P template rest (pointers1, name # public_inputs))))"

definition opt_required :: "string \<Rightarrow> string option \<Rightarrow> (WorkflowError, unit) result" where
  "opt_required field v = (case v of None \<Rightarrow> Ok () | Some s \<Rightarrow> wf_required field s)"

fun insert_inputs ::
  "json_pointer_ops \<Rightarrow> json \<Rightarrow> InputBinding list \<Rightarrow> string list \<times> string list \<times> nat list
   \<Rightarrow> (WorkflowError, string list \<times> string list \<times> nat list) result" where
  "insert_inputs P template [] acc = Ok acc"
| "insert_inputs P template (b # rest) (pointers, public_inputs, indices) =
     and_then (validate_pointer P template (ib_pointer b)) (\<lambda>_.
     and_then (insert_pointer pointers (ib_pointer b)) (\<lambda>pointers1.
     and_then (opt_required ''input name'' (ib_name b)) (\<lambda>_.
     and_then (opt_required ''input content_type'' (ib_content_type b)) (\<lambda>_.
     if public_input_name b \<in> set public_inputs then Err (DuplicatePublicInput (public_input_name b))
     else if ib_index b \<in> set indices then Err (DuplicateInputIndex (ib_index b))
     else insert_inputs P template rest (pointers1, public_input_name b # public_inputs, ib_index b # indices)))))"

definition catalog_insert ::
  "json_pointer_ops \<Rightarrow> WorkflowConfig \<Rightarrow> NormalizedWorkflow \<Rightarrow> WorkflowCatalog \<Rightarrow> (WorkflowError, WorkflowCatalog) result" where
  "catalog_insert P config normalized entries =
     and_then (wf_required ''id'' (wf_id config)) (\<lambda>_.
     and_then (wf_required ''version'' (wf_version config)) (\<lambda>_.
     if \<not> is_object (nw_template normalized) then Err (TemplateMustBeObject (wf_id config))
     else
       and_then (insert_parameters P (nw_template normalized) (wf_parameters config) ([], [])) (\<lambda>(pointers, public_inputs).
       and_then (insert_inputs P (nw_template normalized) (wf_inputs config) (pointers, public_inputs, []))
         (\<lambda>(pointers1, public_inputs1, indices).
       if sort indices \<noteq> [0..<length indices] then Err NonContiguousInputs
       else if bt_get entries (wf_id config, wf_version config) \<noteq> None
       then Err (DuplicateWorkflow (wf_id config) (wf_version config))
       else Ok (bt_insert (wf_id config, wf_version config)
                  \<lparr>wd_config = config, wd_template = nw_template normalized,
                   wd_manifest = build_manifest P config (nw_template normalized) (nw_ui_inputs normalized) (nw_warnings normalized)\<rparr>
                  entries)))))"

fun from_templates_loop ::
  "json_pointer_ops \<Rightarrow> (WorkflowConfig \<times> json) list \<Rightarrow> WorkflowCatalog \<Rightarrow> (WorkflowError, WorkflowCatalog) result" where
  "from_templates_loop P [] entries = Ok entries"
| "from_templates_loop P ((config, template) # rest) entries =
     and_then (catalog_insert P config (NormalizedWorkflow_default\<lparr>nw_template := template\<rparr>) entries)
       (from_templates_loop P rest)"

definition nonempty_catalog :: "WorkflowCatalog \<Rightarrow> (WorkflowError, WorkflowCatalog) result" where
  "nonempty_catalog entries = (if entries = [] then Err EmptyCatalog else Ok entries)"

definition from_templates ::
  "json_pointer_ops \<Rightarrow> (WorkflowConfig \<times> json) list \<Rightarrow> (WorkflowError, WorkflowCatalog) result" where
  "from_templates P templates = and_then (from_templates_loop P templates []) nonempty_catalog"

text \<open>\<open>fs\<close> reads a file and \<open>parse\<close> is \<open>serde_json::from_str\<close>; both fail with a message.\<close>

fun load_loop ::
  "json_pointer_ops \<Rightarrow> (string \<Rightarrow> (string, string) result) \<Rightarrow> (string \<Rightarrow> (string, json) result)
   \<Rightarrow> WorkflowConfig list \<Rightarrow> WorkflowCatalog \<Rightarrow> (WorkflowError, WorkflowCatalog) result" where
  "load_loop P fs parse [] entries = Ok entries"
| "load_loop P fs parse (config # rest) entries =
     (case fs (wf_file config) of
        Err e \<Rightarrow> Err (ReadTemplate (wf_file config) e)
      | Ok raw \<Rightarrow>
          (case parse raw of
             Err e \<Rightarrow> Err (ParseTemplate (wf_file config) e)
           | Ok raw_template \<Rightarrow>
               and_then (normalize_workflow raw_template) (\<lambda>normalized.
               and_then (catalog_insert P config normalized entries) (load_loop P fs parse rest))))"

definition load_catalog ::
  "json_pointer_ops \<Rightarrow> (string \<Rightarrow> (string, string) result) \<Rightarrow> (string \<Rightarrow> (string, json) result)
   \<Rightarrow> WorkflowConfig list \<Rightarrow> (WorkflowError, WorkflowCatalog) result" where
  "load_catalog P fs parse configs = and_then (load_loop P fs parse configs []) nonempty_catalog"

subsection \<open>Validation and rendering\<close>

definition catalog_entry :: "WorkflowCatalog \<Rightarrow> DispatchJob \<Rightarrow> (WorkflowError, WorkflowDefinition) result" where
  "catalog_entry entries d =
     ok_or (NotInstalled (dj_workflow_id d) (dj_workflow_version d)) (bt_get entries (dj_workflow_id d, dj_workflow_version d))"

definition catalog_validate :: "WorkflowCatalog \<Rightarrow> DispatchJob \<Rightarrow> (WorkflowError, unit) result" where
  "catalog_validate entries d =
     and_then (catalog_entry entries d) (\<lambda>entry.
     case dj_parameters d of
       Object parameters \<Rightarrow>
         (case find (\<lambda>name. bt_get (wf_parameters (wd_config entry)) name = None) (map fst parameters) of
            Some name \<Rightarrow> Err (UnknownParameter name)
          | None \<Rightarrow>
              let bound = sort (remdups (map ib_index (wf_inputs (wd_config entry))))
              in if length (dj_inputs d) \<noteq> length bound \<or> bound \<noteq> [0..<length (dj_inputs d)]
                 then Err (InputCount (length bound) (length (dj_inputs d)))
                 else Ok ())
     | _ \<Rightarrow> Err ParametersMustBeObject)"

fun render_parameters ::
  "json_pointer_ops \<Rightarrow> (string, string) btree_map \<Rightarrow> (string \<times> json) list \<Rightarrow> json \<Rightarrow> json option" where
  "render_parameters P bindings [] workflow = Some workflow"
| "render_parameters P bindings ((name, v) # rest) workflow =
     Option.bind (bt_get bindings name) (\<lambda>pointer.
     Option.bind (jp_set P workflow pointer v) (render_parameters P bindings rest))"

fun render_inputs :: "json_pointer_ops \<Rightarrow> string list \<Rightarrow> InputBinding list \<Rightarrow> json \<Rightarrow> json option" where
  "render_inputs P input_names [] workflow = Some workflow"
| "render_inputs P input_names (b # rest) workflow =
     (if ib_index b < length input_names
      then Option.bind (jp_set P workflow (ib_pointer b) (String (input_names ! ib_index b))) (render_inputs P input_names rest)
      else None)"

definition render ::
  "json_pointer_ops \<Rightarrow> WorkflowCatalog \<Rightarrow> DispatchJob \<Rightarrow> string list \<Rightarrow> (WorkflowError, json) result option" where
  "render P entries d input_names =
     (case catalog_validate entries d of
        Err e \<Rightarrow> Some (Err e)
      | Ok _ \<Rightarrow>
          if length input_names \<noteq> length (dj_inputs d)
          then Some (Err (InputCount (length (dj_inputs d)) (length input_names)))
          else
            (case catalog_entry entries d of
               Err e \<Rightarrow> Some (Err e)
             | Ok entry \<Rightarrow>
                 (case dj_parameters d of
                    Object parameters \<Rightarrow>
                      map_option Ok
                        (Option.bind (render_parameters P (wf_parameters (wd_config entry)) parameters (wd_template entry))
                           (render_inputs P input_names (wf_inputs (wd_config entry))))
                  | _ \<Rightarrow> None)))"

definition capabilities :: "WorkflowCatalog \<Rightarrow> WorkflowCapability list" where
  "capabilities entries =
     map (\<lambda>entry. \<lparr>wc_id = wf_id (wd_config entry), wc_version = wf_version (wd_config entry),
            wc_output_types = wf_output_types (wd_config entry), wc_manifest = Some (wd_manifest entry)\<rparr>) (bt_values entries)"

subsection \<open>What a loaded catalog guarantees\<close>

definition bound_pointers :: "WorkflowConfig \<Rightarrow> string list" where
  "bound_pointers config = map snd (wf_parameters config) @ map ib_pointer (wf_inputs config)"

definition public_names :: "WorkflowConfig \<Rightarrow> string list" where
  "public_names config = map fst (wf_parameters config) @ map public_input_name (wf_inputs config)"

definition separated :: "string list \<Rightarrow> bool" where
  "separated ps \<longleftrightarrow> distinct ps \<and> (\<forall>p\<in>set ps. \<forall>q\<in>set ps. p \<noteq> q \<longrightarrow> \<not> pointers_overlap p q)"

definition definition_ok :: "json_pointer_ops \<Rightarrow> WorkflowDefinition \<Rightarrow> bool" where
  "definition_ok P d \<longleftrightarrow>
     is_object (wd_template d) \<and> separated (bound_pointers (wd_config d)) \<and> distinct (public_names (wd_config d)) \<and>
     (\<forall>p\<in>set (bound_pointers (wd_config d)). prefix ''/'' p \<and> jp_get P (wd_template d) p \<noteq> None) \<and>
     distinct (map ib_index (wf_inputs (wd_config d))) \<and>
     set (map ib_index (wf_inputs (wd_config d))) = {..<length (wf_inputs (wd_config d))} \<and>
     map wi_name (wm_inputs (wd_manifest d)) = public_names (wd_config d)"

definition catalog_ok :: "json_pointer_ops \<Rightarrow> WorkflowCatalog \<Rightarrow> bool" where
  "catalog_ok P entries \<longleftrightarrow>
     bt_wf entries \<and>
     (\<forall>k d. bt_get entries k = Some d \<longrightarrow> definition_ok P d \<and> k = (wf_id (wd_config d), wf_version (wd_config d)))"

lemma insert_pointer_separated:
  assumes "insert_pointer ps p = Ok ps'" "separated ps"
  shows "ps' = ps @ [p] \<and> separated ps'"
proof -
  have n: "find (\<lambda>e. pointers_overlap e p) ps = None" "ps' = ps @ [p]"
    using assms(1) by (auto simp: insert_pointer_def split: option.splits)
  have "\<not> pointers_overlap e p" if "e \<in> set ps" for e using n(1) that by (auto simp: find_None_iff)
  moreover have "p \<notin> set ps" using calculation by (auto simp: pointers_overlap_def)
  ultimately show ?thesis using assms(2) n(2) pointers_overlap_sym by (auto simp: separated_def)
qed

lemma insert_parameters_ok:
  assumes "insert_parameters P t params (ps, names) = Ok (ps', names')" "separated ps" "distinct names"
  shows "ps' = ps @ map snd params \<and> separated ps' \<and> distinct names' \<and> set names' = set names \<union> fst ` set params \<and>
    distinct (rev names @ map fst params) \<and>
    (\<forall>p\<in>set (map snd params). prefix ''/'' p \<and> jp_get P t p \<noteq> None)"
  using assms
proof (induction params arbitrary: ps names)
  case (Cons np params)
  obtain name p where np: "np = (name, p)" by (cases np)
  obtain ps1 where s: "name \<notin> set names" "validate_pointer P t p = Ok ()" "insert_pointer ps p = Ok ps1"
    "insert_parameters P t params (ps1, name # names) = Ok (ps', names')"
    using Cons.prems(1) np by (auto simp: and_then_eq_Ok split: if_splits)
  note i = insert_pointer_separated[OF s(3) Cons.prems(2)]
  from Cons.IH[OF s(4)] i Cons.prems(3) s(1,2) show ?case
    by (auto simp: np validate_pointer_def split: if_splits)
qed simp

lemma insert_inputs_ok:
  assumes "insert_inputs P t bs (ps, names, ixs) = Ok (ps', names', ixs')" "separated ps" "distinct ixs"
  shows "separated (ps @ map ib_pointer bs) \<and> distinct (map ib_index bs) \<and> set ixs \<inter> ib_index ` set bs = {} \<and>
    ixs' = rev (map ib_index bs) @ ixs \<and> distinct (map public_input_name bs) \<and> set names \<inter> public_input_name ` set bs = {} \<and>
    (\<forall>b\<in>set bs. prefix ''/'' (ib_pointer b) \<and> jp_get P t (ib_pointer b) \<noteq> None)"
  using assms
proof (induction bs arbitrary: ps names ixs)
  case (Cons b bs)
  obtain ps1 where s: "validate_pointer P t (ib_pointer b) = Ok ()" "insert_pointer ps (ib_pointer b) = Ok ps1"
    "public_input_name b \<notin> set names" "ib_index b \<notin> set ixs"
    "insert_inputs P t bs (ps1, public_input_name b # names, ib_index b # ixs) = Ok (ps', names', ixs')"
    using Cons.prems(1) by (auto simp: and_then_eq_Ok split: if_splits)
  note i = insert_pointer_separated[OF s(2) Cons.prems(2)]
  from Cons.IH[OF s(5)] i Cons.prems(3) s(1,3,4) show ?case
    by (auto simp: validate_pointer_def split: if_splits)
qed simp

lemma contiguous_set: "sort xs = [0..<length xs] \<Longrightarrow> set xs = {..<length xs}"
  by (metis atLeast0LessThan set_sort set_upt)

lemma manifest_names: "map wi_name (wm_inputs (build_manifest P config t ui ws)) = public_names config"
  by (simp add: build_manifest_def Let_def public_names_def parameter_input_def artifact_input_def split_def comp_def)

lemma catalog_insert_ok:
  assumes "catalog_insert P config n entries = Ok entries'" "catalog_ok P entries"
  shows "catalog_ok P entries'"
proof -
  obtain ps names ps' names' ixs where s: "is_object (nw_template n)"
    "insert_parameters P (nw_template n) (wf_parameters config) ([], []) = Ok (ps, names)"
    "insert_inputs P (nw_template n) (wf_inputs config) (ps, names, []) = Ok (ps', names', ixs)"
    "sort ixs = [0..<length ixs]"
    and e: "entries' = bt_insert (wf_id config, wf_version config)
       \<lparr>wd_config = config, wd_template = nw_template n,
        wd_manifest = build_manifest P config (nw_template n) (nw_ui_inputs n) (nw_warnings n)\<rparr> entries"
    using assms(1) by (auto simp: catalog_insert_def and_then_eq_Ok split: if_splits)
  have p: "ps = map snd (wf_parameters config)" "separated ps" "set names = fst ` set (wf_parameters config)"
    "distinct (map fst (wf_parameters config))" "\<forall>p\<in>set (map snd (wf_parameters config)). prefix ''/'' p \<and> jp_get P (nw_template n) p \<noteq> None"
    using insert_parameters_ok[OF s(2)] by (auto simp: separated_def)
  note i = insert_inputs_ok[OF s(3) p(2) distinct.simps(1)[THEN iffD2, OF TrueI]]
  have "definition_ok P \<lparr>wd_config = config, wd_template = nw_template n,
      wd_manifest = build_manifest P config (nw_template n) (nw_ui_inputs n) (nw_warnings n)\<rparr>"
    using s(1) p i contiguous_set[OF s(4)]
    by (auto simp: definition_ok_def bound_pointers_def manifest_names) (auto simp: public_names_def)
  then show ?thesis using assms(2) by (auto simp: catalog_ok_def e split: if_splits)
qed

lemma catalog_ok_Nil [simp]: "catalog_ok P []"
  by (simp add: catalog_ok_def)

lemma from_templates_loop_ok: "from_templates_loop P ts es = Ok es' \<Longrightarrow> catalog_ok P es \<Longrightarrow> catalog_ok P es'"
  by (induction P ts es rule: from_templates_loop.induct) (auto simp: and_then_eq_Ok dest: catalog_insert_ok)

lemma load_loop_ok: "load_loop P fs parse cs es = Ok es' \<Longrightarrow> catalog_ok P es \<Longrightarrow> catalog_ok P es'"
  by (induction P fs parse cs es rule: load_loop.induct)
    (auto simp: and_then_eq_Ok split: sum.splits dest: catalog_insert_ok)

text \<open>
  C36: A catalog that loads is well formed, whether it comes from files or from templates: every entry is
  stored under its own id and version, its template is an object, every bound pointer exists
  in the template, no two of them overlap, the input indices are exactly 0, ..., n - 1, and the inputs
  of its manifest carry the public names, all different.
\<close>

theorem loaded_catalog_ok:
  "load_catalog P fs parse configs = Ok entries \<or> from_templates P templates = Ok entries \<Longrightarrow>
     entries \<noteq> [] \<and> catalog_ok P entries"
  by (auto simp: load_catalog_def from_templates_def nonempty_catalog_def and_then_eq_Ok
      dest: load_loop_ok from_templates_loop_ok split: if_splits)

subsection \<open>Rendering\<close>

fun write_all :: "json_pointer_ops \<Rightarrow> (string \<times> json) list \<Rightarrow> json \<Rightarrow> json option" where
  "write_all P [] v = Some v"
| "write_all P ((p, x) # ws) v = Option.bind (jp_set P v p x) (write_all P ws)"

lemma write_all_append: "write_all P (xs @ ys) v = Option.bind (write_all P xs v) (write_all P ys)"
  by (induction P xs v rule: write_all.induct) (auto split: bind_splits)

lemma write_all_exact:
  assumes "rfc6901 P" "separated (map fst ws)" "\<forall>p\<in>set (map fst ws). pointer_ok p \<and> jp_get P v p \<noteq> None"
  shows "\<exists>v'. write_all P ws v = Some v' \<and> (\<forall>(p, x)\<in>set ws. jp_get P v' p = Some x) \<and>
    (\<forall>q. prefix ''/'' q \<longrightarrow> (\<forall>p\<in>set (map fst ws). parallel (pointer_segments p) (pointer_segments q)) \<longrightarrow>
       jp_get P v' q = jp_get P v q)"
  using assms(2,3)
proof (induction ws arbitrary: v)
  case (Cons w ws)
  obtain p x where w: "w = (p, x)" by (cases w)
  have R: "prefix ''/'' q \<Longrightarrow> jp_get P u q = json_at u (pointer_segments q)"
    "prefix ''/'' q \<Longrightarrow> jp_set P u q y = json_put u (pointer_segments q) y" for u q y
    using assms(1) by (auto simp: rfc6901_def)
  have p: "pointer_ok p" "prefix ''/'' p" "jp_get P v p \<noteq> None" using Cons.prems(2) w by (auto simp: pointer_ok_def)
  then obtain v1 where v1: "jp_set P v p x = Some v1" using R json_put_defined by fastforce
  have same: "jp_get P v1 p = Some x" using v1 R p(2) json_at_put_same by simp
  have keep: "jp_get P v1 q = jp_get P v q" if "prefix ''/'' q" "parallel (pointer_segments p) (pointer_segments q)" for q
    using v1 R p(2) that json_at_put_parallel by simp
  have par: "parallel (pointer_segments p) (pointer_segments q)" if "q \<in> set (map fst ws)" for q
    using that Cons.prems w p(1) by (intro separated_parallel) (auto simp: separated_def)
  have "\<forall>q\<in>set (map fst ws). pointer_ok q \<and> jp_get P v1 q \<noteq> None"
    using Cons.prems(2) par keep by (auto simp: pointer_ok_def)
  moreover have "separated (map fst ws)" using Cons.prems(1) by (auto simp: separated_def)
  ultimately obtain v' where v': "write_all P ws v1 = Some v'" "\<forall>(q, y)\<in>set ws. jp_get P v' q = Some y"
    "\<And>q. prefix ''/'' q \<Longrightarrow> \<forall>r\<in>set (map fst ws). parallel (pointer_segments r) (pointer_segments q) \<Longrightarrow>
       jp_get P v' q = jp_get P v1 q"
    using Cons.IH by blast
  have "jp_get P v' p = Some x" using v'(3)[OF p(2)] par same parallel_commute by metis
  then show ?case using v' v1 keep by (intro exI[of _ v']) (auto simp: w)
qed simp

lemma render_parameters_write:
  "\<forall>(name, v)\<in>set params. bt_get bindings name \<noteq> None \<Longrightarrow>
     render_parameters P bindings params w = write_all P (map (\<lambda>(name, v). (the (bt_get bindings name), v)) params) w"
  by (induction P bindings params w rule: render_parameters.induct) (auto split: bind_splits)

lemma render_inputs_write:
  "\<forall>b\<in>set bs. ib_index b < length names \<Longrightarrow>
     render_inputs P names bs w = write_all P (map (\<lambda>b. (ib_pointer b, String (names ! ib_index b))) bs) w"
  by (induction P names bs w rule: render_inputs.induct) (auto split: bind_splits)

definition rendered_writes :: "WorkflowConfig \<Rightarrow> (string \<times> json) list \<Rightarrow> string list \<Rightarrow> (string \<times> json) list" where
  "rendered_writes config params input_names =
     map (\<lambda>(name, v). (the (bt_get (wf_parameters config) name), v)) params @
     map (\<lambda>b. (ib_pointer b, String (input_names ! ib_index b))) (wf_inputs config)"

lemma rendered_writes_mem:
  "(name, v) \<in> set params \<Longrightarrow> bt_get (wf_parameters config) name = Some p \<Longrightarrow> (p, v) \<in> set (rendered_writes config params names)"
  "b \<in> set (wf_inputs config) \<Longrightarrow> (ib_pointer b, String (names ! ib_index b)) \<in> set (rendered_writes config params names)"
  by (auto simp: rendered_writes_def image_iff intro!: bexI[of _ "(name, v)"])

lemma separated_subset: "separated ps \<Longrightarrow> distinct qs \<Longrightarrow> set qs \<subseteq> set ps \<Longrightarrow> separated qs"
  unfolding separated_def by blast

lemma map_of_snd_inject: "distinct (map snd m) \<Longrightarrow> map_of m a = Some p \<Longrightarrow> map_of m b = Some p \<Longrightarrow> a = b"
  by (induction m) (force dest: map_of_SomeD split: if_splits)+

lemma rendered_writes_separated:
  assumes "separated (bound_pointers config)" "distinct (map fst params)"
    "\<forall>(name, v)\<in>set params. bt_get (wf_parameters config) name \<noteq> None"
  shows "separated (map fst (rendered_writes config params names))"
    "set (map fst (rendered_writes config params names)) \<subseteq> set (bound_pointers config)"
proof -
  let ?f = "\<lambda>(name, v :: json). the (bt_get (wf_parameters config) name)"
  have e: "map fst (rendered_writes config params names) = map ?f params @ map ib_pointer (wf_inputs config)"
    by (simp add: rendered_writes_def comp_def split_def)
  have d: "distinct (map snd (wf_parameters config) @ map ib_pointer (wf_inputs config))"
    using assms(1) by (simp add: separated_def bound_pointers_def)
  have mem: "?f x \<in> set (map snd (wf_parameters config))" if "x \<in> set params" for x
    using assms(3) that by (force simp: bt_get_def dest: map_of_SomeD)
  show sub: "set (map fst (rendered_writes config params names)) \<subseteq> set (bound_pointers config)"
    using mem unfolding e by (auto simp: bound_pointers_def)
  have "inj_on ?f (set params)"
  proof (rule inj_onI)
    fix x y assume xy: "x \<in> set params" "y \<in> set params" "?f x = ?f y"
    obtain p q where pq: "map_of (wf_parameters config) (fst x) = Some p" "map_of (wf_parameters config) (fst y) = Some q"
      using bspec[OF assms(3) xy(1)] bspec[OF assms(3) xy(2)] by (auto simp: bt_get_def split_def)
    then have "p = q" using xy(3) by (simp add: bt_get_def split_def)
    then have "fst x = fst y" using pq d map_of_snd_inject[of "wf_parameters config" "fst x" p "fst y"] by simp
    then show "x = y" using xy(1,2) assms(2) by (metis distinct_map inj_on_def)
  qed
  then have "distinct (map ?f params @ map ib_pointer (wf_inputs config))"
    using d mem assms(2) by (auto simp: distinct_map)
  then show "separated (map fst (rendered_writes config params names))"
    using separated_subset[OF assms(1) _ sub] unfolding e by blast
qed

lemma render_writes:
  assumes "rfc6901 P" "catalog_ok P entries" "bt_get entries (dj_workflow_id d, dj_workflow_version d) = Some entry"
    "list_all pointer_ok (bound_pointers (wd_config entry))"
    "catalog_validate entries d = Ok ()" "dj_parameters d = Object params" "bt_wf params"
    "length input_names = length (dj_inputs d)"
  shows "\<exists>w. render P entries d input_names = Some (Ok w) \<and>
    (\<forall>(name, v)\<in>set params. bt_get (wf_parameters (wd_config entry)) name \<noteq> None) \<and>
    (\<forall>(p, x)\<in>set (rendered_writes (wd_config entry) params input_names). jp_get P w p = Some x) \<and>
    (\<forall>q. prefix ''/'' q \<longrightarrow>
       (\<forall>p\<in>set (map fst (rendered_writes (wd_config entry) params input_names)).
          parallel (pointer_segments p) (pointer_segments q)) \<longrightarrow>
       jp_get P w q = jp_get P (wd_template entry) q)"
proof -
  let ?c = "wd_config entry" and ?ws = "rendered_writes (wd_config entry) params input_names"
  have ok: "definition_ok P entry" using assms(2,3) by (auto simp: catalog_ok_def)
  have v: "find (\<lambda>name. bt_get (wf_parameters ?c) name = None) (map fst params) = None"
    "length (dj_inputs d) = length (sort (remdups (map ib_index (wf_inputs ?c))))"
    using assms(3,5,6) by (auto simp: catalog_validate_def catalog_entry_def ok_or_def Let_def split: option.splits if_splits)
  have known: "\<forall>(name, v)\<in>set params. bt_get (wf_parameters ?c) name \<noteq> None"
    using v(1) by (fastforce simp: find_None_iff)
  have "length input_names = length (wf_inputs ?c)"
    using v(2) assms(8) ok by (simp add: definition_ok_def distinct_remdups_id)
  then have ix: "\<forall>b\<in>set (wf_inputs ?c). ib_index b < length input_names"
    using ok by (auto simp: definition_ok_def)
  have sep: "separated (map fst ?ws)" "set (map fst ?ws) \<subseteq> set (bound_pointers ?c)"
    using rendered_writes_separated[OF _ _ known] ok bt_wf_distinct[OF assms(7)] by (auto simp: definition_ok_def)
  have "\<forall>p\<in>set (map fst ?ws). pointer_ok p \<and> jp_get P (wd_template entry) p \<noteq> None"
    using sep(2) ok assms(4) unfolding definition_ok_def list_all_iff by blast
  from write_all_exact[OF assms(1) sep(1) this] obtain w where w: "write_all P ?ws (wd_template entry) = Some w"
    "\<forall>(p, x)\<in>set ?ws. jp_get P w p = Some x"
    "\<forall>q. prefix ''/'' q \<longrightarrow> (\<forall>p\<in>set (map fst ?ws). parallel (pointer_segments p) (pointer_segments q)) \<longrightarrow>
       jp_get P w q = jp_get P (wd_template entry) q" by blast
  have "render_inputs P input_names (wf_inputs ?c) =
      write_all P (map (\<lambda>b. (ib_pointer b, String (input_names ! ib_index b))) (wf_inputs ?c))"
    using render_inputs_write[OF ix] by blast
  then have "render P entries d input_names = Some (Ok w)"
    using w(1) assms(3,5,6,8) render_parameters_write[OF known]
    by (simp add: render_def catalog_entry_def ok_or_def rendered_writes_def write_all_append)
  then show ?thesis using known w(2,3) by (intro exI[of _ w]) blast
qed

text \<open>Rendering never panics, whatever the job.\<close>

lemma render_no_panic:
  assumes "rfc6901 P" "catalog_ok P entries" "\<forall>(k, entry)\<in>set entries. list_all pointer_ok (bound_pointers (wd_config entry))"
    "\<forall>params. dj_parameters d = Object params \<longrightarrow> bt_wf params"
  shows "render P entries d input_names \<noteq> None"
proof (cases "catalog_validate entries d = Ok () \<and> length input_names = length (dj_inputs d)")
  case True
  then obtain entry params where e: "bt_get entries (dj_workflow_id d, dj_workflow_version d) = Some entry" "dj_parameters d = Object params"
    by (auto simp: catalog_validate_def catalog_entry_def ok_or_def and_then_eq_Ok split: option.splits json.splits)
  then have "list_all pointer_ok (bound_pointers (wd_config entry))"
    using bspec[OF assms(3) map_of_SomeD[of entries]] by (auto simp: bt_get_def)
  then show ?thesis using render_writes[OF assms(1,2) e(1)] True e(2) assms(4) by fastforce
next
  case False
  then show ?thesis by (cases "catalog_validate entries d") (auto simp: render_def)
qed


subsection \<open>Examples\<close>

definition sample_input :: JobInput where
  "sample_input = \<lparr>ji_artifact_id = ''a'', ji_name = ''f'', ji_content_type = ''image/png'', ji_size_bytes = 1,
     ji_sha256 = [], ji_download = \<lparr>pr_method = ''GET'', pr_url = ''u'', pr_headers = [], pr_expires_at_unix_ms = 0\<rparr>\<rparr>"

definition sample_job :: "(string \<times> json) list \<Rightarrow> DispatchJob" where
  "sample_job params = \<lparr>dj_command_id = ''c'', dj_job_id = ''j'', dj_attempt = 1, dj_workflow_id = ''w'',
     dj_workflow_version = ''1'', dj_parameters = Object params, dj_inputs = [sample_input]\<rparr>"

definition workflow_config :: "string \<Rightarrow> string \<Rightarrow> WorkflowConfig" where
  "workflow_config parameter input =
     \<lparr>wf_id = ''w'', wf_version = ''1'', wf_file = [], wf_output_types = [], wf_parameters = [(''p'', parameter)],
      wf_inputs = [\<lparr>ib_index = 0, ib_pointer = input, ib_name = None, ib_content_type = None\<rparr>]\<rparr>"

definition sample_template :: json where
  "sample_template = Object [(''3'', Object [(''inputs'', Object [(''image'', Null), (''seed'', Number (PosInt 1))])])]"

definition sample_entry :: WorkflowDefinition where
  "sample_entry = \<lparr>wd_config = workflow_config ''/3/inputs/seed'' ''/3/inputs/image'', wd_template = sample_template,
     wd_manifest = build_manifest rfc_ops (workflow_config ''/3/inputs/seed'' ''/3/inputs/image'') sample_template [] []\<rparr>"

lemma sample_catalog:
  "from_templates rfc_ops [(workflow_config ''/3/inputs/seed'' ''/3/inputs/image'', sample_template)] =
     Ok [((''w'', ''1''), sample_entry)]"
  "catalog_validate [((''w'', ''1''), sample_entry)] (sample_job [(''p'', Number (PosInt 9))]) = Ok ()"
  "list_all pointer_ok (bound_pointers (wd_config sample_entry))"
  by code_simp+

lemma sample_catalog_ok: "catalog_ok rfc_ops [((''w'', ''1''), sample_entry)]"
  using sample_catalog(1) catalog_insert_ok[OF _ catalog_ok_Nil]
  by (auto simp: from_templates_def and_then_eq_Ok nonempty_catalog_def split: if_splits)

theorem loaded_catalog_ok_witness: "catalog_ok rfc_ops [((''w'', ''1''), sample_entry)]"
  using loaded_catalog_ok[OF disjI2, OF sample_catalog(1)] by blast


definition alias_template :: json where
  "alias_template = Object [(''x~'', Object [(''y'', Null)])]"

text \<open>
  The overlap check compares the text of the pointers, so it misses two spellings of one place. A
  configuration that binds a parameter to \<open>/x~0\<close> and an input to \<open>/x~/y\<close> is accepted,
  although both address the member \<open>x~\<close>; rendering a valid job of this workflow panics,
  because the parameter has replaced the object that the input is written into.
\<close>

theorem alias_pointers_panic:
  "\<exists>entries. from_templates rfc_ops [(workflow_config ''/x~0'' ''/x~/y'', alias_template)] = Ok entries \<and>
     catalog_validate entries (sample_job [(''p'', Number (PosInt 9))]) = Ok () \<and>
     render rfc_ops entries (sample_job [(''p'', Number (PosInt 9))]) [''file.png''] = None"
proof (intro exI conjI)
  let ?e = "[((''w'', ''1''), \<lparr>wd_config = workflow_config ''/x~0'' ''/x~/y'', wd_template = alias_template,
     wd_manifest = build_manifest rfc_ops (workflow_config ''/x~0'' ''/x~/y'') alias_template [] []\<rparr>)]"
  show "from_templates rfc_ops [(workflow_config ''/x~0'' ''/x~/y'', alias_template)] = Ok ?e" by code_simp
  show "catalog_validate ?e (sample_job [(''p'', Number (PosInt 9))]) = Ok ()" by code_simp
  show "render rfc_ops ?e (sample_job [(''p'', Number (PosInt 9))]) [''file.png''] = None" by code_simp
qed

end
