(* ===== verification/Runtime_Error.thy ===== *)
theory Runtime_Error
  imports Journal Workflow_Catalog
begin

text \<open>
  The errors of the worker runtime (\<open>crates/nagisalake-runtime/src/error.rs\<close>): HTTP
  failures without URLs, and the classification into transient and permanent. The HTTP client
  is third party; of an error it reports, \<open>reqwest_error\<close> holds the answers of its
  predicates and the texts of its causes once the URL is removed. The errors of the journal and of the
  workflow catalog are kept as values where the source keeps their text.
\<close>

subsection \<open>Characters and words\<close>

text \<open>The characters of a string: a lead byte with its continuation bytes.\<close>

function utf8_chars :: "string \<Rightarrow> string list" where
  "utf8_chars [] = []"
| "utf8_chars (c # cs) = (c # takeWhile is_continuation cs) # utf8_chars (dropWhile is_continuation cs)"
  by pat_completeness auto
termination
  by (relation "measure length") (auto simp: le_imp_less_Suc length_dropWhile_le)

lemma concat_utf8_chars [simp]: "concat (utf8_chars s) = s"
  by (induction s rule: utf8_chars.induct) auto

text \<open>\<open>char::is_control\<close>: U+0000 to U+001F and U+007F to U+009F.\<close>

definition is_control :: "string \<Rightarrow> bool" where
  "is_control ch \<longleftrightarrow>
     (case ch of
        [b] \<Rightarrow> ascii b < 32 \<or> ascii b = 127
      | [b1, b2] \<Rightarrow> ascii b1 = 194 \<and> ascii b2 < 160
      | _ \<Rightarrow> False)"

text \<open>\<open>str::split_whitespace\<close>, on the characters; \<open>word\<close> is the word being read.\<close>

fun words_from :: "string list \<Rightarrow> string \<Rightarrow> string list" where
  "words_from [] word = (if word = [] then [] else [word])"
| "words_from (ch # chs) word =
     (if ch \<in> set white_space then (if word = [] then words_from chs [] else word # words_from chs [])
      else words_from chs (word @ ch))"

fun join_with :: "string \<Rightarrow> string list \<Rightarrow> string" where
  "join_with sep [] = []"
| "join_with sep [s] = s"
| "join_with sep (s # t # ts) = s @ sep @ join_with sep (t # ts)"

subsection \<open>HTTP failures\<close>

datatype HttpFailureClass =
    HcTimeout | HcConnect | HcRequest | HcBody | HcStatus | HcRedirect | HcBuilder | HcDecode
  | HcTicketExpired | HcUnknown

fun class_str :: "HttpFailureClass \<Rightarrow> string" where
  "class_str HcTimeout = ''timeout''"
| "class_str HcConnect = ''connect''"
| "class_str HcRequest = ''request''"
| "class_str HcBody = ''body''"
| "class_str HcStatus = ''status''"
| "class_str HcRedirect = ''redirect''"
| "class_str HcBuilder = ''builder''"
| "class_str HcDecode = ''decode''"
| "class_str HcTicketExpired = ''ticket_expired''"
| "class_str HcUnknown = ''unknown''"

definition class_is_transient :: "HttpFailureClass \<Rightarrow> bool" where
  "class_is_transient c \<longleftrightarrow> c \<in> {HcTimeout, HcConnect, HcRequest, HcBody}"

record HttpFailure =
  hf_operation :: string
  hf_class :: HttpFailureClass
  hf_status :: "u16 option"
  hf_transient :: bool
  hf_attempts :: u8
  hf_causes :: "string list"

definition retryable_http_status :: "u16 \<Rightarrow> bool" where
  "retryable_http_status s \<longleftrightarrow> s \<in> {408, 425, 429, 500, 502, 503, 504}"

definition http_failure_status :: "string \<Rightarrow> u8 \<Rightarrow> u16 \<Rightarrow> HttpFailure" where
  "http_failure_status operation attempts status =
     \<lparr>hf_operation = operation, hf_class = HcStatus, hf_status = Some status,
      hf_transient = retryable_http_status status, hf_attempts = attempts,
      hf_causes = [''upstream returned HTTP status '' @ show_nat (unat status)]\<rparr>"

definition http_failure_display :: "HttpFailure \<Rightarrow> string" where
  "http_failure_display f =
     ''operation='' @ hf_operation f @ '' class='' @ class_str (hf_class f) @
     '' transient='' @ (if hf_transient f then ''true'' else ''false'') @
     '' attempts='' @ show_nat (unat (hf_attempts f)) @
     (case hf_status f of None \<Rightarrow> [] | Some s \<Rightarrow> '' status='' @ show_nat (unat s)) @
     (if hf_causes f = [] then [] else '' caused_by=['' @ join_with '' <- '' (hf_causes f) @ '']'')"

subsection \<open>Removing secrets\<close>

definition HTTP_CAUSE_LIMIT :: nat where "HTTP_CAUSE_LIMIT = 6"
definition HTTP_CAUSE_CHARS :: nat where "HTTP_CAUSE_CHARS = 240"
definition HTTP_CAUSES_TOTAL_CHARS :: nat where "HTTP_CAUSES_TOTAL_CHARS = 700"

definition secret_markers :: "string list" where
  "secret_markers =
     [''://'', ''x-amz-'', ''signature='', ''credential='', ''authorization='', ''authorization:'', ''token='']"

definition normalize_cause :: "string \<Rightarrow> string" where
  "normalize_cause v =
     join_with '' '' (words_from (utf8_chars (concat (map (\<lambda>ch. if is_control ch then '' '' else ch) (utf8_chars v)))) [])"

definition sanitize_http_cause :: "string \<Rightarrow> string" where
  "sanitize_http_cause v =
     (let normalized = normalize_cause v
      in if list_ex (\<lambda>m. sublist m (ascii_lowercase normalized)) secret_markers
         then ''<redacted sensitive HTTP detail>''
         else take_chars HTTP_CAUSE_CHARS normalized)"

text \<open>The loop over the causes of an error: their texts in order, the causes kept and their length.\<close>

fun causes_loop :: "string list \<Rightarrow> string list \<Rightarrow> nat \<Rightarrow> string list" where
  "causes_loop [] causes total_chars = causes"
| "causes_loop (t # ts) causes total_chars =
     (if length causes \<ge> HTTP_CAUSE_LIMIT \<or> total_chars \<ge> HTTP_CAUSES_TOTAL_CHARS then causes
      else
        let v = sanitize_http_cause t
        in if v \<noteq> [] \<and> (causes = [] \<or> last causes \<noteq> v)
           then causes_loop ts (causes @ [v]) (total_chars + chars_count v)
           else causes_loop ts causes total_chars)"

definition sanitized_http_causes :: "string list \<Rightarrow> string list" where
  "sanitized_http_causes texts = causes_loop texts [] 0"

record reqwest_error =
  rq_is_timeout :: bool
  rq_is_connect :: bool
  rq_is_body :: bool
  rq_is_redirect :: bool
  rq_is_builder :: bool
  rq_is_decode :: bool
  rq_is_request :: bool
  rq_status :: "u16 option"
  rq_cause_texts :: "string list"

definition failure_class :: "reqwest_error \<Rightarrow> HttpFailureClass" where
  "failure_class e =
     (if rq_is_timeout e then HcTimeout
      else if rq_is_connect e then HcConnect
      else if rq_is_body e then HcBody
      else if rq_is_redirect e then HcRedirect
      else if rq_is_builder e then HcBuilder
      else if rq_is_decode e then HcDecode
      else if rq_is_request e then HcRequest
      else HcUnknown)"

definition http_failure :: "string \<Rightarrow> u8 \<Rightarrow> reqwest_error \<Rightarrow> HttpFailure" where
  "http_failure operation attempts e =
     (let c = failure_class e
      in \<lparr>hf_operation = operation, hf_class = c, hf_status = rq_status e, hf_transient = class_is_transient c,
          hf_attempts = attempts, hf_causes = sanitized_http_causes (rq_cause_texts e)\<rparr>)"

datatype RuntimeError =
    RtInvalidConfig string
  | RtConnectionClosed
  | RtCapacityExhausted nat
  | RtCancelled
  | RtJournal JournalError
  | RtWorkflow WorkflowError
  | RtComfy string
  | RtArtifact string
  | RtHttp HttpFailure
  | RtIo string

subsection \<open>No marker survives\<close>

text \<open>A word without the character \<open>c\<close> does not reach across a \<open>c\<close>.\<close>

lemma sublist_across:
  assumes "sublist m (a @ c # b)" "c \<notin> set m"
  shows "sublist m a \<or> sublist m b"
proof -
  obtain p s where "a @ c # b = p @ m @ s" using assms(1) by (auto simp: sublist_def)
  then consider us where "a = p @ us" "us @ c # b = m @ s" | us where "p = a @ us" "c # b = us @ m @ s"
    by (auto simp: append_eq_append_conv2)
  then show ?thesis
  proof cases
    case 1
    from 1(2) have "\<exists>vs. us = m @ vs" using assms(2) by (auto simp: append_eq_append_conv2 Cons_eq_append_conv)
    then show ?thesis using 1(1) by (auto simp: sublist_def)
  next
    case 2
    show ?thesis
    proof (cases m)
      case (Cons d m')
      then show ?thesis using 2 assms(2) by (auto simp: sublist_def Cons_eq_append_conv)
    qed simp
  qed
qed

definition no_marker :: "string \<Rightarrow> bool" where
  "no_marker s \<longleftrightarrow> list_all (\<lambda>m. \<not> sublist m (ascii_lowercase s)) secret_markers"

lemma ascii_lowercase_simps [simp]:
  "ascii_lowercase [] = []" "ascii_lowercase (c # s) = to_ascii_lowercase c # ascii_lowercase s"
  "ascii_lowercase (s @ t) = ascii_lowercase s @ ascii_lowercase t"
  by (simp_all add: ascii_lowercase_def)

definition separator :: "char \<Rightarrow> bool" where
  "separator c \<longleftrightarrow> to_ascii_lowercase c = c \<and> list_all (\<lambda>m. c \<notin> set m) secret_markers"

lemma no_marker_join: "separator c \<Longrightarrow> no_marker a \<Longrightarrow> no_marker b \<Longrightarrow> no_marker (a @ c # b)"
  using sublist_across[of _ "ascii_lowercase a" c "ascii_lowercase b"]
  by (auto simp: no_marker_def separator_def list_all_iff)

lemma no_marker_Nil [simp]: "no_marker []"
  by (simp add: no_marker_def secret_markers_def)

lemma no_marker_take_chars: "no_marker s \<Longrightarrow> no_marker (take_chars n s)"
proof -
  obtain r where "s = take_chars n s @ r" using prefix_take_chars[of n s] by (auto simp: prefix_def)
  then have "ascii_lowercase s = ascii_lowercase (take_chars n s) @ ascii_lowercase r" by (metis ascii_lowercase_simps(3))
  then show "no_marker s \<Longrightarrow> no_marker (take_chars n s)"
    by (auto simp: no_marker_def list_all_iff dest!: bspec) (metis sublist_appendI sublist_append)
qed

lemma separators [simp]: "separator CHR '' ''" "separator CHR ''['' " "separator CHR '']''" "separator CHR ''<''"
  by code_simp+

lemma sanitize_no_marker: "no_marker (sanitize_http_cause v)" "chars_count (sanitize_http_cause v) \<le> HTTP_CAUSE_CHARS"
proof -
  have r: "no_marker ''<redacted sensitive HTTP detail>''" "chars_count ''<redacted sensitive HTTP detail>'' \<le> HTTP_CAUSE_CHARS"
    by code_simp+
  show "no_marker (sanitize_http_cause v)"
    using r(1) by (auto simp: sanitize_http_cause_def Let_def list_ex_iff no_marker_def[of "normalize_cause v"] list_all_iff
        intro!: no_marker_take_chars)
  show "chars_count (sanitize_http_cause v) \<le> HTTP_CAUSE_CHARS"
    using r(2) by (simp add: sanitize_http_cause_def Let_def chars_count_take_chars)
qed

lemma causes_loop_safe:
  "list_all (\<lambda>c. no_marker c \<and> chars_count c \<le> HTTP_CAUSE_CHARS) causes \<Longrightarrow> length causes \<le> HTTP_CAUSE_LIMIT \<Longrightarrow>
     list_all (\<lambda>c. no_marker c \<and> chars_count c \<le> HTTP_CAUSE_CHARS) (causes_loop ts causes n) \<and>
     length (causes_loop ts causes n) \<le> HTTP_CAUSE_LIMIT"
  by (induction ts causes n rule: causes_loop.induct) (auto simp: Let_def sanitize_no_marker)

lemma no_marker_join_with: "list_all no_marker ss \<Longrightarrow> no_marker (join_with '' <- '' ss)"
proof (induction "'' <- ''" ss rule: join_with.induct)
  case (3 s t ts)
  have dash: "no_marker ''-''" by code_simp
  have "no_marker (''-'' @ CHR '' '' # join_with '' <- '' (t # ts))"
    using no_marker_join[OF separators(1) dash] 3 by simp
  then have "no_marker ([] @ CHR ''<'' # ''-'' @ CHR '' '' # join_with '' <- '' (t # ts))"
    by (rule no_marker_join[OF separators(4) no_marker_Nil])
  then show ?case using no_marker_join[OF separators(1), of s] 3(2) by simp
qed simp_all

lemma digit_separator: "is_ascii_digit c \<Longrightarrow> separator c"
  by (auto simp: separator_def to_ascii_lowercase_def is_ascii_digit_def secret_markers_def ascii_def)

lemma no_marker_digits: "list_all is_ascii_digit s \<Longrightarrow> no_marker p \<Longrightarrow> no_marker (p @ s)"
proof (induction s rule: rev_induct)
  case (snoc c s)
  then show ?case using no_marker_join[of c "p @ s" "[]"] digit_separator by simp
qed simp

lemma no_marker_number: "no_marker p \<Longrightarrow> no_marker (p @ show_nat n)"
  using no_marker_digits[of "show_nat n" p] show_nat_digits[of n] by (simp add: list_all_iff)

lemma no_marker_words [simp]:
  "no_marker ''status=''" "no_marker ''attempts=''" "no_marker ''caused_by=''" "no_marker ''transient=true''"
  "no_marker ''transient=false''"
  by code_simp+

lemma no_marker_class: "no_marker (''class='' @ class_str c)"
proof -
  have "list_all (\<lambda>c. no_marker (''class='' @ class_str c))
      [HcTimeout, HcConnect, HcRequest, HcBody, HcStatus, HcRedirect, HcBuilder, HcDecode, HcTicketExpired, HcUnknown]"
    by code_simp
  then show ?thesis by (cases c) simp_all
qed

text \<open>The pieces of the text, each after a blank.\<close>

lemma no_marker_status: "no_marker p \<Longrightarrow> no_marker (p @ (case st of None \<Rightarrow> [] | Some s \<Rightarrow> '' status='' @ show_nat (unat s)))"
  using no_marker_join[OF separators(1), of p] no_marker_number[of "''status=''"] by (simp split: option.split)

lemma no_marker_causes:
  assumes "no_marker p" "list_all no_marker cs"
  shows "no_marker (p @ (if cs = [] then [] else '' caused_by=['' @ join_with '' <- '' cs @ '']''))"
proof -
  have "no_marker (join_with '' <- '' cs @ CHR '']'' # [])"
    by (rule no_marker_join) (simp_all add: no_marker_join_with assms(2))
  then have "no_marker (''caused_by='' @ CHR ''['' # join_with '' <- '' cs @ '']'')"
    using no_marker_join[OF separators(2), of "''caused_by=''"] by simp
  then show ?thesis using no_marker_join[OF separators(1) assms(1)] assms(1) by simp
qed

lemma no_marker_display:
  assumes "no_marker (''operation='' @ hf_operation f)" "list_all no_marker (hf_causes f)"
  shows "no_marker (http_failure_display f)"
proof -
  let ?t = "if hf_transient f then ''transient=true'' else ''transient=false''"
  have "no_marker (''operation='' @ hf_operation f @ '' class='' @ class_str (hf_class f))"
    using no_marker_join[OF separators(1) assms(1) no_marker_class[of "hf_class f"]] by simp
  then have "no_marker ((''operation='' @ hf_operation f @ '' class='' @ class_str (hf_class f)) @ CHR '' '' # ?t)"
    by (rule no_marker_join[OF separators(1)]) simp
  moreover have "no_marker (''attempts='' @ show_nat (unat (hf_attempts f)))" by (rule no_marker_number) simp
  ultimately have "no_marker (((''operation='' @ hf_operation f @ '' class='' @ class_str (hf_class f)) @ CHR '' '' # ?t) @
      CHR '' '' # ''attempts='' @ show_nat (unat (hf_attempts f)))"
    by (rule no_marker_join[OF separators(1)])
  from no_marker_causes[OF no_marker_status[OF this, of "hf_status f"] assms(2)] show ?thesis
    by (cases "hf_transient f"; cases "hf_causes f = []") (simp_all add: http_failure_display_def)
qed

definition http_operations :: "string list" where
  "http_operations =
     [''artifact_get'', ''artifact_get_send'', ''artifact_get_body'', ''artifact_put'', ''comfy_output_body'',
      ''artifact_client_build'', ''artifact_upload_client_build'']"

text \<open>
  No signed URL leaks through an HTTP error. The text of a failure built from any error
  of the HTTP client, which the worker stores in its journal, sends to the Hub and logs, contains
  none of the markers of a URL or a credential, in any case; it has at most six causes of at most
  240 characters each.
\<close>

theorem http_failure_text_safe:
  assumes "operation \<in> set http_operations"
  shows "list_all (\<lambda>m. \<not> sublist m (ascii_lowercase (http_failure_display (http_failure operation attempts e)))) secret_markers \<and>
    length (hf_causes (http_failure operation attempts e)) \<le> 6 \<and>
    list_all (\<lambda>c. chars_count c \<le> 240) (hf_causes (http_failure operation attempts e))"
proof -
  let ?f = "http_failure operation attempts e"
  have c: "list_all no_marker (hf_causes ?f)" "list_all (\<lambda>c. chars_count c \<le> 240) (hf_causes ?f)" "length (hf_causes ?f) \<le> 6"
    using causes_loop_safe[of "[]" "rq_cause_texts e" 0]
    by (simp_all add: http_failure_def Let_def sanitized_http_causes_def HTTP_CAUSE_LIMIT_def HTTP_CAUSE_CHARS_def list_all_iff)
  have "list_all (\<lambda>op. no_marker (''operation='' @ op)) http_operations" by code_simp
  then have "no_marker (''operation='' @ hf_operation ?f)"
    using assms by (auto simp: list_all_iff http_failure_def Let_def)
  from no_marker_display[OF this c(1)] show ?thesis using c(2,3) by (simp add: no_marker_def)
qed

theorem http_failure_text_safe_witness:
  "\<not> sublist ''token='' (ascii_lowercase (http_failure_display (http_failure ''artifact_put'' 1
     \<lparr>rq_is_timeout = False, rq_is_connect = True, rq_is_body = False, rq_is_redirect = False, rq_is_builder = False,
      rq_is_decode = False, rq_is_request = False, rq_status = None, rq_cause_texts = [''bad Token=abc'', ''connect refused'']\<rparr>)))"
  using http_failure_text_safe[of "''artifact_put''" 1
      "\<lparr>rq_is_timeout = False, rq_is_connect = True, rq_is_body = False, rq_is_redirect = False, rq_is_builder = False,
      rq_is_decode = False, rq_is_request = False, rq_status = None, rq_cause_texts = [''bad Token=abc'', ''connect refused'']\<rparr>"]
  by (auto simp: http_operations_def secret_markers_def)

end
