(* ===== verification/Runtime_Artifacts.thy ===== *)
theory Runtime_Artifacts
  imports Runtime_Error
begin

text \<open>
  The artifact streams of the worker (\<open>crates/nagisalake-runtime/src/artifacts.rs\<close>):
  bounded downloads, the upload with its retries, signed lifetimes and file names. The HTTP
  exchanges, the clock, the file system and the hash are parameters: what the peer
  answers is an argument of the operation.
\<close>

subsection \<open>Streaming a response into a file\<close>

text \<open>
  \<open>sha\<close> is the hexadecimal SHA-256 of the bytes. The result comes with the file that the call leaves:
  none, one with unspecified content because the buffered writer was not flushed, or one with the given bytes.
\<close>

datatype http_chunk = Chunk "u8 list" | ChunkFailed reqwest_error

datatype left_file = NoFile | PartialFile | FullFile "u8 list"

text \<open>The outcomes of the file system: creating, writing after so many bytes, and flushing.\<close>

record disk =
  dk_create :: "string option"
  dk_write :: "nat \<Rightarrow> string option"
  dk_flush :: "string option"

fun stream_loop ::
  "(u8 list \<Rightarrow> string) \<Rightarrow> disk \<Rightarrow> u64 \<Rightarrow> string \<Rightarrow> http_chunk list \<Rightarrow> u64 \<Rightarrow> u8 list
   \<Rightarrow> left_file \<times> (RuntimeError, u64 \<times> string) result" where
  "stream_loop sha dk max_bytes operation [] n content =
     (case dk_flush dk of Some e \<Rightarrow> (PartialFile, Err (RtIo e)) | None \<Rightarrow> (FullFile content, Ok (n, sha content)))"
| "stream_loop sha dk max_bytes operation (ChunkFailed e # rest) n content =
     (PartialFile, Err (RtHttp (http_failure operation 1 e)))"
| "stream_loop sha dk max_bytes operation (Chunk c # rest) n content =
     (if unat n + length c \<ge> 2 ^ 64 then (PartialFile, Err (RtArtifact ''artifact size overflow''))
      else if n + of_nat (length c) > max_bytes
      then (NoFile, Err (RtArtifact (''artifact exceeds '' @ show_nat (unat max_bytes) @ ''-byte limit'')))
      else
        (case dk_write dk (unat n) of
           Some e \<Rightarrow> (PartialFile, Err (RtIo e))
         | None \<Rightarrow> stream_loop sha dk max_bytes operation rest (n + of_nat (length c)) (content @ c)))"

definition stream_response_to_file ::
  "(u8 list \<Rightarrow> string) \<Rightarrow> disk \<Rightarrow> u64 \<Rightarrow> string \<Rightarrow> http_chunk list \<Rightarrow> left_file \<times> (RuntimeError, u64 \<times> string) result" where
  "stream_response_to_file sha dk max_bytes operation chunks =
     (case dk_create dk of
        Some e \<Rightarrow> (NoFile, Err (RtIo e))
      | None \<Rightarrow> stream_loop sha dk max_bytes operation chunks 0 [])"

definition validate_presigned :: "i64 \<Rightarrow> PresignedRequest \<Rightarrow> string \<Rightarrow> (RuntimeError, unit) result" where
  "validate_presigned now r verb =
     (if pr_method r \<noteq> verb then Err (RtArtifact (''presigned request method must be '' @ verb))
      else if trim (pr_url r) = [] then Err (RtArtifact ''presigned request URL is empty'')
      else if pr_expires_at_unix_ms r \<le> now then Err (RtArtifact ''presigned request has expired'')
      else Ok ())"

text \<open>The answer to a GET: an error, or a status with the chunks of the body.\<close>

datatype http_get = GetFailed reqwest_error | GetAnswer u16 "http_chunk list"

definition is_success :: "u16 \<Rightarrow> bool" where
  "is_success s \<longleftrightarrow> 200 \<le> s \<and> s < 300"

definition download_to_file ::
  "(u8 list \<Rightarrow> string) \<Rightarrow> disk \<Rightarrow> i64 \<Rightarrow> http_get \<Rightarrow> PresignedRequest \<Rightarrow> u64 \<Rightarrow> string
   \<Rightarrow> left_file \<times> (RuntimeError, unit) result" where
  "download_to_file sha dk now answer request expected_size expected_sha256 =
     (case validate_presigned now request ''GET'' of
        Err e \<Rightarrow> (NoFile, Err e)
      | Ok _ \<Rightarrow>
          if expected_size = 0 then (NoFile, Err (RtArtifact ''input size must be greater than zero''))
          else
            (case answer of
               GetFailed e \<Rightarrow> (NoFile, Err (RtHttp (http_failure ''artifact_get_send'' 1 e)))
             | GetAnswer status chunks \<Rightarrow>
                 if \<not> is_success status then (NoFile, Err (RtHttp (http_failure_status ''artifact_get'' 1 status)))
                 else
                   (case stream_response_to_file sha dk expected_size ''artifact_get_body'' chunks of
                      (file, Err e) \<Rightarrow> (file, Err e)
                    | (file, Ok (n, digest)) \<Rightarrow>
                        if n \<noteq> expected_size \<or> \<not> eq_ignore_ascii_case digest expected_sha256
                        then (NoFile, Err (RtArtifact ''downloaded input size or SHA-256 does not match metadata''))
                        else (file, Ok ()))))"

subsection \<open>Uploads\<close>

definition ARTIFACT_PUT_MAX_ATTEMPTS :: u8 where
  "ARTIFACT_PUT_MAX_ATTEMPTS = 3"

definition PRESIGNED_REQUEST_EXPIRY_GUARD_MS :: i64 where
  "PRESIGNED_REQUEST_EXPIRY_GUARD_MS = 1000"

definition ticket_expired :: "u8 \<Rightarrow> HttpFailure" where
  "ticket_expired attempt =
     \<lparr>hf_operation = ''artifact_put'', hf_class = HcTicketExpired, hf_status = None, hf_transient = True,
      hf_attempts = attempt, hf_causes = [''presigned upload ticket is expired or too close to expiry'']\<rparr>"

text \<open>The bound on the request, in milliseconds.\<close>

definition artifact_put_request_timeout :: "i64 \<Rightarrow> i64 \<Rightarrow> u8 \<Rightarrow> (HttpFailure, u64) result" where
  "artifact_put_request_timeout expires_at now attempt =
     (let remaining = i64_saturating_sub expires_at now
      in if remaining \<le> PRESIGNED_REQUEST_EXPIRY_GUARD_MS then Err (ticket_expired attempt)
         else Ok (of_int (i64_saturating_sub remaining PRESIGNED_REQUEST_EXPIRY_GUARD_MS)))"

definition artifact_put_retry_delay :: "string \<Rightarrow> u8 \<Rightarrow> u64" where
  "artifact_put_retry_delay request_id attempt =
     (let base = (if attempt = 2 then 250 else 1000);
          hash = foldl (\<lambda>h b. xor (h * 16777619) (ucast b)) (ucast attempt :: u64) (as_bytes request_id)
      in base + hash mod 251)"

text \<open>What a PUT meets: cancelled while sending, an error, or a status.\<close>

datatype http_put = PutCancelled | PutFailed reqwest_error | PutStatus u16

record put_env =
  pe_timeout_now :: i64
  pe_validate_now :: i64
  pe_file :: "(string, u64) result"
  pe_answer :: http_put

definition upload_file_once :: "put_env \<Rightarrow> PresignedRequest \<Rightarrow> u64 \<Rightarrow> u8 \<Rightarrow> (RuntimeError, unit) result" where
  "upload_file_once env request expected_size attempt =
     (case artifact_put_request_timeout (pr_expires_at_unix_ms request) (pe_timeout_now env) attempt of
        Err f \<Rightarrow> Err (RtHttp f)
      | Ok request_timeout \<Rightarrow>
          (case validate_presigned (pe_validate_now env) request ''PUT'' of
             Err e \<Rightarrow> Err e
           | Ok _ \<Rightarrow>
               (case pe_file env of
                  Err e \<Rightarrow> Err (RtIo e)
                | Ok n \<Rightarrow>
                    if n \<noteq> expected_size then Err (RtArtifact ''output file size changed before upload'')
                    else
                      (case pe_answer env of
                         PutCancelled \<Rightarrow> Err RtCancelled
                       | PutFailed e \<Rightarrow> Err (RtHttp (http_failure ''artifact_put'' attempt e))
                       | PutStatus s \<Rightarrow>
                           if is_success s then Ok () else Err (RtHttp (http_failure_status ''artifact_put'' attempt s))))))"

datatype ticket_outcome = TicketCancelled | TicketFailed RuntimeError | Ticket ArtifactUpload

record upload_env =
  ue_delay_cancelled :: "u8 \<Rightarrow> bool"
  ue_ticket :: "u8 \<Rightarrow> ticket_outcome"
  ue_put :: "u8 \<Rightarrow> put_env"

definition attempts_exhausted :: HttpFailure where
  "attempts_exhausted =
     \<lparr>hf_operation = ''artifact_put'', hf_class = HcUnknown, hf_status = None, hf_transient = False,
      hf_attempts = ARTIFACT_PUT_MAX_ATTEMPTS, hf_causes = [''upload attempts were exhausted'']\<rparr>"

text \<open>The loop over the attempts; the list of the result names the attempts that reached the upload.\<close>

fun upload_loop ::
  "upload_env \<Rightarrow> ArtifactReady \<Rightarrow> u8 list \<Rightarrow> string option \<Rightarrow> HttpFailure option \<Rightarrow> u8 list \<times> (RuntimeError, string) result" where
  "upload_loop env ready [] artifact_id last_failure =
     ([], Err (RtHttp (case last_failure of Some f \<Rightarrow> f | None \<Rightarrow> attempts_exhausted)))"
| "upload_loop env ready (attempt # rest) artifact_id last_failure =
     (if attempt > 1 \<and> ue_delay_cancelled env attempt then ([], Err RtCancelled)
      else
        (case ue_ticket env attempt of
           TicketCancelled \<Rightarrow> ([], Err RtCancelled)
         | TicketFailed e \<Rightarrow> ([], Err e)
         | Ticket ticket \<Rightarrow>
             if au_request_id ticket \<noteq> ar_request_id ready
             then ([], Err (RtArtifact ''Hub returned an upload ticket for a different request''))
             else if (case artifact_id of Some expected \<Rightarrow> expected \<noteq> au_artifact_id ticket | None \<Rightarrow> False)
             then ([], Err (RtArtifact ''Hub changed the artifact id while refreshing an upload ticket''))
             else
               (case upload_file_once (ue_put env attempt) (au_upload ticket) (ar_size_bytes ready) attempt of
                  Ok _ \<Rightarrow> ([attempt], Ok (au_artifact_id ticket))
                | Err (RtHttp f) \<Rightarrow>
                    if hf_transient f \<and> attempt < ARTIFACT_PUT_MAX_ATTEMPTS
                    then (case upload_loop env ready rest
                                 (case artifact_id of Some a \<Rightarrow> Some a | None \<Rightarrow> Some (au_artifact_id ticket)) (Some f) of
                            (puts, r) \<Rightarrow> (attempt # puts, r))
                    else ([attempt], Err (RtHttp f))
                | Err e \<Rightarrow> ([attempt], Err e))))"

definition upload_file_with_retry :: "upload_env \<Rightarrow> ArtifactReady \<Rightarrow> u8 list \<times> (RuntimeError, string) result" where
  "upload_file_with_retry env ready = upload_loop env ready [1, 2, 3] None None"

definition runtime_safe_filename :: "string \<Rightarrow> string" where
  "runtime_safe_filename v =
     (let candidate = (case path_file_name v of None \<Rightarrow> ''artifact.bin'' | Some n \<Rightarrow> n);
          filtered = map_chars (\<lambda>c. if is_ascii_alphanumeric c \<or> c \<in> {CHR ''.'', CHR ''-'', CHR ''_''} then c else CHR ''_'')
                       candidate
      in if filtered = [] \<or> filtered = ''.'' \<or> filtered = ''..'' then ''artifact.bin'' else filtered)"

subsection \<open>Properties\<close>

lemma unat_add_of_nat: "unat (a :: u64) + n < 2 ^ 64 \<Longrightarrow> unat (a + of_nat n) = unat a + n"
  by (simp add: unat_word_ariths unsigned_of_nat take_bit_eq_mod)

text \<open>A file that was streamed holds the bytes that were sent, within the limit, and its size is reported exactly.\<close>

lemma stream_loop_exact:
  assumes "stream_loop sha dk m operation chunks n content = (file, Ok (k, digest))" "unat n = length content" "n \<le> m"
  shows "\<exists>bytes. file = FullFile bytes \<and> unat k = length bytes \<and> k \<le> m \<and> digest = sha bytes \<and>
    bytes = content @ concat (map (\<lambda>c. case c of Chunk b \<Rightarrow> b | ChunkFailed _ \<Rightarrow> []) chunks)"
  using assms
proof (induction sha dk m operation chunks n content rule: stream_loop.induct)
  case (3 sha dk m operation c rest n content)
  then show ?case using unat_add_of_nat[of n "length c"] by (auto split: if_splits option.splits)
qed (auto split: option.splits)

text \<open>
  C40: A downloaded input is the object that was promised: when the download succeeds the file
  holds exactly the bytes that arrived, its length is the expected size, its digest is the expected
  one up to letter case, and the request was a GET that had not expired.
\<close>

theorem download_verified:
  assumes "download_to_file sha dk now answer request expected_size expected_sha256 = (file, Ok ())"
  shows "\<exists>status chunks bytes. answer = GetAnswer status chunks \<and> is_success status \<and> file = FullFile bytes \<and>
    bytes = concat (map (\<lambda>c. case c of Chunk b \<Rightarrow> b | ChunkFailed _ \<Rightarrow> []) chunks) \<and> length bytes = unat expected_size \<and>
    eq_ignore_ascii_case (sha bytes) expected_sha256 \<and> pr_method request = ''GET'' \<and> now < pr_expires_at_unix_ms request"
proof -
  obtain status chunks digest where a: "answer = GetAnswer status chunks" "is_success status"
    and s: "stream_response_to_file sha dk expected_size ''artifact_get_body'' chunks = (file, Ok (expected_size, digest))"
    and d: "eq_ignore_ascii_case digest expected_sha256"
    and v: "validate_presigned now request ''GET'' = Ok ()"
    using assms by (auto simp: download_to_file_def split: sum.splits http_get.splits if_splits prod.splits)
  obtain bytes where "file = FullFile bytes" "unat expected_size = length bytes" "digest = sha bytes"
    "bytes = concat (map (\<lambda>c. case c of Chunk b \<Rightarrow> b | ChunkFailed _ \<Rightarrow> []) chunks)"
    using s stream_loop_exact[where n = 0 and content = "[]" and k = expected_size and m = expected_size]
    by (auto simp: stream_response_to_file_def split: option.splits)
  then show ?thesis using a d v by (auto simp: validate_presigned_def split: if_splits)
qed

definition put_result :: "upload_env \<Rightarrow> ArtifactReady \<Rightarrow> ArtifactUpload \<Rightarrow> u8 \<Rightarrow> (RuntimeError, unit) result" where
  "put_result env ready ticket attempt = upload_file_once (ue_put env attempt) (au_upload ticket) (ar_size_bytes ready) attempt"

definition upload_ok :: "upload_env \<Rightarrow> ArtifactReady \<Rightarrow> u8 list \<Rightarrow> string option \<Rightarrow> u8 list \<times> (RuntimeError, string) result \<Rightarrow> bool" where
  "upload_ok env ready attempts expected pr \<longleftrightarrow>
     (case pr of (puts, r) \<Rightarrow>
        prefix puts attempts \<and>
        (\<forall>a\<in>set (butlast puts). \<exists>t f. ue_ticket env a = Ticket t \<and> put_result env ready t a = Err (RtHttp f) \<and> hf_transient f) \<and>
        (\<forall>i. r = Ok i \<longrightarrow>
           (expected = None \<or> expected = Some i) \<and> puts \<noteq> [] \<and>
           (\<exists>t. ue_ticket env (last puts) = Ticket t \<and> put_result env ready t (last puts) = Ok ()) \<and>
           (\<forall>a\<in>set puts. \<exists>t. ue_ticket env a = Ticket t \<and> au_request_id t = ar_request_id ready \<and> au_artifact_id t = i)))"

lemma upload_ok_stop:
  "(\<And>i. r \<noteq> Ok i) \<Longrightarrow> upload_ok env ready as e ([], r)"
  "(\<And>i. r \<noteq> Ok i) \<Longrightarrow> upload_ok env ready (a # as) e ([a], r)"
  by (auto simp: upload_ok_def)

lemma upload_loop_ok: "upload_ok env ready attempts e (upload_loop env ready attempts e lf)"
proof (induction env ready attempts e lf rule: upload_loop.induct)
  case (2 env ready a rest e lf)
  show ?case
  proof (cases "a > 1 \<and> ue_delay_cancelled env a")
    case False
    note go = this
    show ?thesis
    proof (cases "ue_ticket env a")
      case (Ticket t)
      show ?thesis
      proof (cases "au_request_id t \<noteq> ar_request_id ready \<or> (case e of Some x \<Rightarrow> x \<noteq> au_artifact_id t | None \<Rightarrow> False)")
        case True
        then show ?thesis using go Ticket by (cases e) (auto intro: upload_ok_stop(1))
      next
        case False
        let ?e = "case e of Some x \<Rightarrow> Some x | None \<Rightarrow> Some (au_artifact_id t)"
        have e: "?e = Some (au_artifact_id t)" "e = None \<or> e = Some (au_artifact_id t)" using False by (auto split: option.splits)
        show ?thesis
        proof (cases "put_result env ready t a")
          case (Inr u)
          then show ?thesis using go Ticket False e(2) by (auto simp: put_result_def upload_ok_def)
        next
          case (Inl x)
          show ?thesis
          proof (cases "\<exists>f. x = RtHttp f \<and> hf_transient f \<and> a < ARTIFACT_PUT_MAX_ATTEMPTS")
            case True
            then obtain f where f: "x = RtHttp f" "hf_transient f" "a < ARTIFACT_PUT_MAX_ATTEMPTS" by blast
            obtain puts r where pr: "upload_loop env ready rest ?e (Some f) = (puts, r)" by fastforce
            have "upload_ok env ready rest ?e (puts, r)"
              using "2.IH"[OF go Ticket] False Inl f pr by (auto simp: put_result_def split: option.splits)
            then have "upload_ok env ready (a # rest) e (a # puts, r)"
              using e Ticket Inl f False by (auto simp: upload_ok_def)
            then show ?thesis using go Ticket False Inl f pr e(2) by (auto simp: put_result_def)
          next
            case False': False
            have "upload_loop env ready (a # rest) e lf = ([a], Err x)"
              using go Ticket False Inl False' by (cases x) (auto simp: put_result_def split: option.splits)
            then show ?thesis by (auto intro: upload_ok_stop(2))
          qed
        qed
      qed
    qed (use False in \<open>auto intro: upload_ok_stop(1)\<close>)
  qed (auto intro: upload_ok_stop(1))
qed (auto intro: upload_ok_stop(1))

text \<open>
  An upload is tried at most three times, in order, each time with a fresh ticket. It is
  tried again only after a transient HTTP failure; when it succeeds the last PUT succeeded and every ticket used was for this
  request and for the one artifact that is returned.
\<close>

theorem upload_retry_exact:
  assumes "upload_file_with_retry env ready = (puts, r)"
  shows "prefix puts [1, 2, 3] \<and>
    (\<forall>a\<in>set (butlast puts). \<exists>t f. ue_ticket env a = Ticket t \<and> put_result env ready t a = Err (RtHttp f) \<and> hf_transient f) \<and>
    (\<forall>i. r = Ok i \<longrightarrow> puts \<noteq> [] \<and>
       (\<exists>t. ue_ticket env (last puts) = Ticket t \<and> put_result env ready t (last puts) = Ok ()) \<and>
       (\<forall>a\<in>set puts. \<exists>t. ue_ticket env a = Ticket t \<and> au_request_id t = ar_request_id ready \<and> au_artifact_id t = i))"
  using upload_loop_ok[of env ready "[1, 2, 3]" None None] assms
  by (simp add: upload_file_with_retry_def upload_ok_def)

text \<open>The delay before a retry lies between its base and a quarter of a second more, whatever the request id.\<close>

lemma retry_delay_bounds:
  "unat (artifact_put_retry_delay i a) \<in> (if a = 2 then {250..500} else {1000..1250})"
proof -
  let ?h = "foldl (\<lambda>h b. xor (h * 16777619) (ucast b)) (ucast a :: u64) (as_bytes i)"
  have m: "unat (?h mod 251) \<le> 250"
    using unat_mod_distrib[of ?h 251] by (simp add: less_Suc_eq_le[symmetric])
  then have "unat (250 + ?h mod 251) = 250 + unat (?h mod 251)" "unat (1000 + ?h mod 251) = 1000 + unat (?h mod 251)"
    by (simp_all add: unat_word_ariths)
  then show ?thesis using m by (auto simp: artifact_put_retry_delay_def Let_def)
qed

text \<open>A PUT is given time only inside the signed lifetime of its ticket, less the guard.\<close>

lemma put_timeout_within_lifetime:
  assumes "artifact_put_request_timeout e now a = Ok ms" "i64_min \<le> e - now" "e - now \<le> i64_max"
  shows "0 < ms \<and> int (unat ms) = e - now - 1000"
proof -
  have r: "1000 < e - now" "ms = of_int (e - now - 1000)"
    using assms by (auto simp: artifact_put_request_timeout_def Let_def i64_saturating_sub_def clamp_i64_def
        PRESIGNED_REQUEST_EXPIRY_GUARD_MS_def i64_min_def i64_max_def split: if_splits)
  define k where "k = e - now - 1000"
  have "uint (of_int k :: u64) = k"
    using r(1) assms(3) by (simp add: k_def[symmetric] unsigned_of_int take_bit_eq_mod i64_max_def del: of_int_diff)
      (simp add: k_def)
  then have "uint ms = e - now - 1000" using r(2) by (simp add: k_def)
  then show ?thesis using r(1) by (simp add: word_less_def)
qed

definition good_disk :: disk where
  "good_disk = \<lparr>dk_create = None, dk_write = (\<lambda>_. None), dk_flush = None\<rparr>"

definition sample_download :: PresignedRequest where
  "sample_download = \<lparr>pr_method = ''GET'', pr_url = ''u'', pr_headers = [], pr_expires_at_unix_ms = 5000\<rparr>"

lemma sample_texts: "trim ''u'' = ''u''" "eq_ignore_ascii_case ''ab'' ''AB''"
  by code_simp+

theorem download_verified_witness:
  "download_to_file (\<lambda>b. ''ab'') good_disk 1000 (GetAnswer 200 [Chunk [1], Chunk [2]]) sample_download 2 ''AB'' = (FullFile [1, 2], Ok ()) \<and>
   eq_ignore_ascii_case ''ab'' ''AB''"
proof -
  have d: "download_to_file (\<lambda>b. ''ab'') good_disk 1000 (GetAnswer 200 [Chunk [1], Chunk [2]]) sample_download 2 ''AB'' =
      (FullFile [1, 2], Ok ())"
    by (simp add: download_to_file_def sample_download_def good_disk_def validate_presigned_def sample_texts is_success_def
        stream_response_to_file_def)
  show ?thesis using d download_verified[OF d] by auto
qed

definition sample_upload_env :: upload_env where
  "sample_upload_env =
     \<lparr>ue_delay_cancelled = (\<lambda>_. False),
      ue_ticket = (\<lambda>_. Ticket \<lparr>au_request_id = ''r'', au_artifact_id = ''a'',
        au_upload = \<lparr>pr_method = ''PUT'', pr_url = ''u'', pr_headers = [], pr_expires_at_unix_ms = 9000\<rparr>\<rparr>),
      ue_put = (\<lambda>attempt. \<lparr>pe_timeout_now = 0, pe_validate_now = 0, pe_file = Ok 4,
        pe_answer = PutStatus (if attempt = 1 then 503 else 200)\<rparr>)\<rparr>"

definition sample_ready :: ArtifactReady where
  "sample_ready = \<lparr>ar_request_id = ''r'', ar_job_id = ''j'', ar_attempt = 1, ar_name = ''n'', ar_content_type = ''image/png'',
     ar_size_bytes = 4, ar_sha256 = []\<rparr>"

theorem upload_retry_exact_witness:
  "upload_file_with_retry sample_upload_env sample_ready = ([1, 2], Ok ''a'') \<and>
   (\<exists>t f. ue_ticket sample_upload_env 1 = Ticket t \<and> put_result sample_upload_env sample_ready t 1 = Err (RtHttp f) \<and> hf_transient f)"
proof -
  have u: "upload_file_with_retry sample_upload_env sample_ready = ([1, 2], Ok ''a'')"
    by (simp add: upload_file_with_retry_def sample_upload_env_def sample_ready_def upload_file_once_def
        artifact_put_request_timeout_def i64_saturating_sub_def clamp_i64_def i64_min_def i64_max_def
        PRESIGNED_REQUEST_EXPIRY_GUARD_MS_def ARTIFACT_PUT_MAX_ATTEMPTS_def validate_presigned_def is_success_def
        http_failure_status_def retryable_http_status_def sample_texts Let_def)
  show ?thesis using u upload_retry_exact[OF u] by auto
qed

end
