(* ===== verification/Runtime_Bus.thy ===== *)
theory Runtime_Bus
  imports Runtime_Artifacts
begin

text \<open>
  The control state of the worker (\<open>crates/nagisalake-runtime/src/bus.rs\<close>): the registry of jobs
  with their cancellation tokens, the capacity slots behind the heartbeat counters, and
  the waiters for acknowledgements. A token and a slot have an identity; a oneshot sender is
  a number, and the completed ones are listed in the order they are resolved.
\<close>

subsection \<open>State\<close>

datatype SlotPhase = SlotQueued | SlotActive

type_synonym token = nat
type_synonym slot = nat
type_synonym waiter = nat

record WorkerRuntime =
  rt_events :: "(string \<times> u64, waiter) hash_map"
  rt_tickets :: "(string, string \<times> waiter) hash_map"
  rt_acks :: "(string, string \<times> waiter) hash_map"
  rt_cancellations :: "(string, token) hash_map"
  rt_cancelled :: "token hash_set"
  rt_next_token :: token
  rt_slots :: "(slot, SlotPhase) hash_map"
  rt_active_jobs :: nat
  rt_queued_jobs :: nat
  rt_max_jobs :: nat
  rt_resolved :: "waiter list"

definition runtime_with_capacity :: "nat \<Rightarrow> WorkerRuntime" where
  "runtime_with_capacity n =
     \<lparr>rt_events = [], rt_tickets = [], rt_acks = [], rt_cancellations = [], rt_cancelled = [], rt_next_token = 0,
      rt_slots = [], rt_active_jobs = 0, rt_queued_jobs = 0, rt_max_jobs = n, rt_resolved = []\<rparr>"

subsection \<open>Capacity slots\<close>

definition slot_queued :: "slot \<Rightarrow> WorkerRuntime \<Rightarrow> WorkerRuntime" where
  "slot_queued i rt = rt\<lparr>rt_queued_jobs := rt_queued_jobs rt + 1, rt_slots := hm_insert i SlotQueued (rt_slots rt)\<rparr>"

definition slot_activate :: "slot \<Rightarrow> WorkerRuntime \<Rightarrow> WorkerRuntime" where
  "slot_activate i rt =
     (if hm_get (rt_slots rt) i = Some SlotQueued
      then rt\<lparr>rt_queued_jobs := rt_queued_jobs rt - 1, rt_active_jobs := rt_active_jobs rt + 1,
              rt_slots := hm_insert i SlotActive (rt_slots rt)\<rparr>
      else rt)"

definition slot_drop :: "slot \<Rightarrow> WorkerRuntime \<Rightarrow> WorkerRuntime" where
  "slot_drop i rt =
     (case hm_get (rt_slots rt) i of
        None \<Rightarrow> rt
      | Some SlotQueued \<Rightarrow> rt\<lparr>rt_queued_jobs := rt_queued_jobs rt - 1, rt_slots := hm_remove i (rt_slots rt)\<rparr>
      | Some SlotActive \<Rightarrow> rt\<lparr>rt_active_jobs := rt_active_jobs rt - 1, rt_slots := hm_remove i (rt_slots rt)\<rparr>)"

definition runtime_metrics :: "WorkerRuntime \<Rightarrow> u16 \<times> u16" where
  "runtime_metrics rt = (of_nat (min (rt_active_jobs rt) 65535), of_nat (min (rt_queued_jobs rt) 65535))"

subsection \<open>The registry\<close>

text \<open>The identity of the new token serves for the slot too.\<close>

definition register_job_inner ::
  "string \<Rightarrow> bool \<Rightarrow> WorkerRuntime \<Rightarrow> WorkerRuntime \<times> (RuntimeError, (token \<times> slot) option) result" where
  "register_job_inner job enforce_capacity rt =
     (if hm_contains (rt_cancellations rt) job then (rt, Ok None)
      else if enforce_capacity \<and> length (rt_cancellations rt) \<ge> rt_max_jobs rt
      then (rt, Err (RtCapacityExhausted (rt_max_jobs rt)))
      else
        let i = rt_next_token rt
        in (slot_queued i (rt\<lparr>rt_cancellations := hm_insert job i (rt_cancellations rt), rt_next_token := i + 1\<rparr>),
            Ok (Some (i, i))))"

definition register_job :: "string \<Rightarrow> WorkerRuntime \<Rightarrow> WorkerRuntime \<times> (RuntimeError, (token \<times> slot) option) result" where
  "register_job job rt = register_job_inner job True rt"

definition restore_job :: "string \<Rightarrow> WorkerRuntime \<Rightarrow> WorkerRuntime \<times> (token \<times> slot) option" where
  "restore_job job rt =
     (let (rt1, r) = register_job_inner job False rt in (rt1, case r of Ok s \<Rightarrow> s | Err _ \<Rightarrow> None))"

definition runtime_cancel_job :: "string \<Rightarrow> WorkerRuntime \<Rightarrow> WorkerRuntime \<times> bool" where
  "runtime_cancel_job job rt =
     (case hm_get (rt_cancellations rt) job of
        None \<Rightarrow> (rt, False)
      | Some t \<Rightarrow>
          (rt\<lparr>rt_cancelled := hs_insert t (rt_cancelled rt),
              rt_events := hm_retain (\<lambda>(waiting_job, n) w. waiting_job \<noteq> job) (rt_events rt),
              rt_tickets := hm_retain (\<lambda>r (waiting_job, w). waiting_job \<noteq> job) (rt_tickets rt),
              rt_acks := hm_retain (\<lambda>r (waiting_job, w). waiting_job \<noteq> job) (rt_acks rt)\<rparr>,
           True))"

definition finish_job :: "string \<Rightarrow> WorkerRuntime \<Rightarrow> WorkerRuntime" where
  "finish_job job rt = rt\<lparr>rt_cancellations := hm_remove job (rt_cancellations rt)\<rparr>"

definition runtime_is_cancelled :: "string \<Rightarrow> WorkerRuntime \<Rightarrow> bool" where
  "runtime_is_cancelled job rt =
     (case hm_get (rt_cancellations rt) job of None \<Rightarrow> False | Some t \<Rightarrow> t \<in> set (rt_cancelled rt))"

subsection \<open>Acknowledgements\<close>

definition wait_event :: "string \<times> u64 \<Rightarrow> waiter \<Rightarrow> WorkerRuntime \<Rightarrow> WorkerRuntime" where
  "wait_event k w rt = rt\<lparr>rt_events := hm_insert k w (rt_events rt)\<rparr>"

definition resolve_job_event :: "string \<Rightarrow> u64 \<Rightarrow> WorkerRuntime \<Rightarrow> WorkerRuntime" where
  "resolve_job_event job sequence rt =
     (case hm_get (rt_events rt) (job, sequence) of
        None \<Rightarrow> rt
      | Some w \<Rightarrow> rt\<lparr>rt_events := hm_remove (job, sequence) (rt_events rt), rt_resolved := rt_resolved rt @ [w]\<rparr>)"

definition resolve_artifact_ticket :: "ArtifactUpload \<Rightarrow> WorkerRuntime \<Rightarrow> WorkerRuntime" where
  "resolve_artifact_ticket upload rt =
     (case hm_get (rt_tickets rt) (au_request_id upload) of
        None \<Rightarrow> rt
      | Some (_, w) \<Rightarrow> rt\<lparr>rt_tickets := hm_remove (au_request_id upload) (rt_tickets rt), rt_resolved := rt_resolved rt @ [w]\<rparr>)"

definition resolve_artifact_ack :: "ArtifactUploadedAck \<Rightarrow> WorkerRuntime \<Rightarrow> WorkerRuntime" where
  "resolve_artifact_ack ack rt =
     (case hm_get (rt_acks rt) (aa_request_id ack) of
        None \<Rightarrow> rt
      | Some (_, w) \<Rightarrow> rt\<lparr>rt_acks := hm_remove (aa_request_id ack) (rt_acks rt), rt_resolved := rt_resolved rt @ [w]\<rparr>)"

subsection \<open>Runs\<close>

inductive runtime_step :: "WorkerRuntime \<Rightarrow> WorkerRuntime \<Rightarrow> bool" where
  step_register: "runtime_step rt (fst (register_job job rt))"
| step_restore: "runtime_step rt (fst (restore_job job rt))"
| step_cancel: "runtime_step rt (fst (runtime_cancel_job job rt))"
| step_finish: "runtime_step rt (finish_job job rt)"
| step_activate: "runtime_step rt (slot_activate i rt)"
| step_drop: "runtime_step rt (slot_drop i rt)"
| step_wait: "runtime_step rt (wait_event k w rt)"
| step_resolve_event: "runtime_step rt (resolve_job_event job n rt)"
| step_resolve_ticket: "runtime_step rt (resolve_artifact_ticket upload rt)"
| step_resolve_ack: "runtime_step rt (resolve_artifact_ack ack rt)"

definition phase_slots :: "SlotPhase \<Rightarrow> (slot, SlotPhase) hash_map \<Rightarrow> slot set" where
  "phase_slots p m = {i. hm_get m i = Some p}"

definition phase_count :: "SlotPhase \<Rightarrow> WorkerRuntime \<Rightarrow> nat" where
  "phase_count p rt = card (phase_slots p (rt_slots rt))"

definition runtime_inv :: "WorkerRuntime \<Rightarrow> bool" where
  "runtime_inv rt \<longleftrightarrow>
     hm_wf (rt_slots rt) \<and> (\<forall>i p. hm_get (rt_slots rt) i = Some p \<longrightarrow> i < rt_next_token rt) \<and>
     rt_queued_jobs rt = phase_count SlotQueued rt \<and> rt_active_jobs rt = phase_count SlotActive rt"

lemma finite_phase [simp]: "finite (phase_slots p m)"
proof -
  have "phase_slots p m \<subseteq> fst ` set m" by (force simp: phase_slots_def hm_get_def dest: map_of_SomeD)
  then show ?thesis using finite_subset by blast
qed

text \<open>How the slots with a given phase change when one slot is set or removed.\<close>

lemma phase_insert:
  "hm_wf m \<Longrightarrow> phase_slots p (hm_insert i q m) = (if p = q then insert i (phase_slots p m) else phase_slots p m - {i})"
  by (auto simp: phase_slots_def)

lemma phase_remove: "hm_wf m \<Longrightarrow> phase_slots p (hm_remove i m) = phase_slots p m - {i}"
  by (auto simp: phase_slots_def)

lemma phase_mem: "i \<in> phase_slots p m \<longleftrightarrow> hm_get m i = Some p"
  by (simp add: phase_slots_def)

lemma slot_queued_inv:
  assumes "runtime_inv rt" "hm_get (rt_slots rt) i = None" "i < rt_next_token rt"
  shows "runtime_inv (slot_queued i rt)"
  using assms
  by (auto simp: runtime_inv_def slot_queued_def phase_count_def phase_insert phase_mem card_insert_if)

lemma slot_activate_inv: "runtime_inv rt \<Longrightarrow> runtime_inv (slot_activate i rt)"
  by (auto simp: runtime_inv_def slot_activate_def phase_count_def phase_insert phase_mem card_insert_if)

lemma slot_drop_inv: "runtime_inv rt \<Longrightarrow> runtime_inv (slot_drop i rt)"
  by (auto simp: runtime_inv_def slot_drop_def phase_count_def phase_remove phase_mem split: option.split SlotPhase.split if_splits)

lemma runtime_inv_frame [simp]:
  "runtime_inv (rt\<lparr>rt_cancelled := a, rt_events := b, rt_tickets := c, rt_acks := d\<rparr>) = runtime_inv rt"
  "runtime_inv (rt\<lparr>rt_cancellations := e\<rparr>) = runtime_inv rt" "runtime_inv (rt\<lparr>rt_events := b\<rparr>) = runtime_inv rt"
  "runtime_inv (rt\<lparr>rt_events := b, rt_resolved := r\<rparr>) = runtime_inv rt"
  "runtime_inv (rt\<lparr>rt_tickets := c, rt_resolved := r\<rparr>) = runtime_inv rt"
  "runtime_inv (rt\<lparr>rt_acks := d, rt_resolved := r\<rparr>) = runtime_inv rt"
  by (simp_all add: runtime_inv_def phase_count_def)

lemma register_job_inner_inv:
  assumes "runtime_inv rt"
  shows "runtime_inv (fst (register_job_inner job c rt))"
proof -
  let ?rt = "rt\<lparr>rt_cancellations := hm_insert job (rt_next_token rt) (rt_cancellations rt), rt_next_token := rt_next_token rt + 1\<rparr>"
  have "hm_get (rt_slots rt) (rt_next_token rt) = None"
    using assms by (cases "hm_get (rt_slots rt) (rt_next_token rt)") (auto simp: runtime_inv_def)
  moreover have "runtime_inv ?rt" using assms by (auto simp: runtime_inv_def phase_count_def less_SucI)
  ultimately have "runtime_inv (slot_queued (rt_next_token rt) ?rt)" by (intro slot_queued_inv) simp_all
  then show ?thesis using assms by (simp add: register_job_inner_def Let_def)
qed

lemma runtime_step_inv: "runtime_step rt rt' \<Longrightarrow> runtime_inv rt \<Longrightarrow> runtime_inv rt'"
  by (induction rule: runtime_step.induct)
    (auto simp: register_job_def restore_job_def split_def Let_def runtime_cancel_job_def finish_job_def wait_event_def resolve_job_event_def
      resolve_artifact_ticket_def resolve_artifact_ack_def slot_activate_inv slot_drop_inv
      register_job_inner_inv split: option.split prod.split sum.split)

lemma runtime_inv_new: "runtime_inv (runtime_with_capacity n)"
  by (simp add: runtime_inv_def runtime_with_capacity_def phase_count_def phase_slots_def)

text \<open>
  The counters of the heartbeat are exact. Over any sequence of registrations,
  restorations, cancellations, activations, drops and acknowledgements, the active and queued counts that
  the worker reports are the numbers of live slots in each phase, up to the width of the message;
  and a new job is admitted only while fewer jobs than the capacity are registered, and never twice.
\<close>

theorem heartbeat_counters_exact:
  assumes "runtime_step\<^sup>*\<^sup>* (runtime_with_capacity n) rt"
  shows "runtime_metrics rt = (of_nat (min (card (phase_slots SlotActive (rt_slots rt))) 65535),
      of_nat (min (card (phase_slots SlotQueued (rt_slots rt))) 65535)) \<and>
    (\<forall>job s. snd (register_job job rt) = Ok (Some s) \<longrightarrow>
       hm_get (rt_cancellations rt) job = None \<and> length (rt_cancellations rt) < rt_max_jobs rt)"
proof -
  have "runtime_inv rt"
    using assms by (induction rule: rtranclp_induct) (auto intro: runtime_inv_new runtime_step_inv)
  then show ?thesis
    by (auto simp: runtime_metrics_def runtime_inv_def phase_count_def register_job_def register_job_inner_def
        hm_contains_def Let_def split: if_splits)
qed

definition sample_runtime :: WorkerRuntime where
  "sample_runtime = slot_activate 0 (fst (register_job ''b'' (fst (register_job ''a'' (runtime_with_capacity 2)))))"

theorem heartbeat_counters_exact_witness:
  "runtime_metrics sample_runtime = (1, 1) \<and>
   card (phase_slots SlotActive (rt_slots sample_runtime)) = 1 \<and> snd (register_job ''c'' sample_runtime) = Err (RtCapacityExhausted 2)"
proof -
  have run: "runtime_step\<^sup>*\<^sup>* (runtime_with_capacity 2) sample_runtime"
    unfolding sample_runtime_def
    by (meson rtranclp.rtrancl_refl rtranclp.rtrancl_into_rtrancl step_register step_activate)
  have m: "runtime_metrics sample_runtime = (1, 1)" "snd (register_job ''c'' sample_runtime) = Err (RtCapacityExhausted 2)"
    "phase_slots SlotActive (rt_slots sample_runtime) = {0}"
    by (auto simp: sample_runtime_def slot_activate_def register_job_def register_job_inner_def runtime_with_capacity_def
        slot_queued_def runtime_metrics_def hm_contains_def hm_get_def hm_insert_def Let_def phase_slots_def)
  then show ?thesis using heartbeat_counters_exact[OF run] by simp
qed

end
