(* ===== verification/Runtime_Runner.thy ===== *)
theory Runtime_Runner
  imports Runtime_Bus
begin

text \<open>
  The execution of one job on the worker (\<open>crates/nagisalake-runtime/src/runner.rs\<close> and the event
  delivery \<open>send_job_event\<close> of \<open>bus.rs\<close>) over the SQLite journal of \<open>Journal\<close> and the
  catalog of \<open>Workflow_Catalog\<close>. The world around the run, that is ComfyUI, the object store,
  the clock, the disk, the acknowledgements of the Hub and the moments of a cancellation, is the
  record \<open>run_env\<close>; what changes over time is indexed by the tick of the run, which counts the observations
  made of it. A computation returns, fails with an error, panics, or does not return.
\<close>

subsection \<open>Configuration\<close>

record WorkerExecutionConfig =
  we_work_dir :: string
  we_poll_interval :: nat
  we_max_output_bytes :: u64
  we_parallelism :: nat

definition validate_execution_config :: "WorkerExecutionConfig \<Rightarrow> (RuntimeError, unit) result" where
  "validate_execution_config c =
     (if we_work_dir c = [] then Err (RtInvalidConfig ''work_dir must not be empty'')
      else if we_poll_interval c = 0 then Err (RtInvalidConfig ''poll_interval must be greater than zero'')
      else if we_max_output_bytes c = 0 then Err (RtInvalidConfig ''max_output_bytes must be greater than zero'')
      else if we_parallelism c = 0 then Err (RtInvalidConfig ''parallelism must be greater than zero'')
      else Ok ())"

datatype ComfyPromptStatus = StatusUnknown | StatusQueued u32 | StatusRunning

record OutputRef =
  or_filename :: string
  or_subfolder :: string
  or_storage_type :: string
  or_content_type :: string

text \<open>Acquiring the parallelism permit: granted, the semaphore was closed, or the job was cancelled first.\<close>

datatype permit = PermitGranted | PermitClosed | PermitCancelled

text \<open>A change of the status channel: a new status, seen at a time, and the time after its event was sent; or its end.\<close>

datatype status_event = StatusChanged ComfyPromptStatus nat nat | StatusChannelClosed

record run_env =
  re_serde :: serde
  re_journal_now :: "nat \<Rightarrow> i64"
  re_event_now :: "nat \<Rightarrow> i64"
  re_cancelled :: "nat \<Rightarrow> bool"
  re_acked :: "nat \<Rightarrow> bool"
  re_sha :: "u8 list \<Rightarrow> string"
  re_error_text :: "RuntimeError \<Rightarrow> string"
  re_permit :: permit
  re_input_dir :: "string option"
  re_input :: "nat \<Rightarrow> disk \<times> i64 \<times> http_get"
  re_upload_image :: "nat \<Rightarrow> string \<Rightarrow> (string, string) result"
  re_prompt :: "json \<Rightarrow> (string, string) result"
  re_started :: nat
  re_statuses :: "status_event list"
  re_wait :: "(string, OutputRef list) result"
  re_output_dir :: "string option"
  re_view :: "nat \<Rightarrow> (string, http_chunk list) result"
  re_output_disk :: "nat \<Rightarrow> disk"
  re_request_id :: "nat \<Rightarrow> string"
  re_upload :: "nat \<Rightarrow> upload_env"

subsection \<open>Computations\<close>

record RunState =
  rs_journal :: worker_jobs
  rs_sent :: "JobEvent list"
  rs_tick :: nat
  rs_sequence :: u64
  rs_state :: JobState
  rs_phase :: SlotPhase
  rs_removed_prompts :: "string list"
  rs_confirmed :: "ArtifactUploaded list"

datatype 'a outcome = Returned 'a | Raised RuntimeError | Panicked

type_synonym 'a run = "RunState \<Rightarrow> (RunState \<times> 'a outcome) option"

definition run_return :: "'a \<Rightarrow> 'a run" where
  "run_return x st = Some (st, Returned x)"

definition run_raise :: "RuntimeError \<Rightarrow> 'a run" where
  "run_raise e st = Some (st, Raised e)"

definition run_result :: "(RuntimeError, 'a) result \<Rightarrow> 'a run" where
  "run_result r = (case r of Ok x \<Rightarrow> run_return x | Err e \<Rightarrow> run_raise e)"

definition run_bind :: "'a run \<Rightarrow> ('a \<Rightarrow> 'b run) \<Rightarrow> 'b run" where
  "run_bind m f st =
     (case m st of
        None \<Rightarrow> None
      | Some (st1, Returned x) \<Rightarrow> f x st1
      | Some (st1, Raised e) \<Rightarrow> Some (st1, Raised e)
      | Some (st1, Panicked) \<Rightarrow> Some (st1, Panicked))"

definition run_update :: "(RunState \<Rightarrow> RunState) \<Rightarrow> unit run" where
  "run_update f st = Some (f st, Returned ())"

definition next_tick :: "RunState \<Rightarrow> RunState" where
  "next_tick st = st\<lparr>rs_tick := rs_tick st + 1\<rparr>"

text \<open>\<open>cancellation.is_cancelled()\<close>.\<close>

definition observe_cancelled :: "run_env \<Rightarrow> bool run" where
  "observe_cancelled E st = Some (next_tick st, Returned (re_cancelled E (rs_tick st)))"

definition check_cancelled :: "run_env \<Rightarrow> unit run" where
  "check_cancelled E = run_bind (observe_cancelled E) (\<lambda>c. if c then run_raise RtCancelled else run_return ())"

subsection \<open>Delivering an event\<close>

text \<open>One round of the loop per tick: give up when cancelled, send, and wait for the acknowledgement or 30 seconds.\<close>

partial_function (option) deliver :: "run_env \<Rightarrow> JobEvent \<Rightarrow> RunState \<Rightarrow> (RunState \<times> unit outcome) option" where
  "deliver E event st =
     (if ev_kind event \<noteq> EvCancelled \<and> re_cancelled E (rs_tick st) then Some (next_tick st, Raised RtCancelled)
      else
        let st1 = next_tick (st\<lparr>rs_sent := rs_sent st @ [event]\<rparr>)
        in if re_acked E (rs_tick st)
           then (case sqlite_clear_pending_event (re_journal_now E (rs_tick st)) (ev_job_id event) (ev_sequence event) (rs_journal st1) of
                   (journal, Err e) \<Rightarrow> Some (st1\<lparr>rs_journal := journal\<rparr>, Raised (RtJournal e))
                 | (journal, Ok _) \<Rightarrow> Some (st1\<lparr>rs_journal := journal\<rparr>, Returned ()))
           else deliver E event st1)"

definition send_job_event :: "run_env \<Rightarrow> JobEvent \<Rightarrow> JobState option \<Rightarrow> unit run" where
  "send_job_event E event state st =
     (case sqlite_set_pending_event (re_serde E) (re_journal_now E (rs_tick st)) event state (rs_journal st) of
        (journal, Err e) \<Rightarrow> Some (st\<lparr>rs_journal := journal\<rparr>, Raised (RtJournal e))
      | (journal, Ok _) \<Rightarrow> deliver E event (st\<lparr>rs_journal := journal\<rparr>))"

record EventUpdate =
  eu_kind :: JobEventKind
  eu_progress :: "f32 option"
  eu_prompt_id :: "string option"
  eu_message :: string
  eu_state :: JobState

definition event_of :: "run_env \<Rightarrow> DispatchJob \<Rightarrow> EventUpdate \<Rightarrow> RunState \<Rightarrow> JobEvent" where
  "event_of E d update st =
     \<lparr>ev_job_id = dj_job_id d, ev_attempt = dj_attempt d, ev_sequence = rs_sequence st, ev_kind = eu_kind update,
      ev_progress = eu_progress update, ev_prompt_id = eu_prompt_id update, ev_message = eu_message update,
      ev_unix_ms = re_event_now E (rs_tick st)\<rparr>"

definition emit :: "run_env \<Rightarrow> DispatchJob \<Rightarrow> EventUpdate \<Rightarrow> unit run" where
  "emit E d update st =
     (let st1 = st\<lparr>rs_sequence := saturating_add (rs_sequence st) 1\<rparr>
      in send_job_event E (event_of E d update st1) (Some (eu_state update)) st1)"

subsection \<open>Inputs and outputs\<close>

text \<open>\<open>format!("{:03}", n)\<close>.\<close>

definition show3 :: "nat \<Rightarrow> string" where
  "show3 n = replicate (3 - length (show_nat n)) CHR ''0'' @ show_nat n"

definition input_local_name :: "DispatchJob \<Rightarrow> nat \<Rightarrow> JobInput \<Rightarrow> string" where
  "input_local_name d i input =
     show3 i @ ''-'' @ runtime_safe_filename (dj_job_id d) @ ''-'' @ runtime_safe_filename (ji_name input)"

fun prepare_loop :: "run_env \<Rightarrow> DispatchJob \<Rightarrow> nat \<Rightarrow> JobInput list \<Rightarrow> string list \<Rightarrow> string list run" where
  "prepare_loop E d i [] names = run_return names"
| "prepare_loop E d i (input # rest) names =
     run_bind (check_cancelled E) (\<lambda>_.
     case re_input E i of (dk, now, answer) \<Rightarrow>
       (case snd (download_to_file (re_sha E) dk now answer (ji_download input) (ji_size_bytes input) (ji_sha256 input)) of
          Err e \<Rightarrow> run_raise (RtArtifact (ji_artifact_id input @ '': '' @ re_error_text E e))
        | Ok _ \<Rightarrow>
            (case re_upload_image E i (input_local_name d i input) of
               Err e \<Rightarrow> run_raise (RtComfy e)
             | Ok name \<Rightarrow> prepare_loop E d (i + 1) rest (names @ [name]))))"

definition io_step :: "string option \<Rightarrow> unit run" where
  "io_step r = (case r of None \<Rightarrow> run_return () | Some e \<Rightarrow> run_raise (RtIo e))"

definition prepare_inputs :: "run_env \<Rightarrow> DispatchJob \<Rightarrow> string list run" where
  "prepare_inputs E d = run_bind (io_step (re_input_dir E)) (\<lambda>_. prepare_loop E d 0 (dj_inputs d) [])"

text \<open>The confirmation of an upload is repeated until the Hub acknowledges it.\<close>

partial_function (option) confirm_artifact :: "run_env \<Rightarrow> ArtifactUploaded \<Rightarrow> RunState \<Rightarrow> (RunState \<times> unit outcome) option" where
  "confirm_artifact E uploaded st =
     (let st1 = next_tick (st\<lparr>rs_confirmed := rs_confirmed st @ [uploaded]\<rparr>)
      in if re_acked E (rs_tick st) then Some (st1, Returned ()) else confirm_artifact E uploaded st1)"

definition upload_output :: "run_env \<Rightarrow> WorkerExecutionConfig \<Rightarrow> DispatchJob \<Rightarrow> nat \<Rightarrow> OutputRef \<Rightarrow> unit run" where
  "upload_output E c d i output =
     (case re_view E i of
        Err e \<Rightarrow> run_raise (RtComfy e)
      | Ok chunks \<Rightarrow>
          run_bind (run_result (snd (stream_response_to_file (re_sha E) (re_output_disk E i) (we_max_output_bytes c)
            ''comfy_output_body'' chunks))) (\<lambda>(size_bytes, sha256).
          let ready = \<lparr>ar_request_id = re_request_id E i, ar_job_id = dj_job_id d, ar_attempt = dj_attempt d,
                       ar_name = runtime_safe_filename (or_filename output), ar_content_type = or_content_type output,
                       ar_size_bytes = size_bytes, ar_sha256 = sha256\<rparr>
          in run_bind (run_result (snd (upload_file_with_retry (re_upload E i) ready))) (\<lambda>artifact_id.
             confirm_artifact E \<lparr>ad_request_id = re_request_id E i, ad_artifact_id = artifact_id, ad_job_id = dj_job_id d,
               ad_attempt = dj_attempt d\<rparr>)))"

fun upload_outputs :: "run_env \<Rightarrow> WorkerExecutionConfig \<Rightarrow> DispatchJob \<Rightarrow> nat \<Rightarrow> OutputRef list \<Rightarrow> unit run" where
  "upload_outputs E c d i [] = run_return ()"
| "upload_outputs E c d i (output # rest) =
     run_bind (upload_output E c d i output) (\<lambda>_. upload_outputs E c d (i + 1) rest)"

subsection \<open>Waiting for ComfyUI\<close>

definition COMFY_STATUS_HEARTBEAT_INTERVAL :: nat where
  "COMFY_STATUS_HEARTBEAT_INTERVAL = 10000"

text \<open>Times are in milliseconds.\<close>

fun comfy_status_message :: "ComfyPromptStatus \<Rightarrow> nat \<Rightarrow> string" where
  "comfy_status_message StatusUnknown ms =
     ''ComfyUI prompt status is unavailable (elapsed '' @ show_nat (ms div 1000) @ ''s)''"
| "comfy_status_message (StatusQueued pos) ms =
     ''ComfyUI queued this prompt at position '' @ show_nat (unat pos) @ '' (elapsed '' @ show_nat (ms div 1000) @ ''s)''"
| "comfy_status_message StatusRunning ms =
     ''ComfyUI is running this prompt (elapsed '' @ show_nat (ms div 1000) @ ''s)''"

definition cancel_prompt :: "string \<Rightarrow> unit run" where
  "cancel_prompt prompt_id = run_update (\<lambda>st. st\<lparr>rs_removed_prompts := rs_removed_prompts st @ [prompt_id]\<rparr>)"

fun wait_loop ::
  "run_env \<Rightarrow> DispatchJob \<Rightarrow> string \<Rightarrow> status_event list \<Rightarrow> ComfyPromptStatus \<Rightarrow> nat \<Rightarrow> nat option \<Rightarrow> OutputRef list run" where
  "wait_loop E d prompt_id [] last_status status_since last_event =
     (case re_wait E of
        Ok outputs \<Rightarrow> run_return outputs
      | Err e \<Rightarrow>
          run_bind (observe_cancelled E) (\<lambda>c.
          run_bind (if c then cancel_prompt prompt_id else run_return ()) (\<lambda>_. run_raise (RtComfy e))))"
| "wait_loop E d prompt_id (StatusChannelClosed # rest) last_status status_since last_event =
     wait_loop E d prompt_id rest last_status status_since last_event"
| "wait_loop E d prompt_id (StatusChanged status now sent_at # rest) last_status status_since last_event =
     (if status = StatusUnknown then wait_loop E d prompt_id rest last_status status_since last_event
      else
        let changed = (status \<noteq> last_status);
            status_since1 = (if changed then now else status_since);
            due = (case last_event of None \<Rightarrow> True | Some l \<Rightarrow> now - l \<ge> COMFY_STATUS_HEARTBEAT_INTERVAL)
        in if changed \<or> due
           then run_bind (emit E d \<lparr>eu_kind = EvProgress, eu_progress = None, eu_prompt_id = Some prompt_id,
                           eu_message = comfy_status_message status (now - status_since1), eu_state = Running\<rparr>) (\<lambda>_.
                wait_loop E d prompt_id rest status status_since1 (Some sent_at))
           else wait_loop E d prompt_id rest status status_since1 last_event)"

subsection \<open>The run\<close>

definition set_state :: "JobState \<Rightarrow> unit run" where
  "set_state s = run_update (\<lambda>st. st\<lparr>rs_state := s\<rparr>)"

definition read_state :: "JobState run" where
  "read_state st = Some (st, Returned (rs_state st))"

definition acquire_permit :: "run_env \<Rightarrow> unit run" where
  "acquire_permit E =
     (case re_permit E of
        PermitGranted \<Rightarrow> run_update (\<lambda>st. st\<lparr>rs_phase := SlotActive\<rparr>)
      | PermitClosed \<Rightarrow> run_raise RtConnectionClosed
      | PermitCancelled \<Rightarrow> run_raise RtCancelled)"

definition set_prompt_id :: "run_env \<Rightarrow> string \<Rightarrow> string \<Rightarrow> unit run" where
  "set_prompt_id E job prompt_id st =
     (case sqlite_set_prompt_id (re_journal_now E (rs_tick st)) job prompt_id (rs_journal st) of
        (journal, Err e) \<Rightarrow> Some (st\<lparr>rs_journal := journal\<rparr>, Raised (RtJournal e))
      | (journal, Ok _) \<Rightarrow> Some (st\<lparr>rs_journal := journal\<rparr>, Returned ()))"

definition run_render :: "json_pointer_ops \<Rightarrow> WorkflowCatalog \<Rightarrow> DispatchJob \<Rightarrow> string list \<Rightarrow> json run" where
  "run_render P catalog d names st =
     Some (st, case render P catalog d names of
                 None \<Rightarrow> Panicked | Some (Err e) \<Rightarrow> Raised (RtWorkflow e) | Some (Ok w) \<Rightarrow> Returned w)"

definition obtain_prompt :: "run_env \<Rightarrow> json_pointer_ops \<Rightarrow> WorkflowCatalog \<Rightarrow> JobRecord \<Rightarrow> string run" where
  "obtain_prompt E P catalog r =
     (case jr_prompt_id r of
        Some prompt_id \<Rightarrow> run_return prompt_id
      | None \<Rightarrow>
          run_bind (prepare_inputs E (jr_dispatch r)) (\<lambda>names.
          run_bind (run_render P catalog (jr_dispatch r) names) (\<lambda>workflow.
          run_bind (check_cancelled E) (\<lambda>_.
          case re_prompt E workflow of
            Err e \<Rightarrow> run_raise (RtComfy e)
          | Ok prompt_id \<Rightarrow>
              run_bind (set_prompt_id E (dj_job_id (jr_dispatch r)) prompt_id) (\<lambda>_. run_return prompt_id)))))"

definition emit_state :: "run_env \<Rightarrow> DispatchJob \<Rightarrow> JobEventKind \<Rightarrow> f32 option \<Rightarrow> string option \<Rightarrow> JobState \<Rightarrow> unit run" where
  "emit_state E d kind progress prompt_id s =
     emit E d \<lparr>eu_kind = kind, eu_progress = progress, eu_prompt_id = prompt_id, eu_message = [], eu_state = s\<rparr>"

text \<open>The progress reported with the upload, 0.95 in single precision.\<close>

definition upload_progress :: f32 where
  "upload_progress = F_Fin (15938355 / 16777216)"

definition execute_inner ::
  "run_env \<Rightarrow> json_pointer_ops \<Rightarrow> WorkerExecutionConfig \<Rightarrow> WorkflowCatalog \<Rightarrow> JobRecord \<Rightarrow> unit run" where
  "execute_inner E P c catalog r =
     (let d = jr_dispatch r
      in if is_terminal (jr_state r) then run_return ()
         else
           run_bind (case jr_pending_event r of Some ev \<Rightarrow> send_job_event E ev None | None \<Rightarrow> run_return ()) (\<lambda>_.
           run_bind (if jr_state r = Received
                     then run_bind (emit_state E d EvAccepted None None Accepted) (\<lambda>_. set_state Accepted)
                     else run_return ()) (\<lambda>_.
           run_bind (acquire_permit E) (\<lambda>_.
           run_bind (check_cancelled E) (\<lambda>_.
           run_bind (obtain_prompt E P catalog r) (\<lambda>prompt_id.
           run_bind read_state (\<lambda>s.
           run_bind (if s \<noteq> Running \<and> s \<noteq> Uploading
                     then run_bind (emit_state E d EvRunning None (Some prompt_id) Running) (\<lambda>_. set_state Running)
                     else run_return ()) (\<lambda>_.
           run_bind (observe_cancelled E) (\<lambda>cancelled.
           if cancelled then run_bind (cancel_prompt prompt_id) (\<lambda>_. run_raise RtCancelled)
           else
             run_bind (wait_loop E d prompt_id (re_statuses E) StatusUnknown (re_started E) None) (\<lambda>outputs.
             run_bind (emit_state E d EvUploading (Some upload_progress) (Some prompt_id) Uploading) (\<lambda>_.
             run_bind (set_state Uploading) (\<lambda>_.
             run_bind (io_step (re_output_dir E)) (\<lambda>_.
             run_bind (upload_outputs E c d 0 outputs) (\<lambda>_.
             emit_state E d EvCompleted (Some (F_Fin 1)) (Some prompt_id) Completed))))))))))))))"

text \<open>What \<open>execute\<close> does with an error of the run; the outcome of the last event is ignored.\<close>

definition settle :: "run_env \<Rightarrow> JobRecord \<Rightarrow> RuntimeError \<Rightarrow> RunState \<Rightarrow> RunState option" where
  "settle E r e st =
     (let d = jr_dispatch r; st1 = next_tick st
      in map_option fst
           (if re_cancelled E (rs_tick st) \<and> rs_state st \<noteq> Uploading
            then emit E d \<lparr>eu_kind = EvCancelled, eu_progress = None, eu_prompt_id = jr_prompt_id r,
                   eu_message = ''job cancelled'', eu_state = Cancelled\<rparr> st1
            else emit E d \<lparr>eu_kind = EvFailed, eu_progress = None, eu_prompt_id = jr_prompt_id r,
                   eu_message = take_chars 1000 (re_error_text E e), eu_state = Failed\<rparr> st1))"

definition run_start :: "JobRecord \<Rightarrow> worker_jobs \<Rightarrow> RunState" where
  "run_start r journal =
     \<lparr>rs_journal = journal, rs_sent = [], rs_tick = 0, rs_sequence = jr_event_sequence r, rs_state = jr_state r,
      rs_phase = SlotQueued, rs_removed_prompts = [], rs_confirmed = []\<rparr>"

text \<open>The whole run, with whether it returned; a panic leaves the job registered.\<close>

definition execute ::
  "run_env \<Rightarrow> json_pointer_ops \<Rightarrow> WorkerExecutionConfig \<Rightarrow> WorkflowCatalog \<Rightarrow> JobRecord \<Rightarrow> worker_jobs \<Rightarrow> (RunState \<times> bool) option" where
  "execute E P c catalog r journal =
     (case execute_inner E P c catalog r (run_start r journal) of
        None \<Rightarrow> None
      | Some (st, Returned _) \<Rightarrow> Some (st, True)
      | Some (st, Panicked) \<Rightarrow> Some (st, False)
      | Some (st, Raised e) \<Rightarrow> map_option (\<lambda>st1. (st1, True)) (settle E r e st))"

end
