(* ===== verification/Runtime_Runner_Props.thy ===== *)
theory Runtime_Runner_Props
  imports Runtime_Runner Journal_Props
begin

text \<open>
  What a run of a job leaves in the journal. The rules for total correctness of computations,
  the invariant that ties the local variables of the run to the journal row, and the theorems on the end of
  a run. The journal enters only through its contract \<open>spec_step\<close>, which the SQLite backend refines.
\<close>

subsection \<open>Total correctness\<close>

text \<open>From every state in \<open>P\<close> the computation returns with \<open>Q\<close> or fails with \<open>R\<close>; it neither runs forever nor panics.\<close>

definition run_spec :: "(RunState \<Rightarrow> bool) \<Rightarrow> 'a run \<Rightarrow> ('a \<Rightarrow> RunState \<Rightarrow> bool) \<Rightarrow> (RunState \<Rightarrow> bool) \<Rightarrow> bool" where
  "run_spec P m Q R \<longleftrightarrow>
     (\<forall>st. P st \<longrightarrow> (\<exists>st' out. m st = Some (st', out) \<and>
        (case out of Returned x \<Rightarrow> Q x st' | Raised e \<Rightarrow> R st' | Panicked \<Rightarrow> False)))"

lemma run_specI:
  "(\<And>st. P st \<Longrightarrow> \<exists>st' out. m st = Some (st', out) \<and>
      (case out of Returned x \<Rightarrow> Q x st' | Raised e \<Rightarrow> R st' | Panicked \<Rightarrow> False)) \<Longrightarrow> run_spec P m Q R"
  by (simp add: run_spec_def)

lemma run_spec_bind:
  assumes "run_spec P m Q' R" "\<And>x. run_spec (Q' x) (f x) Q R"
  shows "run_spec P (run_bind m f) Q R"
proof (rule run_specI)
  fix st assume "P st"
  then obtain st1 out where m: "m st = Some (st1, out)"
    "case out of Returned x \<Rightarrow> Q' x st1 | Raised e \<Rightarrow> R st1 | Panicked \<Rightarrow> False"
    using assms(1) unfolding run_spec_def by blast
  show "\<exists>st' out. run_bind m f st = Some (st', out) \<and>
      (case out of Returned x \<Rightarrow> Q x st' | Raised e \<Rightarrow> R st' | Panicked \<Rightarrow> False)"
  proof (cases out)
    case (Returned x)
    then have "Q' x st1" using m(2) by simp
    then show ?thesis using assms(2)[of x] Returned m(1) unfolding run_spec_def run_bind_def by simp
  qed (use m in \<open>auto simp: run_bind_def\<close>)
qed

lemma run_spec_return: "(\<And>st. P st \<Longrightarrow> Q x st) \<Longrightarrow> run_spec P (run_return x) Q R"
  by (simp add: run_spec_def run_return_def)

lemma run_spec_raise: "(\<And>st. P st \<Longrightarrow> R st) \<Longrightarrow> run_spec P (run_raise e) Q R"
  by (simp add: run_spec_def run_raise_def)

lemma run_spec_result: "(\<And>x st. P st \<Longrightarrow> Q x st) \<Longrightarrow> (\<And>st. P st \<Longrightarrow> R st) \<Longrightarrow> run_spec P (run_result r) Q R"
  by (cases r) (auto simp: run_result_def intro: run_spec_return run_spec_raise)

lemma run_spec_weaken: "run_spec P m Q R \<Longrightarrow> (\<And>st. P' st \<Longrightarrow> P st) \<Longrightarrow> (\<And>x st. Q x st \<Longrightarrow> Q' x st) \<Longrightarrow> run_spec P' m Q' R"
proof (rule run_specI)
  fix st assume s: "run_spec P m Q R" "\<And>st. P' st \<Longrightarrow> P st" "\<And>x st. Q x st \<Longrightarrow> Q' x st" "P' st"
  then obtain st' out where "m st = Some (st', out)" "case out of Returned x \<Rightarrow> Q x st' | Raised e \<Rightarrow> R st' | Panicked \<Rightarrow> False"
    unfolding run_spec_def by blast
  then show "\<exists>st' out. m st = Some (st', out) \<and> (case out of Returned x \<Rightarrow> Q' x st' | Raised e \<Rightarrow> R st' | Panicked \<Rightarrow> False)"
    using s(3) by (cases out) auto
qed

subsection \<open>The journal under a run\<close>

definition finite_progress :: "f32 option \<Rightarrow> bool" where
  "finite_progress p \<longleftrightarrow> (case p of None \<Rightarrow> True | Some f \<Rightarrow> f32_is_finite f)"

text \<open>
  What is assumed of the world: the JSON codec is exact on events with a finite progress, the Hub
  acknowledges again and again, and a cancellation is not taken back.
\<close>

definition fair_world :: "run_env \<Rightarrow> bool" where
  "fair_world E \<longleftrightarrow>
     (\<forall>e. finite_progress (ev_progress e) \<longrightarrow> event_exact (re_serde E) e) \<and>
     (\<forall>t. \<exists>t'\<ge>t. re_acked E t') \<and>
     (\<forall>t t'. t \<le> t' \<longrightarrow> re_cancelled E t \<longrightarrow> re_cancelled E t')"

definition journal_at :: "run_env \<Rightarrow> string \<Rightarrow> RunState \<Rightarrow> JobRecord \<Rightarrow> bool" where
  "journal_at E k st r \<longleftrightarrow> sqlite_wf (re_serde E) (rs_journal st) \<and> sqlite_view (re_serde E) (rs_journal st) k = Some r"

lemma set_pending_at:
  assumes "fair_world E" "journal_at E (ev_job_id e) st r" "finite_progress (ev_progress e)" "uint (ev_sequence e) \<le> i64_max"
  obtains journal where
    "sqlite_set_pending_event (re_serde E) now e s (rs_journal st) =
       (journal, snd (spec_step (SetPendingEvent e s) (Some r)))"
    "sqlite_wf (re_serde E) journal" "sqlite_view (re_serde E) journal (ev_job_id e) = fst (spec_step (SetPendingEvent e s) (Some r))"
proof -
  have "sqlite_refines (re_serde E) (SetPendingEvent e s) (rs_journal st) (sqlite_set_pending_event (re_serde E) now e s (rs_journal st))"
    using assms by (intro sqlite_set_pending_event_refines) (auto simp: fair_world_def journal_at_def)
  then show ?thesis using assms(2) that[of "fst (sqlite_set_pending_event (re_serde E) now e s (rs_journal st))"]
    by (cases "sqlite_set_pending_event (re_serde E) now e s (rs_journal st)") (auto simp: sqlite_refines_def journal_at_def)
qed

lemma clear_pending_at:
  assumes "journal_at E k st r" "uint n \<le> i64_max" "jr_event_sequence r = n"
  obtains journal where "sqlite_clear_pending_event now k n (rs_journal st) = (journal, Ok RUnit)"
    "sqlite_wf (re_serde E) journal" "sqlite_view (re_serde E) journal k = Some (r\<lparr>jr_pending_event := None\<rparr>)"
proof -
  have "sqlite_refines (re_serde E) (ClearPendingEvent k n) (rs_journal st) (sqlite_clear_pending_event now k n (rs_journal st))"
    using assms(1,2) by (intro sqlite_clear_pending_event_refines) (auto simp: journal_at_def)
  then show ?thesis using assms that[of "fst (sqlite_clear_pending_event now k n (rs_journal st))"]
    by (cases "sqlite_clear_pending_event now k n (rs_journal st)") (auto simp: sqlite_refines_def journal_at_def)
qed

lemma cancelled_Suc: "fair_world E \<Longrightarrow> re_cancelled E t \<Longrightarrow> re_cancelled E (Suc t)"
  unfolding fair_world_def by (meson le_SucI order_refl)

text \<open>Delivery ends: with the acknowledgement and an empty outbox, or because the job was cancelled.\<close>

definition delivered :: "run_env \<Rightarrow> JobEvent \<Rightarrow> JobRecord \<Rightarrow> RunState \<Rightarrow> (RunState \<times> unit outcome) option \<Rightarrow> bool" where
  "delivered E e r st res \<longleftrightarrow>
     (\<exists>st' out. res = Some (st', out) \<and> rs_sequence st' = rs_sequence st \<and> rs_state st' = rs_state st \<and>
       (out = Returned () \<and> journal_at E (ev_job_id e) st' (r\<lparr>jr_pending_event := None\<rparr>) \<or>
        out = Raised RtCancelled \<and> ev_kind e \<noteq> EvCancelled \<and> re_cancelled E (rs_tick st') \<and> rs_journal st' = rs_journal st))"

lemma deliver_stops:
  assumes "fair_world E" "journal_at E (ev_job_id e) st r" "jr_event_sequence r = ev_sequence e" "uint (ev_sequence e) \<le> i64_max"
    "(ev_kind e \<noteq> EvCancelled \<and> re_cancelled E (rs_tick st)) \<or> re_acked E (rs_tick st)"
  shows "delivered E e r st (deliver E e st)"
proof -
  obtain journal where c: "sqlite_clear_pending_event (re_journal_now E (rs_tick st)) (ev_job_id e) (ev_sequence e) (rs_journal st) = (journal, Ok RUnit)"
    "sqlite_wf (re_serde E) journal" "sqlite_view (re_serde E) journal (ev_job_id e) = Some (r\<lparr>jr_pending_event := None\<rparr>)"
    using clear_pending_at[OF assms(2,4,3)] by metis
  show ?thesis
  proof (cases "ev_kind e \<noteq> EvCancelled \<and> re_cancelled E (rs_tick st)")
    case True
    then show ?thesis using cancelled_Suc[OF assms(1)] by (subst deliver.simps) (auto simp: next_tick_def delivered_def)
  next
    case False
    then show ?thesis using c assms(5) by (subst deliver.simps) (auto simp: next_tick_def Let_def journal_at_def delivered_def)
  qed
qed

lemma deliver_ends:
  assumes "fair_world E" "journal_at E (ev_job_id e) st r" "jr_event_sequence r = ev_sequence e" "uint (ev_sequence e) \<le> i64_max"
  shows "delivered E e r st (deliver E e st)"
proof -
  obtain t where "t \<ge> rs_tick st" "re_acked E t" using assms(1) unfolding fair_world_def by blast
  then show ?thesis using assms(2)
  proof (induction "t - rs_tick st" arbitrary: st)
    case 0
    then show ?case using deliver_stops[OF assms(1) 0(4) assms(3,4)] by simp
  next
    case (Suc n)
    show ?case
    proof (cases "(ev_kind e \<noteq> EvCancelled \<and> re_cancelled E (rs_tick st)) \<or> re_acked E (rs_tick st)")
      case False
      let ?st = "next_tick (st\<lparr>rs_sent := rs_sent st @ [e]\<rparr>)"
      have "deliver E e st = deliver E e ?st" using False by (subst deliver.simps) (auto simp: Let_def)
      moreover have "n = t - rs_tick ?st" "rs_tick ?st \<le> t" using Suc.hyps(2) by (auto simp: next_tick_def)
      moreover have "journal_at E (ev_job_id e) ?st r" using Suc.prems(3) by (simp add: journal_at_def next_tick_def)
      ultimately show ?thesis using Suc.hyps(1)[of ?st] Suc.prems(2) by (auto simp: next_tick_def delivered_def)
    qed (use deliver_stops[OF assms(1) Suc.prems(3) assms(3,4)] in blast)
  qed
qed

subsection \<open>The invariant of a run\<close>

definition running_states :: "JobState set" where
  "running_states = {Received, Accepted, Running, Uploading}"

text \<open>
  Between two events: the row holds the state \<open>js\<close> and the sequence of the run with an empty outbox, the local
  copy of the state is \<open>ls\<close>, and there is room for \<open>n\<close> more sequence numbers.
\<close>

definition in_row :: "run_env \<Rightarrow> string \<Rightarrow> nat \<Rightarrow> JobState \<Rightarrow> JobState \<Rightarrow> RunState \<Rightarrow> bool" where
  "in_row E k n js ls st \<longleftrightarrow>
     (\<exists>r. journal_at E k st r \<and> jr_state r = js \<and> jr_event_sequence r = rs_sequence st \<and> jr_pending_event r = None) \<and>
     rs_state st = ls \<and> uint (rs_sequence st) + int n \<le> i64_max"

text \<open>
  After an error: the row is in step with the run and its outbox is empty, or an event
  waits in the outbox and the job is cancelled.
\<close>

definition stopped :: "run_env \<Rightarrow> string \<Rightarrow> RunState \<Rightarrow> bool" where
  "stopped E k st \<longleftrightarrow>
     (\<exists>r. journal_at E k st r \<and> jr_event_sequence r \<le> rs_sequence st \<and> uint (rs_sequence st) + 1 \<le> i64_max \<and>
        (if jr_pending_event r = None then jr_state r = rs_state st \<and> jr_state r \<in> running_states
         else jr_state r \<in> insert Completed running_states \<and> re_cancelled E (rs_tick st)))"

lemma in_rowI:
  "journal_at E k st r \<Longrightarrow> jr_pending_event r = None \<Longrightarrow> jr_event_sequence r = rs_sequence st \<Longrightarrow> jr_state r = js \<Longrightarrow>
   rs_state st = ls \<Longrightarrow> uint (rs_sequence st) + int n \<le> i64_max \<Longrightarrow> in_row E k n js ls st"
  by (auto simp: in_row_def)

lemma stopped_pendingI:
  "journal_at E k st r \<Longrightarrow> jr_pending_event r = Some e \<Longrightarrow> jr_event_sequence r \<le> rs_sequence st \<Longrightarrow>
   uint (rs_sequence st) + 1 \<le> i64_max \<Longrightarrow> jr_state r \<in> insert Completed running_states \<Longrightarrow> re_cancelled E (rs_tick st) \<Longrightarrow>
   stopped E k st"
  by (auto simp: stopped_def)

lemma in_row_stopped: "in_row E k (Suc n) s s st \<Longrightarrow> s \<in> running_states \<Longrightarrow> stopped E k st"
  by (auto simp: in_row_def stopped_def)

lemma in_row_less: "in_row E k n js ls st \<Longrightarrow> m \<le> n \<Longrightarrow> in_row E k m js ls st"
  by (auto simp: in_row_def)

lemma next_sequence:
  assumes "uint (s :: u64) + 1 \<le> i64_max"
  shows "s < saturating_add s 1" "uint (saturating_add s 1) = uint s + 1"
proof -
  have i: "int (unat w) = uint w" for w :: u64 by simp
  have "uint s \<le> 9223372036854775806" using assms by (simp add: i64_max_def)
  then have "nat (uint s) \<le> 9223372036854775806" by linarith
  then have "unat s + 1 \<le> 2 ^ 64 - 1" unfolding unat_eq_nat_uint by (rule order.trans[OF add_right_mono]) simp
  then have u: "unat (saturating_add s 1) = unat s + 1" by (simp add: unat_saturating_add)
  show "uint (saturating_add s 1) = uint s + 1" using arg_cong[OF u, of int] unfolding i by simp
  show "s < saturating_add s 1" using u by (simp add: word_less_nat_alt)
qed

text \<open>
  An event whose sequence number is fresh: the row takes the new state and the event is delivered, or it stays
  in the outbox of a cancelled job; a transition that is not allowed leaves the row as it is.
\<close>

definition emitted :: "run_env \<Rightarrow> EventUpdate \<Rightarrow> JobRecord \<Rightarrow> RunState \<Rightarrow> RunState \<Rightarrow> unit outcome \<Rightarrow> bool" where
  "emitted E u r st st' out \<longleftrightarrow>
     rs_state st' = rs_state st \<and> rs_sequence st' = saturating_add (rs_sequence st) 1 \<and>
     (let r' = r\<lparr>jr_state := eu_state u, jr_event_sequence := rs_sequence st', jr_pending_event := None\<rparr>;
          k = dj_job_id (jr_dispatch r)
      in if can_transition_to (jr_state r) (eu_state u)
         then out = Returned () \<and> journal_at E k st' r' \<or>
           out = Raised RtCancelled \<and> eu_kind u \<noteq> EvCancelled \<and> re_cancelled E (rs_tick st') \<and>
           (\<exists>e. journal_at E k st' (r'\<lparr>jr_pending_event := Some e\<rparr>))
         else (\<exists>x. out = Raised x) \<and> journal_at E k st' r \<and> rs_tick st' = rs_tick st)"

lemma journal_at_key: "journal_at E k st r \<Longrightarrow> dj_job_id (jr_dispatch r) = k"
  by (auto simp: journal_at_def sqlite_wf_def sqlite_row_ok_def sqlite_view_def split: option.splits sum.splits)

lemma emit_emitted:
  assumes "fair_world E" "dj_job_id d = k" "journal_at E k st r" "jr_event_sequence r \<le> rs_sequence st"
    "uint (rs_sequence st) + 1 \<le> i64_max" "finite_progress (eu_progress u)"
  shows "\<exists>st' out. emit E d u st = Some (st', out) \<and> emitted E u r st st' out"
proof -
  let ?st = "st\<lparr>rs_sequence := saturating_add (rs_sequence st) 1\<rparr>"
  define e where "e = event_of E d u ?st"
  have e: "ev_job_id e = k" "ev_sequence e = saturating_add (rs_sequence st) 1" "ev_kind e = eu_kind u" "finite_progress (ev_progress e)"
    using assms(2,6) by (simp_all add: e_def event_of_def)
  have k: "dj_job_id (jr_dispatch r) = k" using journal_at_key[OF assms(3)] .
  have q: "rs_sequence st < ev_sequence e" "uint (ev_sequence e) = uint (rs_sequence st) + 1"
    using next_sequence[OF assms(5)] e(2) by simp_all
  have big: "uint (ev_sequence e) \<le> i64_max" using q(2) assms(5) by simp
  have v: "validate_event_sequence (jr_event_sequence r) (jr_pending_event r) e = Ok ()"
    using order.strict_trans1[OF assms(4) q(1)] by (simp add: validate_event_sequence_Ok)
  have j: "journal_at E (ev_job_id e) ?st r" using assms(3) e(1) by (simp add: journal_at_def)
  obtain journal where p: "sqlite_set_pending_event (re_serde E) (re_journal_now E (rs_tick ?st)) e (Some (eu_state u)) (rs_journal ?st) =
       (journal, snd (spec_step (SetPendingEvent e (Some (eu_state u))) (Some r)))"
    "sqlite_wf (re_serde E) journal" "sqlite_view (re_serde E) journal (ev_job_id e) = fst (spec_step (SetPendingEvent e (Some (eu_state u))) (Some r))"
    using set_pending_at[OF assms(1) j e(4) big] by metis
  have emit: "emit E d u st = send_job_event E e (Some (eu_state u)) ?st" by (simp add: emit_def e_def Let_def)
  show ?thesis
  proof (cases "can_transition_to (jr_state r) (eu_state u)")
    case False
    then show ?thesis using p v e(1) k by (simp add: emit send_job_event_def journal_at_def emitted_def Let_def)
  next
    case True
    let ?r = "r\<lparr>jr_state := eu_state u, jr_event_sequence := ev_sequence e, jr_pending_event := Some e\<rparr>"
    have send: "emit E d u st = deliver E e (?st\<lparr>rs_journal := journal\<rparr>)" using True p(1) v by (simp add: emit send_job_event_def)
    have j': "journal_at E (ev_job_id e) (?st\<lparr>rs_journal := journal\<rparr>) ?r" using True p(2,3) v by (simp add: journal_at_def)
    have "delivered E e ?r (?st\<lparr>rs_journal := journal\<rparr>) (deliver E e (?st\<lparr>rs_journal := journal\<rparr>))"
      using deliver_ends[OF assms(1) j' _ big] by simp
    then show ?thesis using True e k j' unfolding send delivered_def emitted_def Let_def journal_at_def
      by (elim exE conjE disjE) auto
  qed
qed

lemma emit_spec:
  assumes "fair_world E" "s \<in> running_states" "eu_state u \<in> insert Completed running_states"
    "finite_progress (eu_progress u)" "dj_job_id d = k"
  shows "run_spec (in_row E k (n + 2) s s) (emit E d u)
    (\<lambda>_ st. can_transition_to s (eu_state u) \<and> in_row E k (n + 1) (eu_state u) s st) (stopped E k)"
proof (rule run_specI)
  fix st assume st: "in_row E k (n + 2) s s st"
  then obtain r where r: "journal_at E k st r" "jr_state r = s" "jr_event_sequence r = rs_sequence st" "jr_pending_event r = None"
    "rs_state st = s" "uint (rs_sequence st) + int (n + 2) \<le> i64_max" by (auto simp: in_row_def)
  have q: "rs_sequence st \<le> saturating_add (rs_sequence st) 1" "uint (saturating_add (rs_sequence st) 1) = uint (rs_sequence st) + 1"
    using next_sequence[of "rs_sequence st"] r(6) by simp_all
  have "jr_event_sequence r \<le> rs_sequence st" "uint (rs_sequence st) + 1 \<le> i64_max" using r(3,6) by simp_all
  from emit_emitted[OF assms(1,5) r(1) this assms(4)] obtain st' out
    where o: "emit E d u st = Some (st', out)" "emitted E u r st st' out" by blast
  note k = journal_at_key[OF r(1)]
  have "case out of Returned x \<Rightarrow> can_transition_to s (eu_state u) \<and> in_row E k (n + 1) (eu_state u) s st'
     | Raised e \<Rightarrow> stopped E k st' | Panicked \<Rightarrow> False"
  proof (cases "can_transition_to s (eu_state u)")
    case True
    then show ?thesis using o(2) r(2,5,6) q(2) k assms(3) unfolding emitted_def Let_def
      by (elim conjE disjE exE) (auto intro!: in_rowI stopped_pendingI)
  next
    case False
    then show ?thesis using o(2) r q k assms(2) unfolding emitted_def Let_def by (auto simp: stopped_def intro!: exI[of _ r])
  qed
  then show "\<exists>st' out. emit E d u st = Some (st', out) \<and>
      (case out of Returned x \<Rightarrow> can_transition_to s (eu_state u) \<and> in_row E k (n + 1) (eu_state u) s st'
       | Raised e \<Rightarrow> stopped E k st' | Panicked \<Rightarrow> False)" using o(1) by blast
qed

text \<open>Computations that leave the journal and the variables of the run alone.\<close>

definition quiet :: "'a run \<Rightarrow> bool" where
  "quiet m \<longleftrightarrow>
     (\<forall>st. \<exists>st' out. m st = Some (st', out) \<and> out \<noteq> Panicked \<and> rs_journal st' = rs_journal st \<and>
        rs_sequence st' = rs_sequence st \<and> rs_state st' = rs_state st)"

lemma quiet_bind:
  assumes "quiet m" "\<And>x. quiet (f x)"
  shows "quiet (run_bind m f)"
  unfolding quiet_def
proof
  fix st :: RunState
  obtain st1 out where m: "m st = Some (st1, out)" "out \<noteq> Panicked" "rs_journal st1 = rs_journal st"
    "rs_sequence st1 = rs_sequence st" "rs_state st1 = rs_state st"
    using assms(1) unfolding quiet_def by blast
  show "\<exists>st' out. run_bind m f st = Some (st', out) \<and> out \<noteq> Panicked \<and> rs_journal st' = rs_journal st \<and>
      rs_sequence st' = rs_sequence st \<and> rs_state st' = rs_state st"
  proof (cases out)
    case (Returned x)
    obtain st2 out2 where "f x st1 = Some (st2, out2)" "out2 \<noteq> Panicked" "rs_journal st2 = rs_journal st1"
      "rs_sequence st2 = rs_sequence st1" "rs_state st2 = rs_state st1"
      using assms(2)[of x] unfolding quiet_def by blast
    then show ?thesis using m Returned by (simp add: run_bind_def)
  qed (use m in \<open>auto simp: run_bind_def\<close>)
qed

lemma quiet_basic [simp]:
  "quiet (run_return x)" "quiet (run_raise e)" "quiet (run_result r)" "quiet (io_step io)" "quiet (observe_cancelled E)"
  "quiet (cancel_prompt p)" "quiet (acquire_permit E)" "quiet read_state"
  by (auto simp: quiet_def run_return_def run_raise_def run_result_def io_step_def observe_cancelled_def next_tick_def
      cancel_prompt_def run_update_def acquire_permit_def read_state_def split: sum.split option.split permit.split)

lemma quiet_check [simp]: "quiet (check_cancelled E)"
  by (auto simp: check_cancelled_def intro!: quiet_bind)

lemma quiet_confirm:
  assumes "fair_world E"
  shows "quiet (confirm_artifact E u)"
  unfolding quiet_def
proof
  fix st :: RunState
  obtain t where "t \<ge> rs_tick st" "re_acked E t" using assms unfolding fair_world_def by blast
  then show "\<exists>st' out. confirm_artifact E u st = Some (st', out) \<and> out \<noteq> Panicked \<and> rs_journal st' = rs_journal st \<and>
      rs_sequence st' = rs_sequence st \<and> rs_state st' = rs_state st"
  proof (induction "t - rs_tick st" arbitrary: st)
    case 0
    then show ?case by (subst confirm_artifact.simps) (auto simp: Let_def next_tick_def)
  next
    case (Suc n)
    show ?case
    proof (cases "re_acked E (rs_tick st)")
      case True
      then show ?thesis by (subst confirm_artifact.simps) (auto simp: Let_def next_tick_def)
    next
      case False
      let ?st = "next_tick (st\<lparr>rs_confirmed := rs_confirmed st @ [u]\<rparr>)"
      have "n = t - rs_tick ?st" "rs_tick ?st \<le> t" using Suc.hyps(2) by (auto simp: next_tick_def)
      from Suc.hyps(1)[OF this Suc.prems(2)] False show ?thesis
        by (subst confirm_artifact.simps) (simp add: Let_def next_tick_def)
    qed
  qed
qed

lemma quiet_prepare: "quiet (prepare_loop E d i ins names)"
proof (induction E d i ins names rule: prepare_loop.induct)
  case (2 E d i input rest names)
  then show ?case by (auto intro!: quiet_bind split: prod.split sum.split)
qed simp

lemma quiet_prepare_inputs [simp]: "quiet (prepare_inputs E d)"
  by (auto simp: prepare_inputs_def intro!: quiet_bind quiet_prepare)

lemma quiet_upload_outputs: "fair_world E \<Longrightarrow> quiet (upload_outputs E c d i os)"
proof (induction E c d i os rule: upload_outputs.induct)
  case (2 E c d i out rest)
  then show ?case
    by (auto simp: upload_output_def Let_def intro!: quiet_bind quiet_confirm split: sum.split prod.split)
qed simp

text \<open>A quiet computation keeps the invariant, and when it fails the run stops in step.\<close>

lemma quiet_spec:
  assumes "quiet m" "s \<in> running_states"
  shows "run_spec (in_row E k (Suc n) s s) m (\<lambda>_. in_row E k (Suc n) s s) (stopped E k)"
proof (rule run_specI)
  fix st assume st: "in_row E k (Suc n) s s st"
  obtain st' out where m: "m st = Some (st', out)" "out \<noteq> Panicked" "rs_journal st' = rs_journal st"
    "rs_sequence st' = rs_sequence st" "rs_state st' = rs_state st"
    using assms(1) unfolding quiet_def by blast
  have "in_row E k (Suc n) s s st'" using st m by (simp add: in_row_def journal_at_def)
  then show "\<exists>st' out. m st = Some (st', out) \<and>
      (case out of Returned x \<Rightarrow> in_row E k (Suc n) s s st' | Raised e \<Rightarrow> stopped E k st' | Panicked \<Rightarrow> False)"
    using m(1,2) in_row_stopped[OF _ assms(2)] by (cases out) auto
qed

lemma set_state_spec: "run_spec (in_row E k n js ls) (set_state s) (\<lambda>_. in_row E k n js s) R"
  by (auto simp: run_spec_def set_state_def run_update_def in_row_def journal_at_def)

lemma set_prompt_spec:
  assumes "s \<in> running_states"
  shows "run_spec (in_row E k (Suc n) s s) (set_prompt_id E k p) (\<lambda>_. in_row E k (Suc n) s s) (stopped E k)"
proof (rule run_specI)
  fix st assume st: "in_row E k (Suc n) s s st"
  then obtain r where r: "journal_at E k st r" "jr_state r = s" "jr_event_sequence r = rs_sequence st" "jr_pending_event r = None"
    by (auto simp: in_row_def)
  obtain journal rep where j: "sqlite_set_prompt_id (re_journal_now E (rs_tick st)) k p (rs_journal st) = (journal, rep)"
    by fastforce
  have "sqlite_refines (re_serde E) (SetPromptId k p) (rs_journal st) (journal, rep)"
    using sqlite_set_prompt_id_refines[of "re_serde E" "rs_journal st" k p "re_journal_now E (rs_tick st)"] r(1) j
    by (simp add: journal_at_def)
  then have "rep = Ok RUnit" "journal_at E k (st\<lparr>rs_journal := journal\<rparr>) (r\<lparr>jr_prompt_id := Some p\<rparr>)"
    using r(1) by (auto simp: sqlite_refines_def journal_at_def)
  then show "\<exists>st' out. set_prompt_id E k p st = Some (st', out) \<and>
      (case out of Returned x \<Rightarrow> in_row E k (Suc n) s s st' | Raised e \<Rightarrow> stopped E k st' | Panicked \<Rightarrow> False)"
    using st r j by (auto simp: set_prompt_id_def in_row_def intro!: exI[of _ "r\<lparr>jr_prompt_id := Some p\<rparr>"])
qed

subsection \<open>The parts of a run\<close>

text \<open>
  A record a run can start from: not yet terminal, with room for \<open>n\<close> events, and whose event in the
  outbox is the last one it emitted.
\<close>

definition resumable :: "nat \<Rightarrow> JobRecord \<Rightarrow> bool" where
  "resumable n r \<longleftrightarrow>
     jr_state r \<in> running_states \<and> uint (jr_event_sequence r) + int n \<le> i64_max \<and>
     (\<forall>ev. jr_pending_event r = Some ev \<longrightarrow>
        ev_job_id ev = dj_job_id (jr_dispatch r) \<and> ev_sequence ev = jr_event_sequence r \<and> finite_progress (ev_progress ev))"

definition started :: "run_env \<Rightarrow> JobRecord \<Rightarrow> RunState \<Rightarrow> bool" where
  "started E r st \<longleftrightarrow>
     journal_at E (dj_job_id (jr_dispatch r)) st r \<and> rs_sequence st = jr_event_sequence r \<and> rs_state st = jr_state r"

lemma replay_spec:
  assumes "fair_world E" "resumable (Suc n) r"
  shows "run_spec (started E r) (case jr_pending_event r of Some ev \<Rightarrow> send_job_event E ev None | None \<Rightarrow> run_return ())
    (\<lambda>_. in_row E (dj_job_id (jr_dispatch r)) (Suc n) (jr_state r) (jr_state r)) (stopped E (dj_job_id (jr_dispatch r)))"
proof (cases "jr_pending_event r")
  case None
  then show ?thesis using assms(2) by (auto simp: in_row_def resumable_def started_def intro!: run_spec_return)
next
  case (Some e)
  show ?thesis
  proof (rule run_specI)
    fix st assume st: "started E r st"
    have e: "ev_job_id e = dj_job_id (jr_dispatch r)" "ev_sequence e = jr_event_sequence r" "finite_progress (ev_progress e)"
      "jr_state r \<in> running_states" "uint (jr_event_sequence r) + int (Suc n) \<le> i64_max"
      using assms(2) Some by (auto simp: resumable_def)
    have j: "journal_at E (ev_job_id e) st r" using st e(1) by (simp add: started_def)
    have big: "uint (ev_sequence e) \<le> i64_max" using e(2,5) by simp
    have v: "validate_event_sequence (jr_event_sequence r) (jr_pending_event r) e = Ok ()"
      using e(2,3) Some by (auto simp: validate_event_sequence_Ok finite_progress_def f32_is_finite_def)
    have "fst (spec_step (SetPendingEvent e None) (Some r)) = Some r" "snd (spec_step (SetPendingEvent e None) (Some r)) = Ok RUnit"
      using v e(2) Some by auto
    then obtain journal where p: "sqlite_set_pending_event (re_serde E) (re_journal_now E (rs_tick st)) e None (rs_journal st) = (journal, Ok RUnit)"
      "sqlite_wf (re_serde E) journal" "sqlite_view (re_serde E) journal (ev_job_id e) = Some r"
      using set_pending_at[OF assms(1) j e(3) big] by metis
    let ?st = "st\<lparr>rs_journal := journal\<rparr>"
    have j': "journal_at E (ev_job_id e) ?st r" using p by (simp add: journal_at_def)
    then obtain st' out where d: "deliver E e ?st = Some (st', out)"
      "rs_sequence st' = jr_event_sequence r" "rs_state st' = jr_state r"
      "out = Returned () \<and> journal_at E (ev_job_id e) st' (r\<lparr>jr_pending_event := None\<rparr>) \<or>
       out = Raised RtCancelled \<and> re_cancelled E (rs_tick st') \<and> rs_journal st' = journal"
      using deliver_ends[OF assms(1) j' _ big] e(2) st by (auto simp: delivered_def started_def)
    have "in_row E (dj_job_id (jr_dispatch r)) (Suc n) (jr_state r) (jr_state r) st'" if "out = Returned ()"
      using that d e by (auto simp: in_row_def intro!: exI[of _ "r\<lparr>jr_pending_event := None\<rparr>"])
    moreover have "stopped E (dj_job_id (jr_dispatch r)) st'" if "out = Raised RtCancelled"
      using that d e j' Some by (auto simp: stopped_def journal_at_def intro!: exI[of _ r])
    ultimately show "\<exists>st' out. (case jr_pending_event r of Some ev \<Rightarrow> send_job_event E ev None | None \<Rightarrow> run_return ()) st = Some (st', out) \<and>
      (case out of Returned x \<Rightarrow> in_row E (dj_job_id (jr_dispatch r)) (Suc n) (jr_state r) (jr_state r) st'
       | Raised e \<Rightarrow> stopped E (dj_job_id (jr_dispatch r)) st' | Panicked \<Rightarrow> False)"
      using d(1,4) p(1) Some by (auto simp: send_job_event_def)
  qed
qed

lemma wait_loop_spec:
  assumes "fair_world E" "s \<in> {Running, Uploading}" "dj_job_id d = k"
  shows "run_spec (in_row E k (length ss + n + 1) s s) (wait_loop E d p ss l t ev) (\<lambda>_. in_row E k (n + 1) s s) (stopped E k)"
proof (induction ss arbitrary: l t ev)
  case Nil
  have "quiet (wait_loop E d p [] l t ev)" by (auto intro!: quiet_bind split: sum.split)
  then show ?case using quiet_spec[of _ s E k n] assms(2) by (auto simp: running_states_def)
next
  case (Cons c ss)
  have skip: "run_spec (in_row E k (length (c # ss) + n + 1) s s) (wait_loop E d p ss l t ev) (\<lambda>_. in_row E k (n + 1) s s) (stopped E k)"
    for l t ev
    by (rule run_spec_weaken[OF Cons.IH]) (auto intro: in_row_less)
  have emit: "run_spec (in_row E k (length (c # ss) + n + 1) s s)
      (run_bind (emit E d \<lparr>eu_kind = EvProgress, eu_progress = None, eu_prompt_id = Some p, eu_message = msg, eu_state = Running\<rparr>)
        (\<lambda>_. wait_loop E d p ss l t ev)) (\<lambda>_. in_row E k (n + 1) s s) (stopped E k)" for msg l t ev
  proof (rule run_spec_bind)
    show "run_spec (in_row E k (length (c # ss) + n + 1) s s)
      (emit E d \<lparr>eu_kind = EvProgress, eu_progress = None, eu_prompt_id = Some p, eu_message = msg, eu_state = Running\<rparr>)
      (\<lambda>_. in_row E k (length ss + n + 1) s s) (stopped E k)"
      by (rule run_spec_weaken[OF emit_spec[OF assms(1) _ _ _ assms(3), of s _ "length ss + n"]])
        (use assms(2) in \<open>auto simp: running_states_def finite_progress_def can_transition_to_def\<close>)
  qed (rule Cons.IH)
  show ?case using skip emit by (cases c) (simp_all add: Let_def)
qed

lemma obtain_prompt_spec:
  assumes "s \<in> running_states" "\<forall>names. render P catalog (jr_dispatch r) names \<noteq> None" "dj_job_id (jr_dispatch r) = k"
  shows "run_spec (in_row E k (Suc n) s s) (obtain_prompt E P catalog r) (\<lambda>_. in_row E k (Suc n) s s) (stopped E k)"
proof -
  have render: "quiet (run_render P catalog (jr_dispatch r) names)" for names
    using assms(2) by (auto simp: quiet_def run_render_def split: option.split sum.split)
  note quiet = quiet_spec[OF _ assms(1), of _ E k n]
  have send: "run_spec (in_row E k (Suc n) s s)
      (case re_prompt E w of
         Err e \<Rightarrow> run_raise (RtComfy e)
       | Ok p \<Rightarrow> run_bind (set_prompt_id E (dj_job_id (jr_dispatch r)) p) (\<lambda>_. run_return p))
      (\<lambda>_. in_row E k (Suc n) s s) (stopped E k)" for w
    by (cases "re_prompt E w") (auto simp: assms(3) intro!: quiet run_spec_bind[OF set_prompt_spec[OF assms(1)]])
  show ?thesis
  proof (cases "jr_prompt_id r")
    case None
    then show ?thesis unfolding obtain_prompt_def
      by simp (intro run_spec_bind[OF quiet[OF quiet_prepare_inputs]] run_spec_bind[OF quiet[OF render]]
          run_spec_bind[OF quiet[OF quiet_check]] send)
  qed (simp add: obtain_prompt_def quiet)
qed

lemma emit_state_spec:
  assumes "fair_world E" "s \<in> running_states" "t \<in> running_states" "finite_progress p" "dj_job_id d = k"
  shows "run_spec (in_row E k (n + 2) s s) (run_bind (emit_state E d kind p q t) (\<lambda>_. set_state t)) (\<lambda>_. in_row E k (n + 1) t t) (stopped E k)"
proof (rule run_spec_bind)
  show "run_spec (in_row E k (n + 2) s s) (emit_state E d kind p q t) (\<lambda>_. in_row E k (n + 1) t s) (stopped E k)"
    unfolding emit_state_def by (rule run_spec_weaken[OF emit_spec[OF assms(1,2)]]) (use assms in auto)
qed (rule set_state_spec)

lemma accept_spec:
  assumes "fair_world E" "s \<in> running_states" "dj_job_id d = k"
  shows "run_spec (in_row E k (n + 2) s s)
    (if s = Received then run_bind (emit_state E d EvAccepted None None Accepted) (\<lambda>_. set_state Accepted) else run_return ())
    (\<lambda>_. in_row E k (n + 1) (if s = Received then Accepted else s) (if s = Received then Accepted else s)) (stopped E k)"
  using emit_state_spec[OF assms(1,2) _ _ assms(3), of Accepted None n EvAccepted None]
  by (auto simp: running_states_def finite_progress_def intro!: run_spec_return intro: in_row_less)

lemma running_spec:
  assumes "fair_world E" "s \<in> {Accepted, Running, Uploading}" "dj_job_id d = k"
  shows "run_spec (in_row E k (n + 2) s s)
    (run_bind read_state (\<lambda>s. if s \<noteq> Running \<and> s \<noteq> Uploading
       then run_bind (emit_state E d EvRunning None (Some p) Running) (\<lambda>_. set_state Running) else run_return ()))
    (\<lambda>_. in_row E k (n + 1) (if s = Uploading then s else Running) (if s = Uploading then s else Running)) (stopped E k)"
proof (rule run_spec_bind)
  show "run_spec (in_row E k (n + 2) s s) read_state (\<lambda>x st. x = s \<and> in_row E k (n + 2) s s st) (stopped E k)"
    by (auto simp: run_spec_def read_state_def in_row_def)
  fix x
  have "run_spec (in_row E k (n + 2) s s) (run_bind (emit_state E d EvRunning None (Some p) Running) (\<lambda>_. set_state Running))
    (\<lambda>_. in_row E k (n + 1) Running Running) (stopped E k)"
    using emit_state_spec[OF assms(1) _ _ _ assms(3), of s Running None n EvRunning "Some p"] assms(2)
    by (auto simp: running_states_def finite_progress_def)
  then show "run_spec (\<lambda>st. x = s \<and> in_row E k (n + 2) s s st)
    (if x \<noteq> Running \<and> x \<noteq> Uploading then run_bind (emit_state E d EvRunning None (Some p) Running) (\<lambda>_. set_state Running) else run_return ())
    (\<lambda>_. in_row E k (n + 1) (if s = Uploading then s else Running) (if s = Uploading then s else Running)) (stopped E k)"
    using assms(2) by (auto simp: run_spec_def run_return_def dest: in_row_less[of E k "Suc (Suc n)" _ _ _ "Suc n"])
qed

lemma finish_spec:
  assumes "fair_world E" "s \<in> {Running, Uploading}" "dj_job_id d = k"
  shows "run_spec (in_row E k (length (re_statuses E) + 3) s s)
    (run_bind (wait_loop E d p (re_statuses E) StatusUnknown (re_started E) None) (\<lambda>outputs.
     run_bind (emit_state E d EvUploading (Some upload_progress) (Some p) Uploading) (\<lambda>_.
     run_bind (set_state Uploading) (\<lambda>_.
     run_bind (io_step (re_output_dir E)) (\<lambda>_.
     run_bind (upload_outputs E c d 0 outputs) (\<lambda>_.
     emit_state E d EvCompleted (Some (F_Fin 1)) (Some p) Completed))))))
    (\<lambda>_. in_row E k 1 Completed Uploading) (stopped E k)"
proof -
  have s: "s \<in> running_states" "Uploading \<in> running_states" using assms(2) by (auto simp: running_states_def)
  have wait: "run_spec (in_row E k (length (re_statuses E) + 3) s s) (wait_loop E d p (re_statuses E) StatusUnknown (re_started E) None)
    (\<lambda>_. in_row E k 3 s s) (stopped E k)"
    using wait_loop_spec[OF assms, of "re_statuses E" 2] by (simp add: numeral_3_eq_3)
  have upload: "run_spec (in_row E k 3 s s) (emit_state E d EvUploading (Some upload_progress) (Some p) Uploading)
    (\<lambda>_. in_row E k 2 Uploading s) (stopped E k)"
    unfolding emit_state_def by (rule run_spec_weaken[OF emit_spec[OF assms(1) s(1) _ _ assms(3), of _ 1]])
      (use s in \<open>auto simp: finite_progress_def upload_progress_def f32_is_finite_def numeral_3_eq_3 numeral_2_eq_2\<close>)
  have complete: "run_spec (in_row E k 2 Uploading Uploading) (emit_state E d EvCompleted (Some (F_Fin 1)) (Some p) Completed)
    (\<lambda>_. in_row E k 1 Completed Uploading) (stopped E k)"
    unfolding emit_state_def by (rule run_spec_weaken[OF emit_spec[OF assms(1) s(2) _ _ assms(3), of _ 0]])
      (auto simp: finite_progress_def f32_is_finite_def numeral_2_eq_2)
  note quiet = quiet_spec[OF _ s(2), of _ E k 1, folded numeral_2_eq_2, unfolded Suc_1]
  show ?thesis
    by (rule run_spec_bind[OF wait] run_spec_bind[OF upload] run_spec_bind[OF set_state_spec]
        run_spec_bind[OF quiet[OF quiet_basic(4)]] run_spec_bind[OF quiet[OF quiet_upload_outputs[OF assms(1)]]] complete)+
qed

text \<open>The run up to its error handling: it completes the job or stops with the row accounted for.\<close>

lemma execute_inner_spec:
  assumes "fair_world E" "resumable (length (re_statuses E) + 5) r" "\<forall>names. render P catalog (jr_dispatch r) names \<noteq> None"
  shows "run_spec (started E r) (execute_inner E P c catalog r)
    (\<lambda>_. in_row E (dj_job_id (jr_dispatch r)) 1 Completed Uploading) (stopped E (dj_job_id (jr_dispatch r)))"
proof -
  let ?d = "jr_dispatch r" and ?L = "length (re_statuses E)"
  let ?k = "dj_job_id ?d"
  have r: "jr_state r \<in> running_states" "\<not> is_terminal (jr_state r)"
    using assms(2) by (auto simp: resumable_def running_states_def is_terminal_def)
  define s where "s = (if jr_state r = Received then Accepted else jr_state r)"
  define s' where "s' = (if s = Uploading then s else Running)"
  have s: "s \<in> {Accepted, Running, Uploading}" "s \<in> running_states" "s' \<in> {Running, Uploading}" "s' \<in> running_states"
    using r(1) by (auto simp: s_def s'_def running_states_def)
  have replay: "run_spec (started E r) (case jr_pending_event r of Some ev \<Rightarrow> send_job_event E ev None | None \<Rightarrow> run_return ())
    (\<lambda>_. in_row E ?k (?L + 5) (jr_state r) (jr_state r)) (stopped E ?k)"
    using replay_spec[OF assms(1), of "?L + 4" r] assms(2) by (simp add: eval_nat_numeral)
  have a: "run_spec (in_row E ?k (?L + 5) (jr_state r) (jr_state r))
    (if jr_state r = Received then run_bind (emit_state E ?d EvAccepted None None Accepted) (\<lambda>_. set_state Accepted) else run_return ())
    (\<lambda>_. in_row E ?k (Suc (?L + 3)) s s) (stopped E ?k)"
    using accept_spec[OF assms(1) r(1) refl, where n = "?L + 3"] by (simp add: s_def eval_nat_numeral)
  have run: "run_spec (in_row E ?k (Suc (?L + 3)) s s)
    (run_bind read_state (\<lambda>s. if s \<noteq> Running \<and> s \<noteq> Uploading
       then run_bind (emit_state E ?d EvRunning None (Some p) Running) (\<lambda>_. set_state Running) else run_return ()))
    (\<lambda>_. in_row E ?k (Suc (?L + 2)) s' s') (stopped E ?k)" for p
    using running_spec[OF assms(1) s(1) refl, where n = "?L + 2"] by (simp add: s'_def eval_nat_numeral)
  have assoc: "run_bind read_state (\<lambda>s. run_bind (g s) h) = run_bind (run_bind read_state g) h" for g :: "JobState \<Rightarrow> unit run" and h :: "unit \<Rightarrow> unit run"
    by (rule ext) (simp add: run_bind_def read_state_def)
  have cancel: "run_spec (in_row E ?k (Suc m) s' s') (run_bind (cancel_prompt p) (\<lambda>_. run_raise RtCancelled)) Q (stopped E ?k)"
    for m p and Q :: "unit \<Rightarrow> RunState \<Rightarrow> bool"
    by (rule run_spec_bind[OF quiet_spec[OF quiet_basic(6) s(4)] run_spec_raise[OF in_row_stopped[OF _ s(4)]]])
  have last: "run_spec (in_row E ?k (Suc (?L + 2)) s' s')
    (if x then run_bind (cancel_prompt p) (\<lambda>_. run_raise RtCancelled)
     else run_bind (wait_loop E ?d p (re_statuses E) StatusUnknown (re_started E) None) (\<lambda>outputs.
     run_bind (emit_state E ?d EvUploading (Some upload_progress) (Some p) Uploading) (\<lambda>_.
     run_bind (set_state Uploading) (\<lambda>_.
     run_bind (io_step (re_output_dir E)) (\<lambda>_.
     run_bind (upload_outputs E c ?d 0 outputs) (\<lambda>_.
     emit_state E ?d EvCompleted (Some (F_Fin 1)) (Some p) Completed))))))
    (\<lambda>_. in_row E ?k 1 Completed Uploading) (stopped E ?k)" for x p
    using finish_spec[OF assms(1) s(3) refl, where p = p and c = c and d = ?d] cancel by (simp add: eval_nat_numeral)
  show ?thesis
    unfolding execute_inner_def Let_def if_not_P[OF r(2)] assoc
    by (rule run_spec_bind[OF replay] run_spec_bind[OF a]
        run_spec_bind[OF quiet_spec[OF quiet_basic(7) s(2)]] run_spec_bind[OF quiet_spec[OF quiet_check s(2)]]
        run_spec_bind[OF obtain_prompt_spec[OF s(2) assms(3) refl]] run_spec_bind[OF run]
        run_spec_bind[OF quiet_spec[OF quiet_basic(5) s(4)]] last)+
qed

text \<open>How the journal row of a finished run looks.\<close>

definition settled :: "run_env \<Rightarrow> string \<Rightarrow> RunState \<Rightarrow> bool" where
  "settled E k st \<longleftrightarrow>
     (\<exists>r. journal_at E k st r \<and>
        (is_terminal (jr_state r) \<and> jr_pending_event r = None \<or>
         jr_state r \<in> {Uploading, Completed, Failed} \<and> jr_pending_event r \<noteq> None \<and> re_cancelled E (rs_tick st)))"

lemma settle_settles:
  assumes "fair_world E" "stopped E (dj_job_id (jr_dispatch r)) st"
  shows "\<exists>st'. settle E r e st = Some st' \<and> settled E (dj_job_id (jr_dispatch r)) st'"
proof -
  let ?k = "dj_job_id (jr_dispatch r)" and ?st = "next_tick st"
  obtain q where q: "journal_at E ?k st q" "jr_event_sequence q \<le> rs_sequence st" "uint (rs_sequence st) + 1 \<le> i64_max"
    "if jr_pending_event q = None then jr_state q = rs_state st \<and> jr_state q \<in> running_states
     else jr_state q \<in> insert Completed running_states \<and> re_cancelled E (rs_tick st)"
    using assms(2) by (auto simp: stopped_def)
  let ?u = "if re_cancelled E (rs_tick st) \<and> rs_state st \<noteq> Uploading
    then \<lparr>eu_kind = EvCancelled, eu_progress = None, eu_prompt_id = jr_prompt_id r, eu_message = ''job cancelled'', eu_state = Cancelled\<rparr>
    else \<lparr>eu_kind = EvFailed, eu_progress = None, eu_prompt_id = jr_prompt_id r,
           eu_message = take_chars 1000 (re_error_text E e), eu_state = Failed\<rparr>"
  have j: "journal_at E ?k ?st q" "jr_event_sequence q \<le> rs_sequence ?st" "uint (rs_sequence ?st) + 1 \<le> i64_max"
    using q(1-3) by (simp_all add: next_tick_def journal_at_def)
  define u where "u = ?u"
  have u: "eu_kind u = EvCancelled \<and> eu_state u = Cancelled \<and> re_cancelled E (rs_tick st) \<and> rs_state st \<noteq> Uploading \<or>
      eu_kind u = EvFailed \<and> eu_state u = Failed" "finite_progress (eu_progress u)"
    by (auto simp: u_def finite_progress_def)
  obtain st' out where o: "emit E (jr_dispatch r) u ?st = Some (st', out)" "emitted E u q ?st st' out"
    using emit_emitted[OF assms(1) refl j u(2)] by blast
  note k = journal_at_key[OF q(1)]
  have "settled E ?k st'"
  proof (cases "can_transition_to (jr_state q) (eu_state u)")
    case True
    have "is_terminal (eu_state u)" "eu_kind u \<noteq> EvCancelled \<Longrightarrow> eu_state u = Failed" using u(1) by (auto simp: is_terminal_def)
    then show ?thesis using True o(2) k unfolding emitted_def Let_def settled_def by (elim conjE disjE) auto
  next
    case False
    then have "jr_pending_event q \<noteq> None" "jr_state q \<in> {Uploading, Completed}" "re_cancelled E (rs_tick st)"
      using q(4) u(1) by (auto simp: can_transition_to_def running_states_def split: if_splits JobState.splits)
    then show ?thesis using o(2) False k cancelled_Suc[OF assms(1)] unfolding emitted_def Let_def
      by (auto simp: settled_def next_tick_def)
  qed
  moreover have "settle E r e st = Some st'" using o(1) by (auto simp: u_def settle_def Let_def split: if_splits)
  ultimately show ?thesis by blast
qed

lemma started_run_start: "sqlite_wf (re_serde E) journal \<Longrightarrow> sqlite_view (re_serde E) journal (dj_job_id (jr_dispatch r)) = Some r \<Longrightarrow>
  started E r (run_start r journal)"
  by (simp add: started_def run_start_def journal_at_def)


text \<open>A record that is already terminal is not run, and what its outbox holds is not sent.\<close>

lemma terminal_not_run: "is_terminal (jr_state r) \<Longrightarrow> execute E P c catalog r journal = Some (run_start r journal, True)"
  by (simp add: execute_def execute_inner_def run_return_def)

lemma deliver_cancelled: "re_cancelled E (rs_tick st) \<Longrightarrow> ev_kind e \<noteq> EvCancelled \<Longrightarrow> deliver E e st = Some (next_tick st, Raised RtCancelled)"
  by (subst deliver.simps) simp

lemma cancelled_start:
  assumes "\<forall>t. re_cancelled E t" "jr_state r = Uploading" "jr_pending_event r = None"
  shows "\<exists>e st. execute_inner E P c catalog r (run_start r journal) = Some (st, Raised e) \<and>
    rs_journal st = journal \<and> rs_sequence st = jr_event_sequence r \<and> rs_state st = Uploading \<and> rs_sent st = []"
  using assms
  by (cases "re_permit E")
    (auto simp: execute_inner_def Let_def is_terminal_def run_bind_def run_return_def acquire_permit_def run_update_def run_raise_def
      check_cancelled_def observe_cancelled_def next_tick_def run_start_def)

text \<open>
  The end of a job that is cancelled during its upload is never reported. The run writes the
  state Failed and its event to the journal, but it sends nothing, since an event other than Cancelled is given up as
  soon as the job is cancelled; and whenever the worker resumes the job from its journal, with the Failed event still in the
  outbox, the run returns at once, without a message, because the record is terminal.
\<close>

theorem cancelled_upload_unreported:
  assumes "fair_world E" "sqlite_wf (re_serde E) journal"
    "sqlite_view (re_serde E) journal (dj_job_id (jr_dispatch r)) = Some r" "uint (jr_event_sequence r) + 1 \<le> i64_max"
    "jr_state r = Uploading" "jr_pending_event r = None" "\<forall>t. re_cancelled E t"
  shows "\<exists>st r'. execute E P c catalog r journal = Some (st, True) \<and> rs_sent st = [] \<and>
    sqlite_view (re_serde E) (rs_journal st) (dj_job_id (jr_dispatch r)) = Some r' \<and>
    jr_state r' = Failed \<and> jr_pending_event r' \<noteq> None \<and>
    (\<forall>E'. execute E' P c catalog r' (rs_journal st) = Some (run_start r' (rs_journal st), True))"
proof -
  let ?k = "dj_job_id (jr_dispatch r)"
  obtain e st where i: "execute_inner E P c catalog r (run_start r journal) = Some (st, Raised e)"
    "rs_journal st = journal" "rs_sequence st = jr_event_sequence r" "rs_state st = Uploading" "rs_sent st = []"
    using cancelled_start[OF assms(7,5,6)] by blast
  define u where "u = \<lparr>eu_kind = EvFailed, eu_progress = None, eu_prompt_id = jr_prompt_id r,
    eu_message = take_chars 1000 (re_error_text E e), eu_state = Failed\<rparr>"
  have j: "journal_at E ?k (next_tick st) r" using i(2) assms(2,3) by (simp add: journal_at_def next_tick_def)
  have q: "jr_event_sequence r \<le> rs_sequence (next_tick st)" "uint (rs_sequence (next_tick st)) + 1 \<le> i64_max"
    using i(3) assms(4) by (simp_all add: next_tick_def)
  have u: "finite_progress (eu_progress u)" "can_transition_to (jr_state r) (eu_state u)"
    using assms(5) by (simp_all add: u_def finite_progress_def can_transition_to_def)
  from emit_emitted[OF assms(1) refl j q u(1)] obtain st' out
    where o: "emit E (jr_dispatch r) u (next_tick st) = Some (st', out)" "emitted E u r (next_tick st) st' out" by blast
  have x: "execute E P c catalog r journal = Some (st', True)"
    using i(1,4) o(1) by (simp add: execute_def settle_def u_def Let_def)
  have s: "rs_sent st' = []" "out \<noteq> Returned ()"
    using o(1) i(5) assms(7) deliver_cancelled[of E]
    by (auto simp: emit_def Let_def send_job_event_def event_of_def u_def next_tick_def split: prod.splits sum.splits)
  then obtain r' where r': "journal_at E ?k st' r'" "jr_state r' = Failed" "jr_pending_event r' \<noteq> None"
    using o(2) u(2) unfolding emitted_def Let_def by (auto simp: u_def)
  then have "execute E' P c catalog r' (rs_journal st') = Some (run_start r' (rs_journal st'), True)" for E'
    using terminal_not_run[of r'] by (simp add: is_terminal_def)
  then show ?thesis using x s(1) r' by (auto simp: journal_at_def)
qed

subsection \<open>A concrete world\<close>

text \<open>A self-delimiting codec of events, exact on every event with a finite or no progress.\<close>

definition enc_nat :: "nat \<Rightarrow> string" where
  "enc_nat n = replicate n CHR ''1'' @ ''0''"

fun dec_nat :: "string \<Rightarrow> nat \<times> string" where
  "dec_nat [] = (0, [])"
| "dec_nat (c # s) = (if c = CHR ''1'' then (let (n, rest) = dec_nat s in (Suc n, rest)) else (0, s))"

definition enc_text :: "string \<Rightarrow> string" where
  "enc_text t = enc_nat (length t) @ t"

definition dec_text :: "string \<Rightarrow> string \<times> string" where
  "dec_text s = (let (n, rest) = dec_nat s in (take n rest, drop n rest))"

definition enc_int :: "int \<Rightarrow> string" where
  "enc_int i = enc_nat (if i < 0 then 1 else 0) @ enc_nat (nat \<bar>i\<bar>)"

definition dec_int :: "string \<Rightarrow> int \<times> string" where
  "dec_int s = (let (b, s1) = dec_nat s; (n, s2) = dec_nat s1 in (if b = 1 then - int n else int n, s2))"

lemma dec_enc [simp]:
  "dec_nat (enc_nat n @ s) = (n, s)" "dec_text (enc_text t @ s) = (t, s)" "dec_int (enc_int i @ s) = (i, s)"
proof -
  show n: "dec_nat (enc_nat n @ s) = (n, s)" for n s by (induction n) (simp_all add: enc_nat_def)
  show "dec_text (enc_text t @ s) = (t, s)" by (simp add: enc_text_def dec_text_def n)
  show "dec_int (enc_int i @ s) = (i, s)" by (simp add: enc_int_def dec_int_def n)
qed

definition event_kinds :: "JobEventKind list" where
  "event_kinds = [EvAccepted, EvRunning, EvProgress, EvUploading, EvCompleted, EvFailed, EvCancelled]"

fun kind_index :: "JobEventKind \<Rightarrow> nat" where
  "kind_index EvAccepted = 0" | "kind_index EvRunning = 1" | "kind_index EvProgress = 2" | "kind_index EvUploading = 3"
| "kind_index EvCompleted = 4" | "kind_index EvFailed = 5" | "kind_index EvCancelled = 6"

lemma kind_at_index [simp]: "event_kinds ! kind_index k = k"
  by (cases k) (simp_all add: event_kinds_def)

definition enc_option :: "('a \<Rightarrow> string) \<Rightarrow> 'a option \<Rightarrow> string" where
  "enc_option enc x = (case x of None \<Rightarrow> enc_nat 0 | Some a \<Rightarrow> enc_nat 1 @ enc a)"

definition dec_option :: "(string \<Rightarrow> 'a \<times> string) \<Rightarrow> string \<Rightarrow> 'a option \<times> string" where
  "dec_option dec s = (let (b, s1) = dec_nat s in if b = 0 then (None, s1) else let (a, s2) = dec s1 in (Some a, s2))"

lemma dec_enc_option: "(\<And>a. x = Some a \<Longrightarrow> dec (enc a @ s) = (a, s)) \<Longrightarrow> dec_option dec (enc_option enc x @ s) = (x, s)"
  by (cases x) (simp_all add: enc_option_def dec_option_def)

definition enc_fin :: "f32 \<Rightarrow> string" where
  "enc_fin f = (case f of F_Fin q \<Rightarrow> enc_int (fst (quotient_of q)) @ enc_int (snd (quotient_of q)) | _ \<Rightarrow> [])"

definition dec_fin :: "string \<Rightarrow> f32 \<times> string" where
  "dec_fin s = (let (a, s1) = dec_int s; (b, s2) = dec_int s1 in (F_Fin (of_int a / of_int b), s2))"

lemma dec_enc_fin: "f32_is_finite f \<Longrightarrow> dec_fin (enc_fin f @ s) = (f, s)"
  by (cases f) (auto simp: enc_fin_def dec_fin_def f32_is_finite_def quotient_of_div[OF prod.collapse[symmetric], symmetric])

definition enc_job_event :: "JobEvent \<Rightarrow> string" where
  "enc_job_event e =
     enc_text (ev_job_id e) @ enc_nat (unat (ev_attempt e)) @ enc_nat (unat (ev_sequence e)) @ enc_nat (kind_index (ev_kind e)) @
     enc_option enc_fin (ev_progress e) @ enc_option enc_text (ev_prompt_id e) @ enc_text (ev_message e) @ enc_int (ev_unix_ms e)"

definition dec_job_event :: "string \<Rightarrow> JobEvent" where
  "dec_job_event s =
     (let (j, s) = dec_text s; (a, s) = dec_nat s; (n, s) = dec_nat s; (k, s) = dec_nat s;
          (p, s) = dec_option dec_fin s; (q, s) = dec_option dec_text s; (m, s) = dec_text s; (t, s) = dec_int s
      in \<lparr>ev_job_id = j, ev_attempt = of_nat a, ev_sequence = of_nat n, ev_kind = event_kinds ! k, ev_progress = p,
          ev_prompt_id = q, ev_message = m, ev_unix_ms = t\<rparr>)"

lemma dec_enc_job_event: "finite_progress (ev_progress e) \<Longrightarrow> dec_job_event (enc_job_event e) = e"
proof -
  assume "finite_progress (ev_progress e)"
  then have "dec_option dec_fin (enc_option enc_fin (ev_progress e) @ s) = (ev_progress e, s)" for s
    by (intro dec_enc_option dec_enc_fin) (simp add: finite_progress_def)
  then show ?thesis using dec_enc(3)[of "ev_unix_ms e" "[]"]
    by (simp add: dec_job_event_def enc_job_event_def dec_enc_option Let_def del: dec_enc(3))
qed

text \<open>A world in which every job is cancelled, or none is, in which the Hub acknowledges at once and ComfyUI cannot be reached.\<close>

definition calm_world :: "bool \<Rightarrow> run_env" where
  "calm_world cancelled =
     \<lparr>re_serde = \<lparr>enc_dispatch = (\<lambda>d. Some ''{d}''), dec_dispatch = (\<lambda>t. Some (sample_job [])),
                  enc_event = (\<lambda>e. Some (enc_job_event e)), dec_event = (\<lambda>t. Some (dec_job_event t))\<rparr>,
      re_journal_now = (\<lambda>t. 0), re_event_now = (\<lambda>t. 0), re_cancelled = (\<lambda>t. cancelled), re_acked = (\<lambda>t. True),
      re_sha = (\<lambda>b. ''ab''), re_error_text = (\<lambda>e. ''failed''), re_permit = PermitGranted, re_input_dir = None,
      re_input = (\<lambda>i. (good_disk, 0, GetAnswer 200 [Chunk [1]])), re_upload_image = (\<lambda>i name. Err ''refused''),
      re_prompt = (\<lambda>w. Ok ''p''), re_started = 0, re_statuses = [StatusChanged StatusRunning 1 2], re_wait = Ok [],
      re_output_dir = None, re_view = (\<lambda>i. Err ''refused''), re_output_disk = (\<lambda>i. good_disk), re_request_id = (\<lambda>i. ''r''),
      re_upload = (\<lambda>i. sample_upload_env)\<rparr>"

lemma calm_world_fair: "fair_world (calm_world b)"
  by (auto simp: fair_world_def calm_world_def event_exact_def dec_enc_job_event)

definition calm_journal :: "JobState \<Rightarrow> worker_jobs" where
  "calm_journal s = [(''j'', \<lparr>row_dispatch_json = ''{d}'', row_state = state_str s, row_prompt_id = None, row_event_sequence = 0,
     row_pending_event_json = None, row_updated_at = 0\<rparr>)]"

definition calm_record :: "JobState \<Rightarrow> JobRecord" where
  "calm_record s = \<lparr>jr_dispatch = sample_job [], jr_state = s, jr_prompt_id = None, jr_event_sequence = 0, jr_pending_event = None\<rparr>"

lemma calm_journal_at:
  "sqlite_wf (re_serde (calm_world b)) (calm_journal s)"
  "sqlite_view (re_serde (calm_world b)) (calm_journal s) (dj_job_id (jr_dispatch (calm_record s))) = Some (calm_record s)"
  by (auto simp: sqlite_wf_def hm_wf_def sqlite_row_ok_def sqlite_view_def calm_world_def calm_journal_def calm_record_def hm_get_def
      decode_job_def decode_pending_def sample_job_def and_then_def i64_max0_as_u64_def i64_max_def split: if_splits)

definition calm_config :: WorkerExecutionConfig where
  "calm_config = \<lparr>we_work_dir = ''w'', we_poll_interval = 1, we_max_output_bytes = 1, we_parallelism = 1\<rparr>"


theorem cancelled_upload_unreported_witness:
  "\<exists>st r'. execute (calm_world True) rfc_ops calm_config []
      (calm_record Uploading) (calm_journal Uploading) = Some (st, True) \<and> rs_sent st = [] \<and> jr_state r' = Failed \<and>
     sqlite_view (re_serde (calm_world True)) (rs_journal st) ''j'' = Some r'"
  using cancelled_upload_unreported[OF calm_world_fair calm_journal_at[of True Uploading]]
  by (fastforce simp: calm_record_def i64_max_def calm_world_def sample_job_def)

end
