(* ===== verification/Worker_Client.thy ===== *)
theory Worker_Client
  imports Runtime_Runner_Props
begin

text \<open>
  The worker process (\<open>crates/nagisalake-worker/src/worker.rs\<close>): admission of dispatched
  jobs, recovery after a restart, the messages of the Hub and the reconnect loop. The
  state joins the SQLite journal, the runtime registry of \<open>Runtime_Bus\<close> and the tasks that run
  \<open>execute\<close>. The codec of the journal, its clock and the text of errors are parameters. A handler runs to its end before
  the next message is read, as the connection loop does.
\<close>

subsection \<open>State\<close>

datatype WorkerError =
    WeInvalidConfig string
  | WeWorkflow WorkflowError
  | WeJournal JournalError
  | WeInventory nat
  | WeRuntime RuntimeError
  | WeTransport
  | WeRegistrationTimeout
  | WeRegistrationFailed string
  | WeUnexpectedMessage HubMessage

record WorkerTask =
  wt_record :: JobRecord
  wt_token :: token
  wt_slot :: slot

record Worker =
  wk_catalog :: WorkflowCatalog
  wk_journal :: worker_jobs
  wk_runtime :: WorkerRuntime
  wk_tasks :: "WorkerTask list"

abbreviation task_job :: "WorkerTask \<Rightarrow> string" where
  "task_job t \<equiv> dj_job_id (jr_dispatch (wt_record t))"

subsection \<open>Starting runs\<close>

definition spawn_registered_record :: "JobRecord \<Rightarrow> token \<Rightarrow> slot \<Rightarrow> Worker \<Rightarrow> Worker" where
  "spawn_registered_record r token slot w =
     w\<lparr>wk_tasks := wk_tasks w @ [\<lparr>wt_record = r, wt_token = token, wt_slot = slot\<rparr>]\<rparr>"

definition spawn_record :: "JobRecord \<Rightarrow> Worker \<Rightarrow> Worker" where
  "spawn_record r w =
     (case restore_job (dj_job_id (jr_dispatch r)) (wk_runtime w) of
        (rt, None) \<Rightarrow> w\<lparr>wk_runtime := rt\<rparr>
      | (rt, Some (token, slot)) \<Rightarrow> spawn_registered_record r token slot (w\<lparr>wk_runtime := rt\<rparr>))"

definition resume_unfinished :: "serde \<Rightarrow> Worker \<Rightarrow> Worker \<times> (WorkerError, unit) result" where
  "resume_unfinished S w =
     (case sqlite_list_unfinished S (wk_journal w) of
        Err e \<Rightarrow> (w, Err (WeJournal e))
      | Ok records \<Rightarrow> (fold spawn_record records w, Ok ()))"

definition recovery_job_ids :: "serde \<Rightarrow> Worker \<Rightarrow> (WorkerError, string list) result" where
  "recovery_job_ids S w =
     (case sqlite_list_unfinished S (wk_journal w) of
        Err e \<Rightarrow> Err (WeJournal e)
      | Ok records \<Rightarrow>
          let job_ids = map (\<lambda>r. dj_job_id (jr_dispatch r)) (filter (\<lambda>r. \<not> is_terminal (jr_state r)) records)
          in if length job_ids > MAX_RECOVERY_JOB_IDS then Err (WeInventory (length job_ids)) else Ok job_ids)"

subsection \<open>Admission\<close>

text \<open>A slot that is not handed to a task is dropped at the end of the function.\<close>

definition release_registration :: "string \<Rightarrow> slot \<Rightarrow> Worker \<Rightarrow> Worker" where
  "release_registration job slot w = w\<lparr>wk_runtime := slot_drop slot (finish_job job (wk_runtime w))\<rparr>"

text \<open>The journal answers an upsert with a record, so the answer \<open>Ok None\<close> does not occur.\<close>

definition upsert_dispatch :: "serde \<Rightarrow> i64 \<Rightarrow> DispatchJob \<Rightarrow> Worker \<Rightarrow> Worker \<times> (WorkerError, JobRecord option) result" where
  "upsert_dispatch S now d w =
     (let (t, r) = sqlite_upsert S now d (wk_journal w)
      in (w\<lparr>wk_journal := t\<rparr>,
          case r of Err e \<Rightarrow> Err (WeJournal e) | Ok (RRecord rec) \<Rightarrow> Ok (Some rec) | Ok _ \<Rightarrow> Ok None))"

definition accept_new :: "serde \<Rightarrow> i64 \<Rightarrow> DispatchJob \<Rightarrow> Worker \<Rightarrow> Worker \<times> (WorkerError, unit) result" where
  "accept_new S now d w =
     (case register_job (dj_job_id d) (wk_runtime w) of
        (rt, Err e) \<Rightarrow> (w\<lparr>wk_runtime := rt\<rparr>, Err (WeRuntime e))
      | (rt, Ok None) \<Rightarrow>
          (case upsert_dispatch S now d (w\<lparr>wk_runtime := rt\<rparr>) of (w1, Err e) \<Rightarrow> (w1, Err e) | (w1, Ok _) \<Rightarrow> (w1, Ok ()))
      | (rt, Ok (Some (token, slot))) \<Rightarrow>
          (case upsert_dispatch S now d (w\<lparr>wk_runtime := rt\<rparr>) of
             (w1, Err e) \<Rightarrow> (release_registration (dj_job_id d) slot w1, Err e)
           | (w1, Ok None) \<Rightarrow> (release_registration (dj_job_id d) slot w1, Ok ())
           | (w1, Ok (Some rec)) \<Rightarrow>
               if \<not> is_terminal (jr_state rec) then (spawn_registered_record rec token slot w1, Ok ())
               else (release_registration (dj_job_id d) slot w1, Ok ())))"

definition accept_dispatch :: "serde \<Rightarrow> i64 \<Rightarrow> DispatchJob \<Rightarrow> Worker \<Rightarrow> Worker \<times> (WorkerError, unit) result" where
  "accept_dispatch S now d w =
     (case catalog_validate (wk_catalog w) d of
        Err e \<Rightarrow> (w, Err (WeWorkflow e))
      | Ok _ \<Rightarrow>
          (case snd (sqlite_get S (dj_job_id d) (wk_journal w)) of
             Err e \<Rightarrow> (w, Err (WeJournal e))
           | Ok (RMaybe (Some _)) \<Rightarrow>
               (case upsert_dispatch S now d w of
                  (w1, Err e) \<Rightarrow> (w1, Err e)
                | (w1, Ok None) \<Rightarrow> (w1, Ok ())
                | (w1, Ok (Some rec)) \<Rightarrow> (if \<not> is_terminal (jr_state rec) then spawn_record rec w1 else w1, Ok ()))
           | Ok _ \<Rightarrow> accept_new S now d w))"

subsection \<open>Messages of the Hub\<close>

definition cancel_known :: "serde \<Rightarrow> string \<Rightarrow> Worker \<Rightarrow> Worker \<times> (WorkerError, bool) result" where
  "cancel_known S job w =
     (case runtime_cancel_job job (wk_runtime w) of
        (rt, True) \<Rightarrow> (w\<lparr>wk_runtime := rt\<rparr>, Ok True)
      | (rt, False) \<Rightarrow>
          (w\<lparr>wk_runtime := rt\<rparr>,
           case snd (sqlite_get S job (wk_journal w)) of
             Err e \<Rightarrow> Err (WeJournal e)
           | Ok (RMaybe (Some r)) \<Rightarrow> Ok (\<not> is_terminal (jr_state r))
           | Ok _ \<Rightarrow> Ok False))"

text \<open>The new state, the messages sent to the Hub and whether the connection goes on.\<close>

fun handle_hub_message ::
  "serde \<Rightarrow> i64 \<Rightarrow> (WorkerError \<Rightarrow> string) \<Rightarrow> HubMessage \<Rightarrow> Worker \<Rightarrow> Worker \<times> WorkerMessage list \<times> (WorkerError, unit) result" where
  "handle_hub_message S now show_error (HDispatchJob d) w =
     (let (w1, r) = accept_dispatch S now d w
      in (w1, [WCommandAck \<lparr>ca_command_id = dj_command_id d, ca_accepted = (\<not> isl r),
            ca_message = (case r of Err e \<Rightarrow> take_chars 512 (show_error e) | Ok _ \<Rightarrow> [])\<rparr>], Ok ()))"
| "handle_hub_message S now show_error (HCancelJob c) w =
     (case cancel_known S (cj_job_id c) w of
        (w1, Err e) \<Rightarrow> (w1, [], Err e)
      | (w1, Ok known) \<Rightarrow>
          (w1, [WCommandAck \<lparr>ca_command_id = cj_command_id c, ca_accepted = known,
             ca_message = (if known then [] else ''job is unknown'')\<rparr>], Ok ()))"
| "handle_hub_message S now show_error (HArtifactUpload u) w =
     (w\<lparr>wk_runtime := resolve_artifact_ticket u (wk_runtime w)\<rparr>, [], Ok ())"
| "handle_hub_message S now show_error (HJobEventAck a) w =
     (w\<lparr>wk_runtime := resolve_job_event (ea_job_id a) (ea_sequence a) (wk_runtime w)\<rparr>, [], Ok ())"
| "handle_hub_message S now show_error (HArtifactUploadedAck a) w =
     (w\<lparr>wk_runtime := resolve_artifact_ack a (wk_runtime w)\<rparr>, [], Ok ())"
| "handle_hub_message S now show_error (HPing p) w = (w, [WPong \<lparr>pong_nonce = ping_nonce p\<rparr>], Ok ())"
| "handle_hub_message S now show_error (HError e) w =
     (w, [], if pe_code e = ''session_replaced'' then Err (WeRegistrationFailed (pe_message e)) else Ok ())"
| "handle_hub_message S now show_error (HRegistered r) w = (w, [], Ok ())"

subsection \<open>The connection\<close>

definition register_message :: "Register \<Rightarrow> WorkflowCatalog \<Rightarrow> u16 \<Rightarrow> u16 \<Rightarrow> (string, string) btree_map \<Rightarrow> string list \<Rightarrow> Register" where
  "register_message identity catalog parallelism queue_depth labels ids =
     identity\<lparr>reg_capabilities := \<lparr>cap_workflows = capabilities catalog, cap_parallelism = parallelism,
        cap_queue_depth = queue_depth, cap_supports_queued_job_cancellation = True, cap_labels = labels\<rparr>,
      reg_recovery_job_ids := ids\<rparr>"

text \<open>What the Hub answers to the registration within the timeout: a message, a closed or failed transport, or nothing.\<close>

datatype inbound = Inbound HubMessage | InboundClosed | InboundFailed

fun registration_answer :: "inbound option \<Rightarrow> (WorkerError, string \<times> string \<times> u64) result" where
  "registration_answer None = Err WeRegistrationTimeout"
| "registration_answer (Some InboundFailed) = Err WeTransport"
| "registration_answer (Some InboundClosed) = Err WeTransport"
| "registration_answer (Some (Inbound (HRegistered v))) =
     Ok (rd_worker_id v, rd_session_id v, max (rd_heartbeat_interval_seconds v) 1)"
| "registration_answer (Some (Inbound (HError e))) = Err (WeRegistrationFailed (pe_message e))"
| "registration_answer (Some (Inbound m)) = Err (WeUnexpectedMessage m)"

text \<open>What the connection loop selects: the shutdown, a message in or out, or a tick of the heartbeat timer.\<close>

datatype conn_event = ConnShutdown | ConnInbound i64 inbound | ConnOutbound "WorkerMessage option" | ConnTick i64

definition heartbeat_message :: "string \<Rightarrow> u64 \<Rightarrow> i64 \<Rightarrow> Worker \<Rightarrow> WorkerMessage" where
  "heartbeat_message session sequence now w =
     (let (active, queued) = runtime_metrics (wk_runtime w)
      in WHeartbeat \<lparr>hb_session_id = session, hb_sequence = sequence, hb_active_jobs = active, hb_queued_jobs = queued, hb_unix_ms = now\<rparr>)"

text \<open>The loop over the events of one connection: the state, the messages sent and the result, none while it still runs.\<close>

fun connection_loop ::
  "serde \<Rightarrow> (WorkerError \<Rightarrow> string) \<Rightarrow> string \<Rightarrow> conn_event list \<Rightarrow> u64 \<Rightarrow> Worker
   \<Rightarrow> Worker \<times> WorkerMessage list \<times> (WorkerError, unit) result option" where
  "connection_loop S show_error session [] heartbeat_sequence w = (w, [], None)"
| "connection_loop S show_error session (ConnShutdown # rest) heartbeat_sequence w = (w, [], Some (Ok ()))"
| "connection_loop S show_error session (ConnInbound now InboundFailed # rest) heartbeat_sequence w = (w, [], Some (Err WeTransport))"
| "connection_loop S show_error session (ConnInbound now InboundClosed # rest) heartbeat_sequence w = (w, [], Some (Ok ()))"
| "connection_loop S show_error session (ConnInbound now (Inbound m) # rest) heartbeat_sequence w =
     (case handle_hub_message S now show_error m w of
        (w1, sent, Err e) \<Rightarrow> (w1, sent, Some (Err e))
      | (w1, sent, Ok _) \<Rightarrow>
          let (w2, sent2, r) = connection_loop S show_error session rest heartbeat_sequence w1 in (w2, sent @ sent2, r))"
| "connection_loop S show_error session (ConnOutbound None # rest) heartbeat_sequence w = (w, [], Some (Ok ()))"
| "connection_loop S show_error session (ConnOutbound (Some m) # rest) heartbeat_sequence w =
     (let (w2, sent2, r) = connection_loop S show_error session rest heartbeat_sequence w in (w2, m # sent2, r))"
| "connection_loop S show_error session (ConnTick now # rest) heartbeat_sequence w =
     (let n = saturating_add heartbeat_sequence 1;
          (w2, sent2, r) = connection_loop S show_error session rest n w
      in (w2, heartbeat_message session n now w # sent2, r))"

definition saturating_mul :: "'a::len word \<Rightarrow> 'a word \<Rightarrow> 'a word" where
  "saturating_mul a b = (if unat a * unat b < 2 ^ LENGTH('a) then a * b else - 1)"

text \<open>The delay before the next connection of \<open>run_until_cancelled\<close>, in seconds.\<close>

definition next_delay :: "u64 \<Rightarrow> u64 \<Rightarrow> u64" where
  "next_delay reconnect_max delay = min (saturating_mul delay 2) (max reconnect_max 1)"

fun reconnect_delays :: "u64 \<Rightarrow> u64 \<Rightarrow> nat \<Rightarrow> u64 list" where
  "reconnect_delays reconnect_max delay 0 = []"
| "reconnect_delays reconnect_max delay (Suc n) = delay # reconnect_delays reconnect_max (next_delay reconnect_max delay) n"

subsection \<open>The worker over time\<close>

text \<open>The end of a task: the runner deregisters its job, and dropping the slot releases the capacity; a panic only drops the slot.\<close>

definition end_task :: "WorkerTask \<Rightarrow> bool \<Rightarrow> Worker \<Rightarrow> Worker" where
  "end_task t returned w =
     w\<lparr>wk_runtime := slot_drop (wt_slot t) (if returned then finish_job (task_job t) (wk_runtime w) else wk_runtime w),
       wk_tasks := remove1 t (wk_tasks w)\<rparr>"

definition worker_start :: "WorkflowCatalog \<Rightarrow> u16 \<Rightarrow> u16 \<Rightarrow> worker_jobs \<Rightarrow> Worker" where
  "worker_start catalog parallelism queue_depth journal =
     \<lparr>wk_catalog = catalog, wk_journal = journal,
      wk_runtime = runtime_with_capacity (unat parallelism + unat queue_depth), wk_tasks = []\<rparr>"

inductive worker_step :: "serde \<Rightarrow> Worker \<Rightarrow> Worker \<Rightarrow> bool" for S where
  on_message: "handle_hub_message S now show_error m w = (w', sent, r) \<Longrightarrow>
     (\<And>d. m = HDispatchJob d \<Longrightarrow> dispatch_exact S d) \<Longrightarrow> worker_step S w w'"
| on_activate: "t \<in> set (wk_tasks w) \<Longrightarrow> worker_step S w (w\<lparr>wk_runtime := slot_activate (wt_slot t) (wk_runtime w)\<rparr>)"
| on_write: "t \<in> set (wk_tasks w) \<Longrightarrow> op_key op = task_job t \<Longrightarrow> sqlite_ok S op \<Longrightarrow>
     worker_step S w (w\<lparr>wk_journal := fst (sqlite_call S now op (wk_journal w))\<rparr>)"
| on_wait: "worker_step S w (w\<lparr>wk_runtime := wait_event k x (wk_runtime w)\<rparr>)"
| on_end: "t \<in> set (wk_tasks w) \<Longrightarrow> worker_step S w (end_task t returned w)"

subsection \<open>Invariant\<close>

text \<open>
  The registry, the capacity slots and the tasks agree: every task owns the registration of its job and a slot of
  its own, no two tasks run the same job, and every slot belongs to a task.
\<close>

definition tasks_ok :: "WorkerTask list \<Rightarrow> WorkerRuntime \<Rightarrow> bool" where
  "tasks_ok ts rt \<longleftrightarrow>
     runtime_inv rt \<and> hm_wf (rt_cancellations rt) \<and> distinct (map task_job ts) \<and> distinct (map wt_slot ts) \<and>
     (\<forall>t\<in>set ts. hm_get (rt_cancellations rt) (task_job t) = Some (wt_token t)) \<and>
     (\<forall>i. hm_get (rt_slots rt) i \<noteq> None \<longleftrightarrow> i \<in> wt_slot ` set ts)"

definition worker_inv :: "serde \<Rightarrow> Worker \<Rightarrow> bool" where
  "worker_inv S w \<longleftrightarrow> sqlite_wf S (wk_journal w) \<and> tasks_ok (wk_tasks w) (wk_runtime w)"

definition registered :: "string \<Rightarrow> WorkerRuntime \<Rightarrow> WorkerRuntime" where
  "registered job rt =
     slot_queued (rt_next_token rt)
       (rt\<lparr>rt_cancellations := hm_insert job (rt_next_token rt) (rt_cancellations rt), rt_next_token := rt_next_token rt + 1\<rparr>)"

lemma register_inner_cases:
  "register_job_inner job c rt =
     (if hm_contains (rt_cancellations rt) job then (rt, Ok None)
      else if c \<and> length (rt_cancellations rt) \<ge> rt_max_jobs rt then (rt, Err (RtCapacityExhausted (rt_max_jobs rt)))
      else (registered job rt, Ok (Some (rt_next_token rt, rt_next_token rt))))"
  by (simp add: register_job_inner_def registered_def Let_def)

lemma registered_inv: "runtime_inv rt \<Longrightarrow> \<not> hm_contains (rt_cancellations rt) job \<Longrightarrow> runtime_inv (registered job rt)"
  using register_job_inner_inv[of rt job False] by (simp add: register_inner_cases)

lemma registered_sel:
  assumes "tasks_ok ts rt"
  shows "hm_get (rt_cancellations (registered job rt)) k = (if k = job then Some (rt_next_token rt) else hm_get (rt_cancellations rt) k)"
    "hm_get (rt_slots (registered job rt)) i = (if i = rt_next_token rt then Some SlotQueued else hm_get (rt_slots rt) i)"
    "hm_wf (rt_cancellations (registered job rt))"
  using assms by (auto simp: registered_def slot_queued_def tasks_ok_def runtime_inv_def)

lemma next_token_fresh: "tasks_ok ts rt \<Longrightarrow> rt_next_token rt \<notin> wt_slot ` set ts"
  unfolding tasks_ok_def runtime_inv_def by blast

lemma tasks_ok_spawn:
  assumes "tasks_ok ts rt" "\<not> hm_contains (rt_cancellations rt) (dj_job_id (jr_dispatch r))"
  shows "tasks_ok (ts @ [\<lparr>wt_record = r, wt_token = rt_next_token rt, wt_slot = rt_next_token rt\<rparr>])
    (registered (dj_job_id (jr_dispatch r)) rt)"
proof -
  have "\<forall>t\<in>set ts. task_job t \<noteq> dj_job_id (jr_dispatch r)" using assms by (auto simp: tasks_ok_def hm_contains_def)
  moreover have "runtime_inv (registered (dj_job_id (jr_dispatch r)) rt)"
    using assms by (intro registered_inv) (auto simp: tasks_ok_def)
  ultimately show ?thesis using assms next_token_fresh[OF assms(1)] registered_sel[OF assms(1)]
    by (auto simp: tasks_ok_def comp_def)
qed

text \<open>Dropping the slot of a task that is gone, after the registration of its job was removed or not.\<close>

lemma slot_drop_sel:
  "runtime_inv rt \<Longrightarrow> hm_get (rt_slots (slot_drop i rt)) j = (if j = i then None else hm_get (rt_slots rt) j)"
  "rt_cancellations (slot_drop i rt) = rt_cancellations rt"
  by (auto simp: slot_drop_def runtime_inv_def split: option.split SlotPhase.split)

lemma release_registered:
  assumes "tasks_ok ts rt" "\<not> hm_contains (rt_cancellations rt) job"
  defines "rt' \<equiv> slot_drop (rt_next_token rt) (finish_job job (registered job rt))"
  shows "tasks_ok ts rt'" "hm_get (rt_cancellations rt') = hm_get (rt_cancellations rt)"
proof -
  have inv: "runtime_inv (finish_job job (registered job rt))"
    using assms registered_inv by (simp add: finish_job_def tasks_ok_def)
  have slots: "hm_get (rt_slots rt') i = hm_get (rt_slots rt) i" for i
    using slot_drop_sel(1)[OF inv] registered_sel(2)[OF assms(1)] next_token_fresh[OF assms(1)] assms(1)
    by (auto simp: rt'_def finish_job_def tasks_ok_def)
  show c: "hm_get (rt_cancellations rt') = hm_get (rt_cancellations rt)"
    using registered_sel(1,3)[OF assms(1), of job] assms(2)
    by (auto simp: rt'_def slot_drop_sel(2) finish_job_def hm_contains_def)
  show "tasks_ok ts rt'"
    using assms(1) slot_drop_inv[OF inv] registered_sel(3)[OF assms(1)] slots c
    by (simp add: tasks_ok_def rt'_def slot_drop_sel(2) finish_job_def)
qed

lemma tasks_ok_end:
  assumes "tasks_ok ts rt" "t \<in> set ts" "\<And>k. k \<noteq> task_job t \<Longrightarrow> hm_get cs k = hm_get (rt_cancellations rt) k" "hm_wf cs"
  shows "tasks_ok (remove1 t ts) (slot_drop (wt_slot t) (rt\<lparr>rt_cancellations := cs\<rparr>))"
proof -
  have d: "distinct ts" "inj_on task_job (set ts)" "inj_on wt_slot (set ts)" and inv: "runtime_inv (rt\<lparr>rt_cancellations := cs\<rparr>)"
    using assms(1) by (auto simp: tasks_ok_def distinct_map)
  have "task_job u \<noteq> task_job t" "wt_slot u \<noteq> wt_slot t" if "u \<in> set (remove1 t ts)" for u
    using that d assms(2) by (auto simp: inj_on_def)
  then show ?thesis using assms d slot_drop_sel(1)[OF inv] slot_drop_inv[OF inv]
    by (auto simp: tasks_ok_def slot_drop_sel(2) distinct_map intro: inj_on_subset dest: inj_onD)
qed

lemma spawn_record_inv:
  assumes "worker_inv S w"
  shows "worker_inv S (spawn_record r w)" "wk_journal (spawn_record r w) = wk_journal w"
    "hm_contains (rt_cancellations (wk_runtime (spawn_record r w))) (dj_job_id (jr_dispatch r))"
  using assms tasks_ok_spawn[of "wk_tasks w" "wk_runtime w" r] registered_sel(1)[of "wk_tasks w" "wk_runtime w"]
  by (auto simp: spawn_record_def restore_job_def register_inner_cases spawn_registered_record_def worker_inv_def hm_contains_def)

text \<open>An upsert that succeeds leaves the answered record in the journal; one that fails leaves the journal as it was.\<close>

lemma upsert_dispatch_view:
  assumes "sqlite_wf S (wk_journal w)" "dispatch_exact S d" "upsert_dispatch S now d w = (w', res)"
  shows "w' = w\<lparr>wk_journal := wk_journal w'\<rparr>" "sqlite_wf S (wk_journal w')"
    "case res of Err e \<Rightarrow> sqlite_view S (wk_journal w') = sqlite_view S (wk_journal w)
     | Ok x \<Rightarrow> \<exists>q. x = Some q \<and> sqlite_view S (wk_journal w') (dj_job_id d) = Some q \<and> same_dispatch_identity (jr_dispatch q) d"
proof -
  let ?t = "wk_journal w"
  obtain t rep where t: "sqlite_upsert S now d ?t = (t, rep)" by fastforce
  have w': "w' = w\<lparr>wk_journal := t\<rparr>" "res = (case rep of Err e \<Rightarrow> Err (WeJournal e) | Ok (RRecord rec) \<Rightarrow> Ok (Some rec) | Ok _ \<Rightarrow> Ok None)"
    using assms(3) t by (simp_all add: upsert_dispatch_def)
  have ref: "sqlite_wf S t" "sqlite_view S t = (sqlite_view S ?t)(dj_job_id d := fst (spec_step (UpsertDispatch d) (sqlite_view S ?t (dj_job_id d))))"
    "rep = snd (spec_step (UpsertDispatch d) (sqlite_view S ?t (dj_job_id d)))"
    using sqlite_upsert_refines[OF assms(1,2), of now] t by (simp_all add: sqlite_refines_def)
  show "w' = w\<lparr>wk_journal := wk_journal w'\<rparr>" "sqlite_wf S (wk_journal w')" using w' ref(1) by simp_all
  show "case res of Err e \<Rightarrow> sqlite_view S (wk_journal w') = sqlite_view S (wk_journal w)
     | Ok x \<Rightarrow> \<exists>q. x = Some q \<and> sqlite_view S (wk_journal w') (dj_job_id d) = Some q \<and> same_dispatch_identity (jr_dispatch q) d"
    using w' ref by (cases "sqlite_view S ?t (dj_job_id d)") (auto simp: received_def)
qed

lemma same_identity_job: "same_dispatch_identity a b \<Longrightarrow> dj_job_id a = dj_job_id b"
  by (simp add: same_dispatch_identity_def)

text \<open>What an answer to a dispatch means.\<close>

definition accepted_ok :: "serde \<Rightarrow> DispatchJob \<Rightarrow> Worker \<Rightarrow> Worker \<Rightarrow> (WorkerError, unit) result \<Rightarrow> bool" where
  "accepted_ok S d w w' res \<longleftrightarrow>
     worker_inv S w' \<and> wk_catalog w' = wk_catalog w \<and>
     (case res of
        Err e \<Rightarrow> sqlite_view S (wk_journal w') = sqlite_view S (wk_journal w) \<and> wk_tasks w' = wk_tasks w \<and>
          hm_get (rt_cancellations (wk_runtime w')) = hm_get (rt_cancellations (wk_runtime w))
      | Ok _ \<Rightarrow> \<exists>q. sqlite_view S (wk_journal w') (dj_job_id d) = Some q \<and> same_dispatch_identity (jr_dispatch q) d \<and>
          (is_terminal (jr_state q) \<or> hm_contains (rt_cancellations (wk_runtime w')) (dj_job_id d)))"

lemma accept_new_ok:
  assumes "worker_inv S w" "dispatch_exact S d"
  shows "accepted_ok S d w (fst (accept_new S now d w)) (snd (accept_new S now d w))"
proof -
  let ?job = "dj_job_id d" and ?rt = "wk_runtime w"
  have ok: "sqlite_wf S (wk_journal w)" "tasks_ok (wk_tasks w) ?rt" using assms(1) by (auto simp: worker_inv_def)
  consider (full) "\<not> hm_contains (rt_cancellations ?rt) ?job" "length (rt_cancellations ?rt) \<ge> rt_max_jobs ?rt"
    | (owned) "hm_contains (rt_cancellations ?rt) ?job"
    | (new) "\<not> hm_contains (rt_cancellations ?rt) ?job" "length (rt_cancellations ?rt) < rt_max_jobs ?rt" by linarith
  then show ?thesis
  proof cases
    case full
    then show ?thesis using assms(1) by (simp add: accept_new_def register_job_def register_inner_cases accepted_ok_def)
  next
    case owned
    obtain w1 res where u: "upsert_dispatch S now d (w\<lparr>wk_runtime := ?rt\<rparr>) = (w1, res)" by fastforce
    note v = upsert_dispatch_view[OF _ assms(2) u]
    show ?thesis using owned u v ok v(1)[THEN arg_cong[of _ _ wk_tasks]] v(1)[THEN arg_cong[of _ _ wk_runtime]] v(1)[THEN arg_cong[of _ _ wk_catalog]]
      by (cases res) (auto simp: accept_new_def register_job_def register_inner_cases accepted_ok_def worker_inv_def)
  next
    case new
    let ?w = "w\<lparr>wk_runtime := registered ?job ?rt\<rparr>"
    obtain w1 res where u: "upsert_dispatch S now d ?w = (w1, res)" by fastforce
    note v = upsert_dispatch_view[OF _ assms(2) u, simplified, OF ok(1)]
    have w1: "wk_tasks w1 = wk_tasks w" "wk_runtime w1 = registered ?job ?rt" "wk_catalog w1 = wk_catalog w"
      by (subst v(1), simp)+
    have release: "worker_inv S (release_registration ?job (rt_next_token ?rt) w1)"
      "hm_get (rt_cancellations (wk_runtime (release_registration ?job (rt_next_token ?rt) w1))) = hm_get (rt_cancellations ?rt)"
      using release_registered[OF ok(2) new(1)] w1 v(2) by (simp_all add: worker_inv_def release_registration_def)
    have spawn: "worker_inv S (spawn_registered_record q (rt_next_token ?rt) (rt_next_token ?rt) w1)"
      if "dj_job_id (jr_dispatch q) = ?job" for q
      using tasks_ok_spawn[OF ok(2), of q] new(1) w1 v(2) that by (simp add: worker_inv_def spawn_registered_record_def)
    have owner: "hm_contains (rt_cancellations (registered ?job ?rt)) ?job"
      using registered_sel(1)[OF ok(2)] by (simp add: hm_contains_def)
    have "accept_new S now d w =
       (case res of Err e \<Rightarrow> (release_registration ?job (rt_next_token ?rt) w1, Err e)
        | Ok None \<Rightarrow> (release_registration ?job (rt_next_token ?rt) w1, Ok ())
        | Ok (Some rec) \<Rightarrow>
           if \<not> is_terminal (jr_state rec) then (spawn_registered_record rec (rt_next_token ?rt) (rt_next_token ?rt) w1, Ok ())
           else (release_registration ?job (rt_next_token ?rt) w1, Ok ()))"
      using new u by (simp add: accept_new_def register_job_def register_inner_cases split: sum.split option.split)
    then show ?thesis using v(3) release spawn owner w1 same_identity_job
      by (cases res) (auto simp: accepted_ok_def release_registration_def spawn_registered_record_def)
  qed
qed

lemma accept_dispatch_ok:
  assumes "worker_inv S w" "dispatch_exact S d"
  shows "accepted_ok S d w (fst (accept_dispatch S now d w)) (snd (accept_dispatch S now d w))"
proof -
  obtain w1 res where u: "upsert_dispatch S now d w = (w1, res)" by fastforce
  have wf: "sqlite_wf S (wk_journal w)" using assms(1) by (simp add: worker_inv_def)
  note v = upsert_dispatch_view[OF wf assms(2) u]
  have w1: "wk_tasks w1 = wk_tasks w" "wk_runtime w1 = wk_runtime w" "wk_catalog w1 = wk_catalog w" by (subst v(1), simp)+
  then have inv: "worker_inv S w1" using assms(1) v(2) by (simp add: worker_inv_def)
  note spawn = spawn_record_inv[OF inv]
  have cat: "wk_catalog (spawn_record q w1) = wk_catalog w" for q
    using w1(3) by (auto simp: spawn_record_def spawn_registered_record_def split: prod.split option.split)
  have known: "accepted_ok S d w w2 res2"
    if "(w2, res2) = (case res of Err e \<Rightarrow> (w1, Err e) | Ok None \<Rightarrow> (w1, Ok ())
      | Ok (Some rec) \<Rightarrow> (if \<not> is_terminal (jr_state rec) then spawn_record rec w1 else w1, Ok ()))" for w2 res2
  proof (cases res)
    case (Inl e)
    then show ?thesis using that v(3) w1 inv by (simp add: accepted_ok_def)
  next
    case (Inr x)
    then obtain q where q: "x = Some q" "sqlite_view S (wk_journal w1) (dj_job_id d) = Some q" "same_dispatch_identity (jr_dispatch q) d"
      using v(3) by auto
    then show ?thesis using that Inr inv spawn[of q] cat[of q] w1(3) same_identity_job[OF q(3)]
      by (cases "is_terminal (jr_state q)") (simp_all add: accepted_ok_def)
  qed
  show ?thesis
  proof (cases "catalog_validate (wk_catalog w) d")
    case (Inr x)
    obtain g where g: "snd (sqlite_get S (dj_job_id d) (wk_journal w)) = g" by blast
    show ?thesis
    proof (cases "\<exists>q. g = Ok (RMaybe (Some q))")
      case True
      then show ?thesis using Inr u g known by (auto simp: accept_dispatch_def split: sum.splits option.splits)
    next
      case False
      then have "accept_dispatch S now d w = (case g of Err e \<Rightarrow> (w, Err (WeJournal e)) | Ok _ \<Rightarrow> accept_new S now d w)"
        using Inr g by (auto simp: accept_dispatch_def split: sum.split JournalReply.split option.split)
      moreover have "accepted_ok S d w w (Err e)" for e using assms(1) by (simp add: accepted_ok_def)
      ultimately show ?thesis using accept_new_ok[OF assms] by (cases g) simp_all
    qed
  qed (use assms(1) in \<open>simp add: accept_dispatch_def accepted_ok_def\<close>)
qed

lemma worker_inv_frame:
  assumes "worker_inv S w" "runtime_inv rt" "rt_cancellations rt = rt_cancellations (wk_runtime w)"
    "\<And>i. hm_get (rt_slots rt) i \<noteq> None \<longleftrightarrow> hm_get (rt_slots (wk_runtime w)) i \<noteq> None"
  shows "worker_inv S (w\<lparr>wk_runtime := rt\<rparr>)"
  using assms by (simp add: worker_inv_def tasks_ok_def)

lemma handle_hub_message_inv:
  assumes "worker_inv S w" "\<And>d. m = HDispatchJob d \<Longrightarrow> dispatch_exact S d"
  shows "worker_inv S (fst (handle_hub_message S now show_error m w))"
proof (cases m)
  case (HDispatchJob d)
  then show ?thesis using accept_dispatch_ok[OF assms(1) assms(2)[OF HDispatchJob], of now]
    by (simp add: accepted_ok_def split_def Let_def)
next
  case (HCancelJob c)
  have "worker_inv S (w\<lparr>wk_runtime := fst (runtime_cancel_job (cj_job_id c) (wk_runtime w))\<rparr>)"
    using assms(1) by (intro worker_inv_frame[OF assms(1)]) (auto simp: runtime_cancel_job_def worker_inv_def tasks_ok_def split: option.split)
  then show ?thesis using HCancelJob by (auto simp: cancel_known_def split: prod.splits bool.splits sum.splits)
qed (use assms(1) in \<open>auto intro!: worker_inv_frame simp: worker_inv_def tasks_ok_def resolve_artifact_ticket_def
      resolve_job_event_def resolve_artifact_ack_def split: option.split\<close>)

lemma slot_activate_sel:
  "runtime_inv rt \<Longrightarrow> hm_get (rt_slots (slot_activate i rt)) j \<noteq> None \<longleftrightarrow> hm_get (rt_slots rt) j \<noteq> None"
  "rt_cancellations (slot_activate i rt) = rt_cancellations rt"
  by (auto simp: slot_activate_def runtime_inv_def)

lemma end_task_inv:
  assumes "worker_inv S w" "t \<in> set (wk_tasks w)"
  shows "worker_inv S (end_task t returned w)"
proof -
  let ?rt = "wk_runtime w"
  have ok: "tasks_ok (wk_tasks w) ?rt" "hm_wf (rt_cancellations ?rt)" using assms(1) by (auto simp: worker_inv_def tasks_ok_def)
  have "tasks_ok (remove1 t (wk_tasks w)) (slot_drop (wt_slot t) (?rt\<lparr>rt_cancellations := hm_remove (task_job t) (rt_cancellations ?rt)\<rparr>))"
    "tasks_ok (remove1 t (wk_tasks w)) (slot_drop (wt_slot t) (?rt\<lparr>rt_cancellations := rt_cancellations ?rt\<rparr>))"
    using ok assms(2) by (intro tasks_ok_end; simp)+
  then show ?thesis using assms(1) by (simp add: worker_inv_def end_task_def finish_job_def)
qed

lemma worker_step_inv: "worker_step S w w' \<Longrightarrow> worker_inv S w \<Longrightarrow> worker_inv S w'"
proof (induction rule: worker_step.induct)
  case (on_message now show_error m w w' sent r)
  then show ?case using handle_hub_message_inv[of S w m now show_error] by simp
next
  case (on_activate t w)
  then show ?case using slot_activate_inv slot_activate_sel by (intro worker_inv_frame) (auto simp: worker_inv_def tasks_ok_def)
next
  case (on_write t w op now)
  then show ?case using sqlite_call_refines[of S "wk_journal w" op now] by (auto simp: worker_inv_def sqlite_refines_def)
next
  case (on_wait w k x)
  then show ?case by (intro worker_inv_frame) (auto simp: worker_inv_def tasks_ok_def wait_event_def)
next
  case (on_end t w returned)
  then show ?case by (intro end_task_inv)
qed

lemma worker_start_inv: "sqlite_wf S journal \<Longrightarrow> worker_inv S (worker_start catalog p q journal)"
  by (simp add: worker_inv_def worker_start_def tasks_ok_def runtime_inv_new)
     (simp add: runtime_with_capacity_def)

lemma resume_inv: "worker_inv S w \<Longrightarrow> worker_inv S (fst (resume_unfinished S w))"
proof -
  have "worker_inv S (fold spawn_record rs w)" if "worker_inv S w" for rs w
    using that by (induction rs arbitrary: w) (auto intro: spawn_record_inv)
  then show "worker_inv S w \<Longrightarrow> worker_inv S (fst (resume_unfinished S w))"
    by (auto simp: resume_unfinished_def split: sum.split)
qed

subsection \<open>Dispatches\<close>

text \<open>A job that already has a run, or is over, gets no other run.\<close>

lemma spawn_record_owned:
  "hm_contains (rt_cancellations (wk_runtime w)) (dj_job_id (jr_dispatch r)) \<Longrightarrow> wk_tasks (spawn_record r w) = wk_tasks w"
  by (simp add: spawn_record_def restore_job_def register_inner_cases)

lemma accept_again:
  assumes "worker_inv S w" "dispatch_exact S d" "sqlite_view S (wk_journal w) (dj_job_id d) = Some q"
    "is_terminal (jr_state q) \<or> hm_contains (rt_cancellations (wk_runtime w)) (dj_job_id d)"
  shows "wk_tasks (fst (accept_dispatch S now d w)) = wk_tasks w"
proof (cases "catalog_validate (wk_catalog w) d")
  case (Inr x)
  have wf: "sqlite_wf S (wk_journal w)" using assms(1) by (simp add: worker_inv_def)
  obtain w1 res where u: "upsert_dispatch S now d w = (w1, res)" by fastforce
  note v = upsert_dispatch_view[OF wf assms(2) u]
  have w1: "wk_tasks w1 = wk_tasks w" "wk_runtime w1 = wk_runtime w" by (subst v(1), simp)+
  have get: "snd (sqlite_get S (dj_job_id d) (wk_journal w)) = Ok (RMaybe (Some q))"
    using assms(3) by (auto simp: sqlite_get_def sqlite_view_def split: option.splits sum.splits)
  have st: "is_terminal (jr_state r) = is_terminal (jr_state q)" "dj_job_id (jr_dispatch r) = dj_job_id d" if "res = Ok (Some r)" for r
    using that u assms(3) v(3) sqlite_upsert_refines[OF wf assms(2), of now] same_identity_job[of "jr_dispatch r" d]
    by (auto simp: upsert_dispatch_def sqlite_refines_def split: prod.splits sum.splits JournalReply.splits if_splits)
  show ?thesis
  proof (cases res)
    case (Inr y)
    then obtain r where "y = Some r" using v(3) by auto
    then show ?thesis using Inr get u w1 \<open>catalog_validate _ _ = _\<close> st[of r] assms(4) spawn_record_owned[of w1 r]
      by (auto simp: accept_dispatch_def)
  qed (use Inr get u w1 in \<open>simp add: accept_dispatch_def\<close>)
qed (simp add: accept_dispatch_def)

text \<open>
  C38: The answer to a dispatch tells the truth. A dispatch that the worker accepts is durable: the journal holds the
  job with the content of the dispatch, and either the job is over or the worker has registered it for a
  run. A dispatch that it refuses leaves the journal, the registry and the tasks as they were. Sending an
  accepted dispatch again starts no second run.
\<close>

theorem dispatch_ack_exact:
  assumes "worker_inv S w" "dispatch_exact S d" "handle_hub_message S now show_error (HDispatchJob d) w = (w', sent, res)"
  shows "\<exists>a. sent = [WCommandAck a] \<and> ca_command_id a = dj_command_id d \<and> res = Ok () \<and>
    (if ca_accepted a
     then (\<exists>q. sqlite_view S (wk_journal w') (dj_job_id d) = Some q \<and> same_dispatch_identity (jr_dispatch q) d \<and>
             (is_terminal (jr_state q) \<or> hm_contains (rt_cancellations (wk_runtime w')) (dj_job_id d))) \<and>
          (\<forall>now'. wk_tasks (fst (handle_hub_message S now' show_error (HDispatchJob d) w')) = wk_tasks w')
     else sqlite_view S (wk_journal w') = sqlite_view S (wk_journal w) \<and> wk_tasks w' = wk_tasks w \<and>
          hm_get (rt_cancellations (wk_runtime w')) = hm_get (rt_cancellations (wk_runtime w)))"
proof -
  obtain w1 r where a: "accept_dispatch S now d w = (w1, r)" by fastforce
  have ok: "accepted_ok S d w w1 r" using accept_dispatch_ok[OF assms(1,2), of now] a by simp
  have w1: "w' = w1" "res = Ok ()"
    "sent = [WCommandAck \<lparr>ca_command_id = dj_command_id d, ca_accepted = \<not> isl r,
       ca_message = (case r of Err e \<Rightarrow> take_chars 512 (show_error e) | Ok _ \<Rightarrow> [])\<rparr>]"
    using assms(3) a by (auto simp: Let_def)
  show ?thesis
  proof (cases r)
    case (Inl e)
    then show ?thesis using ok w1 by (auto simp: accepted_ok_def)
  next
    case (Inr u)
    then obtain q where q: "sqlite_view S (wk_journal w1) (dj_job_id d) = Some q" "same_dispatch_identity (jr_dispatch q) d"
      "is_terminal (jr_state q) \<or> hm_contains (rt_cancellations (wk_runtime w1)) (dj_job_id d)"
      using ok by (auto simp: accepted_ok_def)
    have "worker_inv S w1" using ok by (simp add: accepted_ok_def)
    from accept_again[OF this assms(2) q(1,3)] show ?thesis using Inr w1 q by (auto simp: Let_def split_def)
  qed
qed

subsection \<open>Tasks and recovery\<close>

lemma tasks_counted:
  assumes "tasks_ok ts rt"
  shows "rt_active_jobs rt + rt_queued_jobs rt = length ts"
proof -
  let ?p = "\<lambda>p. phase_slots p (rt_slots rt)"
  have "?p SlotActive \<union> ?p SlotQueued = wt_slot ` set ts"
  proof (intro set_eqI)
    fix i
    have "i \<in> ?p SlotActive \<union> ?p SlotQueued \<longleftrightarrow> hm_get (rt_slots rt) i \<noteq> None"
      by (cases "hm_get (rt_slots rt) i") (auto simp: phase_mem intro: SlotPhase.exhaust)
    then show "i \<in> ?p SlotActive \<union> ?p SlotQueued \<longleftrightarrow> i \<in> wt_slot ` set ts" using assms by (simp add: tasks_ok_def)
  qed
  moreover have "card (?p SlotActive \<union> ?p SlotQueued) = card (?p SlotActive) + card (?p SlotQueued)"
    by (intro card_Un_disjoint) (auto simp: phase_mem)
  moreover have "card (wt_slot ` set ts) = length ts"
    using assms distinct_card[of "map wt_slot ts"] by (simp add: tasks_ok_def)
  ultimately show ?thesis using assms by (simp add: tasks_ok_def runtime_inv_def phase_count_def)
qed

text \<open>When only tasks hold registrations, a run of restorations gives every listed job a task and only listed records to tasks.\<close>

definition only_tasks :: "Worker \<Rightarrow> bool" where
  "only_tasks w \<longleftrightarrow> (\<forall>k. hm_contains (rt_cancellations (wk_runtime w)) k \<longleftrightarrow> k \<in> task_job ` set (wk_tasks w))"

lemma spawn_tasks:
  assumes "worker_inv S w" "only_tasks w"
  shows "wt_record ` set (wk_tasks (spawn_record r w)) \<subseteq> insert r (wt_record ` set (wk_tasks w))"
    "task_job ` set (wk_tasks (spawn_record r w)) = insert (dj_job_id (jr_dispatch r)) (task_job ` set (wk_tasks w))"
    "only_tasks (spawn_record r w)"
  using assms registered_sel(1)[of "wk_tasks w" "wk_runtime w"]
  by (auto simp: only_tasks_def spawn_record_def restore_job_def register_inner_cases spawn_registered_record_def worker_inv_def hm_contains_def)

lemma fold_spawn:
  assumes "worker_inv S w" "only_tasks w"
  shows "worker_inv S (fold spawn_record rs w) \<and> wk_journal (fold spawn_record rs w) = wk_journal w \<and>
    wt_record ` set (wk_tasks (fold spawn_record rs w)) \<subseteq> wt_record ` set (wk_tasks w) \<union> set rs \<and>
    task_job ` set (wk_tasks (fold spawn_record rs w)) = task_job ` set (wk_tasks w) \<union> (\<lambda>r. dj_job_id (jr_dispatch r)) ` set rs"
  using assms
proof (induction rs arbitrary: w)
  case (Cons r rs)
  note IH = Cons.IH[OF spawn_record_inv(1)[OF Cons.prems(1)] spawn_tasks(3)[OF Cons.prems], of r]
  have "wt_record ` set (wk_tasks (fold spawn_record (r # rs) w)) \<subseteq> wt_record ` set (wk_tasks w) \<union> set (r # rs)"
    using IH spawn_tasks(1)[OF Cons.prems, of r] by (simp del: image_subset_iff) blast
  then show ?case using IH spawn_record_inv(2)[OF Cons.prems(1)] spawn_tasks(2)[OF Cons.prems, of r] by auto
qed simp

lemma listed_key: "sqlite_wf S t \<Longrightarrow> sqlite_view S t k = Some r \<Longrightarrow> dj_job_id (jr_dispatch r) = k"
  by (auto simp: sqlite_wf_def sqlite_row_ok_def sqlite_view_def split: option.splits sum.splits)

text \<open>
  C39: A restarted worker resumes exactly what its journal holds. On a well-formed journal the resumption succeeds,
  and afterwards the tasks run precisely the records that are unfinished or have an
  unacknowledged event, each once, also when there are more of them than the configured capacity; and
  over everything that follows (messages of the Hub, tasks that write, end or panic) no two tasks run the same job and
  the sum of the two counters of the heartbeat is the number of tasks.
\<close>

theorem resumed_worker_exact:
  assumes "sqlite_wf S journal"
  shows "\<exists>w. resume_unfinished S (worker_start catalog parallelism queue_depth journal) = (w, Ok ()) \<and>
    wt_record ` set (wk_tasks w) = {r. \<exists>k. sqlite_view S journal k = Some r \<and> needs_recovery r} \<and>
    (\<forall>w'. (worker_step S)\<^sup>*\<^sup>* w w' \<longrightarrow> distinct (map task_job (wk_tasks w')) \<and>
       rt_active_jobs (wk_runtime w') + rt_queued_jobs (wk_runtime w') = length (wk_tasks w'))"
proof -
  let ?w = "worker_start catalog parallelism queue_depth journal"
  obtain rs where rs: "sqlite_list_unfinished S journal = Ok rs"
    "set rs = {r. \<exists>k. sqlite_view S journal k = Some r \<and> needs_recovery r}"
    using sqlite_list_unfinished_exact[OF assms] by blast
  let ?v = "fold spawn_record rs ?w"
  have "only_tasks ?w" by (simp add: only_tasks_def worker_start_def runtime_with_capacity_def hm_contains_def)
  from fold_spawn[OF worker_start_inv[OF assms] this, of rs]
  have v: "worker_inv S ?v" "wt_record ` set (wk_tasks ?v) \<subseteq> set rs"
    "task_job ` set (wk_tasks ?v) = (\<lambda>r. dj_job_id (jr_dispatch r)) ` set rs" by (simp_all add: worker_start_def)
  have "r \<in> wt_record ` set (wk_tasks ?v)" if r: "r \<in> set rs" for r
  proof -
    from v(3) r obtain t where t: "t \<in> set (wk_tasks ?v)" "task_job t = dj_job_id (jr_dispatch r)" by (metis (mono_tags, lifting) image_iff)
    then have "wt_record t \<in> set rs" using v(2) by blast
    then have "wt_record t = r" using t(2) r listed_key[OF assms] unfolding rs(2) by force
    then show ?thesis using t(1) by blast
  qed
  then have "wt_record ` set (wk_tasks ?v) = set rs" using v(2) by blast
  moreover have "worker_inv S w'" if "(worker_step S)\<^sup>*\<^sup>* ?v w'" for w'
    using that by (induction rule: rtranclp_induct) (auto intro: v(1) worker_step_inv)
  then have "distinct (map task_job (wk_tasks w')) \<and> rt_active_jobs (wk_runtime w') + rt_queued_jobs (wk_runtime w') = length (wk_tasks w')"
    if "(worker_step S)\<^sup>*\<^sup>* ?v w'" for w'
    using that tasks_counted by (auto simp: worker_inv_def tasks_ok_def)
  ultimately show ?thesis using rs by (intro exI[of _ ?v]) (simp add: resume_unfinished_def worker_start_def)
qed

subsection \<open>Reconnecting\<close>

lemma unat_saturating_mul: "unat (saturating_mul a b) = min (unat a * unat b) (2 ^ LENGTH('a) - 1)" for a b :: "'a::len word"
proof (cases "unat a * unat b < 2 ^ LENGTH('a)")
  case True
  then show ?thesis by (simp add: saturating_mul_def unat_word_ariths)
next
  case False
  then have "2 ^ LENGTH('a) - 1 \<le> unat a * unat b" by linarith
  then show ?thesis using False by (simp add: saturating_mul_def unsigned_minus_1_eq_mask mask_eq_exp_minus_1)
qed

text \<open>
  The delays between connection attempts double from one second up to the configured maximum, at
  least one second, and never wrap around: the delay after \<open>n\<close> failures is the smaller of \<open>2 ^ n\<close> and the maximum.
\<close>

theorem reconnect_delay_exact:
  "i < n \<Longrightarrow> unat (reconnect_delays reconnect_max 1 n ! i) = min (2 ^ i) (max (unat reconnect_max) 1)"
proof -
  have max1: "unat (max m 1) = max (unat m) 1" for m :: u64 by (simp add: max_def word_le_nat_alt)
  have "unat (reconnect_delays m delay n ! i) = min (2 ^ (i + k)) (max (unat m) 1)"
    if "i < n" "unat delay = min (2 ^ k) (max (unat m) 1)" for m delay :: u64 and i k n
    using that
  proof (induction n arbitrary: i k delay)
    case (Suc n)
    let ?m = "max (unat m) 1"
    have "?m < 2 ^ 64" using unsigned_less[of m] by simp
    then have "unat (next_delay m delay) = min (2 ^ Suc k) ?m"
      using Suc.prems(2) by (auto simp: next_delay_def min_def word_le_nat_alt unat_saturating_mul max1)
    then show ?case using Suc.IH[of "i - 1" "next_delay m delay" "Suc k"] Suc.prems by (cases i) auto
  qed simp
  from this[of i n 1 0 reconnect_max] show "i < n \<Longrightarrow> ?thesis" by simp
qed

subsection \<open>Examples\<close>

definition sample_worker :: "worker_jobs \<Rightarrow> Worker" where
  "sample_worker journal = worker_start [((''w'', ''1''), sample_entry)] 1 1 journal"

lemma sample_job_valid: "catalog_validate [((''w'', ''1''), sample_entry)] (sample_job []) = Ok ()"
  by code_simp

theorem dispatch_ack_exact_witness:
  "\<exists>w' a q. handle_hub_message (re_serde (calm_world False)) 0 (\<lambda>e. []) (HDispatchJob (sample_job [])) (sample_worker []) =
       (w', [WCommandAck a], Ok ()) \<and> ca_accepted a \<and> sqlite_view (re_serde (calm_world False)) (wk_journal w') ''j'' = Some q"
proof -
  let ?S = "re_serde (calm_world False)"
  obtain w' sent res where h: "handle_hub_message ?S 0 (\<lambda>e. []) (HDispatchJob (sample_job [])) (sample_worker []) = (w', sent, res)"
    using prod_cases3 by blast
  have inv: "worker_inv ?S (sample_worker [])" unfolding sample_worker_def by (rule worker_start_inv) (simp add: sqlite_wf_def)
  have ex: "dispatch_exact ?S (sample_job [])" by (simp add: dispatch_exact_def calm_world_def)
  have acc: "\<not> isl (snd (accept_dispatch ?S 0 (sample_job []) (sample_worker [])))"
    using sample_job_valid
    by (simp add: sample_worker_def worker_start_def accept_dispatch_def sqlite_get_def accept_new_def register_job_def
        register_inner_cases runtime_with_capacity_def hm_contains_def upsert_dispatch_def sqlite_upsert_def calm_world_def
        received_def is_terminal_def)
  show ?thesis using dispatch_ack_exact[OF inv ex h] h acc by (fastforce simp: Let_def split_def sample_job_def)
qed

theorem resumed_worker_exact_witness:
  "\<exists>w. resume_unfinished (re_serde (calm_world False)) (sample_worker (calm_journal Received)) = (w, Ok ()) \<and>
     calm_record Received \<in> wt_record ` set (wk_tasks w)"
  using resumed_worker_exact[OF calm_journal_at(1)[of False Received], of "[((''w'', ''1''), sample_entry)]" 1 1]
    calm_journal_at(2)[of False Received]
  by (auto simp: sample_worker_def needs_recovery_def calm_record_def is_terminal_def)

theorem reconnect_delay_exact_witness: "unat (reconnect_delays 60 1 8 ! 7) = 60 \<and> unat (reconnect_delays 60 1 8 ! 3) = 8"
  using reconnect_delay_exact[of 7 8 60] reconnect_delay_exact[of 3 8 60] by simp

end
