(* ===== verification/Account_Store.thy ===== *)
theory Account_Store
  imports Auth Hub_Store
begin

text \<open>
  The accounts of the durable store, \<open>crates/nagisalake-hub-store\<close>: users, federated identities and
  authorization requests (\<open>accounts.rs\<close>), organizations and memberships (\<open>organizations.rs\<close>). The sessions,
  invitations and credentials that refer to them are operated on in \<open>Account_Access\<close>.
  The tables come with the primary keys, unique indexes, foreign keys and cascades of the
  migrations; a method is one atomic step, and its clock and its fresh identifiers are arguments. The quota rows and the
  devices are those of \<open>Hub_Store\<close>.
\<close>

subsection \<open>Tables\<close>

record User =
  us_id :: string
  us_email :: string
  us_password_hash :: "string option"
  us_status :: string
  us_email_verified_at :: "i64 option"
  us_created_at :: i64
  us_updated_at :: i64

record users_row =
  ur_user :: User
  ur_email_normalized :: string
  ur_failed_login_attempts :: i64
  ur_locked_until :: "i64 option"

record Organization =
  og_name :: string
  og_status :: string
  og_created_at :: i64
  og_updated_at :: i64

record memberships_row =
  mb_role :: string
  mb_created_at :: i64
  mb_updated_at :: i64

record BrowserSession =
  bs_id :: string
  bs_user_id :: string
  bs_organization_id :: string
  bs_family_id :: string
  bs_csrf_token_hash :: string
  bs_access_expires_at :: i64
  bs_refresh_expires_at :: i64
  bs_revoked_at :: "i64 option"

record browser_sessions_row =
  sn_session :: BrowserSession
  sn_access_token_hash :: string
  sn_refresh_token_hash :: string
  sn_created_at :: i64
  sn_last_seen_at :: i64

record ApiKeyRow =
  akr_id :: string
  akr_organization_id :: string
  akr_creator_user_id :: string
  akr_name :: string
  akr_prefix :: string
  akr_scopes :: string
  akr_created_at :: i64
  akr_last_used_at :: "i64 option"
  akr_expires_at :: "i64 option"
  akr_revoked_at :: "i64 option"

record WorkerCredential =
  wcr_id :: string
  wcr_organization_id :: string
  wcr_owner_user_id :: "string option"
  wcr_name :: string
  wcr_token_prefix :: string
  wcr_allowed_namespace :: "string option"
  wcr_created_at :: i64
  wcr_last_used_at :: "i64 option"
  wcr_expires_at :: "i64 option"
  wcr_revoked_at :: "i64 option"

record OrganizationInviteRow =
  oir_id :: string
  oir_organization_id :: string
  oir_inviter_user_id :: string
  oir_code_prefix :: string
  oir_role :: string
  oir_created_at :: i64
  oir_expires_at :: i64
  oir_accepted_at :: "i64 option"
  oir_accepted_by_user_id :: "string option"
  oir_revoked_at :: "i64 option"

record user_identities_row =
  ui_user_id :: string
  ui_email :: "string option"
  ui_email_verified :: bool
  ui_created_at :: i64
  ui_last_login_at :: "i64 option"

record OauthAuthorization =
  oa_provider :: string
  oa_pkce_verifier :: string
  oa_redirect_path :: string

record oauth_authorizations_row =
  ox_authorization :: OauthAuthorization
  ox_created_at :: i64
  ox_expires_at :: i64
  ox_consumed_at :: "i64 option"

record AuditLog =
  al_organization_id :: "string option"
  al_actor_id :: "string option"
  al_actor_kind :: "string option"
  al_request_id :: "string option"
  al_action :: string
  al_resource_type :: string
  al_resource_id :: "string option"
  al_outcome :: string
  al_metadata_json :: string
  al_created_at :: i64

text \<open>The unique columns of keys, credentials and invitations are stored beside the row.\<close>

record AccountDb =
  ac_users :: "(string, users_row) hash_map"
  ac_organizations :: "(string, Organization) hash_map"
  ac_memberships :: "(key2, memberships_row) hash_map"
  ac_sessions :: "(string, browser_sessions_row) hash_map"
  ac_api_keys :: "(string, string \<times> ApiKeyRow) hash_map"
  ac_worker_credentials :: "(string, string \<times> WorkerCredential) hash_map"
  ac_invites :: "(string, string \<times> OrganizationInviteRow) hash_map"
  ac_identities :: "(key2, user_identities_row) hash_map"
  ac_oauth :: "(string, oauth_authorizations_row) hash_map"
  ac_audit :: "(string, AuditLog) hash_map"
  ac_db :: Db

record Membership =
  ms_organization_id :: string
  ms_user_id :: string
  ms_role :: Role
  ms_organization_name :: string

definition role_or_viewer :: "string \<Rightarrow> Role" where
  "role_or_viewer s = (case role_from_str s of Ok r \<Rightarrow> r | Err _ \<Rightarrow> Viewer)"

definition normalize_email :: "string \<Rightarrow> string" where
  "normalize_email email = ascii_lowercase (trim email)"

definition DEFAULT_MAX_CONCURRENT_JOBS :: i64 where
  "DEFAULT_MAX_CONCURRENT_JOBS = 1"

text \<open>The rows of a new organization; the remaining columns of its policy have the defaults of the schema.\<close>

definition new_quota_policy :: quota_policies_row where
  "new_quota_policy =
     \<lparr>qp_max_concurrent_jobs = DEFAULT_MAX_CONCURRENT_JOBS, qp_max_storage_bytes = 10737418240, qp_max_jobs_per_period = 1000,
      qp_period_seconds = 2592000, qp_max_batch_jobs = 100\<rparr>"

definition new_quota_usage :: "i64 \<Rightarrow> quota_usage_row" where
  "new_quota_usage now =
     \<lparr>qu_active_jobs = 0, qu_storage_bytes = 0, qu_period_jobs = 0, qu_period_started_at = now, qu_updated_at = now\<rparr>"

definition insert_quota :: "string \<Rightarrow> i64 \<Rightarrow> Db \<Rightarrow> Db" where
  "insert_quota org now db =
     db\<lparr>db_quota_policies := hm_insert org new_quota_policy (db_quota_policies db),
        db_quota_usage := hm_insert org (new_quota_usage now) (db_quota_usage db)\<rparr>"

subsection \<open>Organizations\<close>

definition new_organization :: "string \<Rightarrow> i64 \<Rightarrow> Organization" where
  "new_organization name now = \<lparr>og_name = name, og_status = ''active'', og_created_at = now, og_updated_at = now\<rparr>"

definition new_membership :: "string \<Rightarrow> i64 \<Rightarrow> memberships_row" where
  "new_membership role now = \<lparr>mb_role = role, mb_created_at = now, mb_updated_at = now\<rparr>"

definition ensure_organization :: "string \<Rightarrow> string \<Rightarrow> i64 \<Rightarrow> AccountDb \<Rightarrow> AccountDb" where
  "ensure_organization org name now A =
     (let db = ac_db A
      in A\<lparr>ac_organizations :=
             (if hm_contains (ac_organizations A) org then ac_organizations A
              else hm_insert org (new_organization name now) (ac_organizations A)),
           ac_db := db\<lparr>db_quota_policies :=
               (if hm_contains (db_quota_policies db) org then db_quota_policies db
                else hm_insert org new_quota_policy (db_quota_policies db)),
             db_quota_usage :=
               (if hm_contains (db_quota_usage db) org then db_quota_usage db
                else hm_insert org (new_quota_usage now) (db_quota_usage db))\<rparr>\<rparr>)"

text \<open>Inserting an organization with its owner and quota; a taken identifier or an unknown user fails the transaction.\<close>

definition insert_owned_organization ::
  "string \<Rightarrow> string \<Rightarrow> string \<Rightarrow> i64 \<Rightarrow> AccountDb \<Rightarrow> (StoreError, AccountDb) result" where
  "insert_owned_organization user org name now A =
     (if hm_contains (ac_organizations A) org \<or> \<not> hm_contains (ac_users A) user \<or>
         hm_contains (ac_memberships A) (org, user) \<or> hm_contains (db_quota_policies (ac_db A)) org \<or>
         hm_contains (db_quota_usage (ac_db A)) org
      then Err Database
      else Ok (A\<lparr>ac_organizations := hm_insert org (new_organization name now) (ac_organizations A),
                 ac_memberships := hm_insert (org, user) (new_membership ''owner'' now) (ac_memberships A),
                 ac_db := insert_quota org now (ac_db A)\<rparr>))"

definition create_organization_for_user ::
  "string \<Rightarrow> string \<Rightarrow> string \<Rightarrow> i64 \<Rightarrow> AccountDb \<Rightarrow> AccountDb \<times> (StoreError, Membership) result" where
  "create_organization_for_user user org name now A =
     (case insert_owned_organization user org name now A of
        Err e \<Rightarrow> (A, Err e)
      | Ok A1 \<Rightarrow> (A1, Ok \<lparr>ms_organization_id = org, ms_user_id = user, ms_role = Owner, ms_organization_name = name\<rparr>))"

definition organization :: "string \<Rightarrow> AccountDb \<Rightarrow> Organization option" where
  "organization org A = hm_get (ac_organizations A) org"

definition membership :: "string \<Rightarrow> string \<Rightarrow> AccountDb \<Rightarrow> Membership option" where
  "membership org user A =
     (case (hm_get (ac_memberships A) (org, user), hm_get (ac_organizations A) org) of
        (Some m, Some o') \<Rightarrow> Some \<lparr>ms_organization_id = org, ms_user_id = user, ms_role = role_or_viewer (mb_role m),
                                 ms_organization_name = og_name o'\<rparr>
      | _ \<Rightarrow> None)"

definition memberships_for_user :: "string \<Rightarrow> AccountDb \<Rightarrow> Membership list" where
  "memberships_for_user user A =
     sort_key ms_organization_name
       (List.map_filter (\<lambda>((org, u), m). if u = user then membership org user A else None) (ac_memberships A))"

text \<open>The members of an organization, locked by \<open>FOR UPDATE\<close>, and how many of them own it.\<close>

definition members_locked :: "string \<Rightarrow> AccountDb \<Rightarrow> (string \<times> string) list" where
  "members_locked org A = map (\<lambda>((o', u), m). (u, mb_role m)) (filter (\<lambda>((o', u), m). o' = org) (ac_memberships A))"

definition owner_count :: "string \<Rightarrow> AccountDb \<Rightarrow> nat" where
  "owner_count org A = length (filter (\<lambda>(u, role). role = ''owner'') (members_locked org A))"

definition set_member_role ::
  "string \<Rightarrow> string \<Rightarrow> Role \<Rightarrow> i64 \<Rightarrow> AccountDb \<Rightarrow> AccountDb \<times> (StoreError, bool) result" where
  "set_member_role org user role now A =
     (case hm_get (ac_memberships A) (org, user) of
        None \<Rightarrow> (A, Ok False)
      | Some m \<Rightarrow>
          if mb_role m = ''owner'' \<and> role \<noteq> Owner \<and> owner_count org A = 1
          then (A, Err (SConflict ''the last organization owner cannot be demoted''))
          else (A\<lparr>ac_memberships := hm_insert (org, user) (m\<lparr>mb_role := role_name role, mb_updated_at := now\<rparr>) (ac_memberships A)\<rparr>, Ok True))"

subsection \<open>Cascades\<close>

text \<open>Deleting memberships takes the sessions, keys and invitations that refer to them along.\<close>

definition delete_memberships :: "(key2 \<Rightarrow> bool) \<Rightarrow> AccountDb \<Rightarrow> AccountDb" where
  "delete_memberships p A =
     A\<lparr>ac_memberships := hm_retain (\<lambda>k _. \<not> p k) (ac_memberships A),
       ac_sessions := hm_retain (\<lambda>_ s. \<not> p (bs_organization_id (sn_session s), bs_user_id (sn_session s))) (ac_sessions A),
       ac_api_keys := hm_retain (\<lambda>_ (h, k). \<not> p (akr_organization_id k, akr_creator_user_id k)) (ac_api_keys A),
       ac_invites := hm_retain (\<lambda>_ (h, i). \<not> p (oir_organization_id i, oir_inviter_user_id i)) (ac_invites A)\<rparr>"

definition remove_member ::
  "string \<Rightarrow> string \<Rightarrow> i64 \<Rightarrow> AccountDb \<Rightarrow> AccountDb \<times> (StoreError, string list option) result" where
  "remove_member org user now A =
     (case hm_get (ac_memberships A) (org, user) of
        None \<Rightarrow> (A, Ok None)
      | Some m \<Rightarrow>
          if mb_role m = ''owner'' \<and> owner_count org A = 1
          then (A, Err (SConflict ''the last organization owner cannot be removed''))
          else
            let mine = (\<lambda>c. wcr_organization_id c = org \<and> wcr_owner_user_id c = Some user);
                ids = map fst (filter (\<lambda>(i, h, c). mine c) (ac_worker_credentials A));
                creds = map (\<lambda>(i, h, c). (i, h, if mine c then c\<lparr>wcr_revoked_at := coalesce (wcr_revoked_at c) (Some now)\<rparr> else c))
                  (ac_worker_credentials A)
            in (delete_memberships (\<lambda>k. k = (org, user)) (A\<lparr>ac_worker_credentials := creds\<rparr>), Ok (Some ids)))"

definition transfer_owner ::
  "string \<Rightarrow> string \<Rightarrow> string \<Rightarrow> i64 \<Rightarrow> AccountDb \<Rightarrow> AccountDb \<times> (StoreError, unit) result" where
  "transfer_owner org from_user to_user now A =
     (if from_user = to_user then (A, Err (SConflict ''owner transfer target must be another member''))
      else if \<not> (case hm_get (ac_memberships A) (org, from_user) of None \<Rightarrow> False | Some m \<Rightarrow> mb_role m = ''owner'')
      then (A, Err (SConflict ''owner transfer initiator is not an owner''))
      else if \<not> hm_contains (ac_memberships A) (org, to_user) then (A, Err (SNotFound ''owner transfer target''))
      else (A\<lparr>ac_memberships :=
              update_key (org, to_user) (\<lambda>m. m\<lparr>mb_role := ''owner'', mb_updated_at := now\<rparr>)
                (update_key (org, from_user) (\<lambda>m. m\<lparr>mb_role := ''admin'', mb_updated_at := now\<rparr>) (ac_memberships A))\<rparr>, Ok ()))"

text \<open>Every table of \<open>Hub_Store\<close> has the organization in its key and refers to it with a cascade.\<close>

definition delete_organization_rows :: "string \<Rightarrow> Db \<Rightarrow> Db" where
  "delete_organization_rows org db =
     db\<lparr>db_jobs := hm_retain (\<lambda>k _. fst k \<noteq> org) (db_jobs db),
        db_job_events := hm_retain (\<lambda>k _. fst k \<noteq> org) (db_job_events db),
        db_quota_policies := hm_remove org (db_quota_policies db),
        db_quota_usage := hm_remove org (db_quota_usage db),
        db_usage_ledger := filter (\<lambda>k. fst k \<noteq> org) (db_usage_ledger db),
        db_dispatch_outbox := hm_retain (\<lambda>k _. fst k \<noteq> org) (db_dispatch_outbox db),
        db_idempotency := hm_retain (\<lambda>k _. fst k \<noteq> org) (db_idempotency db),
        db_artifacts := hm_retain (\<lambda>k _. fst k \<noteq> org) (db_artifacts db),
        db_upload_requests := hm_retain (\<lambda>k _. fst k \<noteq> org) (db_upload_requests db),
        db_workers := hm_retain (\<lambda>k _. fst k \<noteq> org) (db_workers db),
        db_device_grants := hm_retain (\<lambda>k _. fst k \<noteq> org) (db_device_grants db),
        db_job_batches := hm_retain (\<lambda>k _. fst k \<noteq> org) (db_job_batches db),
        db_job_dispatch_queue := hm_retain (\<lambda>k _. fst k \<noteq> org) (db_job_dispatch_queue db),
        db_job_input_artifacts := hm_retain (\<lambda>k _. fst k \<noteq> org) (db_job_input_artifacts db),
        db_batch_idempotency := hm_retain (\<lambda>k _. fst k \<noteq> org) (db_batch_idempotency db)\<rparr>"

definition delete_organization :: "string \<Rightarrow> AccountDb \<Rightarrow> AccountDb \<times> bool" where
  "delete_organization org A =
     (let A1 = A\<lparr>ac_audit := hm_retain (\<lambda>_ l. al_organization_id l \<noteq> Some org) (ac_audit A)\<rparr>
      in if hm_contains (ac_organizations A) org
         then (delete_memberships (\<lambda>k. fst k = org)
                 (A1\<lparr>ac_organizations := hm_remove org (ac_organizations A),
                     ac_worker_credentials := hm_retain (\<lambda>_ (h, c). wcr_organization_id c \<noteq> org) (ac_worker_credentials A),
                     ac_db := delete_organization_rows org (ac_db A)\<rparr>), True)
         else (A1, False))"

definition delete_user :: "string \<Rightarrow> AccountDb \<Rightarrow> AccountDb \<times> (StoreError, string list) result" where
  "delete_user user A =
     (if \<exists>((o', u), m) \<in> set (ac_memberships A). u = user \<and> mb_role m = ''owner''
      then (A, Err (SConflict ''transfer ownership or delete owned organizations before deleting the account''))
      else if \<not> hm_contains (ac_users A) user then (A, Err (SNotFound ''user''))
      else
        let mine = (\<lambda>c. wcr_owner_user_id c = Some user);
            ids = map fst (filter (\<lambda>(i, h, c). mine c) (ac_worker_credentials A));
            A1 = A\<lparr>ac_audit := map (\<lambda>(i, l). (i, if al_actor_id l = Some user then l\<lparr>al_actor_id := None\<rparr> else l)) (ac_audit A),
                   ac_db := (ac_db A)\<lparr>db_workers := hm_retain (\<lambda>_ w. w_owner_user_id w \<noteq> Some user) (db_workers (ac_db A))\<rparr>,
                   ac_worker_credentials := hm_retain (\<lambda>_ (h, c). \<not> mine c) (ac_worker_credentials A),
                   ac_users := hm_remove user (ac_users A),
                   ac_identities := hm_retain (\<lambda>_ i. ui_user_id i \<noteq> user) (ac_identities A),
                   ac_invites := map (\<lambda>(i, h, v). (i, h, if oir_accepted_by_user_id v = Some user then v\<lparr>oir_accepted_by_user_id := None\<rparr> else v))
                     (ac_invites A)\<rparr>
        in (delete_memberships (\<lambda>k. snd k = user) A1, Ok ids))"

subsection \<open>Accounts\<close>

definition new_user :: "string \<Rightarrow> string \<Rightarrow> string option \<Rightarrow> i64 option \<Rightarrow> i64 \<Rightarrow> User" where
  "new_user user email password_hash verified_at now =
     \<lparr>us_id = user, us_email = trim email, us_password_hash = password_hash, us_status = ''active'',
      us_email_verified_at = verified_at, us_created_at = now, us_updated_at = now\<rparr>"

definition user_by_email :: "string \<Rightarrow> AccountDb \<Rightarrow> User option" where
  "user_by_email email A =
     map_option (\<lambda>(i, r). ur_user r) (find (\<lambda>(i, r). ur_email_normalized r = normalize_email email) (ac_users A))"

definition user_by_id :: "string \<Rightarrow> AccountDb \<Rightarrow> User option" where
  "user_by_id user A = map_option ur_user (hm_get (ac_users A) user)"

text \<open>The primary key and the unique index on the normalized address refuse a second row; \<open>map_unique\<close> makes that a conflict.\<close>

definition insert_user :: "User \<Rightarrow> string \<Rightarrow> AccountDb \<Rightarrow> (StoreError, AccountDb) result" where
  "insert_user u normalized A =
     (if hm_contains (ac_users A) (us_id u) \<or> (\<exists>(i, r)\<in>set (ac_users A). ur_email_normalized r = normalized)
      then Err (SConflict ''users'')
      else Ok (A\<lparr>ac_users := hm_insert (us_id u)
             \<lparr>ur_user = u, ur_email_normalized = normalized, ur_failed_login_attempts = 0, ur_locked_until = None\<rparr> (ac_users A)\<rparr>))"

record RegisteredAccount =
  ra_user :: User
  ra_organization_id :: string

definition create_account ::
  "string \<Rightarrow> string \<Rightarrow> i64 \<Rightarrow> string \<Rightarrow> string option \<Rightarrow> string \<Rightarrow> i64 option \<Rightarrow> AccountDb
   \<Rightarrow> AccountDb \<times> (StoreError, RegisteredAccount) result" where
  "create_account user org now email password_hash organization_name verified_at A =
     (let u = new_user user email password_hash verified_at now
      in case and_then (insert_user u (normalize_email email) A) (insert_owned_organization user org organization_name now) of
           Err e \<Rightarrow> (A, Err e)
         | Ok A1 \<Rightarrow> (A1, Ok \<lparr>ra_user = u, ra_organization_id = org\<rparr>))"

definition register_user ::
  "string \<Rightarrow> string \<Rightarrow> i64 \<Rightarrow> string \<Rightarrow> string \<Rightarrow> string \<Rightarrow> AccountDb \<Rightarrow> AccountDb \<times> (StoreError, RegisteredAccount) result" where
  "register_user user org now email password_hash organization_name A =
     create_account user org now email (Some password_hash) organization_name None A"

subsection \<open>Federated identities\<close>

datatype FederatedOutcome = FedExisting | FedLinked | FedCreated string

record FederatedLogin =
  fl_user :: User
  fl_outcome :: FederatedOutcome

definition user_by_federated_identity :: "string \<Rightarrow> string \<Rightarrow> AccountDb \<Rightarrow> User option" where
  "user_by_federated_identity provider subject A =
     Option.bind (hm_get (ac_identities A) (provider, subject)) (\<lambda>i. user_by_id (ui_user_id i) A)"

text \<open>The primary key, the unique index on user and provider, and the reference to the user.\<close>

definition insert_identity ::
  "string \<Rightarrow> string \<Rightarrow> string \<Rightarrow> string \<Rightarrow> bool \<Rightarrow> i64 \<Rightarrow> AccountDb \<Rightarrow> (StoreError, AccountDb) result" where
  "insert_identity provider subject user email email_verified now A =
     (if hm_contains (ac_identities A) (provider, subject) \<or>
         (\<exists>((p, s), i)\<in>set (ac_identities A). p = provider \<and> ui_user_id i = user) \<or> \<not> hm_contains (ac_users A) user
      then Err (SConflict ''user_identities'')
      else Ok (A\<lparr>ac_identities := hm_insert (provider, subject)
             \<lparr>ui_user_id = user, ui_email = Some (trim email), ui_email_verified = email_verified, ui_created_at = now,
              ui_last_login_at = Some now\<rparr> (ac_identities A)\<rparr>))"

definition link_existing ::
  "string \<Rightarrow> string \<Rightarrow> string \<Rightarrow> bool \<Rightarrow> i64 \<Rightarrow> User \<Rightarrow> AccountDb \<Rightarrow> AccountDb \<times> (StoreError, FederatedLogin) result" where
  "link_existing provider subject email email_verified now user A =
     (if \<not> email_verified then (A, Err (SConflict ''provider did not verify the address''))
      else
        (case insert_identity provider subject (us_id user) email email_verified now A of
           Err (SConflict _) \<Rightarrow> (A, Err (SConflict ''this account is already linked to a different identity''))
         | Err e \<Rightarrow> (A, Err e)
         | Ok A1 \<Rightarrow>
             (A1\<lparr>ac_users := update_key (us_id user)
                 (\<lambda>r. r\<lparr>ur_user := (ur_user r)\<lparr>us_email_verified_at := coalesce (us_email_verified_at (ur_user r)) (Some now),
                    us_updated_at := now\<rparr>\<rparr>) (ac_users A1)\<rparr>,
              Ok \<lparr>fl_user = user\<lparr>us_email_verified_at := coalesce (us_email_verified_at user) (Some now)\<rparr>, fl_outcome = FedLinked\<rparr>)))"

definition create_federated ::
  "string \<Rightarrow> string \<Rightarrow> i64 \<Rightarrow> string \<Rightarrow> string \<Rightarrow> string \<Rightarrow> bool \<Rightarrow> string \<Rightarrow> AccountDb
   \<Rightarrow> AccountDb \<times> (StoreError, FederatedLogin) result" where
  "create_federated user org now provider subject email email_verified organization_name A =
     (let u = new_user user email None (if email_verified then Some now else None) now
      in case and_then (and_then (insert_user u (normalize_email email) A) (insert_owned_organization user org organization_name now))
                (insert_identity provider subject user email email_verified now) of
           Err e \<Rightarrow> (A, Err e)
         | Ok A1 \<Rightarrow> (A1, Ok \<lparr>fl_user = u, fl_outcome = FedCreated org\<rparr>))"

definition resolve_federated_identity ::
  "string \<Rightarrow> string \<Rightarrow> i64 \<Rightarrow> string \<Rightarrow> string \<Rightarrow> string \<Rightarrow> bool \<Rightarrow> string \<Rightarrow> AccountDb
   \<Rightarrow> AccountDb \<times> (StoreError, FederatedLogin) result" where
  "resolve_federated_identity new_id new_org now provider subject email email_verified organization_name A =
     (case user_by_federated_identity provider subject A of
        Some user \<Rightarrow>
          (A\<lparr>ac_identities := update_key (provider, subject)
              (\<lambda>i. i\<lparr>ui_last_login_at := Some now, ui_email := Some (trim email), ui_email_verified := email_verified\<rparr>) (ac_identities A)\<rparr>,
           Ok \<lparr>fl_user = user, fl_outcome = FedExisting\<rparr>)
      | None \<Rightarrow>
          (case user_by_email email A of
             Some user \<Rightarrow> link_existing provider subject email email_verified now user A
           | None \<Rightarrow> create_federated new_id new_org now provider subject email email_verified organization_name A))"

definition create_oauth_authorization ::
  "string \<Rightarrow> string \<Rightarrow> string \<Rightarrow> string \<Rightarrow> i64 \<Rightarrow> i64 \<Rightarrow> AccountDb \<Rightarrow> AccountDb \<times> (StoreError, unit) result" where
  "create_oauth_authorization state provider pkce_verifier redirect_path ttl_seconds now A =
     (if hm_contains (ac_oauth A) state then (A, Err (SConflict ''oauth_authorizations''))
      else (A\<lparr>ac_oauth := hm_insert state
              \<lparr>ox_authorization = \<lparr>oa_provider = provider, oa_pkce_verifier = pkce_verifier, oa_redirect_path = redirect_path\<rparr>,
               ox_created_at = now, ox_expires_at = now + ttl_seconds * 1000, ox_consumed_at = None\<rparr> (ac_oauth A)\<rparr>, Ok ()))"

definition consume_oauth_authorization :: "string \<Rightarrow> i64 \<Rightarrow> AccountDb \<Rightarrow> AccountDb \<times> OauthAuthorization option" where
  "consume_oauth_authorization state now A =
     (case update_where state (\<lambda>r. ox_consumed_at r = None \<and> ox_expires_at r > now) (\<lambda>r. r\<lparr>ox_consumed_at := Some now\<rparr>) (ac_oauth A) of
        (t, True) \<Rightarrow> (A\<lparr>ac_oauth := t\<rparr>, map_option ox_authorization (hm_get t state))
      | (t, False) \<Rightarrow> (A, None))"

definition prune_oauth_authorizations :: "i64 \<Rightarrow> AccountDb \<Rightarrow> AccountDb \<times> nat" where
  "prune_oauth_authorizations now A =
     (let gone = (\<lambda>r. ox_expires_at r \<le> now \<or> (case ox_consumed_at r of None \<Rightarrow> False | Some c \<Rightarrow> c \<le> now - 600000))
      in (A\<lparr>ac_oauth := hm_retain (\<lambda>_ r. \<not> gone r) (ac_oauth A)\<rparr>, length (filter (\<lambda>(k, r). gone r) (ac_oauth A))))"

end
