(* ===== verification/Account_Access.thy ===== *)
theory Account_Access
  imports Account_Store
begin

text \<open>
  What gives access to an account in the durable store: the lockout of password logins and the
  browser sessions (\<open>sessions.rs\<close>), the invitations of an organization (\<open>organizations.rs\<close>), API keys and worker
  credentials (\<open>credentials.rs\<close>), the identities linked to a user (\<open>accounts.rs\<close>) and the audit log
  (\<open>audit.rs\<close>). Secrets appear as their hashes only. A row that breaks a unique index, a foreign key or a
  check of the migrations is refused.
\<close>

subsection \<open>Lockout of password logins\<close>

definition login_lock_until :: "string \<Rightarrow> i64 \<Rightarrow> AccountDb \<Rightarrow> i64 option" where
  "login_lock_until user now A =
     (case Option.bind (hm_get (ac_users A) user) ur_locked_until of
        Some until \<Rightarrow> if until > now then Some until else None
      | None \<Rightarrow> None)"

definition lock_deadline :: "i64 \<Rightarrow> i64 \<Rightarrow> i64" where
  "lock_deadline now lock_seconds = clamp_i64 (now + clamp_i64 (max lock_seconds 1 * 1000))"

definition record_failed_login :: "string \<Rightarrow> i64 \<Rightarrow> i64 \<Rightarrow> i64 \<Rightarrow> AccountDb \<Rightarrow> AccountDb \<times> i64 option" where
  "record_failed_login user now max_attempts lock_seconds A =
     (case hm_get (ac_users A) user of
        None \<Rightarrow> (A, None)
      | Some r \<Rightarrow>
          if (case ur_locked_until r of None \<Rightarrow> False | Some until \<Rightarrow> until > now) then (A, ur_locked_until r)
          else
            let attempts = (if ur_locked_until r \<noteq> None then 0 else ur_failed_login_attempts r) + 1;
                until = lock_deadline now lock_seconds;
                store = (\<lambda>n lock. A\<lparr>ac_users := hm_insert user
                   (r\<lparr>ur_failed_login_attempts := n, ur_locked_until := lock, ur_user := (ur_user r)\<lparr>us_updated_at := now\<rparr>\<rparr>)
                   (ac_users A)\<rparr>)
            in if attempts \<ge> max max_attempts 1 then (store 0 (Some until), Some until) else (store attempts None, None))"

definition clear_failed_logins :: "string \<Rightarrow> AccountDb \<Rightarrow> AccountDb" where
  "clear_failed_logins user A =
     A\<lparr>ac_users := update_key user (\<lambda>r. r\<lparr>ur_failed_login_attempts := 0, ur_locked_until := None\<rparr>) (ac_users A)\<rparr>"

subsection \<open>Browser sessions\<close>

record NewSession =
  ns_id :: string
  ns_user_id :: string
  ns_organization_id :: string
  ns_access_token_hash :: string
  ns_refresh_token_hash :: string
  ns_csrf_token_hash :: string
  ns_family_id :: string
  ns_now :: i64
  ns_access_expires_at :: i64
  ns_refresh_expires_at :: i64

record RotateSession =
  rs_session_id :: string
  rs_expected_refresh_token_hash :: string
  rs_access_token_hash :: string
  rs_refresh_token_hash :: string
  rs_now :: i64
  rs_access_expires_at :: i64
  rs_refresh_expires_at :: i64

definition session_row :: "NewSession \<Rightarrow> browser_sessions_row" where
  "session_row n =
     \<lparr>sn_session = \<lparr>bs_id = ns_id n, bs_user_id = ns_user_id n, bs_organization_id = ns_organization_id n,
         bs_family_id = ns_family_id n, bs_csrf_token_hash = ns_csrf_token_hash n, bs_access_expires_at = ns_access_expires_at n,
         bs_refresh_expires_at = ns_refresh_expires_at n, bs_revoked_at = None\<rparr>,
      sn_access_token_hash = ns_access_token_hash n, sn_refresh_token_hash = ns_refresh_token_hash n, sn_created_at = ns_now n,
      sn_last_seen_at = ns_now n\<rparr>"

definition create_session :: "NewSession \<Rightarrow> AccountDb \<Rightarrow> AccountDb \<times> (StoreError, unit) result" where
  "create_session n A =
     (if hm_contains (ac_sessions A) (ns_id n) \<or>
         (\<exists>s\<in>set (hm_values (ac_sessions A)). sn_access_token_hash s = ns_access_token_hash n \<or> sn_refresh_token_hash s = ns_refresh_token_hash n) \<or>
         \<not> hm_contains (ac_memberships A) (ns_organization_id n, ns_user_id n)
      then (A, Err Database)
      else (A\<lparr>ac_sessions := hm_insert (ns_id n) (session_row n) (ac_sessions A)\<rparr>, Ok ()))"

definition session_by_access_hash :: "string \<Rightarrow> AccountDb \<Rightarrow> BrowserSession option" where
  "session_by_access_hash h A =
     map_option sn_session (find (\<lambda>s. sn_access_token_hash s = h) (hm_values (ac_sessions A)))"

definition session_by_refresh_hash :: "string \<Rightarrow> AccountDb \<Rightarrow> BrowserSession option" where
  "session_by_refresh_hash h A =
     map_option sn_session (find (\<lambda>s. sn_refresh_token_hash s = h) (hm_values (ac_sessions A)))"

text \<open>A rotation swaps both tokens of the row that still has the expected one; another row's token in its place breaks the unique index.\<close>

definition rotated :: "RotateSession \<Rightarrow> browser_sessions_row \<Rightarrow> browser_sessions_row" where
  "rotated i s =
     s\<lparr>sn_access_token_hash := rs_access_token_hash i, sn_refresh_token_hash := rs_refresh_token_hash i, sn_last_seen_at := rs_now i,
       sn_session := (sn_session s)\<lparr>bs_access_expires_at := rs_access_expires_at i, bs_refresh_expires_at := rs_refresh_expires_at i\<rparr>\<rparr>"

definition rotate_session :: "RotateSession \<Rightarrow> AccountDb \<Rightarrow> AccountDb \<times> (StoreError, bool) result" where
  "rotate_session i A =
     (case hm_get (ac_sessions A) (rs_session_id i) of
        None \<Rightarrow> (A, Ok False)
      | Some s \<Rightarrow>
          if sn_refresh_token_hash s \<noteq> rs_expected_refresh_token_hash i \<or> bs_revoked_at (sn_session s) \<noteq> None then (A, Ok False)
          else if \<exists>(k, t)\<in>set (ac_sessions A). k \<noteq> rs_session_id i \<and>
                    (sn_access_token_hash t = rs_access_token_hash i \<or> sn_refresh_token_hash t = rs_refresh_token_hash i)
          then (A, Err Database)
          else (A\<lparr>ac_sessions := hm_insert (rs_session_id i) (rotated i s) (ac_sessions A)\<rparr>, Ok True))"

definition revoke_where :: "i64 \<Rightarrow> (string \<Rightarrow> BrowserSession \<Rightarrow> bool) \<Rightarrow> AccountDb \<Rightarrow> AccountDb" where
  "revoke_where now p A =
     A\<lparr>ac_sessions := map (\<lambda>(k, s). (k, if p k (sn_session s) \<and> bs_revoked_at (sn_session s) = None
                                        then s\<lparr>sn_session := (sn_session s)\<lparr>bs_revoked_at := Some now\<rparr>\<rparr> else s)) (ac_sessions A)\<rparr>"

definition revoke_session :: "string \<Rightarrow> i64 \<Rightarrow> AccountDb \<Rightarrow> AccountDb" where
  "revoke_session session_id now A = revoke_where now (\<lambda>k s. k = session_id) A"

definition revoke_user_sessions :: "string \<Rightarrow> string option \<Rightarrow> i64 \<Rightarrow> AccountDb \<Rightarrow> AccountDb" where
  "revoke_user_sessions user except now A =
     (case except of
        Some e \<Rightarrow> revoke_where now (\<lambda>k s. bs_user_id s = user \<and> k \<noteq> e) A
      | None \<Rightarrow> revoke_where now (\<lambda>k s. bs_user_id s = user) A)"

subsection \<open>Members and invitations\<close>

record OrganizationMember =
  om_organization_id :: string
  om_user_id :: string
  om_email :: string
  om_role :: Role
  om_created_at :: i64

definition members_for_org :: "string \<Rightarrow> AccountDb \<Rightarrow> OrganizationMember list" where
  "members_for_org org A =
     sort_key om_created_at
       (List.map_filter (\<lambda>((o', u), m). if o' = org
            then map_option (\<lambda>r. \<lparr>om_organization_id = org, om_user_id = u, om_email = us_email (ur_user r),
                                om_role = role_or_viewer (mb_role m), om_created_at = mb_created_at m\<rparr>) (hm_get (ac_users A) u)
            else None) (ac_memberships A))"

record NewOrganizationInvite =
  ni_id :: string
  ni_organization_id :: string
  ni_inviter_user_id :: string
  ni_code_prefix :: string
  ni_code_hash :: string
  ni_role :: Role
  ni_created_at :: i64
  ni_expires_at :: i64

record OrganizationInvite =
  oi_id :: string
  oi_organization_id :: string
  oi_inviter_user_id :: string
  oi_code_prefix :: string
  oi_role :: Role
  oi_created_at :: i64
  oi_expires_at :: i64
  oi_accepted_at :: "i64 option"
  oi_accepted_by_user_id :: "string option"
  oi_revoked_at :: "i64 option"

definition organization_invite_of :: "OrganizationInviteRow \<Rightarrow> OrganizationInvite" where
  "organization_invite_of v =
     \<lparr>oi_id = oir_id v, oi_organization_id = oir_organization_id v, oi_inviter_user_id = oir_inviter_user_id v,
      oi_code_prefix = oir_code_prefix v, oi_role = role_or_viewer (oir_role v), oi_created_at = oir_created_at v,
      oi_expires_at = oir_expires_at v, oi_accepted_at = oir_accepted_at v, oi_accepted_by_user_id = oir_accepted_by_user_id v,
      oi_revoked_at = oir_revoked_at v\<rparr>"

definition invite_row :: "NewOrganizationInvite \<Rightarrow> OrganizationInviteRow" where
  "invite_row i =
     \<lparr>oir_id = ni_id i, oir_organization_id = ni_organization_id i, oir_inviter_user_id = ni_inviter_user_id i,
      oir_code_prefix = ni_code_prefix i, oir_role = role_name (ni_role i), oir_created_at = ni_created_at i,
      oir_expires_at = ni_expires_at i, oir_accepted_at = None, oir_accepted_by_user_id = None, oir_revoked_at = None\<rparr>"

text \<open>The check of the table admits every role but owner.\<close>

definition create_organization_invite :: "NewOrganizationInvite \<Rightarrow> AccountDb \<Rightarrow> AccountDb \<times> (StoreError, unit) result" where
  "create_organization_invite i A =
     (if hm_contains (ac_invites A) (ni_id i) \<or> (\<exists>(h, v)\<in>set (hm_values (ac_invites A)). h = ni_code_hash i) \<or>
         ni_role i = Owner \<or> \<not> hm_contains (ac_memberships A) (ni_organization_id i, ni_inviter_user_id i)
      then (A, Err (SConflict ''organization_invites''))
      else (A\<lparr>ac_invites := hm_insert (ni_id i) (ni_code_hash i, invite_row i) (ac_invites A)\<rparr>, Ok ()))"

definition organization_invites :: "string \<Rightarrow> AccountDb \<Rightarrow> OrganizationInvite list" where
  "organization_invites org A =
     map organization_invite_of
       (rev (sort_key oir_created_at (filter (\<lambda>v. oir_organization_id v = org) (map snd (hm_values (ac_invites A))))))"

definition revoke_organization_invite :: "string \<Rightarrow> string \<Rightarrow> i64 \<Rightarrow> AccountDb \<Rightarrow> AccountDb \<times> bool" where
  "revoke_organization_invite org invite_id now A =
     (case update_where invite_id
          (\<lambda>(h, v). oir_organization_id v = org \<and> oir_revoked_at v = None \<and> oir_accepted_at v = None)
          (\<lambda>(h, v). (h, v\<lparr>oir_revoked_at := Some now\<rparr>)) (ac_invites A) of
        (t, changed) \<Rightarrow> (A\<lparr>ac_invites := t\<rparr>, changed))"

text \<open>
  Accepting is one transaction: the invitation is looked up by its code, an existing
  membership keeps its role, and an unknown user breaks the reference of the new membership.
\<close>

definition accept_organization_invite ::
  "string \<Rightarrow> string \<Rightarrow> i64 \<Rightarrow> AccountDb \<Rightarrow> AccountDb \<times> (StoreError, Membership) result" where
  "accept_organization_invite code_hash user now A =
     (case find (\<lambda>(i, h, v). h = code_hash) (ac_invites A) of
        None \<Rightarrow> (A, Err (SNotFound ''organization invitation''))
      | Some (invite_id, h, v) \<Rightarrow>
          if oir_accepted_at v \<noteq> None \<or> oir_revoked_at v \<noteq> None \<or> oir_expires_at v \<le> now
          then (A, Err (SConflict ''organization invitation is expired, used, or revoked''))
          else
            let org = oir_organization_id v;
                joined =
                  (case hm_get (ac_memberships A) (org, user) of
                     Some m \<Rightarrow> Some (ac_memberships A, mb_role m)
                   | None \<Rightarrow>
                       if hm_contains (ac_users A) user \<and> hm_contains (ac_organizations A) org
                       then Some (hm_insert (org, user) (new_membership (oir_role v) now) (ac_memberships A), oir_role v)
                       else None)
            in case (joined, hm_get (ac_organizations A) org) of
                 (Some (ms, role), Some o') \<Rightarrow>
                   (A\<lparr>ac_memberships := ms,
                      ac_invites := update_key invite_id
                        (\<lambda>(h, v). (h, v\<lparr>oir_accepted_at := Some now, oir_accepted_by_user_id := Some user\<rparr>)) (ac_invites A)\<rparr>,
                    Ok \<lparr>ms_organization_id = org, ms_user_id = user, ms_role = role_or_viewer role, ms_organization_name = og_name o'\<rparr>)
               | _ \<Rightarrow> (A, Err Database))"

subsection \<open>Credentials\<close>

text \<open>
  The scopes of a key are stored as JSON text; reading that text is the \<open>parse_scopes\<close> of the definitions, and a
  text that does not parse reads as no scope at all.
\<close>

record ApiKey =
  ak_id :: string
  ak_organization_id :: string
  ak_creator_user_id :: string
  ak_name :: string
  ak_prefix :: string
  ak_scopes :: "string list"
  ak_created_at :: i64
  ak_last_used_at :: "i64 option"
  ak_expires_at :: "i64 option"
  ak_revoked_at :: "i64 option"

definition api_key_of :: "(string \<Rightarrow> string list option) \<Rightarrow> ApiKeyRow \<Rightarrow> ApiKey" where
  "api_key_of parse_scopes v =
     \<lparr>ak_id = akr_id v, ak_organization_id = akr_organization_id v, ak_creator_user_id = akr_creator_user_id v,
      ak_name = akr_name v, ak_prefix = akr_prefix v, ak_scopes = case_option [] id (parse_scopes (akr_scopes v)),
      ak_created_at = akr_created_at v, ak_last_used_at = akr_last_used_at v, ak_expires_at = akr_expires_at v,
      ak_revoked_at = akr_revoked_at v\<rparr>"

definition create_api_key :: "string \<Rightarrow> ApiKeyRow \<Rightarrow> AccountDb \<Rightarrow> AccountDb \<times> (StoreError, unit) result" where
  "create_api_key key_hash row A =
     (if hm_contains (ac_api_keys A) (akr_id row) \<or> (\<exists>(h, v)\<in>set (hm_values (ac_api_keys A)). h = key_hash) \<or>
         \<not> hm_contains (ac_memberships A) (akr_organization_id row, akr_creator_user_id row)
      then (A, Err Database)
      else (A\<lparr>ac_api_keys := hm_insert (akr_id row) (key_hash, row\<lparr>akr_last_used_at := None, akr_revoked_at := None\<rparr>) (ac_api_keys A)\<rparr>, Ok ()))"

definition api_key_by_hash :: "(string \<Rightarrow> string list option) \<Rightarrow> string \<Rightarrow> AccountDb \<Rightarrow> ApiKey option" where
  "api_key_by_hash parse_scopes key_hash A =
     map_option (\<lambda>(h, v). api_key_of parse_scopes v) (find (\<lambda>(h, v). h = key_hash) (hm_values (ac_api_keys A)))"

text \<open>The time of use is written at most once a minute.\<close>

definition stale_use :: "i64 \<Rightarrow> i64 option \<Rightarrow> bool" where
  "stale_use now used = (case used of None \<Rightarrow> True | Some t \<Rightarrow> t < i64_saturating_sub now 60000)"

definition touch_api_key :: "string \<Rightarrow> i64 \<Rightarrow> AccountDb \<Rightarrow> AccountDb" where
  "touch_api_key key_id now A =
     A\<lparr>ac_api_keys := fst (update_where key_id (\<lambda>(h, v). stale_use now (akr_last_used_at v))
          (\<lambda>(h, v). (h, v\<lparr>akr_last_used_at := Some now\<rparr>)) (ac_api_keys A))\<rparr>"

definition api_keys_for_org :: "(string \<Rightarrow> string list option) \<Rightarrow> string \<Rightarrow> AccountDb \<Rightarrow> ApiKey list" where
  "api_keys_for_org parse_scopes org A =
     map (api_key_of parse_scopes)
       (rev (sort_key akr_created_at (filter (\<lambda>v. akr_organization_id v = org) (map snd (hm_values (ac_api_keys A))))))"

definition api_keys_page ::
  "(string \<Rightarrow> string list option) \<Rightarrow> string \<Rightarrow> string option \<Rightarrow> i64 \<Rightarrow> (i64 \<times> string) option \<Rightarrow> AccountDb \<Rightarrow> ApiKey list" where
  "api_keys_page parse_scopes org creator limit after A =
     (let key = (\<lambda>v. (akr_created_at v, akr_id v));
          rows = filter (\<lambda>v. akr_organization_id v = org \<and> (case creator of None \<Rightarrow> True | Some c \<Rightarrow> akr_creator_user_id v = c) \<and>
                    (case after of None \<Rightarrow> True | Some cursor \<Rightarrow> key v < cursor)) (map snd (hm_values (ac_api_keys A)))
      in map (api_key_of parse_scopes) (take (nat (max limit 1)) (rev (sort_key key rows))))"

definition api_key_for_org :: "(string \<Rightarrow> string list option) \<Rightarrow> string \<Rightarrow> string \<Rightarrow> AccountDb \<Rightarrow> ApiKey option" where
  "api_key_for_org parse_scopes org key_id A =
     (case hm_get (ac_api_keys A) key_id of
        Some (h, v) \<Rightarrow> if akr_organization_id v = org then Some (api_key_of parse_scopes v) else None
      | None \<Rightarrow> None)"

definition revoke_api_key :: "string \<Rightarrow> string \<Rightarrow> i64 \<Rightarrow> AccountDb \<Rightarrow> AccountDb \<times> bool" where
  "revoke_api_key org key_id now A =
     (case update_where key_id (\<lambda>(h, v). akr_organization_id v = org \<and> akr_revoked_at v = None)
          (\<lambda>(h, v). (h, v\<lparr>akr_revoked_at := Some now\<rparr>)) (ac_api_keys A) of
        (t, changed) \<Rightarrow> (A\<lparr>ac_api_keys := t\<rparr>, changed))"

definition create_worker_credential :: "string \<Rightarrow> WorkerCredential \<Rightarrow> AccountDb \<Rightarrow> AccountDb \<times> (StoreError, unit) result" where
  "create_worker_credential token_hash row A =
     (if hm_contains (ac_worker_credentials A) (wcr_id row) \<or>
         (\<exists>(h, c)\<in>set (hm_values (ac_worker_credentials A)). h = token_hash) \<or>
         \<not> hm_contains (ac_organizations A) (wcr_organization_id row)
      then (A, Err Database)
      else (A\<lparr>ac_worker_credentials :=
              hm_insert (wcr_id row) (token_hash, row\<lparr>wcr_last_used_at := None, wcr_revoked_at := None\<rparr>) (ac_worker_credentials A)\<rparr>, Ok ()))"

definition worker_credential_by_hash :: "string \<Rightarrow> AccountDb \<Rightarrow> WorkerCredential option" where
  "worker_credential_by_hash token_hash A =
     map_option snd (find (\<lambda>(h, c). h = token_hash) (hm_values (ac_worker_credentials A)))"

definition touch_worker_credential :: "string \<Rightarrow> i64 \<Rightarrow> AccountDb \<Rightarrow> AccountDb" where
  "touch_worker_credential cred_id now A =
     A\<lparr>ac_worker_credentials := fst (update_where cred_id (\<lambda>(h, c). stale_use now (wcr_last_used_at c))
          (\<lambda>(h, c). (h, c\<lparr>wcr_last_used_at := Some now\<rparr>)) (ac_worker_credentials A))\<rparr>"

definition revoke_worker_credential :: "string \<Rightarrow> string \<Rightarrow> i64 \<Rightarrow> AccountDb \<Rightarrow> AccountDb \<times> bool" where
  "revoke_worker_credential org cred_id now A =
     (case update_where cred_id (\<lambda>(h, c). wcr_organization_id c = org \<and> wcr_revoked_at c = None)
          (\<lambda>(h, c). (h, c\<lparr>wcr_revoked_at := Some now\<rparr>)) (ac_worker_credentials A) of
        (t, changed) \<Rightarrow> (A\<lparr>ac_worker_credentials := t\<rparr>, changed))"

definition worker_credentials_for_org :: "string \<Rightarrow> AccountDb \<Rightarrow> WorkerCredential list" where
  "worker_credentials_for_org org A =
     sort_key wcr_id (filter (\<lambda>c. wcr_organization_id c = org) (map snd (hm_values (ac_worker_credentials A))))"

definition worker_credentials_page ::
  "string \<Rightarrow> string option \<Rightarrow> i64 \<Rightarrow> string option \<Rightarrow> AccountDb \<Rightarrow> WorkerCredential list" where
  "worker_credentials_page org owner limit after A =
     take (nat (max limit 1)) (sort_key wcr_id
       (filter (\<lambda>c. wcr_organization_id c = org \<and> (case owner of None \<Rightarrow> True | Some u \<Rightarrow> wcr_owner_user_id c = Some u) \<and>
                   (case after of None \<Rightarrow> True | Some a \<Rightarrow> wcr_id c > a)) (map snd (hm_values (ac_worker_credentials A)))))"

definition worker_credential_for_org :: "string \<Rightarrow> string \<Rightarrow> AccountDb \<Rightarrow> WorkerCredential option" where
  "worker_credential_for_org org cred_id A =
     (case hm_get (ac_worker_credentials A) cred_id of
        Some (h, c) \<Rightarrow> if wcr_organization_id c = org then Some c else None
      | None \<Rightarrow> None)"

subsection \<open>Linked identities and the audit log\<close>

record LinkedIdentity =
  li_provider :: string
  li_email :: "string option"
  li_email_verified :: bool
  li_created_at :: i64
  li_last_login_at :: "i64 option"

definition identities_for_user :: "string \<Rightarrow> AccountDb \<Rightarrow> LinkedIdentity list" where
  "identities_for_user user A =
     sort_key li_provider (map (\<lambda>((p, s), i). \<lparr>li_provider = p, li_email = ui_email i, li_email_verified = ui_email_verified i,
                                             li_created_at = ui_created_at i, li_last_login_at = ui_last_login_at i\<rparr>)
       (filter (\<lambda>(k, i). ui_user_id i = user) (ac_identities A)))"

definition audit :: "string \<Rightarrow> AuditLog \<Rightarrow> AccountDb \<Rightarrow> AccountDb \<times> (StoreError, unit) result" where
  "audit log_id entry A =
     (if hm_contains (ac_audit A) log_id then (A, Err Database)
      else (A\<lparr>ac_audit := hm_insert log_id entry (ac_audit A)\<rparr>, Ok ()))"

definition audit_rows :: "string \<Rightarrow> AccountDb \<Rightarrow> (string \<times> AuditLog) list" where
  "audit_rows org A = filter (\<lambda>(i, l). al_organization_id l = Some org) (ac_audit A)"

definition audit_logs_all :: "string \<Rightarrow> AccountDb \<Rightarrow> (string \<times> AuditLog) list" where
  "audit_logs_all org A = rev (sort_key (\<lambda>(i, l). al_created_at l) (audit_rows org A))"

definition audit_logs :: "string \<Rightarrow> i64 \<Rightarrow> AccountDb \<Rightarrow> (string \<times> AuditLog) list" where
  "audit_logs org limit A = take (nat (min (max limit 1) 200)) (audit_logs_all org A)"

definition audit_logs_page :: "string \<Rightarrow> i64 \<Rightarrow> (i64 \<times> string) option \<Rightarrow> AccountDb \<Rightarrow> (string \<times> AuditLog) list" where
  "audit_logs_page org limit after A =
     (let key = (\<lambda>(i, l). (al_created_at l, i))
      in take (nat (max limit 1)) (rev (sort_key key
           (filter (\<lambda>r. case after of None \<Rightarrow> True | Some cursor \<Rightarrow> key r < cursor) (audit_rows org A)))))"

end
