(* ===== verification/Account_Inv.thy ===== *)
theory Account_Inv
  imports Account_Access Hub_Store_Inv
begin

text \<open>
  The invariant of the account tables: the unique indexes and references of the schema, and an owner
  for every organization that has a member. \<open>account_step\<close> is one call of a method of the store that
  writes these tables; every such call keeps the invariant.
\<close>

subsection \<open>Indexed tables\<close>

text \<open>A table whose columns \<open>cols\<close> are unique and whose rows all satisfy \<open>ok\<close>.\<close>

definition table_ok :: "('k \<Rightarrow> 'v \<Rightarrow> 'c) list \<Rightarrow> ('k \<Rightarrow> 'v \<Rightarrow> bool) \<Rightarrow> ('k, 'v) hash_map \<Rightarrow> bool" where
  "table_ok cols ok t \<longleftrightarrow>
     hm_wf t \<and> (\<forall>k v. hm_get t k = Some v \<longrightarrow> ok k v) \<and>
     (\<forall>f\<in>set cols. \<forall>j k a b. hm_get t j = Some a \<longrightarrow> hm_get t k = Some b \<longrightarrow> f j a = f k b \<longrightarrow> j = k)"

lemma hm_mem_iff: "hm_wf m \<Longrightarrow> (k, v) \<in> set m \<longleftrightarrow> hm_get m k = Some v"
  by (simp add: hm_wf_def hm_get_def)

lemma hm_rows:
  assumes "hm_wf m"
  shows "(\<exists>x\<in>set m. P x) \<longleftrightarrow> (\<exists>k v. hm_get m k = Some v \<and> P (k, v))"
    "(\<exists>v\<in>set (hm_values m). Q v) \<longleftrightarrow> (\<exists>k v. hm_get m k = Some v \<and> Q v)"
proof -
  show "(\<exists>x\<in>set m. P x) \<longleftrightarrow> (\<exists>k v. hm_get m k = Some v \<and> P (k, v))"
    by (metis hm_mem_iff[OF assms] surj_pair)
  show "(\<exists>v\<in>set (hm_values m). Q v) \<longleftrightarrow> (\<exists>k v. hm_get m k = Some v \<and> Q v)"
    using hm_values_mem[OF assms] by blast
qed

lemma table_ok_wf [simp]: "table_ok cols ok t \<Longrightarrow> hm_wf t"
  by (simp add: table_ok_def)

lemma table_ok_row: "table_ok cols ok t \<Longrightarrow> hm_get t k = Some v \<Longrightarrow> ok k v"
  by (simp add: table_ok_def)

lemma table_ok_unique:
  "table_ok cols ok t \<Longrightarrow> f \<in> set cols \<Longrightarrow> hm_get t j = Some a \<Longrightarrow> hm_get t k = Some b \<Longrightarrow> f j a = f k b \<Longrightarrow> j = k"
  by (auto simp: table_ok_def)

lemma table_ok_mono: "table_ok cols ok t \<Longrightarrow> (\<And>k v. hm_get t k = Some v \<Longrightarrow> ok k v \<Longrightarrow> ok' k v) \<Longrightarrow> table_ok cols ok' t"
  by (simp add: table_ok_def)

lemma table_okI:
  assumes "hm_wf t" "\<And>k v. hm_get t k = Some v \<Longrightarrow> ok k v"
    "\<And>f j k a b. f \<in> set cols \<Longrightarrow> hm_get t j = Some a \<Longrightarrow> hm_get t k = Some b \<Longrightarrow> f j a = f k b \<Longrightarrow> j = k"
  shows "table_ok cols ok t"
  using assms unfolding table_ok_def by blast

lemma table_ok_insert:
  assumes "table_ok cols ok t" "ok k v" "\<And>f j b. f \<in> set cols \<Longrightarrow> hm_get t j = Some b \<Longrightarrow> f j b = f k v \<Longrightarrow> j = k"
  shows "table_ok cols ok (hm_insert k v t)"
proof (rule table_okI)
  fix f i j a b
  assume "f \<in> set cols" "hm_get (hm_insert k v t) i = Some a" "hm_get (hm_insert k v t) j = Some b" "f i a = f j b"
  with assms(3)[of f i a] assms(3)[of f j b] table_ok_unique[OF assms(1), of f i a j b] show "i = j"
    using table_ok_wf[OF assms(1)] by (cases "i = k"; cases "j = k") auto
qed (use assms(1,2) table_ok_row[OF assms(1)] in \<open>auto split: if_splits\<close>)

lemma table_ok_update_where:
  assumes "table_ok cols ok t" "\<And>v. hm_get t k = Some v \<Longrightarrow> ok k v \<Longrightarrow> p v \<Longrightarrow> ok k (g v)"
    "\<And>f v. f \<in> set cols \<Longrightarrow> f k (g v) = f k v"
  shows "table_ok cols ok (fst (update_where k p g t))"
proof (cases "\<exists>v. hm_get t k = Some v \<and> p v")
  case True
  then obtain v where v: "hm_get t k = Some v" "p v" by blast
  have "table_ok cols ok (hm_insert k (g v) t)"
    using assms v table_ok_row[OF assms(1) v(1)] table_ok_unique[OF assms(1) _ _ v(1)] by (intro table_ok_insert) auto
  then show ?thesis by (simp add: update_where_def v)
qed (auto simp: update_where_def assms(1) split: option.splits)

lemma table_ok_edit:
  assumes "table_ok cols ok t" "\<And>v. hm_get t k = Some v \<Longrightarrow> ok k v \<Longrightarrow> ok k (g v)"
    "\<And>f v. f \<in> set cols \<Longrightarrow> f k (g v) = f k v"
  shows "table_ok cols ok (update_key k g t)"
  unfolding update_key_def by (rule table_ok_update_where) (use assms in auto)

lemma table_ok_sub:
  assumes "table_ok cols ok t" "hm_wf t'" "\<And>k v'. hm_get t' k = Some v' \<Longrightarrow> \<exists>v. hm_get t k = Some v \<and> (ok k v \<longrightarrow> ok' k v') \<and> (\<forall>f\<in>set cols. f k v' = f k v)"
  shows "table_ok cols ok' t'"
proof (rule table_okI)
  fix f i j a b
  assume "f \<in> set cols" "hm_get t' i = Some a" "hm_get t' j = Some b" "f i a = f j b"
  then show "i = j" using assms(3)[of i a] assms(3)[of j b] table_ok_unique[OF assms(1)] by metis
next
  fix k v' assume "hm_get t' k = Some v'"
  then show "ok' k v'" using assms(3)[of k v'] table_ok_row[OF assms(1)] by blast
qed (rule assms(2))

lemma table_ok_retain:
  assumes "table_ok cols ok t" "\<And>k v. hm_get t k = Some v \<Longrightarrow> p k v \<Longrightarrow> ok k v \<Longrightarrow> ok' k v"
  shows "table_ok cols ok' (hm_retain p t)"
  by (rule table_ok_sub[OF assms(1)])
    (use assms in \<open>auto simp: hm_get_retain[OF table_ok_wf[OF assms(1)]] split: option.splits if_splits\<close>)

lemma hm_get_map: "hm_get (map (\<lambda>(k, v). (k, g k v)) t) k = map_option (g k) (hm_get t k)"
  by (induction t) (auto simp: hm_get_def)

lemma hm_wf_map: "hm_wf (map (\<lambda>(k, v). (k, g k v)) t) = hm_wf t"
proof -
  have "map fst (map (\<lambda>(k, v). (k, g k v)) t) = map fst t" by (induction t) auto
  then show ?thesis unfolding hm_wf_def by (rule arg_cong)
qed

lemma table_ok_map:
  assumes "table_ok cols ok t" "\<And>k v. hm_get t k = Some v \<Longrightarrow> ok k v \<Longrightarrow> ok' k (g k v)"
    "\<And>f k v. f \<in> set cols \<Longrightarrow> f k (g k v) = f k v"
  shows "table_ok cols ok' (map (\<lambda>(k, v). (k, g k v)) t)"
  by (rule table_ok_sub[OF assms(1)]) (use assms in \<open>auto simp: hm_wf_map hm_get_map\<close>)

text \<open>A lookup by a unique column finds the row that has the value, and only that one.\<close>

lemma find_row: "hm_wf t \<Longrightarrow> find (\<lambda>(k, v). P k v) t = Some (k, v) \<Longrightarrow> hm_get t k = Some v \<and> P k v"
proof -
  assume wf: "hm_wf t" and "find (\<lambda>(k, v). P k v) t = Some (k, v)"
  then obtain i where "i < length t" "t ! i = (k, v)" "P k v" by (auto simp: find_Some_iff)
  then show ?thesis using wf by (metis hm_mem_iff nth_mem)
qed

lemma find_unique:
  assumes "hm_wf t" "\<And>j k a b. hm_get t j = Some a \<Longrightarrow> hm_get t k = Some b \<Longrightarrow> f a = f b \<Longrightarrow> j = k"
  shows "find (\<lambda>(k, v). f v = h) t = Some (k, v) \<longleftrightarrow> hm_get t k = Some v \<and> f v = h"
proof
  assume "find (\<lambda>(k, v). f v = h) t = Some (k, v)"
  then show "hm_get t k = Some v \<and> f v = h" using assms(1) by (rule find_row[rotated])
next
  assume row: "hm_get t k = Some v \<and> f v = h"
  then have "find (\<lambda>(k, v). f v = h) t \<noteq> None"
    using assms(1) by (auto simp: find_None_iff hm_mem_iff[symmetric])
  then obtain k' v' where found: "find (\<lambda>(k, v). f v = h) t = Some (k', v')" by auto
  then have "hm_get t k' = Some v' \<and> f v' = h" using assms(1) by (rule find_row[rotated])
  with row assms(2) found show "find (\<lambda>(k, v). f v = h) t = Some (k, v)" by (metis option.inject)
qed

lemma find_values: "find P (hm_values t) = map_option snd (find (\<lambda>(k, v). P v) t)"
  by (induction t) (auto simp: hm_values_def)

subsection \<open>The invariant\<close>

definition has_owner :: "(key2, memberships_row) hash_map \<Rightarrow> string \<Rightarrow> bool" where
  "has_owner ms org \<longleftrightarrow> (\<exists>u m. hm_get ms (org, u) = Some m \<and> mb_role m = ''owner'')"

abbreviation users_ok :: "(string, users_row) hash_map \<Rightarrow> bool" where
  "users_ok \<equiv> table_ok [\<lambda>_ r. ur_email_normalized r] (\<lambda>k r. us_id (ur_user r) = k)"

abbreviation members_ok :: "(string, users_row) hash_map \<Rightarrow> (string, Organization) hash_map \<Rightarrow> (key2, memberships_row) hash_map \<Rightarrow> bool" where
  "members_ok us os \<equiv> table_ok ([] :: (key2 \<Rightarrow> memberships_row \<Rightarrow> unit) list) (\<lambda>k m. hm_contains os (fst k) \<and> hm_contains us (snd k))"

abbreviation sessions_ok :: "(key2, memberships_row) hash_map \<Rightarrow> (string, browser_sessions_row) hash_map \<Rightarrow> bool" where
  "sessions_ok ms \<equiv> table_ok [\<lambda>_ s. sn_access_token_hash s, \<lambda>_ s. sn_refresh_token_hash s]
     (\<lambda>k s. bs_id (sn_session s) = k \<and> hm_contains ms (bs_organization_id (sn_session s), bs_user_id (sn_session s)))"

abbreviation keys_ok :: "(key2, memberships_row) hash_map \<Rightarrow> (string, string \<times> ApiKeyRow) hash_map \<Rightarrow> bool" where
  "keys_ok ms \<equiv> table_ok [\<lambda>_ r. fst r]
     (\<lambda>k r. akr_id (snd r) = k \<and> hm_contains ms (akr_organization_id (snd r), akr_creator_user_id (snd r)))"

abbreviation credentials_ok :: "(string, Organization) hash_map \<Rightarrow> (string, string \<times> WorkerCredential) hash_map \<Rightarrow> bool" where
  "credentials_ok os \<equiv> table_ok [\<lambda>_ r. fst r] (\<lambda>k r. wcr_id (snd r) = k \<and> hm_contains os (wcr_organization_id (snd r)))"

abbreviation invites_ok :: "(key2, memberships_row) hash_map \<Rightarrow> (string, string \<times> OrganizationInviteRow) hash_map \<Rightarrow> bool" where
  "invites_ok ms \<equiv> table_ok [\<lambda>_ r. fst r]
     (\<lambda>k r. oir_id (snd r) = k \<and> hm_contains ms (oir_organization_id (snd r), oir_inviter_user_id (snd r)) \<and> oir_role (snd r) \<noteq> ''owner'')"

abbreviation identities_ok :: "(string, users_row) hash_map \<Rightarrow> (key2, user_identities_row) hash_map \<Rightarrow> bool" where
  "identities_ok us \<equiv> table_ok [\<lambda>k i. (fst k, ui_user_id i)] (\<lambda>k i. hm_contains us (ui_user_id i))"

definition account_inv :: "AccountDb \<Rightarrow> bool" where
  "account_inv A \<longleftrightarrow>
     users_ok (ac_users A) \<and> hm_wf (ac_organizations A) \<and> members_ok (ac_users A) (ac_organizations A) (ac_memberships A) \<and>
     (\<forall>k. hm_contains (ac_memberships A) k \<longrightarrow> has_owner (ac_memberships A) (fst k)) \<and>
     sessions_ok (ac_memberships A) (ac_sessions A) \<and> keys_ok (ac_memberships A) (ac_api_keys A) \<and>
     credentials_ok (ac_organizations A) (ac_worker_credentials A) \<and> invites_ok (ac_memberships A) (ac_invites A) \<and>
     identities_ok (ac_users A) (ac_identities A) \<and> hm_wf (ac_oauth A) \<and> hm_wf (ac_audit A)"

definition no_accounts :: "Db \<Rightarrow> AccountDb" where
  "no_accounts db =
     \<lparr>ac_users = [], ac_organizations = [], ac_memberships = [], ac_sessions = [], ac_api_keys = [], ac_worker_credentials = [],
      ac_invites = [], ac_identities = [], ac_oauth = [], ac_audit = [], ac_db = db\<rparr>"

text \<open>One call of a method that writes; the arguments of every call are arbitrary.\<close>

inductive account_step :: "AccountDb \<Rightarrow> AccountDb \<Rightarrow> bool" where
  ensure: "account_step A (ensure_organization org name now A)"
| create_org: "account_step A (fst (create_organization_for_user user org name now A))"
| set_role: "account_step A (fst (set_member_role org user role now A))"
| remove: "account_step A (fst (remove_member org user now A))"
| transfer: "account_step A (fst (transfer_owner org from_user to_user now A))"
| delete_org: "account_step A (fst (delete_organization org A))"
| delete_user: "account_step A (fst (delete_user user A))"
| register: "account_step A (fst (register_user user org now email hash name A))"
| federated: "account_step A (fst (resolve_federated_identity user org now provider subject email verified name A))"
| oauth_create: "account_step A (fst (create_oauth_authorization state provider verifier path ttl now A))"
| oauth_consume: "account_step A (fst (consume_oauth_authorization state now A))"
| oauth_prune: "account_step A (fst (prune_oauth_authorizations now A))"
| failed: "account_step A (fst (record_failed_login user now attempts lock A))"
| clear: "account_step A (clear_failed_logins user A)"
| session: "account_step A (fst (create_session new A))"
| rotate: "account_step A (fst (rotate_session rotation A))"
| revoke: "account_step A (revoke_session sid now A)"
| revoke_user: "account_step A (revoke_user_sessions user except now A)"
| invite: "account_step A (fst (create_organization_invite ni A))"
| invite_revoke: "account_step A (fst (revoke_organization_invite org invite now A))"
| invite_accept: "account_step A (fst (accept_organization_invite code user now A))"
| key: "account_step A (fst (create_api_key hash krow A))"
| key_touch: "account_step A (touch_api_key kid now A)"
| key_revoke: "account_step A (fst (revoke_api_key org kid now A))"
| credential: "account_step A (fst (create_worker_credential hash crow A))"
| credential_touch: "account_step A (touch_worker_credential cid now A)"
| credential_revoke: "account_step A (fst (revoke_worker_credential org cid now A))"
| audit: "account_step A (fst (audit log_id entry A))"

inductive account_reachable :: "AccountDb \<Rightarrow> bool" where
  fresh: "account_reachable (no_accounts db)"
| step: "account_reachable A \<Longrightarrow> account_step A B \<Longrightarrow> account_reachable B"

subsection \<open>Steps that keep the memberships\<close>

lemma contains_insert [simp]: "hm_wf t \<Longrightarrow> hm_contains (hm_insert k v t) j \<longleftrightarrow> j = k \<or> hm_contains t j"
  by (simp add: hm_contains_def)

lemma contains_update_key [simp]: "hm_wf t \<Longrightarrow> hm_contains (update_key k g t) j \<longleftrightarrow> hm_contains t j"
  by (simp add: hm_contains_def)

lemma contains_get: "hm_get t k = Some v \<Longrightarrow> hm_contains t k"
  by (simp add: hm_contains_def)

lemma fst_case_pair: "fst (case p of (t, c) \<Rightarrow> (F t, G t c)) = F (fst p)"
  by (cases p) simp

lemma inv_sessions:
  "account_inv A \<Longrightarrow> sessions_ok (ac_memberships A) t \<Longrightarrow> account_inv (A\<lparr>ac_sessions := t\<rparr>)"
  by (simp add: account_inv_def)

lemma inv_keys: "account_inv A \<Longrightarrow> keys_ok (ac_memberships A) t \<Longrightarrow> account_inv (A\<lparr>ac_api_keys := t\<rparr>)"
  by (simp add: account_inv_def)

lemma inv_credentials:
  "account_inv A \<Longrightarrow> credentials_ok (ac_organizations A) t \<Longrightarrow> account_inv (A\<lparr>ac_worker_credentials := t\<rparr>)"
  by (simp add: account_inv_def)

lemma inv_invites: "account_inv A \<Longrightarrow> invites_ok (ac_memberships A) t \<Longrightarrow> account_inv (A\<lparr>ac_invites := t\<rparr>)"
  by (simp add: account_inv_def)

lemma inv_users:
  assumes "account_inv A" "users_ok t" "\<And>k. hm_contains (ac_users A) k \<Longrightarrow> hm_contains t k"
  shows "account_inv (A\<lparr>ac_users := t\<rparr>)"
proof -
  have "members_ok t (ac_organizations A) (ac_memberships A)" "identities_ok t (ac_identities A)"
    using assms by (auto simp: account_inv_def intro: table_ok_mono)
  with assms show ?thesis by (simp add: account_inv_def)
qed

lemma account_invD:
  assumes "account_inv A"
  shows "users_ok (ac_users A)" "hm_wf (ac_organizations A)" "members_ok (ac_users A) (ac_organizations A) (ac_memberships A)"
    "sessions_ok (ac_memberships A) (ac_sessions A)" "keys_ok (ac_memberships A) (ac_api_keys A)"
    "credentials_ok (ac_organizations A) (ac_worker_credentials A)" "invites_ok (ac_memberships A) (ac_invites A)"
    "identities_ok (ac_users A) (ac_identities A)" "hm_wf (ac_oauth A)" "hm_wf (ac_audit A)"
  using assms by (simp_all add: account_inv_def)

lemma inv_has_owner: "account_inv A \<Longrightarrow> hm_contains (ac_memberships A) (org, u) \<Longrightarrow> has_owner (ac_memberships A) org"
  by (auto simp: account_inv_def)

lemma inv_user_row:
  assumes "account_inv A" "hm_get (ac_users A) user = Some r" "us_id (ur_user r') = us_id (ur_user r)"
    "ur_email_normalized r' = ur_email_normalized r"
  shows "account_inv (A\<lparr>ac_users := hm_insert user r' (ac_users A)\<rparr>)"
proof (rule inv_users[OF assms(1)])
  note ok = account_invD(1)[OF assms(1)]
  have "us_id (ur_user r') = user" using assms(3) table_ok_row[OF ok assms(2)] by simp
  moreover have "j = user" if "hm_get (ac_users A) j = Some b" "ur_email_normalized b = ur_email_normalized r'" for j b
    using table_ok_unique[OF ok _ that(1) assms(2)] that(2) assms(4) by simp
  ultimately show "users_ok (hm_insert user r' (ac_users A))" using ok by (intro table_ok_insert) auto
  show "hm_contains (hm_insert user r' (ac_users A)) k" if "hm_contains (ac_users A) k" for k
    using that table_ok_wf[OF ok] by simp
qed

lemma inv_failed_login: "account_inv A \<Longrightarrow> account_inv (fst (record_failed_login user now attempts lock A))"
  by (auto simp: record_failed_login_def Let_def split: option.splits intro: inv_user_row)

lemma inv_clear_failed: "account_inv A \<Longrightarrow> account_inv (clear_failed_logins user A)"
  unfolding clear_failed_logins_def by (rule inv_users) (auto intro!: table_ok_edit dest: account_invD)

lemma inv_create_session: "account_inv A \<Longrightarrow> account_inv (fst (create_session new A))"
  unfolding create_session_def
  by (auto simp: session_row_def hm_rows(2)[OF table_ok_wf[OF account_invD(4)]]
      intro!: inv_sessions table_ok_insert dest: account_invD)

lemma inv_rotate_session: "account_inv A \<Longrightarrow> account_inv (fst (rotate_session rotation A))"
proof -
  assume inv: "account_inv A"
  note ok = account_invD(4)[OF inv]
  show ?thesis unfolding rotate_session_def hm_rows(1)[OF table_ok_wf[OF ok]]
    by (auto simp: rotated_def inv split: option.splits
        intro!: inv_sessions table_ok_insert ok dest: table_ok_row[OF ok]) blast+
qed

lemma inv_revoke_where: "account_inv A \<Longrightarrow> account_inv (revoke_where now p A)"
  unfolding revoke_where_def by (rule inv_sessions, assumption, rule table_ok_map[OF account_invD(4)]) auto

lemma inv_revoke: "account_inv A \<Longrightarrow> account_inv (revoke_session sid now A)"
  "account_inv A \<Longrightarrow> account_inv (revoke_user_sessions user except now A)"
  by (simp_all add: revoke_session_def revoke_user_sessions_def inv_revoke_where split: option.splits)

lemma role_name_owner [simp]: "role_name r = ''owner'' \<longleftrightarrow> r = Owner"
  by (cases r) simp_all

lemma inv_create_invite: "account_inv A \<Longrightarrow> account_inv (fst (create_organization_invite ni A))"
  unfolding create_organization_invite_def
  by (auto simp: hm_rows(2)[OF table_ok_wf[OF account_invD(7)]] invite_row_def
      intro!: inv_invites table_ok_insert dest: account_invD)

lemma inv_revoke_invite: "account_inv A \<Longrightarrow> account_inv (fst (revoke_organization_invite org i now A))"
  unfolding revoke_organization_invite_def fst_case_pair
  by (rule inv_invites, assumption, rule table_ok_update_where) (auto dest: account_invD)

lemma inv_create_key: "account_inv A \<Longrightarrow> account_inv (fst (create_api_key hash krow A))"
  unfolding create_api_key_def
  by (auto simp: hm_rows(2)[OF table_ok_wf[OF account_invD(5)]] intro!: inv_keys table_ok_insert dest: account_invD)

lemma inv_touch_key: "account_inv A \<Longrightarrow> account_inv (touch_api_key kid now A)"
  unfolding touch_api_key_def
  by (rule inv_keys, assumption, rule table_ok_update_where) (auto dest: account_invD)

lemma inv_revoke_key: "account_inv A \<Longrightarrow> account_inv (fst (revoke_api_key org kid now A))"
  unfolding revoke_api_key_def fst_case_pair
  by (rule inv_keys, assumption, rule table_ok_update_where) (auto dest: account_invD)

lemma inv_create_credential: "account_inv A \<Longrightarrow> account_inv (fst (create_worker_credential hash crow A))"
  unfolding create_worker_credential_def
  by (auto simp: hm_rows(2)[OF table_ok_wf[OF account_invD(6)]] intro!: inv_credentials table_ok_insert dest: account_invD)

lemma inv_touch_credential: "account_inv A \<Longrightarrow> account_inv (touch_worker_credential cid now A)"
  unfolding touch_worker_credential_def
  by (rule inv_credentials, assumption, rule table_ok_update_where) (auto dest: account_invD)

lemma inv_revoke_credential: "account_inv A \<Longrightarrow> account_inv (fst (revoke_worker_credential org cid now A))"
  unfolding revoke_worker_credential_def fst_case_pair
  by (rule inv_credentials, assumption, rule table_ok_update_where) (auto dest: account_invD)

lemma inv_oauth:
  assumes "account_inv A"
  shows "account_inv (fst (create_oauth_authorization state provider verifier path ttl now A))"
    "account_inv (fst (consume_oauth_authorization state now A))"
    "account_inv (fst (prune_oauth_authorizations now A))"
    "account_inv (fst (audit log_id entry A))"
  using assms
  by (auto simp: account_inv_def create_oauth_authorization_def consume_oauth_authorization_def prune_oauth_authorizations_def
      audit_def Let_def update_where_def split: option.splits bool.splits)

subsection \<open>Steps that change the memberships\<close>

lemma inv_organizations:
  assumes "account_inv A" "hm_wf t" "\<And>k. hm_contains (ac_organizations A) k \<Longrightarrow> hm_contains t k"
  shows "account_inv (A\<lparr>ac_organizations := t\<rparr>)"
proof -
  have "members_ok (ac_users A) t (ac_memberships A)" "credentials_ok t (ac_worker_credentials A)"
    using assms by (auto simp: account_inv_def intro: table_ok_mono)
  with assms show ?thesis by (simp add: account_inv_def)
qed

lemma inv_memberships:
  assumes "account_inv A" "members_ok (ac_users A) (ac_organizations A) t" "\<And>k. hm_contains (ac_memberships A) k \<Longrightarrow> hm_contains t k"
    "\<And>k. hm_contains t k \<Longrightarrow> has_owner t (fst k)"
  shows "account_inv (A\<lparr>ac_memberships := t\<rparr>)"
proof -
  have "sessions_ok t (ac_sessions A)" "keys_ok t (ac_api_keys A)" "invites_ok t (ac_invites A)"
    using assms by (auto simp: account_inv_def intro: table_ok_mono)
  with assms show ?thesis by (simp add: account_inv_def)
qed

lemma inv_db [simp]: "account_inv (A\<lparr>ac_db := db\<rparr>) = account_inv A"
  by (simp add: account_inv_def)

lemma inv_ensure: "account_inv A \<Longrightarrow> account_inv (ensure_organization org name now A)"
  using inv_organizations[of "A" "hm_insert org (new_organization name now) (ac_organizations A)"] account_invD(2)[of A]
  by (auto simp: ensure_organization_def Let_def intro: inv_organizations)

text \<open>A new member next to an owner, or as an owner, keeps every organization owned.\<close>

lemma has_owner_insert:
  "hm_wf t \<Longrightarrow> has_owner t org \<Longrightarrow> \<not> hm_contains t k \<Longrightarrow> has_owner (hm_insert k m t) org"
  unfolding has_owner_def hm_contains_def by (metis fun_upd_apply hm_laws(1) option.distinct(1))

lemma has_owner_new: "hm_wf t \<Longrightarrow> mb_role m = ''owner'' \<Longrightarrow> has_owner (hm_insert (org, user) m t) org"
  by (auto simp: has_owner_def)

lemma inv_join:
  assumes "account_inv A" "hm_contains (ac_organizations A) org" "hm_contains (ac_users A) user"
    "\<not> hm_contains (ac_memberships A) (org, user)" "mb_role m = ''owner'' \<or> has_owner (ac_memberships A) org"
  shows "account_inv (A\<lparr>ac_memberships := hm_insert (org, user) m (ac_memberships A)\<rparr>)"
proof (rule inv_memberships[OF assms(1)])
  note ok = account_invD(3)[OF assms(1)]
  note wf = table_ok_wf[OF ok]
  show "members_ok (ac_users A) (ac_organizations A) (hm_insert (org, user) m (ac_memberships A))"
    using assms by (intro table_ok_insert[OF ok]) auto
  have "has_owner (hm_insert (org, user) m (ac_memberships A)) org"
    using assms(5) has_owner_insert[OF wf _ assms(4)] has_owner_new[OF wf] by blast
  then show "has_owner (hm_insert (org, user) m (ac_memberships A)) (fst k)"
    if "hm_contains (hm_insert (org, user) m (ac_memberships A)) k" for k
    using that wf has_owner_insert[OF wf inv_has_owner[OF assms(1)] assms(4)] by (cases k) auto
qed (simp add: table_ok_wf[OF account_invD(3)[OF assms(1)]])

lemma inv_insert_owned:
  assumes "account_inv A" "insert_owned_organization user org name now A = Ok B"
  shows "account_inv B"
proof -
  let ?A = "A\<lparr>ac_organizations := hm_insert org (new_organization name now) (ac_organizations A)\<rparr>"
  have "account_inv ?A" using assms(1) by (intro inv_organizations) (auto dest: account_invD(2))
  moreover have "\<not> hm_contains (ac_memberships A) (org, user)" "hm_contains (ac_users A) user"
    using assms(2) by (auto simp: insert_owned_organization_def split: if_splits)
  ultimately have "account_inv (?A\<lparr>ac_memberships := hm_insert (org, user) (new_membership ''owner'' now) (ac_memberships ?A)\<rparr>)"
    using account_invD(2)[OF assms(1)] by (intro inv_join) (auto simp: new_membership_def)
  moreover have "B = ?A\<lparr>ac_memberships := hm_insert (org, user) (new_membership ''owner'' now) (ac_memberships ?A),
      ac_db := insert_quota org now (ac_db A)\<rparr>"
    using assms(2) by (auto simp: insert_owned_organization_def split: if_splits)
  ultimately show ?thesis by simp
qed

lemma inv_create_org: "account_inv A \<Longrightarrow> account_inv (fst (create_organization_for_user user org name now A))"
  by (auto simp: create_organization_for_user_def split: sum.splits intro: inv_insert_owned)

lemma inv_insert_user:
  assumes "account_inv A" "insert_user u addr A = Ok B"
  shows "account_inv B"
proof -
  note ok = account_invD(1)[OF assms(1)]
  have new: "\<not> hm_contains (ac_users A) (us_id u)" "\<And>k r. hm_get (ac_users A) k = Some r \<Longrightarrow> ur_email_normalized r \<noteq> addr"
    and B: "B = A\<lparr>ac_users := hm_insert (us_id u)
             \<lparr>ur_user = u, ur_email_normalized = addr, ur_failed_login_attempts = 0, ur_locked_until = None\<rparr> (ac_users A)\<rparr>"
    using assms(2) by (auto simp: insert_user_def hm_rows(1)[OF table_ok_wf[OF ok]] split: if_splits)
  show ?thesis unfolding B
    by (rule inv_users[OF assms(1)], rule table_ok_insert[OF ok]) (use new table_ok_wf[OF ok] in auto)
qed

text \<open>A transaction that fails leaves the tables as they were.\<close>

lemma result_case:
  "P A \<Longrightarrow> (\<And>B. X = Ok B \<Longrightarrow> P B) \<Longrightarrow> P (fst (case X of Err e \<Rightarrow> (A, Err e) | Ok B \<Rightarrow> (B, F B)))"
  by (cases X) auto

lemma and_then_Ok: "and_then r f = Ok y \<longleftrightarrow> (\<exists>x. r = Ok x \<and> f x = Ok y)"
  by (cases r) (simp_all add: and_then_def)

lemma inv_register: "account_inv A \<Longrightarrow> account_inv (fst (register_user user org now email hash name A))"
  unfolding register_user_def create_account_def Let_def
  by (rule result_case) (auto simp only: and_then_Ok intro: inv_insert_user inv_insert_owned)

lemma inv_identity:
  assumes "account_inv A" "insert_identity provider subject user email verified now A = Ok B"
  shows "account_inv B"
proof -
  note ok = account_invD(8)[OF assms(1)]
  have new: "hm_contains (ac_users A) user"
      "\<And>p s i. hm_get (ac_identities A) (p, s) = Some i \<Longrightarrow> p = provider \<Longrightarrow> ui_user_id i \<noteq> user"
    and B: "B = A\<lparr>ac_identities := hm_insert (provider, subject)
             \<lparr>ui_user_id = user, ui_email = Some (trim email), ui_email_verified = verified, ui_created_at = now,
              ui_last_login_at = Some now\<rparr> (ac_identities A)\<rparr>"
    using assms(2) by (auto simp: insert_identity_def hm_rows(1)[OF table_ok_wf[OF ok]] split: if_splits)
  have "identities_ok (ac_users A) (ac_identities B)" unfolding B
    by (simp, rule table_ok_insert[OF ok]) (use new in fastforce)+
  then show ?thesis using assms(1) by (simp add: B account_inv_def)
qed

lemma inv_touch_identity:
  "account_inv A \<Longrightarrow> (\<And>i. ui_user_id (g i) = ui_user_id i) \<Longrightarrow> account_inv (A\<lparr>ac_identities := update_key k g (ac_identities A)\<rparr>)"
  using table_ok_edit[OF account_invD(8)[of A], of k g] by (auto simp: account_inv_def)

lemma inv_federated:
  "account_inv A \<Longrightarrow> account_inv (fst (resolve_federated_identity user org now provider subject email verified name A))"
proof -
  assume inv: "account_inv A"
  have link: "account_inv (fst (link_existing provider subject email verified now u A))" for u
  proof -
    have "account_inv (B\<lparr>ac_users := update_key (us_id u) g (ac_users B)\<rparr>)"
      if "account_inv B" "\<And>r. us_id (ur_user (g r)) = us_id (ur_user r)" "\<And>r. ur_email_normalized (g r) = ur_email_normalized r" for B g
      by (rule inv_users[OF that(1)]) (use that(2,3) table_ok_wf[OF account_invD(1)[OF that(1)]] in
          \<open>auto intro!: table_ok_edit[OF account_invD(1)[OF that(1)]]\<close>)
    note edit = this
    show ?thesis using inv inv_identity[OF inv]
      by (auto simp: link_existing_def split: sum.splits StoreError.splits intro!: edit)
  qed
  have "account_inv (fst (create_federated user org now provider subject email verified name A))"
    unfolding create_federated_def Let_def
    by (rule result_case) (use inv in \<open>auto simp only: and_then_Ok dest!: inv_insert_user[rotated] inv_insert_owned[rotated] intro: inv_identity\<close>)
  with link inv show ?thesis
    by (auto simp: resolve_federated_identity_def split: option.splits intro: inv_touch_identity)
qed

text \<open>Deleting memberships with everything that refers to them; an owner must be left wherever a member is.\<close>

lemma contains_retain: "hm_wf t \<Longrightarrow> hm_contains (hm_retain (\<lambda>k _. P k) t) k \<longleftrightarrow> hm_contains t k \<and> P k"
  by (simp add: hm_contains_def hm_get_retain split: option.splits)

lemma inv_delete_memberships:
  assumes "account_inv A" "\<And>k. hm_contains (ac_memberships A) k \<Longrightarrow> \<not> p k \<Longrightarrow>
      \<exists>u m. hm_get (ac_memberships A) (fst k, u) = Some m \<and> mb_role m = ''owner'' \<and> \<not> p (fst k, u)"
  shows "account_inv (delete_memberships p A)"
proof -
  note wf = table_ok_wf[OF account_invD(3)[OF assms(1)]]
  note kept = contains_retain[OF wf, of "\<lambda>k. \<not> p k"]
  have "members_ok (ac_users A) (ac_organizations A) (hm_retain (\<lambda>k _. \<not> p k) (ac_memberships A))"
    by (rule table_ok_retain[OF account_invD(3)[OF assms(1)]])
  moreover have "has_owner (hm_retain (\<lambda>k _. \<not> p k) (ac_memberships A)) (fst k)"
    if "hm_contains (hm_retain (\<lambda>k _. \<not> p k) (ac_memberships A)) k" for k
    using that assms(2)[of k] kept by (fastforce simp: has_owner_def hm_get_retain[OF wf] split: option.splits)
  moreover have "sessions_ok (hm_retain (\<lambda>k _. \<not> p k) (ac_memberships A))
      (hm_retain (\<lambda>_ s. \<not> p (bs_organization_id (sn_session s), bs_user_id (sn_session s))) (ac_sessions A))"
    by (rule table_ok_retain[OF account_invD(4)[OF assms(1)]]) (simp add: kept)
  moreover have "keys_ok (hm_retain (\<lambda>k _. \<not> p k) (ac_memberships A))
      (hm_retain (\<lambda>_ (h, k). \<not> p (akr_organization_id k, akr_creator_user_id k)) (ac_api_keys A))"
    by (rule table_ok_retain[OF account_invD(5)[OF assms(1)]]) (auto simp: kept)
  moreover have "invites_ok (hm_retain (\<lambda>k _. \<not> p k) (ac_memberships A))
      (hm_retain (\<lambda>_ (h, i). \<not> p (oir_organization_id i, oir_inviter_user_id i)) (ac_invites A))"
    by (rule table_ok_retain[OF account_invD(7)[OF assms(1)]]) (auto simp: kept)
  ultimately show ?thesis using assms(1) by (simp add: account_inv_def delete_memberships_def)
qed

text \<open>An owner is one of the rows \<open>owner_count\<close> counts, so the only owner is the one it counts alone.\<close>

lemma owner_count_rows:
  "owner_count org A = length (filter (\<lambda>(k, m). fst k = org \<and> mb_role m = ''owner'') (ac_memberships A))"
  unfolding owner_count_def members_locked_def filter_map length_map filter_filter
  by (rule arg_cong[where f = length], rule filter_cong) auto

lemma other_owner:
  assumes "hm_wf (ac_memberships A)" "hm_get (ac_memberships A) (org, user) = Some m" "mb_role m = ''owner''" "owner_count org A \<noteq> 1"
  obtains u m' where "u \<noteq> user" "hm_get (ac_memberships A) (org, u) = Some m'" "mb_role m' = ''owner''"
proof -
  define rows where "rows = filter (\<lambda>(k, m). fst k = org \<and> mb_role m = ''owner'') (ac_memberships A)"
  have mem: "((org, user), m) \<in> set rows" using assms by (auto simp: rows_def hm_mem_iff)
  have "\<exists>x\<in>set rows. x \<noteq> ((org, user), m)"
  proof (rule ccontr)
    assume "\<not> ?thesis"
    then have "set rows = {((org, user), m)}" using mem by blast
    then have "card (set rows) = 1" by simp
    moreover have "distinct (ac_memberships A)" using assms(1) by (simp only: hm_wf_def distinct_map)
    then have "card (set rows) = length rows" unfolding rows_def by (rule distinct_card[OF distinct_filter])
    ultimately show False using assms(4) by (simp add: owner_count_rows rows_def)
  qed
  then obtain o' u m' where x: "((o', u), m') \<in> set rows" "((o', u), m') \<noteq> ((org, user), m)" by auto
  then have "hm_get (ac_memberships A) (org, u) = Some m'" "mb_role m' = ''owner''"
    using assms(1) by (auto simp: rows_def hm_mem_iff)
  moreover have "u \<noteq> user" using x calculation(1) assms(2) by (auto simp: rows_def)
  ultimately show thesis by (rule that[rotated])
qed

lemma inv_set_role: 
  assumes "account_inv A"
  shows "account_inv (fst (set_member_role org user role now A))"
proof (cases "hm_get (ac_memberships A) (org, user)")
  case (Some m)
  note ok = account_invD(3)[OF assms]
  note wf = table_ok_wf[OF ok]
  let ?m = "m\<lparr>mb_role := role_name role, mb_updated_at := now\<rparr>"
  let ?t = "hm_insert (org, user) ?m (ac_memberships A)"
  show ?thesis
  proof (cases "mb_role m = ''owner'' \<and> role \<noteq> Owner \<and> owner_count org A = 1")
    case False
    have dom: "hm_contains ?t k \<longleftrightarrow> hm_contains (ac_memberships A) k" for k
      using Some wf by (auto simp: hm_contains_def)
    have "has_owner ?t org"
    proof (cases "mb_role m = ''owner'' \<and> role \<noteq> Owner")
      case True
      with False other_owner[OF wf Some] obtain u m' where "u \<noteq> user" "hm_get (ac_memberships A) (org, u) = Some m'" "mb_role m' = ''owner''"
        by blast
      then show ?thesis using wf by (auto simp: has_owner_def)
    next
      case False
      obtain u m' where o: "hm_get (ac_memberships A) (org, u) = Some m'" "mb_role m' = ''owner''"
        using inv_has_owner[OF assms contains_get[OF Some]] by (auto simp: has_owner_def)
      show ?thesis
      proof (cases "u = user")
        case True
        with o Some False have "mb_role ?m = ''owner''" by auto
        then show ?thesis by (rule has_owner_new[OF wf])
      qed (use o wf in \<open>auto simp: has_owner_def\<close>)
    qed
    moreover have "has_owner ?t o'" if "o' \<noteq> org" "has_owner (ac_memberships A) o'" for o'
      using that wf by (auto simp: has_owner_def)
    ultimately have own: "has_owner ?t (fst k)" if "hm_contains ?t k" for k
      using that dom inv_has_owner[OF assms, of "fst k" "snd k"] by (cases "fst k = org") auto
    have "members_ok (ac_users A) (ac_organizations A) ?t" by (rule table_ok_insert[OF ok]) (use table_ok_row[OF ok Some] in auto)
    then have "account_inv (A\<lparr>ac_memberships := ?t\<rparr>)"
      using dom own by (intro inv_memberships[OF assms]) auto
    then show ?thesis using False Some by (auto simp: set_member_role_def)
  qed (use Some assms in \<open>simp add: set_member_role_def\<close>)
qed (use assms in \<open>simp add: set_member_role_def\<close>)

lemma inv_transfer:
  assumes "account_inv A"
  shows "account_inv (fst (transfer_owner org from_user to_user now A))"
proof (cases "from_user \<noteq> to_user \<and> hm_contains (ac_memberships A) (org, to_user) \<and>
    (case hm_get (ac_memberships A) (org, from_user) of None \<Rightarrow> False | Some m \<Rightarrow> mb_role m = ''owner'')")
  case True
  note ok = account_invD(3)[OF assms]
  note wf = table_ok_wf[OF ok]
  let ?t = "update_key (org, to_user) (\<lambda>m. m\<lparr>mb_role := ''owner'', mb_updated_at := now\<rparr>)
      (update_key (org, from_user) (\<lambda>m. m\<lparr>mb_role := ''admin'', mb_updated_at := now\<rparr>) (ac_memberships A))"
  have "has_owner ?t org" using True wf by (auto simp: has_owner_def hm_contains_def)
  moreover have "has_owner ?t o'" if "o' \<noteq> org" "has_owner (ac_memberships A) o'" for o'
    using that wf by (auto simp: has_owner_def)
  moreover have dom: "hm_contains ?t k \<longleftrightarrow> hm_contains (ac_memberships A) k" for k using wf by simp
  ultimately have own: "has_owner ?t (fst k)" if "hm_contains ?t k" for k
    using that inv_has_owner[OF assms, of "fst k" "snd k"] by (cases "fst k = org") auto
  have "members_ok (ac_users A) (ac_organizations A) ?t" by (intro table_ok_edit ok) auto
  then have "account_inv (A\<lparr>ac_memberships := ?t\<rparr>)" using dom own by (intro inv_memberships[OF assms]) auto
  with True show ?thesis by (simp add: transfer_owner_def)
qed (use assms in \<open>auto simp: transfer_owner_def\<close>)

lemma inv_remove:
  assumes "account_inv A"
  shows "account_inv (fst (remove_member org user now A))"
proof (cases "hm_get (ac_memberships A) (org, user)")
  case (Some m)
  show ?thesis
  proof (cases "mb_role m = ''owner'' \<and> owner_count org A = 1")
    case False
    note wf = table_ok_wf[OF account_invD(3)[OF assms]]
    have left: "\<exists>u m. hm_get (ac_memberships A) (fst k, u) = Some m \<and> mb_role m = ''owner'' \<and> (fst k, u) \<noteq> (org, user)"
      if k: "hm_contains (ac_memberships A) k" for k
    proof -
      obtain u m' where o: "hm_get (ac_memberships A) (fst k, u) = Some m'" "mb_role m' = ''owner''"
        using k inv_has_owner[OF assms, of "fst k" "snd k"] by (auto simp: has_owner_def)
      show ?thesis
      proof (cases "(fst k, u) = (org, user)")
        case True
        with o Some False other_owner[OF wf Some] show ?thesis by (metis Pair_inject option.inject)
      qed (use o in blast)
    qed
    let ?edit = "\<lambda>k r. (fst r, if wcr_organization_id (snd r) = org \<and> wcr_owner_user_id (snd r) = Some user
        then (snd r)\<lparr>wcr_revoked_at := coalesce (wcr_revoked_at (snd r)) (Some now)\<rparr> else snd r)"
    have "credentials_ok (ac_organizations A) (map (\<lambda>(k, r). (k, ?edit k r)) (ac_worker_credentials A))"
      by (rule table_ok_map[OF account_invD(6)[OF assms]]) auto
    then have "account_inv (A\<lparr>ac_worker_credentials := map (\<lambda>(k, r). (k, ?edit k r)) (ac_worker_credentials A)\<rparr>)"
      by (rule inv_credentials[OF assms])
    from inv_delete_memberships[OF this, of "\<lambda>k. k = (org, user)"] left
    have "account_inv (delete_memberships (\<lambda>k. k = (org, user))
        (A\<lparr>ac_worker_credentials := map (\<lambda>(k, r). (k, ?edit k r)) (ac_worker_credentials A)\<rparr>))" by simp
    moreover have "fst (remove_member org user now A) = delete_memberships (\<lambda>k. k = (org, user))
        (A\<lparr>ac_worker_credentials := map (\<lambda>(k, r). (k, ?edit k r)) (ac_worker_credentials A)\<rparr>)"
      using False Some by (auto simp: remove_member_def Let_def case_prod_unfold)
    ultimately show ?thesis by (simp only:)
  qed (use Some assms in \<open>simp add: remove_member_def\<close>)
qed (use assms in \<open>simp add: remove_member_def\<close>)

lemma inv_delete_org:
  assumes "account_inv A"
  shows "account_inv (fst (delete_organization org A))"
proof -
  let ?A = "A\<lparr>ac_audit := hm_retain (\<lambda>_ l. al_organization_id l \<noteq> Some org) (ac_audit A),
      ac_worker_credentials := hm_retain (\<lambda>_ (h, c). wcr_organization_id c \<noteq> org) (ac_worker_credentials A)\<rparr>"
  let ?D = "delete_memberships (\<lambda>k. fst k = org) ?A"
  have creds: "credentials_ok (hm_remove org (ac_organizations A)) (ac_worker_credentials ?A)"
    using account_invD(2)[OF assms] by (simp, intro table_ok_retain[OF account_invD(6)[OF assms]]) (auto simp: hm_contains_def)
  have "credentials_ok (ac_organizations A) (ac_worker_credentials ?A)"
    by (simp, rule table_ok_retain[OF account_invD(6)[OF assms]])
  then have A: "account_inv ?A" using assms by (simp add: account_inv_def)
  have D: "account_inv ?D"
    by (rule inv_delete_memberships[OF A]) (use inv_has_owner[OF A] in \<open>auto simp: has_owner_def\<close>)
  have "members_ok (ac_users A) (hm_remove org (ac_organizations A)) (ac_memberships ?D)"
    using account_invD(2)[OF assms]
    by (simp add: delete_memberships_def, intro table_ok_retain[OF account_invD(3)[OF assms]]) (auto simp: hm_contains_def)
  then have "account_inv (?D\<lparr>ac_organizations := hm_remove org (ac_organizations A)\<rparr>)"
    using D creds account_invD(2)[OF assms] by (simp add: account_inv_def delete_memberships_def)
  moreover have "account_inv (A\<lparr>ac_audit := hm_retain (\<lambda>_ l. al_organization_id l \<noteq> Some org) (ac_audit A)\<rparr>)"
    using assms by (simp add: account_inv_def)
  ultimately show ?thesis by (simp add: delete_organization_def delete_memberships_def account_inv_def Let_def)
qed

lemma inv_delete_user:
  assumes "account_inv A"
  shows "account_inv (fst (delete_user user A))"
proof (cases "(\<exists>((o', u), m) \<in> set (ac_memberships A). u = user \<and> mb_role m = ''owner'') \<or> \<not> hm_contains (ac_users A) user")
  case False
  note wf = table_ok_wf[OF account_invD(3)[OF assms]] and uwf = table_ok_wf[OF account_invD(1)[OF assms]]
  let ?A = "A\<lparr>ac_worker_credentials := hm_retain (\<lambda>_ (h, c). wcr_owner_user_id c \<noteq> Some user) (ac_worker_credentials A),
      ac_invites := map (\<lambda>(i, h, v). (i, h, if oir_accepted_by_user_id v = Some user then v\<lparr>oir_accepted_by_user_id := None\<rparr> else v)) (ac_invites A),
      ac_audit := map (\<lambda>(i, l). (i, if al_actor_id l = Some user then l\<lparr>al_actor_id := None\<rparr> else l)) (ac_audit A)\<rparr>"
  let ?D = "delete_memberships (\<lambda>k. snd k = user) ?A"
  have noown: "mb_role m \<noteq> ''owner''" if "hm_get (ac_memberships A) (o', user) = Some m" for o' m
    using False that by (auto simp: hm_rows(1)[OF wf])
  have inv_eq: "map (\<lambda>(i, h, v). (i, h, if oir_accepted_by_user_id v = Some user then v\<lparr>oir_accepted_by_user_id := None\<rparr> else v)) (ac_invites A) =
      map (\<lambda>(i, r). (i, (\<lambda>_ r. (fst r, if oir_accepted_by_user_id (snd r) = Some user then (snd r)\<lparr>oir_accepted_by_user_id := None\<rparr> else snd r)) i r)) (ac_invites A)"
    by (simp add: case_prod_unfold)
  have "invites_ok (ac_memberships A) (ac_invites ?A)"
    unfolding inv_eq by (simp, rule table_ok_map[OF account_invD(7)[OF assms]]) auto
  moreover have "credentials_ok (ac_organizations A) (ac_worker_credentials ?A)"
    by (simp, rule table_ok_retain[OF account_invD(6)[OF assms]])
  moreover have "hm_wf (ac_audit ?A)" using account_invD(10)[OF assms] by (simp add: hm_wf_map[of "\<lambda>i l. if al_actor_id l = Some user then l\<lparr>al_actor_id := None\<rparr> else l"])
  ultimately have A: "account_inv ?A" using assms by (simp add: account_inv_def)
  have D: "account_inv ?D"
  proof (rule inv_delete_memberships[OF A])
    fix k assume "hm_contains (ac_memberships ?A) k"
    then have "has_owner (ac_memberships A) (fst k)" using inv_has_owner[OF assms, of "fst k" "snd k"] by simp
    then show "\<exists>u m. hm_get (ac_memberships ?A) (fst k, u) = Some m \<and> mb_role m = ''owner'' \<and> snd (fst k, u) \<noteq> user"
      using noown by (auto simp: has_owner_def)
  qed
  have "users_ok (hm_remove user (ac_users A))"
    by (rule table_ok_sub[OF account_invD(1)[OF assms]]) (auto simp: uwf split: if_splits)
  moreover have "members_ok (hm_remove user (ac_users A)) (ac_organizations A) (ac_memberships ?D)"
    using uwf by (simp add: delete_memberships_def, intro table_ok_retain[OF account_invD(3)[OF assms]]) (auto simp: hm_contains_def)
  moreover have "identities_ok (hm_remove user (ac_users A)) (hm_retain (\<lambda>_ i. ui_user_id i \<noteq> user) (ac_identities A))"
    using uwf by (intro table_ok_retain[OF account_invD(8)[OF assms]]) (auto simp: hm_contains_def)
  ultimately have "account_inv (?D\<lparr>ac_users := hm_remove user (ac_users A),
      ac_identities := hm_retain (\<lambda>_ i. ui_user_id i \<noteq> user) (ac_identities A)\<rparr>)"
    using D by (simp add: account_inv_def delete_memberships_def)
  then show ?thesis using False by (simp add: delete_user_def delete_memberships_def account_inv_def Let_def)
qed (use assms in \<open>auto simp: delete_user_def\<close>)

lemma inv_accept:
  assumes "account_inv A"
  shows "account_inv (fst (accept_organization_invite code user now A))"
proof (cases "find (\<lambda>(i, h, v). h = code) (ac_invites A)")
  case (Some r)
  obtain i h v where r: "r = (i, h, v)" by (cases r) auto
  note ok = account_invD(7)[OF assms]
  have row: "hm_get (ac_invites A) i = Some (h, v)"
    using find_row[OF table_ok_wf[OF ok], of "\<lambda>i (h, v). h = code"] Some r by simp
  let ?org = "oir_organization_id v"
  let ?t = "update_key i (\<lambda>(h, v). (h, v\<lparr>oir_accepted_at := Some now, oir_accepted_by_user_id := Some user\<rparr>)) (ac_invites A)"
  have B: "account_inv (A\<lparr>ac_invites := ?t\<rparr>)"
    by (rule inv_invites[OF assms], rule table_ok_edit[OF ok]) auto
  have owner: "has_owner (ac_memberships A) ?org" using table_ok_row[OF ok row] inv_has_owner[OF assms] by (auto simp del: role_name_owner)
  have join: "account_inv (A\<lparr>ac_memberships := hm_insert (?org, user) m (ac_memberships A), ac_invites := ?t\<rparr>)"
    if "hm_get (ac_memberships A) (?org, user) = None" "hm_contains (ac_users A) user" "hm_contains (ac_organizations A) ?org" for m
    using inv_join[OF B, of ?org user m] that owner by (simp add: account_inv_def hm_contains_def)
  show ?thesis
    using assms B join by (auto simp: accept_organization_invite_def Some r Let_def split: option.splits)
qed (simp add: accept_organization_invite_def assms)

lemma account_step_inv: "account_step A B \<Longrightarrow> account_inv A \<Longrightarrow> account_inv B"
  by (induction rule: account_step.induct)
    (auto intro: inv_ensure inv_create_org inv_set_role inv_remove inv_transfer inv_delete_org inv_delete_user inv_register
      inv_federated inv_oauth inv_failed_login inv_clear_failed inv_create_session inv_rotate_session inv_revoke inv_create_invite
      inv_revoke_invite inv_accept inv_create_key inv_touch_key inv_revoke_key inv_create_credential inv_touch_credential
      inv_revoke_credential)

lemma no_accounts_inv: "account_inv (no_accounts db)"
  by (simp add: account_inv_def no_accounts_def table_ok_def hm_contains_def)

lemma account_reachable_inv: "account_reachable A \<Longrightarrow> account_inv A"
  by (induction rule: account_reachable.induct) (auto intro: no_accounts_inv account_step_inv)

end
