(* ===== verification/Account_Props.thy ===== *)
theory Account_Props
  imports Account_Inv
begin

text \<open>
  What the account tables guarantee to the rest of the hub: no organization loses its last owner and no
  session or key outlives the membership it was issued for, a federated login cannot take over an account, a
  refresh token is used once, password guesses lock the account when they should, an
  invitation is accepted once and never changes the role of a member.
\<close>

subsection \<open>Lookups by a unique column\<close>

lemma table_ok_find:
  assumes "table_ok cols ok t" "(\<lambda>_ v. f v) \<in> set cols"
  shows "find (\<lambda>(k, v). f v = h) t = Some (k, v) \<longleftrightarrow> hm_get t k = Some v \<and> f v = h"
  by (rule find_unique) (use assms in \<open>auto intro: table_ok_unique[OF assms]\<close>)

lemma session_by_access_hash_iff:
  assumes "account_inv A"
  shows "session_by_access_hash h A = Some s \<longleftrightarrow>
    (\<exists>r. hm_get (ac_sessions A) (bs_id s) = Some r \<and> sn_session r = s \<and> sn_access_token_hash r = h)"
proof -
  note ok = account_invD(4)[OF assms]
  note uniq = table_ok_find[OF ok, of sn_access_token_hash "h", simplified]
  show ?thesis unfolding session_by_access_hash_def find_values
    by (auto simp: uniq dest: table_ok_row[OF ok])
qed

lemma session_by_refresh_hash_iff:
  assumes "account_inv A"
  shows "session_by_refresh_hash h A = Some s \<longleftrightarrow>
    (\<exists>r. hm_get (ac_sessions A) (bs_id s) = Some r \<and> sn_session r = s \<and> sn_refresh_token_hash r = h)"
proof -
  note ok = account_invD(4)[OF assms]
  note uniq = table_ok_find[OF ok, of sn_refresh_token_hash "h", simplified]
  show ?thesis unfolding session_by_refresh_hash_def find_values
    by (auto simp: uniq dest: table_ok_row[OF ok])
qed

lemma api_key_by_hash_row:
  assumes "account_inv A" "api_key_by_hash ps h A = Some k"
  shows "\<exists>r. hm_get (ac_api_keys A) (ak_id k) = Some (h, r) \<and> k = api_key_of ps r"
proof -
  note ok = account_invD(5)[OF assms(1)]
  obtain i h' r where f: "find (\<lambda>(i, v). fst v = h) (ac_api_keys A) = Some (i, h', r)" "k = api_key_of ps r"
    using assms(2) unfolding api_key_by_hash_def find_values by (auto simp: case_prod_unfold)
  then have "hm_get (ac_api_keys A) i = Some (h, r)" using table_ok_find[OF ok, of fst h i] by auto
  with table_ok_row[OF ok this] f(2) show ?thesis by (auto simp: api_key_of_def)
qed

lemma user_by_email_iff:
  assumes "account_inv A"
  shows "user_by_email email A = Some u \<longleftrightarrow>
    (\<exists>r. hm_get (ac_users A) (us_id u) = Some r \<and> ur_user r = u \<and> ur_email_normalized r = normalize_email email)"
proof -
  note ok = account_invD(1)[OF assms]
  note uniq = table_ok_find[OF ok, of ur_email_normalized "normalize_email email", simplified]
  show ?thesis unfolding user_by_email_def by (auto simp: uniq dest: table_ok_row[OF ok])
qed

subsection \<open>Integrity\<close>

lemma member_refs:
  assumes "account_inv A" "hm_contains (ac_memberships A) (org, user)"
  shows "hm_contains (ac_users A) user" "hm_contains (ac_organizations A) org"
proof -
  obtain m where "hm_get (ac_memberships A) (org, user) = Some m" using assms(2) by (auto simp: hm_contains_def)
  from table_ok_row[OF account_invD(3)[OF assms(1)] this]
  show "hm_contains (ac_users A) user" "hm_contains (ac_organizations A) org" by simp_all
qed

lemma session_member:
  assumes "account_inv A" "session_by_access_hash h A = Some s"
  shows "hm_contains (ac_memberships A) (bs_organization_id s, bs_user_id s)"
  using assms(2) table_ok_row[OF account_invD(4)[OF assms(1)]] unfolding session_by_access_hash_iff[OF assms(1)] by blast

lemma key_member:
  assumes "account_inv A" "api_key_by_hash ps h A = Some k"
  shows "hm_contains (ac_memberships A) (ak_organization_id k, ak_creator_user_id k)"
proof -
  obtain r where r: "hm_get (ac_api_keys A) (ak_id k) = Some (h, r)" "k = api_key_of ps r"
    using api_key_by_hash_row[OF assms] by blast
  show ?thesis using table_ok_row[OF account_invD(5)[OF assms(1)] r(1)] by (simp add: r(2) api_key_of_def)
qed


subsection \<open>Federated logins\<close>

lemma insert_identity_Ok:
  assumes "account_inv A" "insert_identity p s user email v now A = Ok B"
  shows "ac_users B = ac_users A" "hm_contains (ac_users A) user" "hm_get (ac_identities A) (p, s) = None"
    "\<And>s' i. hm_get (ac_identities A) (p, s') = Some i \<Longrightarrow> ui_user_id i \<noteq> user"
    "\<exists>i. ui_user_id i = user \<and> hm_get (ac_identities B) (p, s) = Some i"
    "\<And>k. k \<noteq> (p, s) \<Longrightarrow> hm_get (ac_identities B) k = hm_get (ac_identities A) k"
  using assms(2) table_ok_wf[OF account_invD(8)[OF assms(1)]]
  by (auto simp: insert_identity_def hm_rows(1)[OF table_ok_wf[OF account_invD(8)[OF assms(1)]]] hm_contains_def split: if_splits)

lemma insert_identity_Err: "insert_identity p s user email v now A = Err e \<Longrightarrow> e = SConflict ''user_identities''"
  by (auto simp: insert_identity_def split: if_splits)

lemma link_existing_safe:
  assumes "account_inv A" "link_existing p s email v now user A = (B, Ok l)"
  shows "v" "us_id (fl_user l) = us_id user" "fl_outcome l = FedLinked"
    "\<exists>u. user_by_federated_identity p s B = Some u \<and> us_id u = us_id user"
    "\<And>s' i. hm_get (ac_identities A) (p, s') = Some i \<Longrightarrow> ui_user_id i \<noteq> us_id user"
    "\<And>k. k \<noteq> (p, s) \<Longrightarrow> hm_get (ac_identities B) k = hm_get (ac_identities A) k"
    "\<And>k. k \<noteq> us_id user \<Longrightarrow> hm_get (ac_users B) k = hm_get (ac_users A) k"
proof -
  note uwf = table_ok_wf[OF account_invD(1)[OF assms(1)]]
  obtain A1 where A1: "insert_identity p s (us_id user) email True now A = Ok A1" and v: "v"
    and B: "B = A1\<lparr>ac_users := update_key (us_id user)
                 (\<lambda>r. r\<lparr>ur_user := (ur_user r)\<lparr>us_email_verified_at := coalesce (us_email_verified_at (ur_user r)) (Some now),
                    us_updated_at := now\<rparr>\<rparr>) (ac_users A1)\<rparr>"
    and l: "fl_user l = user\<lparr>us_email_verified_at := coalesce (us_email_verified_at user) (Some now)\<rparr>" "fl_outcome l = FedLinked"
    using assms(2) by (auto simp: link_existing_def split: sum.splits if_splits StoreError.splits)
  note id = insert_identity_Ok[OF assms(1) A1]
  show "v" "us_id (fl_user l) = us_id user" "fl_outcome l = FedLinked" by (simp_all add: v l)
  show "\<And>s' i. hm_get (ac_identities A) (p, s') = Some i \<Longrightarrow> ui_user_id i \<noteq> us_id user" by (rule id(4))
  show "\<And>k. k \<noteq> (p, s) \<Longrightarrow> hm_get (ac_identities B) k = hm_get (ac_identities A) k"
    "\<And>k. k \<noteq> us_id user \<Longrightarrow> hm_get (ac_users B) k = hm_get (ac_users A) k"
    using id(1,6) uwf by (simp_all add: B)
  obtain r where "hm_get (ac_users A) (us_id user) = Some r" "us_id (ur_user r) = us_id user"
    using id(2) table_ok_row[OF account_invD(1)[OF assms(1)]] unfolding hm_contains_def by blast
  then show "\<exists>u. user_by_federated_identity p s B = Some u \<and> us_id u = us_id user"
    using id(1,5) uwf by (auto simp: B user_by_federated_identity_def user_by_id_def)
qed

lemma create_federated_safe:
  assumes "account_inv A" "create_federated user org now p s email v name A = (B, Ok l)"
  shows "us_id (fl_user l) = user" "us_password_hash (fl_user l) = None" "fl_outcome l = FedCreated org"
    "\<not> hm_contains (ac_users A) user" "user_by_federated_identity p s B = Some (fl_user l)"
    "\<And>k. k \<noteq> (p, s) \<Longrightarrow> hm_get (ac_identities B) k = hm_get (ac_identities A) k"
    "\<And>k. k \<noteq> user \<Longrightarrow> hm_get (ac_users B) k = hm_get (ac_users A) k"
proof -
  let ?u = "new_user user email None (if v then Some now else None) now"
  have uid: "us_id ?u = user" by (simp add: new_user_def)
  obtain A1 A2 where A1: "insert_user ?u (normalize_email email) A = Ok A1"
    and A2: "insert_owned_organization user org name now A1 = Ok A2" and B: "insert_identity p s user email v now A2 = Ok B"
    and l: "l = \<lparr>fl_user = ?u, fl_outcome = FedCreated org\<rparr>"
    using assms(2) unfolding create_federated_def Let_def
    by (cases "insert_user ?u (normalize_email email) A"; simp; cases "insert_owned_organization user org name now (projr (insert_user ?u (normalize_email email) A))"; simp)
      (auto split: sum.splits)
  have inv2: "account_inv A2" using inv_insert_owned[OF inv_insert_user[OF assms(1) A1] A2] .
  note id = insert_identity_Ok[OF inv2 B]
  have users: "hm_get (ac_users A2) = (hm_get (ac_users A))(user \<mapsto>
      \<lparr>ur_user = ?u, ur_email_normalized = normalize_email email, ur_failed_login_attempts = 0, ur_locked_until = None\<rparr>)"
    "ac_identities A2 = ac_identities A"
    using A1 A2 uid table_ok_wf[OF account_invD(1)[OF assms(1)]]
    by (auto simp: insert_user_def insert_owned_organization_def split: if_splits)
  show "us_id (fl_user l) = user" "us_password_hash (fl_user l) = None" "fl_outcome l = FedCreated org"
    by (simp_all add: l new_user_def)
  show "\<not> hm_contains (ac_users A) user" using A1 uid by (auto simp: insert_user_def split: if_splits)
  show "user_by_federated_identity p s B = Some (fl_user l)"
    using id(1,5) users(1) by (auto simp: user_by_federated_identity_def user_by_id_def l)
  show "\<And>k. k \<noteq> (p, s) \<Longrightarrow> hm_get (ac_identities B) k = hm_get (ac_identities A) k"
    "\<And>k. k \<noteq> user \<Longrightarrow> hm_get (ac_users B) k = hm_get (ac_users A) k"
    using id(1,6) users by simp_all
qed

lemma touch_identity_safe:
  assumes "account_inv A" "\<And>i. ui_user_id (g i) = ui_user_id i" "B = A\<lparr>ac_identities := update_key (p, s) g (ac_identities A)\<rparr>"
  shows "user_by_federated_identity p s B = user_by_federated_identity p s A"
    "\<And>k. k \<noteq> (p, s) \<Longrightarrow> hm_get (ac_identities B) k = hm_get (ac_identities A) k"
  using assms(2) table_ok_wf[OF account_invD(8)[OF assms(1)]]
  by (auto simp: assms(3) user_by_federated_identity_def user_by_id_def split: option.splits bind_splits)

text \<open>
  A federated login that fails changes nothing. One that succeeds leaves the identity leading to the
  account it returned and touches no other identity and no other account. It returns the account the identity
  led to before, if there was one, and then no account changes; it links to an existing account only if the provider verified the
  address, the account has that address and no identity of this provider was linked to it; it creates an account, without a
  password, only when no account has the address.
\<close>

theorem federated_login_safe:
  assumes "account_reachable A" "resolve_federated_identity new_id new_org now p s email v name A = (B, r)"
  shows "case r of Err e \<Rightarrow> B = A
     | Ok l \<Rightarrow>
         (\<exists>u. user_by_federated_identity p s B = Some u \<and> us_id u = us_id (fl_user l)) \<and>
         (\<forall>k. k \<noteq> (p, s) \<longrightarrow> hm_get (ac_identities B) k = hm_get (ac_identities A) k) \<and>
         (\<forall>k. k \<noteq> us_id (fl_user l) \<longrightarrow> hm_get (ac_users B) k = hm_get (ac_users A) k) \<and>
         (case fl_outcome l of
            FedExisting \<Rightarrow> user_by_federated_identity p s A = Some (fl_user l) \<and> ac_users B = ac_users A
          | FedLinked \<Rightarrow> user_by_federated_identity p s A = None \<and> v \<and>
              (\<exists>u. user_by_email email A = Some u \<and> us_id u = us_id (fl_user l)) \<and>
              (\<forall>s' i. hm_get (ac_identities A) (p, s') = Some i \<longrightarrow> ui_user_id i \<noteq> us_id (fl_user l))
          | FedCreated org \<Rightarrow> user_by_email email A = None \<and> \<not> hm_contains (ac_users A) (us_id (fl_user l)) \<and>
              us_password_hash (fl_user l) = None)"
proof -
  have inv: "account_inv A" by (rule account_reachable_inv[OF assms(1)])
  consider (existing) u where "user_by_federated_identity p s A = Some u"
    | (link) u where "user_by_federated_identity p s A = None" "user_by_email email A = Some u"
        "link_existing p s email v now u A = (B, r)"
    | (create) "user_by_email email A = None" "create_federated new_id new_org now p s email v name A = (B, r)"
    using assms(2) by (auto simp: resolve_federated_identity_def split: option.splits)
  then show ?thesis
  proof cases
    case existing
    let ?g = "\<lambda>i. i\<lparr>ui_last_login_at := Some now, ui_email := Some (trim email), ui_email_verified := v\<rparr>"
    have B: "B = A\<lparr>ac_identities := update_key (p, s) ?g (ac_identities A)\<rparr>" "r = Ok \<lparr>fl_user = u, fl_outcome = FedExisting\<rparr>"
      using assms(2) existing by (simp_all add: resolve_federated_identity_def)
    note safe = touch_identity_safe[OF inv _ B(1), simplified]
    have "ac_users B = ac_users A" by (simp add: B(1))
    then show ?thesis using safe existing by (auto simp: B(2))
  next
    case link
    show ?thesis
    proof (cases r)
      case (Inl e)
      then show ?thesis using link(3) by (auto simp: link_existing_def split: sum.splits if_splits StoreError.splits)
    next
      case (Inr l)
      note safe = link_existing_safe[OF inv link(3)[unfolded Inr]]
      show ?thesis using safe link(1,2) by (simp add: Inr)
    qed
  next
    case create
    show ?thesis
    proof (cases r)
      case (Inl e)
      then show ?thesis using create(2) unfolding create_federated_def Let_def by (auto split: sum.splits)
    next
      case (Inr l)
      note safe = create_federated_safe[OF inv create(2)[unfolded Inr]]
      show ?thesis using safe create(1) by (simp add: Inr)
    qed
  qed
qed

subsection \<open>Sessions\<close>

text \<open>
  C16: When a refresh token is exchanged the session keeps its identity, user and organization, answers to the new
  tokens with the new deadlines and to no other access or refresh token, so the old pair is dead; every
  other session is untouched; and a second exchange of the same refresh token, whatever new tokens it proposes, changes
  nothing and reports false.
\<close>

theorem refresh_token_single_use:
  assumes "account_reachable A" "rotate_session i A = (B, Ok True)"
    "rs_refresh_token_hash i \<noteq> rs_expected_refresh_token_hash i"
  shows "\<exists>s. session_by_refresh_hash (rs_expected_refresh_token_hash i) A = Some s \<and> bs_id s = rs_session_id i \<and> bs_revoked_at s = None \<and>
      (let s' = s\<lparr>bs_access_expires_at := rs_access_expires_at i, bs_refresh_expires_at := rs_refresh_expires_at i\<rparr>
       in session_by_refresh_hash (rs_refresh_token_hash i) B = Some s' \<and> session_by_access_hash (rs_access_token_hash i) B = Some s' \<and>
          session_by_refresh_hash (rs_expected_refresh_token_hash i) B = None \<and>
          (\<forall>h t. session_by_access_hash h B = Some t \<longrightarrow> bs_id t = rs_session_id i \<longrightarrow> h = rs_access_token_hash i)) \<and>
      (\<forall>k. k \<noteq> rs_session_id i \<longrightarrow> hm_get (ac_sessions B) k = hm_get (ac_sessions A) k) \<and>
      (\<forall>j. rs_session_id j = rs_session_id i \<longrightarrow> rs_expected_refresh_token_hash j = rs_expected_refresh_token_hash i \<longrightarrow>
         rotate_session j B = (B, Ok False))"
proof -
  have inv: "account_inv A" by (rule account_reachable_inv[OF assms(1)])
  have invB: "account_inv B" using inv_rotate_session[OF inv, of i] assms(2) by simp
  note ok = account_invD(4)[OF inv]
  obtain r where r: "hm_get (ac_sessions A) (rs_session_id i) = Some r" "sn_refresh_token_hash r = rs_expected_refresh_token_hash i"
      "bs_revoked_at (sn_session r) = None" and B: "B = A\<lparr>ac_sessions := hm_insert (rs_session_id i) (rotated i r) (ac_sessions A)\<rparr>"
    using assms(2) by (auto simp: rotate_session_def split: option.splits if_splits)
  have get: "hm_get (ac_sessions B) = (hm_get (ac_sessions A))(rs_session_id i \<mapsto> rotated i r)"
    using table_ok_wf[OF ok] by (simp add: B)
  have id: "bs_id (sn_session r) = rs_session_id i" using table_ok_row[OF ok r(1)] by simp
  have gone: "sn_refresh_token_hash t \<noteq> rs_expected_refresh_token_hash i" if "hm_get (ac_sessions B) k = Some t" for k t
    using that assms(3) r table_ok_unique[OF ok, of "\<lambda>_ s. sn_refresh_token_hash s" k t "rs_session_id i" r]
    by (auto simp: get rotated_def split: if_splits)
  then have "session_by_refresh_hash (rs_expected_refresh_token_hash i) B = None"
    using session_by_refresh_hash_iff[OF invB, of "rs_expected_refresh_token_hash i"] by (metis option.exhaust)
  moreover have "rotate_session j B = (B, Ok False)"
    if "rs_session_id j = rs_session_id i" "rs_expected_refresh_token_hash j = rs_expected_refresh_token_hash i" for j
    using that assms(3) by (simp add: rotate_session_def get rotated_def)
  ultimately show ?thesis
    using id r by (intro exI[of _ "sn_session r"])
      (auto simp: session_by_refresh_hash_iff[OF inv] session_by_refresh_hash_iff[OF invB] session_by_access_hash_iff[OF invB] get rotated_def Let_def)
qed

subsection \<open>Lockout\<close>

text \<open>Failed passwords at the times \<open>ts\<close>, one after the other, with the answers of the store.\<close>

fun failed_logins :: "string \<Rightarrow> i64 list \<Rightarrow> i64 \<Rightarrow> i64 \<Rightarrow> AccountDb \<Rightarrow> AccountDb \<times> i64 option list" where
  "failed_logins user [] max_attempts lock A = (A, [])"
| "failed_logins user (t # ts) max_attempts lock A =
     (let (A1, r) = record_failed_login user t max_attempts lock A; (A2, rs) = failed_logins user ts max_attempts lock A1
      in (A2, r # rs))"

lemma failed_logins_wf: "hm_wf (ac_users A) \<Longrightarrow> hm_wf (ac_users (fst (failed_logins user ts m lock A)))"
proof (induction user ts m lock A rule: failed_logins.induct)
  case (2 user t ts m lock A)
  obtain A1 r where A1: "record_failed_login user t m lock A = (A1, r)" by force
  have "hm_wf (ac_users A1)" using 2(2) A1 by (auto simp: record_failed_login_def Let_def split: option.splits if_splits)
  with 2(1)[OF A1[symmetric]] A1 show ?case by (auto split: prod.splits)
qed simp

lemma failed_logins_count:
  assumes "account_inv A" "hm_get (ac_users A) user = Some r" "ur_locked_until r = None" "ts \<noteq> []"
    "ur_failed_login_attempts r \<ge> 0" "ur_failed_login_attempts r + int (length ts) = max max_attempts 1"
  shows "\<exists>B r'. failed_logins user ts max_attempts lock A =
      (B, replicate (length ts - 1) None @ [Some (lock_deadline (last ts) lock)]) \<and>
      hm_get (ac_users B) user = Some r' \<and> ur_locked_until r' = Some (lock_deadline (last ts) lock) \<and> ur_failed_login_attempts r' = 0"
  using assms
proof (induction ts arbitrary: A r)
  case (Cons t ts)
  note wf = table_ok_wf[OF account_invD(1)[OF Cons.prems(1)]]
  show ?case
  proof (cases "ts = []")
    case True
    with Cons.prems wf show ?thesis by (auto simp: record_failed_login_def Let_def)
  next
    case False
    let ?r = "r\<lparr>ur_failed_login_attempts := ur_failed_login_attempts r + 1, ur_locked_until := None, ur_user := (ur_user r)\<lparr>us_updated_at := t\<rparr>\<rparr>"
    let ?A = "A\<lparr>ac_users := hm_insert user ?r (ac_users A)\<rparr>"
    have more_than: "ur_failed_login_attempts r + 1 < max max_attempts 1"
      using Cons.prems(6) False by (cases ts) simp_all
    then have step: "record_failed_login user t max_attempts lock A = (?A, None)"
      using Cons.prems(2,3) by (auto simp: record_failed_login_def Let_def)
    have inv: "account_inv ?A" using inv_failed_login[OF Cons.prems(1), of user t max_attempts lock] step by simp
    have "hm_get (ac_users ?A) user = Some ?r" "ur_locked_until ?r = None" "ur_failed_login_attempts ?r \<ge> 0"
      "ur_failed_login_attempts ?r + int (length ts) = max max_attempts 1"
      using wf Cons.prems(5,6) by simp_all
    from Cons.IH[OF inv this(1,2) False this(3,4)]
    obtain B r' where "failed_logins user ts max_attempts lock ?A = (B, replicate (length ts - 1) None @ [Some (lock_deadline (last ts) lock)])"
      "hm_get (ac_users B) user = Some r'" "ur_locked_until r' = Some (lock_deadline (last ts) lock)" "ur_failed_login_attempts r' = 0"
      by blast
    moreover have "None # replicate (length ts - 1) None = replicate (length ts) (None :: i64 option)"
      using False by (cases ts) simp_all
    ultimately show ?thesis using step False by (simp del: replicate_Suc)
  qed
qed simp

text \<open>
  An account with no failed password on record locks at exactly the configured attempt (at least one), and
  not before: every earlier failure is answered without a lock, the last one with a deadline that lies the
  configured time after it, saturating at the largest timestamp. Until then the account reports the lock and further
  failures change nothing; from the deadline on it is open again, and the first failure after it counts as the first.
\<close>

theorem lockout_exact:
  assumes "account_reachable A" "hm_get (ac_users A) user = Some r" "ur_locked_until r = None" "ur_failed_login_attempts r = 0"
    "int (length ts) = max max_attempts 1"
  shows "\<exists>B. failed_logins user ts max_attempts lock A =
      (B, replicate (length ts - 1) None @ [Some (lock_deadline (last ts) lock)]) \<and>
      (\<forall>now < lock_deadline (last ts) lock. login_lock_until user now B = Some (lock_deadline (last ts) lock) \<and>
         record_failed_login user now max_attempts lock B = (B, Some (lock_deadline (last ts) lock))) \<and>
      (\<forall>now \<ge> lock_deadline (last ts) lock. login_lock_until user now B = None \<and>
         (max_attempts > 1 \<longrightarrow> (\<exists>C r'. record_failed_login user now max_attempts lock B = (C, None) \<and>
            hm_get (ac_users C) user = Some r' \<and> ur_failed_login_attempts r' = 1 \<and> ur_locked_until r' = None)))"
proof -
  have inv: "account_inv A" by (rule account_reachable_inv[OF assms(1)])
  have "ts \<noteq> []" using assms(5) by auto
  from failed_logins_count[OF inv assms(2,3) this] assms(4,5)
  obtain B r' where B: "failed_logins user ts max_attempts lock A = (B, replicate (length ts - 1) None @ [Some (lock_deadline (last ts) lock)])"
    "hm_get (ac_users B) user = Some r'" "ur_locked_until r' = Some (lock_deadline (last ts) lock)" "ur_failed_login_attempts r' = 0"
    by fastforce
  have wf: "hm_wf (ac_users B)"
    using failed_logins_wf[OF table_ok_wf[OF account_invD(1)[OF inv]], of user ts max_attempts lock] B(1) by simp
  show ?thesis using B wf
    by (intro exI[of _ B]) (auto simp: login_lock_until_def record_failed_login_def Let_def)
qed

subsection \<open>Invitations and members\<close>

text \<open>
  Accepting an invitation makes the user a member with the invited role, which is never owner, unless the
  user was a member already, whose role stays as it was; no other membership changes. From then on the same code is
  refused for every user at every time, with the conflict and no effect.
\<close>

theorem invitation_single_use:
  assumes "account_reachable A" "accept_organization_invite code user now A = (B, Ok ms)"
  shows "\<exists>i v. hm_get (ac_invites A) i = Some (code, v) \<and> oir_revoked_at v = None \<and> oir_accepted_at v = None \<and> now < oir_expires_at v \<and>
      ms_organization_id ms = oir_organization_id v \<and> membership (oir_organization_id v) user B = Some ms \<and>
      ms_role ms = (case membership (oir_organization_id v) user A of Some m \<Rightarrow> ms_role m | None \<Rightarrow> role_or_viewer (oir_role v)) \<and>
      oir_role v \<noteq> ''owner'' \<and>
      (\<forall>k. k \<noteq> (oir_organization_id v, user) \<longrightarrow> hm_get (ac_memberships B) k = hm_get (ac_memberships A) k) \<and>
      (\<forall>user' now'. accept_organization_invite code user' now' B =
         (B, Err (SConflict ''organization invitation is expired, used, or revoked'')))"
proof -
  have inv: "account_inv A" by (rule account_reachable_inv[OF assms(1)])
  have invB: "account_inv B" using inv_accept[OF inv, of code user now] assms(2) by simp
  note ok = account_invD(7)[OF inv] and okB = account_invD(7)[OF invB]
  have found: "find (\<lambda>(i, h, v). h = code) (ac_invites X) = Some (i, h, v) \<longleftrightarrow> hm_get (ac_invites X) i = Some (h, v) \<and> h = code"
    if "account_inv X" for X i h v
    using table_ok_find[OF account_invD(7)[OF that], of fst code i "(h, v)"] by (simp add: case_prod_unfold)
  obtain i h v where f0: "find (\<lambda>(i, h, v). h = code) (ac_invites A) = Some (i, h, v)"
    and open': "oir_accepted_at v = None" "oir_revoked_at v = None" "now < oir_expires_at v"
    using assms(2) by (auto simp: accept_organization_invite_def split: option.splits if_splits)
  then have row: "hm_get (ac_invites A) i = Some (code, v)" and f: "find (\<lambda>(i, h, v). h = code) (ac_invites A) = Some (i, code, v)"
    using found[OF inv, of i h v] by auto
  let ?org = "oir_organization_id v"
  let ?v = "v\<lparr>oir_accepted_at := Some now, oir_accepted_by_user_id := Some user\<rparr>"
  note wf = table_ok_wf[OF account_invD(3)[OF inv]] table_ok_wf[OF ok]
  have B: "ac_invites B = update_key i (\<lambda>(h, v). (h, v\<lparr>oir_accepted_at := Some now, oir_accepted_by_user_id := Some user\<rparr>)) (ac_invites A)"
    "ac_organizations B = ac_organizations A" "ms_organization_id ms = ?org" "ms_user_id ms = user"
    using assms(2) open' by (auto simp: accept_organization_invite_def f Let_def split: option.splits if_splits)
  have "hm_get (ac_invites B) i = Some (code, ?v)" using wf(2) row by (simp add: B)
  then have "find (\<lambda>(i, h, v). h = code) (ac_invites B) = Some (i, code, ?v)" using found[OF invB] by simp
  then have refused: "accept_organization_invite code user' now' B = (B, Err (SConflict ''organization invitation is expired, used, or revoked''))" for user' now'
    by (simp add: accept_organization_invite_def)
  have mem: "membership ?org user B = Some ms"
      "ms_role ms = (case membership ?org user A of Some m \<Rightarrow> ms_role m | None \<Rightarrow> role_or_viewer (oir_role v))"
      "\<And>k. k \<noteq> (?org, user) \<Longrightarrow> hm_get (ac_memberships B) k = hm_get (ac_memberships A) k"
    using assms(2) open' wf(1)
    by (auto simp: accept_organization_invite_def membership_def new_membership_def f Let_def split: option.splits if_splits)
  have "oir_role v \<noteq> ''owner''" using table_ok_row[OF ok row] by simp
  then show ?thesis using row open' mem refused B(3) by blast
qed

text \<open>
  C24: Removing a member leaves the user without a role in the organization: no session and no API key of the user in it
  is found any more under any secret, every worker credential the user owns there is revoked, and those credentials are exactly
  the ones reported. Memberships of others and of other organizations stay as they were.
\<close>

theorem removed_member_cut_off:
  assumes "account_reachable A" "remove_member org user now A = (B, Ok (Some ids))"
  shows "membership org user B = None \<and>
      (\<forall>h s. session_by_access_hash h B = Some s \<or> session_by_refresh_hash h B = Some s \<longrightarrow> (bs_organization_id s, bs_user_id s) \<noteq> (org, user)) \<and>
      (\<forall>ps h k. api_key_by_hash ps h B = Some k \<longrightarrow> (ak_organization_id k, ak_creator_user_id k) \<noteq> (org, user)) \<and>
      (\<forall>i h c. hm_get (ac_worker_credentials B) i = Some (h, c) \<longrightarrow> wcr_organization_id c = org \<longrightarrow> wcr_owner_user_id c = Some user \<longrightarrow>
         wcr_revoked_at c \<noteq> None \<and> i \<in> set ids) \<and>
      (\<forall>i\<in>set ids. \<exists>h c. hm_get (ac_worker_credentials A) i = Some (h, c) \<and> wcr_organization_id c = org \<and> wcr_owner_user_id c = Some user) \<and>
      (\<forall>k. k \<noteq> (org, user) \<longrightarrow> hm_get (ac_memberships B) k = hm_get (ac_memberships A) k)"
proof -
  have inv: "account_inv A" by (rule account_reachable_inv[OF assms(1)])
  have invB: "account_inv B" using inv_remove[OF inv, of org user now] assms(2) by simp
  let ?edit = "\<lambda>(k :: string) r. (fst r, if wcr_organization_id (snd r) = org \<and> wcr_owner_user_id (snd r) = Some user
        then (snd r)\<lparr>wcr_revoked_at := coalesce (wcr_revoked_at (snd r)) (Some now)\<rparr> else snd r)"
  have B: "B = delete_memberships (\<lambda>k. k = (org, user))
        (A\<lparr>ac_worker_credentials := map (\<lambda>(k, r). (k, ?edit k r)) (ac_worker_credentials A)\<rparr>)"
    and ids: "ids = map fst (filter (\<lambda>(i, h, c). wcr_organization_id c = org \<and> wcr_owner_user_id c = Some user) (ac_worker_credentials A))"
    using assms(2) by (auto simp: remove_member_def Let_def case_prod_unfold split: option.splits if_splits)
  note wf = table_ok_wf[OF account_invD(3)[OF inv]] and cwf = table_ok_wf[OF account_invD(6)[OF inv]]
  have get: "hm_get (ac_memberships B) k = (if k = (org, user) then None else hm_get (ac_memberships A) k)" for k
    using wf by (auto simp: B delete_memberships_def hm_get_retain split: option.splits)
  then have gone: "\<not> hm_contains (ac_memberships B) (org, user)" by (simp add: hm_contains_def)
  have ses: "(bs_organization_id s, bs_user_id s) \<noteq> (org, user)" if "hm_get (ac_sessions B) k = Some r" "sn_session r = s" for k r s
    using table_ok_row[OF account_invD(4)[OF invB] that(1)] that(2) gone by auto
  have key: "(ak_organization_id k, ak_creator_user_id k) \<noteq> (org, user)" if "api_key_by_hash ps h B = Some k" for ps h k
    using key_member[OF invB that] gone by metis
  have id_iff: "i \<in> set ids \<longleftrightarrow> (\<exists>h c. hm_get (ac_worker_credentials A) i = Some (h, c) \<and> wcr_organization_id c = org \<and> wcr_owner_user_id c = Some user)" for i
    using cwf by (force simp: ids hm_mem_iff)
  have creds: "wcr_revoked_at c \<noteq> None \<and> i \<in> set ids"
    if row: "hm_get (ac_worker_credentials B) i = Some (h, c)" "wcr_organization_id c = org" "wcr_owner_user_id c = Some user" for i h c
  proof -
    have "ac_worker_credentials B = map (\<lambda>(k, r). (k, ?edit k r)) (ac_worker_credentials A)" by (simp add: B delete_memberships_def)
    then have "hm_get (ac_worker_credentials B) i = map_option (?edit i) (hm_get (ac_worker_credentials A) i)"
      by (simp only: hm_get_map[of ?edit])
    then have "map_option (?edit i) (hm_get (ac_worker_credentials A) i) = Some (h, c)" using row(1) by (simp only:)
    then obtain r where r: "hm_get (ac_worker_credentials A) i = Some r" "?edit i r = (h, c)" unfolding map_option_eq_Some by blast
    have own: "wcr_organization_id (snd r) = org \<and> wcr_owner_user_id (snd r) = Some user"
      using r(2) row(2,3) by (auto split: if_splits)
    then have "wcr_revoked_at c \<noteq> None" using r(2) by (auto simp: coalesce_def split: option.splits)
    then show ?thesis unfolding id_iff using r(1) own by (cases r) auto
  qed
  have sess: "(bs_organization_id s, bs_user_id s) \<noteq> (org, user)"
    if "session_by_access_hash h B = Some s \<or> session_by_refresh_hash h B = Some s" for h s
    using that ses unfolding session_by_access_hash_iff[OF invB] session_by_refresh_hash_iff[OF invB] by blast
  have "membership org user B = None" by (simp add: membership_def get)
  moreover have "hm_get (ac_memberships B) k = hm_get (ac_memberships A) k" if "k \<noteq> (org, user)" for k
    using that by (simp add: get)
  ultimately show ?thesis using sess key creds id_iff by blast
qed

subsection \<open>A sample store\<close>

text \<open>Ann owns an organization, Bob has joined it by an invitation, has a session in it and an account of his own.\<close>

definition sample_rows :: Db where
  "sample_rows =
     \<lparr>db_jobs = [], db_job_events = [], db_quota_policies = [], db_quota_usage = [], db_usage_ledger = [], db_dispatch_outbox = [],
      db_idempotency = [], db_artifacts = [], db_upload_requests = [], db_workers = [], db_device_grants = [], db_job_batches = [],
      db_job_dispatch_queue = [], db_job_input_artifacts = [], db_batch_idempotency = []\<rparr>"

definition sample_invite :: NewOrganizationInvite where
  "sample_invite =
     \<lparr>ni_id = ''i1'', ni_organization_id = ''acme'', ni_inviter_user_id = ''ann'', ni_code_prefix = ''noi'', ni_code_hash = ''code'',
      ni_role = Operator, ni_created_at = 3, ni_expires_at = 100\<rparr>"

definition sample_session :: NewSession where
  "sample_session =
     \<lparr>ns_id = ''s1'', ns_user_id = ''bob'', ns_organization_id = ''acme'', ns_access_token_hash = ''a1'', ns_refresh_token_hash = ''r1'',
      ns_csrf_token_hash = ''c1'', ns_family_id = ''f1'', ns_now = 5, ns_access_expires_at = 50, ns_refresh_expires_at = 500\<rparr>"

definition sample_rotation :: RotateSession where
  "sample_rotation =
     \<lparr>rs_session_id = ''s1'', rs_expected_refresh_token_hash = ''r1'', rs_access_token_hash = ''a2'', rs_refresh_token_hash = ''r2'',
      rs_now = 10, rs_access_expires_at = 60, rs_refresh_expires_at = 600\<rparr>"

definition sample_invited :: AccountDb where
  "sample_invited =
     fst (create_organization_invite sample_invite
       (fst (register_user ''bob'' ''home'' 2 ''bob@x.org'' ''hb'' ''Home''
         (fst (register_user ''ann'' ''acme'' 1 '' Ann@x.org '' ''ha'' ''Acme'' (no_accounts sample_rows))))))"

definition sample_accounts :: AccountDb where
  "sample_accounts = fst (create_session sample_session (fst (accept_organization_invite ''code'' ''bob'' 4 sample_invited)))"

lemma sample_reachable: "account_reachable sample_invited" "account_reachable sample_accounts"
proof -
  show invited: "account_reachable sample_invited" unfolding sample_invited_def
    by (rule account_reachable.step[OF account_reachable.step[OF account_reachable.step[OF account_reachable.fresh]]])
      (rule account_step.register account_step.invite)+
  show "account_reachable sample_accounts" unfolding sample_accounts_def
    by (rule account_reachable.step[OF account_reachable.step[OF invited]]) (rule account_step.invite_accept account_step.session)+
qed


theorem federated_login_safe_witness:
  "snd (resolve_federated_identity ''new'' ''new-org'' 20 ''github'' ''42'' ''BOB@x.org'' False ''N'' sample_accounts) =
     Err (SConflict ''provider did not verify the address'') \<and>
   fst (resolve_federated_identity ''new'' ''new-org'' 20 ''github'' ''42'' ''BOB@x.org'' False ''N'' sample_accounts) = sample_accounts"
proof -
  have "snd (resolve_federated_identity ''new'' ''new-org'' 20 ''github'' ''42'' ''BOB@x.org'' False ''N'' sample_accounts) =
     Err (SConflict ''provider did not verify the address'')" by code_simp
  with federated_login_safe[OF sample_reachable(2) surjective_pairing, of "''new''" "''new-org''" 20 "''github''" "''42''" "''BOB@x.org''" False "''N''"]
  show ?thesis by simp
qed

theorem refresh_token_single_use_witness:
  "snd (rotate_session sample_rotation sample_accounts) = Ok True \<and>
   session_by_refresh_hash ''r1'' (fst (rotate_session sample_rotation sample_accounts)) = None"
proof -
  have "snd (rotate_session sample_rotation sample_accounts) = Ok True" by code_simp
  moreover from this have "rotate_session sample_rotation sample_accounts = (fst (rotate_session sample_rotation sample_accounts), Ok True)"
    by (metis surjective_pairing)
  ultimately show ?thesis
    using refresh_token_single_use[OF sample_reachable(2), of sample_rotation] by (auto simp: sample_rotation_def Let_def)
qed

theorem lockout_exact_witness:
  "snd (failed_logins ''bob'' [10, 11, 12] 3 60 sample_accounts) = [None, None, Some (lock_deadline 12 60)]"
proof -
  have "\<exists>r. hm_get (ac_users sample_accounts) ''bob'' = Some r \<and> ur_locked_until r = None \<and> ur_failed_login_attempts r = 0"
    by (rule exI[of _ "the (hm_get (ac_users sample_accounts) ''bob'')"]) code_simp
  then obtain r where "hm_get (ac_users sample_accounts) ''bob'' = Some r" "ur_locked_until r = None" "ur_failed_login_attempts r = 0"
    by blast
  from lockout_exact[OF sample_reachable(2) this, of "[10, 11, 12]" 3 60] show ?thesis by auto
qed

theorem invitation_single_use_witness:
  "snd (accept_organization_invite ''code'' ''bob'' 4 sample_invited) \<noteq> Err Database \<and>
   snd (accept_organization_invite ''code'' ''ann'' 5 (fst (accept_organization_invite ''code'' ''bob'' 4 sample_invited))) =
     Err (SConflict ''organization invitation is expired, used, or revoked'')"
proof -
  have ok: "case snd (accept_organization_invite ''code'' ''bob'' 4 sample_invited) of Ok ms \<Rightarrow> True | Err e \<Rightarrow> False" by code_simp
  then obtain ms where "snd (accept_organization_invite ''code'' ''bob'' 4 sample_invited) = Ok ms" by (auto split: sum.splits)
  moreover from this have "accept_organization_invite ''code'' ''bob'' 4 sample_invited =
      (fst (accept_organization_invite ''code'' ''bob'' 4 sample_invited), Ok ms)" by (metis surjective_pairing)
  ultimately show ?thesis using invitation_single_use[OF sample_reachable(1)] by fastforce
qed

theorem removed_member_cut_off_witness:
  "session_by_access_hash ''a1'' sample_accounts \<noteq> None \<and>
   membership ''acme'' ''bob'' (fst (remove_member ''acme'' ''bob'' 30 sample_accounts)) = None"
proof -
  have "snd (remove_member ''acme'' ''bob'' 30 sample_accounts) = Ok (Some [])" by code_simp
  then have "remove_member ''acme'' ''bob'' 30 sample_accounts = (fst (remove_member ''acme'' ''bob'' 30 sample_accounts), Ok (Some []))"
    by (metis surjective_pairing)
  from removed_member_cut_off[OF sample_reachable(2) this]
  have "membership ''acme'' ''bob'' (fst (remove_member ''acme'' ''bob'' 30 sample_accounts)) = None" by blast
  moreover have "session_by_access_hash ''a1'' sample_accounts \<noteq> None" by code_simp
  ultimately show ?thesis by blast
qed

end
