(* ===== verification/Rate_Limiter.thy ===== *)
theory Rate_Limiter
  imports Hub_Base Recency
begin

text \<open>
  The rate limiter of the hub, \<open>apps/nagisalake-hub/src/ratelimit.rs\<close>: token buckets in sixteen shards, each with a
  bounded table and a queue of accesses that decides which bucket a full shard forgets. The floating
  point numbers of the source are the reals they denote; \<open>rnd\<close>, a parameter, rounds the exact
  result of an operation to a representable one. The hash of a bucket, keyed by a seed the process draws, is
  the parameter \<open>hash\<close>. A panic of \<open>Duration::from_secs_f64\<close> is the decision \<open>None\<close>.
\<close>

subsection \<open>Token buckets\<close>

record Quota =
  qt_capacity :: real
  qt_refill_per_second :: real

definition quota_new :: "u32 \<Rightarrow> real \<Rightarrow> Quota" where
  "quota_new capacity refill = \<lparr>qt_capacity = real (unat capacity), qt_refill_per_second = refill\<rparr>"

text \<open>\<open>Duration::as_secs_f64\<close> and \<open>Duration::from_secs_f64\<close>, on nanoseconds: ties round to even, a value out of range panics.\<close>

definition as_secs_f64 :: "(real \<Rightarrow> real) \<Rightarrow> nat \<Rightarrow> real" where
  "as_secs_f64 rnd ns = rnd (rnd (real (ns div 10 ^ 9)) + rnd (real (ns mod 10 ^ 9) / 10 ^ 9))"

definition round_half_even :: "real \<Rightarrow> int" where
  "round_half_even x =
     (let f = \<lfloor>x\<rfloor>; d = x - of_int f in if d < 1/2 \<or> (d = 1/2 \<and> even f) then f else f + 1)"

definition from_secs_f64 :: "real \<Rightarrow> nat option" where
  "from_secs_f64 x =
     (let ns = round_half_even (x * 10 ^ 9) in if x < 0 \<or> ns \<ge> 2 ^ 64 * 10 ^ 9 then None else Some (nat ns))"

definition retry_after :: "(real \<Rightarrow> real) \<Rightarrow> Quota \<Rightarrow> real \<Rightarrow> nat option" where
  "retry_after rnd quota tokens =
     (if qt_refill_per_second quota \<le> 0 then Some (3600 * 10 ^ 9)
      else from_secs_f64 (rnd (max (rnd (1 - tokens)) 0 / qt_refill_per_second quota)))"

record Bucket =
  bk_scope :: string
  bk_key :: string
  bk_tokens :: real
  bk_last_seen :: nat
  bk_sequence :: u64

datatype Decision = Allow | Deny u64

definition consume :: "(real \<Rightarrow> real) \<Rightarrow> nat \<Rightarrow> Quota \<Rightarrow> Bucket \<Rightarrow> Bucket \<times> Decision option" where
  "consume rnd now quota b =
     (let elapsed = as_secs_f64 rnd (now - bk_last_seen b);
          tokens = min (rnd (bk_tokens b + rnd (elapsed * qt_refill_per_second quota))) (qt_capacity quota)
      in if tokens \<ge> 1 then (b\<lparr>bk_tokens := rnd (tokens - 1), bk_last_seen := now\<rparr>, Some Allow)
         else (b\<lparr>bk_tokens := tokens, bk_last_seen := now\<rparr>,
               map_option (\<lambda>ns. Deny (max (of_nat (ns div 10 ^ 9)) 1)) (retry_after rnd quota tokens)))"

subsection \<open>Shards\<close>

record Shard =
  sh_buckets :: "Bucket list"
  sh_order :: "(u64 \<times> u64) list"
  sh_next_sequence :: u64

definition MAX_BUCKETS :: nat where
  "MAX_BUCKETS = 100000"

definition SHARDS :: nat where
  "SHARDS = 16"

definition MAX_BUCKETS_PER_SHARD :: nat where
  "MAX_BUCKETS_PER_SHARD = MAX_BUCKETS div SHARDS"

definition IDLE_EVICTION :: nat where
  "IDLE_EVICTION = 3600 * 10 ^ 9"

text \<open>
  \<open>HashTable::find\<close> calls its predicate on every entry with the hash it is given; the predicates of the limiter
  hold of one entry at most.
\<close>

definition has_slot :: "(string \<Rightarrow> string \<Rightarrow> u64) \<Rightarrow> u64 \<times> u64 \<Rightarrow> Bucket \<Rightarrow> bool" where
  "has_slot hash slot b \<longleftrightarrow> hash (bk_scope b) (bk_key b) = snd slot \<and> bk_sequence b = fst slot"

definition same_key :: "string \<Rightarrow> string \<Rightarrow> Bucket \<Rightarrow> bool" where
  "same_key scope key b \<longleftrightarrow> bk_scope b = scope \<and> bk_key b = key"

definition record_access :: "(string \<Rightarrow> string \<Rightarrow> u64) \<Rightarrow> u64 \<Rightarrow> u64 \<Rightarrow> Shard \<Rightarrow> Shard" where
  "record_access hash sequence h s =
     (let order = sh_order s @ [(sequence, h)]
      in s\<lparr>sh_order := (if length order > MAX_BUCKETS_PER_SHARD * 2
             then filter (\<lambda>slot. \<exists>b\<in>set (sh_buckets s). has_slot hash slot b) order else order)\<rparr>)"

fun evict_slots :: "(string \<Rightarrow> string \<Rightarrow> u64) \<Rightarrow> (u64 \<times> u64) list \<Rightarrow> Bucket list \<Rightarrow> (u64 \<times> u64) list \<times> Bucket list" where
  "evict_slots hash [] bs = ([], bs)"
| "evict_slots hash (slot # order) bs =
     (case find (has_slot hash slot) bs of
        Some b \<Rightarrow> (order, remove1 b bs)
      | None \<Rightarrow> evict_slots hash order bs)"

definition shard_evict_oldest :: "(string \<Rightarrow> string \<Rightarrow> u64) \<Rightarrow> Shard \<Rightarrow> Shard" where
  "shard_evict_oldest hash s =
     (case evict_slots hash (sh_order s) (sh_buckets s) of (order, bs) \<Rightarrow> s\<lparr>sh_order := order, sh_buckets := bs\<rparr>)"

definition new_shard :: Shard where
  "new_shard = \<lparr>sh_buckets = [], sh_order = [], sh_next_sequence = 0\<rparr>"

text \<open>\<open>check\<close> on the locked shard: a hit never evicts; a miss in a full table first forgets the oldest bucket.\<close>

definition shard_check ::
  "(real \<Rightarrow> real) \<Rightarrow> (string \<Rightarrow> string \<Rightarrow> u64) \<Rightarrow> nat \<Rightarrow> string \<Rightarrow> string \<Rightarrow> Quota \<Rightarrow> Shard \<Rightarrow> Shard \<times> Decision option" where
  "shard_check rnd hash now scope key quota s =
     (let sequence = sh_next_sequence s; s = s\<lparr>sh_next_sequence := sequence + 1\<rparr>
      in case find (same_key scope key) (sh_buckets s) of
           Some b \<Rightarrow>
             (case consume rnd now quota (b\<lparr>bk_sequence := sequence\<rparr>) of (b', d) \<Rightarrow>
                let s = s\<lparr>sh_buckets := map (\<lambda>x. if x = b then b' else x) (sh_buckets s)\<rparr>
                in (if d = None then s else record_access hash sequence (hash scope key) s, d))
         | None \<Rightarrow>
             let s = (if length (sh_buckets s) \<ge> MAX_BUCKETS_PER_SHARD then shard_evict_oldest hash s else s)
             in case consume rnd now quota
                  \<lparr>bk_scope = scope, bk_key = key, bk_tokens = qt_capacity quota, bk_last_seen = now, bk_sequence = sequence\<rparr> of
                  (b', d) \<Rightarrow>
                    (if d = None then s
                     else record_access hash sequence (hash scope key) (s\<lparr>sh_buckets := b' # sh_buckets s\<rparr>), d))"

subsection \<open>The limiter\<close>

record Limits =
  lm_login_per_ip :: Quota
  lm_login_per_account :: Quota
  lm_register_per_ip :: Quota
  lm_refresh_per_ip :: Quota
  lm_submit_per_org :: Quota
  lm_oauth_per_ip :: Quota

definition default_limits :: "(real \<Rightarrow> real) \<Rightarrow> Limits" where
  "default_limits rnd =
     \<lparr>lm_login_per_ip = quota_new 10 (rnd (1 / 6)), lm_login_per_account = quota_new 10 (rnd (1 / 30)),
      lm_register_per_ip = quota_new 3 (rnd (1 / 600)), lm_refresh_per_ip = quota_new 60 1,
      lm_submit_per_org = quota_new 60 2, lm_oauth_per_ip = quota_new 10 (rnd (1 / 10))\<rparr>"

record RateLimiter =
  rl_shards :: "Shard list"
  rl_enabled :: bool

definition limiter_new :: RateLimiter where
  "limiter_new = \<lparr>rl_shards = replicate SHARDS new_shard, rl_enabled = True\<rparr>"

definition limiter_disabled :: RateLimiter where
  "limiter_disabled = \<lparr>rl_shards = replicate SHARDS new_shard, rl_enabled = False\<rparr>"

definition shard_for :: "u64 \<Rightarrow> nat" where
  "shard_for h = unat (drop_bit 32 h) mod SHARDS"

definition check ::
  "(real \<Rightarrow> real) \<Rightarrow> (string \<Rightarrow> string \<Rightarrow> u64) \<Rightarrow> nat \<Rightarrow> string \<Rightarrow> string \<Rightarrow> Quota \<Rightarrow> RateLimiter \<Rightarrow> RateLimiter \<times> Decision option" where
  "check rnd hash now scope key quota l =
     (if \<not> rl_enabled l then (l, Some Allow)
      else
        let i = shard_for (hash scope key)
        in case shard_check rnd hash now scope key quota (rl_shards l ! i) of
             (s, d) \<Rightarrow> (l\<lparr>rl_shards := (rl_shards l)[i := s]\<rparr>, d))"

definition reset :: "(string \<Rightarrow> string \<Rightarrow> u64) \<Rightarrow> string \<Rightarrow> string \<Rightarrow> RateLimiter \<Rightarrow> RateLimiter" where
  "reset hash scope key l =
     (if \<not> rl_enabled l then l
      else
        let i = shard_for (hash scope key); s = rl_shards l ! i
        in case find (same_key scope key) (sh_buckets s) of
             Some b \<Rightarrow> l\<lparr>rl_shards := (rl_shards l)[i := s\<lparr>sh_buckets := remove1 b (sh_buckets s)\<rparr>]\<rparr>
           | None \<Rightarrow> l)"

definition evict_idle :: "nat \<Rightarrow> RateLimiter \<Rightarrow> RateLimiter \<times> nat" where
  "evict_idle now l =
     (if \<not> rl_enabled l then (l, 0)
      else
        let keep = filter (\<lambda>b. now - bk_last_seen b < IDLE_EVICTION)
        in (l\<lparr>rl_shards := map (\<lambda>s. s\<lparr>sh_buckets := keep (sh_buckets s)\<rparr>) (rl_shards l)\<rparr>,
            sum_list (map (\<lambda>s. length (sh_buckets s) - length (keep (sh_buckets s))) (rl_shards l))))"

text \<open>The first value of a header, as text; the names are in lower case.\<close>

type_synonym HeaderMap = "(string, string) hash_map"

definition header_str :: "HeaderMap \<Rightarrow> string \<Rightarrow> string option" where
  "header_str headers name = Option.bind (hm_get headers name) header_to_str"

definition client_address :: "HeaderMap \<Rightarrow> string option \<Rightarrow> bool \<Rightarrow> string" where
  "client_address headers peer trust_forwarded_for =
     (case (if trust_forwarded_for
            then Option.bind (header_str headers ''x-forwarded-for'')
                   (\<lambda>v. find (\<lambda>a. a \<noteq> []) (rev (map trim (split_char (CHR '','') v))))
            else None) of
        Some a \<Rightarrow> a
      | None \<Rightarrow> case_option ''unknown'' id peer)"

end
