(* ===== verification/Rate_Limiter_Props.thy ===== *)
theory Rate_Limiter_Props
  imports Rate_Limiter
begin

text \<open>
  The rate limiter: the sharded table is a map from scopes and keys to token buckets from which a full shard drops its least
  recently used entry and nothing else, its memory is bounded, and a bucket allows no more attempts in a period
  than its capacity and its refill rate add up to, up to the rounding of the arithmetic.
\<close>

subsection \<open>Rounding\<close>

text \<open>What the standard for binary floating point promises of rounding to nearest in double precision.\<close>

definition rounding :: "(real \<Rightarrow> real) \<Rightarrow> bool" where
  "rounding rnd \<longleftrightarrow> mono rnd \<and> (\<forall>n. \<bar>n\<bar> \<le> 2 ^ 53 \<longrightarrow> rnd (of_int n) = of_int n) \<and>
     (\<forall>x. \<bar>x\<bar> \<le> 2 ^ 200 \<longrightarrow> \<bar>rnd x - x\<bar> \<le> \<bar>x\<bar> / 2 ^ 53 + 1 / 2 ^ 200)"

lemma rounding_id: "rounding (\<lambda>x. x)"
  by (simp add: rounding_def mono_def)

lemma rounding_mono: "rounding rnd \<Longrightarrow> x \<le> y \<Longrightarrow> rnd x \<le> rnd y"
  by (simp add: rounding_def mono_def)

lemma rounding_int: "rounding rnd \<Longrightarrow> \<bar>n\<bar> \<le> 2 ^ 53 \<Longrightarrow> rnd (of_int n) = of_int n"
  by (simp add: rounding_def)

lemma rounding_nat: "rounding rnd \<Longrightarrow> n \<le> 2 ^ 53 \<Longrightarrow> rnd (real n) = real n"
  using rounding_int[of rnd "int n"] by simp

lemma rounding_01 [simp]: "rounding rnd \<Longrightarrow> rnd 0 = 0" "rounding rnd \<Longrightarrow> rnd 1 = 1"
  using rounding_nat[of rnd 0] rounding_nat[of rnd 1] by simp_all

lemma rounding_nonneg: "rounding rnd \<Longrightarrow> 0 \<le> x \<Longrightarrow> 0 \<le> rnd x"
  using rounding_mono[of rnd 0 x] by simp

lemma rounding_err: "rounding rnd \<Longrightarrow> \<bar>x\<bar> \<le> 2 ^ 200 \<Longrightarrow> \<bar>rnd x - x\<bar> \<le> \<bar>x\<bar> / 2 ^ 53 + 1 / 2 ^ 200"
  unfolding rounding_def by blast

lemma rounding_up: "rounding rnd \<Longrightarrow> 0 \<le> x \<Longrightarrow> x \<le> 2 ^ 200 \<Longrightarrow> rnd x \<le> x + x / 2 ^ 53 + 1 / 2 ^ 200"
  using rounding_err[of rnd x] by linarith

subsection \<open>A bucket\<close>

text \<open>The limits of the hub: a whole number of tokens and a rate that is not vanishingly small.\<close>

definition quota_ok :: "Quota \<Rightarrow> bool" where
  "quota_ok q \<longleftrightarrow> (\<exists>n. qt_capacity q = real n \<and> 1 \<le> n \<and> n < 2 ^ 32) \<and> 1 / 1024 \<le> qt_refill_per_second q \<and> qt_refill_per_second q \<le> 2"

lemma retry_after_Some:
  assumes "rounding rnd" "quota_ok q" "0 \<le> tokens"
  shows "\<exists>ns. retry_after rnd q tokens = Some ns"
proof -
  define r where "r = qt_refill_per_second q"
  define x where "x = rnd (max (rnd (1 - tokens)) 0 / r)"
  have r: "1 / 1024 \<le> r" using assms(2) by (simp add: quota_ok_def r_def)
  have "rnd (1 - tokens) \<le> 1" using rounding_mono[OF assms(1), of "1 - tokens" 1] assms(1,3) by simp
  then have m: "0 \<le> max (rnd (1 - tokens)) 0 \<and> max (rnd (1 - tokens)) 0 \<le> 1" by simp
  then have "max (rnd (1 - tokens)) 0 / r \<le> 1024" using r by (simp add: field_simps)
  then have "x \<le> rnd 1024" unfolding x_def by (rule rounding_mono[OF assms(1)])
  then have hi: "x \<le> 1024" using rounding_nat[OF assms(1), of 1024] by simp
  have lo: "0 \<le> x" unfolding x_def using m r by (intro rounding_nonneg[OF assms(1)]) simp
  have "round_half_even (x * 10 ^ 9) \<le> \<lfloor>x * 10 ^ 9\<rfloor> + 1" by (simp add: round_half_even_def Let_def)
  also have "\<lfloor>x * 10 ^ 9\<rfloor> \<le> \<lfloor>(1024 :: real) * 10 ^ 9\<rfloor>" using hi by (intro floor_mono) simp
  finally have "round_half_even (x * 10 ^ 9) < 2 ^ 64 * 10 ^ 9" by simp
  then have "from_secs_f64 x \<noteq> None" using lo by (simp add: from_secs_f64_def Let_def)
  then show ?thesis using r by (auto simp: retry_after_def x_def r_def)
qed

lemma consume_keeps:
  assumes "consume rnd now q b = (b', d)"
  shows "bk_scope b' = bk_scope b" "bk_key b' = bk_key b" "bk_sequence b' = bk_sequence b" "bk_last_seen b' = now"
  using assms by (auto simp: consume_def Let_def split: if_splits)

lemma as_secs_nonneg: "rounding rnd \<Longrightarrow> 0 \<le> as_secs_f64 rnd ns"
  by (simp add: as_secs_f64_def rounding_nonneg)

lemma consume_tokens:
  assumes "rounding rnd" "quota_ok q" "0 \<le> bk_tokens b" "consume rnd now q b = (b', d)"
  shows "0 \<le> bk_tokens b'" "bk_tokens b' \<le> qt_capacity q" "d \<noteq> None"
proof -
  define t where "t = min (rnd (bk_tokens b + rnd (as_secs_f64 rnd (now - bk_last_seen b) * qt_refill_per_second q))) (qt_capacity q)"
  obtain n where n: "qt_capacity q = real n" "1 \<le> n" "n < 2 ^ 32" using assms(2) by (auto simp: quota_ok_def)
  have r: "0 \<le> qt_refill_per_second q" using assms(2) by (simp add: quota_ok_def)
  have t: "0 \<le> t" unfolding t_def using assms(1,3) r n
    by (simp add: rounding_nonneg as_secs_nonneg)
  have cap: "t \<le> qt_capacity q" by (simp add: t_def)
  have "rnd (t - 1) \<le> rnd (real n)" using cap n by (intro rounding_mono[OF assms(1)]) simp
  then have up: "rnd (t - 1) \<le> qt_capacity q" using rounding_nat[OF assms(1), of n] n by simp
  have lo: "0 \<le> rnd (t - 1)" if "1 \<le> t" using that by (intro rounding_nonneg[OF assms(1)]) simp
  have c: "consume rnd now q b =
     (if t \<ge> 1 then (b\<lparr>bk_tokens := rnd (t - 1), bk_last_seen := now\<rparr>, Some Allow)
         else (b\<lparr>bk_tokens := t, bk_last_seen := now\<rparr>,
               map_option (\<lambda>ns. Deny (max (of_nat (ns div 10 ^ 9)) 1)) (retry_after rnd q t)))"
    by (simp only: consume_def Let_def t_def)
  show "0 \<le> bk_tokens b'" "bk_tokens b' \<le> qt_capacity q" "d \<noteq> None"
    using assms(4) lo up t cap retry_after_Some[OF assms(1,2) t] by (auto simp: c split: if_splits)
qed

lemma default_limits_ok:
  assumes "rounding rnd"
  shows "quota_ok (lm_login_per_ip (default_limits rnd))" "quota_ok (lm_login_per_account (default_limits rnd))"
    "quota_ok (lm_register_per_ip (default_limits rnd))" "quota_ok (lm_refresh_per_ip (default_limits rnd))"
    "quota_ok (lm_submit_per_org (default_limits rnd))" "quota_ok (lm_oauth_per_ip (default_limits rnd))"
proof -
  have small: "1 / 1024 \<le> rnd x \<and> rnd x \<le> 2" if "1 / 600 \<le> x" "x \<le> 1" for x
  proof -
    have "\<bar>x\<bar> \<le> 2 ^ 200" using that by simp
    then have "\<bar>rnd x - x\<bar> \<le> \<bar>x\<bar> / 2 ^ 53 + 1 / 2 ^ 200" by (rule rounding_err[OF assms])
    moreover have "\<bar>x\<bar> / 2 ^ 53 + 1 / 2 ^ 200 \<le> (1 / 10000 :: real)" using that by simp
    ultimately show ?thesis using that by linarith
  qed
  show "quota_ok (lm_login_per_ip (default_limits rnd))" "quota_ok (lm_login_per_account (default_limits rnd))"
    "quota_ok (lm_register_per_ip (default_limits rnd))" "quota_ok (lm_refresh_per_ip (default_limits rnd))"
    "quota_ok (lm_submit_per_org (default_limits rnd))" "quota_ok (lm_oauth_per_ip (default_limits rnd))"
    using small[of "1 / 6"] small[of "1 / 30"] small[of "1 / 600"] small[of "1 / 10"]
    by (auto simp: quota_ok_def default_limits_def quota_new_def)
qed

subsection \<open>The rate of a bucket\<close>

abbreviation seconds :: "nat \<Rightarrow> real" where
  "seconds ns \<equiv> real ns / 10 ^ 9"

lemma seconds_split: "real (ns div 10 ^ 9) + real (ns mod 10 ^ 9) / 10 ^ 9 = seconds ns"
proof -
  have "real ns = real ((ns div 10 ^ 9) * 10 ^ 9 + ns mod 10 ^ 9)" by (simp only: div_mult_mod_eq)
  also have "\<dots> = real (ns div 10 ^ 9) * 10 ^ 9 + real (ns mod 10 ^ 9)"
    by (simp only: of_nat_add of_nat_mult of_nat_power of_nat_numeral)
  finally show ?thesis by (simp add: field_simps)
qed

lemma as_secs_up:
  assumes "rounding rnd" "seconds ns \<le> 2 ^ 60"
  shows "as_secs_f64 rnd ns \<le> seconds ns + seconds ns / 2 ^ 51 + 1 / 2 ^ 190"
proof -
  define S f where "S = real (ns div 10 ^ 9)" and "f = real (ns mod 10 ^ 9) / 10 ^ 9"
  have sf: "S + f = seconds ns" "0 \<le> S" "0 \<le> f" using seconds_split[of ns] by (simp_all add: S_def f_def)
  with assms(2) have "S \<le> 2 ^ 200" "f \<le> 2 ^ 200" by simp_all
  with sf have b: "rnd S \<le> S + S / 2 ^ 53 + 1 / 2 ^ 200" "rnd f \<le> f + f / 2 ^ 53 + 1 / 2 ^ 200"
    by (metis rounding_up[OF assms(1)])+
  define y where "y = rnd S + rnd f"
  have y: "y \<le> seconds ns + seconds ns / 2 ^ 53 + 2 / 2 ^ 200" unfolding y_def using b sf(1) by (simp add: field_simps)
  have y0: "0 \<le> y" unfolding y_def using sf by (simp add: rounding_nonneg[OF assms(1)])
  have "y \<le> 2 ^ 200" using y assms(2) by simp
  then have "rnd y \<le> y + y / 2 ^ 53 + 1 / 2 ^ 200" by (rule rounding_up[OF assms(1) y0])
  also have "\<dots> \<le> seconds ns + seconds ns / 2 ^ 51 + 1 / 2 ^ 190"
    using y sf by (simp add: field_simps)
  finally show ?thesis by (simp add: as_secs_f64_def y_def S_def f_def)
qed

lemma grant_up:
  assumes "rounding rnd" "quota_ok q" "seconds ns \<le> 2 ^ 60"
  shows "rnd (as_secs_f64 rnd ns * qt_refill_per_second q) \<le>
    qt_refill_per_second q * seconds ns + qt_refill_per_second q * seconds ns / 2 ^ 50 + 1 / 2 ^ 180"
proof -
  define r where "r = qt_refill_per_second q"
  define e where "e = as_secs_f64 rnd ns"
  define p where "p = r * seconds ns"
  have r: "0 \<le> r" "r \<le> 2" using assms(2) by (simp_all add: quota_ok_def r_def)
  have e: "0 \<le> e" "e \<le> seconds ns + seconds ns / 2 ^ 51 + 1 / 2 ^ 190"
    using as_secs_nonneg[OF assms(1)] as_secs_up[OF assms(1,3)] by (simp_all add: e_def)
  have "e * r \<le> (seconds ns + seconds ns / 2 ^ 51 + 1 / 2 ^ 190) * r" by (rule mult_right_mono[OF e(2) r(1)])
  also have "\<dots> = p + p / 2 ^ 51 + r / 2 ^ 190" by (simp add: p_def field_simps)
  finally have er: "e * r \<le> p + p / 2 ^ 51 + 1 / 2 ^ 189" using r by simp
  have p: "0 \<le> p" "p \<le> 2 ^ 61" using r assms(3) mult_mono[of r 2 "seconds ns" "2 ^ 60"] by (simp_all add: p_def)
  have "0 \<le> e * r" "e * r \<le> 2 ^ 200" using e(1) r(1) er p by simp_all
  then have "rnd (e * r) \<le> e * r + e * r / 2 ^ 53 + 1 / 2 ^ 200" by (rule rounding_up[OF assms(1)])
  also have "\<dots> \<le> p + p / 2 ^ 50 + 1 / 2 ^ 180" using er p by (simp add: field_simps)
  finally show ?thesis by (simp add: e_def r_def p_def)
qed

lemma consume_gain:
  assumes "rounding rnd" "quota_ok q" "0 \<le> bk_tokens b" "bk_tokens b \<le> qt_capacity q"
    "seconds (now - bk_last_seen b) \<le> 2 ^ 60" "consume rnd now q b = (b', d)"
  shows "bk_tokens b' + (if d = Some Allow then 1 else 0) \<le> bk_tokens b +
    qt_refill_per_second q * seconds (now - bk_last_seen b) * (1 + 1 / 2 ^ 50) + qt_capacity q / 2 ^ 50"
proof -
  define g where "g = rnd (as_secs_f64 rnd (now - bk_last_seen b) * qt_refill_per_second q)"
  define K where "K = qt_capacity q"
  define t where "t = min (rnd (bk_tokens b + g)) K"
  define p where "p = qt_refill_per_second q * seconds (now - bk_last_seen b)"
  have K: "1 \<le> K" "K \<le> 2 ^ 32" using assms(2) by (auto simp: quota_ok_def K_def)
  have g0: "0 \<le> g" unfolding g_def using assms(1,2) by (simp add: rounding_nonneg as_secs_nonneg quota_ok_def)
  have g: "g \<le> p + p / 2 ^ 50 + 1 / 2 ^ 180" unfolding g_def p_def by (rule grant_up[OF assms(1,2,5)])
  have t: "t \<le> bk_tokens b + g + K / 2 ^ 51"
  proof (cases "bk_tokens b + g \<le> 2 * K")
    case True
    then have "bk_tokens b + g \<le> 2 ^ 200" using K by simp
    then have "rnd (bk_tokens b + g) \<le> bk_tokens b + g + (bk_tokens b + g) / 2 ^ 53 + 1 / 2 ^ 200"
      using assms(3) g0 by (intro rounding_up[OF assms(1)]) simp_all
    then show ?thesis unfolding t_def using True K by (simp add: field_simps)
  qed (use K in \<open>simp add: t_def\<close>)
  have last_round: "rnd (t - 1) \<le> t - 1 + K / 2 ^ 53 + 1 / 2 ^ 200" if "1 \<le> t"
  proof -
    have "t - 1 \<le> K" by (simp add: t_def)
    moreover have "rnd (t - 1) \<le> (t - 1) + (t - 1) / 2 ^ 53 + 1 / 2 ^ 200"
      using that calculation K by (intro rounding_up[OF assms(1)]) simp_all
    moreover have "(t - 1) / 2 ^ 53 \<le> K / 2 ^ 53" using calculation(1) by (rule divide_right_mono) simp
    ultimately show ?thesis by linarith
  qed
  have "consume rnd now q b = (if t \<ge> 1 then (b\<lparr>bk_tokens := rnd (t - 1), bk_last_seen := now\<rparr>, Some Allow)
         else (b\<lparr>bk_tokens := t, bk_last_seen := now\<rparr>,
               map_option (\<lambda>ns. Deny (max (of_nat (ns div 10 ^ 9)) 1)) (retry_after rnd q t)))"
    by (simp only: consume_def Let_def t_def g_def K_def)
  then have "bk_tokens b' + (if d = Some Allow then 1 else 0) \<le> t + K / 2 ^ 53 + 1 / 2 ^ 200"
    using assms(6) last_round K by (cases "1 \<le> t") auto
  also have "\<dots> \<le> bk_tokens b + (p + p / 2 ^ 50) + K / 2 ^ 50" using t g K by (simp add: field_simps)
  also have "p + p / 2 ^ 50 = p * (1 + 1 / 2 ^ 50)" by (simp add: field_simps)
  finally show ?thesis by (simp add: p_def K_def)
qed

fun consume_all :: "(real \<Rightarrow> real) \<Rightarrow> Quota \<Rightarrow> nat list \<Rightarrow> Bucket \<Rightarrow> Bucket \<times> nat" where
  "consume_all rnd q [] b = (b, 0)"
| "consume_all rnd q (t # ts) b =
     (let (b1, d) = consume rnd t q b; (b2, n) = consume_all rnd q ts b1 in (b2, (if d = Some Allow then 1 else 0) + n))"

lemma consume_all_gain:
  assumes "rounding rnd" "quota_ok q" "0 \<le> bk_tokens b" "bk_tokens b \<le> qt_capacity q"
    "sorted (bk_last_seen b # ts)" "seconds (last (bk_last_seen b # ts) - bk_last_seen b) \<le> 2 ^ 60"
    "consume_all rnd q ts b = (b', n)"
  shows "bk_tokens b' + real n \<le> bk_tokens b +
    qt_refill_per_second q * seconds (last (bk_last_seen b # ts) - bk_last_seen b) * (1 + 1 / 2 ^ 50) + real (length ts) * qt_capacity q / 2 ^ 50
    \<and> 0 \<le> bk_tokens b'"
  using assms(3-7)
proof (induction ts arbitrary: b n)
  case (Cons t ts)
  obtain b1 d where c: "consume rnd t q b = (b1, d)" by force
  obtain m where m: "consume_all rnd q ts b1 = (b', m)" "n = (if d = Some Allow then 1 else 0) + m"
    using Cons.prems(5) c by (auto simp: Let_def split: prod.splits)
  let ?l = "last (t # ts)"
  have seen: "bk_last_seen b1 = t" by (rule consume_keeps(4)[OF c])
  have le: "bk_last_seen b \<le> t" "t \<le> ?l" using Cons.prems(3) by (auto dest: last_in_set)
  have split: "seconds (?l - bk_last_seen b) = seconds (t - bk_last_seen b) + seconds (?l - t)"
    using le by (simp add: of_nat_diff field_simps)
  have win: "seconds (t - bk_last_seen b) \<le> 2 ^ 60" "seconds (?l - t) \<le> 2 ^ 60"
    using Cons.prems(4) split by (auto intro: order_trans[of _ "seconds (?l - bk_last_seen b)"])
  note tok = consume_tokens[OF assms(1,2) Cons.prems(1) c]
  have IH: "bk_tokens b' + real m \<le> bk_tokens b1 + qt_refill_per_second q * seconds (?l - t) * (1 + 1 / 2 ^ 50) +
      real (length ts) * qt_capacity q / 2 ^ 50 \<and> 0 \<le> bk_tokens b'"
    using Cons.IH[OF tok(1,2), of m] Cons.prems(3) win(2) m(1) seen by simp
  have "bk_tokens b1 + (if d = Some Allow then 1 else 0) \<le> bk_tokens b +
      qt_refill_per_second q * seconds (t - bk_last_seen b) * (1 + 1 / 2 ^ 50) + qt_capacity q / 2 ^ 50"
    by (rule consume_gain[OF assms(1,2) Cons.prems(1,2) win(1) c])
  moreover have "qt_refill_per_second q * seconds (?l - bk_last_seen b) * (1 + 1 / 2 ^ 50) =
      qt_refill_per_second q * seconds (t - bk_last_seen b) * (1 + 1 / 2 ^ 50) + qt_refill_per_second q * seconds (?l - t) * (1 + 1 / 2 ^ 50)"
    unfolding split by (simp add: algebra_simps)
  moreover have "real (length (t # ts)) * qt_capacity q / 2 ^ 50 = qt_capacity q / 2 ^ 50 + real (length ts) * qt_capacity q / 2 ^ 50"
    by (simp add: field_simps)
  moreover have "real n = (if d = Some Allow then 1 else 0) + real m" using m(2) by simp
  ultimately have "bk_tokens b' + real n \<le> bk_tokens b + qt_refill_per_second q * seconds (?l - bk_last_seen b) * (1 + 1 / 2 ^ 50) +
      real (length (t # ts)) * qt_capacity q / 2 ^ 50"
    using conjunct1[OF IH] by linarith
  moreover have "last (bk_last_seen b # t # ts) = ?l" by simp
  ultimately show ?case using conjunct2[OF IH] by (simp only:)
qed simp

lemma consume_all_capacity:
  assumes "rounding rnd" "quota_ok q" "0 \<le> bk_tokens b" "bk_tokens b \<le> qt_capacity q" "consume_all rnd q ts b = (b', n)"
  shows "bk_tokens b' \<le> qt_capacity q"
  using assms(3-)
proof (induction ts arbitrary: b n)
  case (Cons t ts)
  obtain b1 d where c: "consume rnd t q b = (b1, d)" by force
  note tok = consume_tokens[OF assms(1,2) Cons.prems(1) c]
  show ?case using Cons.IH[OF tok(1,2)] Cons.prems(3) c by (auto simp: Let_def split: prod.splits)
qed simp


subsection \<open>A shard\<close>

definition bucket_id :: "Bucket \<Rightarrow> string \<times> string" where
  "bucket_id b = (bk_scope b, bk_key b)"

definition slot_of :: "(string \<Rightarrow> string \<Rightarrow> u64) \<Rightarrow> Bucket \<Rightarrow> u64 \<times> u64" where
  "slot_of hash b = (bk_sequence b, hash (bk_scope b) (bk_key b))"

definition shard_inv :: "(string \<Rightarrow> string \<Rightarrow> u64) \<Rightarrow> Shard \<Rightarrow> bool" where
  "shard_inv hash s \<longleftrightarrow>
     distinct (map bucket_id (sh_buckets s)) \<and> distinct (map bk_sequence (sh_buckets s)) \<and>
     slot_of hash ` set (sh_buckets s) \<subseteq> set (sh_order s) \<and> sorted_wrt (<) (map fst (sh_order s)) \<and>
     (\<forall>x\<in>set (sh_order s). fst x < sh_next_sequence s) \<and> length (sh_buckets s) \<le> MAX_BUCKETS_PER_SHARD \<and>
     length (sh_order s) \<le> 2 * MAX_BUCKETS_PER_SHARD \<and> (\<forall>b\<in>set (sh_buckets s). 0 \<le> bk_tokens b)"

lemma has_slot_iff: "has_slot hash slot b \<longleftrightarrow> slot_of hash b = slot"
  by (auto simp: has_slot_def slot_of_def)

lemma same_key_iff: "same_key scope key b \<longleftrightarrow> bucket_id b = (scope, key)"
  by (auto simp: same_key_def bucket_id_def)

lemma same_key_fun: "same_key scope key = (\<lambda>b. bucket_id b = (scope, key))"
  by (rule ext) (rule same_key_iff)

lemma map_remove1_distinct: "distinct (map f xs) \<Longrightarrow> x \<in> set xs \<Longrightarrow> map f (remove1 x xs) = remove1 (f x) (map f xs)"
proof (induction xs)
  case (Cons a xs)
  show ?case
  proof (cases "x = a")
    case False
    with Cons.prems have "f x \<noteq> f a" by (metis distinct.simps(2) image_eqI image_set list.simps(9) set_ConsD)
    with Cons False show ?thesis by simp
  qed simp
qed simp

lemma evict_slots_spec:
  assumes "distinct (map (slot_of hash) bs)" "\<exists>slot\<in>set order. slot \<in> slot_of hash ` set bs"
  shows "\<exists>pre b post. order = pre @ slot_of hash b # post \<and> set pre \<inter> slot_of hash ` set bs = {} \<and> b \<in> set bs \<and>
    evict_slots hash order bs = (post, remove1 b bs)"
  using assms(2)
proof (induction order)
  case (Cons slot order)
  show ?case
  proof (cases "find (has_slot hash slot) bs")
    case None
    then have no: "slot \<notin> slot_of hash ` set bs" by (auto simp: find_None_iff has_slot_iff)
    with Cons.prems have "\<exists>slot\<in>set order. slot \<in> slot_of hash ` set bs" by auto
    from Cons.IH[OF this] obtain pre b post where "order = pre @ slot_of hash b # post" "set pre \<inter> slot_of hash ` set bs = {}" "b \<in> set bs"
      "evict_slots hash order bs = (post, remove1 b bs)" by blast
    with no None show ?thesis by (intro exI[of _ "slot # pre"] exI[of _ b] exI[of _ post]) auto
  next
    case (Some b)
    then have "b \<in> set bs" "slot_of hash b = slot" by (auto simp: find_Some_iff has_slot_iff)
    with Some show ?thesis by (intro exI[of _ "[]"] exI[of _ b] exI[of _ order]) auto
  qed
qed simp

interpretation shard: recency_store sh_order "\<lambda>s. map (slot_of hash) (sh_buckets s)" "shard_evict_oldest hash"
  "\<lambda>s. distinct (map (slot_of hash) (sh_buckets s))" for hash
proof
  fix s :: Shard
  assume d: "distinct (map (slot_of hash) (sh_buckets s))" and sub: "set (map (slot_of hash) (sh_buckets s)) \<subseteq> set (sh_order s)"
    and ne: "map (slot_of hash) (sh_buckets s) \<noteq> []"
  have "\<exists>slot\<in>set (sh_order s). slot \<in> slot_of hash ` set (sh_buckets s)" using sub ne by (cases "sh_buckets s") auto
  from evict_slots_spec[OF d this] obtain pre b post where e: "sh_order s = pre @ slot_of hash b # post"
    "set pre \<inter> slot_of hash ` set (sh_buckets s) = {}" "b \<in> set (sh_buckets s)"
    "evict_slots hash (sh_order s) (sh_buckets s) = (post, remove1 b (sh_buckets s))" by blast
  then show "\<exists>pre x post. sh_order s = pre @ x # post \<and> set pre \<inter> set (map (slot_of hash) (sh_buckets s)) = {} \<and>
      x \<in> set (map (slot_of hash) (sh_buckets s)) \<and> sh_order (shard_evict_oldest hash s) = post \<and>
      map (slot_of hash) (sh_buckets (shard_evict_oldest hash s)) = remove1 x (map (slot_of hash) (sh_buckets s))"
    by (intro exI[of _ pre] exI[of _ "slot_of hash b"] exI[of _ post])
      (auto simp: shard_evict_oldest_def map_remove1_distinct[OF d e(3)])
qed

lemma slots_distinct: "shard_inv hash s \<Longrightarrow> distinct (map (slot_of hash) (sh_buckets s))"
  by (auto simp: shard_inv_def distinct_map inj_on_def slot_of_def)

lemma evict_inv:
  assumes "shard_inv hash s" "sh_buckets s \<noteq> []"
  obtains b where "b \<in> set (sh_buckets s)" "sh_buckets (shard_evict_oldest hash s) = remove1 b (sh_buckets s)"
    "\<forall>b'\<in>set (sh_buckets s). b' \<noteq> b \<longrightarrow> bk_sequence b < bk_sequence b'"
    "shard_inv hash (shard_evict_oldest hash s)" "sh_next_sequence (shard_evict_oldest hash s) = sh_next_sequence s"
proof -
  note inv = assms(1)[unfolded shard_inv_def]
  have "\<exists>slot\<in>set (sh_order s). slot \<in> slot_of hash ` set (sh_buckets s)" using inv assms(2) by (cases "sh_buckets s") auto
  from evict_slots_spec[OF slots_distinct[OF assms(1)] this] obtain pre b post where e: "sh_order s = pre @ slot_of hash b # post"
    "set pre \<inter> slot_of hash ` set (sh_buckets s) = {}" "b \<in> set (sh_buckets s)"
    "evict_slots hash (sh_order s) (sh_buckets s) = (post, remove1 b (sh_buckets s))" by blast
  have s': "shard_evict_oldest hash s = s\<lparr>sh_order := post, sh_buckets := remove1 b (sh_buckets s)\<rparr>"
    by (simp add: shard_evict_oldest_def e(4))
  have sl: "slot_of hash b' \<in> set post" if "b' \<in> set (sh_buckets s)" "b' \<noteq> b" for b'
  proof -
    have "slot_of hash b' \<noteq> slot_of hash b"
      using that e(3) slots_distinct[OF assms(1)] by (auto simp: distinct_map inj_on_def)
    moreover have "slot_of hash b' \<in> set (sh_order s)" using inv that(1) by auto
    ultimately show ?thesis using e(1,2) that(1) by auto
  qed
  have older: "bk_sequence b < bk_sequence b'" if "b' \<in> set (sh_buckets s)" "b' \<noteq> b" for b'
  proof -
    have "sorted_wrt (<) (map fst (slot_of hash b # post))" using inv e(1) by (simp add: sorted_wrt_append)
    then have "fst (slot_of hash b) < fst (slot_of hash b')" using sl[OF that] by auto
    then show ?thesis by (simp add: slot_of_def)
  qed
  have "distinct (sh_buckets s)" using inv by (simp add: distinct_map)
  then have "slot_of hash ` set (remove1 b (sh_buckets s)) \<subseteq> set post"
    using sl by (force simp: set_remove1_eq)
  moreover have "distinct (map bucket_id (remove1 b (sh_buckets s)))" "distinct (map bk_sequence (remove1 b (sh_buckets s)))"
    using inv by (simp_all add: map_remove1_distinct[OF _ e(3)] distinct_remove1)
  moreover have "sorted_wrt (<) (map fst post)" using inv e(1) by (simp add: sorted_wrt_append)
  moreover have "\<forall>x\<in>set post. fst x < sh_next_sequence s" "length post \<le> 2 * MAX_BUCKETS_PER_SHARD" using inv e(1) by auto
  moreover have "length (remove1 b (sh_buckets s)) \<le> MAX_BUCKETS_PER_SHARD" "\<forall>b\<in>set (remove1 b (sh_buckets s)). 0 \<le> bk_tokens b"
    using inv by (auto simp: length_remove1 dest: notin_set_remove1)
  ultimately have "shard_inv hash (shard_evict_oldest hash s)" by (simp add: shard_inv_def s')
  with e(3) older s' that show thesis by simp
qed

lemma shard_room:
  assumes "shard_inv hash s"
  shows "length (sh_buckets (if length (sh_buckets s) \<ge> MAX_BUCKETS_PER_SHARD then shard_evict_oldest hash s else s)) < MAX_BUCKETS_PER_SHARD"
proof -
  have "distinct (map fst (sh_order s))" using assms strict_sorted_iff by (auto simp: shard_inv_def)
  then have "distinct (sh_order s)" by (simp only: distinct_map)
  then have "shard.covered hash s" using assms by (simp add: shard.covered_def shard_inv_def)
  from shard.evict_makes_room[OF slots_distinct[OF assms] this, of MAX_BUCKETS_PER_SHARD] show ?thesis
    using assms by (auto simp: shard_inv_def MAX_BUCKETS_PER_SHARD_def MAX_BUCKETS_def SHARDS_def split: if_splits)
qed

text \<open>Recording an access for the bucket that just got the number.\<close>

lemma record_access_inv:
  assumes "distinct (map bucket_id (sh_buckets s))" "distinct (map bk_sequence (sh_buckets s))"
    "slot_of hash ` set (sh_buckets s) \<subseteq> insert (n, h) (set (sh_order s))" "sorted_wrt (<) (map fst (sh_order s))"
    "\<forall>x\<in>set (sh_order s). fst x < n" "length (sh_buckets s) \<le> MAX_BUCKETS_PER_SHARD" "\<forall>b\<in>set (sh_buckets s). 0 \<le> bk_tokens b"
    "n < sh_next_sequence s" "length (sh_order s) \<le> 2 * MAX_BUCKETS_PER_SHARD"
  shows "shard_inv hash (record_access hash n h s)"
proof -
  let ?order = "sh_order s @ [(n, h)]"
  let ?live = "\<lambda>slot. \<exists>b\<in>set (sh_buckets s). has_slot hash slot b"
  have sorted: "sorted_wrt (<) (map fst ?order)" using assms(4,5) by (auto simp: sorted_wrt_append)
  then have sorted': "sorted_wrt (<) (map fst (filter ?live ?order))" unfolding sorted_wrt_map by (rule sorted_wrt_filter)
  then have "distinct (map fst (filter ?live ?order))" using strict_sorted_iff by blast
  then have d: "distinct (filter ?live ?order)" by (simp only: distinct_map)
  have "length (filter ?live ?order) = card (set (filter ?live ?order))" by (rule distinct_card[OF d, symmetric])
  also have "\<dots> \<le> card (slot_of hash ` set (sh_buckets s))"
  proof (rule card_mono)
    show "set (filter ?live ?order) \<subseteq> slot_of hash ` set (sh_buckets s)"
      unfolding has_slot_iff set_filter by blast
  qed simp
  also have "\<dots> \<le> length (sh_buckets s)" by (metis card_length image_set length_map)
  finally have len: "length (filter ?live ?order) \<le> MAX_BUCKETS_PER_SHARD" using assms(6) by simp
  have cov: "slot_of hash ` set (sh_buckets s) \<subseteq> set (filter ?live ?order)" using assms(3) by (auto simp: has_slot_iff)
  have lt: "\<forall>x\<in>set ?order. fst x < sh_next_sequence s" using assms(5,8) by auto
  show ?thesis
  proof (cases "length ?order > MAX_BUCKETS_PER_SHARD * 2")
    case True
    then have "record_access hash n h s = s\<lparr>sh_order := filter ?live ?order\<rparr>" by (simp add: record_access_def Let_def)
    then show ?thesis using assms(1,2,6,7) cov sorted' lt len by (simp add: shard_inv_def)
  next
    case False
    then have "record_access hash n h s = s\<lparr>sh_order := ?order\<rparr>" by (simp add: record_access_def Let_def)
    then show ?thesis using assms(1,2,3,6,7) sorted lt False by (simp add: shard_inv_def)
  qed
qed

lemma find_replace:
  assumes "distinct (map f bs)" "b \<in> set bs" "f b' = f b"
  shows "find (\<lambda>x. f x = k) (map (\<lambda>x. if x = b then b' else x) bs) = (if k = f b then Some b' else find (\<lambda>x. f x = k) bs)"
  using assms
proof (induction bs)
  case (Cons a bs)
  show ?case
  proof (cases "a = b")
    case True
    with Cons.prems have "b \<notin> set bs" by auto
    then have "map (\<lambda>x. if x = b then b' else x) bs = bs" by (intro map_idI) auto
    with True Cons.prems show ?thesis by auto
  next
    case False
    with Cons.prems have "f a \<noteq> f b" by auto
    with False Cons show ?thesis by auto
  qed
qed simp

lemma find_remove1:
  assumes "distinct (map f bs)" "b \<in> set bs"
  shows "find (\<lambda>x. f x = k) (remove1 b bs) = (if k = f b then None else find (\<lambda>x. f x = k) bs)"
  using assms
proof (induction bs)
  case (Cons a bs)
  show ?case
  proof (cases "a = b")
    case True
    with Cons.prems have "f b \<notin> f ` set bs" by simp
    then have "find (\<lambda>x. f x = f b) bs = None" unfolding find_None_iff by (metis image_eqI)
    with True show ?thesis by auto
  next
    case False
    with Cons.prems have "f a \<noteq> f b" by auto
    with False Cons show ?thesis by auto
  qed
qed simp

lemma map_replace: "f b' = f b \<Longrightarrow> map f (map (\<lambda>x. if x = b then b' else x) bs) = map f bs"
  by simp

text \<open>What a shard knows: the tokens of each key and when it was seen.\<close>

definition shard_view :: "Shard \<Rightarrow> string \<times> string \<Rightarrow> (real \<times> nat) option" where
  "shard_view s k = map_option (\<lambda>b. (bk_tokens b, bk_last_seen b)) (find (\<lambda>b. bucket_id b = k) (sh_buckets s))"

text \<open>The abstract limiter takes a token from the bucket of the key, a new one being full.\<close>

definition take_token :: "(real \<Rightarrow> real) \<Rightarrow> nat \<Rightarrow> Quota \<Rightarrow> real \<times> nat \<Rightarrow> (real \<times> nat) \<times> Decision option" where
  "take_token rnd now q tb =
     (let t = min (rnd (fst tb + rnd (as_secs_f64 rnd (now - snd tb) * qt_refill_per_second q))) (qt_capacity q)
      in if t \<ge> 1 then ((rnd (t - 1), now), Some Allow)
         else ((t, now), map_option (\<lambda>ns. Deny (max (of_nat (ns div 10 ^ 9)) 1)) (retry_after rnd q t)))"

definition spec_check ::
  "(real \<Rightarrow> real) \<Rightarrow> nat \<Rightarrow> string \<times> string \<Rightarrow> Quota \<Rightarrow> (string \<times> string \<Rightarrow> (real \<times> nat) option)
   \<Rightarrow> (string \<times> string \<Rightarrow> (real \<times> nat) option) \<times> Decision option" where
  "spec_check rnd now k q v =
     (let (tb, d) = take_token rnd now q (case v k of None \<Rightarrow> (qt_capacity q, now) | Some tb \<Rightarrow> tb) in (v(k \<mapsto> tb), d))"

lemma consume_take:
  "consume rnd now q b = (b', d) \<longleftrightarrow>
     (\<exists>t. take_token rnd now q (bk_tokens b, bk_last_seen b) = ((t, now), d) \<and> b' = b\<lparr>bk_tokens := t, bk_last_seen := now\<rparr>)"
  by (auto simp: consume_def take_token_def Let_def)

lemma record_access_buckets [simp]: "sh_buckets (record_access hash n h s) = sh_buckets s"
  by (simp add: record_access_def Let_def)

lemma less_inc: "(n :: u64) \<noteq> - 1 \<Longrightarrow> n < n + 1" 
  using inc_less_eq_self_iff_eq[of n] by (simp add: not_le)

lemma hit_refines:
  assumes "rounding rnd" "quota_ok q" "shard_inv hash s" "sh_next_sequence s \<noteq> - 1"
    "shard_check rnd hash now scope key q s = (s', d)" "find (same_key scope key) (sh_buckets s) = Some b"
  shows "shard_inv hash s'" "d \<noteq> None" "spec_check rnd now (scope, key) q (shard_view s) = (shard_view s', d)"
proof -
  note inv = assms(3)[unfolded shard_inv_def]
  have b: "b \<in> set (sh_buckets s)" "bucket_id b = (scope, key)" using assms(6) by (auto simp: find_Some_iff same_key_iff)
  let ?n = "sh_next_sequence s"
  obtain b' d' where c: "consume rnd now q (b\<lparr>bk_sequence := ?n\<rparr>) = (b', d')" by force
  have "0 \<le> bk_tokens (b\<lparr>bk_sequence := ?n\<rparr>)" using inv b by simp
  note tok = consume_tokens[OF assms(1,2) this c] and keep = consume_keeps[OF c]
  let ?bs = "map (\<lambda>x. if x = b then b' else x) (sh_buckets s)"
  let ?s = "s\<lparr>sh_next_sequence := ?n + 1, sh_buckets := ?bs\<rparr>"
  have s': "s' = record_access hash ?n (hash scope key) ?s" "d' = d"
    using assms(5) tok(3) by (auto simp: shard_check_def assms(6) c Let_def)
  have id': "bucket_id b' = bucket_id b" using keep by (simp add: bucket_id_def)
  have seqs: "bk_sequence x \<noteq> ?n" if "x \<in> set (sh_buckets s)" for x
  proof -
    have "slot_of hash x \<in> set (sh_order s)" using inv that by blast
    then have "fst (slot_of hash x) < ?n" using inv by blast
    then show ?thesis by (simp add: slot_of_def)
  qed
  have "distinct (map bk_sequence ?bs)"
  proof -
    have "inj_on bk_sequence (set (sh_buckets s))" "distinct (sh_buckets s)" using inv by (auto simp: distinct_map)
    moreover have "bk_sequence b' = ?n" using keep by simp
    moreover have "b' \<notin> set (sh_buckets s)" using seqs \<open>bk_sequence b' = ?n\<close> by blast
    ultimately show ?thesis using seqs
      by (simp add: distinct_map inj_on_def o_def) (metis seqs)
  qed
  moreover have "slot_of hash b' = (?n, hash scope key)" using keep b(2) by (simp add: slot_of_def bucket_id_def)
  moreover have "distinct (map bucket_id ?bs)" using inv unfolding map_replace[of bucket_id, OF id'] by blast
  ultimately show "shard_inv hash s'" unfolding s'(1)
    using inv tok(1) less_inc[OF assms(4)] by (intro record_access_inv) (auto)
  show "d \<noteq> None" using tok(3) s'(2) by simp
  have find: "find (\<lambda>x. bucket_id x = (scope, key)) (sh_buckets s) = Some b" using assms(6) by (simp add: same_key_fun)
  obtain t where t: "take_token rnd now q (bk_tokens b, bk_last_seen b) = ((t, now), d)" "bk_tokens b' = t" "bk_last_seen b' = now"
    using c s'(2) by (auto simp: consume_take)
  have "shard_view s' = (shard_view s)((scope, key) \<mapsto> (t, now))"
    unfolding fun_eq_iff using find_replace[of bucket_id "sh_buckets s" b b'] inv b id' t(2,3)
    by (auto simp: shard_view_def s'(1))
  then show "spec_check rnd now (scope, key) q (shard_view s) = (shard_view s', d)"
    using t(1) find by (simp add: spec_check_def shard_view_def)
qed

lemma evict_view:
  assumes "shard_inv hash s" "sh_buckets s \<noteq> []"
  obtains b where "b \<in> set (sh_buckets s)" "shard_view (shard_evict_oldest hash s) = (shard_view s)(bucket_id b := None)"
    "\<forall>b'\<in>set (sh_buckets s). b' \<noteq> b \<longrightarrow> bk_sequence b < bk_sequence b'"
    "shard_inv hash (shard_evict_oldest hash s)" "sh_next_sequence (shard_evict_oldest hash s) = sh_next_sequence s"
proof -
  obtain b where b: "b \<in> set (sh_buckets s)" "sh_buckets (shard_evict_oldest hash s) = remove1 b (sh_buckets s)"
    "\<forall>b'\<in>set (sh_buckets s). b' \<noteq> b \<longrightarrow> bk_sequence b < bk_sequence b'"
    "shard_inv hash (shard_evict_oldest hash s)" "sh_next_sequence (shard_evict_oldest hash s) = sh_next_sequence s"
    by (rule evict_inv[OF assms])
  have "distinct (map bucket_id (sh_buckets s))" using assms(1) by (simp add: shard_inv_def)
  from find_remove1[OF this b(1)] have "shard_view (shard_evict_oldest hash s) = (shard_view s)(bucket_id b := None)"
    by (auto simp: shard_view_def b(2) fun_eq_iff)
  with b that show thesis by blast
qed

text \<open>A new bucket in a shard that has room.\<close>

lemma insert_refines:
  assumes "rounding rnd" "quota_ok q" "shard_inv hash s" "sh_next_sequence s \<noteq> - 1" "length (sh_buckets s) < MAX_BUCKETS_PER_SHARD"
    "find (same_key scope key) (sh_buckets s) = None"
    "consume rnd now q \<lparr>bk_scope = scope, bk_key = key, bk_tokens = qt_capacity q, bk_last_seen = now, bk_sequence = sh_next_sequence s\<rparr> = (b', d)"
  defines "s' \<equiv> record_access hash (sh_next_sequence s) (hash scope key)
      (s\<lparr>sh_next_sequence := sh_next_sequence s + 1, sh_buckets := b' # sh_buckets s\<rparr>)"
  shows "shard_inv hash s'" "d \<noteq> None" "spec_check rnd now (scope, key) q (shard_view s) = (shard_view s', d)"
proof -
  note inv = assms(3)[unfolded shard_inv_def]
  let ?n = "sh_next_sequence s"
  have cap: "0 \<le> qt_capacity q" using assms(2) by (auto simp: quota_ok_def)
  note tok = consume_tokens[OF assms(1,2) _ assms(7), simplified, OF cap] and keep = consume_keeps[OF assms(7), simplified]
  have fresh: "bucket_id x \<noteq> (scope, key) \<and> bk_sequence x \<noteq> ?n" if "x \<in> set (sh_buckets s)" for x
  proof -
    have "slot_of hash x \<in> set (sh_order s)" using inv that by blast
    then have "fst (slot_of hash x) < ?n" using inv by blast
    then show ?thesis using assms(6) that by (auto simp: slot_of_def find_None_iff same_key_iff)
  qed
  have b': "bucket_id b' = (scope, key)" "slot_of hash b' = (?n, hash scope key)" "bk_sequence b' = ?n"
    using keep by (simp_all add: bucket_id_def slot_of_def)
  have "bucket_id b' \<notin> bucket_id ` set (sh_buckets s)" "bk_sequence b' \<notin> bk_sequence ` set (sh_buckets s)"
    using fresh b'(1,3) by (metis imageE)+
  then show "shard_inv hash s'" unfolding s'_def
    using inv tok(1) less_inc[OF assms(4)] assms(5) b'(2) by (intro record_access_inv) auto
  show "d \<noteq> None" using tok(3) by simp
  obtain t where t: "take_token rnd now q (qt_capacity q, now) = ((t, now), d)" "bk_tokens b' = t" "bk_last_seen b' = now"
    using assms(7) by (auto simp: consume_take)
  have none: "find (\<lambda>b. bucket_id b = (scope, key)) (sh_buckets s) = None" using assms(6) by (simp add: same_key_fun)
  have "shard_view s' = (shard_view s)((scope, key) \<mapsto> (t, now))"
    using b'(1) t(2,3) by (auto simp: shard_view_def s'_def fun_eq_iff)
  then show "spec_check rnd now (scope, key) q (shard_view s) = (shard_view s', d)"
    using t(1) none by (simp add: spec_check_def shard_view_def)
qed

lemma shard_check_refines:
  assumes "rounding rnd" "quota_ok q" "shard_inv hash s" "sh_next_sequence s \<noteq> - 1" "shard_check rnd hash now scope key q s = (s', d)"
  shows "shard_inv hash s' \<and> d \<noteq> None \<and>
    (spec_check rnd now (scope, key) q (shard_view s) = (shard_view s', d) \<or>
     (\<exists>b\<in>set (sh_buckets s). length (sh_buckets s) = MAX_BUCKETS_PER_SHARD \<and> shard_view s (scope, key) = None \<and>
        (\<forall>b'\<in>set (sh_buckets s). b' \<noteq> b \<longrightarrow> bk_sequence b < bk_sequence b') \<and>
        spec_check rnd now (scope, key) q ((shard_view s)(bucket_id b := None)) = (shard_view s', d)))"
proof (cases "find (same_key scope key) (sh_buckets s)")
  case (Some b)
  from hit_refines[OF assms Some] show ?thesis by blast
next
  case None
  let ?full = "length (sh_buckets s) \<ge> MAX_BUCKETS_PER_SHARD"
  define s1 where "s1 = (if ?full then shard_evict_oldest hash s else s)"
  have next1: "sh_next_sequence s1 = sh_next_sequence s" by (simp add: s1_def shard_evict_oldest_def split: prod.splits)
  obtain b' d' where c: "consume rnd now q \<lparr>bk_scope = scope, bk_key = key, bk_tokens = qt_capacity q, bk_last_seen = now,
      bk_sequence = sh_next_sequence s1\<rparr> = (b', d')" by force
  have cap: "0 \<le> qt_capacity q" using assms(2) by (auto simp: quota_ok_def)
  have d': "d' \<noteq> None" using consume_tokens(3)[OF assms(1,2) _ c] cap by simp
  have comm: "shard_evict_oldest hash (s\<lparr>sh_next_sequence := n\<rparr>) = (shard_evict_oldest hash s)\<lparr>sh_next_sequence := n\<rparr>" for n
    by (simp add: shard_evict_oldest_def split: prod.splits)
  have s': "s' = record_access hash (sh_next_sequence s1) (hash scope key)
      (s1\<lparr>sh_next_sequence := sh_next_sequence s1 + 1, sh_buckets := b' # sh_buckets s1\<rparr>)" "d' = d"
    using assms(5) d' c next1 by (auto simp: shard_check_def None Let_def s1_def comm split: if_splits prod.splits)
  have room: "length (sh_buckets s1) < MAX_BUCKETS_PER_SHARD" unfolding s1_def by (rule shard_room[OF assms(3)])
  have view_none: "shard_view s (scope, key) = None" using None by (simp add: shard_view_def same_key_fun)
  show ?thesis
  proof (cases ?full)
    case True
    then have ne: "sh_buckets s \<noteq> []" by (auto simp: MAX_BUCKETS_PER_SHARD_def MAX_BUCKETS_def SHARDS_def)
    obtain b where b: "b \<in> set (sh_buckets s)" "shard_view (shard_evict_oldest hash s) = (shard_view s)(bucket_id b := None)"
      "\<forall>b'\<in>set (sh_buckets s). b' \<noteq> b \<longrightarrow> bk_sequence b < bk_sequence b'" "shard_inv hash (shard_evict_oldest hash s)"
      by (rule evict_view[OF assms(3) ne])
    have s1: "s1 = shard_evict_oldest hash s" using True by (simp add: s1_def)
    have "shard_view s1 (scope, key) = None" using b(2) view_none by (simp add: s1)
    then have none1: "find (same_key scope key) (sh_buckets s1) = None" by (simp add: shard_view_def same_key_fun)
    note ref = insert_refines[OF assms(1,2) b(4)[folded s1] _ room none1 c]
    have "length (sh_buckets s) = MAX_BUCKETS_PER_SHARD" using True assms(3) by (simp add: shard_inv_def)
    then show ?thesis using ref next1 assms(4) s' b view_none s1 by simp blast
  next
    case False
    then have "s1 = s" by (simp add: s1_def)
    with insert_refines[OF assms(1,2,3,4) _ None] room c s' show ?thesis by simp
  qed
qed

subsection \<open>The limiter\<close>

definition limiter_inv :: "(string \<Rightarrow> string \<Rightarrow> u64) \<Rightarrow> RateLimiter \<Rightarrow> bool" where
  "limiter_inv hash l \<longleftrightarrow> length (rl_shards l) = SHARDS \<and> (\<forall>s\<in>set (rl_shards l). shard_inv hash s)"

text \<open>The bucket of a key, in the shard its hash selects.\<close>

definition limiter_view :: "(string \<Rightarrow> string \<Rightarrow> u64) \<Rightarrow> RateLimiter \<Rightarrow> string \<times> string \<Rightarrow> (real \<times> nat) option" where
  "limiter_view hash l k = shard_view (rl_shards l ! shard_for (hash (fst k) (snd k))) k"

text \<open>The access numbers of a shard have not run out: it has served fewer than 2 to the 64 checks.\<close>

definition numbers_left :: "RateLimiter \<Rightarrow> bool" where
  "numbers_left l \<longleftrightarrow> (\<forall>s\<in>set (rl_shards l). sh_next_sequence s \<noteq> - 1)"

inductive limiter_reachable :: "(real \<Rightarrow> real) \<Rightarrow> (string \<Rightarrow> string \<Rightarrow> u64) \<Rightarrow> RateLimiter \<Rightarrow> bool" for rnd hash where
  new: "limiter_reachable rnd hash limiter_new"
| check: "limiter_reachable rnd hash l \<Longrightarrow> numbers_left l \<Longrightarrow> quota_ok q \<Longrightarrow>
    limiter_reachable rnd hash (fst (check rnd hash now scope key q l))"
| reset: "limiter_reachable rnd hash l \<Longrightarrow> limiter_reachable rnd hash (reset hash scope key l)"
| idle: "limiter_reachable rnd hash l \<Longrightarrow> limiter_reachable rnd hash (fst (evict_idle now l))"

lemma shard_for_less: "shard_for h < SHARDS"
  by (simp add: shard_for_def SHARDS_def)

text \<open>Every bucket is in the shard its hash selects.\<close>

definition placed :: "(string \<Rightarrow> string \<Rightarrow> u64) \<Rightarrow> RateLimiter \<Rightarrow> bool" where
  "placed hash l \<longleftrightarrow> (\<forall>i < length (rl_shards l). \<forall>b\<in>set (sh_buckets (rl_shards l ! i)). shard_for (hash (bk_scope b) (bk_key b)) = i)"

lemma evict_slots_subset: "set (snd (evict_slots hash order bs)) \<subseteq> set bs"
  by (induction hash order bs rule: evict_slots.induct) (auto split: option.splits dest: subsetD[OF set_remove1_subset])

lemma evict_subset: "set (sh_buckets (shard_evict_oldest hash s)) \<subseteq> set (sh_buckets s)"
  using evict_slots_subset[of hash "sh_order s" "sh_buckets s"] by (simp add: shard_evict_oldest_def case_prod_unfold)

lemma shard_check_ids:
  assumes "shard_check rnd hash now scope key q s = (s', d)" "b \<in> set (sh_buckets s')"
  shows "bucket_id b = (scope, key) \<or> bucket_id b \<in> bucket_id ` set (sh_buckets s)"
proof -
  let ?s = "s\<lparr>sh_next_sequence := sh_next_sequence s + 1\<rparr>"
  let ?new = "\<lparr>bk_scope = scope, bk_key = key, bk_tokens = qt_capacity q, bk_last_seen = now, bk_sequence = sh_next_sequence s\<rparr>"
  show ?thesis
  proof (cases "find (same_key scope key) (sh_buckets s)")
    case (Some c)
    then have c: "bucket_id c = (scope, key)" by (auto simp: find_Some_iff same_key_iff)
    obtain c' e where e: "consume rnd now q (c\<lparr>bk_sequence := sh_next_sequence s\<rparr>) = (c', e)" by force
    have "bucket_id c' = (scope, key)" using consume_keeps[OF e] c by (simp add: bucket_id_def)
    then show ?thesis using assms Some e by (auto simp: shard_check_def Let_def split: if_splits)
  next
    case None
    obtain c' e where e: "consume rnd now q ?new = (c', e)" by force
    have "bucket_id c' = (scope, key)" using consume_keeps[OF e] by (simp add: bucket_id_def)
    then show ?thesis using assms None e evict_subset[of hash ?s] by (auto simp: shard_check_def Let_def split: if_splits)
  qed
qed

lemma placed_update:
  assumes "placed hash l" "\<And>b. b \<in> set (sh_buckets s) \<Longrightarrow> i < length (rl_shards l) \<Longrightarrow> shard_for (hash (bk_scope b) (bk_key b)) = i"
  shows "placed hash (l\<lparr>rl_shards := (rl_shards l)[i := s]\<rparr>)"
  unfolding placed_def
proof (intro allI impI ballI)
  fix j b assume "j < length (rl_shards (l\<lparr>rl_shards := (rl_shards l)[i := s]\<rparr>))"
    "b \<in> set (sh_buckets (rl_shards (l\<lparr>rl_shards := (rl_shards l)[i := s]\<rparr>) ! j))"
  then show "shard_for (hash (bk_scope b) (bk_key b)) = j"
    using assms by (cases "i = j") (auto simp: placed_def)
qed

lemma reachable_placed: "limiter_reachable rnd hash l \<Longrightarrow> placed hash l"
proof (induction rule: limiter_reachable.induct)
  case (check l q now scope key)
  obtain s' d where c: "shard_check rnd hash now scope key q (rl_shards l ! shard_for (hash scope key)) = (s', d)" by force
  have "shard_for (hash (bk_scope b) (bk_key b)) = shard_for (hash scope key)"
    if "b \<in> set (sh_buckets s')" "shard_for (hash scope key) < length (rl_shards l)" for b
    using shard_check_ids[OF c that(1)] check(4) that(2) by (auto simp: placed_def bucket_id_def)
  with check(4) show ?case by (auto simp: check_def Let_def c intro: placed_update)
next
  case (reset l scope key)
  have "shard_for (hash (bk_scope b) (bk_key b)) = i"
    if "b \<in> set (remove1 c (sh_buckets (rl_shards l ! i)))" "i < length (rl_shards l)" for b c i
    using reset(2) that subsetD[OF set_remove1_subset that(1)] by (simp add: placed_def)
  with reset(2) show ?case by (auto simp: reset_def Let_def split: option.splits intro!: placed_update)
next
  case (idle l now)
  then show ?case by (auto simp: evict_idle_def Let_def placed_def)
qed (simp add: placed_def limiter_new_def new_shard_def)

lemma shard_inv_filter: "shard_inv hash s \<Longrightarrow> shard_inv hash (s\<lparr>sh_buckets := filter p (sh_buckets s)\<rparr>)"
  by (auto simp: shard_inv_def distinct_map_filter intro: le_trans[OF length_filter_le])

lemma shard_inv_remove: "shard_inv hash s \<Longrightarrow> shard_inv hash (s\<lparr>sh_buckets := remove1 b (sh_buckets s)\<rparr>)"
proof -
  assume inv: "shard_inv hash s"
  then have "distinct (sh_buckets s)" by (simp add: shard_inv_def distinct_map)
  then have "remove1 b (sh_buckets s) = filter (\<lambda>x. b \<noteq> x) (sh_buckets s)"
    by (simp add: distinct_remove1_removeAll removeAll_filter_not_eq)
  with shard_inv_filter[OF inv] show ?thesis by (simp only:)
qed

lemma limiter_inv_update:
  "limiter_inv hash l \<Longrightarrow> shard_inv hash s \<Longrightarrow> limiter_inv hash (l\<lparr>rl_shards := (rl_shards l)[i := s]\<rparr>)"
  by (auto simp: limiter_inv_def dest: subsetD[OF set_update_subset_insert])

lemma limiter_inv_nth: "limiter_inv hash l \<Longrightarrow> shard_inv hash (rl_shards l ! shard_for h)"
  using shard_for_less[of h] by (simp add: limiter_inv_def)

lemma check_inv:
  assumes "rounding rnd" "quota_ok q" "limiter_inv hash l" "numbers_left l"
  shows "limiter_inv hash (fst (check rnd hash now scope key q l))"
proof (cases "rl_enabled l")
  case True
  let ?i = "shard_for (hash scope key)"
  obtain s' d where c: "shard_check rnd hash now scope key q (rl_shards l ! ?i) = (s', d)" by force
  have "sh_next_sequence (rl_shards l ! ?i) \<noteq> - 1"
    using assms(3,4) shard_for_less by (simp add: numbers_left_def limiter_inv_def)
  from shard_check_refines[OF assms(1,2) limiter_inv_nth[OF assms(3)] this c] have "shard_inv hash s'" by blast
  from limiter_inv_update[OF assms(3) this] show ?thesis using True c by (simp add: check_def Let_def)
qed (use assms(3) in \<open>simp add: check_def\<close>)

lemma reachable_limiter_inv:
  assumes "limiter_reachable rnd hash l" "rounding rnd"
  shows "limiter_inv hash l"
  using assms(1)
proof (induction rule: limiter_reachable.induct)
  case new
  show ?case by (simp add: limiter_inv_def limiter_new_def shard_inv_def new_shard_def)
next
  case (check l q now scope key)
  then show ?case by (intro check_inv assms(2)) auto
next
  case (reset l scope key)
  then show ?case
    by (auto simp: reset_def Let_def limiter_inv_update limiter_inv_nth shard_inv_remove split: option.splits)
next
  case (idle l now)
  then show ?case
    by (auto simp: evict_idle_def Let_def limiter_inv_def shard_inv_filter)
qed

text \<open>
  C7: The limiter implements the map of token buckets: a check of a key takes a token from the bucket the map has for it,
  a full one if there is none, answers what the abstract bucket answers, never panics, and leaves every other
  bucket as it was. The one exception is a key without a bucket whose shard holds its limit of buckets: then exactly one
  bucket of that shard, the one whose last check is the longest ago, is forgotten.
\<close>

theorem check_refines_buckets:
  assumes "rounding rnd" "limiter_reachable rnd hash l" "rl_enabled l" "numbers_left l" "quota_ok q"
    "check rnd hash now scope key q l = (l', d)"
  shows "d \<noteq> None \<and>
    (spec_check rnd now (scope, key) q (limiter_view hash l) = (limiter_view hash l', d) \<or>
     (\<exists>b\<in>set (sh_buckets (rl_shards l ! shard_for (hash scope key))).
        length (sh_buckets (rl_shards l ! shard_for (hash scope key))) = MAX_BUCKETS_PER_SHARD \<and>
        limiter_view hash l (scope, key) = None \<and> shard_for (hash (bk_scope b) (bk_key b)) = shard_for (hash scope key) \<and>
        (\<forall>b'\<in>set (sh_buckets (rl_shards l ! shard_for (hash scope key))). b' \<noteq> b \<longrightarrow> bk_sequence b < bk_sequence b') \<and>
        spec_check rnd now (scope, key) q ((limiter_view hash l)(bucket_id b := None)) = (limiter_view hash l', d)))"
proof -
  let ?i = "shard_for (hash scope key)"
  let ?s = "rl_shards l ! ?i"
  have inv: "limiter_inv hash l" by (rule reachable_limiter_inv[OF assms(2,1)])
  have placed: "placed hash l" by (rule reachable_placed[OF assms(2)])
  obtain s' where c: "shard_check rnd hash now scope key q ?s = (s', d)" and l': "l' = l\<lparr>rl_shards := (rl_shards l)[?i := s']\<rparr>"
    using assms(3,6) by (auto simp: check_def Let_def split: prod.splits)
  have "sh_next_sequence ?s \<noteq> - 1" using assms(4) inv shard_for_less by (simp add: numbers_left_def limiter_inv_def)
  note ref = shard_check_refines[OF assms(1,5) limiter_inv_nth[OF inv] this c]
  have i: "?i < length (rl_shards l)" using inv shard_for_less by (simp add: limiter_inv_def)
  have view': "limiter_view hash l' k = (if shard_for (hash (fst k) (snd k)) = ?i then shard_view s' k else limiter_view hash l k)" for k
    using i by (simp add: limiter_view_def l')
  have lift: "spec_check rnd now (scope, key) q v = (limiter_view hash l', d)"
    if spec: "spec_check rnd now (scope, key) q w = (shard_view s', d)" and same: "\<And>k. shard_for (hash (fst k) (snd k)) = ?i \<Longrightarrow> v k = w k"
      and other: "\<And>k. shard_for (hash (fst k) (snd k)) \<noteq> ?i \<Longrightarrow> v k = limiter_view hash l k" for v w
  proof -
    obtain tb where t: "take_token rnd now q (case w (scope, key) of None \<Rightarrow> (qt_capacity q, now) | Some tb \<Rightarrow> tb) = (tb, d)"
      and sv: "shard_view s' = w((scope, key) \<mapsto> tb)"
      using spec by (auto simp: spec_check_def split: prod.splits)
    have "limiter_view hash l' k = (v((scope, key) \<mapsto> tb)) k" for k
      using same[of k] other[of k] by (cases "k = (scope, key)") (simp_all add: view' sv)
    then show ?thesis using t same[of "(scope, key)"] by (simp add: spec_check_def fun_eq_iff)
  qed
  from ref show ?thesis
  proof (elim conjE disjE bexE)
    fix b assume b: "b \<in> set (sh_buckets ?s)" "length (sh_buckets ?s) = MAX_BUCKETS_PER_SHARD" "shard_view ?s (scope, key) = None"
      "\<forall>b'\<in>set (sh_buckets ?s). b' \<noteq> b \<longrightarrow> bk_sequence b < bk_sequence b'"
      "spec_check rnd now (scope, key) q ((shard_view ?s)(bucket_id b := None)) = (shard_view s', d)" "d \<noteq> None"
    have home: "shard_for (hash (bk_scope b) (bk_key b)) = ?i" using placed i b(1) by (simp add: placed_def)
    have "spec_check rnd now (scope, key) q ((limiter_view hash l)(bucket_id b := None)) = (limiter_view hash l', d)"
      by (rule lift[OF b(5)]) (use home in \<open>auto simp: limiter_view_def bucket_id_def\<close>)
    then show ?thesis using b home by (auto simp: limiter_view_def)
  next
    assume "spec_check rnd now (scope, key) q (shard_view ?s) = (shard_view s', d)" "d \<noteq> None"
    moreover from this(1) have "spec_check rnd now (scope, key) q (limiter_view hash l) = (limiter_view hash l', d)"
      by (rule lift) (auto simp: limiter_view_def)
    ultimately show ?thesis by blast
  qed
qed

text \<open>
  However many keys the limiter has seen, it holds at most MAX\_BUCKETS buckets and twice as many queue entries.
\<close>

theorem limiter_memory_bounded:
  assumes "rounding rnd" "limiter_reachable rnd hash l"
  shows "sum_list (map (\<lambda>s. length (sh_buckets s)) (rl_shards l)) \<le> MAX_BUCKETS \<and>
    sum_list (map (\<lambda>s. length (sh_order s)) (rl_shards l)) \<le> 2 * MAX_BUCKETS"
proof -
  have inv: "limiter_inv hash l" by (rule reachable_limiter_inv[OF assms(2,1)])
  have "sum_list (map (\<lambda>s. length (sh_buckets s)) (rl_shards l)) \<le> length (rl_shards l) * MAX_BUCKETS_PER_SHARD"
    "sum_list (map (\<lambda>s. length (sh_order s)) (rl_shards l)) \<le> length (rl_shards l) * (2 * MAX_BUCKETS_PER_SHARD)"
    using inv sum_list_mono[of "rl_shards l" "\<lambda>s. length (sh_buckets s)" "\<lambda>_. MAX_BUCKETS_PER_SHARD"]
      sum_list_mono[of "rl_shards l" "\<lambda>s. length (sh_order s)" "\<lambda>_. 2 * MAX_BUCKETS_PER_SHARD"]
    by (auto simp: limiter_inv_def shard_inv_def sum_list_triv)
  then show ?thesis using inv by (simp add: limiter_inv_def SHARDS_def MAX_BUCKETS_PER_SHARD_def MAX_BUCKETS_def)
qed

subsection \<open>Samples\<close>

definition sample_quota :: Quota where
  "sample_quota = quota_new 3 1"

lemma sample_quota_ok: "quota_ok sample_quota"
  by (auto simp: quota_ok_def sample_quota_def quota_new_def)

lemma sample_new: "limiter_inv (\<lambda>_ _. 0) limiter_new" "numbers_left limiter_new" "rl_enabled limiter_new"
  by (simp_all add: limiter_inv_def limiter_new_def shard_inv_def new_shard_def numbers_left_def)


theorem check_refines_buckets_witness:
  "snd (check (\<lambda>x. x) (\<lambda>_ _. 0) 5 ''auth.login.ip'' ''10.0.0.1'' sample_quota limiter_new) \<noteq> None"
  using check_refines_buckets[OF rounding_id limiter_reachable.new sample_new(3,2) sample_quota_ok surjective_pairing] by blast

theorem limiter_memory_bounded_witness:
  "sum_list (map (\<lambda>s. length (sh_buckets s))
     (rl_shards (fst (check (\<lambda>x. x) (\<lambda>_ _. 0) 5 ''auth.login.ip'' ''10.0.0.1'' sample_quota limiter_new)))) \<le> MAX_BUCKETS"
  using limiter_memory_bounded[OF rounding_id limiter_reachable.check[OF limiter_reachable.new sample_new(2) sample_quota_ok]] by blast

end
