(* ===== verification/Oauth.thy ===== *)
theory Oauth
  imports Hub_Base Workflow_Normalize
begin

text \<open>
  Federated sign-in, \<open>apps/nagisalake-hub/src/oauth\<close>: the configuration of the providers (\<open>config.rs\<close>), the
  browser-facing URLs (\<open>pkce.rs\<close>) and the identity a provider asserts (\<open>exchange.rs\<close>). The HTTP client,
  the base64 and hexadecimal codecs, the decoders of a token response and the printing of a JSON number are parameters;
  fresh identifiers and environment variables are arguments.
\<close>

subsection \<open>Providers\<close>

datatype ProviderKind = Google | Github | Linuxdo | Oidc

datatype OauthError = OauthInvalidConfig string | UnknownProvider string | ProviderFailed string | IdentityUnusable string

definition AUTHORIZATION_TTL_SECONDS :: i64 where
  "AUTHORIZATION_TTL_SECONDS = 600"

fun kind_authorize_url :: "ProviderKind \<Rightarrow> string" where
  "kind_authorize_url Google = ''https://accounts.google.com/o/oauth2/v2/auth''"
| "kind_authorize_url Github = ''https://github.com/login/oauth/authorize''"
| "kind_authorize_url Linuxdo = ''https://connect.linux.do/oauth2/authorize''"
| "kind_authorize_url Oidc = []"

fun kind_token_url :: "ProviderKind \<Rightarrow> string" where
  "kind_token_url Google = ''https://oauth2.googleapis.com/token''"
| "kind_token_url Github = ''https://github.com/login/oauth/access_token''"
| "kind_token_url Linuxdo = ''https://connect.linux.do/oauth2/token''"
| "kind_token_url Oidc = []"

fun kind_userinfo_url :: "ProviderKind \<Rightarrow> string" where
  "kind_userinfo_url Google = ''https://openidconnect.googleapis.com/v1/userinfo''"
| "kind_userinfo_url Github = ''https://api.github.com/user''"
| "kind_userinfo_url Linuxdo = ''https://connect.linux.do/api/user''"
| "kind_userinfo_url Oidc = []"

fun default_scopes :: "ProviderKind \<Rightarrow> string list" where
  "default_scopes Google = [''openid'', ''email'', ''profile'']"
| "default_scopes Github = [''read:user'', ''user:email'']"
| "default_scopes Linuxdo = [''user'']"
| "default_scopes Oidc = [''openid'', ''email'']"

record ProviderConfig =
  pg_kind :: ProviderKind
  pg_client_id :: string
  pg_client_secret_env :: string
  pg_authorize_url :: "string option"
  pg_token_url :: "string option"
  pg_userinfo_url :: "string option"
  pg_scopes :: "string list option"
  pg_allowed_email_domains :: "string list"

record Provider =
  pv_name :: string
  pv_kind :: ProviderKind
  pv_client_id :: string
  pv_client_secret :: string
  pv_authorize_url :: string
  pv_token_url :: string
  pv_userinfo_url :: string
  pv_scopes :: "string list"
  pv_allowed_email_domains :: "string list"

record OauthConfig =
  oc_public_url :: string
  oc_providers :: "(string, ProviderConfig) btree_map"

definition pick_url :: "string \<Rightarrow> string option \<Rightarrow> string \<Rightarrow> string \<Rightarrow> (OauthError, string) result" where
  "pick_url name explicit builtin field =
     (case Option.bind explicit (\<lambda>v. if trim v = [] then None else Some (trim v)) of
        Some v \<Rightarrow> Ok v
      | None \<Rightarrow> if builtin \<noteq> [] then Ok builtin else Err (OauthInvalidConfig (''provider '' @ name @ '': '' @ field @ '' is required'')))"

definition resolve_provider :: "(string \<Rightarrow> string option) \<Rightarrow> string \<Rightarrow> ProviderConfig \<Rightarrow> (OauthError, Provider) result" where
  "resolve_provider env name c =
     (case env (pg_client_secret_env c) of
        None \<Rightarrow> Err (OauthInvalidConfig (''provider '' @ name @ '': environment variable '' @ pg_client_secret_env c @ '' is not set''))
      | Some secret \<Rightarrow>
          if trim secret = [] then Err (OauthInvalidConfig (''provider '' @ name @ '': '' @ pg_client_secret_env c @ '' is empty''))
          else if trim (pg_client_id c) = [] then Err (OauthInvalidConfig (''provider '' @ name @ '': client_id is empty''))
          else
            and_then (pick_url name (pg_authorize_url c) (kind_authorize_url (pg_kind c)) ''authorize_url'') (\<lambda>authorize.
            and_then (pick_url name (pg_token_url c) (kind_token_url (pg_kind c)) ''token_url'') (\<lambda>token.
            and_then (pick_url name (pg_userinfo_url c) (kind_userinfo_url (pg_kind c)) ''userinfo_url'') (\<lambda>userinfo.
            Ok \<lparr>pv_name = name, pv_kind = pg_kind c, pv_client_id = trim (pg_client_id c), pv_client_secret = secret,
                pv_authorize_url = authorize, pv_token_url = token, pv_userinfo_url = userinfo,
                pv_scopes = (case pg_scopes c of Some (x # xs) \<Rightarrow> x # xs | _ \<Rightarrow> default_scopes (pg_kind c)),
                pv_allowed_email_domains =
                  filter (\<lambda>d. d \<noteq> []) (map (\<lambda>d. ascii_lowercase (trim d)) (pg_allowed_email_domains c))\<rparr>))))"

fun resolve_all :: "(string \<Rightarrow> string option) \<Rightarrow> (string \<times> ProviderConfig) list \<Rightarrow> (string, Provider) btree_map \<Rightarrow>
    (OauthError, (string, Provider) btree_map) result" where
  "resolve_all env [] done = Ok done"
| "resolve_all env ((name, c) # rest) done =
     and_then (resolve_provider env name c) (\<lambda>p. resolve_all env rest (bt_insert name p done))"

definition oauth_resolve :: "(string \<Rightarrow> string option) \<Rightarrow> OauthConfig \<Rightarrow> (OauthError, (string, Provider) btree_map) result" where
  "oauth_resolve env c =
     (if trim (oc_public_url c) = [] then Err (OauthInvalidConfig ''oauth.public_url is required to build the redirect URI'')
      else if \<not> prefix ''http://'' (oc_public_url c) \<and> \<not> prefix ''https://'' (oc_public_url c)
      then Err (OauthInvalidConfig ''oauth.public_url must include the scheme'')
      else resolve_all env (oc_providers c) [])"

definition redirect_uri :: "OauthConfig \<Rightarrow> string \<Rightarrow> string" where
  "redirect_uri c provider =
     rev (dropWhile (\<lambda>x. x = CHR ''/'') (rev (oc_public_url c))) @ ''/api/v1/auth/oauth/'' @ provider @ ''/callback''"

definition split_once :: "char \<Rightarrow> string \<Rightarrow> (string \<times> string) option" where
  "split_once c s = (if c \<in> set s then Some (takeWhile (\<lambda>x. x \<noteq> c) s, tl (dropWhile (\<lambda>x. x \<noteq> c) s)) else None)"

definition rsplit_once :: "char \<Rightarrow> string \<Rightarrow> (string \<times> string) option" where
  "rsplit_once c s = map_option (\<lambda>(a, b). (rev b, rev a)) (split_once c (rev s))"

definition allows_email :: "Provider \<Rightarrow> string \<Rightarrow> bool" where
  "allows_email p email =
     (if pv_allowed_email_domains p = [] then True
      else (case rsplit_once (CHR ''@'') email of None \<Rightarrow> [] | Some (_, domain) \<Rightarrow> ascii_lowercase domain) \<in> set (pv_allowed_email_domains p))"

subsection \<open>URLs\<close>

record Pkce =
  pk_verifier :: string
  pk_challenge :: string

text \<open>The two identifiers are fresh; \<open>hash\<close> is the hexadecimal digest of \<open>hash_secret\<close>.\<close>

definition generate_pkce ::
  "(string \<Rightarrow> string) \<Rightarrow> (u8 list \<Rightarrow> u8 list option) \<Rightarrow> (u8 list \<Rightarrow> string) \<Rightarrow> string \<Rightarrow> string \<Rightarrow> Pkce" where
  "generate_pkce hash hex_decode b64url a b =
     (let verifier = a @ b
      in \<lparr>pk_verifier = verifier, pk_challenge = b64url (case_option [] id (hex_decode (as_bytes (hash verifier))))\<rparr>)"

definition hex_upper :: "nat \<Rightarrow> char" where
  "hex_upper n = char_of (if n < 10 then 48 + n else 55 + n)"

definition urlencode_component :: "string \<Rightarrow> string" where
  "urlencode_component v =
     concat (map (\<lambda>c. if is_ascii_alphanumeric c \<or> c \<in> {CHR ''-'', CHR ''_'', CHR ''.'', CHR ''~''} then [c]
                      else [CHR ''%'', hex_upper (ascii c div 16), hex_upper (ascii c mod 16)]) v)"

fun join_parts :: "string \<Rightarrow> string list \<Rightarrow> string" where
  "join_parts sep [] = []"
| "join_parts sep [s] = s"
| "join_parts sep (s # t # ss) = s @ sep @ join_parts sep (t # ss)"

definition authorize_url :: "Provider \<Rightarrow> string \<Rightarrow> string \<Rightarrow> string \<Rightarrow> string" where
  "authorize_url p uri state challenge =
     pv_authorize_url p @ ''?response_type=code&client_id='' @ urlencode_component (pv_client_id p) @
     ''&redirect_uri='' @ urlencode_component uri @ ''&state='' @ urlencode_component state @
     ''&scope='' @ urlencode_component (join_parts '' '' (pv_scopes p)) @
     ''&code_challenge='' @ urlencode_component challenge @ ''&code_challenge_method=S256'' @
     (if pv_kind p = Google then ''&access_type=online&prompt=select_account'' else [])"

definition sanitize_redirect_path :: "string option \<Rightarrow> string" where
  "sanitize_redirect_path candidate =
     (case Option.bind candidate (\<lambda>v. if trim v = [] then None else Some (trim v)) of
        None \<Rightarrow> ''/''
      | Some path \<Rightarrow>
          if \<not> prefix ''/'' path \<or> prefix ''//'' path \<or> CHR 0x5C \<in> set path then ''/''
          else if sublist ''://'' path then ''/''
          else path)"

subsection \<open>Identities\<close>

record FederatedIdentity =
  fi_subject :: string
  fi_email :: string
  fi_email_verified :: bool
  fi_display_name :: "string option"

record TokenResponse =
  tk_access_token :: "string option"
  tk_error :: "string option"
  tk_error_description :: "string option"

text \<open>A GET with a bearer token: it fails, answers an error status, a body that is no JSON, or a JSON value.\<close>

datatype GetOutcome = GetFailed string | GetStatus string | GetNotJson string | GetJson json

record oauth_client =
  ot_post :: "string \<Rightarrow> (string \<times> string) list \<Rightarrow> (string, nat \<times> (string, u8 list) result) result"
  ot_get :: "string \<Rightarrow> string \<Rightarrow> GetOutcome"
  ot_token_json :: "u8 list \<Rightarrow> TokenResponse option"
  ot_token_form :: "u8 list \<Rightarrow> (string, TokenResponse) result"
  ot_number :: "json_number \<Rightarrow> string"

definition parse_token_response :: "oauth_client \<Rightarrow> u8 list \<Rightarrow> (OauthError, TokenResponse) result" where
  "parse_token_response W body =
     (case ot_token_json W body of
        Some t \<Rightarrow> Ok t
      | None \<Rightarrow>
          (case ot_token_form W body of
             Ok t \<Rightarrow> Ok t
           | Err e \<Rightarrow> Err (ProviderFailed (''token response was not JSON or form data: '' @ e))))"

definition get_json :: "oauth_client \<Rightarrow> string \<Rightarrow> string \<Rightarrow> string \<Rightarrow> string \<Rightarrow> (OauthError, json) result" where
  "get_json W what hint url token =
     (case ot_get W url token of
        GetFailed e \<Rightarrow> Err (ProviderFailed (what @ '' request failed: '' @ e))
      | GetStatus e \<Rightarrow> Err (ProviderFailed (what @ '' returned an error'' @ hint @ '': '' @ e))
      | GetNotJson e \<Rightarrow> Err (ProviderFailed (what @ '' was not JSON: '' @ e))
      | GetJson v \<Rightarrow> Ok v)"

definition str_claim :: "json \<Rightarrow> string \<Rightarrow> string option" where
  "str_claim claims name = Option.bind (json_get claims name) as_str"

definition oidc_identity :: "json \<Rightarrow> (OauthError, FederatedIdentity) result" where
  "oidc_identity claims =
     and_then (ok_or (IdentityUnusable ''userinfo had no sub'') (str_claim claims ''sub'')) (\<lambda>subject.
     and_then (ok_or (IdentityUnusable ''userinfo had no email'') (str_claim claims ''email'')) (\<lambda>email.
     Ok \<lparr>fi_subject = subject, fi_email = email,
         fi_email_verified = (case json_get claims ''email_verified'' of
            Some (Bool v) \<Rightarrow> v | Some (String v) \<Rightarrow> v = ''true'' | _ \<Rightarrow> False),
         fi_display_name = str_claim claims ''name''\<rparr>))"

definition fetch_oidc_userinfo :: "oauth_client \<Rightarrow> Provider \<Rightarrow> string \<Rightarrow> (OauthError, FederatedIdentity) result" where
  "fetch_oidc_userinfo W p token = and_then (get_json W ''userinfo'' [] (pv_userinfo_url p) token) oidc_identity"

definition claim_string :: "oauth_client \<Rightarrow> json \<Rightarrow> string \<Rightarrow> string option" where
  "claim_string W claims name =
     (case json_get claims name of
        Some (String v) \<Rightarrow> if trim v = [] then None else Some (trim v)
      | Some (Number n) \<Rightarrow> Some (ot_number W n)
      | _ \<Rightarrow> None)"

definition or_else :: "'a option \<Rightarrow> 'a option \<Rightarrow> 'a option" where
  "or_else a b = (case a of None \<Rightarrow> b | Some x \<Rightarrow> Some x)"

definition linuxdo_identity_from_userinfo :: "oauth_client \<Rightarrow> json \<Rightarrow> (OauthError, FederatedIdentity) result" where
  "linuxdo_identity_from_userinfo W claims =
     and_then (ok_or (IdentityUnusable ''Linux.do userinfo had no id'') (claim_string W claims ''id'')) (\<lambda>subject.
       if length subject > 64 - length ''linuxdo-'' \<or>
          \<not> list_all (\<lambda>c. is_ascii_alphanumeric c \<or> c \<in> {CHR ''_'', CHR ''-''}) subject
       then Err (IdentityUnusable ''Linux.do userinfo returned an invalid id'')
       else
         let username = (case or_else (claim_string W claims ''username'') (claim_string W claims ''name'') of
                           Some u \<Rightarrow> u | None \<Rightarrow> ''linuxdo_'' @ subject)
         in Ok \<lparr>fi_subject = subject, fi_email = ''linuxdo-'' @ subject @ ''@linuxdo-connect.invalid'', fi_email_verified = True,
                fi_display_name = or_else (claim_string W claims ''name'') (Some username)\<rparr>)"

definition fetch_linuxdo_identity :: "oauth_client \<Rightarrow> Provider \<Rightarrow> string \<Rightarrow> (OauthError, FederatedIdentity) result" where
  "fetch_linuxdo_identity W p token =
     and_then (get_json W ''userinfo'' [] (pv_userinfo_url p) token) (linuxdo_identity_from_userinfo W)"

record GithubUser =
  gu_id :: i64
  gu_login :: string
  gu_name :: "string option"
  gu_email :: "string option"

record GithubEmail =
  ge_email :: string
  ge_primary :: bool
  ge_verified :: bool

text \<open>The decoders derived for the two types.\<close>

definition opt_field :: "json \<Rightarrow> string \<Rightarrow> string option option" where
  "opt_field v name =
     (case json_get v name of None \<Rightarrow> Some None | Some Null \<Rightarrow> Some None | Some (String s) \<Rightarrow> Some (Some s) | _ \<Rightarrow> None)"

definition github_user_of :: "json \<Rightarrow> GithubUser option" where
  "github_user_of v =
     (case (json_get v ''id'', str_claim v ''login'', opt_field v ''name'', opt_field v ''email'') of
        (Some (Number (PosInt n)), Some login, Some name, Some email) \<Rightarrow>
          if uint n < 2 ^ 63 then Some \<lparr>gu_id = uint n, gu_login = login, gu_name = name, gu_email = email\<rparr> else None
      | (Some (Number (NegInt n)), Some login, Some name, Some email) \<Rightarrow>
          Some \<lparr>gu_id = n, gu_login = login, gu_name = name, gu_email = email\<rparr>
      | _ \<Rightarrow> None)"

definition github_email_of :: "json \<Rightarrow> GithubEmail option" where
  "github_email_of v =
     (case (str_claim v ''email'', json_get v ''primary'', json_get v ''verified'') of
        (Some email, Some (Bool p), Some (Bool f)) \<Rightarrow> Some \<lparr>ge_email = email, ge_primary = p, ge_verified = f\<rparr>
      | _ \<Rightarrow> None)"

fun github_emails_of :: "json list \<Rightarrow> GithubEmail list option" where
  "github_emails_of [] = Some []"
| "github_emails_of (v # vs) =
     (case (github_email_of v, github_emails_of vs) of (Some e, Some es) \<Rightarrow> Some (e # es) | _ \<Rightarrow> None)"

definition chosen_email :: "GithubEmail list \<Rightarrow> GithubEmail option" where
  "chosen_email es =
     or_else (find (\<lambda>e. ge_primary e \<and> ge_verified e) es)
       (or_else (find ge_verified es) (or_else (find ge_primary es) (case es of [] \<Rightarrow> None | e # _ \<Rightarrow> Some e)))"

definition show_i64 :: "i64 \<Rightarrow> string" where
  "show_i64 n = (if n < 0 then CHR ''-'' # show_nat (nat (- n)) else show_nat (nat n))"

definition fetch_github_identity :: "oauth_client \<Rightarrow> Provider \<Rightarrow> string \<Rightarrow> (OauthError, FederatedIdentity) result" where
  "fetch_github_identity W p token =
     and_then (get_json W ''/user'' [] (pv_userinfo_url p) token) (\<lambda>u.
     and_then (ok_or (ProviderFailed ''/user was not JSON: '') (github_user_of u)) (\<lambda>user.
     and_then (get_json W ''/user/emails'' '' (is the user:email scope granted?)'' ''https://api.github.com/user/emails'' token) (\<lambda>es.
     and_then (ok_or (ProviderFailed ''/user/emails was not JSON: '') (case es of Array vs \<Rightarrow> github_emails_of vs | _ \<Rightarrow> None)) (\<lambda>emails.
     and_then
       (case chosen_email emails of
          Some e \<Rightarrow> Ok (ge_email e, ge_verified e)
        | None \<Rightarrow>
            and_then (ok_or (IdentityUnusable ''GitHub returned no email address; add one to your GitHub account'') (gu_email user))
              (\<lambda>m. Ok (m, False)))
       (\<lambda>(email, verified).
     Ok \<lparr>fi_subject = show_i64 (gu_id user), fi_email = email, fi_email_verified = verified,
         fi_display_name = or_else (gu_name user) (Some (gu_login user))\<rparr>)))))"

definition exchange_and_fetch_identity ::
  "oauth_client \<Rightarrow> Provider \<Rightarrow> string \<Rightarrow> string \<Rightarrow> string \<Rightarrow> (OauthError, FederatedIdentity) result" where
  "exchange_and_fetch_identity W p uri code verifier =
     (case ot_post W (pv_token_url p)
             [(''grant_type'', ''authorization_code''), (''code'', code), (''redirect_uri'', uri), (''client_id'', pv_client_id p),
              (''client_secret'', pv_client_secret p), (''code_verifier'', verifier)] of
        Err e \<Rightarrow> Err (ProviderFailed (''token request failed: '' @ e))
      | Ok (status, Err e) \<Rightarrow> Err (ProviderFailed (''failed to read token response: '' @ e))
      | Ok (status, Ok body) \<Rightarrow>
          and_then (parse_token_response W body) (\<lambda>t.
            case tk_error t of
              Some e \<Rightarrow> Err (ProviderFailed (''token endpoint rejected the code: '' @ e @ '' '' @ case_option [] id (tk_error_description t)))
            | None \<Rightarrow>
                if \<not> (200 \<le> status \<and> status < 300) then Err (ProviderFailed (''token endpoint returned HTTP '' @ show_nat status))
                else
                  and_then (ok_or (IdentityUnusable ''token response had no access_token'') (tk_access_token t)) (\<lambda>token.
                    case pv_kind p of
                      Google \<Rightarrow> fetch_oidc_userinfo W p token
                    | Oidc \<Rightarrow> fetch_oidc_userinfo W p token
                    | Github \<Rightarrow> fetch_github_identity W p token
                    | Linuxdo \<Rightarrow> fetch_linuxdo_identity W p token)))"

end
