(* ===== verification/Api_Shared.thy ===== *)
theory Api_Shared
  imports Account_Access Rate_Limiter Oauth Hub_Sessions
begin

text \<open>
  What the handlers of the product API share: opaque secrets and passwords
  (\<open>crates/nagisalake-hub-auth\<close>, \<open>secret.rs\<close> and \<open>password.rs\<close>), cursors, error responses, scopes and
  the audit helper (\<open>apps/nagisalake-hub/src/product_api/shared.rs\<close>), and the throttling of \<open>hub/state.rs\<close>.
  \<open>api_env\<close> holds what a request draws from outside: the \<open>n\<close>-th reading of a clock, the \<open>n\<close>-th fresh identifier, the
  hash functions, the codecs and the HTTP client. A response is its status, its headers in order and its body;
  the text of an error message is left to the error it shows.
\<close>

subsection \<open>Environment, configuration, state\<close>

record api_env =
  en_sha256 :: "u8 list \<Rightarrow> u8 list"
  en_argon_hash :: "string \<Rightarrow> (string, string) result"
  en_argon_verify :: "string \<Rightarrow> string \<Rightarrow> bool"
  en_rnd :: "real \<Rightarrow> real"
  en_bucket_hash :: "string \<Rightarrow> string \<Rightarrow> u64"
  en_clock :: "nat \<Rightarrow> i64"
  en_instant :: "nat \<Rightarrow> nat"
  en_uuid :: "nat \<Rightarrow> string"
  en_simple :: "nat \<Rightarrow> string"
  en_parse_scopes :: "string \<Rightarrow> string list option"
  en_json :: "json \<Rightarrow> string"
  en_hex_decode :: "u8 list \<Rightarrow> u8 list option"
  en_b64_encode :: "u8 list \<Rightarrow> string"
  en_b64_decode :: "u8 list \<Rightarrow> u8 list option"
  en_client :: oauth_client

record ApiConfig =
  cf_registration_enabled :: bool
  cf_password_auth_enabled :: bool
  cf_cookie_secure :: bool
  cf_access_ttl_seconds :: i64
  cf_refresh_ttl_seconds :: i64
  cf_allowed_origins :: "string list"
  cf_trust_forwarded_for :: bool
  cf_oauth :: "OauthConfig option"
  cf_oauth_providers :: "(string, Provider) btree_map"

record ApiState =
  as_store :: "AccountDb option"
  as_limiter :: RateLimiter
  as_sessions :: SessionRegistry

subsection \<open>Secrets and passwords\<close>

record GeneratedSecret =
  gs_plaintext :: string
  gs_display_prefix :: string
  gs_hash :: string

definition hex_lower :: "nat \<Rightarrow> char" where
  "hex_lower n = char_of (if n < 10 then 48 + n else 87 + n)"

definition hash_secret :: "api_env \<Rightarrow> string \<Rightarrow> string" where
  "hash_secret E secret =
     concat (map (\<lambda>b. [hex_lower (unat b div 16), hex_lower (unat b mod 16)]) (en_sha256 E (as_bytes secret)))"

text \<open>The two identifiers are the \<open>n\<close>-th and the next fresh one.\<close>

definition generate_secret :: "api_env \<Rightarrow> nat \<Rightarrow> string \<Rightarrow> GeneratedSecret" where
  "generate_secret E n pre =
     (let plaintext = pre @ ''_'' @ en_simple E n @ en_simple E (n + 1)
      in \<lparr>gs_plaintext = plaintext, gs_display_prefix = take_chars (length pre + 9) plaintext, gs_hash = hash_secret E plaintext\<rparr>)"

definition verify_secret :: "api_env \<Rightarrow> string \<Rightarrow> string \<Rightarrow> bool" where
  "verify_secret E secret expected = constant_time_eq (as_bytes (hash_secret E secret)) (as_bytes expected)"

definition validate_password :: "string \<Rightarrow> (AuthError, unit) result" where
  "validate_password password =
     (if length password < 12 then Err (WeakPassword ''password must be at least 12 bytes'')
      else if length password > 1024 then Err (WeakPassword ''password must be at most 1024 bytes'')
      else Ok ())"

definition hash_password :: "api_env \<Rightarrow> string \<Rightarrow> (AuthError, string) result" where
  "hash_password E password =
     and_then (validate_password password) (\<lambda>_.
       case en_argon_hash E password of Ok h \<Rightarrow> Ok h | Err e \<Rightarrow> Err (PasswordHash e))"

definition verify_password_async :: "api_env \<Rightarrow> string \<Rightarrow> string option \<Rightarrow> bool" where
  "verify_password_async E password stored =
     (case stored of Some encoded \<Rightarrow> en_argon_verify E password encoded | None \<Rightarrow> False)"

subsection \<open>Cursors\<close>

definition page_limit :: "i64 option \<Rightarrow> i64" where
  "page_limit limit = min (max (case_option 50 id limit) 1) 200"

definition encode_cursor_parts :: "api_env \<Rightarrow> string list \<Rightarrow> string" where
  "encode_cursor_parts E parts = en_b64_encode E (as_bytes (join_parts [CHR 0x00] parts))"

definition decode_cursor_parts :: "api_env \<Rightarrow> string \<Rightarrow> nat \<Rightarrow> (HubError, string list) result" where
  "decode_cursor_parts E cursor expected =
     (case en_b64_decode E (as_bytes cursor) of
        None \<Rightarrow> Err (InvalidRequest ''cursor is not valid'')
      | Some raw \<Rightarrow>
          if \<not> utf8_valid raw then Err (InvalidRequest ''cursor is not valid'')
          else
            let parts = split_char (CHR 0x00) (of_bytes raw)
            in if length parts \<noteq> expected \<or> [] \<in> set parts then Err (InvalidRequest ''cursor is not valid'') else Ok parts)"

text \<open>\<open>str::parse::<i64>\<close>: an optional sign, decimal digits, within range.\<close>

definition parse_i64 :: "string \<Rightarrow> i64 option" where
  "parse_i64 s =
     (let (neg, digits) = (case s of c # r \<Rightarrow> if c = CHR ''-'' then (True, r) else if c = CHR ''+'' then (False, r) else (False, s) | [] \<Rightarrow> (False, []));
          n = (if neg then - int (read_digits digits) else int (read_digits digits))
      in if digits = [] \<or> \<not> list_all is_ascii_digit digits \<or> n < i64_min \<or> n > i64_max then None else Some n)"

definition encode_created_id_cursor :: "api_env \<Rightarrow> i64 \<Rightarrow> string \<Rightarrow> string" where
  "encode_created_id_cursor E created_at i = encode_cursor_parts E [show_i64 created_at, i]"

definition decode_created_id_cursor :: "api_env \<Rightarrow> string \<Rightarrow> (HubError, i64 \<times> string) result" where
  "decode_created_id_cursor E cursor =
     and_then (decode_cursor_parts E cursor 2) (\<lambda>parts.
       case parse_i64 (parts ! 0) of
         None \<Rightarrow> Err (InvalidRequest ''cursor is not valid'')
       | Some t \<Rightarrow> Ok (t, parts ! 1))"

definition encode_id_cursor :: "api_env \<Rightarrow> string \<Rightarrow> string" where
  "encode_id_cursor E i = encode_cursor_parts E [i]"

definition decode_id_cursor :: "api_env \<Rightarrow> string \<Rightarrow> (HubError, string) result" where
  "decode_id_cursor E cursor = and_then (decode_cursor_parts E cursor 1) (\<lambda>parts. Ok (parts ! 0))"

definition encode_device_cursor :: "api_env \<Rightarrow> string \<Rightarrow> string \<Rightarrow> string \<Rightarrow> string" where
  "encode_device_cursor E org device access = encode_cursor_parts E [org, device, access]"

definition decode_device_cursor :: "api_env \<Rightarrow> string \<Rightarrow> (HubError, string \<times> string \<times> string) result" where
  "decode_device_cursor E cursor = and_then (decode_cursor_parts E cursor 3) (\<lambda>parts. Ok (parts ! 0, parts ! 1, parts ! 2))"

definition encode_workflow_cursor :: "api_env \<Rightarrow> string \<Rightarrow> string \<Rightarrow> string" where
  "encode_workflow_cursor E workflow version = encode_cursor_parts E [workflow, version]"

definition decode_workflow_cursor :: "api_env \<Rightarrow> string \<Rightarrow> (HubError, string \<times> string) result" where
  "decode_workflow_cursor E cursor = and_then (decode_cursor_parts E cursor 2) (\<lambda>parts. Ok (parts ! 0, parts ! 1))"

subsection \<open>Requests and responses\<close>

record PublicUser =
  pu_id :: string
  pu_email :: string
  pu_status :: string
  pu_email_verified :: bool
  pu_created_at :: i64

datatype Body =
    NoBody
  | ErrorBody string HubError string
  | AuthBody string i64 i64 string PublicUser string
  | MeBody PublicUser string "Membership list" string
  | IdentitiesBody "LinkedIdentity list"
  | ProvidersBody "(string \<times> ProviderKind) list"

record Response =
  rp_status :: nat
  rp_headers :: "(string \<times> string) list"
  rp_body :: Body

definition api_store :: "ApiState \<Rightarrow> (HubError, AccountDb) result" where
  "api_store st = ok_or (Unavailable ''PostgreSQL control plane is not configured'') (as_store st)"

definition request_id :: "api_env \<Rightarrow> HeaderMap \<Rightarrow> string" where
  "request_id E headers =
     (case header_str headers ''x-request-id'' of
        Some v \<Rightarrow> if trim v = [] then en_uuid E 0 else truncate_str v 128
      | None \<Rightarrow> en_uuid E 0)"

fun error_code :: "HubError \<Rightarrow> nat \<times> string" where
  "error_code (Unauthorized _) = (401, ''unauthorized'')"
| "error_code (Forbidden _) = (403, ''forbidden'')"
| "error_code (HubNotFound _) = (404, ''not_found'')"
| "error_code (InvalidRequest _) = (400, ''invalid_request'')"
| "error_code (Conflict _) = (409, ''conflict'')"
| "error_code (QuotaExceeded _) = (429, ''quota_exceeded'')"
| "error_code (RateLimited _) = (429, ''rate_limited'')"
| "error_code (Unavailable _) = (503, ''unavailable'')"
| "error_code (ObjectStore _) = (502, ''upstream_error'')"
| "error_code Transport = (502, ''upstream_error'')"
| "error_code _ = (500, ''internal_error'')"

text \<open>\<open>HeaderValue::from_str\<close> takes every byte but the control characters, and tabs.\<close>

definition header_from_str :: "string \<Rightarrow> string option" where
  "header_from_str v = (if list_all (\<lambda>c. (32 \<le> ascii c \<and> ascii c \<noteq> 127) \<or> ascii c = 9) v then Some v else None)"

definition header_value :: "string \<Rightarrow> string \<Rightarrow> (string \<times> string) list" where
  "header_value name v = (case header_from_str v of Some v \<Rightarrow> [(name, v)] | None \<Rightarrow> [])"

definition product_error :: "HubError \<Rightarrow> string \<Rightarrow> Response" where
  "product_error e rid =
     (let (status, code) = error_code e
      in \<lparr>rp_status = status,
          rp_headers = (case e of RateLimited n \<Rightarrow> header_value ''retry-after'' (show_nat (unat n)) | _ \<Rightarrow> []) @ header_value ''x-request-id'' rid,
          rp_body = ErrorBody code e rid\<rparr>)"

definition map_store :: "StoreError \<Rightarrow> HubError" where
  "map_store e =
     (case e of SNotFound v \<Rightarrow> HubNotFound v | SConflict v \<Rightarrow> Conflict v | SQuotaExceeded v \<Rightarrow> QuotaExceeded v | _ \<Rightarrow> Store)"

definition valid_email :: "string \<Rightarrow> bool" where
  "valid_email email =
     (let email = trim email
      in length email \<le> 320 \<and>
         (case split_once (CHR ''@'') email of Some (l, domain) \<Rightarrow> l \<noteq> [] \<and> CHR ''.'' \<in> set domain | None \<Rightarrow> False))"

fun auth_kind :: "PrincipalKind \<Rightarrow> string" where
  "auth_kind BrowserSession = ''browser_session''"
| "auth_kind ApiKey = ''api_key''"
| "auth_kind WorkerCredentialKind = ''worker_credential''"
| "auth_kind LegacyToken = ''legacy_token''"

definition scope_permission :: "string \<Rightarrow> Permission option" where
  "scope_permission scope =
     map_of [(''workflows:read'', WorkflowsRead), (''workflows:write'', WorkflowsPublish), (''jobs:read'', JobsReadOrganization),
       (''jobs:write'', JobsWrite), (''jobs:cancel'', JobsCancelOwn), (''artifacts:read'', ArtifactsRead),
       (''artifacts:write'', ArtifactsWrite), (''workers:manage'', WorkersManage), (''members:manage'', MembersManage),
       (''api_keys:manage'', ApiKeysManageOwn), (''quota:read'', QuotaRead), (''quota:manage'', QuotaManage),
       (''audit:read'', AuditRead), (''devices:read'', DevicesRead), (''devices:use'', DevicesUse),
       (''devices:register'', DevicesRegisterOwn), (''devices:share'', DevicesShareOwn)] scope"

fun validate_scope_list :: "Principal \<Rightarrow> string list \<Rightarrow> (HubError, unit) result" where
  "validate_scope_list p [] = Ok ()"
| "validate_scope_list p (scope # rest) =
     (case scope_permission scope of
        None \<Rightarrow> Err (InvalidRequest (''unknown API key scope: '' @ scope))
      | Some permission \<Rightarrow>
          if \<not> role_allows (pc_role p) permission then Err (Forbidden (''role cannot grant scope '' @ scope))
          else validate_scope_list p rest)"

text \<open>The accepted scopes come back as a sorted set.\<close>

definition validate_scopes :: "Principal \<Rightarrow> string list \<Rightarrow> (HubError, string list) result" where
  "validate_scopes p requested =
     and_then (validate_scope_list p requested) (\<lambda>_.
       if requested = [] then Err (InvalidRequest ''at least one API key scope is required'') else Ok (sort (remdups requested)))"

subsection \<open>Throttling and audit\<close>

text \<open>The limits of the hub never make a check panic, so the decision is always there.\<close>

definition decision_result :: "Decision option \<Rightarrow> (HubError, unit) result" where
  "decision_result d = (case the d of Allow \<Rightarrow> Ok () | Deny n \<Rightarrow> Err (RateLimited n))"

definition rate_limit_key ::
  "api_env \<Rightarrow> nat \<Rightarrow> string \<Rightarrow> string \<Rightarrow> Quota \<Rightarrow> ApiState \<Rightarrow> ApiState \<times> (HubError, unit) result" where
  "rate_limit_key E n scope key quota st =
     (case check (en_rnd E) (en_bucket_hash E) (en_instant E n) scope key quota (as_limiter st) of
        (l, d) \<Rightarrow> (st\<lparr>as_limiter := l\<rparr>, decision_result d))"

definition rate_limit_ip ::
  "api_env \<Rightarrow> ApiConfig \<Rightarrow> nat \<Rightarrow> HeaderMap \<Rightarrow> string option \<Rightarrow> string \<Rightarrow> Quota \<Rightarrow> ApiState \<Rightarrow> ApiState \<times> (HubError, unit) result" where
  "rate_limit_ip E C n headers peer scope quota st =
     rate_limit_key E n scope (client_address headers peer (cf_trust_forwarded_for C)) quota st"

text \<open>An audit record that cannot be stored is only logged.\<close>

definition api_audit ::
  "api_env \<Rightarrow> nat \<Rightarrow> string option \<Rightarrow> string option \<Rightarrow> string \<Rightarrow> string \<Rightarrow> string \<Rightarrow> string \<Rightarrow> string option \<Rightarrow> string \<Rightarrow> json
   \<Rightarrow> ApiState \<Rightarrow> ApiState" where
  "api_audit E n org actor kind rid action resource resource_id outcome metadata st =
     (case as_store st of
        None \<Rightarrow> st
      | Some A \<Rightarrow>
          st\<lparr>as_store := Some (fst (Account_Access.audit (en_uuid E n)
            \<lparr>al_organization_id = org, al_actor_id = actor, al_actor_kind = Some kind, al_request_id = Some rid, al_action = action,
             al_resource_type = resource, al_resource_id = resource_id, al_outcome = outcome, al_metadata_json = en_json E metadata,
             al_created_at = en_clock E n\<rparr> A))\<rparr>)"

end
