(* ===== verification/Auth_Api.thy ===== *)
theory Auth_Api
  imports Api_Shared
begin

text \<open>
  The authentication endpoints of the hub, \<open>apps/nagisalake-hub/src/product_api/authentication.rs\<close>: who a bearer
  token stands for (\<open>authenticate\<close>, \<open>authorize\<close>), registration, login, refresh, logout, federated sign-in and
  the cookies they set. A handler is a function from the state to the new state and the response; it runs
  from its first to its last store call without another request in between.
\<close>

definition REFRESH_COOKIE :: string where
  "REFRESH_COOKIE = ''nagisalake_refresh''"

definition CSRF_COOKIE :: string where
  "CSRF_COOKIE = ''nagisalake_csrf''"

subsection \<open>Who the token stands for\<close>

record AuthContext =
  ax_principal :: Principal
  ax_session_id :: "string option"

definition session_context :: "string \<Rightarrow> BrowserSession \<Rightarrow> Membership \<Rightarrow> AuthContext" where
  "session_context org s m =
     \<lparr>ax_principal = \<lparr>pc_kind = BrowserSession, pc_actor_id = bs_id s, pc_user_id = Some (bs_user_id s), pc_organization_id = org,
        pc_role = ms_role m, pc_scopes = []\<rparr>,
      ax_session_id = Some (bs_id s)\<rparr>"

definition key_context :: "ApiKey \<Rightarrow> Membership \<Rightarrow> AuthContext" where
  "key_context k m =
     \<lparr>ax_principal = \<lparr>pc_kind = ApiKey, pc_actor_id = ak_id k, pc_user_id = Some (ak_creator_user_id k),
        pc_organization_id = ak_organization_id k, pc_role = ms_role m, pc_scopes = sort (remdups (ak_scopes k))\<rparr>,
      ax_session_id = None\<rparr>"

definition requested_organization :: "HeaderMap \<Rightarrow> string option \<Rightarrow> string option" where
  "requested_organization headers org =
     or_else org (Option.bind (header_str headers ''x-organization-id'') (\<lambda>v. if trim v = [] then None else Some v))"

definition authenticate ::
  "api_env \<Rightarrow> HeaderMap \<Rightarrow> string option \<Rightarrow> ApiState \<Rightarrow> ApiState \<times> (HubError, AuthContext) result" where
  "authenticate E headers org st =
     (case bearer_token (hm_get headers ''authorization'') of
        None \<Rightarrow> (st, Err (Unauthorized ''bearer token is required''))
      | Some token \<Rightarrow>
          (case api_store st of
             Err e \<Rightarrow> (st, Err e)
           | Ok A \<Rightarrow>
               let now = en_clock E 0; requested = requested_organization headers org
               in if prefix ''nss_'' token then
                    (case session_by_access_hash (hash_secret E token) A of
                       None \<Rightarrow> (st, Err (Unauthorized ''invalid browser session''))
                     | Some s \<Rightarrow>
                         if bs_revoked_at s \<noteq> None \<or> bs_access_expires_at s \<le> now
                         then (st, Err (Unauthorized ''browser session is expired or revoked''))
                         else
                           let org = case_option (bs_organization_id s) id requested
                           in case membership org (bs_user_id s) A of
                                None \<Rightarrow> (st, Err (Forbidden ''user is not an organization member''))
                              | Some m \<Rightarrow> (st, Ok (session_context org s m)))
                  else if prefix ''nsk_'' token then
                    (case api_key_by_hash (en_parse_scopes E) (hash_secret E token) A of
                       None \<Rightarrow> (st, Err (Unauthorized ''invalid API key''))
                     | Some k \<Rightarrow>
                         if ak_revoked_at k \<noteq> None \<or> (case ak_expires_at k of None \<Rightarrow> False | Some t \<Rightarrow> t \<le> now)
                         then (st, Err (Unauthorized ''API key is expired or revoked''))
                         else
                           let A = touch_api_key (ak_id k) now A; st = st\<lparr>as_store := Some A\<rparr>
                           in if (case requested of None \<Rightarrow> False | Some r \<Rightarrow> r \<noteq> ak_organization_id k)
                              then (st, Err (HubNotFound ''organization resource''))
                              else (case membership (ak_organization_id k) (ak_creator_user_id k) A of
                                      None \<Rightarrow> (st, Err (Unauthorized ''API key creator is no longer a member''))
                                    | Some m \<Rightarrow> (st, Ok (key_context k m))))
                  else (st, Err (Unauthorized ''unsupported bearer credential type''))))"

definition require_browser ::
  "api_env \<Rightarrow> HeaderMap \<Rightarrow> string option \<Rightarrow> ApiState \<Rightarrow> ApiState \<times> (HubError, AuthContext) result" where
  "require_browser E headers org st =
     (case authenticate E headers org st of
        (st, Err e) \<Rightarrow> (st, Err e)
      | (st, Ok a) \<Rightarrow>
          if pc_kind (ax_principal a) \<noteq> BrowserSession then (st, Err (Forbidden ''browser session is required'')) else (st, Ok a))"

definition check_permission :: "Permission \<Rightarrow> ApiState \<times> (HubError, AuthContext) result \<Rightarrow> ApiState \<times> (HubError, AuthContext) result" where
  "check_permission permission r =
     (case r of
        (st, Err e) \<Rightarrow> (st, Err e)
      | (st, Ok a) \<Rightarrow>
          if \<not> principal_allows (ax_principal a) permission then (st, Err (Forbidden (''missing permission '' @ permission_scope permission)))
          else (st, Ok a))"

definition authorize ::
  "api_env \<Rightarrow> HeaderMap \<Rightarrow> string \<Rightarrow> Permission \<Rightarrow> ApiState \<Rightarrow> ApiState \<times> (HubError, AuthContext) result" where
  "authorize E headers org permission st = check_permission permission (authenticate E headers (Some org) st)"

definition authorize_current ::
  "api_env \<Rightarrow> HeaderMap \<Rightarrow> Permission \<Rightarrow> ApiState \<Rightarrow> ApiState \<times> (HubError, AuthContext) result" where
  "authorize_current E headers permission st = check_permission permission (authenticate E headers None st)"

subsection \<open>Cookies and origins\<close>

definition refresh_cookie :: "ApiConfig \<Rightarrow> string \<Rightarrow> i64 \<Rightarrow> bool \<Rightarrow> string" where
  "refresh_cookie C v max_age http_only =
     REFRESH_COOKIE @ ''='' @ v @ ''; Path=/api/v1/auth; Max-Age='' @ show_i64 max_age @ ''; SameSite=Lax'' @
     (if http_only then ''; HttpOnly'' else []) @ (if cf_cookie_secure C then ''; Secure'' else [])"

definition csrf_cookie :: "ApiConfig \<Rightarrow> string \<Rightarrow> i64 \<Rightarrow> string" where
  "csrf_cookie C v max_age =
     CSRF_COOKIE @ ''='' @ v @ ''; Path=/; Max-Age='' @ show_i64 max_age @ ''; SameSite=Lax'' @ (if cf_cookie_secure C then ''; Secure'' else [])"

definition append_cookie :: "string \<Rightarrow> Response \<Rightarrow> Response" where
  "append_cookie v r = r\<lparr>rp_headers := rp_headers r @ header_value ''set-cookie'' v\<rparr>"

definition empty_response :: "nat \<Rightarrow> Response" where
  "empty_response status = \<lparr>rp_status = status, rp_headers = [], rp_body = NoBody\<rparr>"

definition clear_auth_cookies :: "ApiConfig \<Rightarrow> nat \<Rightarrow> Response" where
  "clear_auth_cookies C status =
     append_cookie (csrf_cookie C [] 0) (append_cookie (refresh_cookie C [] 0 True) (empty_response status))"

text \<open>A later cookie of the same name replaces an earlier one.\<close>

definition cookies :: "HeaderMap \<Rightarrow> (string, string) hash_map" where
  "cookies headers =
     (case header_str headers ''cookie'' of
        None \<Rightarrow> []
      | Some v \<Rightarrow> foldl (\<lambda>m (k, x). hm_insert k x m) []
          (List.map_filter (\<lambda>part. split_once (CHR ''='') (trim part)) (split_char (CHR '';'') v)))"

definition after_scheme :: "string \<Rightarrow> string" where
  "after_scheme origin =
     (case find (\<lambda>n. prefix ''://'' (drop n origin)) [0..<length origin] of Some n \<Rightarrow> drop (n + 3) origin | None \<Rightarrow> origin)"

definition is_same_origin :: "string \<Rightarrow> HeaderMap \<Rightarrow> bool" where
  "is_same_origin origin headers =
     (case header_str headers ''host'' of
        None \<Rightarrow> False
      | Some host \<Rightarrow> after_scheme origin \<noteq> [] \<and> eq_ignore_ascii_case (after_scheme origin) host)"

definition verify_origin :: "ApiConfig \<Rightarrow> HeaderMap \<Rightarrow> (HubError, unit) result" where
  "verify_origin C headers =
     (if cf_allowed_origins C = [] then Ok ()
      else (case header_str headers ''origin'' of
              None \<Rightarrow> Err (Forbidden ''Origin header is required'')
            | Some origin \<Rightarrow>
                if origin \<in> set (cf_allowed_origins C) \<or> is_same_origin origin headers then Ok ()
                else Err (Forbidden ''Origin is not allowed'')))"

subsection \<open>Sessions\<close>

record SessionTokens =
  tn_session_id :: string
  tn_access :: GeneratedSecret
  tn_refresh :: GeneratedSecret
  tn_csrf :: GeneratedSecret
  tn_access_expires_at :: i64
  tn_refresh_expires_at :: i64

definition issue_session ::
  "api_env \<Rightarrow> ApiConfig \<Rightarrow> string \<Rightarrow> string \<Rightarrow> AccountDb \<Rightarrow> AccountDb \<times> (HubError, SessionTokens) result" where
  "issue_session E C user org A =
     (let now = en_clock E 5; access = generate_secret E 0 ''nss''; refresh = generate_secret E 2 ''nsr''; csrf = generate_secret E 4 ''nsc'';
          session_id = en_uuid E 5;
          access_expires_at = now + cf_access_ttl_seconds C * 1000; refresh_expires_at = now + cf_refresh_ttl_seconds C * 1000
      in case create_session
             \<lparr>ns_id = session_id, ns_user_id = user, ns_organization_id = org, ns_access_token_hash = gs_hash access,
              ns_refresh_token_hash = gs_hash refresh, ns_csrf_token_hash = gs_hash csrf, ns_family_id = en_uuid E 6, ns_now = now,
              ns_access_expires_at = access_expires_at, ns_refresh_expires_at = refresh_expires_at\<rparr> A of
           (A, Err e) \<Rightarrow> (A, Err Store)
         | (A, Ok _) \<Rightarrow>
             (A, Ok \<lparr>tn_session_id = session_id, tn_access = access, tn_refresh = refresh, tn_csrf = csrf,
                     tn_access_expires_at = access_expires_at, tn_refresh_expires_at = refresh_expires_at\<rparr>))"

definition public_user :: "User \<Rightarrow> PublicUser" where
  "public_user u =
     \<lparr>pu_id = us_id u, pu_email = us_email u, pu_status = us_status u, pu_email_verified = us_email_verified_at u \<noteq> None,
      pu_created_at = us_created_at u\<rparr>"

definition session_cookies :: "ApiConfig \<Rightarrow> SessionTokens \<Rightarrow> Response \<Rightarrow> Response" where
  "session_cookies C t r =
     append_cookie (csrf_cookie C (gs_plaintext (tn_csrf t)) (cf_refresh_ttl_seconds C))
       (append_cookie (refresh_cookie C (gs_plaintext (tn_refresh t)) (cf_refresh_ttl_seconds C) True) r)"

definition auth_response :: "ApiConfig \<Rightarrow> nat \<Rightarrow> User \<Rightarrow> string \<Rightarrow> SessionTokens \<Rightarrow> Response" where
  "auth_response C status user org t =
     session_cookies C t
       \<lparr>rp_status = status, rp_headers = [],
        rp_body = AuthBody (gs_plaintext (tn_access t)) (tn_access_expires_at t) (tn_refresh_expires_at t) (gs_plaintext (tn_csrf t))
          (public_user user) org\<rparr>"

text \<open>The common end of registration, login and federated sign-in: a session, an audit record, the response.\<close>

definition with_session ::
  "api_env \<Rightarrow> ApiConfig \<Rightarrow> string \<Rightarrow> string \<Rightarrow> (HubError \<Rightarrow> Response) \<Rightarrow> (SessionTokens \<Rightarrow> ApiState \<Rightarrow> ApiState) \<Rightarrow> (SessionTokens \<Rightarrow> Response)
   \<Rightarrow> AccountDb \<Rightarrow> ApiState \<Rightarrow> ApiState \<times> Response" where
  "with_session E C user org failed trail respond A st =
     (case issue_session E C user org A of
        (A, Err e) \<Rightarrow> (st\<lparr>as_store := Some A\<rparr>, failed e)
      | (A, Ok t) \<Rightarrow> (trail t (st\<lparr>as_store := Some A\<rparr>), respond t))"

subsection \<open>Registration and login\<close>

record RegisterRequest =
  rr_email :: string
  rr_password :: string
  rr_organization_name :: "string option"

record LoginRequest =
  lr_email :: string
  lr_password :: string
  lr_organization_id :: "string option"

definition workspace_name :: "string option \<Rightarrow> string \<Rightarrow> string" where
  "workspace_name requested email =
     (case Option.bind requested (\<lambda>v. if trim v = [] then None else Some (trim v)) of
        Some v \<Rightarrow> v
      | None \<Rightarrow> hd (split_char (CHR ''@'') email) @ '' workspace'')"

definition api_register ::
  "api_env \<Rightarrow> ApiConfig \<Rightarrow> HeaderMap \<Rightarrow> string option \<Rightarrow> RegisterRequest \<Rightarrow> ApiState \<Rightarrow> ApiState \<times> Response" where
  "api_register E C headers peer req st =
     (let rid = request_id E headers; fail = (\<lambda>e. product_error e rid)
      in if \<not> cf_password_auth_enabled C then (st, fail (Forbidden ''password registration is disabled; use OAuth''))
         else if \<not> cf_registration_enabled C then (st, fail (Forbidden ''registration is disabled''))
         else (case api_store st of
           Err e \<Rightarrow> (st, fail e)
         | Ok A \<Rightarrow>
         (case rate_limit_ip E C 0 headers peer ''auth.register'' (lm_register_per_ip (default_limits (en_rnd E))) st of
           (st, Err e) \<Rightarrow> (st, fail e)
         | (st, Ok _) \<Rightarrow>
             if \<not> valid_email (rr_email req) then (st, fail (InvalidRequest ''a valid email address is required''))
             else (case hash_password E (rr_password req) of
               Err (WeakPassword m) \<Rightarrow> (st, fail (InvalidRequest (''weak password: '' @ m)))
             | Err (InvalidRole m) \<Rightarrow> (st, fail (InvalidRequest (''invalid organization role: '' @ m)))
             | Err (PasswordHash m) \<Rightarrow> (st, fail (InvalidRequest (''password hashing failed: '' @ m)))
             | Ok hash \<Rightarrow>
                 let name = workspace_name (rr_organization_name req) (rr_email req)
                 in if chars_count name > 120 then (st, fail (InvalidRequest ''organization name must contain 1-120 characters''))
                    else (case register_user (en_uuid E 1) (en_uuid E 2) (en_clock E 1) (rr_email req) hash name A of
                      (A, Err (SConflict _)) \<Rightarrow> (st, fail (Conflict ''email is already registered''))
                    | (A, Err _) \<Rightarrow> (st, fail Store)
                    | (A, Ok account) \<Rightarrow>
                        let user = ra_user account; org = ra_organization_id account
                        in with_session E C (us_id user) org fail
                             (\<lambda>t. api_audit E 7 (Some org) (Some (us_id user)) ''browser_session'' rid ''auth.register'' ''user''
                                (Some (us_id user)) ''success'' (Object [(''email'', String (us_email user))]))
                             (\<lambda>t. auth_response C 201 user org t) A st)))))"

definition retry_seconds :: "i64 \<Rightarrow> i64 \<Rightarrow> u64" where
  "retry_seconds until now = word_of_int (max (i64_saturating_sub until now div 1000) 1)"

definition chosen_membership :: "string option \<Rightarrow> Membership list \<Rightarrow> Membership option" where
  "chosen_membership wanted ms =
     or_else (Option.bind wanted (\<lambda>w. find (\<lambda>m. ms_organization_id m = w) ms)) (case ms of [] \<Rightarrow> None | m # _ \<Rightarrow> Some m)"

definition login_account_key :: "api_env \<Rightarrow> LoginRequest \<Rightarrow> string" where
  "login_account_key E req = hash_secret E (ascii_lowercase (trim (lr_email req)))"

text \<open>The login of a user the address has led to, after the password was compared.\<close>

definition login_user ::
  "api_env \<Rightarrow> ApiConfig \<Rightarrow> HeaderMap \<Rightarrow> string option \<Rightarrow> LoginRequest \<Rightarrow> User \<Rightarrow> bool \<Rightarrow> AccountDb \<Rightarrow> ApiState \<Rightarrow> ApiState \<times> Response" where
  "login_user E C headers peer req user password_matches A st =
     (let rid = request_id E headers; fail = (\<lambda>e. product_error e rid); now = en_clock E 1
      in case login_lock_until (us_id user) now A of
           Some until \<Rightarrow> (st, fail (RateLimited (retry_seconds until now)))
         | None \<Rightarrow>
             if us_status user \<noteq> ''active'' \<or> \<not> password_matches then
               (case record_failed_login (us_id user) now 10 (15 * 60) A of
                  (A, locked) \<Rightarrow>
                    let st = api_audit E 7 None (Some (us_id user)) ''browser_session'' rid ''auth.login'' ''user''
                               (Some (us_id user)) ''denied'' (Object []) (st\<lparr>as_store := Some A\<rparr>)
                    in case locked of
                         Some until \<Rightarrow> (st, fail (RateLimited (retry_seconds until (en_clock E 2))))
                       | None \<Rightarrow> (st, fail (Unauthorized ''invalid email or password'')))
             else
               (case chosen_membership (lr_organization_id req) (memberships_for_user (us_id user) A) of
                  None \<Rightarrow> (st, fail (Forbidden ''user has no active organization''))
                | Some m \<Rightarrow>
                    let org = ms_organization_id m; A = clear_failed_logins (us_id user) A;
                        l = reset (en_bucket_hash E) ''auth.login.account'' (login_account_key E req) (as_limiter st);
                        l = reset (en_bucket_hash E) ''auth.login.ip'' (client_address headers peer (cf_trust_forwarded_for C)) l;
                        st = st\<lparr>as_store := Some A, as_limiter := l\<rparr>
                    in with_session E C (us_id user) org fail
                         (\<lambda>t. api_audit E 7 (Some org) (Some (us_id user)) ''browser_session'' rid ''auth.login'' ''session''
                            (Some (tn_session_id t)) ''success'' (Object []))
                         (\<lambda>t. auth_response C 200 user org t) A st))"

definition api_login ::
  "api_env \<Rightarrow> ApiConfig \<Rightarrow> HeaderMap \<Rightarrow> string option \<Rightarrow> LoginRequest \<Rightarrow> ApiState \<Rightarrow> ApiState \<times> Response" where
  "api_login E C headers peer req st =
     (let rid = request_id E headers; fail = (\<lambda>e. product_error e rid); limits = default_limits (en_rnd E)
      in if \<not> cf_password_auth_enabled C then (st, fail (Forbidden ''password login is disabled; use OAuth''))
         else (case rate_limit_ip E C 0 headers peer ''auth.login.ip'' (lm_login_per_ip limits) st of
           (st, Err e) \<Rightarrow> (st, fail e)
         | (st, Ok _) \<Rightarrow>
         (case rate_limit_key E 1 ''auth.login.account'' (login_account_key E req) (lm_login_per_account limits) st of
           (st, Err e) \<Rightarrow> (st, fail e)
         | (st, Ok _) \<Rightarrow>
         (case api_store st of
           Err e \<Rightarrow> (st, fail e)
         | Ok A \<Rightarrow>
             let found = user_by_email (lr_email req) A;
                 password_matches = verify_password_async E (lr_password req) (Option.bind found us_password_hash)
             in case found of
                  None \<Rightarrow> (st, fail (Unauthorized ''invalid email or password''))
                | Some user \<Rightarrow> login_user E C headers peer req user password_matches A st))))"

subsection \<open>Refresh and logout\<close>

definition api_refresh :: "api_env \<Rightarrow> ApiConfig \<Rightarrow> HeaderMap \<Rightarrow> string option \<Rightarrow> ApiState \<Rightarrow> ApiState \<times> Response" where
  "api_refresh E C headers peer st =
     (let rid = request_id E headers; fail = (\<lambda>e. product_error e rid)
      in case rate_limit_ip E C 0 headers peer ''auth.refresh'' (lm_refresh_per_ip (default_limits (en_rnd E))) st of
           (st, Err e) \<Rightarrow> (st, fail e)
         | (st, Ok _) \<Rightarrow>
         (case verify_origin C headers of
           Err e \<Rightarrow> (st, fail e)
         | Ok _ \<Rightarrow>
         (case api_store st of
           Err e \<Rightarrow> (st, fail e)
         | Ok A \<Rightarrow>
         (case hm_get (cookies headers) REFRESH_COOKIE of
           None \<Rightarrow> (st, fail (Unauthorized ''refresh cookie is required''))
         | Some refresh \<Rightarrow>
             let csrf = header_str headers ''x-csrf-token''
             in if csrf = None \<or> csrf \<noteq> hm_get (cookies headers) CSRF_COOKIE
                then (st, fail (Forbidden ''CSRF token is missing or invalid''))
                else (case session_by_refresh_hash (hash_secret E refresh) A of
                  None \<Rightarrow> (st, fail (Unauthorized ''refresh session is invalid''))
                | Some s \<Rightarrow>
                    let now = en_clock E 1; token = case_option [] id csrf
                    in if bs_revoked_at s \<noteq> None \<or> bs_refresh_expires_at s \<le> now \<or> \<not> verify_secret E token (bs_csrf_token_hash s)
                       then (st, fail (Unauthorized ''refresh session is expired or revoked''))
                       else
                         let access = generate_secret E 0 ''nss''; next_refresh = generate_secret E 2 ''nsr'';
                             access_expires_at = now + cf_access_ttl_seconds C * 1000;
                             refresh_expires_at = now + cf_refresh_ttl_seconds C * 1000
                         in case rotate_session
                                \<lparr>rs_session_id = bs_id s, rs_expected_refresh_token_hash = hash_secret E refresh,
                                 rs_access_token_hash = gs_hash access, rs_refresh_token_hash = gs_hash next_refresh, rs_now = now,
                                 rs_access_expires_at = access_expires_at, rs_refresh_expires_at = refresh_expires_at\<rparr> A of
                              (A, Err e) \<Rightarrow> (st, fail Store)
                            | (A, Ok False) \<Rightarrow> (st, fail (Unauthorized ''refresh token was already rotated''))
                            | (A, Ok True) \<Rightarrow>
                                let st = st\<lparr>as_store := Some A\<rparr>
                                in case user_by_id (bs_user_id s) A of
                                     None \<Rightarrow> (st, fail (Unauthorized ''session user no longer exists''))
                                   | Some user \<Rightarrow>
                                       (st, auth_response C 200 user (bs_organization_id s)
                                          \<lparr>tn_session_id = bs_id s, tn_access = access, tn_refresh = next_refresh,
                                           tn_csrf = \<lparr>gs_plaintext = token, gs_display_prefix = [], gs_hash = bs_csrf_token_hash s\<rparr>,
                                           tn_access_expires_at = access_expires_at, tn_refresh_expires_at = refresh_expires_at\<rparr>))))))"

text \<open>A handler for a browser session; its store is there, because authentication has read it.\<close>

definition with_browser ::
  "api_env \<Rightarrow> HeaderMap \<Rightarrow> (AuthContext \<Rightarrow> AccountDb \<Rightarrow> ApiState \<Rightarrow> ApiState \<times> Response) \<Rightarrow> ApiState \<Rightarrow> ApiState \<times> Response" where
  "with_browser E headers handle st =
     (case require_browser E headers None st of
        (st, Err e) \<Rightarrow> (st, product_error e (request_id E headers))
      | (st, Ok a) \<Rightarrow>
          (case api_store st of Err e \<Rightarrow> (st, product_error e (request_id E headers)) | Ok A \<Rightarrow> handle a A st))"

definition api_logout :: "api_env \<Rightarrow> ApiConfig \<Rightarrow> HeaderMap \<Rightarrow> ApiState \<Rightarrow> ApiState \<times> Response" where
  "api_logout E C headers =
     with_browser E headers (\<lambda>a A st.
       let A = revoke_session (case_option [] id (ax_session_id a)) (en_clock E 1) A; p = ax_principal a
       in (api_audit E 7 (Some (pc_organization_id p)) (pc_user_id p) ''browser_session'' (request_id E headers) ''auth.logout'' ''session''
             (ax_session_id a) ''success'' (Object []) (st\<lparr>as_store := Some A\<rparr>),
           clear_auth_cookies C 204))"

definition api_revoke_all_sessions :: "api_env \<Rightarrow> ApiConfig \<Rightarrow> HeaderMap \<Rightarrow> ApiState \<Rightarrow> ApiState \<times> Response" where
  "api_revoke_all_sessions E C headers =
     with_browser E headers (\<lambda>a A st.
       let p = ax_principal a; user = case_option [] id (pc_user_id p); A = revoke_user_sessions user None (en_clock E 1) A
       in (api_audit E 7 (Some (pc_organization_id p)) (Some user) ''browser_session'' (request_id E headers) ''auth.sessions.revoke_all'' ''user''
             (Some user) ''success'' (Object []) (st\<lparr>as_store := Some A\<rparr>),
           clear_auth_cookies C 204))"

definition api_me :: "api_env \<Rightarrow> HeaderMap \<Rightarrow> ApiState \<Rightarrow> ApiState \<times> Response" where
  "api_me E headers =
     with_browser E headers (\<lambda>a A st.
       let p = ax_principal a; user = case_option [] id (pc_user_id p)
       in case user_by_id user A of
            None \<Rightarrow> (st, product_error (HubNotFound ''user'') (request_id E headers))
          | Some u \<Rightarrow>
              (st, \<lparr>rp_status = 200, rp_headers = [],
                    rp_body = MeBody (public_user u) (pc_organization_id p) (memberships_for_user user A) (auth_kind (pc_kind p))\<rparr>))"

definition api_delete_account :: "api_env \<Rightarrow> ApiConfig \<Rightarrow> HeaderMap \<Rightarrow> ApiState \<Rightarrow> ApiState \<times> Response" where
  "api_delete_account E C headers =
     with_browser E headers (\<lambda>a A st.
       case delete_user (case_option [] id (pc_user_id (ax_principal a))) A of
         (A, Err e) \<Rightarrow> (st, product_error (map_store e) (request_id E headers))
       | (A, Ok ids) \<Rightarrow>
           (st\<lparr>as_store := Some A, as_sessions := foldl (\<lambda>R i. disconnect_credential i R) (as_sessions st) ids\<rparr>,
            clear_auth_cookies C 204))"

definition api_list_linked_identities :: "api_env \<Rightarrow> HeaderMap \<Rightarrow> ApiState \<Rightarrow> ApiState \<times> Response" where
  "api_list_linked_identities E headers =
     with_browser E headers (\<lambda>a A st.
       (st, \<lparr>rp_status = 200, rp_headers = [], rp_body = IdentitiesBody (identities_for_user (case_option [] id (pc_user_id (ax_principal a))) A)\<rparr>))"

subsection \<open>Federated sign-in\<close>

definition api_list_oauth_providers :: "ApiConfig \<Rightarrow> Response" where
  "api_list_oauth_providers C =
     \<lparr>rp_status = 200, rp_headers = [], rp_body = ProvidersBody (map (\<lambda>(name, p). (name, pv_kind p)) (cf_oauth_providers C))\<rparr>"

definition api_start_oauth ::
  "api_env \<Rightarrow> ApiConfig \<Rightarrow> HeaderMap \<Rightarrow> string option \<Rightarrow> string \<Rightarrow> string option \<Rightarrow> ApiState \<Rightarrow> ApiState \<times> Response" where
  "api_start_oauth E C headers peer provider_name redirect st =
     (let rid = request_id E headers; fail = (\<lambda>e. product_error e rid)
      in case bt_get (cf_oauth_providers C) provider_name of
           None \<Rightarrow> (st, fail (HubNotFound (''OAuth provider '' @ provider_name)))
         | Some provider \<Rightarrow>
         (case cf_oauth C of
           None \<Rightarrow> (st, fail (Unavailable ''OAuth is not configured''))
         | Some oauth \<Rightarrow>
         (case api_store st of
           Err e \<Rightarrow> (st, fail e)
         | Ok A \<Rightarrow>
         (case rate_limit_ip E C 0 headers peer ''auth.oauth.start'' (lm_oauth_per_ip (default_limits (en_rnd E))) st of
           (st, Err e) \<Rightarrow> (st, fail e)
         | (st, Ok _) \<Rightarrow>
             let pkce = generate_pkce (hash_secret E) (en_hex_decode E) (en_b64_encode E) (en_simple E 0) (en_simple E 1);
                 csrf_state = en_simple E 2 @ en_simple E 3
             in case create_oauth_authorization csrf_state provider_name (pk_verifier pkce) (sanitize_redirect_path redirect)
                       AUTHORIZATION_TTL_SECONDS (en_clock E 1) A of
                  (A, Err e) \<Rightarrow> (st, fail Store)
                | (A, Ok _) \<Rightarrow>
                    let st = st\<lparr>as_store := Some A\<rparr>;
                        target = authorize_url provider (redirect_uri oauth provider_name) csrf_state (pk_challenge pkce)
                    in case header_from_str target of
                         Some v \<Rightarrow> (st, (empty_response 303)\<lparr>rp_headers := [(''location'', v)]\<rparr>)
                       | None \<Rightarrow> (st, fail (InvalidConfig ''provider authorize URL is not a valid header''))))))"

definition redirect_to_signin :: "string \<Rightarrow> Response" where
  "redirect_to_signin reason = (empty_response 303)\<lparr>rp_headers := header_value ''location'' (''/?oauth_error='' @ urlencode_component reason)\<rparr>"

fun outcome_str :: "FederatedOutcome \<Rightarrow> string" where
  "outcome_str FedExisting = ''existing''"
| "outcome_str FedLinked = ''linked''"
| "outcome_str (FedCreated _) = ''created''"

definition finish_oauth_session ::
  "api_env \<Rightarrow> ApiConfig \<Rightarrow> FederatedLogin \<Rightarrow> string \<Rightarrow> string \<Rightarrow> AccountDb \<Rightarrow> ApiState \<Rightarrow> ApiState \<times> Response" where
  "finish_oauth_session E C login redirect_path rid A st =
     (let user = fl_user login; st = st\<lparr>as_store := Some A\<rparr>
      in if us_status user \<noteq> ''active'' then (st, redirect_to_signin ''account_disabled'')
         else
           (case (case fl_outcome login of
                    FedCreated org \<Rightarrow> Some org
                  | _ \<Rightarrow> (case memberships_for_user (us_id user) A of [] \<Rightarrow> None | m # _ \<Rightarrow> Some (ms_organization_id m))) of
              None \<Rightarrow> (st, redirect_to_signin ''no_organization'')
            | Some org \<Rightarrow>
                with_session E C (us_id user) org (\<lambda>e. redirect_to_signin ''session_issue_failed'')
                  (\<lambda>t. api_audit E 7 (Some org) (Some (us_id user)) ''browser_session'' rid ''auth.oauth.login'' ''session''
                     (Some (tn_session_id t)) ''success'' (Object [(''outcome'', String (outcome_str (fl_outcome login)))]))
                  (\<lambda>t. session_cookies C t ((empty_response 303)\<lparr>rp_headers := header_value ''location'' redirect_path\<rparr>)) A st))"

record OauthCallbackQuery =
  cq_code :: "string option"
  cq_state :: "string option"
  cq_error :: "string option"
  cq_error_description :: "string option"

definition organization_stem :: "FederatedIdentity \<Rightarrow> string" where
  "organization_stem i =
     (case Option.bind (fi_display_name i) (\<lambda>v. if trim v = [] then None else Some (trim v)) of
        Some v \<Rightarrow> v
      | None \<Rightarrow> hd (split_char (CHR ''@'') (fi_email i)))"

text \<open>The end of the callback: the account of a verified identity, found, linked or created.\<close>

definition admit_identity ::
  "api_env \<Rightarrow> ApiConfig \<Rightarrow> string \<Rightarrow> FederatedIdentity \<Rightarrow> string \<Rightarrow> string \<Rightarrow> AccountDb \<Rightarrow> ApiState \<Rightarrow> ApiState \<times> Response" where
  "admit_identity E C provider_name i redirect_path rid A st =
     (if \<not> cf_registration_enabled C then
        (case user_by_federated_identity provider_name (fi_subject i) A of
           Some user \<Rightarrow> finish_oauth_session E C \<lparr>fl_user = user, fl_outcome = FedExisting\<rparr> redirect_path rid A st
         | None \<Rightarrow> (st, redirect_to_signin ''registration_closed''))
      else
        (case resolve_federated_identity (en_uuid E 1) (en_uuid E 2) (en_clock E 1) provider_name (fi_subject i) (fi_email i)
                (fi_email_verified i) (truncate_str (organization_stem i) 100 @ '' workspace'') A of
           (A, Err (SConflict _)) \<Rightarrow> (st, redirect_to_signin ''email_not_verified_by_provider'')
         | (A, Err _) \<Rightarrow> (st, redirect_to_signin ''identity_rejected'')
         | (A, Ok login) \<Rightarrow> finish_oauth_session E C login redirect_path rid A st))"

definition api_oauth_callback ::
  "api_env \<Rightarrow> ApiConfig \<Rightarrow> HeaderMap \<Rightarrow> string \<Rightarrow> OauthCallbackQuery \<Rightarrow> ApiState \<Rightarrow> ApiState \<times> Response" where
  "api_oauth_callback E C headers provider_name q st =
     (let rid = request_id E headers; back = (\<lambda>reason. redirect_to_signin reason)
      in case cq_error q of
           Some e \<Rightarrow> (st, back (''provider_error:'' @ case_option e id (cq_error_description q)))
         | None \<Rightarrow>
         (case (cq_code q, cq_state q) of
           (Some code, Some csrf_state) \<Rightarrow>
         (case bt_get (cf_oauth_providers C) provider_name of
           None \<Rightarrow> (st, back ''unknown_provider'')
         | Some provider \<Rightarrow>
         (case cf_oauth C of
           None \<Rightarrow> (st, back ''oauth_disabled'')
         | Some oauth \<Rightarrow>
         (case api_store st of
           Err e \<Rightarrow> (st, back ''control_plane_unavailable'')
         | Ok A \<Rightarrow>
         (case consume_oauth_authorization csrf_state (en_clock E 0) A of
           (A, None) \<Rightarrow> (st, back ''expired_or_replayed'')
         | (A, Some authorization) \<Rightarrow>
             let st = st\<lparr>as_store := Some A\<rparr>
             in if oa_provider authorization \<noteq> provider_name then (st, back ''provider_mismatch'')
                else (case exchange_and_fetch_identity (en_client E) provider (redirect_uri oauth provider_name) code (oa_pkce_verifier authorization) of
                  Err e \<Rightarrow> (st, back ''identity_exchange_failed'')
                | Ok i \<Rightarrow>
                    if \<not> allows_email provider (fi_email i) then (st, back ''email_domain_not_allowed'')
                    else if \<not> fi_email_verified i then (st, back ''email_not_verified_by_provider'')
                    else admit_identity E C provider_name i (oa_redirect_path authorization) rid A st)))))
         | _ \<Rightarrow> (st, back ''missing_code'')))"

end
