(* ===== verification/Auth_Api_Props.thy ===== *)
theory Auth_Api_Props
  imports Auth_Api Account_Props
begin

text \<open>
  The authentication endpoints: what a principal proves, that signing out and leaving an organization take effect, what a session
  is issued for, that an OAuth callback is accepted once, that cursors read back as written, and where a redirect may
  lead.
\<close>

subsection \<open>Principals\<close>

text \<open>A credential that stands behind a principal at a time.\<close>

definition backed :: "api_env \<Rightarrow> AccountDb \<Rightarrow> string \<Rightarrow> string option \<Rightarrow> AuthContext \<Rightarrow> bool" where
  "backed E A token requested a \<longleftrightarrow>
     (let p = ax_principal a in
      (\<exists>s. prefix ''nss_'' token \<and> session_by_access_hash (hash_secret E token) A = Some s \<and> bs_revoked_at s = None \<and>
           en_clock E 0 < bs_access_expires_at s \<and> pc_kind p = BrowserSession \<and> pc_user_id p = Some (bs_user_id s) \<and>
           pc_organization_id p = case_option (bs_organization_id s) id requested \<and> ax_session_id a = Some (bs_id s)) \<or>
      (\<exists>k. prefix ''nsk_'' token \<and> api_key_by_hash (en_parse_scopes E) (hash_secret E token) A = Some k \<and> ak_revoked_at k = None \<and>
           (\<forall>t. ak_expires_at k = Some t \<longrightarrow> en_clock E 0 < t) \<and> pc_kind p = ApiKey \<and> pc_user_id p = Some (ak_creator_user_id k) \<and>
           pc_organization_id p = ak_organization_id k \<and> (\<forall>r. requested = Some r \<longrightarrow> r = ak_organization_id k) \<and>
           set (pc_scopes p) = set (ak_scopes k)))"

lemma membership_touch [simp]: "membership org user (touch_api_key k now A) = membership org user A"
  by (simp add: membership_def touch_api_key_def)

lemma authenticate_Ok:
  assumes "authenticate E headers org st = (st', Ok a)"
  shows "\<exists>A token m. as_store st = Some A \<and> bearer_token (hm_get headers ''authorization'') = Some token \<and>
    backed E A token (requested_organization headers org) a \<and>
    membership (pc_organization_id (ax_principal a)) (the (pc_user_id (ax_principal a))) A = Some m \<and> ms_role m = pc_role (ax_principal a)"
  using assms
  by (auto simp: authenticate_def api_store_def ok_or_def backed_def session_context_def key_context_def Let_def
      split: option.splits sum.splits if_splits)

text \<open>
  C5: A request is authorized only by a live credential: the bearer token is that of a stored session that is neither revoked
  nor expired, or of a stored API key that is neither revoked nor expired. The principal acts in the organization of
  the route, for the user the credential belongs to; its role is the one the user has in that organization at this moment,
  not one recorded in the credential; the role allows the permission, and an API key also carries its scope.
\<close>

theorem authorize_sound:
  assumes "authorize E headers org permission st = (st', Ok a)"
  shows "\<exists>A token m user. as_store st = Some A \<and> bearer_token (hm_get headers ''authorization'') = Some token \<and>
    backed E A token (Some org) a \<and> pc_organization_id (ax_principal a) = org \<and> pc_user_id (ax_principal a) = Some user \<and>
    membership org user A = Some m \<and> pc_role (ax_principal a) = ms_role m \<and> role_allows (ms_role m) permission \<and>
    (pc_kind (ax_principal a) = ApiKey \<longrightarrow> permission_scope permission \<in> set (pc_scopes (ax_principal a)))"
proof -
  obtain st1 where auth: "authenticate E headers (Some org) st = (st1, Ok a)" and ok: "principal_allows (ax_principal a) permission"
    using assms by (auto simp: authorize_def check_permission_def split: prod.splits sum.splits if_splits)
  obtain A token m where w: "as_store st = Some A" "bearer_token (hm_get headers ''authorization'') = Some token"
    "backed E A token (requested_organization headers (Some org)) a"
    "membership (pc_organization_id (ax_principal a)) (the (pc_user_id (ax_principal a))) A = Some m" "ms_role m = pc_role (ax_principal a)"
    using authenticate_Ok[OF auth] by blast
  have req: "requested_organization headers (Some org) = Some org" by (simp add: requested_organization_def or_else_def)
  have "pc_organization_id (ax_principal a) = org" "\<exists>u. pc_user_id (ax_principal a) = Some u"
    using w(3) unfolding req backed_def Let_def by auto
  then show ?thesis using w req ok by (auto simp: principal_allows_def split: if_splits)
qed

subsection \<open>Signing out and leaving\<close>

lemma find_map_snd:
  assumes "\<And>k v. P (g k v) = P v"
  shows "find P (hm_values (map (\<lambda>(k, v). (k, g k v)) t)) = map_option (\<lambda>(k, v). g k v) (find (\<lambda>(k, v). P v) t)"
  by (induction t) (auto simp: hm_values_def assms)

lemma session_after_revoke:
  assumes "session_by_access_hash h A = Some s" "account_inv A" "p (bs_id s) s"
  shows "\<exists>s'. session_by_access_hash h (revoke_where now p A) = Some s' \<and> bs_revoked_at s' \<noteq> None"
proof -
  have inv: "account_inv (revoke_where now p A)" by (rule inv_revoke_where[OF assms(2)])
  obtain r where r: "hm_get (ac_sessions A) (bs_id s) = Some r" "sn_session r = s" "sn_access_token_hash r = h"
    using assms(1) session_by_access_hash_iff[OF assms(2)] by blast
  let ?r = "if p (bs_id s) (sn_session r) \<and> bs_revoked_at (sn_session r) = None
    then r\<lparr>sn_session := (sn_session r)\<lparr>bs_revoked_at := Some now\<rparr>\<rparr> else r"
  have "hm_get (ac_sessions (revoke_where now p A)) (bs_id s) = Some ?r"
    by (simp add: revoke_where_def hm_get_map r(1))
  moreover have "bs_id (sn_session ?r) = bs_id s" "sn_access_token_hash ?r = h" "bs_revoked_at (sn_session ?r) \<noteq> None"
    using r assms(3) by auto
  ultimately show ?thesis using session_by_access_hash_iff[OF inv, of h "sn_session ?r"] by metis
qed

lemma audit_sessions [simp]: "ac_sessions (fst (Account_Access.audit i l A)) = ac_sessions A"
  by (simp add: Account_Access.audit_def)

lemma hash_secret_cong: "en_sha256 E' = en_sha256 E \<Longrightarrow> hash_secret E' = hash_secret E"
  by (simp add: hash_secret_def fun_eq_iff)

lemma api_audit_store:
  assumes "as_store st = Some A"
  obtains B where "as_store (api_audit E n org actor kind rid action resource resource_id outcome metadata st) = Some B" "ac_sessions B = ac_sessions A"
  using assms that by (simp add: api_audit_def)

lemma session_by_access_hash_cong: "ac_sessions B = ac_sessions A \<Longrightarrow> session_by_access_hash h B = session_by_access_hash h A"
  by (simp add: session_by_access_hash_def)

lemma browser_Ok:
  assumes "require_browser E headers org st = (st', Ok a)"
  obtains A token s where "as_store st = Some A" "st' = st" "bearer_token (hm_get headers ''authorization'') = Some token"
    "prefix ''nss_'' token" "session_by_access_hash (hash_secret E token) A = Some s" "ax_session_id a = Some (bs_id s)"
    "pc_user_id (ax_principal a) = Some (bs_user_id s)"
  using assms that
  by (auto simp: require_browser_def authenticate_def api_store_def ok_or_def session_context_def key_context_def Let_def
      split: option.splits sum.splits if_splits prod.splits)

text \<open>The statuses of the errors are not those of the answers of the handlers.\<close>

lemma error_status: "rp_status (product_error e rid) \<notin> {200, 201, 204, 303}"
  by (cases e) (simp_all add: product_error_def split: prod.splits)

lemma removed_membership:
  assumes "account_inv A" "remove_member org user now A = (B, Ok (Some ids))"
  shows "hm_get (ac_memberships B) (org, user) = None"
  using assms(2) table_ok_wf[OF account_invD(3)[OF assms(1)]]
  by (auto simp: remove_member_def delete_memberships_def hm_get_retain Let_def split: option.splits if_splits)

text \<open>
  C25: Signing out takes effect at once: after a logout has answered 204, the same bearer token is refused as revoked,
  for every organization and at every time.
\<close>

theorem logout_effective:
  assumes "as_store st = Some A" "account_reachable A" "api_logout E C headers st = (st', r)" "rp_status r = 204"
    "en_sha256 E' = en_sha256 E"
  shows "authenticate E' headers org st' = (st', Err (Unauthorized ''browser session is expired or revoked''))"
proof -
  have inv: "account_inv A" by (rule account_reachable_inv[OF assms(2)])
  obtain st1 res where rb: "require_browser E headers None st = (st1, res)" by force
  obtain a where a: "res = Ok a"
    using assms(3,4) rb error_status by (cases res) (auto simp: api_logout_def with_browser_def)
  obtain A' token s where b: "as_store st = Some A'" "st1 = st" "bearer_token (hm_get headers ''authorization'') = Some token"
    "prefix ''nss_'' token" "session_by_access_hash (hash_secret E token) A' = Some s" "ax_session_id a = Some (bs_id s)"
    by (rule browser_Ok[OF rb[unfolded a]])
  have A': "A' = A" using b(1) assms(1) by simp
  let ?R = "revoke_session (bs_id s) (en_clock E 1) A"
  let ?st = "st\<lparr>as_store := Some ?R\<rparr>"
  have st': "st' = api_audit E 7 (Some (pc_organization_id (ax_principal a))) (pc_user_id (ax_principal a)) ''browser_session'' (request_id E headers)
      ''auth.logout'' ''session'' (ax_session_id a) ''success'' (Object []) ?st"
    using assms(1,3) rb a b(2,6) by (simp add: api_logout_def with_browser_def api_store_def ok_or_def Let_def)
  obtain B where B: "as_store st' = Some B" "ac_sessions B = ac_sessions ?R"
    unfolding st' by (rule api_audit_store[of ?st ?R]) simp_all
  obtain s' where "session_by_access_hash (hash_secret E token) ?R = Some s'" "bs_revoked_at s' \<noteq> None"
    using session_after_revoke[OF b(5)[unfolded A'] inv, of "\<lambda>k s'. k = bs_id s" "en_clock E 1"] by (auto simp: revoke_session_def)
  then show ?thesis
    using B b(3,4) session_by_access_hash_cong[OF B(2), of "hash_secret E token"] hash_secret_cong[OF assms(5)]
    by (simp add: authenticate_def api_store_def ok_or_def Let_def)
qed

text \<open>
  Removing a member takes effect at once: from the store that the removal leaves, no bearer token authenticates the
  user in the organization any more, whatever organization the request names.
\<close>

theorem removed_member_refused:
  assumes "account_reachable A" "remove_member org user now A = (B, Ok (Some ids))" "as_store st = Some B"
    "authenticate E headers requested st = (st', Ok a)"
  shows "\<not> (pc_organization_id (ax_principal a) = org \<and> pc_user_id (ax_principal a) = Some user)"
proof
  assume "pc_organization_id (ax_principal a) = org \<and> pc_user_id (ax_principal a) = Some user"
  with authenticate_Ok[OF assms(4)] assms(3) obtain m where "membership org user B = Some m" by auto
  moreover have "hm_get (ac_memberships B) (org, user) = None"
    using assms(1,2) account_reachable_inv[OF assms(1)] removed_membership by blast
  ultimately show False by (simp add: membership_def)
qed


subsection \<open>Login\<close>

lemma issue_session_Ok:
  assumes "account_inv A" "issue_session E C user org A = (B, Ok t)"
  shows "\<exists>s. session_by_access_hash (hash_secret E (gs_plaintext (tn_access t))) B = Some s \<and> bs_user_id s = user \<and>
    bs_organization_id s = org \<and> bs_revoked_at s = None \<and> bs_access_expires_at s = en_clock E 5 + cf_access_ttl_seconds C * 1000"
proof -
  obtain n where n: "create_session n A = (B, Ok ())" "ns_user_id n = user" "ns_organization_id n = org"
    "ns_access_token_hash n = hash_secret E (gs_plaintext (tn_access t))" "ns_access_expires_at n = en_clock E 5 + cf_access_ttl_seconds C * 1000"
    using assms(2) by (fastforce simp: issue_session_def Let_def generate_secret_def split: prod.splits sum.splits)
  have inv: "account_inv B" using inv_create_session[OF assms(1), of n] n(1) by simp
  have "ac_sessions B = hm_insert (ns_id n) (session_row n) (ac_sessions A)"
    using n(1) by (auto simp: create_session_def split: if_splits)
  then have "hm_get (ac_sessions B) (bs_id (sn_session (session_row n))) = Some (session_row n)"
    using table_ok_wf[OF account_invD(4)[OF assms(1)]] by (simp add: session_row_def)
  then have "session_by_access_hash (hash_secret E (gs_plaintext (tn_access t))) B = Some (sn_session (session_row n))"
    unfolding session_by_access_hash_iff[OF inv] using n(4) by (auto simp: session_row_def)
  then show ?thesis using n by (simp add: session_row_def)
qed

lemma issue_session_Err: "issue_session E C user org A = (B, Err e) \<Longrightarrow> B = A"
  by (auto simp: issue_session_def create_session_def Let_def split: prod.splits sum.splits if_splits)

lemma map_filter_iff: "y \<in> set (List.map_filter f xs) \<longleftrightarrow> (\<exists>x\<in>set xs. f x = Some y)"
  by (induction xs) (auto simp: List.map_filter_simps split: option.splits)

lemma memberships_for_user_member:
  assumes "m \<in> set (memberships_for_user user A)"
  shows "membership (ms_organization_id m) user A = Some m"
proof -
  obtain org r where "membership org user A = Some m"
    using assms by (auto simp: memberships_for_user_def map_filter_iff split: if_splits)
  then show ?thesis by (auto simp: membership_def split: option.splits)
qed

lemma rate_limit_store [simp]:
  "rate_limit_key E n scope key quota st = (st', r) \<Longrightarrow> as_store st' = as_store st"
  "rate_limit_ip E C n headers peer scope quota st = (st', r) \<Longrightarrow> as_store st' = as_store st"
  by (auto simp: rate_limit_key_def rate_limit_ip_def split: prod.splits)

lemma failed_login_sessions: "record_failed_login user now m lock A = (B, r) \<Longrightarrow> ac_sessions B = ac_sessions A"
  by (auto simp: record_failed_login_def Let_def split: option.splits if_splits)

lemma api_audit_as_store:
  "as_store (api_audit E n org actor kind rid action resource resource_id outcome metadata st) =
     map_option (\<lambda>A. fst (Account_Access.audit (en_uuid E n)
            \<lparr>al_organization_id = org, al_actor_id = actor, al_actor_kind = Some kind, al_request_id = Some rid, al_action = action,
             al_resource_type = resource, al_resource_id = resource_id, al_outcome = outcome, al_metadata_json = en_json E metadata,
             al_created_at = en_clock E n\<rparr> A)) (as_store st)"
  by (simp add: api_audit_def split: option.splits)

lemma error_not_200 [simp]: "rp_status (product_error e rid) \<noteq> 200"
  using error_status[of e rid] by simp

lemma session_cookies_status [simp]: "rp_status (session_cookies C t r) = rp_status r" "rp_body (session_cookies C t r) = rp_body r"
  by (simp_all add: session_cookies_def append_cookie_def)

text \<open>A login that does not answer 200 adds no session; one that does has passed every guard.\<close>

definition login_granted :: "api_env \<Rightarrow> ApiConfig \<Rightarrow> User \<Rightarrow> AccountDb \<Rightarrow> ApiState \<Rightarrow> Response \<Rightarrow> bool" where
  "login_granted E C user A st r \<longleftrightarrow>
     us_status user = ''active'' \<and> login_lock_until (us_id user) (en_clock E 1) A = None \<and>
     (\<exists>m B t B'. m \<in> set (memberships_for_user (us_id user) A) \<and>
        issue_session E C (us_id user) (ms_organization_id m) (clear_failed_logins (us_id user) A) = (B, Ok t) \<and>
        as_store st = Some B' \<and> ac_sessions B' = ac_sessions B \<and> r = auth_response C 200 user (ms_organization_id m) t)"

lemma chosen_membership_Some: "chosen_membership wanted ms = Some m \<Longrightarrow> m \<in> set ms"
  by (auto simp: chosen_membership_def or_else_def find_Some_iff in_set_conv_nth bind_eq_Some_conv split: option.splits list.splits)

lemma login_user_cases:
  assumes "as_store st = Some A" "login_user E C headers peer req user ok A st = (st', r)"
  shows "(rp_status r \<noteq> 200 \<and> (\<exists>B. as_store st' = Some B \<and> ac_sessions B = ac_sessions A)) \<or> (ok \<and> login_granted E C user A st' r)"
proof (cases "login_lock_until (us_id user) (en_clock E 1) A = None \<and> us_status user = ''active'' \<and> ok")
  case False
  obtain B locked where B: "record_failed_login (us_id user) (en_clock E 1) 10 (15 * 60) A = (B, locked)" by force
  show ?thesis using assms False B failed_login_sessions[OF B]
    by (cases locked; cases "login_lock_until (us_id user) (en_clock E 1) A")
      (auto simp: login_user_def Let_def api_audit_as_store)
next
  case True
  show ?thesis
  proof (cases "chosen_membership (lr_organization_id req) (memberships_for_user (us_id user) A)")
    case None
    then show ?thesis using assms True by (auto simp: login_user_def Let_def)
  next
    case (Some m)
    obtain B t where B: "issue_session E C (us_id user) (ms_organization_id m) (clear_failed_logins (us_id user) A) = (B, t)" by force
    show ?thesis
    proof (cases t)
      case (Inl e)
      then have "ac_sessions B = ac_sessions A"
        using issue_session_Err[of E C "us_id user" "ms_organization_id m" "clear_failed_logins (us_id user) A" B e] B
        by (simp add: clear_failed_logins_def)
      then show ?thesis using assms True Some B Inl by (auto simp: login_user_def Let_def with_session_def)
    next
      case (Inr tok)
      then show ?thesis using assms True Some B chosen_membership_Some[OF Some]
        by (auto simp: login_user_def Let_def with_session_def api_audit_as_store login_granted_def)
    qed
  qed
qed

lemma login_cases:
  assumes "as_store st = Some A" "api_login E C headers peer req st = (st', r)"
  shows "(rp_status r \<noteq> 200 \<and> (\<exists>B. as_store st' = Some B \<and> ac_sessions B = ac_sessions A)) \<or>
    (\<exists>user h. cf_password_auth_enabled C \<and> user_by_email (lr_email req) A = Some user \<and> us_password_hash user = Some h \<and>
       en_argon_verify E (lr_password req) h \<and> login_granted E C user A st' r)"
proof -
  let ?lim = "default_limits (en_rnd E)"
  obtain st1 r1 where ip: "rate_limit_ip E C 0 headers peer ''auth.login.ip'' (lm_login_per_ip ?lim) st = (st1, r1)" by force
  obtain st2 r2 where key: "rate_limit_key E 1 ''auth.login.account'' (login_account_key E req) (lm_login_per_account ?lim) st1 = (st2, r2)"
    by force
  have store: "as_store st1 = Some A" "as_store st2 = Some A" using ip key assms(1) by simp_all
  show ?thesis
  proof (cases "cf_password_auth_enabled C \<and> r1 = Ok () \<and> r2 = Ok ()")
    case False
    then show ?thesis using assms store ip key by (auto simp: api_login_def Let_def split: sum.splits if_splits)
  next
    case True
    then show ?thesis using assms(2) store(2) ip key login_user_cases[OF store(2), of E C headers peer req _ _ st' r]
      by (auto simp: api_login_def Let_def api_store_def ok_or_def verify_password_async_def split: option.splits)
  qed
qed

text \<open>
  C9: A password login opens a session only for an active account that is not locked, with the password of the address that was
  given, in an organization the account belongs to; the access token it returns authenticates exactly that user there until it
  expires. Every other answer leaves the sessions as they were.
\<close>

theorem login_sound:
  assumes "as_store st = Some A" "account_reachable A" "api_login E C headers peer req st = (st', r)"
  shows "\<exists>B. as_store st' = Some B \<and>
    (if rp_status r = 200
     then \<exists>user h org m token e re csrf s. user_by_email (lr_email req) A = Some user \<and> us_status user = ''active'' \<and>
       us_password_hash user = Some h \<and> en_argon_verify E (lr_password req) h \<and> login_lock_until (us_id user) (en_clock E 1) A = None \<and>
       membership org (us_id user) A = Some m \<and> rp_body r = AuthBody token e re csrf (public_user user) org \<and>
       session_by_access_hash (hash_secret E token) B = Some s \<and> bs_user_id s = us_id user \<and> bs_organization_id s = org \<and>
       bs_revoked_at s = None \<and> bs_access_expires_at s = e
     else ac_sessions B = ac_sessions A)"
proof (cases "rp_status r = 200")
  case False
  with login_cases[OF assms(1,3)] show ?thesis by (auto simp: login_granted_def auth_response_def)
next
  case True
  with login_cases[OF assms(1,3)] obtain user h m B t B' where g: "user_by_email (lr_email req) A = Some user" "us_password_hash user = Some h"
    "en_argon_verify E (lr_password req) h" "us_status user = ''active''" "login_lock_until (us_id user) (en_clock E 1) A = None"
    "m \<in> set (memberships_for_user (us_id user) A)"
    "issue_session E C (us_id user) (ms_organization_id m) (clear_failed_logins (us_id user) A) = (B, Ok t)"
    "as_store st' = Some B'" "ac_sessions B' = ac_sessions B" "r = auth_response C 200 user (ms_organization_id m) t"
    by (auto simp: login_granted_def)
  have inv: "account_inv (clear_failed_logins (us_id user) A)"
    by (rule inv_clear_failed[OF account_reachable_inv[OF assms(2)]])
  have e: "tn_access_expires_at t = en_clock E 5 + cf_access_ttl_seconds C * 1000"
    using g(7) by (auto simp: issue_session_def Let_def split: prod.splits sum.splits)
  from issue_session_Ok[OF inv g(7)] show ?thesis
    using g e True memberships_for_user_member[OF g(6)] session_by_access_hash_cong[OF g(9)] by (auto simp: auth_response_def)
qed

subsection \<open>The OAuth callback\<close>

lemma federated_returns:
  assumes "account_inv A" "resolve_federated_identity new_id new_org now p s email v name A = (B, Ok l)"
  shows "\<exists>u. user_by_federated_identity p s B = Some u \<and> us_id u = us_id (fl_user l)"
proof (cases "user_by_federated_identity p s A")
  case (Some u)
  let ?g = "\<lambda>i. i\<lparr>ui_last_login_at := Some now, ui_email := Some (trim email), ui_email_verified := v\<rparr>"
  have "B = A\<lparr>ac_identities := update_key (p, s) ?g (ac_identities A)\<rparr>" "fl_user l = u"
    using assms(2) Some by (auto simp: resolve_federated_identity_def)
  then show ?thesis using touch_identity_safe(1)[OF assms(1), of ?g B p s] Some by simp
next
  case None
  then show ?thesis
    using assms(2) link_existing_safe(2,4)[OF assms(1), of p s email v now _ B l] create_federated_safe(5)[OF assms(1), of new_id new_org now p s email v name B l]
    by (cases "user_by_email email A") (auto simp: resolve_federated_identity_def)
qed

lemma federated_keeps:
  assumes "resolve_federated_identity new_id new_org now p s email v name A = (B, r)"
  shows "ac_sessions B = ac_sessions A" "ac_oauth B = ac_oauth A"
  using assms
  by (auto simp: resolve_federated_identity_def link_existing_def create_federated_def insert_identity_def insert_user_def
      insert_owned_organization_def and_then_Ok Let_def
      split: option.splits if_splits sum.splits StoreError.splits)

lemma audit_oauth [simp]: "ac_oauth (fst (Account_Access.audit i l A)) = ac_oauth A" "ac_identities (fst (Account_Access.audit i l A)) = ac_identities A"
  "ac_users (fst (Account_Access.audit i l A)) = ac_users A"
  by (simp_all add: Account_Access.audit_def)

lemma issue_session_keeps:
  assumes "issue_session E C user org A = (B, r)" "hm_wf (ac_sessions A)"
  shows "ac_oauth B = ac_oauth A" "ac_identities B = ac_identities A" "ac_users B = ac_users A"
    "hm_get (ac_sessions B) k = Some row \<Longrightarrow> hm_get (ac_sessions A) k = Some row \<or> bs_user_id (sn_session row) = user"
  using assms by (auto simp: issue_session_def create_session_def session_row_def Let_def split: if_splits)

lemma user_by_federated_identity_cong:
  "ac_identities B = ac_identities A \<Longrightarrow> ac_users B = ac_users A \<Longrightarrow> user_by_federated_identity p s B = user_by_federated_identity p s A"
  by (simp add: user_by_federated_identity_def user_by_id_def)

text \<open>What a store \<open>B\<close> owes to the sign-in of a user from the store \<open>A\<close>: sessions of that user only, nothing else changed.\<close>

definition signed_in :: "string \<Rightarrow> AccountDb \<Rightarrow> AccountDb \<Rightarrow> bool" where
  "signed_in user A B \<longleftrightarrow> ac_oauth B = ac_oauth A \<and> ac_identities B = ac_identities A \<and> ac_users B = ac_users A \<and>
     (\<forall>k row. hm_get (ac_sessions B) k = Some row \<longrightarrow> hm_get (ac_sessions A) k = Some row \<or> bs_user_id (sn_session row) = user)"

lemma signed_in_audit [simp]: "signed_in user A (fst (Account_Access.audit i l B)) = signed_in user A B"
  by (simp add: signed_in_def)

lemma finish_signed_in:
  assumes "finish_oauth_session E C login path rid A st = (st', r)" "as_store st' = Some B" "hm_wf (ac_sessions A)"
  shows "signed_in (us_id (fl_user login)) A B \<and> (ac_sessions B \<noteq> ac_sessions A \<longrightarrow> us_status (fl_user login) = ''active'')"
proof -
  have "signed_in (us_id (fl_user login)) A A" by (simp add: signed_in_def)
  moreover have "signed_in (us_id (fl_user login)) A B' " if "issue_session E C (us_id (fl_user login)) org A = (B', t)" for B' t org
    using issue_session_keeps[OF that assms(3)] by (auto simp: signed_in_def)
  ultimately show ?thesis
    using assms(1,2)
    by (auto simp: finish_oauth_session_def Let_def with_session_def api_audit_as_store
        split: if_splits option.splits prod.splits sum.splits FederatedOutcome.splits list.splits)
qed

lemma consume_Some:
  assumes "consume_oauth_authorization state now A = (A1, Some a)" "hm_wf (ac_oauth A)"
  shows "\<exists>row. hm_get (ac_oauth A) state = Some row \<and> ox_consumed_at row = None \<and> now < ox_expires_at row \<and> ox_authorization row = a \<and>
    hm_get (ac_oauth A1) state = Some (row\<lparr>ox_consumed_at := Some now\<rparr>) \<and> ac_sessions A1 = ac_sessions A"
  using assms by (auto simp: consume_oauth_authorization_def update_where_def split: prod.splits if_splits option.splits bool.splits)

lemma consume_spent:
  assumes "hm_get (ac_oauth A) state = Some row" "ox_consumed_at row \<noteq> None"
  shows "consume_oauth_authorization state now A = (A, None)"
  using assms by (auto simp: consume_oauth_authorization_def update_where_def)


lemma consume_inv: "account_inv A \<Longrightarrow> consume_oauth_authorization state now A = (B, a) \<Longrightarrow> account_inv B"
  using account_step_inv[OF account_step.oauth_consume, of A state now] by simp

text \<open>The identity leads to a user, and only that user may have been signed in.\<close>

definition admitted :: "string \<Rightarrow> string \<Rightarrow> AccountDb \<Rightarrow> AccountDb \<Rightarrow> bool" where
  "admitted p subject A B \<longleftrightarrow>
     (\<exists>B1 (user :: User) u. ac_sessions B1 = ac_sessions A \<and> ac_oauth B1 = ac_oauth A \<and> user_by_federated_identity p subject B1 = Some u \<and>
        us_id u = us_id user \<and> signed_in (us_id user) B1 B \<and> (ac_sessions B \<noteq> ac_sessions A \<longrightarrow> us_status user = ''active''))"

lemma admit_cases:
  assumes "account_inv A" "admit_identity E C p i path rid A st = (st', r)" "as_store st = Some A" "as_store st' = Some B"
  shows "B = A \<or> admitted p (fi_subject i) A B"
proof (cases "cf_registration_enabled C")
  case False
  show ?thesis
  proof (cases "user_by_federated_identity p (fi_subject i) A")
    case (Some u)
    have "finish_oauth_session E C \<lparr>fl_user = u, fl_outcome = FedExisting\<rparr> path rid A st = (st', r)"
      using assms(2) False Some by (simp add: admit_identity_def)
    from finish_signed_in[OF this assms(4) table_ok_wf[OF account_invD(4)[OF assms(1)]]] Some show ?thesis
      unfolding admitted_def by (intro disjI2 exI[of _ A] exI[of _ u]) simp
  qed (use assms False in \<open>simp add: admit_identity_def\<close>)
next
  case True
  obtain B1 res where res: "resolve_federated_identity (en_uuid E 1) (en_uuid E 2) (en_clock E 1) p (fi_subject i) (fi_email i)
      (fi_email_verified i) (truncate_str (organization_stem i) 100 @ '' workspace'') A = (B1, res)" by force
  note keeps = federated_keeps[OF res]
  show ?thesis
  proof (cases res)
    case (Inl e)
    then show ?thesis using assms True res by (auto simp: admit_identity_def split: StoreError.splits)
  next
    case (Inr l)
    have "finish_oauth_session E C l path rid B1 st = (st', r)" using assms(2) True res Inr by (simp add: admit_identity_def)
    from finish_signed_in[OF this assms(4)] keeps table_ok_wf[OF account_invD(4)[OF assms(1)]]
      federated_returns[OF assms(1) res[unfolded Inr]] show ?thesis unfolding admitted_def by auto
  qed
qed

text \<open>A callback that changes the store beyond its own authorization has gone through the exchange and its checks.\<close>

lemma callback_cases:
  assumes "as_store st = Some A" "account_inv A" "api_oauth_callback E C headers p q st = (st', r)" "as_store st' = Some B"
  shows "B = A \<or> (\<exists>code state provider oauth A1 a. cq_code q = Some code \<and> cq_state q = Some state \<and>
    bt_get (cf_oauth_providers C) p = Some provider \<and> cf_oauth C = Some oauth \<and>
    consume_oauth_authorization state (en_clock E 0) A = (A1, Some a) \<and>
    (B = A1 \<or> (\<exists>i. oa_provider a = p \<and>
       exchange_and_fetch_identity (en_client E) provider (redirect_uri oauth p) code (oa_pkce_verifier a) = Ok i \<and>
       fi_email_verified i \<and> allows_email provider (fi_email i) \<and> admitted p (fi_subject i) A1 B)))"
proof (cases "\<exists>code state provider oauth A1 a. cq_error q = None \<and> cq_code q = Some code \<and> cq_state q = Some state \<and>
    bt_get (cf_oauth_providers C) p = Some provider \<and> cf_oauth C = Some oauth \<and>
    consume_oauth_authorization state (en_clock E 0) A = (A1, Some a)")
  case False
  then show ?thesis using assms(1,3,4)
    by (auto simp: api_oauth_callback_def Let_def api_store_def ok_or_def split: option.splits prod.splits)
next
  case True
  then obtain code state provider oauth A1 a where c: "cq_error q = None" "cq_code q = Some code" "cq_state q = Some state"
    "bt_get (cf_oauth_providers C) p = Some provider" "cf_oauth C = Some oauth"
    "consume_oauth_authorization state (en_clock E 0) A = (A1, Some a)" by blast
  have inv: "account_inv A1" by (rule consume_inv[OF assms(2) c(6)])
  let ?exchange = "exchange_and_fetch_identity (en_client E) provider (redirect_uri oauth p) code (oa_pkce_verifier a)"
  show ?thesis
  proof (cases "\<exists>i. oa_provider a = p \<and> ?exchange = Ok i \<and> fi_email_verified i \<and> allows_email provider (fi_email i)")
    case False
    then show ?thesis using assms(1,3,4) c
      by (auto simp: api_oauth_callback_def Let_def api_store_def ok_or_def split: sum.splits if_splits)
  next
    case True
    then obtain i where i: "oa_provider a = p" "?exchange = Ok i" "fi_email_verified i" "allows_email provider (fi_email i)" by blast
    have "admit_identity E C p i (oa_redirect_path a) (request_id E headers) A1 (st\<lparr>as_store := Some A1\<rparr>) = (st', r)"
      using assms(1,3) c i by (simp add: api_oauth_callback_def Let_def api_store_def ok_or_def)
    from admit_cases[OF inv this _ assms(4)] show ?thesis using c i by auto
  qed
qed

text \<open>
  C10: An OAuth callback opens a session only for a state this hub has stored, that no callback has spent and that has not expired,
  for the provider it was started with, after the exchange under the stored verifier returned an identity with a verified
  address of an allowed domain. The session belongs to the account this identity leads to, and the state is spent: whatever is
  sent with it later, to any provider, leaves the store as it is.
\<close>

theorem oauth_callback_single_use:
  assumes "as_store st = Some A" "account_reachable A" "api_oauth_callback E C headers p q st = (st', r)" "as_store st' = Some B"
    "ac_sessions B \<noteq> ac_sessions A"
  shows "\<exists>code state provider oauth row i u. cq_code q = Some code \<and> cq_state q = Some state \<and>
    bt_get (cf_oauth_providers C) p = Some provider \<and> cf_oauth C = Some oauth \<and> hm_get (ac_oauth A) state = Some row \<and>
    ox_consumed_at row = None \<and> en_clock E 0 < ox_expires_at row \<and> oa_provider (ox_authorization row) = p \<and>
    exchange_and_fetch_identity (en_client E) provider (redirect_uri oauth p) code (oa_pkce_verifier (ox_authorization row)) = Ok i \<and>
    fi_email_verified i \<and> allows_email provider (fi_email i) \<and> user_by_federated_identity p (fi_subject i) B = Some u \<and>
    (\<forall>k s. hm_get (ac_sessions B) k = Some s \<longrightarrow> hm_get (ac_sessions A) k = Some s \<or> bs_user_id (sn_session s) = us_id u) \<and>
    (\<forall>E' C' headers' p' q'. cq_state q' = Some state \<longrightarrow> as_store (fst (api_oauth_callback E' C' headers' p' q' st')) = Some B)"
proof -
  have inv: "account_inv A" by (rule account_reachable_inv[OF assms(2)])
  obtain code state provider oauth A1 a where c: "cq_code q = Some code" "cq_state q = Some state"
    "bt_get (cf_oauth_providers C) p = Some provider" "cf_oauth C = Some oauth"
    "consume_oauth_authorization state (en_clock E 0) A = (A1, Some a)"
    and rest: "B = A1 \<or> (\<exists>i. oa_provider a = p \<and>
       exchange_and_fetch_identity (en_client E) provider (redirect_uri oauth p) code (oa_pkce_verifier a) = Ok i \<and>
       fi_email_verified i \<and> allows_email provider (fi_email i) \<and> admitted p (fi_subject i) A1 B)"
    using callback_cases[OF assms(1) inv assms(3,4)] assms(5) by blast
  have "hm_wf (ac_oauth A)" using inv by (simp add: account_inv_def)
  then obtain row where row: "hm_get (ac_oauth A) state = Some row" "ox_consumed_at row = None" "en_clock E 0 < ox_expires_at row"
    "ox_authorization row = a" "hm_get (ac_oauth A1) state = Some (row\<lparr>ox_consumed_at := Some (en_clock E 0)\<rparr>)" "ac_sessions A1 = ac_sessions A"
    using consume_Some[OF c(5)] by blast
  have "B \<noteq> A1" using assms(5) row(6) by auto
  with rest obtain i where i: "oa_provider a = p" "fi_email_verified i" "allows_email provider (fi_email i)"
      "exchange_and_fetch_identity (en_client E) provider (redirect_uri oauth p) code (oa_pkce_verifier a) = Ok i"
      "admitted p (fi_subject i) A1 B" by blast
  from i(5)[unfolded admitted_def] obtain B1 u where u: "ac_sessions B1 = ac_sessions A" "ac_oauth B1 = ac_oauth A1"
      "user_by_federated_identity p (fi_subject i) B1 = Some u" "signed_in (us_id u) B1 B"
    using row(6) by metis
  have "user_by_federated_identity p (fi_subject i) B = Some u"
    using u(3,4) user_by_federated_identity_cong[of B B1] by (simp add: signed_in_def)
  moreover have "hm_get (ac_oauth B) state = Some (row\<lparr>ox_consumed_at := Some (en_clock E 0)\<rparr>)"
    using u(2,4) row(5) by (simp add: signed_in_def)
  then have "as_store (fst (api_oauth_callback E' C' headers' p' q' st')) = Some B" if "cq_state q' = Some state" for E' C' headers' p' q'
    using that assms(4) consume_spent[of B state]
    by (auto simp: api_oauth_callback_def Let_def api_store_def ok_or_def split: option.splits)
  ultimately show ?thesis using c row i(1-4) u(1,4) unfolding signed_in_def by metis
qed


subsection \<open>Cursors\<close>

lemma continuation_append: "continuation (drop k bs) \<Longrightarrow> continuation (drop k (bs @ cs)) \<and> Suc k \<le> length bs"
  by (cases "drop k bs"; cases "k < length bs") (auto simp: continuation_def)

lemma second_byte_append: "second_byte_ok lead bs \<Longrightarrow> second_byte_ok lead (bs @ cs)"
  by (cases bs) (simp_all add: second_byte_ok_def)

lemma utf8_step_append: "utf8_step b bs = (n, True) \<Longrightarrow> utf8_step b (bs @ cs) = (n, True) \<and> n \<le> Suc (length bs)"
  using continuation_append[of 0 bs cs] continuation_append[of 1 bs cs] continuation_append[of 2 bs cs] second_byte_append[of b bs cs]
  unfolding utf8_step_def by (simp split: if_split_asm del: drop_append)

lemma utf8_valid_append: "utf8_valid a \<Longrightarrow> utf8_valid c \<Longrightarrow> utf8_valid (a @ c)"
proof (induction a rule: utf8_valid.induct)
  case (2 b bs)
  obtain n where n: "utf8_step b bs = (n, True)" "utf8_valid (drop n (b # bs))" using "2.prems"(1) by (auto split: prod.splits)
  have "utf8_valid (drop n (b # bs) @ c)" using "2.IH"[OF n(1)[symmetric]] n(2) "2.prems"(2) by simp
  moreover have "drop n ((b # bs) @ c) = drop n (b # bs) @ c" using utf8_step_append[OF n(1)] by (simp only: drop_append) simp
  ultimately show ?case using utf8_step_append[OF n(1), of c] by simp
qed simp

lemma as_bytes_append [simp]: "as_bytes (a @ b) = as_bytes a @ as_bytes b"
  by (simp add: as_bytes_def)

lemma as_bytes_of_bytes: "as_bytes (of_bytes bs) = bs"
proof -
  have "unat b < 256" for b :: u8 using unsigned_less[of b] by simp
  then show ?thesis by (induction bs) (simp_all add: as_bytes_def of_bytes_def ascii_def)
qed

lemma utf8_valid_ascii: "list_all (\<lambda>c. ascii c < 128) s \<Longrightarrow> utf8_valid (as_bytes s)"
proof (induction s)
  case (Cons c s)
  have "(of_nat (ascii c) :: u8) < 0x80" using Cons.prems by (simp add: word_less_nat_alt unsigned_of_nat take_bit_eq_mod ascii_def)
  then show ?case using Cons by (simp add: as_bytes_def utf8_step_def)
qed (simp add: as_bytes_def)

lemma split_join_parts:
  "ps \<noteq> [] \<Longrightarrow> \<forall>p\<in>set ps. c \<notin> set p \<Longrightarrow> split_char c (join_parts [c] ps) = ps"
  by (induction "[c]" ps rule: join_parts.induct) (simp_all add: split_char_none split_char_append)


lemma utf8_valid_join: "\<forall>p\<in>set ps. utf8_valid (as_bytes p) \<Longrightarrow> utf8_valid (as_bytes (join_parts [CHR 0x00] ps))"
proof (induction "[CHR 0x00]" ps rule: join_parts.induct)
  case (3 s t ss)
  then show ?case using utf8_valid_ascii[of "[CHR 0x00]"] by (simp add: utf8_valid_append ascii_def flip: append_Cons)
qed (simp_all add: as_bytes_def)

text \<open>A part of a cursor: not empty, UTF-8, and without the separator.\<close>

definition cursor_part :: "string \<Rightarrow> bool" where
  "cursor_part p \<longleftrightarrow> p \<noteq> [] \<and> CHR 0x00 \<notin> set p \<and> utf8_valid (as_bytes p)"

lemma decode_encode_parts:
  assumes "\<forall>bs. en_b64_decode E (as_bytes (en_b64_encode E bs)) = Some bs" "ps \<noteq> []" "list_all cursor_part ps"
  shows "decode_cursor_parts E (encode_cursor_parts E ps) (length ps) = Ok ps"
  using assms split_join_parts[of ps "CHR 0x00"] utf8_valid_join[of ps]
  by (auto simp: decode_cursor_parts_def encode_cursor_parts_def list_all_iff cursor_part_def)

lemma show_nat_chars: "c \<in> set (show_nat n) \<Longrightarrow> 48 \<le> ascii c \<and> ascii c \<le> 57"
  using show_nat_digits[of n] by (auto simp: is_ascii_digit_def)

lemma show_nat_nonempty [simp]: "show_nat n \<noteq> []"
  by (subst show_nat.simps) simp

lemma show_i64_part: "cursor_part (show_i64 t)"
proof -
  have "48 \<le> ascii c \<and> ascii c \<le> 57 \<or> c = CHR ''-''" if "c \<in> set (show_i64 t)" for c
    using that show_nat_chars[of c] by (auto simp: show_i64_def split: if_splits)
  then have "\<forall>c\<in>set (show_i64 t). 0 < ascii c \<and> ascii c < 128" by (force simp: ascii_def)
  moreover from this have "CHR 0x00 \<notin> set (show_i64 t)" by (fastforce simp: ascii_def)
  ultimately show ?thesis using utf8_valid_ascii[of "show_i64 t"] by (simp add: cursor_part_def list_all_iff) (simp add: show_i64_def)
qed

lemma parse_show_i64: "i64_min \<le> t \<Longrightarrow> t \<le> i64_max \<Longrightarrow> parse_i64 (show_i64 t) = Some t"
proof -
  have digits: "list_all is_ascii_digit (show_nat n)" for n using show_nat_digits by (simp add: list_all_iff)
  obtain c r where c: "show_nat (nat t) = c # r" using show_nat_nonempty by (meson list.exhaust)
  then have "c \<noteq> CHR ''-''" "c \<noteq> CHR ''+''" using show_nat_chars[of c "nat t"] by (auto simp: ascii_def)
  then have pos: "parse_i64 (c # r) = Some t" if "0 \<le> t" "t \<le> i64_max" "i64_min \<le> t"
    using that read_digits_show_nat[of "nat t"] digits[of "nat t"] unfolding c by (simp add: parse_i64_def Let_def)
  assume "i64_min \<le> t" "t \<le> i64_max"
  then show ?thesis using pos c digits
    by (cases "t < 0") (simp_all add: show_i64_def parse_i64_def[of "CHR ''-'' # _"] Let_def read_digits_show_nat)
qed

text \<open>
  The cursors of the paged lists read back as they were written: with a base64 codec that decodes what it encodes, a cursor made of
  a time and an identifier, of an identifier, of the three parts of a device row or of a workflow version decodes to exactly
  those parts, for every time of an \<open>i64\<close>, negative ones too.
\<close>

theorem cursor_roundtrip:
  assumes "\<forall>bs. en_b64_decode E (as_bytes (en_b64_encode E bs)) = Some bs" "i64_min \<le> t" "t \<le> i64_max"
    "cursor_part a" "cursor_part b" "cursor_part c"
  shows "decode_created_id_cursor E (encode_created_id_cursor E t a) = Ok (t, a) \<and>
    decode_id_cursor E (encode_id_cursor E a) = Ok a \<and>
    decode_device_cursor E (encode_device_cursor E a b c) = Ok (a, b, c) \<and>
    decode_workflow_cursor E (encode_workflow_cursor E a b) = Ok (a, b)"
proof -
  note parts = decode_encode_parts[OF assms(1)]
  show ?thesis
    using assms(2-) parts[of "[show_i64 t, a]"] parts[of "[a]"] parts[of "[a, b, c]"] parts[of "[a, b]"]
    by (simp add: decode_created_id_cursor_def encode_created_id_cursor_def decode_id_cursor_def encode_id_cursor_def
        decode_device_cursor_def encode_device_cursor_def decode_workflow_cursor_def encode_workflow_cursor_def show_i64_part
        parse_show_i64 and_then_def numeral_eq_Suc)
qed


subsection \<open>Redirects\<close>

text \<open>
  A stored redirect target is a path of the site's own by its first two characters. The check does not remove tabs, which a browser
  drops before it reads the target: the last line is a target that becomes another host.
\<close>

lemma redirect_is_path:
  "let t = sanitize_redirect_path candidate in prefix ''/'' t \<and> \<not> prefix ''//'' t \<and> CHR 0x5C \<notin> set t \<and> \<not> sublist ''://'' t"
  by (auto simp: sanitize_redirect_path_def Let_def sublist_code split: option.splits)

lemma redirect_keeps_tab:
  "let target = ''/'' @ [CHR 0x09] @ ''/evil.example''
   in sanitize_redirect_path (Some target) = target \<and> header_from_str target = Some target \<and> filter (\<lambda>c. c \<noteq> CHR 0x09) target = ''//evil.example''"
  by code_simp

text \<open>
  A verified federated login is linked to the local account with its address even when that address was never verified here: whoever
  registered it first keeps a working password.
\<close>

lemma link_keeps_foreign_password:
  "case resolve_federated_identity ''u1'' ''u2'' 20 ''google'' ''g-7'' ''bob@x.org'' True ''B'' sample_accounts of
     (A, Ok l) \<Rightarrow> fl_outcome l = FedLinked \<and> Option.bind (user_by_email ''bob@x.org'' sample_accounts) us_email_verified_at = None \<and>
       map_option us_password_hash (user_by_id (us_id (fl_user l)) A) = Some (Some ''hb'')
   | _ \<Rightarrow> False"
  by code_simp

subsection \<open>Sample requests\<close>

text \<open>The check of a header value, read off the bits of the characters.\<close>

lemma plain_char: "(32 \<le> ascii c \<and> ascii c \<noteq> 127) \<or> ascii c = 9 \<longleftrightarrow>
   (case c of Char b0 b1 b2 b3 b4 b5 b6 b7 \<Rightarrow> ((b5 \<or> b6 \<or> b7) \<and> c \<noteq> CHR 0x7F) \<or> c = CHR 0x09)"
proof -
  have "32 \<le> ascii c \<longleftrightarrow> digit5 c \<or> digit6 c \<or> digit7 c"
    by (cases c) (simp add: ascii_def of_char_def horner_sum_simps(2) split: if_splits)
  moreover have "ascii c = 127 \<longleftrightarrow> c = CHR 0x7F" "ascii c = 9 \<longleftrightarrow> c = CHR 0x09"
    using of_char_eq_iff[of c "CHR 0x7F"] of_char_eq_iff[of c "CHR 0x09"] by (simp_all add: ascii_def)
  ultimately show ?thesis by (cases c) simp
qed

lemma header_from_str_code [code]:
  "header_from_str v = (if list_all (\<lambda>c. case c of Char b0 b1 b2 b3 b4 b5 b6 b7 \<Rightarrow>
      ((b5 \<or> b6 \<or> b7) \<and> c \<noteq> CHR 0x7F) \<or> c = CHR 0x09) v then Some v else None)"
  by (simp add: header_from_str_def plain_char)

definition sample_client :: oauth_client where
  "sample_client =
     \<lparr>ot_post = (\<lambda>_ _. Ok (200, Ok [])), ot_get = (\<lambda>_ _. GetJson (Object [(''sub'', String ''42''), (''email'', String ''cy@x.org''), (''email_verified'', Bool True)])),
      ot_token_json = (\<lambda>_. Some \<lparr>tk_access_token = Some ''t'', tk_error = None, tk_error_description = None\<rparr>), ot_token_form = (\<lambda>_. Err []),
      ot_number = (\<lambda>_. [])\<rparr>"

text \<open>The digest tells the access token of the sample session, other access tokens and other texts apart.\<close>

definition sample_env :: api_env where
  "sample_env =
     \<lparr>en_sha256 = (\<lambda>bs. if bs = as_bytes ''nss_x'' then [0xA1] else if take 3 bs = as_bytes ''nss'' then [0xA2] else [0xA3]), en_argon_hash = Ok, en_argon_verify = (\<lambda>p h. p = ''correct horse'' \<and> h = ''hb''),
      en_rnd = id, en_bucket_hash = (\<lambda>_ _. 0), en_clock = (\<lambda>n. 20), en_instant = (\<lambda>_. 0), en_uuid = (\<lambda>n. CHR ''u'' # show_nat n),
      en_simple = (\<lambda>n. CHR ''s'' # show_nat n), en_parse_scopes = (\<lambda>_. None), en_json = (\<lambda>_. []), en_hex_decode = Some, en_b64_encode = of_bytes,
      en_b64_decode = Some, en_client = sample_client\<rparr>"

definition sample_provider :: Provider where
  "sample_provider =
     \<lparr>pv_name = ''idp'', pv_kind = Oidc, pv_client_id = ''c'', pv_client_secret = ''s'', pv_authorize_url = ''https://idp/a'', pv_token_url = ''https://idp/t'',
      pv_userinfo_url = ''https://idp/u'', pv_scopes = [], pv_allowed_email_domains = [''x.org'']\<rparr>"

definition sample_config :: ApiConfig where
  "sample_config =
     \<lparr>cf_registration_enabled = True, cf_password_auth_enabled = True, cf_cookie_secure = True, cf_access_ttl_seconds = 900, cf_refresh_ttl_seconds = 3600,
      cf_allowed_origins = [], cf_trust_forwarded_for = False, cf_oauth = Some \<lparr>oc_public_url = ''https://hub'', oc_providers = []\<rparr>,
      cf_oauth_providers = [(''idp'', sample_provider)]\<rparr>"

definition sample_state :: ApiState where
  "sample_state =
     \<lparr>as_store = Some (fst (create_oauth_authorization ''st'' ''idp'' ''v'' ''/home'' 600 10 sample_accounts)),
      as_limiter = \<lparr>rl_shards = [], rl_enabled = False\<rparr>, as_sessions = \<lparr>sr_inner = [], sr_revoked_credentials = [], sr_conns = []\<rparr>\<rparr>"

definition sample_headers :: HeaderMap where
  "sample_headers = [(''authorization'', ''Bearer nss_x'')]"

lemma sample_state_reachable: "account_reachable (the (as_store sample_state))" "as_store sample_state = Some (the (as_store sample_state))"
  unfolding sample_state_def using account_reachable.step[OF sample_reachable(2) account_step.oauth_create] by simp_all

lemma check_disabled: "\<not> rl_enabled l \<Longrightarrow> check rnd h now scope key quota l = (l, Some Allow)"
  by (simp add: check_def)

lemma rate_limit_disabled:
  assumes "\<not> rl_enabled (as_limiter st)"
  shows "rate_limit_key E n scope key quota st = (st, Ok ())" "rate_limit_ip E C n headers peer scope quota st = (st, Ok ())"
  unfolding rate_limit_ip_def rate_limit_key_def check_disabled[OF assms] by (simp_all add: decision_result_def)

lemma auth_response_status: "rp_status (auth_response C status user org t) = status"
  by (simp add: auth_response_def)

lemma sample_parts [simp]:
  "rl_enabled (as_limiter sample_state) = False" "cf_password_auth_enabled sample_config"
  by (simp_all add: sample_state_def sample_config_def)

theorem authorize_sound_witness:
  "\<exists>m. membership ''acme'' ''bob'' (the (as_store sample_state)) = Some m \<and> role_allows (ms_role m) JobsWrite"
proof -
  let ?r = "authorize sample_env sample_headers ''acme'' JobsWrite sample_state"
  have ok: "case snd ?r of Ok a \<Rightarrow> pc_user_id (ax_principal a) = Some ''bob'' | Err e \<Rightarrow> False" by code_simp
  then obtain a where "snd ?r = Ok a" and a: "pc_user_id (ax_principal a) = Some ''bob''" by (cases "snd ?r") auto
  then have "?r = (fst ?r, Ok a)" by (metis surjective_pairing)
  from authorize_sound[OF this] a show ?thesis by auto
qed

theorem logout_effective_witness:
  "authenticate sample_env sample_headers None (fst (api_logout sample_env sample_config sample_headers sample_state)) =
    (fst (api_logout sample_env sample_config sample_headers sample_state), Err (Unauthorized ''browser session is expired or revoked''))"
proof -
  have "rp_status (snd (api_logout sample_env sample_config sample_headers sample_state)) = 204" by code_simp
  from logout_effective[OF sample_state_reachable(2,1) surjective_pairing this refl] show ?thesis .
qed

definition two_sessions :: AccountDb where
  "two_sessions = fst (create_session (sample_session\<lparr>ns_id := ''s2'', ns_user_id := ''ann'', ns_refresh_token_hash := ''r2'',
     ns_access_token_hash := hash_secret sample_env ''nss_y''\<rparr>) sample_accounts)"

theorem removed_member_refused_witness:
  "\<exists>a. snd (authenticate sample_env [(''authorization'', ''Bearer nss_y'')] None
         (sample_state\<lparr>as_store := Some (fst (remove_member ''acme'' ''bob'' 30 two_sessions))\<rparr>)) = Ok a \<and>
       pc_user_id (ax_principal a) \<noteq> Some ''bob''"
proof -
  let ?rm = "remove_member ''acme'' ''bob'' 30 two_sessions"
  let ?r = "authenticate sample_env [(''authorization'', ''Bearer nss_y'')] None (sample_state\<lparr>as_store := Some (fst ?rm)\<rparr>)"
  have reach: "account_reachable two_sessions"
    unfolding two_sessions_def by (rule account_reachable.step[OF sample_reachable(2) account_step.session])
  have "snd ?rm = Ok (Some [])" by code_simp
  then have rm: "?rm = (fst ?rm, Ok (Some []))" by (metis surjective_pairing)
  have "case snd ?r of Ok a \<Rightarrow> pc_organization_id (ax_principal a) = ''acme'' | Err e \<Rightarrow> False" by code_simp
  then obtain a where a: "snd ?r = Ok a" "pc_organization_id (ax_principal a) = ''acme''" by (cases "snd ?r") auto
  then have "?r = (fst ?r, Ok a)" by (metis surjective_pairing)
  from removed_member_refused[OF reach rm _ this] a show ?thesis by auto
qed

definition sample_login :: LoginRequest where
  "sample_login = \<lparr>lr_email = ''BOB@x.org'', lr_password = ''correct horse'', lr_organization_id = Some ''acme''\<rparr>"

lemma sample_login_parts: "lr_email sample_login = ''BOB@x.org''" "lr_password sample_login = ''correct horse''"
  by (simp_all add: sample_login_def)

theorem login_sound_witness:
  "rp_status (snd (api_login sample_env sample_config [] None sample_login sample_state)) = 200 \<and>
   (\<exists>user h. user_by_email ''BOB@x.org'' (the (as_store sample_state)) = Some user \<and> us_password_hash user = Some h \<and>
      en_argon_verify sample_env ''correct horse'' h)"
proof -
  obtain A where A: "as_store sample_state = Some A" using sample_state_reachable(2) by blast
  have user: "case user_by_email ''BOB@x.org'' (the (as_store sample_state)) of Some u \<Rightarrow> us_id u = ''bob'' \<and> us_status u = ''active'' \<and>
      verify_password_async sample_env ''correct horse'' (us_password_hash u) | None \<Rightarrow> False" by code_simp
  have free: "login_lock_until ''bob'' (en_clock sample_env 1) (the (as_store sample_state)) = None" by code_simp
  have org: "map_option ms_organization_id (chosen_membership (Some ''acme'') (memberships_for_user ''bob'' (the (as_store sample_state)))) = Some ''acme''"
    by code_simp
  have "case snd (issue_session sample_env sample_config ''bob'' ''acme'' (clear_failed_logins ''bob'' (the (as_store sample_state)))) of
      Ok t \<Rightarrow> True | Err e \<Rightarrow> False" by code_simp
  then obtain u m B t where s: "user_by_email ''BOB@x.org'' A = Some u" "us_id u = ''bob''" "us_status u = ''active''"
      "verify_password_async sample_env ''correct horse'' (us_password_hash u)" "login_lock_until ''bob'' (en_clock sample_env 1) A = None"
      "chosen_membership (Some ''acme'') (memberships_for_user ''bob'' A) = Some m" "ms_organization_id m = ''acme''"
      "issue_session sample_env sample_config ''bob'' ''acme'' (clear_failed_logins ''bob'' A) = (B, Ok t)"
    using user free org unfolding A option.sel
    by (cases "issue_session sample_env sample_config ''bob'' ''acme'' (clear_failed_logins ''bob'' A)") (auto split: option.splits sum.splits)
  have "login_user sample_env sample_config [] None sample_login u True A sample_state =
      (fst (login_user sample_env sample_config [] None sample_login u True A sample_state), auth_response sample_config 200 u ''acme'' t)"
    using s by (simp add: login_user_def Let_def sample_login_def with_session_def)
  moreover have "api_login sample_env sample_config [] None sample_login sample_state = login_user sample_env sample_config [] None sample_login u True A sample_state"
    using s(1,4) A by (simp add: api_login_def Let_def rate_limit_disabled api_store_def ok_or_def sample_login_parts)
  ultimately have "rp_status (snd (api_login sample_env sample_config [] None sample_login sample_state)) = 200"
    by (metis auth_response_status snd_conv)
  with login_sound[OF sample_state_reachable(2,1) surjective_pairing, of sample_env sample_config "[]" None sample_login]
  show ?thesis by (auto simp: sample_login_def)
qed

definition sample_query :: OauthCallbackQuery where
  "sample_query = \<lparr>cq_code = Some ''code'', cq_state = Some ''st'', cq_error = None, cq_error_description = None\<rparr>"

lemma sample_query_parts: "cq_code sample_query = Some ''code''" "cq_state sample_query = Some ''st''" "cq_error sample_query = None"
  by (simp_all add: sample_query_def)

definition sample_identity :: FederatedIdentity where
  "sample_identity = \<lparr>fi_subject = ''42'', fi_email = ''cy@x.org'', fi_email_verified = True, fi_display_name = None\<rparr>"

lemma sample_exchange:
  "exchange_and_fetch_identity (en_client sample_env) sample_provider uri ''code'' ''v'' = Ok sample_identity"
  "allows_email sample_provider (fi_email sample_identity)" "fi_email_verified sample_identity"
  by (simp add: exchange_and_fetch_identity_def sample_env_def sample_client_def parse_token_response_def and_then_def ok_or_def sample_provider_def
      fetch_oidc_userinfo_def get_json_def oidc_identity_def str_claim_def json_get_def sample_identity_def as_str_def) code_simp+

text \<open>The steps of a callback that creates an account, one after the other.\<close>

lemma callback_created:
  assumes "cq_error q = None" "cq_code q = Some code" "cq_state q = Some state" "bt_get (cf_oauth_providers C) p = Some provider"
    "cf_oauth C = Some oauth" "as_store st = Some A" "consume_oauth_authorization state (en_clock E 0) A = (A1, Some a)" "oa_provider a = p"
    "exchange_and_fetch_identity (en_client E) provider (redirect_uri oauth p) code (oa_pkce_verifier a) = Ok i"
    "allows_email provider (fi_email i)" "fi_email_verified i" "cf_registration_enabled C"
    "resolve_federated_identity (en_uuid E 1) (en_uuid E 2) (en_clock E 1) p (fi_subject i) (fi_email i) True
       (truncate_str (organization_stem i) 100 @ '' workspace'') A1 = (A2, Ok l)"
    "us_status (fl_user l) = ''active''" "fl_outcome l = FedCreated org" "issue_session E C (us_id (fl_user l)) org A2 = (A3, Ok t)"
  shows "\<exists>B. as_store (fst (api_oauth_callback E C headers p q st)) = Some B \<and> ac_sessions B = ac_sessions A3"
  using assms
  by (simp add: api_oauth_callback_def Let_def api_store_def ok_or_def admit_identity_def finish_oauth_session_def with_session_def api_audit_as_store)

lemma Ok_pair: "case snd r of Ok x \<Rightarrow> P x | Err e \<Rightarrow> False \<Longrightarrow> \<exists>a x. r = (a, Ok x) \<and> P x"
  by (cases r) (auto split: sum.splits)

theorem oauth_callback_single_use_witness:
  "let st' = fst (api_oauth_callback sample_env sample_config [] ''idp'' sample_query sample_state)
   in ac_sessions (the (as_store st')) \<noteq> ac_sessions (the (as_store sample_state)) \<and>
      as_store (fst (api_oauth_callback sample_env sample_config [] ''idp'' sample_query st')) = as_store st'"
proof -
  let ?E = sample_env and ?A = "the (as_store sample_state)" and ?i = sample_identity
  let ?st' = "fst (api_oauth_callback ?E sample_config [] ''idp'' sample_query sample_state)"
  let ?c = "consume_oauth_authorization ''st'' (en_clock ?E 0) ?A"
  let ?r = "\<lambda>A1. resolve_federated_identity (en_uuid ?E 1) (en_uuid ?E 2) (en_clock ?E 1) ''idp'' (fi_subject ?i) (fi_email ?i) True
    (truncate_str (organization_stem ?i) 100 @ '' workspace'') A1"
  let ?s = "\<lambda>A2. issue_session ?E sample_config (en_uuid ?E 1) (en_uuid ?E 2) A2"
  have "case ?c of (A1, Some a) \<Rightarrow> oa_provider a = ''idp'' \<and> oa_pkce_verifier a = ''v'' | _ \<Rightarrow> False" by code_simp
  then obtain A1 a where c: "?c = (A1, Some a)" "oa_provider a = ''idp''" "oa_pkce_verifier a = ''v''" by (auto split: prod.splits option.splits)
  have "case snd (?r (fst ?c)) of Ok l \<Rightarrow> us_id (fl_user l) = en_uuid ?E 1 \<and> us_status (fl_user l) = ''active'' \<and>
      fl_outcome l = FedCreated (en_uuid ?E 2) | Err e \<Rightarrow> False" by code_simp
  from Ok_pair[OF this[unfolded c(1) fst_conv]] obtain A2 l where l: "?r A1 = (A2, Ok l)" "us_id (fl_user l) = en_uuid ?E 1"
    "us_status (fl_user l) = ''active''" "fl_outcome l = FedCreated (en_uuid ?E 2)" by blast
  have "case snd (?s (fst (?r (fst ?c)))) of Ok t \<Rightarrow> True | Err e \<Rightarrow> False" by code_simp
  from Ok_pair[OF this[unfolded c(1) fst_conv l(1)]] obtain A3 t where t: "?s A2 = (A3, Ok t)" by blast
  have "length (ac_sessions (fst (?s (fst (?r (fst ?c)))))) \<noteq> length (ac_sessions ?A)" by code_simp
  then have ne: "ac_sessions A3 \<noteq> ac_sessions ?A" unfolding c(1) fst_conv l(1) t by metis
  have prov: "bt_get (cf_oauth_providers sample_config) ''idp'' = Some sample_provider" "cf_registration_enabled sample_config"
    "cf_oauth sample_config = Some \<lparr>oc_public_url = ''https://hub'', oc_providers = []\<rparr>"
    by (simp_all add: sample_config_def bt_get_def)
  obtain B where B: "as_store ?st' = Some B" "ac_sessions B = ac_sessions A3"
    using callback_created[OF sample_query_parts(3,1,2) prov(1,3) sample_state_reachable(2) c(1,2) _ sample_exchange(2,3) prov(2) l(1,3,4)]
      sample_exchange(1) c(3) l(2) t by metis
  then have diff: "ac_sessions B \<noteq> ac_sessions (the (as_store sample_state))" using ne by simp
  from oauth_callback_single_use[OF sample_state_reachable(2,1) surjective_pairing B(1) diff]
  have "as_store (fst (api_oauth_callback sample_env sample_config [] ''idp'' sample_query ?st')) = Some B" by blast
  with diff B(1) show ?thesis by (simp add: Let_def)
qed

theorem cursor_roundtrip_witness:
  "decode_created_id_cursor sample_env (encode_created_id_cursor sample_env (- 5) ''job-1'') = Ok (- 5, ''job-1'') \<and>
   decode_device_cursor sample_env (encode_device_cursor sample_env ''acme'' ''gpu'' ''own'') = Ok (''acme'', ''gpu'', ''own'')"
proof -
  have "\<forall>bs. en_b64_decode sample_env (as_bytes (en_b64_encode sample_env bs)) = Some bs"
    by (simp add: sample_env_def as_bytes_of_bytes)
  moreover have "cursor_part ''job-1''" "cursor_part ''acme''" "cursor_part ''gpu''" "cursor_part ''own''" by code_simp+
  moreover have "i64_min \<le> - 5" "- 5 \<le> i64_max" by code_simp+
  ultimately show ?thesis using cursor_roundtrip[of sample_env "- 5" "''job-1''" "''gpu''" "''own''"]
    cursor_roundtrip[of sample_env "- 5" "''acme''" "''gpu''" "''own''"] by blast
qed

end
