(* ===== verification/Hub_Jobs.thy ===== *)
theory Hub_Jobs
  imports Hub_Dispatch Api_Shared
begin

text \<open>
  What a consumer does with jobs, \<open>apps/nagisalake-hub/src/hub/jobs.rs\<close>: the pages of the list and their cursors, one
  job from the resident data, the read cache or the store, and cancellation, which asks the worker when it is
  connected and otherwise ends the job here. \<open>hub_env\<close> adds to the environment of the API what these handlers
  draw from outside: the JSON codec of the columns, the object store, and how the command channel behaves (whether it took
  the message in time, and what came back). The three steps of a command run one after the other.
\<close>

record hub_env =
  he_api :: api_env
  he_codec :: json_codec
  he_objects :: object_store
  he_sent :: bool
  he_ack :: AckOutcome

subsection \<open>Lists\<close>

definition JOBS_PAGE_DEFAULT :: i64 where "JOBS_PAGE_DEFAULT = 50"
definition JOBS_PAGE_MAX :: i64 where "JOBS_PAGE_MAX = 200"

definition encode_job_cursor :: "api_env \<Rightarrow> i64 \<Rightarrow> string \<Rightarrow> string" where
  "encode_job_cursor E created_at i = en_b64_encode E (as_bytes (show_i64 created_at @ '':'' @ i))"

definition decode_job_cursor :: "api_env \<Rightarrow> string \<Rightarrow> (HubError, i64 \<times> string) result" where
  "decode_job_cursor E cursor =
     (let invalid = InvalidRequest ''cursor is not valid''
      in case en_b64_decode E (as_bytes cursor) of
           None \<Rightarrow> Err invalid
         | Some raw \<Rightarrow>
             if \<not> utf8_valid raw then Err invalid
             else (case split_once (CHR '':'') (of_bytes raw) of
                     None \<Rightarrow> Err invalid
                   | Some (created_at, i) \<Rightarrow> and_then (ok_or invalid (parse_i64 created_at)) (\<lambda>t. Ok (t, i))))"

text \<open>A stable sort, newest first.\<close>

definition jobs_from_cache :: "Principal \<Rightarrow> AppState \<Rightarrow> JobSummary list" where
  "jobs_from_cache p A =
     rev (sort_key (\<lambda>s. (js_created_at_unix_ms s, js_id s))
       (rev (map (\<lambda>j. summary_of_view (hj_view j))
         (filter (\<lambda>j. hj_organization_id j = pc_organization_id p) (hm_values (hd_jobs (st_data A)))))))"

definition jobs_page_for_principal ::
  "hub_env \<Rightarrow> Principal \<Rightarrow> i64 option \<Rightarrow> string option \<Rightarrow> AppState \<Rightarrow> (HubError, JobSummary list \<times> string option) result" where
  "jobs_page_for_principal H p limit cursor A =
     (let limit = min (max (case_option JOBS_PAGE_DEFAULT id limit) 1) JOBS_PAGE_MAX
      in case st_store A of
           None \<Rightarrow> Ok (take (nat limit) (jobs_from_cache p A), None)
         | Some db \<Rightarrow>
             and_then (case cursor of
                         None \<Rightarrow> Ok None
                       | Some c \<Rightarrow> and_then (decode_job_cursor (he_api H) c) (\<lambda>after. Ok (Some after))) (\<lambda>after.
               let rows = jobs_page (pc_organization_id p) (limit + 1) after db;
                   has_more = length rows > nat limit;
                   rows = (if has_more then butlast rows else rows);
                   next_cursor = (if has_more \<and> rows \<noteq> []
                      then Some (encode_job_cursor (he_api H) (j_created_at (last rows)) (j_id (last rows))) else None)
               in Ok (map (summary_of_stored (he_codec H)) rows, next_cursor)))"

subsection \<open>One job\<close>

text \<open>The resident copy, when it is one of the caller's organization.\<close>

definition resident_job :: "string \<Rightarrow> string \<Rightarrow> AppState \<Rightarrow> HubJobRecord option" where
  "resident_job org job_id A =
     (case hm_get (hd_jobs (st_data A)) job_id of
        None \<Rightarrow> None
      | Some job \<Rightarrow> if hj_organization_id job = org then Some job else None)"

definition job_for_principal ::
  "hub_env \<Rightarrow> nat \<Rightarrow> Principal \<Rightarrow> string \<Rightarrow> AppState \<Rightarrow> AppState \<times> (HubError, JobView) result" where
  "job_for_principal H inst p job_id A =
     (let org = pc_organization_id p
      in case resident_job org job_id A of
           Some job \<Rightarrow> (A, Ok (hj_view job))
         | None \<Rightarrow>
             (case cached_job inst org job_id (st_read_cache A) of
                (c, Some view) \<Rightarrow> (A\<lparr>st_read_cache := c\<rparr>, Ok view)
              | (c, None) \<Rightarrow>
                  let A = A\<lparr>st_read_cache := c\<rparr>
                  in (case Option.bind (st_store A) (\<lambda>db. map_option (\<lambda>j. (db, j)) (db_job org job_id db)) of
                        None \<Rightarrow> (A, Err (HubNotFound ''job''))
                      | Some (db, stored) \<Rightarrow>
                          (case job_view_from_stored (he_codec H) stored (events_for_job org job_id db) of
                             Err e \<Rightarrow> (A, Err e)
                           | Ok view \<Rightarrow>
                               (if is_terminal (jv_state view)
                                then A\<lparr>st_read_cache := cache_job inst org job_id view c\<rparr> else A, Ok view)))))"

definition job_state_for :: "nat \<Rightarrow> string \<Rightarrow> string \<Rightarrow> AppState \<Rightarrow> AppState \<times> (HubError, JobState) result" where
  "job_state_for inst org job_id A =
     (case resident_job org job_id A of
        Some job \<Rightarrow> (A, Ok (jv_state (hj_view job)))
      | None \<Rightarrow>
          (case cached_job inst org job_id (st_read_cache A) of
             (c, Some view) \<Rightarrow> (A\<lparr>st_read_cache := c\<rparr>, Ok (jv_state view))
           | (c, None) \<Rightarrow>
               (A\<lparr>st_read_cache := c\<rparr>,
                case Option.bind (st_store A) (db_job org job_id) of
                  None \<Rightarrow> Err (HubNotFound ''job'')
                | Some stored \<Rightarrow> parse_job_state (j_state stored))))"

subsection \<open>Cancellation\<close>

definition can_cancel :: "Principal \<Rightarrow> string option \<Rightarrow> bool" where
  "can_cancel p actor_user_id \<longleftrightarrow>
     principal_allows p JobsCancelAny \<or> (principal_allows p JobsCancelOwn \<and> pc_user_id p = actor_user_id)"

definition principal_can_cancel_job :: "Principal \<Rightarrow> HubJobRecord \<Rightarrow> bool" where
  "principal_can_cancel_job p record \<longleftrightarrow> can_cancel p (hj_actor_user_id record)"

fun principal_kind_name :: "PrincipalKind \<Rightarrow> string" where
  "principal_kind_name BrowserSession = ''browser_session''"
| "principal_kind_name ApiKey = ''api_key''"
| "principal_kind_name WorkerCredentialKind = ''worker_credential''"
| "principal_kind_name LegacyToken = ''legacy_token''"

definition cancel_in_store :: "string \<Rightarrow> HubJobRecord \<Rightarrow> string \<Rightarrow> i64 \<Rightarrow> Db \<Rightarrow> Db \<times> bool" where
  "cancel_in_store job_id current message now db =
     (if jv_state (hj_view current) = Queued
      then cancel_queued_job (hj_organization_id current) job_id now db
      else update_job_if_current
        \<lparr>cu_organization_id = hj_organization_id current, cu_id = job_id,
         cu_attempt = uint (dj_attempt (hj_dispatch current)),
         cu_expected_state = job_state_name (jv_state (hj_view current)),
         cu_expected_last_event = u64_to_i64_or_max (hj_last_event current),
         cu_state = Some ''cancelled'', cu_error = Some message, cu_now = now\<rparr> db)"

text \<open>
  The end of a local cancellation, under the write lock: the resident copy must still be the one that was
  compared with the store.
\<close>

definition cancel_resident ::
  "string \<Rightarrow> HubJobRecord \<Rightarrow> string \<Rightarrow> i64 \<Rightarrow> AppState \<Rightarrow> AppState \<times> (HubError, JobView) result" where
  "cancel_resident job_id current message now A =
     (case hm_get (hd_jobs (st_data A)) job_id of
        None \<Rightarrow> (A, Err (Conflict ''job advanced while cancellation was being applied''))
      | Some job \<Rightarrow>
          if dj_attempt (hj_dispatch job) \<noteq> dj_attempt (hj_dispatch current) \<or>
             jv_state (hj_view job) \<noteq> jv_state (hj_view current) \<or> hj_last_event job \<noteq> hj_last_event current
          then (A, Err (Conflict ''job advanced while cancellation was being applied''))
          else
            let view = (hj_view job)\<lparr>jv_state := Cancelled, jv_error := Some message,
                  jv_updated_at_unix_ms := max (jv_updated_at_unix_ms (hj_view job)) now\<rparr>;
                jobs = hd_jobs (st_data A)
            in (A\<lparr>st_data := (st_data A)\<lparr>hd_jobs :=
                    (if st_store A \<noteq> None then hm_remove job_id jobs else hm_insert job_id (job\<lparr>hj_view := view\<rparr>) jobs)\<rparr>\<rparr>,
                Ok view))"

definition cancel_message :: "JobState \<Rightarrow> string" where
  "cancel_message s =
     (if s = Queued then ''cancelled before worker dispatch'' else ''cancelled while the worker was disconnected'')"

definition cancel_job_locally ::
  "i64 \<Rightarrow> HubJobRecord \<Rightarrow> AppState \<Rightarrow> AppState \<times> (HubError, JobView) result" where
  "cancel_job_locally now record A =
     (let job_id = jv_id (hj_view record)
      in case hm_get (hd_jobs (st_data A)) job_id of
           None \<Rightarrow> (A, Err (Conflict ''job changed while cancellation was pending''))
         | Some current \<Rightarrow>
             if is_terminal (jv_state (hj_view current)) then (A, Ok (hj_view current))
             else
               let message = cancel_message (jv_state (hj_view current));
                   (A1, cancelled) =
                     (case st_store A of
                        None \<Rightarrow> (A, True)
                      | Some db \<Rightarrow> let (db', r) = cancel_in_store job_id current message now db in (A\<lparr>st_store := Some db'\<rparr>, r))
               in if \<not> cancelled then (A1, Err (Conflict ''job advanced while cancellation was being committed''))
                  else cancel_resident job_id current message now A1)"

definition cancel_command :: "string \<Rightarrow> string \<Rightarrow> CancelJob" where
  "cancel_command command_id job_id =
     \<lparr>cj_command_id = command_id, cj_job_id = job_id, cj_reason = ''consumer requested cancellation''\<rparr>"

definition send_job_cancellation ::
  "hub_env \<Rightarrow> HubJobRecord \<Rightarrow> AppState \<Rightarrow> AppState \<times> (HubError, JobView) result" where
  "send_job_cancellation H record A =
     (let now = en_clock (he_api H) 1; worg = hj_worker_organization_id record; wid = jv_worker_id (hj_view record);
          command_id = en_uuid (he_api H) 1
      in if jv_state (hj_view record) = Queued then cancel_job_locally now record A
         else (case current_session_id (st_sessions A) worg wid of
                 None \<Rightarrow> cancel_job_locally now record A
               | Some session_id \<Rightarrow>
                   (case send_command worg wid session_id command_id (HCancelJob (cancel_command command_id (jv_id (hj_view record))))
                           (he_sent H) (he_ack H) (st_sessions A) of
                      (R, answer) \<Rightarrow>
                        let A = A\<lparr>st_sessions := R\<rparr>
                        in case answer of
                             Ok ack \<Rightarrow>
                               if ca_accepted ack then (A, Ok (hj_view record))
                               else (A, Err (Conflict (if ca_message ack = [] then ''worker rejected cancellation'' else ca_message ack)))
                           | Err (Conflict _) \<Rightarrow> cancel_job_locally now record A
                           | Err (Unavailable _) \<Rightarrow> cancel_job_locally now record A
                           | Err e \<Rightarrow> (A, Err e))))"

definition late_cancellation :: HubError where
  "late_cancellation = Conflict ''job cannot be cancelled after output upload begins''"

definition foreign_cancellation :: HubError where
  "foreign_cancellation = Forbidden ''role can only cancel jobs created by the same user''"

text \<open>A job that is not resident: finished, still in the backlog, or not there at all.\<close>

definition cancel_stored_job ::
  "hub_env \<Rightarrow> Principal \<Rightarrow> string \<Rightarrow> AppState \<Rightarrow> AppState \<times> (HubError, JobView) result" where
  "cancel_stored_job H p job_id A =
     (let org = pc_organization_id p
      in case Option.bind (st_store A) (\<lambda>db. map_option (\<lambda>j. (db, j)) (db_job org job_id db)) of
           None \<Rightarrow> (A, Err (HubNotFound ''job''))
         | Some (db, stored) \<Rightarrow>
             if j_state stored \<noteq> ''queued'' then (A, Err late_cancellation)
             else if \<not> can_cancel p (j_actor_user_id stored) then (A, Err foreign_cancellation)
             else (case cancel_queued_job org job_id (en_clock (he_api H) 1) db of
                     (db', False) \<Rightarrow>
                       (A\<lparr>st_store := Some db'\<rparr>, Err (Conflict ''job advanced while cancellation was being committed''))
                   | (db', True) \<Rightarrow>
                       (A\<lparr>st_store := Some db'\<rparr>,
                        case db_job org job_id db' of
                          None \<Rightarrow> Err (HubNotFound ''job'')
                        | Some row \<Rightarrow> job_view_from_stored (he_codec H) row (events_for_job org job_id db'))))"

definition cancel_job_for_principal ::
  "hub_env \<Rightarrow> Principal \<Rightarrow> string \<Rightarrow> AppState \<Rightarrow> AppState \<times> (HubError, JobView) result" where
  "cancel_job_for_principal H p job_id A =
     (case resident_job (pc_organization_id p) job_id A of
        None \<Rightarrow> cancel_stored_job H p job_id A
      | Some record \<Rightarrow>
          if \<not> principal_can_cancel_job p record then (A, Err foreign_cancellation)
          else if is_terminal (jv_state (hj_view record)) \<or> jv_state (hj_view record) = Uploading
          then (A, Err late_cancellation)
          else send_job_cancellation H record A)"

subsection \<open>Legacy endpoints\<close>

text \<open>
  The endpoints under \<open>/v1\<close> know one consumer, who holds the configured token and owns the legacy organization. A
  response is the status and the value of a success, or the error that \<open>api_error\<close> shows.
\<close>

record hub_config =
  hc_consumer_token :: "string option"
  hc_legacy_organization_id :: string
  hc_max_artifact_bytes :: u64

definition legacy_principal :: "hub_config \<Rightarrow> Principal" where
  "legacy_principal C =
     \<lparr>pc_kind = LegacyToken, pc_actor_id = ''legacy_consumer'', pc_user_id = None,
      pc_organization_id = hc_legacy_organization_id C, pc_role = Owner, pc_scopes = []\<rparr>"

definition as_consumer ::
  "hub_config \<Rightarrow> HeaderMap \<Rightarrow> (AppState \<Rightarrow> AppState \<times> (HubError, nat \<times> 'a) result) \<Rightarrow> AppState \<Rightarrow> AppState \<times> (HubError, nat \<times> 'a) result" where
  "as_consumer C headers handle A =
     (case require_consumer (hm_get headers ''authorization'') (hc_consumer_token C) of
        Err e \<Rightarrow> (A, Err e)
      | Ok _ \<Rightarrow> handle A)"

definition with_status :: "nat \<Rightarrow> ('s \<times> (HubError, 'a) result) \<Rightarrow> 's \<times> (HubError, nat \<times> 'a) result" where
  "with_status status r = (fst r, map_ok (Pair status) (snd r))"

definition legacy_get_job ::
  "hub_env \<Rightarrow> hub_config \<Rightarrow> HeaderMap \<Rightarrow> string \<Rightarrow> AppState \<Rightarrow> AppState \<times> (HubError, nat \<times> JobView) result" where
  "legacy_get_job H C headers job_id =
     as_consumer C headers (\<lambda>A. with_status 200 (job_for_principal H (en_instant (he_api H) 0) (legacy_principal C) job_id A))"

definition legacy_cancel_job ::
  "hub_env \<Rightarrow> hub_config \<Rightarrow> HeaderMap \<Rightarrow> string \<Rightarrow> AppState \<Rightarrow> AppState \<times> (HubError, nat \<times> JobView) result" where
  "legacy_cancel_job H C headers job_id =
     as_consumer C headers (\<lambda>A.
       case resident_job (hc_legacy_organization_id C) job_id A of
         None \<Rightarrow> (A, Err (HubNotFound ''job''))
       | Some record \<Rightarrow>
           if is_terminal (jv_state (hj_view record)) \<or> jv_state (hj_view record) = Uploading
           then (A, Err late_cancellation)
           else with_status 200 (send_job_cancellation H record A))"

end
