(* ===== verification/Hub_Submit.thy ===== *)
theory Hub_Submit
  imports Hub_Jobs
begin

text \<open>
  Submission of jobs and transfer of artifacts, \<open>apps/nagisalake-hub/src/hub/api.rs\<close>, with the query of
  \<open>crates/nagisalake-hub-store/src/devices.rs\<close> that says which devices a user may use. A submission looks up its key, collects
  its inputs, reserves a slot on an accessible worker, commits the job with quota and device policy in one
  transaction, and only then sends the command. The deletion of a stray object is a call to the object store
  whose outcome the code ignores.
\<close>

subsection \<open>Devices\<close>

definition parse_workflow_rules :: "json_codec \<Rightarrow> string \<Rightarrow> DeviceWorkflowRule list" where
  "parse_workflow_rules J v = (case rules_dec J v of None \<Rightarrow> [] | Some rules \<Rightarrow> rules)"

definition grant_active :: "i64 \<Rightarrow> device_grant_row \<Rightarrow> bool" where
  "grant_active now g \<longleftrightarrow>
     g_revoked_at g = None \<and> (case g_expires_at g of None \<Rightarrow> True | Some t \<Rightarrow> t > now)"

definition device_access_for_user :: "json_codec \<Rightarrow> string \<Rightarrow> string \<Rightarrow> i64 \<Rightarrow> Db \<Rightarrow> DeviceAccess list" where
  "device_access_for_user J user org now db =
     sort_key (\<lambda>d. (dv_device_organization_id d, dv_device_id d))
       (map (\<lambda>((worg, wid), w).
           \<lparr>dv_device_organization_id = worg, dv_device_id = wid, dv_access_kind = ''organization_device'',
            dv_allowed_workflows = parse_workflow_rules J ''[]'', dv_max_concurrent_jobs = None, dv_grant_expires_at = None\<rparr>)
          (filter (\<lambda>((worg, wid), w). worg = org) (db_workers db)) @
        List.map_filter (\<lambda>((worg, wid), w).
           if worg = org then None
           else (case hm_get (db_device_grants db) (worg, wid, user) of
                   None \<Rightarrow> None
                 | Some g \<Rightarrow>
                     if grant_active now g
                     then Some \<lparr>dv_device_organization_id = worg, dv_device_id = wid, dv_access_kind = ''shared_pool_device'',
                                dv_allowed_workflows = parse_workflow_rules J (g_allowed_workflows_json g),
                                dv_max_concurrent_jobs = g_max_concurrent_jobs g, dv_grant_expires_at = g_expires_at g\<rparr>
                     else None)) (db_workers db))"

definition can_use_device :: "string \<Rightarrow> string \<Rightarrow> string \<Rightarrow> string \<Rightarrow> i64 \<Rightarrow> Db \<Rightarrow> bool" where
  "can_use_device user org device_org device now db \<longleftrightarrow>
     (org = device_org \<and> hm_contains (db_workers db) (device_org, device)) \<or>
     (case hm_get (db_device_grants db) (device_org, device, user) of None \<Rightarrow> False | Some g \<Rightarrow> grant_active now g)"

definition device_access_for_principal ::
  "hub_env \<Rightarrow> Principal \<Rightarrow> AppState \<Rightarrow> AppState \<times> (HubError, DeviceAccess list) result" where
  "device_access_for_principal H p A =
     (case pc_user_id p of
        None \<Rightarrow> (A, Err (Forbidden ''device access requires a user identity''))
      | Some user \<Rightarrow>
          (case st_store A of
             None \<Rightarrow> (A, Err (Unavailable ''PostgreSQL control plane is not configured''))
           | Some db \<Rightarrow>
               let inst = en_instant (he_api H) 0; org = pc_organization_id p
               in case cached_device_access inst org user (st_read_cache A) of
                    (c, Some devices) \<Rightarrow> (A\<lparr>st_read_cache := c\<rparr>, Ok devices)
                  | (c, None) \<Rightarrow>
                      let devices = device_access_for_user (he_codec H) user org (en_clock (he_api H) 0) db
                      in (A\<lparr>st_read_cache := cache_device_access inst org user devices c\<rparr>, Ok devices)))"

text \<open>The nested map by organization and device is one map by the pair.\<close>

definition allowed_devices :: "DeviceAccess list \<Rightarrow> (key2, DeviceAccess) hash_map" where
  "allowed_devices devices =
     foldl (\<lambda>m d. hm_insert (dv_device_organization_id d, dv_device_id d) d m) [] devices"

definition accessible_workers ::
  "DeviceAccess list \<Rightarrow> SessionRegistry \<Rightarrow> WorkerView list" where
  "accessible_workers devices R =
     (let allowed = allowed_devices devices; access = (\<lambda>w. hm_get allowed (wv_organization_id w, wv_worker_id w))
      in list_matching_workflows (\<lambda>w. access w \<noteq> None)
           (\<lambda>w wf. case access w of
                     None \<Rightarrow> False
                   | Some d \<Rightarrow> device_workflow_allowed (dv_allowed_workflows d) (wc_id wf) (wc_version wf)) R)"

definition accessible_workers_for ::
  "hub_env \<Rightarrow> Principal \<Rightarrow> AppState \<Rightarrow> AppState \<times> (HubError, WorkerView list) result" where
  "accessible_workers_for H p A =
     (case device_access_for_principal H p A of
        (A, Err e) \<Rightarrow> (A, Err e)
      | (A, Ok devices) \<Rightarrow> (A, Ok (accessible_workers devices (st_sessions A))))"

subsection \<open>The catalog of connected workers\<close>

record WorkflowWorkerView =
  ww_organization_id :: string
  ww_worker_id :: string
  ww_session_id :: string
  ww_labels :: "(string, string) btree_map"
  ww_parallelism :: u16
  ww_queue_depth :: u16
  ww_active_jobs :: u16
  ww_queued_jobs :: u16
  ww_available :: bool

record WorkflowView =
  wf_id :: string
  wf_version :: string
  wf_output_types :: "string list"
  wf_manifest :: "WorkflowManifest option"
  wf_manifest_consistent :: bool
  wf_workers :: "WorkflowWorkerView list"

definition worker_availability :: "WorkerView \<Rightarrow> WorkflowWorkerView" where
  "worker_availability w =
     (let c = wv_capabilities w
      in \<lparr>ww_organization_id = wv_organization_id w, ww_worker_id = wv_worker_id w, ww_session_id = wv_session_id w,
          ww_labels = cap_labels c, ww_parallelism = cap_parallelism c, ww_queue_depth = cap_queue_depth c,
          ww_active_jobs = wv_active_jobs w, ww_queued_jobs = wv_queued_jobs w,
          ww_available = ((ucast (wv_active_jobs w) :: u32) + ucast (wv_queued_jobs w)
                          < ucast (cap_parallelism c) + ucast (cap_queue_depth c))\<rparr>)"

definition aggregate_capability ::
  "WorkflowWorkerView \<Rightarrow> WorkflowCapability \<Rightarrow> (key2, WorkflowView) btree_map \<Rightarrow> (key2, WorkflowView) btree_map" where
  "aggregate_capability availability c m =
     (let entry = (case bt_get m (wc_id c, wc_version c) of
                     Some e \<Rightarrow> e
                   | None \<Rightarrow> \<lparr>wf_id = wc_id c, wf_version = wc_version c, wf_output_types = wc_output_types c,
                              wf_manifest = wc_manifest c, wf_manifest_consistent = True, wf_workers = []\<rparr>);
          entry = (if wf_output_types entry \<noteq> wc_output_types c \<or> wf_manifest entry \<noteq> wc_manifest c
                   then entry\<lparr>wf_manifest_consistent := False\<rparr> else entry)
      in bt_insert (wc_id c, wc_version c) (entry\<lparr>wf_workers := wf_workers entry @ [availability]\<rparr>) m)"

definition aggregate_workflows :: "WorkerView list \<Rightarrow> WorkflowView list" where
  "aggregate_workflows workers =
     map (\<lambda>w. w\<lparr>wf_workers := sort_key ww_worker_id (wf_workers w)\<rparr>)
       (bt_values (foldl (\<lambda>m w. foldl (\<lambda>m c. aggregate_capability (worker_availability w) c m) m
          (cap_workflows (wv_capabilities w))) [] workers))"

definition legacy_list_workers ::
  "hub_config \<Rightarrow> HeaderMap \<Rightarrow> AppState \<Rightarrow> AppState \<times> (HubError, nat \<times> WorkerView list) result" where
  "legacy_list_workers C headers =
     as_consumer C headers (\<lambda>A. (A, Ok (200, list_for_org (hc_legacy_organization_id C) (st_sessions A))))"

definition legacy_list_workflows ::
  "hub_config \<Rightarrow> HeaderMap \<Rightarrow> AppState \<Rightarrow> AppState \<times> (HubError, nat \<times> WorkflowView list) result" where
  "legacy_list_workflows C headers =
     as_consumer C headers (\<lambda>A. (A, Ok (200, aggregate_workflows (list_for_org (hc_legacy_organization_id C) (st_sessions A)))))"

subsection \<open>Health\<close>

text \<open>
  \<open>ping_ok\<close>: the store answered in time; \<open>storage\<close>: whether object storage is configured, and then whether its check passed in time.
\<close>

record HealthResponse =
  hr_status :: string
  hr_connected_workers :: nat
  hr_database :: string
  hr_object_storage :: string
  hr_ready :: bool

definition health_snapshot :: "bool \<Rightarrow> bool option \<Rightarrow> AppState \<Rightarrow> HealthResponse" where
  "health_snapshot ping_ok storage A =
     (let database = (case st_store A of None \<Rightarrow> ''not_configured'' | Some _ \<Rightarrow> if ping_ok then ''ok'' else ''error'');
          object_storage = (case storage of None \<Rightarrow> ''not_configured'' | Some passed \<Rightarrow> if passed then ''ok'' else ''error'')
      in \<lparr>hr_status = (if database = ''error'' \<or> object_storage = ''error'' then ''degraded'' else ''ok''),
          hr_connected_workers = count_sessions (st_sessions A), hr_database = database, hr_object_storage = object_storage,
          hr_ready = (database = ''ok'' \<and> object_storage = ''ok'')\<rparr>)"

definition ready_response :: "bool \<Rightarrow> bool option \<Rightarrow> AppState \<Rightarrow> nat \<times> HealthResponse" where
  "ready_response ping_ok storage A =
     (let snapshot = health_snapshot ping_ok storage A; ready = hr_ready snapshot
      in (if ready then 200 else 503, snapshot\<lparr>hr_status := (if ready then ''ready'' else ''not_ready'')\<rparr>))"

subsection \<open>Uploads\<close>

record CreateUploadRequest =
  cr_name :: string
  cr_content_type :: string
  cr_size_bytes :: u64
  cr_sha256 :: string

record CompleteUploadRequest =
  cq_artifact_id :: string
  cq_size_bytes :: u64
  cq_sha256 :: string

record CreateUploadResponse =
  cs_artifact :: ArtifactView
  cs_upload :: PresignedRequest

record DownloadResponse =
  dl_artifact :: ArtifactView
  dl_download :: PresignedRequest

definition input_object_key :: "string \<Rightarrow> string \<Rightarrow> string \<Rightarrow> string" where
  "input_object_key org artifact_id name = ''organizations/'' @ org @ ''/inputs/'' @ artifact_id @ ''/'' @ safe_filename name"

definition pending_artifact :: "string \<Rightarrow> string \<Rightarrow> CreateUploadRequest \<Rightarrow> ArtifactRecord" where
  "pending_artifact org artifact_id req =
     \<lparr>arec_organization_id = org,
      arec_view = \<lparr>av_id = artifact_id, av_job_id = None, av_name = cr_name req, av_content_type = cr_content_type req,
        av_size_bytes = cr_size_bytes req, av_sha256 = ascii_lowercase (cr_sha256 req), av_state = PendingUpload\<rparr>,
      arec_object_key = input_object_key org artifact_id (cr_name req)\<rparr>"

text \<open>After the reservation of the bytes, which every later failure gives back.\<close>

definition start_upload ::
  "hub_env \<Rightarrow> string \<Rightarrow> CreateUploadRequest \<Rightarrow> AppState \<Rightarrow> AppState \<times> (HubError, CreateUploadResponse) result" where
  "start_upload H org req A =
     (let artifact_id = en_uuid (he_api H) 1; now = en_clock (he_api H) 1; record = pending_artifact org artifact_id req;
          undo = (\<lambda>A. fst (state_release_storage now org (u64_to_i64_or_max (cr_size_bytes req)) A))
      in case os_presign_put (he_objects H) (arec_object_key record) (cr_content_type req) (cr_size_bytes req) (cr_sha256 req) of
           Err e \<Rightarrow> (undo A, Err (ObjectStore e))
         | Ok upload \<Rightarrow>
             (case persist_artifact (he_objects H) now record A of
                (A, Err e) \<Rightarrow> (undo A, Err e)
              | (A, Ok _) \<Rightarrow>
                  (A\<lparr>st_data := (st_data A)\<lparr>hd_artifacts := hm_insert artifact_id record (hd_artifacts (st_data A))\<rparr>\<rparr>,
                   Ok \<lparr>cs_artifact = arec_view record, cs_upload = upload\<rparr>)))"

definition validate_upload :: "hub_config \<Rightarrow> CreateUploadRequest \<Rightarrow> (HubError, unit) result" where
  "validate_upload C req =
     validate_artifact_metadata (cr_name req) (cr_content_type req) (cr_size_bytes req) (cr_sha256 req) (hc_max_artifact_bytes C)"

definition create_upload_for_principal ::
  "hub_env \<Rightarrow> hub_config \<Rightarrow> Principal \<Rightarrow> CreateUploadRequest \<Rightarrow> AppState \<Rightarrow> AppState \<times> (HubError, CreateUploadResponse) result" where
  "create_upload_for_principal H C p req A =
     (case validate_upload C req of
        Err e \<Rightarrow> (A, Err e)
      | Ok _ \<Rightarrow>
          if st_store A = None then (A, Err (Unavailable ''PostgreSQL control plane is not configured''))
          else (case state_reserve_storage (en_clock (he_api H) 0) (pc_organization_id p) (u64_to_i64_or_max (cr_size_bytes req)) A of
                  (A, Err e) \<Rightarrow> (A, Err (map_store_error e))
                | (A, Ok _) \<Rightarrow> start_upload H (pc_organization_id p) req A))"

definition legacy_create_upload ::
  "hub_env \<Rightarrow> hub_config \<Rightarrow> HeaderMap \<Rightarrow> CreateUploadRequest \<Rightarrow> AppState \<Rightarrow> AppState \<times> (HubError, nat \<times> CreateUploadResponse) result" where
  "legacy_create_upload H C headers req =
     as_consumer C headers (\<lambda>A.
       case validate_upload C req of
         Err e \<Rightarrow> (A, Err e)
       | Ok _ \<Rightarrow>
           let org = hc_legacy_organization_id C
           in case (if st_store A = None then (A, Ok ())
                    else state_reserve_storage (en_clock (he_api H) 0) org (u64_to_i64_or_max (cr_size_bytes req)) A) of
                (A, Err e) \<Rightarrow> (A, Err (map_store_error e))
              | (A, Ok _) \<Rightarrow> with_status 201 (start_upload H org req A))"

definition declaration_met :: "ObjectMetadata \<Rightarrow> CompleteUploadRequest \<Rightarrow> ArtifactView \<Rightarrow> bool" where
  "declaration_met metadata req v \<longleftrightarrow>
     om_size_bytes metadata = cq_size_bytes req \<and> cq_size_bytes req = av_size_bytes v \<and>
     eq_ignore_ascii_case (cq_sha256 req) (av_sha256 v) \<and> object_metadata_matches metadata v"

definition wrong_upload :: HubError where
  "wrong_upload = Conflict ''object size, content type, or SHA-256 does not match the upload declaration''"

definition resident_artifact :: "string \<Rightarrow> string \<Rightarrow> AppState \<Rightarrow> ArtifactRecord option" where
  "resident_artifact org artifact_id A =
     (case hm_get (hd_artifacts (st_data A)) artifact_id of
        None \<Rightarrow> None
      | Some a \<Rightarrow> if arec_organization_id a = org then Some a else None)"

definition complete_upload_for_principal ::
  "hub_env \<Rightarrow> Principal \<Rightarrow> string \<Rightarrow> CompleteUploadRequest \<Rightarrow> AppState \<Rightarrow> AppState \<times> (HubError, ArtifactView) result" where
  "complete_upload_for_principal H p artifact_id req A =
     (let now = en_clock (he_api H) 1; org = pc_organization_id p
      in if artifact_id \<noteq> cq_artifact_id req then (A, Err (InvalidRequest ''artifact id does not match path''))
         else (case resident_artifact org artifact_id A of
           None \<Rightarrow> (A, Err (HubNotFound ''artifact''))
         | Some a \<Rightarrow>
             if av_state (arec_view a) \<noteq> PendingUpload then (A, Ok (arec_view a))
             else (case os_head (he_objects H) (arec_object_key a) of
               Err e \<Rightarrow> (A, Err (ObjectStore e))
             | Ok metadata \<Rightarrow>
                 if \<not> declaration_met metadata req (arec_view a)
                 then let A = fst (state_release_storage now org (u64_to_i64_or_max (av_size_bytes (arec_view a))) A)
                      in (A\<lparr>st_data := (st_data A)\<lparr>hd_artifacts := hm_remove artifact_id (hd_artifacts (st_data A))\<rparr>\<rparr>, Err wrong_upload)
                 else
                   let completed = a\<lparr>arec_view := (arec_view a)\<lparr>av_state := Ready\<rparr>\<rparr>
                   in (case persist_artifact (he_objects H) now completed A of
                         (A, Err e) \<Rightarrow> (A, Err e)
                       | (A, Ok _) \<Rightarrow>
                           (A\<lparr>st_read_cache := invalidate_cached_artifact (arec_organization_id completed) artifact_id (st_read_cache A),
                              st_data := (st_data A)\<lparr>hd_artifacts := hm_insert artifact_id completed (hd_artifacts (st_data A))\<rparr>\<rparr>,
                            Ok (arec_view completed))))))"

text \<open>The legacy handler changes only the state of the row, and keeps a refused upload pending.\<close>

definition legacy_complete_upload ::
  "hub_env \<Rightarrow> hub_config \<Rightarrow> HeaderMap \<Rightarrow> string \<Rightarrow> CompleteUploadRequest \<Rightarrow> AppState \<Rightarrow> AppState \<times> (HubError, nat \<times> ArtifactView) result" where
  "legacy_complete_upload H C headers artifact_id req =
     as_consumer C headers (\<lambda>A.
       if artifact_id \<noteq> cq_artifact_id req then (A, Err (InvalidRequest ''artifact id does not match path''))
       else (case resident_artifact (hc_legacy_organization_id C) artifact_id A of
         None \<Rightarrow> (A, Err (HubNotFound ''artifact''))
       | Some a \<Rightarrow>
           if av_state (arec_view a) \<noteq> PendingUpload then (A, Err (Conflict ''artifact is already completed''))
           else (case os_head (he_objects H) (arec_object_key a) of
             Err e \<Rightarrow> (A, Err (ObjectStore e))
           | Ok metadata \<Rightarrow>
               if \<not> declaration_met metadata req (arec_view a) then (A, Err wrong_upload)
               else
                 let org = arec_organization_id a; now = en_clock (he_api H) 1;
                     completed = a\<lparr>arec_view := (arec_view a)\<lparr>av_state := Ready\<rparr>\<rparr>
                 in (A\<lparr>st_store := map_option (\<lambda>db. fst (set_artifact_state org artifact_id ''ready'' now db)) (st_store A),
                       st_read_cache := invalidate_cached_artifact org artifact_id (st_read_cache A),
                       st_data := (st_data A)\<lparr>hd_artifacts := hm_insert artifact_id completed (hd_artifacts (st_data A))\<rparr>\<rparr>,
                     Ok (200, arec_view completed)))))"

subsection \<open>Downloads\<close>

definition readable_artifact ::
  "hub_env \<Rightarrow> string \<Rightarrow> string \<Rightarrow> AppState \<Rightarrow> AppState \<times> (HubError, ArtifactRecord) result" where
  "readable_artifact H org artifact_id A =
     (let inst = en_instant (he_api H) 0
      in case artifact_record inst org artifact_id A of
           (A, Err e) \<Rightarrow> (A, Err e)
         | (A, Ok a) \<Rightarrow>
             if av_state (arec_view a) \<noteq> Ready then (A, Err (Conflict ''artifact is not ready''))
             else (case av_job_id (arec_view a) of
                     None \<Rightarrow> (A, Ok a)
                   | Some job_id \<Rightarrow>
                       (case job_state_for inst org job_id A of
                          (A, Err e) \<Rightarrow> (A, Err e)
                        | (A, Ok s) \<Rightarrow> (A, if s = Completed then Ok a else Err (Conflict ''output is not available yet'')))))"

definition readable_artifact_for_principal ::
  "hub_env \<Rightarrow> Principal \<Rightarrow> string \<Rightarrow> AppState \<Rightarrow> AppState \<times> (HubError, ArtifactRecord) result" where
  "readable_artifact_for_principal H p = readable_artifact H (pc_organization_id p)"

definition presigned_download :: "hub_env \<Rightarrow> ArtifactRecord \<Rightarrow> (HubError, DownloadResponse) result" where
  "presigned_download H a =
     (case os_presign_get (he_objects H) (arec_object_key a) of
        Err e \<Rightarrow> Err (ObjectStore e)
      | Ok download \<Rightarrow> Ok \<lparr>dl_artifact = arec_view a, dl_download = download\<rparr>)"

definition download_for_principal ::
  "hub_env \<Rightarrow> Principal \<Rightarrow> string \<Rightarrow> AppState \<Rightarrow> AppState \<times> (HubError, DownloadResponse) result" where
  "download_for_principal H p artifact_id A =
     (case readable_artifact_for_principal H p artifact_id A of
        (A, Err e) \<Rightarrow> (A, Err e)
      | (A, Ok a) \<Rightarrow> (A, presigned_download H a))"

definition legacy_download_artifact ::
  "hub_env \<Rightarrow> hub_config \<Rightarrow> HeaderMap \<Rightarrow> string \<Rightarrow> AppState \<Rightarrow> AppState \<times> (HubError, nat \<times> DownloadResponse) result" where
  "legacy_download_artifact H C headers artifact_id =
     as_consumer C headers (\<lambda>A.
       case readable_artifact H (hc_legacy_organization_id C) artifact_id A of
         (A, Err e) \<Rightarrow> (A, Err e)
       | (A, Ok a) \<Rightarrow> with_status 200 (A, presigned_download H a))"

subsection \<open>Submission\<close>

record SubmitJobRequest =
  sq_workflow_id :: string
  sq_workflow_version :: string
  sq_parameters :: json
  sq_input_artifact_ids :: "string list"
  sq_device_organization_id :: "string option"
  sq_device_id :: "string option"

text \<open>\<open>ser\<close> is the JSON text of the request, which only its hash depends on.\<close>

definition request_hash_of :: "api_env \<Rightarrow> (SubmitJobRequest \<Rightarrow> string option) \<Rightarrow> SubmitJobRequest \<Rightarrow> string" where
  "request_hash_of E ser req = hash_secret E (case ser req of None \<Rightarrow> ''invalid-request'' | Some text \<Rightarrow> text)"

definition validate_submission :: "SubmitJobRequest \<Rightarrow> (HubError, unit) result" where
  "validate_submission req =
     (if \<not> is_object (sq_parameters req) then Err (InvalidRequest ''parameters must be a JSON object'')
      else if trim (sq_workflow_id req) = [] \<or> trim (sq_workflow_version req) = []
      then Err (InvalidRequest ''workflow_id and workflow_version are required'')
      else Ok ())"

definition validate_device_choice :: "SubmitJobRequest \<Rightarrow> (HubError, unit) result" where
  "validate_device_choice req =
     (if (sq_device_id req \<noteq> None) \<noteq> (sq_device_organization_id req \<noteq> None)
      then Err (InvalidRequest ''device_id and device_organization_id must be provided together'')
      else Ok ())"

definition store_idempotency ::
  "string \<Rightarrow> string \<Rightarrow> string \<Rightarrow> string \<Rightarrow> string option \<Rightarrow> Db \<Rightarrow> idempotency_row option" where
  "store_idempotency org actor_kind actor_id endpoint key db =
     Option.bind key (\<lambda>k. hm_get (db_idempotency db) (org, actor_kind, actor_id, endpoint, k))"

definition key_reused :: HubError where
  "key_reused = Conflict ''idempotency key was already used for a different request''"

text \<open>The actor a key belongs to: the user, for a browser session, so that it outlives the session.\<close>

definition submission_actor :: "Principal \<Rightarrow> string" where
  "submission_actor p =
     (if pc_kind p = BrowserSession then (case pc_user_id p of None \<Rightarrow> pc_actor_id p | Some user \<Rightarrow> user) else pc_actor_id p)"

fun submit_inputs ::
  "nat \<Rightarrow> string \<Rightarrow> string list \<Rightarrow> AppState \<Rightarrow> AppState \<times> (HubError, ArtifactRecord list) result" where
  "submit_inputs inst org [] A = (A, Ok [])"
| "submit_inputs inst org (i # is) A =
     (case (case resident_artifact org i A of Some a \<Rightarrow> (A, Ok a) | None \<Rightarrow> artifact_record inst org i A) of
        (A, Err _) \<Rightarrow> (A, Err (HubNotFound (''input artifact '' @ i)))
      | (A, Ok a) \<Rightarrow>
          if av_state (arec_view a) \<noteq> Ready \<or> av_job_id (arec_view a) \<noteq> None
          then (A, Err (Conflict (''input artifact '' @ i @ '' is not ready'')))
          else (case submit_inputs inst org is A of
                  (A, Err e) \<Rightarrow> (A, Err e)
                | (A, Ok as) \<Rightarrow> (A, Ok (a # as))))"

definition presigned_inputs :: "object_store \<Rightarrow> ArtifactRecord list \<Rightarrow> (HubError, JobInput list) result" where
  "presigned_inputs os records = collect_results (map (job_input_of os) records)"

definition device_chosen :: "SubmitJobRequest \<Rightarrow> key2 list \<Rightarrow> WorkerView \<Rightarrow> bool" where
  "device_chosen req accessible w \<longleftrightarrow>
     (wv_organization_id w, wv_worker_id w) \<in> set accessible \<and>
     (case sq_device_organization_id req of None \<Rightarrow> True | Some org \<Rightarrow> org = wv_organization_id w) \<and>
     (case sq_device_id req of None \<Rightarrow> True | Some device \<Rightarrow> device = wv_worker_id w) \<and>
     offers_workflow (sq_workflow_id req) (sq_workflow_version req) w"

definition submitted_job ::
  "string \<Rightarrow> string \<Rightarrow> string \<Rightarrow> string option \<Rightarrow> SubmitJobRequest \<Rightarrow> WorkerView \<Rightarrow> string \<Rightarrow> string \<Rightarrow> JobInput list \<Rightarrow> i64 \<Rightarrow> HubJobRecord" where
  "submitted_job org actor_id actor_kind user req w command_id job_id inputs now =
     \<lparr>hj_organization_id = org, hj_actor_id = actor_id, hj_actor_kind = actor_kind, hj_actor_user_id = user,
      hj_worker_organization_id = wv_organization_id w,
      hj_view = \<lparr>jv_id = job_id, jv_workflow_id = sq_workflow_id req, jv_workflow_version = sq_workflow_version req,
        jv_parameters = sq_parameters req, jv_input_artifact_ids = sq_input_artifact_ids req, jv_output_artifact_ids = [],
        jv_worker_id = wv_worker_id w, jv_session_id = wv_session_id w, jv_state = Received, jv_progress = None,
        jv_prompt_id = None, jv_error = None, jv_events = [], jv_created_at_unix_ms = now, jv_updated_at_unix_ms = now\<rparr>,
      hj_dispatch = \<lparr>dj_command_id = command_id, dj_job_id = job_id, dj_attempt = 1, dj_workflow_id = sq_workflow_id req,
        dj_workflow_version = sq_workflow_version req, dj_parameters = sq_parameters req, dj_inputs = inputs\<rparr>,
      hj_last_event = 0\<rparr>"

definition device_admission :: "string \<Rightarrow> HubJobRecord \<Rightarrow> i64 \<Rightarrow> DeviceUseAdmission" where
  "device_admission user record now =
     \<lparr>da_organization_id = hj_organization_id record, da_user_id = user, da_device_organization_id = hj_worker_organization_id record,
      da_device_id = jv_worker_id (hj_view record), da_workflow_id = jv_workflow_id (hj_view record),
      da_workflow_version = jv_workflow_version (hj_view record), da_requested_jobs = 1, da_now = now\<rparr>"

text \<open>The resident data after the commit: the inputs are bound and the job is there.\<close>

definition claim_resident :: "string \<Rightarrow> ArtifactRecord \<Rightarrow> HubData \<Rightarrow> HubData" where
  "claim_resident job_id a d =
     (case hm_get (hd_artifacts d) (av_id (arec_view a)) of
        None \<Rightarrow> d
      | Some stored \<Rightarrow> d\<lparr>hd_artifacts := hm_insert (av_id (arec_view a))
            (stored\<lparr>arec_view := (arec_view stored)\<lparr>av_job_id := Some job_id\<rparr>\<rparr>) (hd_artifacts d)\<rparr>)"

definition publish_submission :: "HubJobRecord \<Rightarrow> ArtifactRecord list \<Rightarrow> HubData \<Rightarrow> HubData" where
  "publish_submission record inputs d =
     (let job_id = jv_id (hj_view record); d = fold (claim_resident job_id) inputs d
      in d\<lparr>hd_jobs := hm_insert job_id record (hd_jobs d)\<rparr>)"

definition deliver_submission :: "hub_env \<Rightarrow> HubJobRecord \<Rightarrow> AppState \<Rightarrow> AppState \<times> (HubError, JobView) result" where
  "deliver_submission H record A =
     (let v = hj_view record; d = hj_dispatch record; entry = (hj_organization_id record, jv_id v, 1); now = en_clock (he_api H) 2
      in case send_command (hj_worker_organization_id record) (jv_worker_id v) (jv_session_id v) (dj_command_id d) (HDispatchJob d)
              (he_sent H) (he_ack H) (st_sessions A) of
           (R, answer) \<Rightarrow>
             let A = A\<lparr>st_sessions := R\<rparr>
             in case answer of
                  Ok ack \<Rightarrow>
                    if ca_accepted ack then (outbox_delivered now entry A, Ok v)
                    else (mark_job_failed now (jv_id v) (ca_message ack) A, Err (Conflict ''worker rejected the job''))
                | Err e \<Rightarrow>
                    (outbox_error now entry (hub_error_text e) (record_dispatch_error now (jv_id v) (hub_error_text e) A), Err e))"

definition release_reservation :: "HubJobRecord \<Rightarrow> AppState \<Rightarrow> AppState" where
  "release_reservation record A =
     A\<lparr>st_sessions := release_capacity_reservation (hj_worker_organization_id record) (jv_worker_id (hj_view record))
        (jv_session_id (hj_view record)) (dj_command_id (hj_dispatch record)) (st_sessions A)\<rparr>"

text \<open>From the reserved worker on.\<close>

definition commit_submission ::
  "hub_env \<Rightarrow> Principal \<Rightarrow> string option \<Rightarrow> string \<Rightarrow> ArtifactRecord list \<Rightarrow> HubJobRecord \<Rightarrow> AppState \<Rightarrow> AppState \<times> (HubError, JobView) result" where
  "commit_submission H p key hash records record A =
     (case pc_user_id p of
        None \<Rightarrow> (A, Err (Forbidden ''device access requires a user identity''))
      | Some user \<Rightarrow>
          (case commit_job_record (he_codec H) record ''/api/v1/jobs'' key hash
                  (Some (device_admission user record (jv_created_at_unix_ms (hj_view record)))) A of
             (A, Err e) \<Rightarrow> (release_reservation record A, Err e)
           | (A, Ok (JobExisting job_id)) \<Rightarrow> job_for_principal H (en_instant (he_api H) 1) p job_id (release_reservation record A)
           | (A, Ok JobCreated) \<Rightarrow>
               deliver_submission H record (A\<lparr>st_data := publish_submission record records (st_data A)\<rparr>)))"

text \<open>From the lookup of the key on: the devices, the inputs, the worker.\<close>

definition place_submission ::
  "hub_env \<Rightarrow> Principal \<Rightarrow> string option \<Rightarrow> string \<Rightarrow> SubmitJobRequest \<Rightarrow> AppState \<Rightarrow> AppState \<times> (HubError, JobView) result" where
  "place_submission H p key hash req A =
     (case accessible_workers_for H p A of
        (A, Err e) \<Rightarrow> (A, Err e)
      | (A, Ok workers) \<Rightarrow>
     (case submit_inputs (en_instant (he_api H) 1) (pc_organization_id p) (sq_input_artifact_ids req) A of
        (A, Err e) \<Rightarrow> (A, Err e)
      | (A, Ok records) \<Rightarrow>
     (case presigned_inputs (he_objects H) records of
        Err e \<Rightarrow> (A, Err e)
      | Ok inputs \<Rightarrow>
          let job_id = en_uuid (he_api H) 1; command_id = en_uuid (he_api H) 2;
              accessible = map (\<lambda>w. (wv_organization_id w, wv_worker_id w)) workers
          in case reserve_capacity command_id (device_chosen req accessible) (st_sessions A) of
               (R, None) \<Rightarrow>
                 (A\<lparr>st_sessions := R\<rparr>, Err (Unavailable ''no accessible connected device has the requested workflow and capacity''))
             | (R, Some w) \<Rightarrow>
                 commit_submission H p key hash records
                   (submitted_job (pc_organization_id p) (submission_actor p) (principal_kind_name (pc_kind p)) (pc_user_id p) req w
                      command_id job_id inputs (en_clock (he_api H) 1)) (A\<lparr>st_sessions := R\<rparr>))))"

definition submit_job_for_principal ::
  "hub_env \<Rightarrow> (SubmitJobRequest \<Rightarrow> string option) \<Rightarrow> Principal \<Rightarrow> string option \<Rightarrow> SubmitJobRequest \<Rightarrow> AppState
   \<Rightarrow> AppState \<times> (HubError, JobView) result" where
  "submit_job_for_principal H ser p key req A =
     (case and_then (validate_submission req) (\<lambda>_. validate_device_choice req) of
        Err e \<Rightarrow> (A, Err e)
      | Ok _ \<Rightarrow>
     (case st_store A of
        None \<Rightarrow> (A, Err (Unavailable ''PostgreSQL control plane is not configured''))
      | Some db \<Rightarrow>
          let hash = request_hash_of (he_api H) ser req
          in case store_idempotency (pc_organization_id p) (principal_kind_name (pc_kind p)) (submission_actor p) ''/api/v1/jobs'' key db of
               Some existing \<Rightarrow>
                 if im_request_hash existing \<noteq> hash then (A, Err key_reused)
                 else job_for_principal H (en_instant (he_api H) 0) p (im_job_id existing) A
             | None \<Rightarrow> place_submission H p key hash req A))"

subsection \<open>The legacy submission\<close>

definition header_key :: "HeaderMap \<Rightarrow> string option" where
  "header_key headers =
     Option.bind (header_str headers ''idempotency-key'') (\<lambda>v. if trim v = [] then None else Some (trim v))"

definition legacy_map_key :: "string \<Rightarrow> string \<Rightarrow> string" where
  "legacy_map_key org key =
     org @ [CHR 0x00] @ ''legacy_token'' @ [CHR 0x00] @ ''legacy_consumer'' @ [CHR 0x00] @ ''/v1/jobs'' @ [CHR 0x00] @ key"

definition loaded_view :: "string \<Rightarrow> string \<Rightarrow> AppState \<Rightarrow> (HubError, nat \<times> JobView) result" where
  "loaded_view missing job_id A =
     (case hm_get (hd_jobs (st_data A)) job_id of
        None \<Rightarrow> Err (Conflict missing)
      | Some job \<Rightarrow> Ok (202, hj_view job))"

text \<open>The answer to a repeated key: \<open>None\<close> when the key is new.\<close>

definition legacy_repeated :: "string \<Rightarrow> string option \<Rightarrow> string \<Rightarrow> AppState \<Rightarrow> (HubError, nat \<times> JobView) result option" where
  "legacy_repeated org key hash A =
     (case Option.bind (st_store A) (store_idempotency org ''legacy_token'' ''legacy_consumer'' ''/v1/jobs'' key) of
        Some existing \<Rightarrow>
          Some (if im_request_hash existing \<noteq> hash then Err key_reused
                else loaded_view ''persisted job is not loaded'' (im_job_id existing) A)
      | None \<Rightarrow>
          Option.bind key (\<lambda>k.
            map_option (\<lambda>job_id. loaded_view ''idempotency record is stale'' job_id A)
              (hm_get (hd_idempotency (st_data A)) (legacy_map_key org k))))"

fun legacy_inputs :: "string \<Rightarrow> string list \<Rightarrow> AppState \<Rightarrow> (HubError, ArtifactRecord list) result" where
  "legacy_inputs org [] A = Ok []"
| "legacy_inputs org (i # is) A =
     (case resident_artifact org i A of
        None \<Rightarrow> Err (HubNotFound (''input artifact '' @ i))
      | Some a \<Rightarrow>
          if av_state (arec_view a) \<noteq> Ready \<or> av_job_id (arec_view a) \<noteq> None
          then Err (Conflict (''input artifact '' @ i @ '' is not ready''))
          else and_then (legacy_inputs org is A) (\<lambda>as. Ok (a # as)))"

definition remember_key :: "string \<Rightarrow> string option \<Rightarrow> string \<Rightarrow> HubData \<Rightarrow> HubData" where
  "remember_key org key job_id d =
     (case key of None \<Rightarrow> d | Some k \<Rightarrow> d\<lparr>hd_idempotency := hm_insert (legacy_map_key org k) job_id (hd_idempotency d)\<rparr>)"

definition legacy_commit ::
  "hub_env \<Rightarrow> string \<Rightarrow> string option \<Rightarrow> string \<Rightarrow> ArtifactRecord list \<Rightarrow> HubJobRecord \<Rightarrow> AppState \<Rightarrow> AppState \<times> (HubError, nat \<times> JobView) result" where
  "legacy_commit H org key hash records record A =
     (case commit_job_record (he_codec H) record ''/v1/jobs'' key hash None A of
        (A, Err e) \<Rightarrow> (release_reservation record A, Err e)
      | (A, Ok (JobExisting job_id)) \<Rightarrow>
          (release_reservation record A, loaded_view ''persisted job is not loaded'' job_id A)
      | (A, Ok JobCreated) \<Rightarrow>
          with_status 202 (deliver_submission H record
            (A\<lparr>st_data := publish_submission record records (remember_key org key (jv_id (hj_view record)) (st_data A))\<rparr>)))"

definition legacy_submit_job ::
  "hub_env \<Rightarrow> hub_config \<Rightarrow> (SubmitJobRequest \<Rightarrow> string option) \<Rightarrow> HeaderMap \<Rightarrow> SubmitJobRequest \<Rightarrow> AppState
   \<Rightarrow> AppState \<times> (HubError, nat \<times> JobView) result" where
  "legacy_submit_job H C ser headers req =
     as_consumer C headers (\<lambda>A.
       let key = header_key headers; org = hc_legacy_organization_id C; hash = request_hash_of (he_api H) ser req
       in case validate_submission req of
            Err e \<Rightarrow> (A, Err e)
          | Ok _ \<Rightarrow>
       (case legacy_repeated org key hash A of
          Some r \<Rightarrow> (A, r)
        | None \<Rightarrow>
       (case legacy_inputs org (sq_input_artifact_ids req) A of
          Err e \<Rightarrow> (A, Err e)
        | Ok records \<Rightarrow>
       (case presigned_inputs (he_objects H) records of
          Err e \<Rightarrow> (A, Err e)
        | Ok inputs \<Rightarrow>
            let job_id = en_uuid (he_api H) 1; command_id = en_uuid (he_api H) 2
            in case reserve_capacity command_id (\<lambda>w. wv_organization_id w = org \<and>
                      offers_workflow (sq_workflow_id req) (sq_workflow_version req) w) (st_sessions A) of
                 (R, None) \<Rightarrow>
                   (A\<lparr>st_sessions := R\<rparr>, Err (Unavailable ''no connected worker has the requested workflow and capacity''))
               | (R, Some w) \<Rightarrow>
                   legacy_commit H org key hash records
                     (submitted_job org ''legacy_consumer'' ''legacy_token'' None req w command_id job_id inputs (en_clock (he_api H) 1))
                     (A\<lparr>st_sessions := R\<rparr>)))))"

end
