(* ===== verification/Hub_Submit_Props.thy ===== *)
theory Hub_Submit_Props
  imports Hub_Submit Hub_Dispatch_Props
begin

text \<open>
  What the client API of the Hub guarantees of jobs: a submission happens completely or not at all and only
  on a device the user may use, and a cancellation touches one job the caller may cancel.
\<close>

subsection \<open>Reads leave everything but the read cache alone\<close>

definition same_state :: "AppState \<Rightarrow> AppState \<Rightarrow> bool" where
  "same_state A A' \<longleftrightarrow> st_store A' = st_store A \<and> st_data A' = st_data A \<and> st_sessions A' = st_sessions A"

lemma same_state_refl [simp]: "same_state A A"
  by (simp add: same_state_def)

lemma same_state_cache [simp]: "same_state A (A\<lparr>st_read_cache := c\<rparr>)"
  by (simp add: same_state_def)

lemma same_state_trans: "same_state A B \<Longrightarrow> same_state B C \<Longrightarrow> same_state A C"
  by (simp add: same_state_def)

lemma job_for_principal_same: "same_state A (fst (job_for_principal H inst p job_id A))"
  by (auto simp: job_for_principal_def Let_def same_state_def split: option.splits prod.splits sum.splits)

lemma job_state_for_same: "same_state A (fst (job_state_for inst org job_id A))"
  by (auto simp: job_state_for_def same_state_def split: option.splits prod.splits)

lemma artifact_record_same: "same_state A (fst (artifact_record inst org i A))"
  by (auto simp: artifact_record_def artifact_record_stored_def Let_def same_state_def
      split: option.splits prod.splits sum.splits)

lemma submit_inputs_same: "same_state A (fst (submit_inputs inst org ids A))"
proof (induction ids arbitrary: A)
  case (Cons i "is")
  let ?r = "case resident_artifact org i A of Some a \<Rightarrow> (A, Ok a) | None \<Rightarrow> artifact_record inst org i A"
  have "same_state A (fst ?r)"
    using artifact_record_same by (simp split: option.split)
  then show ?case
    using Cons.IH by (auto split: prod.splits sum.splits dest: same_state_trans) (metis fst_conv same_state_trans)+
qed simp

lemma accessible_workers_same: "same_state A (fst (accessible_workers_for H p A))"
  by (auto simp: accessible_workers_for_def device_access_for_principal_def Let_def same_state_def
      split: option.splits prod.splits sum.splits)

subsection \<open>A reservation and its release\<close>

definition fresh_command :: "string \<Rightarrow> SessionRegistry \<Rightarrow> bool" where
  "fresh_command c R \<longleftrightarrow>
     (\<forall>s\<in>set (hm_values (sr_inner R)).
        c \<notin> set (ws_pending_capacity_reservations s) \<and> c \<notin> set (ws_confirmed_capacity_reservations s))"

lemma hm_get_insert_any [simp]: "hm_get (hm_insert k v m) = (hm_get m)(k \<mapsto> v)"
  by (simp add: hm_get_def hm_insert_def update_conv')

lemma hm_insert_same: "hm_get m k = Some v \<Longrightarrow> hm_insert k v m = m"
  unfolding hm_get_def hm_insert_def by (induction m) (auto split: if_splits)

lemma hm_insert_twice: "hm_insert k v (hm_insert k v' m) = hm_insert k v m"
  unfolding hm_insert_def by (induction m) auto

lemma release_reserve_on:
  "c \<notin> set (ws_pending_capacity_reservations s) \<Longrightarrow> c \<notin> set (ws_confirmed_capacity_reservations s) \<Longrightarrow>
     release_on c (reserve_on c s) = s"
  by (simp add: release_on_def reserve_on_def hs_remove_def hs_insert_def List.insert_def)

lemma release_undoes_reserve:
  assumes "registry_inv R" "fresh_command c R" "reserve_capacity c p R = (R', Some w)"
  shows "release_capacity_reservation (wv_organization_id w) (wv_worker_id w) (wv_session_id w) c R' = R"
proof -
  from assms(1,3) obtain k s where s: "hm_get (sr_inner R) k = Some s"
    and R': "R' = R\<lparr>sr_inner := hm_insert k (reserve_on c s) (sr_inner R)\<rparr>"
    and w: "w = worker_view_with_reservations (reserve_on c s)"
    by (cases rule: reserve_capacity_cases[of R c p]) auto
  have k: "k = session_key (wv_organization_id w) (wv_worker_id w)"
    using registry_invD(4)[OF assms(1) s] by (simp add: own_key_def w worker_view_with_reservations_def reserve_on_def)
  have fresh: "c \<notin> set (ws_pending_capacity_reservations s)" "c \<notin> set (ws_confirmed_capacity_reservations s)"
    using assms(2) hm_values_mem[OF registry_invD(1)[OF assms(1)]] s by (auto simp: fresh_command_def)
  have "sr_current R' (wv_organization_id w) (wv_worker_id w) (wv_session_id w) = Some (reserve_on c s)"
    unfolding sr_current_Some sr_get_def k[symmetric]
    by (simp add: R' w worker_view_with_reservations_def)
  then show ?thesis
    by (simp add: release_eq sr_put_def k[symmetric] release_reserve_on[OF fresh] R' hm_insert_twice hm_insert_same[OF s])
qed

subsection \<open>The cases of a submission\<close>

text \<open>
  Either nothing but the read cache changed, or the transaction created the job of the fresh id, and the handler went
  on to deliver it.
\<close>

definition submission_record :: "hub_env \<Rightarrow> Principal \<Rightarrow> SubmitJobRequest \<Rightarrow> WorkerView \<Rightarrow> JobInput list \<Rightarrow> HubJobRecord" where
  "submission_record H p req w inputs =
     submitted_job (pc_organization_id p) (submission_actor p) (principal_kind_name (pc_kind p)) (pc_user_id p) req w
       (en_uuid (he_api H) 2) (en_uuid (he_api H) 1) inputs (en_clock (he_api H) 1)"

lemma release_reservation_undoes:
  assumes "registry_inv (st_sessions A)" "fresh_command (en_uuid (he_api H) 2) (st_sessions A)"
    and "reserve_capacity (en_uuid (he_api H) 2) f (st_sessions A) = (R, Some w)"
    and "st_store B = st_store A" "st_data B = st_data A" "st_sessions B = R"
  shows "same_state A (release_reservation (submission_record H p req w inputs) B)"
  using release_undoes_reserve[OF assms(1-3)] assms(4-6)
  by (simp add: same_state_def release_reservation_def submission_record_def submitted_job_def)

lemma commit_job_record_cases:
  assumes "commit_job_record J job endpoint key hash adm A = (A', r)" "st_store A = Some db"
  obtains "same_state A A'" "r \<noteq> Ok JobCreated"
  | parameters db1 where "params_enc J (jv_parameters (hj_view job)) = Some parameters" "r = Ok JobCreated"
      "A' = A\<lparr>st_store := Some db1\<rparr>"
      "commit_new_job J (job_upsert_of parameters (ids_enc J (jv_input_artifact_ids (hj_view job)))
           (ids_enc J (jv_output_artifact_ids (hj_view job))) job) (jv_input_artifact_ids (hj_view job))
         (map_option (\<lambda>k. \<lparr>ii_organization_id = hj_organization_id job, ii_actor_kind = hj_actor_kind job,
            ii_actor_id = hj_actor_id job, ii_endpoint = endpoint, ii_key = k, ii_request_hash = hash,
            ii_job_id = jv_id (hj_view job)\<rparr>) key) adm db = (db1, Ok JobCreated)"
proof (cases "params_enc J (jv_parameters (hj_view job))")
  case None
  with assms that(1) show ?thesis by (auto simp: commit_job_record_def)
next
  case (Some parameters)
  obtain db1 c where c: "commit_new_job J (job_upsert_of parameters (ids_enc J (jv_input_artifact_ids (hj_view job)))
           (ids_enc J (jv_output_artifact_ids (hj_view job))) job) (jv_input_artifact_ids (hj_view job))
         (map_option (\<lambda>k. \<lparr>ii_organization_id = hj_organization_id job, ii_actor_kind = hj_actor_kind job,
            ii_actor_id = hj_actor_id job, ii_endpoint = endpoint, ii_key = k, ii_request_hash = hash,
            ii_job_id = jv_id (hj_view job)\<rparr>) key) adm db = (db1, c)"
    by fastforce
  have eq: "A' = A\<lparr>st_store := Some db1\<rparr>" "r = (case c of Err e \<Rightarrow> Err (map_store_error e) | Ok x \<Rightarrow> Ok x)"
    using assms Some c by (simp_all add: commit_job_record_def Let_def)
  show ?thesis
  proof (cases "c = Ok JobCreated")
    case True
    with that(2) Some eq c show ?thesis by simp
  next
    case False
    with c have "db1 = db" by (cases rule: commit_new_job_cases) auto
    with that(1) False eq assms(2) show ?thesis by (auto simp: same_state_def split: sum.splits)
  qed
qed

lemma commit_submission_cases:
  assumes inv: "registry_inv (st_sessions A)" "fresh_command (en_uuid (he_api H) 2) (st_sessions A)"
    and wo: "reserve_capacity (en_uuid (he_api H) 2) f (st_sessions A) = (R, Some w)"
    and same: "same_state A A2" and store: "st_store A = Some db" and user: "pc_user_id p = Some user"
    and run: "commit_submission H p key hash records (submission_record H p req w inputs) (A2\<lparr>st_sessions := R\<rparr>) = (A', r)"
  obtains (undone) "same_state A A'"
  | (committed) parameters idem db1 B where
      "commit_new_job (he_codec H)
         (job_upsert_of parameters (ids_enc (he_codec H) (sq_input_artifact_ids req)) (ids_enc (he_codec H) [])
            (submission_record H p req w inputs)) (sq_input_artifact_ids req) idem
         (Some (device_admission user (submission_record H p req w inputs) (en_clock (he_api H) 1))) db = (db1, Ok JobCreated)"
      "st_store B = Some db1" "st_data B = publish_submission (submission_record H p req w inputs) records (st_data A)"
      "st_sessions B = R" "deliver_submission H (submission_record H p req w inputs) B = (A', r)"
proof -
  let ?rec = "submission_record H p req w inputs"
  have now: "jv_created_at_unix_ms (hj_view ?rec) = en_clock (he_api H) 1"
    "jv_input_artifact_ids (hj_view ?rec) = sq_input_artifact_ids req" "jv_output_artifact_ids (hj_view ?rec) = []"
    by (simp_all add: submission_record_def submitted_job_def)
  obtain A3 q where q: "commit_job_record (he_codec H) ?rec ''/api/v1/jobs'' key hash
      (Some (device_admission user ?rec (en_clock (he_api H) 1))) (A2\<lparr>st_sessions := R\<rparr>) = (A3, q)" by fastforce
  have store2: "st_store (A2\<lparr>st_sessions := R\<rparr>) = Some db" using same store by (simp add: same_state_def)
  from q store2 show ?thesis
  proof (cases rule: commit_job_record_cases)
    case 1
    have undo: "same_state A (release_reservation ?rec A3)"
      using release_reservation_undoes[OF inv wo] 1(1) same by (simp add: same_state_def)
    have "same_state (release_reservation ?rec A3) A'"
      using run user now q 1(2) job_for_principal_same[of "release_reservation ?rec A3" H "en_instant (he_api H) 1" p]
      by (auto simp: commit_submission_def split: sum.splits CommitJobResult.splits) (metis fst_conv)+
    with undo show ?thesis by - (rule undone, rule same_state_trans)
  next
    case (2 parameters db1)
    show ?thesis
      using committed[OF 2(4)[unfolded now], of "A3\<lparr>st_data := publish_submission ?rec records (st_data A3)\<rparr>"]
        run user now q 2(2,3) same
      by (simp add: commit_submission_def same_state_def)
  qed
qed

lemma place_submission_cases:
  assumes inv: "registry_inv (st_sessions A)" "fresh_command (en_uuid (he_api H) 2) (st_sessions A)"
    and store: "st_store A = Some db"
    and run: "place_submission H p key hash req A = (A', r)"
  obtains (nothing) "same_state A A'"
  | (created) user workers records inputs R w parameters idem db1 B where
      "pc_user_id p = Some user" "snd (accessible_workers_for H p A) = Ok workers"
      "reserve_capacity (en_uuid (he_api H) 2)
         (device_chosen req (map (\<lambda>w. (wv_organization_id w, wv_worker_id w)) workers)) (st_sessions A) = (R, Some w)"
      "commit_new_job (he_codec H)
         (job_upsert_of parameters (ids_enc (he_codec H) (sq_input_artifact_ids req)) (ids_enc (he_codec H) [])
            (submission_record H p req w inputs)) (sq_input_artifact_ids req) idem
         (Some (device_admission user (submission_record H p req w inputs) (en_clock (he_api H) 1))) db = (db1, Ok JobCreated)"
      "st_store B = Some db1" "st_data B = publish_submission (submission_record H p req w inputs) records (st_data A)"
      "st_sessions B = R" "deliver_submission H (submission_record H p req w inputs) B = (A', r)"
proof -
  obtain A1 ws where ws: "accessible_workers_for H p A = (A1, ws)" by fastforce
  have s1: "same_state A A1" using accessible_workers_same[of A H p] ws by simp
  obtain A2 rs where rs: "submit_inputs (en_instant (he_api H) 1) (pc_organization_id p) (sq_input_artifact_ids req) A1 = (A2, rs)"
    by fastforce
  have s2: "same_state A A2"
    using submit_inputs_same[of A1 "en_instant (he_api H) 1" "pc_organization_id p" "sq_input_artifact_ids req"] rs s1
    by (auto intro: same_state_trans)
  show ?thesis
  proof (cases "\<exists>workers records inputs. ws = Ok workers \<and> rs = Ok records \<and> presigned_inputs (he_objects H) records = Ok inputs")
    case False
    with run ws rs s1 s2 show ?thesis
      by - (rule nothing, auto simp: place_submission_def split: sum.splits)
  next
    case True
    then obtain workers records inputs where ok: "ws = Ok workers" "rs = Ok records" "presigned_inputs (he_objects H) records = Ok inputs"
      by blast
    let ?f = "device_chosen req (map (\<lambda>w. (wv_organization_id w, wv_worker_id w)) workers)"
    obtain R wo where wo: "reserve_capacity (en_uuid (he_api H) 2) ?f (st_sessions A) = (R, wo)" by fastforce
    have sess: "st_sessions A2 = st_sessions A" using s2 by (simp add: same_state_def)
    show ?thesis
    proof (cases wo)
      case None
      with wo have "R = st_sessions A"
        by (auto simp: reserve_capacity_eq split: option.splits if_splits)
      with run ws rs ok wo None sess s2 show ?thesis
        by - (rule nothing, auto simp: place_submission_def Let_def same_state_def)
    next
      case (Some w)
      have c: "commit_submission H p key hash records (submission_record H p req w inputs) (A2\<lparr>st_sessions := R\<rparr>) = (A', r)"
        using run ws rs ok wo Some sess by (simp add: place_submission_def Let_def submission_record_def)
      obtain user where user: "pc_user_id p = Some user"
        using ws ok by (auto simp: accessible_workers_for_def device_access_for_principal_def split: option.splits)
      have ws': "snd (accessible_workers_for H p A) = Ok workers" using ws ok by simp
      from inv wo[unfolded Some] s2 store user c show ?thesis
      proof (cases rule: commit_submission_cases)
        case undone
        then show ?thesis by (rule nothing)
      next
        case (committed parameters idem db1 B)
        then show ?thesis by (rule created[OF user ws' wo[unfolded Some]])
      qed
    qed
  qed
qed

lemma submission_placed:
  assumes "submit_job_for_principal H ser p key req A = (A', r)" "\<not> same_state A A'"
  obtains db where "st_store A = Some db"
    "place_submission H p key (request_hash_of (he_api H) ser req) req A = (A', r)"
  using assms job_for_principal_same[of A H "en_instant (he_api H) 0" p]
  by (auto simp: submit_job_for_principal_def Let_def split: sum.splits option.splits if_splits) (metis fst_conv)+

subsection \<open>Delivery\<close>

definition row_of_record :: "StoredJob \<Rightarrow> HubJobRecord \<Rightarrow> bool" where
  "row_of_record row job \<longleftrightarrow>
     j_attempt row = uint (dj_attempt (hj_dispatch job)) \<and> j_state row = job_state_name (jv_state (hj_view job)) \<and>
     j_last_event row = u64_to_i64_or_max (hj_last_event job)"

lemma release_job_frame [simp]:
  "db_jobs (release_job_for_terminal_tx org job now db) = db_jobs db"
  "db_artifacts (release_job_for_terminal_tx org job now db) = db_artifacts db"
  "db_dispatch_outbox (release_job_for_terminal_tx org job now db) = db_dispatch_outbox db"
  by (simp_all add: release_job_for_terminal_tx_def)

lemma update_job_error_effect:
  assumes "hm_get (hd_jobs (st_data A)) jid = Some job" "\<not> is_terminal (jv_state (hj_view job))"
    and "st_store A = Some db" "hm_get (db_jobs db) (hj_organization_id job, jid) = Some row" "row_of_record row job"
  shows "\<exists>db'. st_store (update_job_error now jid m t A) = Some db' \<and> db_artifacts db' = db_artifacts db \<and>
    db_dispatch_outbox db' = db_dispatch_outbox db \<and>
    hm_get (db_jobs db') = (hm_get (db_jobs db))((hj_organization_id job, jid) \<mapsto>
      row\<lparr>j_state := (if t then ''failed'' else j_state row), j_error := Some (truncate_str m 1000),
          j_updated_at := max (j_updated_at row) now\<rparr>)"
  using assms
  by (auto simp: update_job_error_def Let_def update_job_if_current_def update_where_def row_of_record_def terminal_state_def)

text \<open>
  How a created job ends the request: the worker took it, the worker refused it and it has failed, or no answer came and
  the outbox tries again.
\<close>

definition submission_outcome ::
  "(HubError, JobView) result \<Rightarrow> JobView \<Rightarrow> StoredJob \<Rightarrow> StoredJob \<Rightarrow> dispatch_outbox_row \<Rightarrow> bool" where
  "submission_outcome r view row row' box \<longleftrightarrow>
     (r = Ok view \<and> row' = row \<and> ob_status box = ''delivered'') \<or>
     (r = Err (Conflict ''worker rejected the job'') \<and>
        (\<exists>e t. row' = row\<lparr>j_state := ''failed'', j_error := Some e, j_updated_at := t\<rparr>)) \<or>
     ((\<exists>x. r = Err x) \<and> ob_status box = ''pending'' \<and> (\<exists>e t. row' = row\<lparr>j_error := Some e, j_updated_at := t\<rparr>))"

lemma deliver_submission_effect:
  assumes run: "deliver_submission H record A = (A', r)"
    and res: "hm_get (hd_jobs (st_data A)) (jv_id (hj_view record)) = Some record" "\<not> is_terminal (jv_state (hj_view record))"
    and row: "st_store A = Some db" "hm_get (db_jobs db) (hj_organization_id record, jv_id (hj_view record)) = Some row"
      "row_of_record row record"
    and box: "hm_get (db_dispatch_outbox db) (hj_organization_id record, jv_id (hj_view record), 1) = Some o1"
  shows "\<exists>db' row' o2. st_store A' = Some db' \<and> db_artifacts db' = db_artifacts db \<and>
    hm_get (db_jobs db') (hj_organization_id record, jv_id (hj_view record)) = Some row' \<and>
    (\<forall>k. k \<noteq> (hj_organization_id record, jv_id (hj_view record)) \<longrightarrow> hm_get (db_jobs db') k = hm_get (db_jobs db) k) \<and>
    hm_get (db_dispatch_outbox db') (hj_organization_id record, jv_id (hj_view record), 1) = Some o2 \<and>
    submission_outcome r (hj_view record) row row' o2"
proof -
  let ?jid = "jv_id (hj_view record)"
  obtain R answer where a: "send_command (hj_worker_organization_id record) (jv_worker_id (hj_view record)) (jv_session_id (hj_view record))
      (dj_command_id (hj_dispatch record)) (HDispatchJob (hj_dispatch record)) (he_sent H) (he_ack H) (st_sessions A) = (R, answer)"
    by fastforce
  let ?B = "A\<lparr>st_sessions := R\<rparr>" and ?now = "en_clock (he_api H) 2"
  note upd = update_job_error_effect[of ?B ?jid "record" db row ?now, simplified, OF res row]
  show ?thesis
  proof (cases answer)
    case (Inl x)
    from upd[of "hub_error_text x" False] obtain db' where d: "st_store (record_dispatch_error ?now ?jid (hub_error_text x) ?B) = Some db'"
      "db_artifacts db' = db_artifacts db" "db_dispatch_outbox db' = db_dispatch_outbox db"
      "hm_get (db_jobs db') = (hm_get (db_jobs db))((hj_organization_id record, ?jid) \<mapsto>
         row\<lparr>j_error := Some (truncate_str (hub_error_text x) 1000), j_updated_at := max (j_updated_at row) ?now\<rparr>)"
      by (auto simp: record_dispatch_error_def)
    have "submission_outcome (Err x) (hj_view record) row (row\<lparr>j_error := Some (truncate_str (hub_error_text x) 1000),
         j_updated_at := max (j_updated_at row) ?now\<rparr>) (o1\<lparr>ob_status := ''pending'', ob_attempts := ob_attempts o1 + 1,
         ob_available_at := i64_saturating_add ?now 5000, ob_last_error := Some (hub_error_text x)\<rparr>)"
      by (auto simp: submission_outcome_def)
    with run a Inl box d show ?thesis
      by (auto simp: deliver_submission_def Let_def outbox_error_def store_record_dispatch_error_def update_key_def update_where_def)
  next
    case (Inr ack)
    show ?thesis
    proof (cases "ca_accepted ack")
      case True
      with run a Inr box row(1,2) show ?thesis
        by (auto simp: deliver_submission_def Let_def outbox_delivered_def mark_dispatch_delivered_def update_key_def update_where_def
            submission_outcome_def map_upd_triv)
    next
      case False
      have "submission_outcome (Err (Conflict ''worker rejected the job'')) (hj_view record) row
          (row\<lparr>j_state := ''failed'', j_error := Some e, j_updated_at := t\<rparr>) o1" for e t
        by (auto simp: submission_outcome_def)
      with upd[of "ca_message ack" True] run a Inr False box show ?thesis
        by (auto simp: deliver_submission_def Let_def mark_job_failed_def)
    qed
  qed
qed

subsection \<open>All or nothing\<close>

definition new_job_of :: "hub_env \<Rightarrow> Principal \<Rightarrow> SubmitJobRequest \<Rightarrow> WorkerView \<Rightarrow> JobInput list \<Rightarrow> string \<Rightarrow> JobUpsert" where
  "new_job_of H p req w inputs parameters =
     job_upsert_of parameters (ids_enc (he_codec H) (sq_input_artifact_ids req)) (ids_enc (he_codec H) [])
       (submission_record H p req w inputs)"

lemma new_job_of_simps [simp]:
  "ju_organization_id (new_job_of H p req w inputs parameters) = pc_organization_id p"
  "ju_id (new_job_of H p req w inputs parameters) = en_uuid (he_api H) 1"
  "ju_attempt (new_job_of H p req w inputs parameters) = 1"
  "ju_now (new_job_of H p req w inputs parameters) = en_clock (he_api H) 1"
  by (simp_all add: new_job_of_def job_upsert_of_def submission_record_def submitted_job_def Let_def)

lemma new_job_row_of:
  "row_of_record (new_job_row (new_job_of H p req w inputs parameters)) (submission_record H p req w inputs)"
  "j_state (new_job_row (new_job_of H p req w inputs parameters)) = ''received''"
  "j_actor_user_id (new_job_row (new_job_of H p req w inputs parameters)) = pc_user_id p"
  "j_workflow_id (new_job_row (new_job_of H p req w inputs parameters)) = sq_workflow_id req"
  "j_workflow_version (new_job_row (new_job_of H p req w inputs parameters)) = sq_workflow_version req"
  "j_worker_organization_id (new_job_row (new_job_of H p req w inputs parameters)) = Some (wv_organization_id w)"
  "j_worker_id (new_job_row (new_job_of H p req w inputs parameters)) = Some (wv_worker_id w)"
  by (simp_all add: row_of_record_def new_job_row_def new_job_of_def job_upsert_of_def submission_record_def submitted_job_def Let_def)

lemma submission_record_simps [simp]:
  "hj_organization_id (submission_record H p req w inputs) = pc_organization_id p"
  "jv_id (hj_view (submission_record H p req w inputs)) = en_uuid (he_api H) 1"
  "jv_state (hj_view (submission_record H p req w inputs)) = Received"
  by (simp_all add: submission_record_def submitted_job_def)

lemma submission_created:
  assumes inv: "registry_inv (st_sessions A)" "fresh_command (en_uuid (he_api H) 2) (st_sessions A)"
    and run: "submit_job_for_principal H ser p key req A = (A', r)" "\<not> same_state A A'"
  obtains db db1 db' user workers R w inputs parameters idem row' box where
    "st_store A = Some db" "pc_user_id p = Some user" "snd (accessible_workers_for H p A) = Ok workers"
    "reserve_capacity (en_uuid (he_api H) 2)
       (device_chosen req (map (\<lambda>w. (wv_organization_id w, wv_worker_id w)) workers)) (st_sessions A) = (R, Some w)"
    "commit_new_job (he_codec H) (new_job_of H p req w inputs parameters) (sq_input_artifact_ids req) idem
       (Some (device_admission user (submission_record H p req w inputs) (en_clock (he_api H) 1))) db = (db1, Ok JobCreated)"
    "st_store A' = Some db'" "db_artifacts db' = db_artifacts db1"
    "hm_get (db_jobs db) (pc_organization_id p, en_uuid (he_api H) 1) = None"
    "hm_get (db_jobs db') (pc_organization_id p, en_uuid (he_api H) 1) = Some row'"
    "\<forall>k. k \<noteq> (pc_organization_id p, en_uuid (he_api H) 1) \<longrightarrow> hm_get (db_jobs db') k = hm_get (db_jobs db) k"
    "hm_get (db_dispatch_outbox db') (pc_organization_id p, en_uuid (he_api H) 1, 1) = Some box"
    "submission_outcome r (hj_view (submission_record H p req w inputs)) (new_job_row (new_job_of H p req w inputs parameters)) row' box"
proof -
  from run obtain db where store: "st_store A = Some db"
    and place: "place_submission H p key (request_hash_of (he_api H) ser req) req A = (A', r)"
    by (rule submission_placed)
  from inv store place show ?thesis
  proof (cases rule: place_submission_cases)
    case nothing
    with run(2) show ?thesis by simp
  next
    case (created user workers records inputs R w parameters idem db1 B)
    let ?rec = "submission_record H p req w inputs" and ?i = "new_job_of H p req w inputs parameters"
    note commit = created(4)[folded new_job_of_def]
    from commit have db1: "hm_get (db_jobs db1) = (hm_get (db_jobs db))((pc_organization_id p, en_uuid (he_api H) 1) \<mapsto> new_job_row ?i)"
      "hm_get (db_dispatch_outbox db1) (pc_organization_id p, en_uuid (he_api H) 1, 1) \<noteq> None"
      "hm_get (db_jobs db) (pc_organization_id p, en_uuid (he_api H) 1) = None"
      by (cases rule: commit_new_job_cases; simp add: hm_contains_def)+
    have res: "hm_get (hd_jobs (st_data B)) (jv_id (hj_view ?rec)) = Some ?rec"
      using created(6) by (simp add: publish_submission_def Let_def)
    obtain o1 where o1: "hm_get (db_dispatch_outbox db1) (hj_organization_id ?rec, jv_id (hj_view ?rec), 1) = Some o1"
      using db1(2) by auto
    have row1: "hm_get (db_jobs db1) (hj_organization_id ?rec, jv_id (hj_view ?rec)) = Some (new_job_row ?i)"
      "\<not> is_terminal (jv_state (hj_view ?rec))"
      by (simp_all add: db1(1) is_terminal_def)
    from deliver_submission_effect[OF created(8) res row1(2) created(5) row1(1) new_job_row_of(1) o1,
        unfolded submission_record_simps]
    obtain db' row' o2 where "st_store A' = Some db'" "db_artifacts db' = db_artifacts db1"
      "hm_get (db_jobs db') (pc_organization_id p, en_uuid (he_api H) 1) = Some row'"
      "\<forall>k. k \<noteq> (pc_organization_id p, en_uuid (he_api H) 1) \<longrightarrow> hm_get (db_jobs db') k = hm_get (db_jobs db1) k"
      "hm_get (db_dispatch_outbox db') (pc_organization_id p, en_uuid (he_api H) 1, 1) = Some o2"
      "submission_outcome r (hj_view ?rec) (new_job_row ?i) row' o2"
      by blast
    then show ?thesis
      by - (rule that[OF store created(1-3) commit _ _ db1(3)], simp_all add: db1(1))
  qed
qed

text \<open>
  C11: A submission happens completely or not at all. Whatever the answer, an error included, either the store, the resident
  data and the sessions with all their reservations are exactly as before, or the store has the job with the fresh id in
  the organization of the caller, which was not there before, with every other job untouched, with an outbox entry for
  its first attempt, and with one of three outcomes: the worker took the job and the caller has its view; the worker refused it,
  the caller knows and the job has failed; or no answer came, the caller has an error, and the entry is pending, so that
  the outbox delivers it again.
\<close>
theorem submission_all_or_nothing:
  assumes "registry_inv (st_sessions A)" "fresh_command (en_uuid (he_api H) 2) (st_sessions A)"
    and "submit_job_for_principal H ser p key req A = (A', r)"
  shows "(st_store A' = st_store A \<and> st_data A' = st_data A \<and> st_sessions A' = st_sessions A) \<or>
    (\<exists>db db' view row row' box. st_store A = Some db \<and> st_store A' = Some db' \<and>
       hm_get (db_jobs db) (pc_organization_id p, en_uuid (he_api H) 1) = None \<and>
       hm_get (db_jobs db') (pc_organization_id p, en_uuid (he_api H) 1) = Some row' \<and>
       (\<forall>k. k \<noteq> (pc_organization_id p, en_uuid (he_api H) 1) \<longrightarrow> hm_get (db_jobs db') k = hm_get (db_jobs db) k) \<and>
       hm_get (db_dispatch_outbox db') (pc_organization_id p, en_uuid (he_api H) 1, 1) = Some box \<and>
       jv_id view = en_uuid (he_api H) 1 \<and> j_state row = ''received'' \<and> submission_outcome r view row row' box)"
proof (cases "same_state A A'")
  case True
  then show ?thesis by (simp add: same_state_def)
next
  case False
  obtain db db1 db' user workers R w inputs parameters idem row' box where c:
    "st_store A = Some db" "st_store A' = Some db'"
    "hm_get (db_jobs db) (pc_organization_id p, en_uuid (he_api H) 1) = None"
    "hm_get (db_jobs db') (pc_organization_id p, en_uuid (he_api H) 1) = Some row'"
    "\<forall>k. k \<noteq> (pc_organization_id p, en_uuid (he_api H) 1) \<longrightarrow> hm_get (db_jobs db') k = hm_get (db_jobs db) k"
    "hm_get (db_dispatch_outbox db') (pc_organization_id p, en_uuid (he_api H) 1, 1) = Some box"
    "submission_outcome r (hj_view (submission_record H p req w inputs)) (new_job_row (new_job_of H p req w inputs parameters)) row' box"
    by (rule submission_created[OF assms False])
  show ?thesis
    using c new_job_row_of(2) submission_record_simps(2) by blast
qed

text \<open>What the policy of the devices admits: a device of the organization, or one with an active grant to the user for the workflow.\<close>

definition device_usable :: "json_codec \<Rightarrow> DeviceUseAdmission \<Rightarrow> Db \<Rightarrow> bool" where
  "device_usable J a db \<longleftrightarrow>
     (da_device_organization_id a = da_organization_id a \<and>
        hm_contains (db_workers db) (da_device_organization_id a, da_device_id a)) \<or>
     (\<exists>g rules. hm_get (db_device_grants db) (da_device_organization_id a, da_device_id a, da_user_id a) = Some g \<and>
        grant_active (da_now a) g \<and> rules_dec J (g_allowed_workflows_json g) = Some rules \<and>
        device_workflow_allowed rules (da_workflow_id a) (da_workflow_version a) \<and>
        (\<forall>limit. g_max_concurrent_jobs g = Some limit \<longrightarrow>
           i64_saturating_add (int (active_on_device a db)) (max (da_requested_jobs a) 1) \<le> limit))"

lemma enforce_policy_usable: "enforce_device_use_policy_tx J a db = Ok () \<Longrightarrow> device_usable J a db"
  by (auto simp: enforce_device_use_policy_tx_def device_usable_def grant_active_def Let_def not_less
      split: if_splits option.splits)

lemma reserved_worker:
  assumes "registry_inv R" "reserve_capacity c f R = (R', Some w)"
  obtains s where "sr_get R (wv_organization_id w) (wv_worker_id w) = Some s" "has_free_slot s" "f (ws_view s)"
    "wv_organization_id w = wv_organization_id (ws_view s)" "wv_worker_id w = wv_worker_id (ws_view s)"
proof -
  from assms obtain k s where s: "hm_get (sr_inner R) k = Some s" "f (ws_view s)" "has_free_slot s"
    and w: "w = worker_view_with_reservations (reserve_on c s)"
    by (cases rule: reserve_capacity_cases[of R c f]) auto
  have "k = session_key (wv_organization_id w) (wv_worker_id w)"
    using registry_invD(4)[OF assms(1) s(1)] by (simp add: own_key_def w worker_view_with_reservations_def reserve_on_def)
  with s w that show ?thesis by (simp add: sr_get_def worker_view_with_reservations_def reserve_on_def)
qed

lemma outcome_keeps:
  assumes "submission_outcome r view row row' box"
  shows "j_actor_user_id row' = j_actor_user_id row" "j_workflow_id row' = j_workflow_id row"
    "j_workflow_version row' = j_workflow_version row" "j_worker_id row' = j_worker_id row"
    "j_worker_organization_id row' = j_worker_organization_id row"
  using assms by (auto simp: submission_outcome_def)

text \<open>
  C12: A job is created only where its submitter may run it. When a submission leaves a job in the store that was not
  there, it is the one of the fresh id in the organization of the caller, it belongs to the calling user and has the workflow
  of the request; its worker was connected with a free slot, offers the workflow and is the device the request asked for; and in
  the store, at the time of the commit and however old the cached device list was, the device belongs to the organization or the
  user holds an active grant that allows the workflow and whose limit is kept. The organization was below its limits, and every
  input was ready, unclaimed and is now bound to the job.
\<close>
theorem submission_admitted:
  assumes "registry_inv (st_sessions A)" "fresh_command (en_uuid (he_api H) 2) (st_sessions A)"
    and "submit_job_for_principal H ser p key req A = (A', r)"
    and "st_store A = Some db" "hm_wf (db_artifacts db)" "st_store A' = Some db'"
    and "hm_get (db_jobs db) k = None" "hm_get (db_jobs db') k = Some row"
  shows "k = (pc_organization_id p, en_uuid (he_api H) 1) \<and> j_workflow_id row = sq_workflow_id req \<and>
    j_workflow_version row = sq_workflow_version req \<and>
    (\<exists>user worg wid s a quota usage. pc_user_id p = Some user \<and> j_actor_user_id row = Some user \<and>
       j_worker_organization_id row = Some worg \<and> j_worker_id row = Some wid \<and>
       sr_get (st_sessions A) worg wid = Some s \<and> has_free_slot s \<and>
       offers_workflow (sq_workflow_id req) (sq_workflow_version req) (ws_view s) \<and>
       sq_device_organization_id req \<in> {None, Some worg} \<and> sq_device_id req \<in> {None, Some wid} \<and>
       a = \<lparr>da_organization_id = pc_organization_id p, da_user_id = user, da_device_organization_id = worg, da_device_id = wid,
            da_workflow_id = sq_workflow_id req, da_workflow_version = sq_workflow_version req, da_requested_jobs = 1,
            da_now = en_clock (he_api H) 1\<rparr> \<and> device_usable (he_codec H) a db \<and>
       quota_snapshot (pc_organization_id p) db = Ok (quota, usage) \<and> qu_active_jobs usage < qp_max_concurrent_jobs quota) \<and>
    (\<forall>i\<in>set (sq_input_artifact_ids req). unclaimed_input db (pc_organization_id p) i \<and>
       map_option a_job_id (hm_get (db_artifacts db') (pc_organization_id p, i)) = Some (Some (en_uuid (he_api H) 1)))"
proof -
  have changed: "\<not> same_state A A'" using assms(4,6-8) by (auto simp: same_state_def)
  obtain db0 db1 db2 user and workers :: "WorkerView list" and R w inputs parameters idem row' box where c0: "st_store A = Some db0" "st_store A' = Some db2"
    "pc_user_id p = Some user"
    "reserve_capacity (en_uuid (he_api H) 2)
       (device_chosen req (map (\<lambda>w. (wv_organization_id w, wv_worker_id w)) workers)) (st_sessions A) = (R, Some w)"
    "commit_new_job (he_codec H) (new_job_of H p req w inputs parameters) (sq_input_artifact_ids req) idem
       (Some (device_admission user (submission_record H p req w inputs) (en_clock (he_api H) 1))) db0 = (db1, Ok JobCreated)"
    "db_artifacts db2 = db_artifacts db1"
    "hm_get (db_jobs db2) (pc_organization_id p, en_uuid (he_api H) 1) = Some row'"
    "\<forall>k. k \<noteq> (pc_organization_id p, en_uuid (he_api H) 1) \<longrightarrow> hm_get (db_jobs db2) k = hm_get (db_jobs db0) k"
    "submission_outcome r (hj_view (submission_record H p req w inputs)) (new_job_row (new_job_of H p req w inputs parameters)) row' box"
    by (rule submission_created[OF assms(1-3) changed]) blast
  have same: "db0 = db" "db2 = db'" using c0(1,2) assms(4,6) by simp_all
  note c = c0(3-9)[unfolded same]
  have k: "k = (pc_organization_id p, en_uuid (he_api H) 1)"
    using c(6)[rule_format, of k] assms(7,8) by (metis option.distinct(1))
  then have row': "row = row'" using c(5) assms(8) by simp
  obtain s where s: "sr_get (st_sessions A) (wv_organization_id w) (wv_worker_id w) = Some s" "has_free_slot s"
    "device_chosen req (map (\<lambda>w. (wv_organization_id w, wv_worker_id w)) workers) (ws_view s)"
    "wv_organization_id w = wv_organization_id (ws_view s)" "wv_worker_id w = wv_worker_id (ws_view s)"
    using reserved_worker[OF assms(1) c(2)] by blast
  obtain quota usage where q: "quota_snapshot (pc_organization_id p) db = Ok (quota, usage)"
    "qu_active_jobs usage < qp_max_concurrent_jobs quota"
    "enforce_device_use_policy_tx (he_codec H) (device_admission user (submission_record H p req w inputs) (en_clock (he_api H) 1)) db = Ok ()"
    using c(3) by (cases rule: commit_new_job_cases) (auto simp: quota_snapshot_def)
  have adm: "device_admission user (submission_record H p req w inputs) (en_clock (he_api H) 1) =
     \<lparr>da_organization_id = pc_organization_id p, da_user_id = user, da_device_organization_id = wv_organization_id w,
      da_device_id = wv_worker_id w, da_workflow_id = sq_workflow_id req, da_workflow_version = sq_workflow_version req,
      da_requested_jobs = 1, da_now = en_clock (he_api H) 1\<rparr>"
    by (simp add: device_admission_def submission_record_def submitted_job_def)
  have chosen: "offers_workflow (sq_workflow_id req) (sq_workflow_version req) (ws_view s)"
    "sq_device_organization_id req \<in> {None, Some (wv_organization_id w)}" "sq_device_id req \<in> {None, Some (wv_worker_id w)}"
    using s(3-5) by (auto simp: device_chosen_def split: option.splits)
  note row = outcome_keeps[OF c(7), unfolded new_job_row_of c(1)]
  note ins = created_inputs[OF assms(5) c(3), unfolded new_job_of_simps]
  have bound: "map_option a_job_id (hm_get (db_artifacts db') (pc_organization_id p, i)) = Some (Some (en_uuid (he_api H) 1))"
    if "i \<in> set (sq_input_artifact_ids req)" for i
  proof -
    from ins(2)[OF that] obtain a where "hm_get (db_artifacts db) (pc_organization_id p, i) = Some a" "a_state a = ''ready''" "a_job_id a = None"
      by (auto simp: unclaimed_input_def split: option.splits)
    with that show ?thesis unfolding c(4) ins(4) by (simp add: claimable_artifact_def)
  qed
  show ?thesis
    using k row row' c(1) s(1,2) chosen enforce_policy_usable[OF q(3), unfolded adm] q(1,2) ins(2) bound by auto
qed

subsection \<open>Cancellation\<close>

text \<open>What a cancellation does to the store: nothing, or one row that may still be cancelled ends and gives its slot back.\<close>

definition cancels :: "string \<times> string \<Rightarrow> Db \<Rightarrow> Db \<Rightarrow> bool" where
  "cancels k db db' \<longleftrightarrow>
     (\<forall>k'. k' \<noteq> k \<longrightarrow> hm_get (db_jobs db') k' = hm_get (db_jobs db) k') \<and>
     (\<exists>row row'. hm_get (db_jobs db) k = Some row \<and> hm_get (db_jobs db') k = Some row' \<and>
        \<not> terminal_state (j_state row) \<and> j_state row \<noteq> ''uploading'' \<and> j_state row' = ''cancelled'' \<and>
        k \<in> set (db_usage_ledger db'))"

lemma release_job_ledger:
  "hm_get (db_jobs db) k = Some row \<Longrightarrow> terminal_state (j_state row) \<Longrightarrow>
     k \<in> set (db_usage_ledger (release_job_for_terminal_tx (fst k) (snd k) now db))"
  by (auto simp: release_job_for_terminal_tx_def)

lemma cancelsI:
  assumes "hm_get (db_jobs db) k = Some row" "\<not> terminal_state (j_state row)" "j_state row \<noteq> ''uploading''"
    and "hm_get (db_jobs d) = (hm_get (db_jobs db))(k \<mapsto> row')" "j_state row' = ''cancelled''"
  shows "cancels k db (release_job_for_terminal_tx (fst k) (snd k) now d)"
proof -
  have "k \<in> set (db_usage_ledger (release_job_for_terminal_tx (fst k) (snd k) now d))"
    using assms(4,5) by (intro release_job_ledger[where row = row']) (auto simp: terminal_state_def)
  then show ?thesis unfolding cancels_def using assms by simp
qed

lemma cancel_queued_cases:
  assumes "cancel_queued_job org job now db = (db', ok)"
  shows "if ok then cancels (org, job) db db' else db' = db"
proof (cases "\<exists>row. hm_get (db_jobs db) (org, job) = Some row \<and> j_state row = ''queued''")
  case False
  then have "\<not> ok \<and> db' = db" using assms by (auto simp: cancel_queued_job_def update_where_def split: option.splits)
  then show ?thesis by simp
next
  case True
  then obtain row where row: "hm_get (db_jobs db) (org, job) = Some row" "j_state row = ''queued''" by blast
  show ?thesis
    using cancelsI[OF row(1), of _ "row\<lparr>j_state := ''cancelled'', j_error := Some ''cancelled before worker dispatch'', j_updated_at := now\<rparr>"]
      assms row by (auto simp: cancel_queued_job_def update_where_def terminal_state_def)
qed

lemma update_cancel_cases:
  assumes "update_job_if_current u db = (db', ok)" "cu_state u = Some ''cancelled''"
    and "\<not> terminal_state (cu_expected_state u)" "cu_expected_state u \<noteq> ''uploading''"
  shows "if ok then cancels (cu_organization_id u, cu_id u) db db' else db' = db"
proof (cases ok)
  case False
  then show ?thesis
    using assms(1) by (auto simp: update_job_if_current_def update_where_def Let_def split: option.splits if_splits)
next
  case True
  then obtain row where row: "hm_get (db_jobs db) (cu_organization_id u, cu_id u) = Some row" "j_state row = cu_expected_state u"
    "j_attempt row = cu_attempt u" "j_last_event row = cu_expected_last_event u"
    using assms(1) by (auto simp: update_job_if_current_def update_where_def Let_def split: option.splits if_splits)
  let ?row = "row\<lparr>j_state := ''cancelled'', j_error := cu_error u, j_updated_at := max (j_updated_at row) (cu_now u)\<rparr>"
  have "db' = release_job_for_terminal_tx (cu_organization_id u) (cu_id u) (cu_now u)
      (db\<lparr>db_jobs := hm_insert (cu_organization_id u, cu_id u) ?row (db_jobs db)\<rparr>)"
    using assms(1,2) row by (simp add: update_job_if_current_def update_where_def Let_def terminal_state_def)
  with cancelsI[OF row(1), of "db\<lparr>db_jobs := hm_insert (cu_organization_id u, cu_id u) ?row (db_jobs db)\<rparr>" ?row "cu_now u"]
    assms(3,4) row(2) True show ?thesis by simp
qed

lemma cancel_in_store_cases:
  assumes "cancel_in_store job_id current message now db = (db', ok)"
    and "\<not> is_terminal (jv_state (hj_view current))" "jv_state (hj_view current) \<noteq> Uploading"
  shows "if ok then cancels (hj_organization_id current, job_id) db db' else db' = db" "store_step J db db'"
proof -
  let ?u = "\<lparr>cu_organization_id = hj_organization_id current, cu_id = job_id,
     cu_attempt = uint (dj_attempt (hj_dispatch current)), cu_expected_state = job_state_name (jv_state (hj_view current)),
     cu_expected_last_event = u64_to_i64_or_max (hj_last_event current), cu_state = Some ''cancelled'',
     cu_error = Some message, cu_now = now\<rparr>"
  have u: "\<not> terminal_state (cu_expected_state ?u)" "cu_expected_state ?u \<noteq> ''uploading''" "cu_state ?u = Some ''cancelled''"
    using assms(2,3) by (cases "jv_state (hj_view current)"; simp add: terminal_state_def is_terminal_def)+
  consider "cancel_queued_job (hj_organization_id current) job_id now db = (db', ok)" | "update_job_if_current ?u db = (db', ok)"
    using assms(1) by (auto simp: cancel_in_store_def split: if_splits)
  then show "if ok then cancels (hj_organization_id current, job_id) db db' else db' = db"
  proof cases
    case 1
    then show ?thesis by (rule cancel_queued_cases)
  next
    case 2
    from update_cancel_cases[OF this u(3,1,2)] show ?thesis by (cases ok) simp_all
  qed
  show "store_step J db db'"
    using assms(1) store_step.cancel_queued[of J db "hj_organization_id current" job_id now]
      store_step.update_current[of ?u J db] u(1)
    by (auto simp: cancel_in_store_def split: if_splits)
qed

lemma cancels_ok:
  assumes "store_step J db db'" "if ok then cancels k db db' else db' = db" "store_ok db"
  shows "store_ok db'" "rows_forward (db_jobs db) (db_jobs db')"
proof -
  show "rows_forward (db_jobs db) (db_jobs db')" by (rule store_step_forward[OF assms(1) store_ok_wf[OF assms(3)]])
  have "unique_job_ids db' = unique_job_ids db"
  proof (rule unique_job_ids_same_keys)
    fix k' show "hm_get (db_jobs db') k' = None \<longleftrightarrow> hm_get (db_jobs db) k' = None"
      using assms(2) by (cases "k' = k") (auto simp: cancels_def simp del: split_paired_All split: if_splits)
  qed
  then show "store_ok db'" using assms(3) store_step_quota[OF assms(1)] by (simp add: store_ok_def)
qed

text \<open>Both ways to a local cancellation keep the Hub consistent.\<close>

definition cancel_effect :: "string \<times> string \<Rightarrow> AppState \<Rightarrow> AppState \<Rightarrow> bool" where
  "cancel_effect k A A' \<longleftrightarrow>
     (\<exists>db db'. st_store A = Some db \<and> st_store A' = Some db' \<and> hub_ok A' \<and> (db_jobs db' = db_jobs db \<or> cancels k db db'))"

lemma cancel_effect_refl: "hub_ok A \<Longrightarrow> cancel_effect k A A"
  by (auto simp: cancel_effect_def elim: hub_okE)

lemma cancel_effect_sessions:
  "cancel_effect k (A\<lparr>st_sessions := R\<rparr>) A' \<Longrightarrow> cancel_effect k A A'"
  by (simp add: cancel_effect_def)

lemma hub_ok_sessions [simp]: "hub_ok (A\<lparr>st_sessions := R\<rparr>) = hub_ok A"
  by (simp add: hub_ok_def split: option.split)

lemma cancel_effect_unchanged: "hub_ok A \<Longrightarrow> cancel_effect k A (A\<lparr>st_sessions := R\<rparr>)"
  by (auto simp: cancel_effect_def elim: hub_okE)

lemma cancel_effect_store:
  assumes "hub_ok A" "st_store A = Some db" "store_step J db db'" "if ok then cancels k db db' else db' = db"
    and "st_store A' = Some db'" "st_data A' \<in> {st_data A, (st_data A)\<lparr>hd_jobs := hm_remove job_id (hd_jobs (st_data A))\<rparr>}"
  shows "cancel_effect k A A'"
proof -
  have ok: "store_ok db" "cache_ok (st_data A) db" using assms(1,2) by (auto elim: hub_okE)
  note c = cancels_ok[OF assms(3,4) ok(1)]
  have "cache_ok (st_data A') db'"
    using cache_ok_forward[OF c(2) ok(2)] assms(6) by (auto simp: cache_ok_def split: if_splits)
  with c(1) assms(2,4,5) show ?thesis
    by (auto simp: cancel_effect_def hub_ok_def split: if_splits)
qed

lemma cancel_job_locally_effect:
  assumes ok: "hub_ok A" and rec: "hm_get (hd_jobs (st_data A)) job_id = Some record"
    and live: "\<not> is_terminal (jv_state (hj_view record))" "jv_state (hj_view record) \<noteq> Uploading"
    and run: "cancel_job_locally now record A = (A', r)"
  shows "cancel_effect (hj_organization_id record, job_id) A A'" "r = Ok view \<Longrightarrow> jv_state view = Cancelled"
proof -
  obtain db where db: "st_store A = Some db" "cache_ok (st_data A) db" using ok by (auto elim: hub_okE)
  have id: "jv_id (hj_view record) = job_id" using db(2) rec by (auto simp: cache_ok_def)
  obtain db' b where s: "cancel_in_store job_id record (cancel_message (jv_state (hj_view record))) now db = (db', b)" by fastforce
  note c = cancel_in_store_cases[OF s live]
  have A': "st_store A' = Some db'" "st_data A' \<in> {st_data A, (st_data A)\<lparr>hd_jobs := hm_remove job_id (hd_jobs (st_data A))\<rparr>}"
    "r = Ok view \<Longrightarrow> jv_state view = Cancelled"
    using run rec live db s
    by (auto simp: cancel_job_locally_def id Let_def cancel_resident_def split: if_splits)
  show "cancel_effect (hj_organization_id record, job_id) A A'"
    by (rule cancel_effect_store[OF ok db(1) c(2) c(1) A'(1,2)])
  show "r = Ok view \<Longrightarrow> jv_state view = Cancelled" by (rule A'(3))
qed

lemma send_job_cancellation_effect:
  assumes ok: "hub_ok A" and rec: "hm_get (hd_jobs (st_data A)) job_id = Some record"
    and live: "\<not> is_terminal (jv_state (hj_view record))" "jv_state (hj_view record) \<noteq> Uploading"
    and run: "send_job_cancellation H record A = (A', r)"
  shows "cancel_effect (hj_organization_id record, job_id) A A'"
    "r = Ok view \<Longrightarrow> jv_state view = Cancelled \<or>
       st_store A' = st_store A \<and> view = hj_view record \<and> (\<exists>ack. he_ack H = AckReceived ack \<and> ca_accepted ack)"
proof -
  consider B where "cancel_job_locally (en_clock (he_api H) 1) record B = (A', r)" "B = A \<or> (\<exists>R. B = A\<lparr>st_sessions := R\<rparr>)"
    | R ack where "A' = A\<lparr>st_sessions := R\<rparr>" "he_ack H = AckReceived ack" "r = Ok (hj_view record)" "ca_accepted ack"
    | R e where "A' = A\<lparr>st_sessions := R\<rparr>" "r = Err e"
    using run
    by (auto simp: send_job_cancellation_def Let_def send_command_def send_command_finish_def
        split: if_splits option.splits prod.splits sum.splits HubError.splits AckOutcome.splits)
  note cases = this
  show "cancel_effect (hj_organization_id record, job_id) A A'"
    using cases
  proof cases
    case (1 B)
    then have "cancel_effect (hj_organization_id record, job_id) B A'"
      using cancel_job_locally_effect(1)[OF _ _ live 1(1)] ok rec by auto
    then show ?thesis using 1(2) cancel_effect_sessions by auto
  next
    case (2 R ack)
    then show ?thesis using cancel_effect_unchanged[OF ok] by simp
  next
    case (3 R e)
    then show ?thesis using cancel_effect_unchanged[OF ok] by simp
  qed
  show "jv_state view = Cancelled \<or>
      st_store A' = st_store A \<and> view = hj_view record \<and> (\<exists>ack. he_ack H = AckReceived ack \<and> ca_accepted ack)" if "r = Ok view"
    using cases
  proof cases
    case (1 B)
    then have "jv_state view = Cancelled" using cancel_job_locally_effect(2)[OF _ _ live 1(1) that, of job_id] ok rec by auto
    then show ?thesis ..
  qed (use that in auto)
qed

lemma job_view_state: "job_view_from_stored J row events = Ok view \<Longrightarrow> parse_job_state (j_state row) = Ok (jv_state view)"
  by (auto simp: job_view_from_stored_def and_then_eq_Ok)

lemma cancel_stored_effect:
  assumes "hub_ok A" "cancel_stored_job H p job_id A = (A', r)"
  shows "cancel_effect (pc_organization_id p, job_id) A A'"
    "r = Ok view \<Longrightarrow> jv_state view = Cancelled"
    "st_store A' = st_store A \<or> (\<exists>db row. st_store A = Some db \<and>
       hm_get (db_jobs db) (pc_organization_id p, job_id) = Some row \<and> can_cancel p (j_actor_user_id row))"
proof -
  let ?k = "(pc_organization_id p, job_id)"
  obtain db where db: "st_store A = Some db" using assms(1) by (auto elim: hub_okE)
  obtain db' b where c: "cancel_queued_job (pc_organization_id p) job_id (en_clock (he_api H) 1) db = (db', b)" by fastforce
  have step: "store_step (he_codec H) db db'"
    using store_step.cancel_queued[of "he_codec H" db "pc_organization_id p" job_id "en_clock (he_api H) 1"] c by simp
  show "cancel_effect ?k A A'"
  proof (cases "st_store A' = Some db' \<and> st_data A' = st_data A")
    case True
    then show ?thesis using cancel_effect_store[OF assms(1) db step cancel_queued_cases[OF c]] by blast
  next
    case False
    then have "A' = A" using assms(2) db c
      by (auto simp: cancel_stored_job_def Let_def db_job_def split: option.splits if_splits prod.splits bool.splits)
    then show ?thesis using cancel_effect_refl assms(1) by simp
  qed
  show "jv_state view = Cancelled" if "r = Ok view"
  proof -
    have "cancels ?k db db'" "\<exists>row. hm_get (db_jobs db') ?k = Some row \<and> job_view_from_stored (he_codec H) row (events_for_job (pc_organization_id p) job_id db') = Ok view"
      using assms(2) db c cancel_queued_cases[OF c] that
      by (auto simp: cancel_stored_job_def Let_def db_job_def split: option.splits if_splits prod.splits bool.splits)
    then show ?thesis by (auto simp: cancels_def parse_job_state_def dest!: job_view_state)
  qed
  show "st_store A' = st_store A \<or> (\<exists>db row. st_store A = Some db \<and> hm_get (db_jobs db) ?k = Some row \<and> can_cancel p (j_actor_user_id row))"
    using assms(2) db by (auto simp: cancel_stored_job_def Let_def db_job_def split: option.splits if_splits prod.splits bool.splits)
qed

text \<open>Who the caller must be able to act for: the actor of the resident copy, or of the row when there is none.\<close>

definition job_actor :: "string \<Rightarrow> string \<Rightarrow> AppState \<Rightarrow> string option" where
  "job_actor org job_id A =
     (case resident_job org job_id A of
        Some job \<Rightarrow> hj_actor_user_id job
      | None \<Rightarrow> Option.bind (Option.bind (st_store A) (db_job org job_id)) j_actor_user_id)"

text \<open>
  C13: A cancellation touches one job, and only one the caller may cancel. In a consistent Hub it leaves the Hub consistent, quota
  accounting included; no row of another job or another organization changes; the row of the named job in the
  organization of the caller changes only from a state that is neither terminal nor uploading, and to cancelled with its slot
  released, and only for a caller whose role cancels any job or who cancels an own one. An answer of success means that the job is cancelled, or that
  nothing was stored and the worker has acknowledged the command.
\<close>
theorem cancel_sound:
  assumes "hub_ok A" "st_store A = Some db" "cancel_job_for_principal H p job_id A = (A', r)"
  shows "hub_ok A' \<and> (\<exists>db'. st_store A' = Some db' \<and>
      (db_jobs db' = db_jobs db \<or>
       cancels (pc_organization_id p, job_id) db db' \<and> can_cancel p (job_actor (pc_organization_id p) job_id A))) \<and>
    (\<forall>view. r = Ok view \<longrightarrow> jv_state view = Cancelled \<or>
       st_store A' = st_store A \<and> (\<exists>ack. he_ack H = AckReceived ack \<and> ca_accepted ack))"
proof (cases "resident_job (pc_organization_id p) job_id A")
  case None
  then have run: "cancel_stored_job H p job_id A = (A', r)" using assms(3) by (simp add: cancel_job_for_principal_def)
  note e = cancel_stored_effect[OF assms(1) run]
  show ?thesis
    using e(1,2,3) assms(2) None by (auto simp: cancel_effect_def job_actor_def db_job_def)
next
  case (Some job)
  then have res: "hm_get (hd_jobs (st_data A)) job_id = Some job" "hj_organization_id job = pc_organization_id p"
    by (auto simp: resident_job_def split: option.splits if_splits)
  show ?thesis
  proof (cases "A' = A \<and> (\<exists>e. r = Err e)")
    case True
    then show ?thesis using assms(1,2) by auto
  next
    case False
    then have live: "principal_can_cancel_job p job" "\<not> is_terminal (jv_state (hj_view job))" "jv_state (hj_view job) \<noteq> Uploading"
      and run: "send_job_cancellation H job A = (A', r)"
      using assms(3) Some by (auto simp: cancel_job_for_principal_def split: if_splits)
    note e = send_job_cancellation_effect[OF assms(1) res(1) live(2,3) run]
    show ?thesis
      using e(1)[unfolded res(2)] e(2) assms(2) live(1) Some
      by (auto simp: cancel_effect_def job_actor_def principal_can_cancel_job_def)
  qed
qed

subsection \<open>A sample submission\<close>

text \<open>A member submits to the device of another organization, which is shared with the member by a grant.\<close>

definition sample_api :: api_env where
  "sample_api =
     \<lparr>en_sha256 = (\<lambda>bs. []), en_argon_hash = Ok, en_argon_verify = (\<lambda>_ _. False), en_rnd = id, en_bucket_hash = (\<lambda>_ _. 0),
      en_clock = (\<lambda>n. 20), en_instant = (\<lambda>_. 0), en_uuid = (\<lambda>n. CHR ''u'' # show_nat n), en_simple = (\<lambda>n. CHR ''s'' # show_nat n),
      en_parse_scopes = (\<lambda>_. None), en_json = (\<lambda>_. []), en_hex_decode = Some, en_b64_encode = of_bytes, en_b64_decode = Some,
      en_client = \<lparr>ot_post = (\<lambda>_ _. Ok (200, Ok [])), ot_get = (\<lambda>_ _. GetJson Null), ot_token_json = (\<lambda>_. None), ot_token_form = (\<lambda>_. Err []),
        ot_number = (\<lambda>_. [])\<rparr>\<rparr>"

definition sample_presigned :: "string \<Rightarrow> PresignedRequest" where
  "sample_presigned key = \<lparr>pr_method = ''GET'', pr_url = key, pr_headers = [], pr_expires_at_unix_ms = 1000\<rparr>"

definition sample_objects :: object_store where
  "sample_objects =
     \<lparr>os_presign_ttl_ms = 1000, os_presign_get = (\<lambda>key. Ok (sample_presigned key)), os_presign_put = (\<lambda>key _ _ _. Ok (sample_presigned key)),
      os_head = (\<lambda>key. Ok \<lparr>om_size_bytes = 10, om_content_type = Some ''image/png'', om_sha256 = None\<rparr>)\<rparr>"

definition sample_hub_env :: "AckOutcome \<Rightarrow> hub_env" where
  "sample_hub_env ack = \<lparr>he_api = sample_api, he_codec = sample_codec, he_objects = sample_objects, he_sent = True, he_ack = ack\<rparr>"

definition sample_principal :: Principal where
  "sample_principal =
     \<lparr>pc_kind = BrowserSession, pc_actor_id = ''b'', pc_user_id = Some ''ann'', pc_organization_id = ''o'', pc_role = Member, pc_scopes = []\<rparr>"

definition sample_grant :: device_grant_row where
  "sample_grant = \<lparr>g_allowed_workflows_json = ''[]'', g_max_concurrent_jobs = Some 2, g_expires_at = Some 50, g_revoked_at = None\<rparr>"

definition sample_app :: AppState where
  "sample_app =
     \<lparr>st_sessions = sample_registry, st_data = HubData_default,
      st_read_cache = \<lparr>rc_terminal_jobs = cache_new 5 4, rc_ready_artifacts = cache_new 5 4, rc_device_access = cache_new 5 4\<rparr>,
      st_store = Some (sample_store\<lparr>db_workers := [((''org'', ''lab/gpu''), \<lparr>w_owner_user_id = None, w_last_session_id = ''s1'', w_last_seen_at = 0\<rparr>)],
        db_device_grants := [((''org'', ''lab/gpu'', ''ann''), sample_grant)]\<rparr>)\<rparr>"

definition sample_submission :: SubmitJobRequest where
  "sample_submission =
     \<lparr>sq_workflow_id = ''w'', sq_workflow_version = ''1'', sq_parameters = Object [], sq_input_artifact_ids = [],
      sq_device_organization_id = None, sq_device_id = None\<rparr>"

definition sample_accepted :: CommandAck where
  "sample_accepted = \<lparr>ca_command_id = ''u2'', ca_accepted = True, ca_message = []\<rparr>"

definition sample_access :: DeviceAccess where
  "sample_access =
     \<lparr>dv_device_organization_id = ''org'', dv_device_id = ''lab/gpu'', dv_access_kind = ''shared_pool_device'',
      dv_allowed_workflows = [], dv_max_concurrent_jobs = Some 2, dv_grant_expires_at = Some 50\<rparr>"

definition sample_env :: hub_env where
  "sample_env = sample_hub_env (AckReceived sample_accepted)"

definition sample_db :: Db where
  "sample_db = the (st_store sample_app)"

definition sample_offer :: WorkerView where
  "sample_offer = worker_view_with_reservations (reserve_on ''u2'' (sample_session ''s1'' 1))"

definition sample_record :: HubJobRecord where
  "sample_record = submission_record sample_env sample_principal sample_submission sample_offer []"

definition sample_upsert :: JobUpsert where
  "sample_upsert = new_job_of sample_env sample_principal sample_submission sample_offer [] ''{}''"

lemma sample_env_simps:
  "he_codec sample_env = sample_codec" "en_clock (he_api sample_env) n = 20" "he_objects sample_env = sample_objects"
  by (simp_all add: sample_env_def sample_hub_env_def sample_api_def)

lemma sample_ids: "en_uuid (he_api sample_env) 1 = ''u1''" "en_uuid (he_api sample_env) 2 = ''u2''"
  by code_simp+

lemma sample_request:
  "pc_user_id sample_principal = Some ''ann''" "pc_organization_id sample_principal = ''o''"
  "sq_input_artifact_ids sample_submission = []" "sq_parameters sample_submission = Object []"
  "params_enc sample_codec (Object []) = Some ''{}''"
  by (simp_all add: sample_principal_def sample_submission_def sample_codec_def)

lemma sample_app_simps:
  "st_sessions sample_app = sample_registry" "st_store sample_app = Some sample_db"
  by (simp_all add: sample_app_def sample_db_def)

lemma sample_validation: "and_then (validate_submission sample_submission) (\<lambda>_. validate_device_choice sample_submission) = Ok ()"
  by code_simp

lemma sample_device_access: "snd (device_access_for_principal sample_env sample_principal sample_app) = Ok [sample_access]"
  by (simp add: device_access_for_principal_def cached_device_access_def cache_get_def cache_new_def device_access_for_user_def
      sample_app_def sample_principal_def sample_env_def sample_hub_env_def sample_api_def sample_codec_def Let_def hm_get_def
      map_filter_def grant_active_def sample_grant_def sample_store_def parse_workflow_rules_def sample_access_def)

lemma sample_accessible:
  "map (\<lambda>w. (wv_organization_id w, wv_worker_id w)) (accessible_workers [sample_access] sample_registry) = [(''org'', ''lab/gpu'')]"
  by (simp add: accessible_workers_def allowed_devices_def sample_access_def list_matching_workflows_def Let_def sample_registry_def
      hm_values_def sample_session_def sample_register_def map_filter_def device_workflow_allowed_def
      worker_view_with_reservations_and_workflows_def)

lemma sample_reserved:
  "reserve_capacity ''u2'' (device_chosen sample_submission [(''org'', ''lab/gpu'')]) sample_registry =
     (sample_registry\<lparr>sr_inner := [(session_key ''org'' ''lab/gpu'', reserve_on ''u2'' (sample_session ''s1'' 1))]\<rparr>, Some sample_offer)"
proof -
  have "device_chosen sample_submission [(''org'', ''lab/gpu'')] (ws_view (sample_session ''s1'' 1))" by code_simp
  then show ?thesis
    using sample_has_slot
    by (simp add: reserve_capacity_def sample_registry_def Let_def hm_insert_def sample_session_view sample_offer_def)
qed

lemma sample_admission:
  "device_admission ''ann'' sample_record 20 =
     \<lparr>da_organization_id = ''o'', da_user_id = ''ann'', da_device_organization_id = ''org'', da_device_id = ''lab/gpu'', da_workflow_id = ''w'',
      da_workflow_version = ''1'', da_requested_jobs = 1, da_now = 20\<rparr>"
proof -
  have "wv_organization_id sample_offer = ''org''" "wv_worker_id sample_offer = ''lab/gpu''"
    by (simp_all add: sample_offer_def worker_view_with_reservations_def reserve_on_def sample_session_view)
  then show ?thesis
    by (simp add: device_admission_def sample_record_def submission_record_def submitted_job_def sample_principal_def sample_submission_def)
qed

lemma sample_committed:
  "\<exists>db1. commit_new_job sample_codec sample_upsert [] None (Some (device_admission ''ann'' sample_record 20)) sample_db = (db1, Ok JobCreated)"
proof -
  have "enforce_device_use_policy_tx sample_codec (device_admission ''ann'' sample_record 20) sample_db = Ok ()"
    unfolding sample_admission by code_simp
  then show ?thesis
    unfolding commit_new_job_def sample_upsert_def new_job_of_simps
    by (simp add: resolve_idempotency_def sample_principal_def sample_db_def sample_app_def sample_store_def hm_get_def hm_contains_def
        period_jobs_now_def sample_env_simps Let_def)
qed

lemma sample_workers:
  obtains A1 where "accessible_workers_for sample_env sample_principal sample_app = (A1, Ok (accessible_workers [sample_access] sample_registry))"
    "same_state sample_app A1"
proof -
  have "st_sessions (fst (device_access_for_principal sample_env sample_principal sample_app)) = sample_registry"
    using accessible_workers_same[of sample_app sample_env sample_principal] sample_app_simps
    by (auto simp: accessible_workers_for_def same_state_def split: prod.splits sum.splits)
  then show ?thesis
    using sample_device_access accessible_workers_same[of sample_app sample_env sample_principal]
    by - (rule that, auto simp: accessible_workers_for_def split: prod.splits)
qed

lemma sample_delivered:
  obtains B db1 where
    "submit_job_for_principal sample_env (\<lambda>_. None) sample_principal None sample_submission sample_app = deliver_submission sample_env sample_record B"
    "st_data B = publish_submission sample_record [] (st_data sample_app)" "st_store B = Some db1"
    "commit_new_job sample_codec sample_upsert [] None (Some (device_admission ''ann'' sample_record 20)) sample_db = (db1, Ok JobCreated)"
proof -
  obtain A1 where w: "accessible_workers_for sample_env sample_principal sample_app = (A1, Ok (accessible_workers [sample_access] sample_registry))"
    and s: "st_store A1 = Some sample_db" "st_data A1 = st_data sample_app" "st_sessions A1 = sample_registry"
    using sample_workers sample_app_simps by (auto simp: same_state_def)
  obtain db1 where d: "commit_new_job sample_codec sample_upsert [] None (Some (device_admission ''ann'' sample_record 20)) sample_db = (db1, Ok JobCreated)"
    using sample_committed by blast
  have f: "sample_upsert = job_upsert_of ''{}'' (ids_enc sample_codec []) (ids_enc sample_codec []) sample_record"
    by (simp add: sample_upsert_def new_job_of_def sample_env_simps sample_request sample_record_def)
  have rec: "submitted_job (pc_organization_id sample_principal) (submission_actor sample_principal) (principal_kind_name (pc_kind sample_principal))
       (Some ''ann'') sample_submission sample_offer ''u2'' ''u1'' [] 20 = sample_record"
    by (simp add: sample_record_def submission_record_def sample_env_simps sample_ids[simplified] sample_request)
  have v: "jv_parameters (hj_view sample_record) = Object []" "jv_input_artifact_ids (hj_view sample_record) = []"
    "jv_output_artifact_ids (hj_view sample_record) = []" "jv_created_at_unix_ms (hj_view sample_record) = 20"
    by (simp_all add: sample_record_def submission_record_def submitted_job_def sample_env_simps sample_request)
  note o = sample_request(2)
  show ?thesis
    by (rule that[OF _ _ _ d],
        simp_all add: submit_job_for_principal_def sample_validation sample_app_simps(2) Let_def store_idempotency_def place_submission_def w
          sample_request(1,3-) presigned_inputs_def s sample_accessible sample_reserved sample_env_simps sample_ids rec commit_submission_def
          commit_job_record_def v d[unfolded f] f del: One_nat_def) simp_all
qed

lemma sample_submitted:
  obtains A' r db' row where
    "submit_job_for_principal sample_env (\<lambda>_. None) sample_principal None sample_submission sample_app = (A', r)"
    "st_store A' = Some db'" "hm_get (db_jobs db') (''o'', ''u1'') = Some row"
proof -
  obtain B db1 where b: "submit_job_for_principal sample_env (\<lambda>_. None) sample_principal None sample_submission sample_app =
      deliver_submission sample_env sample_record B"
    "st_data B = publish_submission sample_record [] (st_data sample_app)" "st_store B = Some db1"
    "commit_new_job sample_codec sample_upsert [] None (Some (device_admission ''ann'' sample_record 20)) sample_db = (db1, Ok JobCreated)"
    by (rule sample_delivered)
  have ids: "hj_organization_id sample_record = ''o''" "jv_id (hj_view sample_record) = ''u1''" "\<not> is_terminal (jv_state (hj_view sample_record))"
    by (simp_all add: sample_record_def sample_ids[simplified] sample_request is_terminal_def)
  have up: "ju_organization_id sample_upsert = ''o''" "ju_id sample_upsert = ''u1''" "ju_attempt sample_upsert = 1"
    by (simp_all add: sample_upsert_def sample_request sample_ids[simplified])
  from b(4) have c: "hm_get (db_jobs db1) (''o'', ''u1'') = Some (new_job_row sample_upsert)"
    "hm_get (db_dispatch_outbox db1) (''o'', ''u1'', 1) \<noteq> None"
    by (cases rule: commit_new_job_cases; simp add: up)+
  have res: "hm_get (hd_jobs (st_data B)) ''u1'' = Some sample_record" by (simp add: b(2) publish_submission_def Let_def ids)
  obtain A' r where run: "deliver_submission sample_env sample_record B = (A', r)" by fastforce
  from deliver_submission_effect[OF run, unfolded ids, OF res ids(3) b(3) c(1)] c(2) new_job_row_of(1) that b(1) run
  show ?thesis by (auto simp: sample_record_def sample_upsert_def)
qed

lemma sample_fresh: "fresh_command (en_uuid (he_api sample_env) 2) (st_sessions sample_app)"
  by (simp add: fresh_command_def sample_app_simps sample_registry_def hm_values_def sample_session_def sample_register_def)

lemma sample_no_job: "hm_get (db_jobs sample_db) k = None" "hm_wf (db_artifacts sample_db)"
  by (simp_all add: sample_db_def sample_app_def sample_store_def hm_get_def hm_wf_def)

theorem submission_all_or_nothing_witness:
  "\<exists>A' r db' view row row' box.
     submit_job_for_principal sample_env (\<lambda>_. None) sample_principal None sample_submission sample_app = (A', r) \<and>
     st_store A' = Some db' \<and> hm_get (db_jobs db') (''o'', ''u1'') = Some row' \<and> jv_id view = ''u1'' \<and>
     j_state row = ''received'' \<and> submission_outcome r view row row' box"
proof -
  obtain A' r db' row where s: "submit_job_for_principal sample_env (\<lambda>_. None) sample_principal None sample_submission sample_app = (A', r)"
    "st_store A' = Some db'" "hm_get (db_jobs db') (''o'', ''u1'') = Some row" by (rule sample_submitted)
  have inv: "registry_inv (st_sessions sample_app)" using sample_registry_inv sample_app_simps by simp
  from submission_all_or_nothing[OF inv sample_fresh s(1)] s show ?thesis
    by (auto simp: sample_ids[simplified] sample_request sample_app_simps sample_no_job)
qed

theorem submission_admitted_witness:
  "\<exists>A' r db' row worg wid s. submit_job_for_principal sample_env (\<lambda>_. None) sample_principal None sample_submission sample_app = (A', r) \<and>
     st_store A' = Some db' \<and> hm_get (db_jobs db') (''o'', ''u1'') = Some row \<and> j_actor_user_id row = Some ''ann'' \<and>
     j_worker_organization_id row = Some worg \<and> j_worker_id row = Some wid \<and> sr_get sample_registry worg wid = Some s \<and> has_free_slot s"
proof -
  obtain A' r db' row where s: "submit_job_for_principal sample_env (\<lambda>_. None) sample_principal None sample_submission sample_app = (A', r)"
    "st_store A' = Some db'" "hm_get (db_jobs db') (''o'', ''u1'') = Some row" by (rule sample_submitted)
  have inv: "registry_inv (st_sessions sample_app)" using sample_registry_inv sample_app_simps by simp
  from submission_admitted[OF inv sample_fresh s(1) sample_app_simps(2) sample_no_job(2) s(2) sample_no_job(1) s(3)] s show ?thesis
    by (auto simp: sample_request sample_app_simps)
qed

subsection \<open>A sample cancellation\<close>

definition sample_canceller :: Principal where
  "sample_canceller = sample_principal\<lparr>pc_role := Owner\<rparr>"

text \<open>The worker of the job is gone.\<close>

definition sample_abandoned :: AppState where
  "sample_abandoned = (sample_hub ''o'' sample_store1)\<lparr>st_sessions := \<lparr>sr_inner = [], sr_revoked_credentials = [], sr_conns = []\<rparr>\<rparr>"

lemma sample_cancel_stored:
  "snd (cancel_in_store ''j'' (sample_hub_job ''o'') (cancel_message Received) 20 sample_store1)"
  by code_simp

lemma sample_cancelled:
  "\<exists>A' view. cancel_job_for_principal sample_env sample_canceller ''j'' sample_abandoned = (A', Ok view)"
proof -
  have a: "principal_can_cancel_job sample_canceller (sample_hub_job ''o'')" by code_simp
  have v: "jv_state (hj_view (sample_hub_job ''o'')) = Received" "jv_id (hj_view (sample_hub_job ''o'')) = ''j''"
    "hj_organization_id (sample_hub_job ''o'') = ''o''" "jv_worker_id (hj_view (sample_hub_job ''o'')) = ''n''"
    by (simp_all add: sample_hub_job_def)
  show ?thesis
    using sample_cancel_stored a
    by (auto simp: cancel_job_for_principal_def resident_job_def sample_abandoned_def sample_hub_def HubData_default_def hm_get_def
        sample_canceller_def sample_principal_def v is_terminal_def send_job_cancellation_def Let_def current_session_id_def sr_get_def
        sample_env_simps cancel_job_locally_def cancel_resident_def split: option.splits prod.splits)
qed

theorem cancel_sound_witness:
  "\<exists>A' view. cancel_job_for_principal sample_env sample_canceller ''j'' sample_abandoned = (A', Ok view) \<and>
     hub_ok A' \<and> (jv_state view = Cancelled \<or> st_store A' = Some sample_store1)"
proof -
  obtain A' view where c: "cancel_job_for_principal sample_env sample_canceller ''j'' sample_abandoned = (A', Ok view)"
    using sample_cancelled by blast
  have "hub_ok sample_abandoned" "st_store sample_abandoned = Some sample_store1"
    using sample_own_ok by (simp_all add: sample_abandoned_def) (simp add: sample_hub_def)
  from cancel_sound[OF this c] this c show ?thesis by auto
qed

end
