(* ===== verification/Hub_Artifacts_Props.thy ===== *)
theory Hub_Artifacts_Props
  imports Hub_Submit_Props
begin

text \<open>
  What the client API of the Hub guarantees of artifacts: a download stays in the organization of the caller, and the
  storage quota follows the uploads.
\<close>

subsection \<open>What a read cache holds\<close>

definition cache_holds :: "(string \<Rightarrow> 'a \<Rightarrow> bool) \<Rightarrow> 'a TtlCache \<Rightarrow> bool" where
  "cache_holds P c \<longleftrightarrow> (\<forall>k e. hm_get (tc_entries c) k = Some e \<longrightarrow> P k (ce_value e))"

lemma hm_get_remove_any [simp]: "hm_get (hm_remove k m) = (hm_get m)(k := None)"
  by (simp add: hm_get_def hm_remove_def delete_conv')

lemma drop_expired_sub: "hm_get (snd (drop_expired_loop now order es)) k = Some e \<Longrightarrow> hm_get es k = Some e"
  by (induction now order es rule: drop_expired_loop.induct) (auto split: option.splits if_splits)

lemma evict_oldest_sub: "hm_get (snd (evict_oldest_loop order es)) k = Some e \<Longrightarrow> hm_get es k = Some e"
  by (induction order es rule: evict_oldest_loop.induct) (auto split: if_splits)

lemma cache_holds_get:
  assumes "cache_holds P c" "cache_get now k c = (c', r)"
  shows "cache_holds P c'" "r = Some v \<Longrightarrow> P k v"
  using assms by (auto simp: cache_holds_def cache_get_def split: option.splits if_splits)

lemma cache_holds_insert:
  assumes "cache_holds P c" "P k v"
  shows "cache_holds P (cache_insert now k v c)"
proof -
  have d: "cache_holds P (cache_drop_expired now c)"
    using assms(1) drop_expired_sub[of now "tc_order c" "tc_entries c"]
    by (fastforce simp: cache_holds_def cache_drop_expired_def split: prod.splits)
  have e: "cache_holds P (cache_evict_oldest c')" if "cache_holds P c'" for c'
    using that evict_oldest_sub[of "tc_order c'" "tc_entries c'"]
    by (fastforce simp: cache_holds_def cache_evict_oldest_def split: prod.splits)
  show ?thesis
    using d e assms(2) by (auto simp: cache_insert_def Let_def cache_compact_def cache_holds_def)
qed

lemma cache_holds_remove: "cache_holds P c \<Longrightarrow> cache_holds P (cache_remove k c)"
  by (auto simp: cache_holds_def cache_remove_def)

subsection \<open>Downloads\<close>

text \<open>
  Rows are stored under their organization, and a cached artifact under the key of its own; organization ids are
  UUIDs, so the separator of a key is not among their characters.
\<close>

definition plain_id :: "string \<Rightarrow> bool" where
  "plain_id org \<longleftrightarrow> CHR 0x00 \<notin> set org"

definition tenants_ok :: "AppState \<Rightarrow> bool" where
  "tenants_ok A \<longleftrightarrow>
     (\<forall>db k a. st_store A = Some db \<longrightarrow> hm_get (db_artifacts db) k = Some a \<longrightarrow> a_organization_id a = fst k) \<and>
     cache_holds (\<lambda>k a. plain_id (arec_organization_id a) \<and> (\<exists>i. k = read_cache_key (arec_organization_id a) i))
       (rc_ready_artifacts (st_read_cache A))"

lemma artifact_from_stored_org: "artifact_from_stored m a = Ok r \<Longrightarrow> arec_organization_id r = a_organization_id a"
  by (auto simp: artifact_from_stored_def and_then_eq_Ok split: option.splits)

lemma artifact_record_tenant:
  assumes "tenants_ok A" "plain_id org" "artifact_record inst org i A = (A', r)"
  shows "tenants_ok A'" "r = Ok a \<Longrightarrow> arec_organization_id a = org"
proof -
  let ?P = "\<lambda>k a. plain_id (arec_organization_id a) \<and> (\<exists>i. k = read_cache_key (arec_organization_id a) i)"
  obtain t hit where g: "cache_get inst (read_cache_key org i) (rc_ready_artifacts (st_read_cache A)) = (t, hit)" by fastforce
  note c = cache_holds_get[OF assms(1)[unfolded tenants_ok_def, THEN conjunct2] g]
  have own: "arec_organization_id v = org" if "hit = Some v" for v
    using c(2)[OF that] assms(2) by (auto simp: read_cache_key_def plain_id_def join_key_inject)
  have new: "cache_holds ?P (cache_insert inst (read_cache_key org i) v t)" if "arec_organization_id v = org" for v
    using cache_holds_insert[where P = ?P, OF c(1)] that assms(2) by auto
  have row: "arec_organization_id v = org"
    if "st_store A = Some db" "hm_get (db_artifacts db) (org, i) = Some x" "artifact_from_stored m x = Ok v" for db x v m
    using assms(1) that artifact_from_stored_org[OF that(3)] by (auto simp: tenants_ok_def)
  show "tenants_ok A'" "r = Ok a \<Longrightarrow> arec_organization_id a = org"
    using assms(1,3) c(1) own new row g
    by (auto simp: artifact_record_def artifact_record_stored_def cached_artifact_def cache_artifact_def db_artifact_def Let_def tenants_ok_def
        split: option.splits if_splits sum.splits)
qed

lemma job_state_for_tenant: "tenants_ok A \<Longrightarrow> tenants_ok (fst (job_state_for inst org job_id A))"
  by (auto simp: job_state_for_def cached_job_def tenants_ok_def Let_def split: option.splits prod.splits)


subsection \<open>Uploads and the storage quota\<close>

lemma sint_u64: "0 \<le> sint (x :: u64) \<Longrightarrow> sint x = uint x \<and> u64_to_i64_or_max x = uint x"
  using sint_less[of x] uint_sint[of x] by (simp add: u64_to_i64_or_max_def i64_max_def take_bit_int_eq_self)

text \<open>The bytes an organization uses, and a pending row that holds some of them until it expires.\<close>

definition storage_used :: "string \<Rightarrow> Db \<Rightarrow> i64 option" where
  "storage_used org db = map_option qu_storage_bytes (hm_get (db_quota_usage db) org)"

lemma release_storage_used:
  "storage_used org (release_storage now org n db) = map_option (\<lambda>b. max 0 (b - max n 0)) (storage_used org db)"
  by (simp add: storage_used_def release_storage_def update_key_def update_where_def split: option.splits)

lemma create_artifact_cases:
  "create_artifact i db = (db', r) \<Longrightarrow> storage_used org db' = storage_used org db \<and>
     (r = Ok () \<and> 0 \<le> sint (af_size_bytes i) \<and> (\<exists>a. hm_get (db_artifacts db') (af_organization_id i, af_id i) = Some a \<and>
        a_state a = af_state i \<and> a_size_bytes a = sint (af_size_bytes i) \<and> a_expires_at a = af_expires_at i) \<or>
      r = Err Database \<and> db' = db)"
  by (auto simp: create_artifact_def storage_used_def Let_def split: if_splits)

lemma reserve_storage_cases:
  assumes "reserve_storage now org n db = (db', r)"
  obtains e where "r = Err e" "db' = db"
  | quota usage where "r = Ok ()" "0 \<le> n" "quota_snapshot org db = Ok (quota, usage)"
      "i64_saturating_add (qu_storage_bytes usage) n \<le> qp_max_storage_bytes quota"
      "storage_used org db' = Some (qu_storage_bytes usage + n)" "db_artifacts db' = db_artifacts db"
  using assms
  by (auto simp: reserve_storage_def quota_snapshot_def storage_used_def update_key_def update_where_def split: option.splits if_splits)

lemma release_storage_artifacts [simp]: "db_artifacts (release_storage now org n db) = db_artifacts db"
  by (simp add: release_storage_def)

lemma persist_pending_cases:
  assumes "persist_artifact os now (pending_artifact org i req) A = (A', r)" "st_store A = Some db"
  obtains e where "r = Err e" "A' = A"
  | db' a where "r = Ok ()" "st_store A' = Some db'" "storage_used org db' = storage_used org db" "0 \<le> sint (cr_size_bytes req)"
      "hm_get (db_artifacts db') (org, i) = Some a" "a_state a = ''pending_upload''"
      "a_size_bytes a = sint (cr_size_bytes req)" "a_expires_at a \<noteq> None"
  using assms by (auto simp: persist_artifact_def pending_artifact_def create_artifact_def storage_used_def Let_def split: if_splits)

lemma start_upload_cases:
  assumes run: "start_upload H org req A = (A', r)" and store: "st_store A = Some db"
  obtains e db' where "r = Err e" "st_store A' = Some db'" "db_artifacts db' = db_artifacts db"
      "storage_used org db' = map_option (\<lambda>used. max 0 (used - max (u64_to_i64_or_max (cr_size_bytes req)) 0)) (storage_used org db)"
  | resp db' a where "r = Ok resp" "st_store A' = Some db'" "storage_used org db' = storage_used org db" "0 \<le> sint (cr_size_bytes req)"
      "hm_get (db_artifacts db') (org, av_id (cs_artifact resp)) = Some a" "a_state a = ''pending_upload''"
      "a_size_bytes a = sint (cr_size_bytes req)" "a_expires_at a \<noteq> None"
proof -
  let ?i = "en_uuid (he_api H) 1" and ?now = "en_clock (he_api H) 1"
  let ?rec = "pending_artifact org ?i req"
  note undone = that(1)[of _ "release_storage ?now org (u64_to_i64_or_max (cr_size_bytes req)) db", unfolded release_storage_used[of org]]
  show ?thesis
  proof (cases "os_presign_put (he_objects H) (arec_object_key ?rec) (cr_content_type req) (cr_size_bytes req) (cr_sha256 req)")
    case (Inl e)
    with run store undone[of "ObjectStore e"] show ?thesis
      by (auto simp: start_upload_def Let_def state_release_storage_def)
  next
    case (Inr upload)
    obtain B q where q: "persist_artifact (he_objects H) ?now ?rec A = (B, q)" by fastforce
    from q store show ?thesis
    proof (cases rule: persist_pending_cases)
      case (1 e)
      with run store Inr q undone[of e] show ?thesis
        by (auto simp: start_upload_def Let_def state_release_storage_def)
    next
      case (2 db' a)
      have "av_id (arec_view ?rec) = ?i" by (simp add: pending_artifact_def)
      with 2 run Inr q that(2)[of "\<lparr>cs_artifact = arec_view ?rec, cs_upload = upload\<rparr>" db' a] show ?thesis
        by (auto simp: start_upload_def Let_def)
    qed
  qed
qed

text \<open>
  C15: The storage quota follows the uploads that are announced. A request that succeeds was within the limit of the organization, adds
  exactly the announced bytes to what the organization uses, and leaves a pending row of that size with an expiry, by which they are
  reclaimed if nothing arrives; a request that fails, whether refused or after the reservation, leaves usage and rows as they were.
\<close>
theorem upload_accounted:
  assumes "st_store A = Some db" "storage_used (pc_organization_id p) db = Some used" "0 \<le> used"
    and "create_upload_for_principal H C p req A = (A', r)"
  shows "\<exists>db'. st_store A' = Some db' \<and>
    (case r of
       Err _ \<Rightarrow> storage_used (pc_organization_id p) db' = Some used \<and> db_artifacts db' = db_artifacts db
     | Ok resp \<Rightarrow>
         0 < cr_size_bytes req \<and> cr_size_bytes req \<le> hc_max_artifact_bytes C \<and>
         (\<exists>quota usage. quota_snapshot (pc_organization_id p) db = Ok (quota, usage) \<and>
            i64_saturating_add used (uint (cr_size_bytes req)) \<le> qp_max_storage_bytes quota) \<and>
         storage_used (pc_organization_id p) db' = Some (used + uint (cr_size_bytes req)) \<and>
         (\<exists>a. hm_get (db_artifacts db') (pc_organization_id p, av_id (cs_artifact resp)) = Some a \<and>
            a_state a = ''pending_upload'' \<and> a_size_bytes a = uint (cr_size_bytes req) \<and> a_expires_at a \<noteq> None))"
proof (cases "validate_upload C req")
  case (Inl e)
  then show ?thesis using assms by (auto simp: create_upload_for_principal_def)
next
  case (Inr u)
  let ?org = "pc_organization_id p" and ?n = "u64_to_i64_or_max (cr_size_bytes req)"
  have size: "0 < cr_size_bytes req" "cr_size_bytes req \<le> hc_max_artifact_bytes C"
    using Inr by (auto simp: validate_upload_def validate_artifact_metadata_def not_less word_neq_0_conv split: if_splits)
  obtain db1 q where q: "reserve_storage (en_clock (he_api H) 0) ?org ?n db = (db1, q)" by fastforce
  from q show ?thesis
  proof (cases rule: reserve_storage_cases)
    case (1 e)
    then show ?thesis using assms q Inr by (auto simp: create_upload_for_principal_def state_reserve_storage_def)
  next
    case (2 quota usage)
    have used: "qu_storage_bytes usage = used" using 2(3) assms(2) by (auto simp: quota_snapshot_def storage_used_def split: option.splits)
    have run: "start_upload H ?org req (A\<lparr>st_store := Some db1\<rparr>) = (A', r)"
      using assms q Inr 2 by (simp add: create_upload_for_principal_def state_reserve_storage_def)
    have store: "st_store (A\<lparr>st_store := Some db1\<rparr>) = Some db1" by simp
    from run store show ?thesis
    proof (cases rule: start_upload_cases)
      case (1 e db')
      then show ?thesis using 2 used assms(3) by simp
    next
      case (2 resp db' a)
      note ok = this
      have n: "sint (cr_size_bytes req) = uint (cr_size_bytes req)" "?n = uint (cr_size_bytes req)"
        using sint_u64[OF ok(4)] by simp_all
      show ?thesis
        using ok n used size \<open>quota_snapshot ?org db = Ok (quota, usage)\<close> \<open>storage_used ?org db1 = Some (qu_storage_bytes usage + ?n)\<close>
          \<open>i64_saturating_add (qu_storage_bytes usage) ?n \<le> qp_max_storage_bytes quota\<close> by simp
    qed
  qed
qed

subsection \<open>Sample artifacts\<close>

definition sample_shelf :: AppState where
  "sample_shelf = sample_app\<lparr>st_store := Some (sample_db\<lparr>db_artifacts := [((''o'', ''x''), sample_artifact)]\<rparr>)\<rparr>"

lemma sample_shelf_ok: "tenants_ok sample_shelf"
  by (simp add: tenants_ok_def sample_shelf_def sample_app_def cache_holds_def cache_new_def hm_get_def sample_artifact_def split: if_splits)

lemma sample_download: "\<exists>A' d. download_for_principal sample_env sample_principal ''x'' sample_shelf = (A', Ok d)"
  by (auto simp: download_for_principal_def readable_artifact_for_principal_def readable_artifact_def presigned_download_def Let_def
      artifact_record_def artifact_record_stored_def cached_artifact_def cache_get_def cache_new_def db_artifact_def sample_shelf_def sample_app_def
      HubData_default_def hm_get_def sample_artifact_def artifact_from_stored_def u64_try_from_def parse_artifact_state_def
      sample_request sample_env_simps sample_objects_def split: option.splits prod.splits)


definition sample_announced :: CreateUploadRequest where
  "sample_announced = \<lparr>cr_name = ''a.png'', cr_content_type = ''image/png'', cr_size_bytes = 10, cr_sha256 = replicate 64 (CHR ''0'')\<rparr>"

definition sample_limits :: hub_config where
  "sample_limits = \<lparr>hc_consumer_token = None, hc_legacy_organization_id = ''l'', hc_max_artifact_bytes = 50\<rparr>"

lemma sample_announced_ok: "validate_upload sample_limits sample_announced = Ok ()"
  by code_simp

lemma sample_upload: "\<exists>A' resp. create_upload_for_principal sample_env sample_limits sample_principal sample_announced sample_app = (A', Ok resp)"
proof -
  have "storage_used ''o'' sample_db = Some 0" "snd (reserve_storage 20 ''o'' 10 sample_db) = Ok ()" by code_simp+
  then obtain db1 where r: "reserve_storage 20 ''o'' 10 sample_db = (db1, Ok ())" by (metis prod.collapse)
  have s: "cr_size_bytes sample_announced = 10" "u64_to_i64_or_max (10 :: u64) = 10" "sint (10 :: u64) = 10" "en_uuid (he_api sample_env) (Suc 0) = ''u1''"
    by (simp_all add: sample_announced_def u64_to_i64_or_max_def i64_max_def sample_ids(1)[simplified])
  show ?thesis
    using r by (auto simp: create_upload_for_principal_def sample_announced_ok state_reserve_storage_def sample_app_simps sample_env_simps sample_request
        s start_upload_def Let_def sample_objects_def persist_artifact_def pending_artifact_def create_artifact_def split: option.splits)
qed

theorem upload_accounted_witness:
  "\<exists>A' resp db'. create_upload_for_principal sample_env sample_limits sample_principal sample_announced sample_app = (A', Ok resp) \<and>
     st_store A' = Some db' \<and> storage_used ''o'' db' = Some 10"
proof -
  obtain A' resp where u: "create_upload_for_principal sample_env sample_limits sample_principal sample_announced sample_app = (A', Ok resp)"
    using sample_upload by blast
  have "storage_used (pc_organization_id sample_principal) sample_db = Some 0" "uint (cr_size_bytes sample_announced) = 10" by code_simp+
  with upload_accounted[OF sample_app_simps(2) this(1) _ u] u show ?thesis by (auto simp: sample_request)
qed

subsection \<open>A refused upload\<close>

text \<open>
  An upload that does not match its declaration gives its bytes back at once and leaves the pending row in the store, where the reclamation of
  expired uploads finds it and gives the same bytes back again: here an organization that stores ten bytes ends with a usage of none.
\<close>

lemma refused_upload_keeps_row:
  assumes "st_store A = Some db" "complete_upload_for_principal H p artifact_id req A = (A', Err wrong_upload)"
  shows "\<exists>db' a. resident_artifact (pc_organization_id p) artifact_id A = Some a \<and> st_store A' = Some db' \<and> db_artifacts db' = db_artifacts db"
  using assms
  by (auto simp: complete_upload_for_principal_def Let_def state_release_storage_def wrong_upload_def persist_artifact_def create_artifact_def
    split: if_splits option.splits sum.splits prod.splits)

definition sample_pending :: StoredArtifact where
  "sample_pending = sample_artifact\<lparr>a_id := ''y'', a_size_bytes := 10, a_state := ''pending_upload'', a_expires_at := Some 30\<rparr>"

definition sample_refusing :: AppState where
  "sample_refusing = sample_app\<lparr>
     st_data := HubData_default\<lparr>hd_artifacts := [(''y'', pending_artifact ''o'' ''y'' sample_announced)]\<rparr>,
     st_store := Some (sample_db\<lparr>db_artifacts := [((''o'', ''x''), sample_artifact\<lparr>a_size_bytes := 10\<rparr>), ((''o'', ''y''), sample_pending)],
       db_quota_usage := [(''o'', \<lparr>qu_active_jobs = 0, qu_storage_bytes = 20, qu_period_jobs = 0, qu_period_started_at = 0, qu_updated_at = 0\<rparr>)]\<rparr>)\<rparr>"

definition sample_mismatch :: CompleteUploadRequest where
  "sample_mismatch = \<lparr>cq_artifact_id = ''y'', cq_size_bytes = 9, cq_sha256 = []\<rparr>"

lemma refused_upload_released_twice:
  "snd (complete_upload_for_principal sample_env sample_principal ''y'' sample_mismatch sample_refusing) = Err wrong_upload \<and>
   map_option (storage_used ''o'') (st_store sample_refusing) = Some (Some 20) \<and>
   map_option (\<lambda>db. let db' = fst (reclaim_expired_uploads 31 10 db) in (storage_used ''o'' db', map fst (db_artifacts db')))
     (st_store (fst (complete_upload_for_principal sample_env sample_principal ''y'' sample_mismatch sample_refusing))) = Some (Some 0, [(''o'', ''x'')])"
  by (intro conjI; code_simp)

end
